(* ===== verification/Prelude.thy ===== *)
theory Prelude
  imports Complex_Main "HOL-Library.Word" "HOL-Library.Finite_Map" "HOL-Library.List_Lexorder"
    "HOL-Library.Char_ord" "HOL-Library.Multiset"
begin

text \<open>
  Shared vocabulary of the development: Go's machine integers, maps, durations, dynamically
  typed values and call results, with the lemmas the component theories rest on.

  \<^item> A Go map is a finite map \<open>('k, 'v) fmap\<close>.  Reading a missing key yields the zero value
    of the element type (\<open>fmget\<close>).  A \<open>for k, v := range m\<close> loop is a \<open>foldl\<close> over
    \<open>go_range m\<close>; Go leaves the iteration order open, and \<open>foldl_range_lookup\<close> shows
    that a loop body that only touches its own key gives the same map for every order.
  \<^item> An instant is an \<open>int\<close> counting nanoseconds since Go's zero time (so \<open>time.Time{}\<close> is
    0); the current time is an argument of every operation that reads the clock.  A difference
    of instants saturates at the range of \<open>time.Duration\<close> as \<open>Time.Sub\<close> does.
  \<^item> \<open>int\<close> counters that cannot reach \<open>2 ^ 63\<close> by single increments are HOL integers;
    \<open>uint64\<close>, \<open>uint32\<close>, \<open>uint16\<close> and \<open>byte\<close> keep their width.
\<close>

section \<open>Types\<close>

type_synonym u8 = "8 word"
type_synonym u16 = "16 word"
type_synonym u32 = "32 word"
type_synonym u64 = "64 word"
type_synonym uuid = "128 word"
type_synonym go_time = int
type_synonym duration = int

text \<open>The collections the component proofs draw on.\<close>

named_theorems range_simps \<open>what a range loop computes, key by key\<close>
named_theorems op_defs \<open>definitions of the operations of a component\<close>

text \<open>A value of Go's \<open>interface{}\<close>, as far as the program inspects such values.\<close>

datatype gval = VNil | VBool bool | VInt int | VFloat rat | VStr string | VTime int
  | VList "gval list" | VMap "(string \<times> gval) list"

text \<open>
  The outcome of a call that takes a non-reentrant lock: it returns a value, it returns an
  error (with the state it leaves behind), it panics, or it waits for a lock its own goroutine
  holds.
\<close>

datatype ('e, 'a) outcome = Returned 'a | Failed 'e 'a | Panicked | Blocked

section \<open>Maps\<close>

definition fmget :: "'v \<Rightarrow> ('k, 'v) fmap \<Rightarrow> 'k \<Rightarrow> 'v" where
  "fmget z m k = (case fmlookup m k of None \<Rightarrow> z | Some v \<Rightarrow> v)"

definition fmodify :: "'v \<Rightarrow> 'k \<Rightarrow> ('v \<Rightarrow> 'v) \<Rightarrow> ('k, 'v) fmap \<Rightarrow> ('k, 'v) fmap" where
  "fmodify z k f m = fmupd k (f (fmget z m k)) m"

definition go_range :: "('k::linorder, 'v) fmap \<Rightarrow> ('k \<times> 'v) list" where
  "go_range m = sorted_list_of_fmap m"

definition enumerates :: "('k \<times> 'v) list \<Rightarrow> ('k, 'v) fmap \<Rightarrow> bool" where
  "enumerates xs m \<longleftrightarrow> distinct (map fst xs) \<and> map_of xs = fmlookup m"

section \<open>Time\<close>

definition nanosecond :: duration where "nanosecond = 1"
definition millisecond :: duration where "millisecond = 1000000"
definition second :: duration where "second = 1000000000"
definition minute :: duration where "minute = 60 * second"

lemmas time_units = nanosecond_def millisecond_def second_def minute_def

definition time_sub :: "go_time \<Rightarrow> go_time \<Rightarrow> duration" where
  "time_sub a b = max (- (2 ^ 63)) (min (2 ^ 63 - 1) (a - b))"

section \<open>Lemmas on error results\<close>

text \<open>An early return \<open>if err != nil { return err }\<close> between two checks.\<close>

lemma error_chain_None:
  "(case e of None \<Rightarrow> r | Some x \<Rightarrow> Some x) = None \<longleftrightarrow> e = None \<and> r = None"
  by (simp split: option.split)

section \<open>Lemmas on maps\<close>

lemma fmget_empty [simp]: "fmget z fmempty k = z"
  by (simp add: fmget_def)

lemma fmget_upd [simp]: "fmget z (fmupd k v m) k' = (if k' = k then v else fmget z m k')"
  by (simp add: fmget_def)

lemma fmget_drop [simp]: "fmget z (fmdrop k m) k' = (if k' = k then z else fmget z m k')"
  by (simp add: fmget_def)

lemma fmget_Some: "fmlookup m k = Some v \<Longrightarrow> fmget z m k = v"
  by (simp add: fmget_def)

lemma fmget_None: "fmlookup m k = None \<Longrightarrow> fmget z m k = z"
  by (simp add: fmget_def)

lemma fmupd_twice [simp]: "fmupd k x (fmupd k y m) = fmupd k x m"
  by (rule fmap_ext) simp

lemma fmupd_swap: "k \<noteq> l \<Longrightarrow> fmupd k x (fmupd l y m) = fmupd l y (fmupd k x m)"
  by (rule fmap_ext) auto

lemma fmodify_commute:
  assumes "k = l \<Longrightarrow> f (g (fmget z m k)) = g (f (fmget z m k))"
  shows "fmodify z k f (fmodify z l g m) = fmodify z l g (fmodify z k f m)"
  using assms by (cases "k = l") (auto simp: fmodify_def fmupd_swap)

lemma fst_go_range: "map fst (go_range m) = sorted_list_of_fset (fmdom m)"
  by (simp add: go_range_def sorted_list_of_fmap_def comp_def)

lemma map_of_go_range [simp]: "map_of (go_range m) = fmlookup m"
  by (simp add: go_range_def)

lemma go_range_enumerates [simp, intro]: "enumerates (go_range m) m"
  by (simp add: enumerates_def fst_go_range sorted_list_of_fset.rep_eq)

lemma go_range_empty [simp]: "go_range fmempty = []"
  by (simp add: go_range_def sorted_list_of_fmap_def sorted_list_of_fset.rep_eq)

lemma go_range_single [simp]: "go_range (fmupd k v fmempty) = [(k, v)]"
  by (simp add: go_range_def sorted_list_of_fmap_def sorted_list_of_fset.rep_eq)

lemma enumerates_distinct: "enumerates xs m \<Longrightarrow> distinct xs"
  by (auto simp: enumerates_def distinct_map)

lemma enumerates_set: "enumerates xs m \<Longrightarrow> (k, v) \<in> set xs \<longleftrightarrow> fmlookup m k = Some v"
  by (metis enumerates_def map_of_eq_Some_iff)

lemma set_go_range: "(k, v) \<in> set (go_range m) \<longleftrightarrow> fmlookup m k = Some v"
  by (rule enumerates_set) simp

lemma fst_enumerates: "enumerates xs m \<Longrightarrow> set (map fst xs) = fset (fmdom m)"
  by (metis dom_fmlookup dom_map_of_conv_image_fst enumerates_def fmdom'_alt_def image_set)

text \<open>
  The range-loop rule: when the body's effect on the map is confined to the key it visits,
  the loop's result is given key by key, whatever the order in which the entries are visited.
\<close>

lemma foldl_lookup_distinct:
  assumes step: "\<And>m k v k'. fmlookup (step m (k, v)) k' =
      (if k' = k then f (fmlookup m k) v else fmlookup m k')"
    and "distinct (map fst xs)"
  shows "fmlookup (foldl step m xs) k =
      (case map_of xs k of None \<Rightarrow> fmlookup m k | Some v \<Rightarrow> f (fmlookup m k) v)"
  using assms(2)
proof (induction xs arbitrary: m)
  case Nil
  then show ?case by simp
next
  case (Cons x xs)
  obtain k' v' where x: "x = (k', v')" by (cases x)
  have "k' \<notin> set (map fst xs)" using Cons.prems x by simp
  then have "map_of xs k' = None" by (simp add: map_of_eq_None_iff)
  with Cons show ?case by (auto simp: x step split: option.splits)
qed

lemma foldl_range_lookup:
  assumes "\<And>m k v k'. fmlookup (step m (k, v)) k' =
      (if k' = k then f (fmlookup m k) v else fmlookup m k')"
    and "enumerates xs n"
  shows "fmlookup (foldl step m xs) k =
      (case fmlookup n k of None \<Rightarrow> fmlookup m k | Some v \<Rightarrow> f (fmlookup m k) v)"
  using foldl_lookup_distinct [OF assms(1), of xs m k] assms(2) by (simp add: enumerates_def)

text \<open>A loop that copies every entry into an empty map rebuilds the map.\<close>

lemma foldl_copy:
  assumes "enumerates xs m"
  shows "foldl (\<lambda>c (k, v). fmupd k v c) fmempty xs = m"
proof (rule fmap_ext)
  fix k
  show "fmlookup (foldl (\<lambda>c (k, v). fmupd k v c) fmempty xs) k = fmlookup m k"
    by (subst foldl_range_lookup [where f = "\<lambda>_ v. Some v", OF _ assms])
      (auto split: option.splits)
qed

text \<open>A sum over the entries of a map does not depend on the visiting order.\<close>

lemma foldl_plus_sum:
  "foldl (\<lambda>t (k, v). t + g k v) (z::'a::comm_monoid_add) xs = z + (\<Sum>(k, v)\<leftarrow>xs. g k v)"
  by (induction xs arbitrary: z) (auto simp: add.assoc split: prod.splits)

lemma enumerates_sum:
  fixes g :: "'k \<Rightarrow> 'v \<Rightarrow> 'a::comm_monoid_add"
  assumes "enumerates xs m"
  shows "(\<Sum>(k, v)\<leftarrow>xs. g k v) = (\<Sum>k \<in> fset (fmdom m). g k (the (fmlookup m k)))"
proof -
  have d: "distinct xs" and dk: "distinct (map fst xs)"
    using assms enumerates_distinct by (auto simp: enumerates_def distinct_map)
  have "(\<Sum>(k, v)\<leftarrow>xs. g k v) = (\<Sum>(k, v)\<in>set xs. g k v)"
    using d by (rule sum_list_distinct_conv_sum_set)
  also have "\<dots> = (\<Sum>p\<in>set xs. g (fst p) (the (fmlookup m (fst p))))"
    by (rule sum.cong) (auto simp: enumerates_set [OF assms])
  also have "\<dots> = (\<Sum>k\<in>fst ` set xs. g k (the (fmlookup m k)))"
    by (rule sum.reindex [symmetric, unfolded comp_def]) (use dk in \<open>simp add: distinct_map\<close>)
  also have "fst ` set xs = fset (fmdom m)" using fst_enumerates [OF assms] by simp
  finally show ?thesis .
qed

section \<open>Lemmas on lists\<close>

lemma find_append_last: "\<not> P x \<Longrightarrow> List.find P (xs @ [x]) = List.find P xs"
  by (induction xs) auto

section \<open>Lemmas on words\<close>

lemma word_less_inc: "x \<noteq> - 1 \<Longrightarrow> x < x + 1" for x :: "'a::len word"
proof -
  assume "x \<noteq> - 1"
  then have "x + 1 \<noteq> 0" by (metis add.commute add_eq_0_iff)
  then have "unat (x + 1) = Suc (unat x)" by (metis add.commute unatSuc)
  then show "x < x + 1" by (simp add: word_less_nat_alt)
qed

section \<open>Lemmas on time\<close>

lemma time_sub_gt: "d < 2 ^ 63 - 1 \<Longrightarrow> - (2 ^ 63) \<le> d \<Longrightarrow> d < time_sub a b \<longleftrightarrow> d < a - b"
  by (auto simp: time_sub_def)

lemma time_sub_bounds: "- (2 ^ 63) \<le> time_sub a b" "time_sub a b < 2 ^ 63"
  by (auto simp: time_sub_def)

lemma time_sub_self [simp]: "time_sub t t = 0"
  by (simp add: time_sub_def)

lemma time_sub_mono: "a \<le> a' \<Longrightarrow> time_sub a b \<le> time_sub a' b"
  by (auto simp: time_sub_def)

end
