(* ===== verification/Crdt_Spec.thy ===== *)
theory Crdt_Spec
  imports Prelude
begin

text \<open>
  The contract of a state-based replicated data type (the \<open>CRDT\<close> interface of
  \<open>pkg/collaboration/crdt/types.go\<close>): what \<open>Merge\<close> promises to a client that exchanges
  replica states.  A provider names the abstract value of a replica (\<open>view\<close>), the join on
  abstract values, the invariant under which its promises hold and the query the application
  reads.  The client lemmas, above all \<open>convergence\<close>, are proved once from the contract and
  every CRDT of the program is an interpretation of it.
\<close>

section \<open>The contract of a mergeable replica\<close>

locale mergeable = semilattice join
  for join :: "'v \<Rightarrow> 'v \<Rightarrow> 'v" +
  fixes merge :: "'s \<Rightarrow> 's \<Rightarrow> 's"
    and view :: "'s \<Rightarrow> 'v"
    and invar :: "'s \<Rightarrow> bool"
    and query :: "'s \<Rightarrow> 'q"
  assumes view_merge: "invar a \<Longrightarrow> invar b \<Longrightarrow> view (merge a b) = join (view a) (view b)"
    and invar_merge: "invar a \<Longrightarrow> invar b \<Longrightarrow> invar (merge a b)"
    and query_view: "invar a \<Longrightarrow> invar b \<Longrightarrow> view a = view b \<Longrightarrow> query a = query b"
begin

lemma query_merge_commute:
  assumes "invar a" "invar b"
  shows "query (merge a b) = query (merge b a)"
  using assms by (intro query_view invar_merge) (simp_all add: view_merge commute)

lemma query_merge_idem:
  assumes "invar a"
  shows "query (merge a a) = query a"
  using assms by (intro query_view invar_merge) (simp_all add: view_merge)

lemma query_merge_assoc:
  assumes "invar a" "invar b" "invar c"
  shows "query (merge (merge a b) c) = query (merge a (merge b c))"
  using assms by (intro query_view invar_merge) (simp_all add: view_merge invar_merge assoc)

lemma query_merge_absorb:
  assumes "invar a" "invar b"
  shows "query (merge (merge a b) b) = query (merge a b)"
  using assms by (intro query_view invar_merge) (simp_all add: view_merge invar_merge assoc)

lemma invar_foldl_merge:
  "invar s \<Longrightarrow> (\<And>x. x \<in> set xs \<Longrightarrow> invar x) \<Longrightarrow> invar (foldl merge s xs)"
  by (induction xs arbitrary: s) (auto simp: invar_merge)

lemma view_foldl_merge:
  "invar s \<Longrightarrow> (\<And>x. x \<in> set xs \<Longrightarrow> invar x) \<Longrightarrow>
   view (foldl merge s xs) = fold join (map view xs) (view s)"
  by (induction xs arbitrary: s) (auto simp: invar_merge view_merge commute)

lemma fold_join_start: "fold join vs (join w s) = join w (fold join vs s)"
proof (induction vs arbitrary: s)
  case Nil
  then show ?case by simp
next
  case (Cons v vs)
  have "fold join vs (join v (join w s)) = fold join vs (join w (join v s))"
    by (simp add: left_commute)
  then show ?case by (simp add: Cons)
qed

lemma fold_join_absorb: "v \<in> set vs \<Longrightarrow> join v (fold join vs s) = fold join vs s"
  by (induction vs arbitrary: s) (auto simp: fold_join_start left_commute [of v])

lemma fold_join_subset:
  "set us \<subseteq> set vs \<Longrightarrow> fold join us (fold join vs s) = fold join vs s"
  by (induction us) (simp_all add: fold_join_absorb)

lemma fold_join_union: "fold join us (fold join vs s) = join (fold join us s) (fold join vs s)"
proof (induction us)
  case Nil
  have "join s (fold join vs s) = fold join vs s"
    by (metis fold_join_start idem)
  then show ?case by simp
next
  case (Cons u us)
  then show ?case by (simp add: fold_join_start assoc)
qed

text \<open>
  Strong convergence: two replicas that have merged the same set of states, in whatever order
  and with whatever duplicates, answer the query alike.
\<close>

theorem convergence:
  assumes "invar s" and "\<And>x. x \<in> set xs \<Longrightarrow> invar x" and "set xs = set ys"
  shows "query (foldl merge s xs) = query (foldl merge s ys)"
proof -
  have inv: "invar (foldl merge s xs)" "invar (foldl merge s ys)"
    using assms by (auto intro: invar_foldl_merge)
  let ?f = "\<lambda>zs. fold join (map view zs) (view s)"
  have "?f xs = fold join (map view xs) (?f ys)"
    using fold_join_union [of "map view xs" "map view ys" "view s"]
      fold_join_union [of "map view ys" "map view xs" "view s"]
      fold_join_subset [of "map view ys" "map view xs" "view s"] assms(3)
    by (simp add: commute)
  also have "\<dots> = ?f ys" using assms(3) by (intro fold_join_subset) simp
  finally have eq: "?f xs = ?f ys" .
  have "view (foldl merge s xs) = ?f xs" "view (foldl merge s ys) = ?f ys"
    using assms by (auto intro!: view_foldl_merge)
  with eq have "view (foldl merge s xs) = view (foldl merge s ys)" by simp
  with inv show ?thesis by (rule query_view)
qed

end

section \<open>Maps of replicas\<close>

text \<open>
  A map from paths to replicas, merged path by path with a fresh replica for a path the left
  side lacks, is mergeable again.  This is the shape of the three maps of \<open>StateCRDT\<close>.
\<close>

definition merge_maps :: "'s \<Rightarrow> ('s \<Rightarrow> 's \<Rightarrow> 's) \<Rightarrow> ('k::linorder, 's) fmap \<Rightarrow> ('k, 's) fmap \<Rightarrow>
    ('k, 's) fmap" where
  "merge_maps fresh merge m other =
     foldl (\<lambda>m (path, o'). fmupd path (merge (fmget fresh m path) o') m) m (go_range other)"

lemma merge_maps_lookup [range_simps]:
  "fmlookup (merge_maps fresh merge m other) k =
     (case fmlookup other k of None \<Rightarrow> fmlookup m k
      | Some o' \<Rightarrow> Some (merge (fmget fresh m k) o'))"
  unfolding merge_maps_def
  by (subst foldl_range_lookup
      [where f = "\<lambda>r o'. Some (merge (case r of None \<Rightarrow> fresh | Some x \<Rightarrow> x) o')"])
    (auto simp: fmget_def split: option.splits)

text \<open>
  The contract lifts from replicas to maps of replicas; a path that one side lacks takes the
  other side's replica.
\<close>

fun join_opt :: "('v \<Rightarrow> 'v \<Rightarrow> 'v) \<Rightarrow> 'v option \<Rightarrow> 'v option \<Rightarrow> 'v option" where
  "join_opt join None y = y"
| "join_opt join x None = x"
| "join_opt join (Some x) (Some y) = Some (join x y)"

lemma join_opt_None2 [simp]: "join_opt join x None = x"
  by (cases x) simp_all

locale mergeable_keyed =
  fixes join :: "'v \<Rightarrow> 'v \<Rightarrow> 'v" and merge :: "'s \<Rightarrow> 's \<Rightarrow> 's" and view :: "'s \<Rightarrow> 'v"
    and invar :: "'k::linorder \<Rightarrow> 's \<Rightarrow> bool" and query :: "'s \<Rightarrow> 'q" and fresh :: 's
  assumes each: "mergeable join merge view (invar k) query"
    and invar_fresh: "invar k fresh"
    and view_fresh: "invar k a \<Longrightarrow> join (view fresh) (view a) = view a"
begin

definition views :: "('k, 's) fmap \<Rightarrow> 'k \<Rightarrow> 'v option" where
  "views m k = map_option view (fmlookup m k)"

definition invars :: "('k, 's) fmap \<Rightarrow> bool" where
  "invars m \<longleftrightarrow> fmpred invar m"

definition queries :: "('k, 's) fmap \<Rightarrow> 'k \<Rightarrow> 'q option" where
  "queries m k = map_option query (fmlookup m k)"

lemma semilattice_join: "semilattice join"
  using each by (rule mergeable.axioms)

lemma join_opt_assoc: "join_opt join (join_opt join x y) z = join_opt join x (join_opt join y z)"
  using semilattice_join
  by (cases x; cases y; cases z) (simp_all add: semilattice_def abel_semigroup_def semigroup.assoc)

lemma join_opt_commute: "join_opt join x y = join_opt join y x"
  using semilattice_join
  by (cases x; cases y) (simp_all add: semilattice_def abel_semigroup.commute)

lemma join_opt_idem: "join_opt join x x = x"
  using semilattice_join by (cases x) (simp_all add: semilattice.idem)

lemma invars_fmget: "invars m \<Longrightarrow> invar k (fmget fresh m k)"
  by (cases "fmlookup m k") (auto simp: invars_def fmget_def invar_fresh)

lemma invars_empty [simp]: "invars fmempty"
  by (simp add: invars_def)

lemma invars_upd: "invars m \<Longrightarrow> invar k s \<Longrightarrow> invars (fmupd k s m)"
  by (auto simp: invars_def)

lemma invars_merge_maps:
  assumes "invars m" "invars n"
  shows "invars (merge_maps fresh merge m n)"
  using assms invars_fmget [OF assms(1)]
  by (auto simp: invars_def fmpred_iff merge_maps_lookup intro: mergeable.invar_merge [OF each]
      split: option.splits)

lemma views_merge_maps:
  assumes "invars m" "invars n"
  shows "views (merge_maps fresh merge m n) k = join_opt join (views m k) (views n k)"
proof (cases "fmlookup n k")
  case None
  then show ?thesis by (simp add: views_def merge_maps_lookup)
next
  case (Some b)
  have i: "invar k (fmget fresh m k)" "invar k b"
    using invars_fmget [OF assms(1)] Some assms(2) by (auto simp: invars_def)
  have "views (merge_maps fresh merge m n) k = Some (join (view (fmget fresh m k)) (view b))"
    using i by (simp add: views_def merge_maps_lookup Some mergeable.view_merge [OF each])
  then show ?thesis
    using Some i by (cases "fmlookup m k") (auto simp: views_def fmget_def view_fresh)
qed

sublocale keyed: mergeable "\<lambda>f g k. join_opt join (f k) (g k)" "merge_maps fresh merge"
  views invars queries
proof
  show "views (merge_maps fresh merge a b) = (\<lambda>k. join_opt join (views a k) (views b k))"
    if "invars a" "invars b" for a b
    using that by (simp add: fun_eq_iff views_merge_maps)
  show "queries a = queries b" if "invars a" "invars b" "views a = views b" for a b
  proof
    fix k
    have "views a k = views b k" using that by simp
    then show "queries a k = queries b k"
      using that(1,2) by (cases "fmlookup a k"; cases "fmlookup b k")
        (auto simp: queries_def views_def invars_def fmpred_iff
          intro: mergeable.query_view [OF each [of k]])
  qed
qed (auto simp: fun_eq_iff join_opt_assoc join_opt_idem invars_merge_maps intro: join_opt_commute)

end

end
