(* ===== verification/Vector_Clock.thy ===== *)
theory Vector_Clock
  imports Crdt_Spec
begin

text \<open>
  Vector clocks (\<open>pkg/collaboration/crdt/types.go\<close>): a map from node identifiers to 64-bit
  counters.  \<open>vc_time\<close> is the abstract clock, a total function in which an absent node counts
  0; the comparison the code computes with two loops is shown to be the componentwise order on
  it, and \<open>Update\<close> its join.
\<close>

section \<open>Model\<close>

type_synonym node_id = string
type_synonym vector_clock = "(node_id, u64) fmap"

definition NewVectorClock :: vector_clock where
  "NewVectorClock = fmempty"

definition vc_Increment :: "node_id \<Rightarrow> vector_clock \<Rightarrow> vector_clock" where
  "vc_Increment node vc = fmupd node (fmget 0 vc node + 1) vc"

definition vc_Update :: "vector_clock \<Rightarrow> vector_clock \<Rightarrow> vector_clock" where
  "vc_Update vc other =
     foldl (\<lambda>vc (node, clock). if fmget 0 vc node < clock then fmupd node clock vc else vc)
       vc (go_range other)"

text \<open>
  The first loop of \<open>HappensBefore\<close>: \<open>None\<close> is its early \<open>return false\<close>, \<open>Some\<close> the flag
  \<open>atLeastOneLess\<close> at the end of the loop.
\<close>

fun hb_scan :: "(node_id \<times> u64) list \<Rightarrow> vector_clock \<Rightarrow> bool \<Rightarrow> bool option" where
  "hb_scan [] other lt = Some lt"
| "hb_scan ((node, clock) # xs) other lt =
     (if fmget 0 other node < clock then None
      else hb_scan xs other (if clock < fmget 0 other node then True else lt))"

definition vc_HappensBefore :: "vector_clock \<Rightarrow> vector_clock \<Rightarrow> bool" where
  "vc_HappensBefore vc other =
     (case hb_scan (go_range vc) other False of
        None \<Rightarrow> False
      | Some lt \<Rightarrow>
          foldl (\<lambda>lt (node, clock).
              if fmlookup vc node = None \<and> 0 < clock then True else lt)
            lt (go_range other))"

definition vc_Concurrent :: "vector_clock \<Rightarrow> vector_clock \<Rightarrow> bool" where
  "vc_Concurrent vc other \<longleftrightarrow> \<not> vc_HappensBefore vc other \<and> \<not> vc_HappensBefore other vc"

definition vc_Clone :: "vector_clock \<Rightarrow> vector_clock" where
  "vc_Clone vc = foldl (\<lambda>clone (k, v). fmupd k v clone) fmempty (go_range vc)"

section \<open>Abstract clock\<close>

definition vc_time :: "vector_clock \<Rightarrow> node_id \<Rightarrow> u64" where
  "vc_time vc node = fmget 0 vc node"

definition vc_le :: "vector_clock \<Rightarrow> vector_clock \<Rightarrow> bool" where
  "vc_le a b \<longleftrightarrow> (\<forall>n. vc_time a n \<le> vc_time b n)"

section \<open>Lemmas\<close>

lemma vc_time_new [simp]: "vc_time NewVectorClock = (\<lambda>_. 0)"
  by (simp add: fun_eq_iff vc_time_def NewVectorClock_def)

lemma vc_time_Increment: "vc_time (vc_Increment n vc) = (vc_time vc)(n := vc_time vc n + 1)"
  by (auto simp: fun_eq_iff vc_time_def vc_Increment_def)

lemma vc_Clone_eq [simp]: "vc_Clone vc = vc"
  unfolding vc_Clone_def by (rule foldl_copy) simp

lemma vc_Update_lookup [range_simps]:
  "fmlookup (vc_Update vc other) n =
     (case fmlookup other n of None \<Rightarrow> fmlookup vc n
      | Some c \<Rightarrow> if fmget 0 vc n < c then Some c else fmlookup vc n)"
  unfolding vc_Update_def
  by (subst foldl_range_lookup [where f =
      "\<lambda>r c. if (case r of None \<Rightarrow> 0 | Some x \<Rightarrow> x) < c then Some c else r"])
    (auto simp: fmget_def split: option.splits)

lemma vc_time_Update: "vc_time (vc_Update vc other) n = max (vc_time vc n) (vc_time other n)"
  by (auto simp: vc_time_def fmget_def vc_Update_lookup max_def word_gt_0 split: option.splits if_splits)

lemma hb_scan_None:
  "hb_scan xs other lt = None \<longleftrightarrow> (\<exists>(n, c) \<in> set xs. fmget 0 other n < c)"
  by (induction xs other lt rule: hb_scan.induct) auto

lemma hb_scan_Some:
  "hb_scan xs other lt = Some b \<Longrightarrow> b \<longleftrightarrow> lt \<or> (\<exists>(n, c) \<in> set xs. c < fmget 0 other n)"
  by (induction xs other lt rule: hb_scan.induct) (auto split: if_splits)

lemma foldl_flag:
  "foldl (\<lambda>lt (n, c). if P n c then True else lt) lt xs \<longleftrightarrow>
     lt \<or> (\<exists>(n, c) \<in> set xs. P n c)"
  by (induction xs arbitrary: lt) auto

lemma go_range_Ball_time:
  "(\<forall>(n, c) \<in> set (go_range vc). P n c) \<longleftrightarrow> (\<forall>n c. fmlookup vc n = Some c \<longrightarrow> P n c)"
  by (auto simp: set_go_range)

lemma go_range_Bex_time:
  "(\<exists>(n, c) \<in> set (go_range vc). P n c) \<longleftrightarrow> (\<exists>n c. fmlookup vc n = Some c \<and> P n c)"
  by (force simp: set_go_range)

text \<open>The two loops compute the strict componentwise order.\<close>

lemma vc_HappensBefore_iff:
  "vc_HappensBefore a b \<longleftrightarrow> vc_le a b \<and> (\<exists>n. vc_time a n < vc_time b n)"
proof (cases "hb_scan (go_range a) b False")
  case None
  then obtain n c where "fmlookup a n = Some c" "fmget 0 b n < c"
    by (auto simp: hb_scan_None go_range_Bex_time)
  then have "vc_time b n < vc_time a n" by (simp add: vc_time_def fmget_Some)
  then have "\<not> vc_le a b" by (auto simp: vc_le_def not_le)
  then show ?thesis by (simp add: vc_HappensBefore_def None)
next
  case (Some lt)
  then have "\<not> (\<exists>n c. fmlookup a n = Some c \<and> fmget 0 b n < c)"
    using hb_scan_None [of "go_range a" b False] by (auto simp: go_range_Bex_time)
  then have "fmget 0 a n \<le> fmget 0 b n" for n
    by (cases "fmlookup a n") (auto simp: fmget_Some fmget_None not_less)
  then have le: "vc_le a b" by (simp add: vc_le_def vc_time_def)
  have "vc_HappensBefore a b \<longleftrightarrow>
      (\<exists>n c. fmlookup a n = Some c \<and> c < fmget 0 b n) \<or>
      (\<exists>n c. fmlookup b n = Some c \<and> fmlookup a n = None \<and> 0 < c)"
    using hb_scan_Some [OF Some]
    by (simp add: vc_HappensBefore_def Some foldl_flag go_range_Bex_time)
  also have "\<dots> \<longleftrightarrow> (\<exists>n. vc_time a n < vc_time b n)"
    by (force simp: vc_time_def fmget_def split: option.splits)
  finally show ?thesis using le by simp
qed

lemma vc_le_refl [simp]: "vc_le a a"
  by (simp add: vc_le_def)

lemma vc_le_trans: "vc_le a b \<Longrightarrow> vc_le b c \<Longrightarrow> vc_le a c"
  by (auto simp: vc_le_def intro: order_trans)

lemma vc_le_antisym: "vc_le a b \<Longrightarrow> vc_le b a \<Longrightarrow> vc_time a = vc_time b"
  by (auto simp: vc_le_def fun_eq_iff intro: antisym)

lemma vc_HappensBefore_irrefl [simp]: "\<not> vc_HappensBefore a a"
  by (simp add: vc_HappensBefore_iff)

lemma vc_HappensBefore_le: "vc_HappensBefore a b \<longleftrightarrow> vc_le a b \<and> \<not> vc_le b a"
  by (auto simp: vc_HappensBefore_iff vc_le_def not_le)

lemma vc_HappensBefore_Increment:
  "vc_time a n \<noteq> - 1 \<Longrightarrow> vc_HappensBefore a (vc_Increment n a)"
  using word_less_inc [of "vc_time a n"]
  by (auto simp: vc_HappensBefore_iff vc_le_def vc_time_Increment intro!: exI [of _ n] less_imp_le)

lemma vc_HappensBefore_wrap: "vc_time a n = - 1 \<Longrightarrow> \<not> vc_HappensBefore a (vc_Increment n a)"
  by (auto simp: vc_HappensBefore_iff vc_time_Increment vc_le_def split: if_splits)

section \<open>The clock is mergeable\<close>

interpretation clock: mergeable "\<lambda>f g n. max (f n) (g n)" vc_Update vc_time "\<lambda>_. True" vc_time
  by unfold_locales (auto simp: fun_eq_iff vc_time_Update ac_simps)

section \<open>Properties\<close>

text \<open>C29 The two loops of \<open>HappensBefore\<close> decide the strict componentwise order of the clocks,
  a missing entry counting as zero, and one more tick of any node moves a clock strictly forward exactly
  when that node's 64-bit counter does not wrap.\<close>

theorem vc_HappensBefore_order:
  "(vc_HappensBefore a b \<longleftrightarrow>
      (\<forall>n. vc_time a n \<le> vc_time b n) \<and> (\<exists>n. vc_time a n < vc_time b n)) \<and>
   (vc_HappensBefore a (vc_Increment n a) \<longleftrightarrow> vc_time a n \<noteq> - 1)"
  using vc_HappensBefore_Increment [of a n] vc_HappensBefore_wrap [of a n]
  by (auto simp: vc_HappensBefore_iff vc_le_def)

text \<open>\<open>Concurrent\<close> holds of two clocks that each have an entry ahead of the other, and also of
  two clocks that are equal: an event counts as concurrent with itself.\<close>

theorem vc_Concurrent_iff:
  "vc_Concurrent a b \<longleftrightarrow>
     (\<exists>n m. vc_time a n < vc_time b n \<and> vc_time b m < vc_time a m) \<or> vc_time a = vc_time b"
proof -
  have "vc_Concurrent a b \<longleftrightarrow> \<not> vc_le a b \<and> \<not> vc_le b a \<or> vc_le a b \<and> vc_le b a"
    by (auto simp: vc_Concurrent_def vc_HappensBefore_le)
  moreover have "vc_le a b \<and> vc_le b a \<longleftrightarrow> vc_time a = vc_time b"
    by (auto simp: vc_le_def intro: vc_le_antisym [unfolded vc_le_def])
  ultimately show ?thesis by (auto simp: vc_le_def not_le)
qed

end
