(* ===== verification/Counters.thy ===== *)
theory Counters
  imports Vector_Clock
begin

text \<open>
  The grow-only counter and the increment/decrement counter
  (\<open>pkg/collaboration/crdt/gcounter.go\<close>, \<open>pncounter.go\<close>).  Counts are 64-bit words and
  wrap around as in Go; \<open>gc_total\<close> is the exact total the value approximates modulo
  \<open>2 ^ 64\<close>.  Both counters are interpretations of \<open>mergeable\<close>.
\<close>

section \<open>Model: GCounter\<close>

record gcounter =
  gc_counters :: "(node_id, u64) fmap"

definition NewGCounter :: gcounter where
  "NewGCounter = \<lparr>gc_counters = fmempty\<rparr>"

definition gc_Increment :: "node_id \<Rightarrow> u64 \<Rightarrow> gcounter \<Rightarrow> gcounter" where
  "gc_Increment node delta g =
     g\<lparr>gc_counters := fmupd node (fmget 0 (gc_counters g) node + delta) (gc_counters g)\<rparr>"

definition gc_Value :: "gcounter \<Rightarrow> u64" where
  "gc_Value g = foldl (\<lambda>total (_, count). total + count) 0 (go_range (gc_counters g))"

definition gc_merge :: "gcounter \<Rightarrow> gcounter \<Rightarrow> gcounter" where
  "gc_merge g other =
     g\<lparr>gc_counters :=
        foldl (\<lambda>m (node, count). if fmget 0 m node < count then fmupd node count m else m)
          (gc_counters g) (go_range (gc_counters other))\<rparr>"

definition gc_Clone :: "gcounter \<Rightarrow> gcounter" where
  "gc_Clone g =
     foldl (\<lambda>clone (node, count). clone\<lparr>gc_counters := fmupd node count (gc_counters clone)\<rparr>)
       NewGCounter (go_range (gc_counters g))"

definition gc_GetState :: "gcounter \<Rightarrow> (node_id, u64) fmap" where
  "gc_GetState g = foldl (\<lambda>state (k, v). fmupd k v state) fmempty (go_range (gc_counters g))"

section \<open>Model: PNCounter\<close>

record pncounter =
  pn_positive :: gcounter
  pn_negative :: gcounter

definition NewPNCounter :: pncounter where
  "NewPNCounter = \<lparr>pn_positive = NewGCounter, pn_negative = NewGCounter\<rparr>"

definition pn_Increment :: "node_id \<Rightarrow> u64 \<Rightarrow> pncounter \<Rightarrow> pncounter" where
  "pn_Increment node delta p = p\<lparr>pn_positive := gc_Increment node delta (pn_positive p)\<rparr>"

definition pn_Decrement :: "node_id \<Rightarrow> u64 \<Rightarrow> pncounter \<Rightarrow> pncounter" where
  "pn_Decrement node delta p = p\<lparr>pn_negative := gc_Increment node delta (pn_negative p)\<rparr>"

text \<open>
  \<open>int64(x) - int64(y)\<close>: the conversions keep the bits and the subtraction wraps, so the
  result is the signed reading of the 64-bit difference.
\<close>

definition pn_Value :: "pncounter \<Rightarrow> int" where
  "pn_Value p = sint (gc_Value (pn_positive p) - gc_Value (pn_negative p))"

definition pn_merge :: "pncounter \<Rightarrow> pncounter \<Rightarrow> pncounter" where
  "pn_merge p other =
     p\<lparr>pn_positive := gc_merge (pn_positive p) (pn_positive other),
       pn_negative := gc_merge (pn_negative p) (pn_negative other)\<rparr>"

definition pn_Clone :: "pncounter \<Rightarrow> pncounter" where
  "pn_Clone p =
     \<lparr>pn_positive = gc_Clone (pn_positive p), pn_negative = gc_Clone (pn_negative p)\<rparr>"

section \<open>Abstract values\<close>

definition gc_count :: "gcounter \<Rightarrow> node_id \<Rightarrow> u64" where
  "gc_count g node = fmget 0 (gc_counters g) node"

definition gc_total :: "gcounter \<Rightarrow> nat" where
  "gc_total g = (\<Sum>n \<in> fset (fmdom (gc_counters g)). unat (gc_count g n))"

definition pn_count :: "pncounter \<Rightarrow> (node_id \<Rightarrow> u64) \<times> (node_id \<Rightarrow> u64)" where
  "pn_count p = (gc_count (pn_positive p), gc_count (pn_negative p))"

section \<open>Lemmas: GCounter\<close>

lemma gc_count_new [simp]: "gc_count NewGCounter n = 0"
  by (simp add: gc_count_def NewGCounter_def)

lemma gc_count_Increment:
  "gc_count (gc_Increment n d g) = (gc_count g)(n := gc_count g n + d)"
  by (auto simp: fun_eq_iff gc_count_def gc_Increment_def)

lemma gc_merge_counters: "gc_counters (gc_merge g h) = vc_Update (gc_counters g) (gc_counters h)"
  by (simp add: gc_merge_def vc_Update_def)

lemma gc_count_merge: "gc_count (gc_merge g h) n = max (gc_count g n) (gc_count h n)"
  using vc_time_Update [of "gc_counters g" "gc_counters h" n]
  by (simp add: gc_count_def gc_merge_counters vc_time_def)

lemma gc_Clone_foldl:
  "foldl (\<lambda>clone (node, count). clone\<lparr>gc_counters := fmupd node count (gc_counters clone)\<rparr>) c xs =
     c\<lparr>gc_counters := foldl (\<lambda>m (k, v). fmupd k v m) (gc_counters c) xs\<rparr>"
  by (induction xs arbitrary: c) (auto split: prod.splits)

lemma gc_Clone_eq [simp]: "gc_Clone g = g"
  by (cases g) (simp add: gc_Clone_def gc_Clone_foldl NewGCounter_def foldl_copy)

lemma gc_GetState_eq: "gc_GetState g = gc_counters g"
  by (simp add: gc_GetState_def foldl_copy)

lemma gc_Value_sum_dom: "gc_Value g = (\<Sum>n \<in> fset (fmdom (gc_counters g)). gc_count g n)"
proof -
  have "gc_Value g = (\<Sum>(n, c)\<leftarrow>go_range (gc_counters g). c)"
    using foldl_plus_sum [of "\<lambda>_ c. c" 0 "go_range (gc_counters g)"]
    by (simp add: gc_Value_def)
  also have "\<dots> = (\<Sum>n \<in> fset (fmdom (gc_counters g)). the (fmlookup (gc_counters g) n))"
    using enumerates_sum [of "go_range (gc_counters g)" "gc_counters g" "\<lambda>_ c. c"] by simp
  also have "\<dots> = (\<Sum>n \<in> fset (fmdom (gc_counters g)). gc_count g n)"
    by (rule sum.cong) (auto simp: gc_count_def fmget_Some)
  finally show ?thesis .
qed

lemma gc_count_outside: "n \<notin> fset (fmdom (gc_counters g)) \<Longrightarrow> gc_count g n = 0"
  by (auto simp: gc_count_def intro: fmget_None)

lemma gc_Value_sum:
  assumes "finite A" "fset (fmdom (gc_counters g)) \<subseteq> A"
  shows "gc_Value g = (\<Sum>n \<in> A. gc_count g n)"
  unfolding gc_Value_sum_dom
  using assms by (intro sum.mono_neutral_left) (auto intro: gc_count_outside)

lemma gc_total_sum:
  assumes "finite A" "fset (fmdom (gc_counters g)) \<subseteq> A"
  shows "gc_total g = (\<Sum>n \<in> A. unat (gc_count g n))"
  unfolding gc_total_def
  using assms by (intro sum.mono_neutral_left) (auto simp: gc_count_outside)

lemma gc_Value_cong: "gc_count g = gc_count h \<Longrightarrow> gc_Value g = gc_Value h"
  using gc_Value_sum [of "fset (fmdom (gc_counters g) |\<union>| fmdom (gc_counters h))" g]
    gc_Value_sum [of "fset (fmdom (gc_counters g) |\<union>| fmdom (gc_counters h))" h]
  by simp

lemma gc_Value_Increment: "gc_Value (gc_Increment n d g) = gc_Value g + d"
proof -
  let ?A = "insert n (fset (fmdom (gc_counters g)))"
  have "gc_Value (gc_Increment n d g) = (\<Sum>m \<in> ?A. gc_count (gc_Increment n d g) m)"
    by (rule gc_Value_sum) (auto simp: gc_Increment_def)
  also have "\<dots> = (\<Sum>m \<in> ?A. gc_count g m + (if m = n then d else 0))"
    by (rule sum.cong) (auto simp: gc_count_Increment)
  also have "\<dots> = (\<Sum>m \<in> ?A. gc_count g m) + d"
    by (simp add: sum.distrib sum.delta)
  also have "(\<Sum>m \<in> ?A. gc_count g m) = gc_Value g"
    by (rule gc_Value_sum [symmetric]) auto
  finally show ?thesis .
qed

lemma gc_Value_total: "gc_Value g = of_nat (gc_total g)"
  by (simp add: gc_Value_sum_dom gc_total_def)

lemma unat_gc_Value: "gc_total g < 2 ^ 64 \<Longrightarrow> unat (gc_Value g) = gc_total g"
  by (simp add: gc_Value_total unat_of_nat)

lemma gc_total_merge_ge: "gc_total g \<le> gc_total (gc_merge g h)"
  and gc_total_merge_le: "gc_total (gc_merge g h) \<le> gc_total g + gc_total h"
proof -
  let ?A = "fset (fmdom (gc_counters g) |\<union>| fmdom (gc_counters h))"
  have sub: "fset (fmdom (gc_counters (gc_merge g h))) \<subseteq> ?A"
    by (force simp: gc_merge_counters vc_Update_lookup fmlookup_dom_iff split: option.splits if_splits)
  have t: "gc_total (gc_merge g h) = (\<Sum>n \<in> ?A. unat (gc_count (gc_merge g h) n))"
      "gc_total g = (\<Sum>n \<in> ?A. unat (gc_count g n))"
      "gc_total h = (\<Sum>n \<in> ?A. unat (gc_count h n))"
    using sub by (auto intro: gc_total_sum)
  show "gc_total g \<le> gc_total (gc_merge g h)"
    unfolding t by (rule sum_mono) (simp add: gc_count_merge unat_mono max_def word_le_nat_alt)
  show "gc_total (gc_merge g h) \<le> gc_total g + gc_total h"
    unfolding t sum.distrib [symmetric] by (rule sum_mono) (simp add: gc_count_merge max_def)
qed

section \<open>Lemmas: PNCounter\<close>

lemma pn_Clone_eq [simp]: "pn_Clone p = p"
  by (cases p) (simp add: pn_Clone_def)

lemma pn_count_merge:
  "pn_count (pn_merge p q) =
     (\<lambda>n. max (fst (pn_count p) n) (fst (pn_count q) n),
      \<lambda>n. max (snd (pn_count p) n) (snd (pn_count q) n))"
  by (simp add: pn_count_def pn_merge_def fun_eq_iff gc_count_merge)

lemma pn_Value_cong: "pn_count p = pn_count q \<Longrightarrow> pn_Value p = pn_Value q"
  using gc_Value_cong [of "pn_positive p" "pn_positive q"]
    gc_Value_cong [of "pn_negative p" "pn_negative q"]
  by (simp add: pn_count_def pn_Value_def)

text \<open>While neither side passes the signed range, the value is the exact difference.\<close>

lemma sint_diff_exact:
  fixes x y :: u64
  assumes "unat x < 2 ^ 63" "unat y < 2 ^ 63"
  shows "sint (x - y) = int (unat x) - int (unat y)"
proof -
  have lt: "uint z < 2 ^ 63" if "unat z < 2 ^ 63" for z :: u64
    using that unfolding uint_nat of_nat_less_numeral_power_cancel_iff .
  have bounds: "0 \<le> uint x" "uint x < 2 ^ 63" "0 \<le> uint y" "uint y < 2 ^ 63"
    by (rule uint_ge_0 lt assms)+
  have "sint (x - y) = sint (word_of_int (uint x - uint y) :: u64)"
    by (subst word_sub_wi) (rule refl)
  also have "\<dots> = signed_take_bit 63 (uint x - uint y)"
    by (subst sint_sbintrunc') simp
  also have "\<dots> = uint x - uint y"
    using bounds by (intro signed_take_bit_int_eq_self) linarith+
  finally show ?thesis by (simp only: uint_nat)
qed

section \<open>The counters are mergeable\<close>

interpretation gcounter: mergeable "\<lambda>f g n. max (f n) (g n)" gc_merge gc_count "\<lambda>_. True" gc_Value
  by unfold_locales (auto simp: fun_eq_iff gc_count_merge ac_simps intro!: gc_Value_cong)

interpretation pncounter: mergeable
  "\<lambda>f g. (\<lambda>n. max (fst f n) (fst g n), \<lambda>n. max (snd f n) (snd g n))"
  pn_merge pn_count "\<lambda>_. True" pn_Value
  by unfold_locales (auto simp: fun_eq_iff pn_count_merge ac_simps intro!: pn_Value_cong)

interpretation pncounter_map: mergeable_keyed
  "\<lambda>f g. (\<lambda>n. max (fst f n) (fst g n), \<lambda>n. max (snd f n) (snd g n))"
  pn_merge pn_count "\<lambda>(_::string) _. True" pn_Value NewPNCounter
  by (rule mergeable_keyed.intro [OF pncounter.mergeable_axioms])
    (simp_all add: pn_count_def NewPNCounter_def)

section \<open>Properties\<close>

text \<open>Merging two grow-only counters never loses a count and never invents one: the exact total of
  the result is at least each side's and at most their sum, and \<open>Value\<close> reports that total
  modulo \<open>2 ^ 64\<close>.\<close>

theorem gc_merge_bounds:
  "max (gc_total g) (gc_total h) \<le> gc_total (gc_merge g h) \<and>
   gc_total (gc_merge g h) \<le> gc_total g + gc_total h \<and>
   unat (gc_Value (gc_merge g h)) = gc_total (gc_merge g h) mod 2 ^ 64"
proof -
  have "gc_total (gc_merge g h) = gc_total (gc_merge h g)"
  proof -
    let ?A = "fset (fmdom (gc_counters (gc_merge g h)) |\<union>| fmdom (gc_counters (gc_merge h g)))"
    have "gc_count (gc_merge g h) = gc_count (gc_merge h g)"
      by (simp add: fun_eq_iff gc_count_merge max.commute)
    then show ?thesis
      using gc_total_sum [of ?A "gc_merge g h"] gc_total_sum [of ?A "gc_merge h g"] by simp
  qed
  then have "gc_total h \<le> gc_total (gc_merge g h)"
    using gc_total_merge_ge [of h g] by simp
  then show ?thesis
    using gc_total_merge_ge gc_total_merge_le by (simp add: gc_Value_total unat_of_nat)
qed

text \<open>The value of an increment/decrement counter is the exact difference of what was added and
  what was subtracted, on whichever nodes, while both totals stay below \<open>2 ^ 63\<close>.\<close>

theorem pn_Value_exact:
  assumes "gc_total (pn_positive p) < 2 ^ 63" "gc_total (pn_negative p) < 2 ^ 63"
  shows "pn_Value p = int (gc_total (pn_positive p)) - int (gc_total (pn_negative p))"
  using assms sint_diff_exact [of "gc_Value (pn_positive p)" "gc_Value (pn_negative p)"]
  by (simp add: pn_Value_def unat_gc_Value)

theorem pn_Value_exact_witness:
  "pn_Value (pn_Decrement ''b'' 5 (pn_Increment ''a'' 3 NewPNCounter)) = - 2"
proof -
  let ?p = "pn_Decrement ''b'' 5 (pn_Increment ''a'' 3 NewPNCounter)"
  have "gc_total (pn_positive ?p) = 3" "gc_total (pn_negative ?p) = 5"
    by (simp_all add: gc_total_def gc_count_def pn_Decrement_def pn_Increment_def NewPNCounter_def
        gc_Increment_def NewGCounter_def)
  then show ?thesis using pn_Value_exact [of ?p] by simp
qed

end
