(* ===== verification/Lww_Register.thy ===== *)
theory Lww_Register
  imports Vector_Clock "HOL-Library.Product_Lexorder"
begin

text \<open>
  The last-write-wins register (\<open>pkg/collaboration/crdt/lwwregister.go\<close>).  Writes are
  ordered by their stamp, the timestamp with the node identifier as tie break.  A history
  \<open>w\<close> assigns the value written under each stamp (the stamp of a register never written
  carries no value); \<open>lww_ok w\<close> says that a register holds what its stamp's write wrote,
  which is what makes merging commute.
\<close>

section \<open>Model\<close>

record lww_register =
  lww_value :: gval
  lww_timestamp :: go_time
  lww_nodeID :: node_id

definition NewLWWRegister :: lww_register where
  "NewLWWRegister = \<lparr>lww_value = VNil, lww_timestamp = 0, lww_nodeID = ''''\<rparr>"

definition lww_Set :: "gval \<Rightarrow> go_time \<Rightarrow> node_id \<Rightarrow> lww_register \<Rightarrow> lww_register" where
  "lww_Set v ts node r =
     (if lww_timestamp r < ts \<or> (ts = lww_timestamp r \<and> lww_nodeID r < node)
      then r\<lparr>lww_value := v, lww_timestamp := ts, lww_nodeID := node\<rparr>
      else r)"

definition lww_Get :: "lww_register \<Rightarrow> gval" where
  "lww_Get r = lww_value r"

definition lww_GetWithMetadata :: "lww_register \<Rightarrow> gval \<times> go_time \<times> node_id" where
  "lww_GetWithMetadata r = (lww_value r, lww_timestamp r, lww_nodeID r)"

definition lww_merge :: "lww_register \<Rightarrow> lww_register \<Rightarrow> lww_register" where
  "lww_merge r other =
     (if lww_timestamp r < lww_timestamp other \<or>
         (lww_timestamp other = lww_timestamp r \<and> lww_nodeID r < lww_nodeID other)
      then r\<lparr>lww_value := lww_value other, lww_timestamp := lww_timestamp other,
             lww_nodeID := lww_nodeID other\<rparr>
      else r)"

definition lww_Clone :: "lww_register \<Rightarrow> lww_register" where
  "lww_Clone r =
     \<lparr>lww_value = lww_value r, lww_timestamp = lww_timestamp r, lww_nodeID = lww_nodeID r\<rparr>"

section \<open>Stamps and histories\<close>

type_synonym stamp = "go_time \<times> node_id"

definition lww_stamp :: "lww_register \<Rightarrow> stamp" where
  "lww_stamp r = (lww_timestamp r, lww_nodeID r)"

definition written_value :: "(stamp \<Rightarrow> gval) \<Rightarrow> stamp \<Rightarrow> gval" where
  "written_value w s = (if s = (0, '''') then VNil else w s)"

definition lww_ok :: "(stamp \<Rightarrow> gval) \<Rightarrow> lww_register \<Rightarrow> bool" where
  "lww_ok w r \<longleftrightarrow> 0 \<le> lww_timestamp r \<and> lww_value r = written_value w (lww_stamp r)"

text \<open>The writes of a history, applied in the order of the list.\<close>

definition lww_writes :: "(stamp \<Rightarrow> gval) \<Rightarrow> stamp list \<Rightarrow> lww_register \<Rightarrow> lww_register" where
  "lww_writes w ss r = foldl (\<lambda>r s. lww_Set (w s) (fst s) (snd s) r) r ss"

section \<open>Lemmas\<close>

lemma lww_Clone_eq [simp]: "lww_Clone r = r"
  by (cases r) (simp add: lww_Clone_def)

lemma lww_Set_stamp: "lww_Set v ts n r =
    (if lww_stamp r < (ts, n) then \<lparr>lww_value = v, lww_timestamp = ts, lww_nodeID = n\<rparr> else r)"
  by (cases r) (auto simp: lww_Set_def lww_stamp_def)

lemma lww_merge_stamp: "lww_merge r s = (if lww_stamp r < lww_stamp s then s else r)"
  by (cases r; cases s) (auto simp: lww_merge_def lww_stamp_def)

lemma lww_stamp_merge: "lww_stamp (lww_merge r s) = max (lww_stamp r) (lww_stamp s)"
  by (auto simp: lww_merge_stamp max_def not_le)

lemma lww_stamp_Set: "lww_stamp (lww_Set v ts n r) = max (lww_stamp r) (ts, n)"
  by (auto simp: lww_Set_stamp max_def not_le lww_stamp_def)

lemma stamp_bottom: "0 \<le> lww_timestamp r \<Longrightarrow> (0, '''') \<le> lww_stamp r"
  by (auto simp: lww_stamp_def)

lemma stamp_bottom_ok: "lww_ok w r \<Longrightarrow> (0, '''') \<le> lww_stamp r"
  by (simp add: lww_ok_def stamp_bottom)

lemma lww_stamp_new: "lww_stamp NewLWWRegister = (0, '''')"
  by (simp add: lww_stamp_def NewLWWRegister_def)

lemma lww_ok_Set: "lww_ok w r \<Longrightarrow> v = w (ts, n) \<Longrightarrow> lww_ok w (lww_Set v ts n r)"
  using stamp_bottom [of r]
  by (auto simp: lww_ok_def lww_Set_stamp lww_stamp_def written_value_def)

lemma lww_ok_merge: "lww_ok w r \<Longrightarrow> lww_ok w s \<Longrightarrow> lww_ok w (lww_merge r s)"
  by (simp add: lww_ok_def lww_merge_stamp)

lemma lww_ok_new [simp]: "lww_ok w NewLWWRegister"
  by (simp add: lww_ok_def NewLWWRegister_def lww_stamp_def written_value_def)

lemma lww_ok_writes: "lww_ok w r \<Longrightarrow> lww_ok w (lww_writes w ss r)"
  unfolding lww_writes_def by (induction ss arbitrary: r) (auto simp: lww_ok_Set)

lemma lww_stamp_writes: "lww_stamp (lww_writes w ss r) = fold max ss (lww_stamp r)"
  unfolding lww_writes_def
  by (induction ss arbitrary: r) (auto simp: lww_stamp_Set max.commute)

section \<open>The register is mergeable\<close>

interpretation lww: mergeable max lww_merge lww_stamp "lww_ok w" lww_Get for w
  by unfold_locales (simp_all add: lww_stamp_merge lww_ok_merge, simp add: lww_Get_def lww_ok_def)

interpretation lww_map: mergeable_keyed max lww_merge lww_stamp "\<lambda>path. lww_ok (w path)" lww_Get
  NewLWWRegister for w :: "string \<Rightarrow> stamp \<Rightarrow> gval"
  by (rule mergeable_keyed.intro [OF lww.mergeable_axioms])
    (auto simp: lww_stamp_new intro!: max_absorb2 stamp_bottom_ok)

text \<open>Any delivery order of the same writes leaves the value of the greatest stamp.\<close>

lemma lww_Get_writes:
  assumes "lww_ok w r"
  shows "lww_Get (lww_writes w ss r) = written_value w (Max (insert (lww_stamp r) (set ss)))"
proof -
  have "lww_Get (lww_writes w ss r) = written_value w (lww_stamp (lww_writes w ss r))"
    using lww_ok_writes [OF assms] by (simp add: lww_ok_def lww_Get_def)
  also have "lww_stamp (lww_writes w ss r) = Max (insert (lww_stamp r) (set ss))"
    by (simp add: lww_stamp_writes Max.set_eq_fold flip: list.set(2))
  finally show ?thesis .
qed

section \<open>Properties\<close>

text \<open>A register ends with the value of the write with the greatest (timestamp, node) stamp, so any
  two delivery orders of the same writes, with whatever repetitions, leave the same value.\<close>

theorem lww_writes_order_irrelevant:
  assumes "lww_ok w r" and "set ss = set ts"
  shows "lww_Get (lww_writes w ss r) = lww_Get (lww_writes w ts r)"
  using assms by (simp add: lww_Get_writes)

theorem lww_writes_order_irrelevant_witness:
  "let w = (\<lambda>s. if fst s = (1::int) then VStr ''old'' else VStr ''new'')
   in lww_Get (lww_writes w [(1, ''a''), (2, ''b'')] NewLWWRegister) =
      lww_Get (lww_writes w [(2, ''b''), (1, ''a''), (2, ''b'')] NewLWWRegister)"
  unfolding Let_def by (rule lww_writes_order_irrelevant) auto

end
