(* ===== verification/Or_Set.thy ===== *)
theory Or_Set
  imports Vector_Clock
begin

text \<open>
  The observed-remove set (\<open>pkg/collaboration/crdt/orset.go\<close>): each element carries the set
  of unique tags of its additions.  \<open>Add\<close> draws a fresh UUID, which the model takes as an
  argument.  \<open>Remove\<close> forgets the tags without leaving a tombstone.
\<close>

section \<open>Model\<close>

record or_set =
  os_elements :: "(string, uuid fset) fmap"

definition NewORSet :: or_set where
  "NewORSet = \<lparr>os_elements = fmempty\<rparr>"

definition os_Add :: "uuid \<Rightarrow> string \<Rightarrow> or_set \<Rightarrow> or_set" where
  "os_Add tag e s =
     (let m = (if fmlookup (os_elements s) e = None then fmupd e {||} (os_elements s)
               else os_elements s)
      in s\<lparr>os_elements := fmupd e (finsert tag (fmget {||} m e)) m\<rparr>)"

definition os_Remove :: "string \<Rightarrow> or_set \<Rightarrow> or_set" where
  "os_Remove e s = s\<lparr>os_elements := fmdrop e (os_elements s)\<rparr>"

definition os_Contains :: "string \<Rightarrow> or_set \<Rightarrow> bool" where
  "os_Contains e s =
     (case fmlookup (os_elements s) e of None \<Rightarrow> False | Some tags \<Rightarrow> 0 < fcard tags)"

definition os_Elements :: "or_set \<Rightarrow> string list" where
  "os_Elements s =
     foldl (\<lambda>result (element, tags). if 0 < fcard tags then result @ [element] else result) []
       (go_range (os_elements s))"

definition os_merge :: "or_set \<Rightarrow> or_set \<Rightarrow> or_set" where
  "os_merge s other =
     s\<lparr>os_elements :=
        foldl (\<lambda>m (element, otherTags).
            let m' = (if fmlookup m element = None then fmupd element {||} m else m)
            in fmupd element (fmget {||} m' element |\<union>| otherTags) m')
          (os_elements s) (go_range (os_elements other))\<rparr>"

definition os_Clone :: "or_set \<Rightarrow> or_set" where
  "os_Clone s =
     foldl (\<lambda>clone (element, tags). clone\<lparr>os_elements := fmupd element tags (os_elements clone)\<rparr>)
       NewORSet (go_range (os_elements s))"

definition os_Size :: "or_set \<Rightarrow> int" where
  "os_Size s =
     foldl (\<lambda>count (_, tags). if 0 < fcard tags then count + 1 else count) 0
       (go_range (os_elements s))"

section \<open>Abstract tags\<close>

definition os_tags :: "or_set \<Rightarrow> string \<Rightarrow> uuid fset" where
  "os_tags s e = fmget {||} (os_elements s) e"

section \<open>Lemmas\<close>

lemma os_tags_new [simp]: "os_tags NewORSet e = {||}"
  by (simp add: os_tags_def NewORSet_def)

lemma os_tags_Add: "os_tags (os_Add t e s) = (os_tags s)(e := finsert t (os_tags s e))"
  by (auto simp: fun_eq_iff os_tags_def os_Add_def Let_def fmget_None)

lemma os_tags_Remove: "os_tags (os_Remove e s) = (os_tags s)(e := {||})"
  by (auto simp: fun_eq_iff os_tags_def os_Remove_def)

lemma os_merge_lookup [range_simps]:
  "fmlookup (os_elements (os_merge s other)) e =
     (case fmlookup (os_elements other) e of None \<Rightarrow> fmlookup (os_elements s) e
      | Some tags \<Rightarrow> Some (os_tags s e |\<union>| tags))"
  unfolding os_merge_def os_tags_def fmget_def
  by (simp, subst foldl_range_lookup
      [where f = "\<lambda>r tags. Some ((case r of None \<Rightarrow> {||} | Some x \<Rightarrow> x) |\<union>| tags)"])
    (auto simp: Let_def split: option.splits)

lemma os_tags_merge: "os_tags (os_merge s other) e = os_tags s e |\<union>| os_tags other e"
  by (auto simp: os_tags_def [of "os_merge s other"] fmget_def os_merge_lookup os_tags_def
      split: option.splits)

lemma fcard_pos: "0 < fcard A \<longleftrightarrow> A \<noteq> {||}"
  by (metis fcard_0_eq neq0_conv)

lemma os_Contains_tags: "os_Contains e s \<longleftrightarrow> os_tags s e \<noteq> {||}"
  by (auto simp: os_Contains_def os_tags_def fmget_def fcard_pos split: option.splits)

lemma os_Elements_filter:
  "os_Elements s = map fst (filter (\<lambda>(_, tags). 0 < fcard tags) (go_range (os_elements s)))"
proof -
  have "foldl (\<lambda>result (element, tags). if 0 < fcard tags then result @ [element] else result) acc xs
      = acc @ map fst (filter (\<lambda>(_, tags). 0 < fcard tags) xs)" for acc :: "string list" and xs :: "(string \<times> uuid fset) list"
    by (induction xs arbitrary: acc) auto
  then show ?thesis by (simp add: os_Elements_def)
qed

lemma os_Size_length: "os_Size s = int (length (os_Elements s))"
proof -
  have "foldl (\<lambda>count (_, tags). if 0 < fcard tags then count + 1 else count) c xs
      = c + int (length (filter (\<lambda>(_, tags). 0 < fcard tags) xs))" for c and xs :: "(string \<times> uuid fset) list"
    by (induction xs arbitrary: c) auto
  then show ?thesis by (simp add: os_Size_def os_Elements_filter)
qed

lemma set_os_Elements: "set (os_Elements s) = {e. os_Contains e s}"
  by (force simp: os_Elements_filter os_Contains_tags os_tags_def set_go_range fcard_pos
      fmget_def split: option.splits)

lemma distinct_os_Elements: "distinct (os_Elements s)"
  using go_range_enumerates [of "os_elements s"]
  by (auto simp: os_Elements_filter enumerates_def distinct_map intro: inj_on_subset)

lemma os_Clone_eq [simp]: "os_Clone s = s"
proof -
  have "foldl (\<lambda>clone (element, tags). clone\<lparr>os_elements := fmupd element tags (os_elements clone)\<rparr>) c xs
      = c\<lparr>os_elements := foldl (\<lambda>m (k, v). fmupd k v m) (os_elements c) xs\<rparr>" for c :: or_set and xs
    by (induction xs arbitrary: c) (auto split: prod.splits)
  then show ?thesis by (cases s) (simp add: os_Clone_def NewORSet_def foldl_copy)
qed

lemma sorted_os_Elements: "sorted (os_Elements s)"
  by (simp add: os_Elements_filter go_range_def sorted_list_of_fmap_def filter_map comp_def
      sorted_list_of_fset.rep_eq sorted_wrt_filter)

lemma os_Elements_set: "os_Elements s = sorted_list_of_set {e. os_Contains e s}"
  using sorted_os_Elements distinct_os_Elements set_os_Elements
  by (metis sorted_list_of_set.idem_if_sorted_distinct)

lemma os_Elements_cong: "os_tags s = os_tags t \<Longrightarrow> os_Elements s = os_Elements t"
  by (simp add: os_Elements_set os_Contains_tags)

section \<open>The set is mergeable\<close>

interpretation orset: mergeable "\<lambda>f g e. f e |\<union>| g e" os_merge os_tags "\<lambda>_. True" os_Elements
  by unfold_locales (auto simp: fun_eq_iff os_tags_merge intro: os_Elements_cong)

interpretation orset_map: mergeable_keyed "\<lambda>f g e. f e |\<union>| g e" os_merge os_tags
  "\<lambda>(_::string) _. True" os_Elements NewORSet
  by (rule mergeable_keyed.intro [OF orset.mergeable_axioms]) simp_all

section \<open>Properties\<close>

text \<open>\<open>Elements\<close> lists every contained element exactly once, \<open>Size\<close> counts them, and
  each operation changes membership as a set would: addition inserts, removal deletes, merging unites.\<close>

theorem os_set_semantics:
  "set (os_Elements s) = {e. os_Contains e s} \<and> distinct (os_Elements s) \<and>
   os_Size s = int (card {e. os_Contains e s}) \<and>
   {x. os_Contains x (os_Add t e s)} = insert e {x. os_Contains x s} \<and>
   {x. os_Contains x (os_Remove e s)} = {x. os_Contains x s} - {e} \<and>
   {x. os_Contains x (os_merge s s')} = {x. os_Contains x s} \<union> {x. os_Contains x s'}"
  using set_os_Elements [of s] distinct_os_Elements [of s] distinct_card [of "os_Elements s"]
  by (auto simp: os_Size_length os_Contains_tags os_tags_Add os_tags_Remove os_tags_merge)

text \<open>A removal leaves no trace to merge: after an element is removed on one replica, merging with
  a replica that still holds the element brings it back, even when every tag of it had been observed
  by the remover.\<close>

theorem os_Remove_undone_by_merge:
  "os_Contains e (os_merge (os_Remove e s) s') \<longleftrightarrow> os_Contains e s'"
  by (simp add: os_Contains_tags os_tags_merge os_tags_Remove)

end
