(* ===== verification/State_Crdt.thy ===== *)
theory State_Crdt
  imports Counters Lww_Register Or_Set
begin

text \<open>
  The workspace state CRDT (\<open>pkg/collaboration/state_crdt.go\<close>): counters, registers and sets
  addressed by path, a vector clock and the log of operations.  Local operations draw a UUID and
  read the clock, and \<open>AddToSet\<close> draws the tag of the addition; these are arguments of the
  model.  The state is an interpretation of \<open>mergeable\<close> with \<open>Get\<close> as its query.
\<close>

section \<open>Model\<close>

record state_op =
  so_ID :: uuid
  so_Type :: string
  so_Path :: string
  so_Value :: gval
  so_Delta :: int
  so_NodeID :: node_id
  so_Clock :: vector_clock
  so_Timestamp :: go_time

record state_crdt =
  st_stateID :: uuid
  st_nodeID :: node_id
  st_clock :: vector_clock
  st_counters :: "(string, pncounter) fmap"
  st_registers :: "(string, lww_register) fmap"
  st_sets :: "(string, or_set) fmap"
  st_operations :: "state_op list"

definition NewStateCRDT :: "uuid \<Rightarrow> node_id \<Rightarrow> state_crdt" where
  "NewStateCRDT stateID nodeID =
     \<lparr>st_stateID = stateID, st_nodeID = nodeID, st_clock = NewVectorClock,
      st_counters = fmempty, st_registers = fmempty, st_sets = fmempty, st_operations = []\<rparr>"

definition st_Set :: "uuid \<Rightarrow> go_time \<Rightarrow> string \<Rightarrow> gval \<Rightarrow> state_crdt \<Rightarrow> state_op \<times> state_crdt" where
  "st_Set uid now path v s =
     (let clock = vc_Increment (st_nodeID s) (st_clock s);
          op = \<lparr>so_ID = uid, so_Type = ''set'', so_Path = path, so_Value = v, so_Delta = 0,
                so_NodeID = st_nodeID s, so_Clock = vc_Clone clock, so_Timestamp = now\<rparr>;
          reg = fmget NewLWWRegister (st_registers s) path
      in (op, s\<lparr>st_clock := clock,
                st_registers := fmupd path (lww_Set v (so_Timestamp op) (so_NodeID op) reg)
                  (st_registers s),
                st_operations := st_operations s @ [op]\<rparr>))"

definition st_Get :: "string \<Rightarrow> state_crdt \<Rightarrow> gval \<times> bool" where
  "st_Get path s =
     (case fmlookup (st_registers s) path of
        Some reg \<Rightarrow> (lww_Get reg, lww_Get reg \<noteq> VNil)
      | None \<Rightarrow>
          (case fmlookup (st_counters s) path of
             Some counter \<Rightarrow> (VInt (pn_Value counter), True)
           | None \<Rightarrow>
               (case fmlookup (st_sets s) path of
                  Some set' \<Rightarrow> (VList (map VStr (os_Elements set')), True)
                | None \<Rightarrow> (VNil, False))))"

definition st_IncrementCounter ::
  "uuid \<Rightarrow> go_time \<Rightarrow> string \<Rightarrow> u64 \<Rightarrow> state_crdt \<Rightarrow> state_op \<times> state_crdt" where
  "st_IncrementCounter uid now path delta s =
     (let clock = vc_Increment (st_nodeID s) (st_clock s);
          op = \<lparr>so_ID = uid, so_Type = ''increment'', so_Path = path, so_Value = VNil,
                so_Delta = sint delta, so_NodeID = st_nodeID s, so_Clock = vc_Clone clock,
                so_Timestamp = now\<rparr>;
          counter = fmget NewPNCounter (st_counters s) path
      in (op, s\<lparr>st_clock := clock,
                st_counters := fmupd path (pn_Increment (so_NodeID op) delta counter)
                  (st_counters s),
                st_operations := st_operations s @ [op]\<rparr>))"

definition st_DecrementCounter ::
  "uuid \<Rightarrow> go_time \<Rightarrow> string \<Rightarrow> u64 \<Rightarrow> state_crdt \<Rightarrow> state_op \<times> state_crdt" where
  "st_DecrementCounter uid now path delta s =
     (let clock = vc_Increment (st_nodeID s) (st_clock s);
          op = \<lparr>so_ID = uid, so_Type = ''decrement'', so_Path = path, so_Value = VNil,
                so_Delta = sint delta, so_NodeID = st_nodeID s, so_Clock = vc_Clone clock,
                so_Timestamp = now\<rparr>;
          counter = fmget NewPNCounter (st_counters s) path
      in (op, s\<lparr>st_clock := clock,
                st_counters := fmupd path (pn_Decrement (so_NodeID op) delta counter)
                  (st_counters s),
                st_operations := st_operations s @ [op]\<rparr>))"

definition st_AddToSet ::
  "uuid \<Rightarrow> uuid \<Rightarrow> go_time \<Rightarrow> string \<Rightarrow> string \<Rightarrow> state_crdt \<Rightarrow> state_op \<times> state_crdt" where
  "st_AddToSet uid tag now path element s =
     (let clock = vc_Increment (st_nodeID s) (st_clock s);
          op = \<lparr>so_ID = uid, so_Type = ''add_to_set'', so_Path = path, so_Value = VStr element,
                so_Delta = 0, so_NodeID = st_nodeID s, so_Clock = vc_Clone clock,
                so_Timestamp = now\<rparr>;
          set' = fmget NewORSet (st_sets s) path
      in (op, s\<lparr>st_clock := clock,
                st_sets := fmupd path (os_Add tag element set') (st_sets s),
                st_operations := st_operations s @ [op]\<rparr>))"

definition st_RemoveFromSet ::
  "uuid \<Rightarrow> go_time \<Rightarrow> string \<Rightarrow> string \<Rightarrow> state_crdt \<Rightarrow> state_op \<times> state_crdt" where
  "st_RemoveFromSet uid now path element s =
     (let clock = vc_Increment (st_nodeID s) (st_clock s);
          op = \<lparr>so_ID = uid, so_Type = ''remove_from_set'', so_Path = path, so_Value = VStr element,
                so_Delta = 0, so_NodeID = st_nodeID s, so_Clock = vc_Clone clock,
                so_Timestamp = now\<rparr>
      in (op, s\<lparr>st_clock := clock,
                st_sets := (case fmlookup (st_sets s) path of
                    None \<Rightarrow> st_sets s
                  | Some set' \<Rightarrow> fmupd path (os_Remove element set') (st_sets s)),
                st_operations := st_operations s @ [op]\<rparr>))"

text \<open>
  \<open>ApplyOperation\<close> returns the error, if any, with the state it leaves behind: the vector clock
  is updated before the operation type is looked at.
\<close>

definition st_ApplyOperation ::
  "uuid \<Rightarrow> state_op \<Rightarrow> state_crdt \<Rightarrow> string option \<times> state_crdt" where
  "st_ApplyOperation tag op s0 =
     (let s = s0\<lparr>st_clock := vc_Update (st_clock s0) (so_Clock op)\<rparr>;
          path = so_Path op;
          logged = (\<lambda>s. (None, s\<lparr>st_operations := st_operations s @ [op]\<rparr>))
      in if so_Type op = ''set'' then
           logged (s\<lparr>st_registers := fmupd path
             (lww_Set (so_Value op) (so_Timestamp op) (so_NodeID op)
               (fmget NewLWWRegister (st_registers s) path)) (st_registers s)\<rparr>)
         else if so_Type op = ''increment'' then
           logged (s\<lparr>st_counters := fmupd path
             (pn_Increment (so_NodeID op) (word_of_int (so_Delta op))
               (fmget NewPNCounter (st_counters s) path)) (st_counters s)\<rparr>)
         else if so_Type op = ''decrement'' then
           logged (s\<lparr>st_counters := fmupd path
             (pn_Decrement (so_NodeID op) (word_of_int (so_Delta op))
               (fmget NewPNCounter (st_counters s) path)) (st_counters s)\<rparr>)
         else if so_Type op = ''add_to_set'' then
           (let set' = fmget NewORSet (st_sets s) path
            in logged (s\<lparr>st_sets := fmupd path
                 (case so_Value op of VStr element \<Rightarrow> os_Add tag element set' | _ \<Rightarrow> set')
                 (st_sets s)\<rparr>))
         else if so_Type op = ''remove_from_set'' then
           logged (s\<lparr>st_sets :=
             (case fmlookup (st_sets s) path of
                None \<Rightarrow> st_sets s
              | Some set' \<Rightarrow>
                  (case so_Value op of
                     VStr element \<Rightarrow> fmupd path (os_Remove element set') (st_sets s)
                   | _ \<Rightarrow> st_sets s))\<rparr>)
         else (Some (''unknown operation type: '' @ so_Type op), s))"

definition st_GetState :: "state_crdt \<Rightarrow> (string, gval) fmap" where
  "st_GetState s =
     (let state = foldl (\<lambda>m (path, reg). if lww_Get reg \<noteq> VNil then fmupd path (lww_Get reg) m else m)
            fmempty (go_range (st_registers s));
          state = foldl (\<lambda>m (path, counter). fmupd path (VInt (pn_Value counter)) m)
            state (go_range (st_counters s))
      in foldl (\<lambda>m (path, set'). fmupd path (VList (map VStr (os_Elements set'))) m)
           state (go_range (st_sets s)))"

definition st_merge :: "state_crdt \<Rightarrow> state_crdt \<Rightarrow> state_crdt" where
  "st_merge s other =
     s\<lparr>st_registers := merge_maps NewLWWRegister lww_merge (st_registers s) (st_registers other),
       st_counters := merge_maps NewPNCounter pn_merge (st_counters s) (st_counters other),
       st_sets := merge_maps NewORSet os_merge (st_sets s) (st_sets other),
       st_clock := vc_Update (st_clock s) (st_clock other)\<rparr>"

definition st_Clone :: "state_crdt \<Rightarrow> state_crdt" where
  "st_Clone s =
     (NewStateCRDT (st_stateID s) (st_nodeID s))
       \<lparr>st_clock := vc_Clone (st_clock s),
        st_registers := foldl (\<lambda>m (path, reg). fmupd path (lww_Clone reg) m) fmempty
          (go_range (st_registers s)),
        st_counters := foldl (\<lambda>m (path, c). fmupd path (pn_Clone c) m) fmempty
          (go_range (st_counters s)),
        st_sets := foldl (\<lambda>m (path, set'). fmupd path (os_Clone set') m) fmempty
          (go_range (st_sets s)),
        st_operations := st_operations s\<rparr>"

definition st_GetOperationsSince :: "vector_clock \<Rightarrow> state_crdt \<Rightarrow> state_op list" where
  "st_GetOperationsSince since s =
     foldl (\<lambda>ops op.
         if \<not> vc_HappensBefore since (so_Clock op) \<and> \<not> vc_Concurrent since (so_Clock op)
         then ops else ops @ [op]) [] (st_operations s)"

section \<open>Histories and the replica contract\<close>

definition st_ok :: "(string \<Rightarrow> stamp \<Rightarrow> gval) \<Rightarrow> state_crdt \<Rightarrow> bool" where
  "st_ok w s \<longleftrightarrow> fmpred (\<lambda>path. lww_ok (w path)) (st_registers s)"

lemma st_ok_regs: "st_ok w s \<longleftrightarrow> lww_map.invars w (st_registers s)"
  by (simp add: st_ok_def lww_map.invars_def)

text \<open>The abstract value: per path the register's stamp, the counter's counts, the set's tags.\<close>

type_synonym st_value = "(string \<Rightarrow> stamp option) \<times>
    (string \<Rightarrow> ((node_id \<Rightarrow> u64) \<times> (node_id \<Rightarrow> u64)) option) \<times>
    (string \<Rightarrow> (string \<Rightarrow> uuid fset) option) \<times> (node_id \<Rightarrow> u64)"

definition st_view :: "state_crdt \<Rightarrow> st_value" where
  "st_view s = (lww_map.views (st_registers s), pncounter_map.views (st_counters s),
     orset_map.views (st_sets s), vc_time (st_clock s))"

abbreviation pn_join :: "(node_id \<Rightarrow> u64) \<times> (node_id \<Rightarrow> u64) \<Rightarrow> (node_id \<Rightarrow> u64) \<times> (node_id \<Rightarrow> u64) \<Rightarrow>
    (node_id \<Rightarrow> u64) \<times> (node_id \<Rightarrow> u64)" where
  "pn_join f g \<equiv> (\<lambda>n. max (fst f n) (fst g n), \<lambda>n. max (snd f n) (snd g n))"

fun st_join :: "st_value \<Rightarrow> st_value \<Rightarrow> st_value" where
  "st_join (r, c, e, v) (r', c', e', v') =
     (\<lambda>k. join_opt max (r k) (r' k), \<lambda>k. join_opt pn_join (c k) (c' k),
      \<lambda>k. join_opt (\<lambda>f g e. f e |\<union>| g e) (e k) (e' k), \<lambda>n. max (v n) (v' n))"

section \<open>Lemmas\<close>

lemma st_merge_fields [simp]:
  "st_nodeID (st_merge s t) = st_nodeID s"
  "st_operations (st_merge s t) = st_operations s"
  "st_clock (st_merge s t) = vc_Update (st_clock s) (st_clock t)"
  "st_registers (st_merge s t) = merge_maps NewLWWRegister lww_merge (st_registers s) (st_registers t)"
  "st_counters (st_merge s t) = merge_maps NewPNCounter pn_merge (st_counters s) (st_counters t)"
  "st_sets (st_merge s t) = merge_maps NewORSet os_merge (st_sets s) (st_sets t)"
  by (simp_all add: st_merge_def)

lemma st_ok_new [simp]: "st_ok w (NewStateCRDT sid node)"
  by (simp add: st_ok_def NewStateCRDT_def)

lemma st_ok_merge: "st_ok w s \<Longrightarrow> st_ok w t \<Longrightarrow> st_ok w (st_merge s t)"
  by (simp add: st_ok_regs lww_map.invars_merge_maps)

lemma st_view_merge:
  assumes "st_ok w s" "st_ok w t"
  shows "st_view (st_merge s t) = st_join (st_view s) (st_view t)"
  using assms
  by (simp add: st_view_def st_ok_regs lww_map.keyed.view_merge pncounter_map.keyed.view_merge
      orset_map.keyed.view_merge clock.view_merge pncounter_map.invars_def orset_map.invars_def
      fmpred_iff)

text \<open>\<open>Get\<close> reads nothing but the queries of the three maps.\<close>

lemma st_Get_queries:
  "st_Get path s =
     (case lww_map.queries (st_registers s) path of
        Some v \<Rightarrow> (v, v \<noteq> VNil)
      | None \<Rightarrow> (case pncounter_map.queries (st_counters s) path of
           Some n \<Rightarrow> (VInt n, True)
         | None \<Rightarrow> (case orset_map.queries (st_sets s) path of
              Some es \<Rightarrow> (VList (map VStr es), True)
            | None \<Rightarrow> (VNil, False))))"
  by (simp add: st_Get_def lww_map.queries_def pncounter_map.queries_def orset_map.queries_def
      split: option.split)

lemma st_Get_view:
  assumes "st_ok w s" "st_ok w t" "st_view s = st_view t"
  shows "st_Get path s = st_Get path t"
proof -
  have "lww_map.queries (st_registers s) = lww_map.queries (st_registers t)"
    using assms by (intro lww_map.keyed.query_view [of w]) (simp_all add: st_ok_regs st_view_def)
  moreover have "pncounter_map.queries (st_counters s) = pncounter_map.queries (st_counters t)"
    using assms by (intro pncounter_map.keyed.query_view)
      (simp_all add: st_view_def pncounter_map.invars_def fmpred_iff)
  moreover have "orset_map.queries (st_sets s) = orset_map.queries (st_sets t)"
    using assms by (intro orset_map.keyed.query_view)
      (simp_all add: st_view_def orset_map.invars_def fmpred_iff)
  ultimately show ?thesis by (simp add: st_Get_queries split: option.split)
qed

section \<open>The state is mergeable\<close>

interpretation state: mergeable st_join st_merge st_view "st_ok w" "\<lambda>s path. st_Get path s" for w
proof
  show "st_join (st_join a b) c = st_join a (st_join b c)" for a b c
    by (cases a; cases b; cases c)
      (simp add: lww_map.join_opt_assoc pncounter_map.join_opt_assoc orset_map.join_opt_assoc max.assoc)
  show "st_join a b = st_join b a" for a b
    by (cases a; cases b)
      (simp add: lww_map.join_opt_commute pncounter_map.join_opt_commute
        orset_map.join_opt_commute max.commute)
  show "st_join a a = a" for a
    by (cases a) (simp add: lww_map.join_opt_idem pncounter_map.join_opt_idem orset_map.join_opt_idem)
qed (auto simp: st_view_merge st_ok_merge fun_eq_iff intro: st_Get_view)

section \<open>Local operations and their remote application\<close>

lemma st_Get_sets_cong:
  assumes "st_registers s = st_registers t" "st_counters s = st_counters t"
    and "\<And>p. map_option os_Elements (fmlookup (st_sets s) p) =
      map_option os_Elements (fmlookup (st_sets t) p)"
  shows "st_Get path s = st_Get path t"
  using assms(1,2) assms(3) [of path]
  by (auto simp: st_Get_def split: option.splits)

lemma os_Elements_Add_tag: "os_Elements (os_Add t e s) = os_Elements (os_Add t' e s)"
  by (auto simp: os_Elements_set os_Contains_tags os_tags_Add intro!: arg_cong [where f = sorted_list_of_set])

definition same_data :: "state_crdt \<Rightarrow> state_crdt \<Rightarrow> bool" where
  "same_data s t \<longleftrightarrow> st_registers s = st_registers t \<and> st_counters s = st_counters t \<and>
     st_sets s = st_sets t"

text \<open>The five local operations of the API, as data.\<close>

datatype local_op =
    LSet string gval
  | LIncrement string u64
  | LDecrement string u64
  | LAdd string string
  | LRemove string string

fun run_local :: "uuid \<Rightarrow> uuid \<Rightarrow> go_time \<Rightarrow> local_op \<Rightarrow> state_crdt \<Rightarrow> state_op \<times> state_crdt" where
  "run_local uid tag now (LSet path v) s = st_Set uid now path v s"
| "run_local uid tag now (LIncrement path d) s = st_IncrementCounter uid now path d s"
| "run_local uid tag now (LDecrement path d) s = st_DecrementCounter uid now path d s"
| "run_local uid tag now (LAdd path e) s = st_AddToSet uid tag now path e s"
| "run_local uid tag now (LRemove path e) s = st_RemoveFromSet uid now path e s"

lemmas local_op_defs = st_Set_def st_IncrementCounter_def st_DecrementCounter_def
  st_AddToSet_def st_RemoveFromSet_def

text \<open>C3 A local operation that is shipped to another replica and applied there has the same
  effect on what that replica answers: when the receiver held the same registers, counters and sets as
  the sender did, every path reads the same on both after \<open>ApplyOperation\<close>, whatever tag the
  receiver draws for an addition; the call returns no error and appends the operation to the log.\<close>

theorem st_ApplyOperation_replicates:
  assumes "same_data r s" and "run_local uid tag now l s = (op, s')"
  shows "\<exists>r'. st_ApplyOperation tag' op r = (None, r') \<and>
    (\<forall>path. st_Get path r' = st_Get path s') \<and> st_operations r' = st_operations r @ [op]"
  using assms
  by (cases l)
    (auto simp: same_data_def local_op_defs st_ApplyOperation_def Let_def os_Elements_Add_tag [of tag' _ _ tag]
      intro!: st_Get_sets_cong split: option.splits)

text \<open>A counter incremented on one replica and the operation applied on a fresh one.\<close>

theorem st_ApplyOperation_replicates_witness:
  "let s = NewStateCRDT 1 ''a''; r = NewStateCRDT 1 ''b'';
       (op, s') = run_local 7 9 100 (LIncrement ''hits'' 5) s
   in st_Get ''hits'' (snd (st_ApplyOperation 11 op r)) = st_Get ''hits'' s' \<and>
      st_Get ''hits'' s' = (VInt 5, True)"
proof -
  define s r where "s = NewStateCRDT 1 ''a''" and "r = NewStateCRDT 1 ''b''"
  obtain op s' where run: "run_local 7 9 100 (LIncrement ''hits'' 5) s = (op, s')"
    by (metis surj_pair)
  have "same_data r s" by (simp add: same_data_def s_def r_def NewStateCRDT_def)
  from st_ApplyOperation_replicates [OF this run, of 11]
  have "st_Get ''hits'' (snd (st_ApplyOperation 11 op r)) = st_Get ''hits'' s'" by auto
  moreover have "st_Get ''hits'' s' = (VInt 5, True)"
    using run by (auto simp: s_def NewStateCRDT_def local_op_defs Let_def st_Get_def pn_Value_def
        pn_Increment_def NewPNCounter_def gc_Value_Increment)
  ultimately show ?thesis using run by (simp flip: s_def r_def)
qed

section \<open>Delivery order\<close>

text \<open>What one remote operation does to each of the three maps.\<close>

definition reg_step :: "state_op \<Rightarrow> (string, lww_register) fmap \<Rightarrow> (string, lww_register) fmap" where
  "reg_step op m =
     (if so_Type op = ''set'' then fmodify NewLWWRegister (so_Path op)
        (lww_Set (so_Value op) (so_Timestamp op) (so_NodeID op)) m
      else m)"

definition counter_step :: "state_op \<Rightarrow> (string, pncounter) fmap \<Rightarrow> (string, pncounter) fmap" where
  "counter_step op m =
     (if so_Type op = ''increment'' then fmodify NewPNCounter (so_Path op)
        (pn_Increment (so_NodeID op) (word_of_int (so_Delta op))) m
      else if so_Type op = ''decrement'' then fmodify NewPNCounter (so_Path op)
        (pn_Decrement (so_NodeID op) (word_of_int (so_Delta op))) m
      else m)"

definition set_step :: "uuid \<times> state_op \<Rightarrow> (string, or_set) fmap \<Rightarrow> (string, or_set) fmap" where
  "set_step x m =
     (if so_Type (snd x) = ''add_to_set'' then fmodify NewORSet (so_Path (snd x))
        (case so_Value (snd x) of VStr element \<Rightarrow> os_Add (fst x) element | _ \<Rightarrow> id) m
      else m)"

lemma st_ApplyOperation_steps:
  "st_registers (snd (st_ApplyOperation tag op s)) = reg_step op (st_registers s)"
  "st_counters (snd (st_ApplyOperation tag op s)) = counter_step op (st_counters s)"
  "so_Type op \<noteq> ''remove_from_set'' \<Longrightarrow>
   st_sets (snd (st_ApplyOperation tag op s)) = set_step (tag, op) (st_sets s)"
  by (auto simp: st_ApplyOperation_def Let_def reg_step_def counter_step_def set_step_def fmodify_def
      split: gval.split)

definition deliver :: "(uuid \<times> state_op) list \<Rightarrow> state_crdt \<Rightarrow> state_crdt" where
  "deliver xs s = fold (\<lambda>(tag, op) s. snd (st_ApplyOperation tag op s)) xs s"

lemma deliver_steps:
  "st_registers (deliver xs s) = fold (\<lambda>x. reg_step (snd x)) xs (st_registers s)"
  "st_counters (deliver xs s) = fold (\<lambda>x. counter_step (snd x)) xs (st_counters s)"
  "(\<And>x. x \<in> set xs \<Longrightarrow> so_Type (snd x) \<noteq> ''remove_from_set'') \<Longrightarrow>
   st_sets (deliver xs s) = fold set_step xs (st_sets s)"
  unfolding deliver_def
  by (induction xs arbitrary: s) (force simp: st_ApplyOperation_steps split: prod.splits)+

lemma lww_Set_commute:
  assumes "(ts, n) = (ts', n') \<Longrightarrow> v = v'"
  shows "lww_Set v ts n (lww_Set v' ts' n' r) = lww_Set v' ts' n' (lww_Set v ts n r)"
  using assms by (auto simp: lww_Set_stamp lww_stamp_def)

lemma gc_Increment_commute:
  "gc_Increment n d (gc_Increment n' d' g) = gc_Increment n' d' (gc_Increment n d g)"
  by (cases "n = n'") (auto simp: gc_Increment_def fmupd_swap ac_simps)

lemma os_Add_commute: "os_Add t e (os_Add t' e' s) = os_Add t' e' (os_Add t e s)"
proof -
  have eq: "os_Add t e s = s\<lparr>os_elements := fmodify {||} e (finsert t) (os_elements s)\<rparr>" for t e s
    by (auto simp: os_Add_def Let_def fmodify_def fmget_None)
  show ?thesis by (simp add: eq fmodify_commute [of e e'] finsert_commute)
qed

lemma pn_steps_commute:
  "pn_Increment n d (pn_Increment n' d' p) = pn_Increment n' d' (pn_Increment n d p)"
  "pn_Decrement n d (pn_Decrement n' d' p) = pn_Decrement n' d' (pn_Decrement n d p)"
  "pn_Increment n d (pn_Decrement n' d' p) = pn_Decrement n' d' (pn_Increment n d p)"
  by (simp_all add: pn_Increment_def pn_Decrement_def gc_Increment_commute)

lemma reg_step_commute:
  assumes "so_Type a = ''set'' \<Longrightarrow> so_Value a = w (so_Path a) (so_Timestamp a, so_NodeID a)"
    and "so_Type b = ''set'' \<Longrightarrow> so_Value b = w (so_Path b) (so_Timestamp b, so_NodeID b)"
  shows "reg_step a (reg_step b m) = reg_step b (reg_step a m)"
  using assms by (auto simp: reg_step_def intro!: fmodify_commute lww_Set_commute)

lemma counter_step_commute: "counter_step a (counter_step b m) = counter_step b (counter_step a m)"
  by (auto simp: counter_step_def intro!: fmodify_commute simp: pn_steps_commute)

lemma set_step_commute: "set_step a (set_step b m) = set_step b (set_step a m)"
  by (auto simp: set_step_def os_Add_commute intro!: fmodify_commute split: gval.split)

text \<open>C2 Operation-based replication converges for every operation but removal: two replicas that
  start from the same state and receive the same operations (with the same drawn tags) in different
  orders answer every \<open>Get\<close> alike, provided a write's stamp determines its value.\<close>

theorem deliver_order_irrelevant:
  assumes "mset xs = mset ys"
    and "\<And>x. x \<in> set xs \<Longrightarrow> so_Type (snd x) \<noteq> ''remove_from_set''"
    and "\<And>x. x \<in> set xs \<Longrightarrow> so_Type (snd x) = ''set'' \<Longrightarrow>
      so_Value (snd x) = w (so_Path (snd x)) (so_Timestamp (snd x), so_NodeID (snd x))"
  shows "st_Get path (deliver xs s) = st_Get path (deliver ys s)"
proof -
  have set: "set xs = set ys" using assms(1) by (metis set_mset_mset)
  have "st_registers (deliver xs s) = st_registers (deliver ys s)"
    unfolding deliver_steps
    by (rule fold_permuted_eq [where P = "\<lambda>_. True"]) (use assms in \<open>auto intro!: reg_step_commute [of _ w]\<close>)
  moreover have "st_counters (deliver xs s) = st_counters (deliver ys s)"
    unfolding deliver_steps
    by (rule fold_permuted_eq [where P = "\<lambda>_. True"]) (use assms in \<open>auto intro!: counter_step_commute\<close>)
  moreover have "st_sets (deliver xs s) = st_sets (deliver ys s)"
  proof -
    have "fold set_step xs (st_sets s) = fold set_step ys (st_sets s)"
      by (rule fold_permuted_eq [where P = "\<lambda>_. True"]) (use assms in \<open>auto intro!: set_step_commute\<close>)
    then show ?thesis
      using deliver_steps(3) [of xs s] deliver_steps(3) [of ys s] assms(2) set by simp
  qed
  ultimately show ?thesis by (intro st_Get_sets_cong) simp_all
qed

theorem deliver_order_irrelevant_witness:
  "let i = \<lparr>so_ID = 1, so_Type = ''increment'', so_Path = ''n'', so_Value = VNil, so_Delta = 2,
            so_NodeID = ''a'', so_Clock = fmempty, so_Timestamp = 10\<rparr>;
       d = i\<lparr>so_ID := 2, so_Type := ''decrement'', so_NodeID := ''b''\<rparr>;
       s = NewStateCRDT 0 ''c''
   in st_Get ''n'' (deliver [(0, i), (0, d)] s) = st_Get ''n'' (deliver [(0, d), (0, i)] s)"
  unfolding Let_def
  by (rule deliver_order_irrelevant [where w = "\<lambda>_ _. VNil"]) (auto simp: add_mset_commute)

section \<open>Operations since a clock\<close>

lemma st_GetOperationsSince_filter:
  "st_GetOperationsSince since s =
     filter (\<lambda>op. \<not> vc_HappensBefore (so_Clock op) since) (st_operations s)"
proof -
  have keep: "(\<not> vc_HappensBefore since c \<and> \<not> vc_Concurrent since c) \<longleftrightarrow> vc_HappensBefore c since" for c
    by (auto simp: vc_Concurrent_def vc_HappensBefore_le)
  have "foldl (\<lambda>ops op. if \<not> P op then ops else ops @ [op]) acc xs = acc @ filter P xs"
    for P :: "state_op \<Rightarrow> bool" and acc xs
    by (induction xs arbitrary: acc) auto
  from this [of "\<lambda>op. \<not> vc_HappensBefore (so_Clock op) since"]
  show ?thesis unfolding st_GetOperationsSince_def by (simp add: keep)
qed

text \<open>Synchronising with \<open>GetOperationsSince\<close> and \<open>ApplyOperation\<close> is not
  idempotent: a peer whose clock is exactly the clock of a counter increment is sent that increment
  again, and applying it again counts it twice.\<close>

theorem st_resync_double_counts:
  assumes "st_IncrementCounter uid now path delta s = (op, s')"
  shows "op \<in> set (st_GetOperationsSince (st_clock s') s') \<and>
    gc_Value (pn_positive (fmget NewPNCounter
      (st_counters (snd (st_ApplyOperation tag op s'))) path)) =
    gc_Value (pn_positive (fmget NewPNCounter (st_counters s) path)) + 2 * delta"
  using assms
  by (auto simp: st_GetOperationsSince_filter st_IncrementCounter_def Let_def st_ApplyOperation_def
      pn_Increment_def gc_Value_Increment)

theorem st_resync_double_counts_witness:
  "let s = NewStateCRDT 1 ''a''; (op, s') = st_IncrementCounter 7 100 ''hits'' 5 s
   in op \<in> set (st_GetOperationsSince (st_clock s') s') \<and>
      gc_Value (pn_positive (fmget NewPNCounter
        (st_counters (snd (st_ApplyOperation 0 op s'))) ''hits'')) = 10"
proof -
  define s where "s = NewStateCRDT 1 ''a''"
  obtain op s' where run: "st_IncrementCounter 7 100 ''hits'' 5 s = (op, s')"
    by (metis surj_pair)
  have "gc_Value (pn_positive (fmget NewPNCounter (st_counters s) ''hits'')) = 0"
    by (simp add: s_def NewStateCRDT_def NewPNCounter_def gc_Value_def NewGCounter_def)
  with st_resync_double_counts [OF run, of 0] show ?thesis
    by (simp add: run flip: s_def)
qed

section \<open>Replicas of one history\<close>

text \<open>
  The states a replica can be in when every write of stamp \<open>(t, n)\<close> at a path writes
  \<open>w path (t, n)\<close>: local operations, remote operations and merges in any order.
\<close>

inductive replica :: "(string \<Rightarrow> stamp \<Rightarrow> gval) \<Rightarrow> state_crdt \<Rightarrow> bool" for w where
  new: "replica w (NewStateCRDT sid node)"
| local: "replica w s \<Longrightarrow> (\<And>p v. l = LSet p v \<Longrightarrow> v = w p (now, st_nodeID s)) \<Longrightarrow>
    replica w (snd (run_local uid tag now l s))"
| remote: "replica w s \<Longrightarrow> (so_Type op = ''set'' \<Longrightarrow>
      so_Value op = w (so_Path op) (so_Timestamp op, so_NodeID op)) \<Longrightarrow>
    replica w (snd (st_ApplyOperation tag op s))"
| merge: "replica w s \<Longrightarrow> replica w t \<Longrightarrow> replica w (st_merge s t)"
| clone: "replica w s \<Longrightarrow> replica w (st_Clone s)"

lemma st_Clone_eq: "st_Clone s = s"
  by (cases s) (simp add: st_Clone_def NewStateCRDT_def foldl_copy)

lemma st_ok_upd_eq:
  "st_ok w s \<Longrightarrow> v = w p (ts, n) \<Longrightarrow>
   st_ok w (s\<lparr>st_clock := c, st_registers :=
     fmupd p (lww_Set v ts n (fmget NewLWWRegister (st_registers s) p)) (st_registers s),
     st_operations := os\<rparr>)"
  by (simp add: st_ok_regs lww_map.invars_upd lww_ok_Set lww_map.invars_fmget)

lemma st_ok_reg_step:
  assumes "st_ok w s" "so_Type op = ''set'' \<Longrightarrow> so_Value op = w (so_Path op) (so_Timestamp op, so_NodeID op)"
    and "st_registers s' = reg_step op (st_registers s)"
  shows "st_ok w s'"
  using assms
  by (auto simp: st_ok_regs reg_step_def fmodify_def lww_map.invars_upd lww_ok_Set lww_map.invars_fmget)

lemma replica_ok: "replica w s \<Longrightarrow> st_ok w s"
proof (induction rule: replica.induct)
  case (local s l now uid tag)
  then show ?case
    by (cases l) (simp_all add: local_op_defs Let_def st_ok_upd_eq, simp_all add: st_ok_def)
next
  case (remote s op tag)
  then show ?case by (elim st_ok_reg_step [of w s op]) (auto simp: st_ApplyOperation_steps)
qed (auto simp: st_ok_merge st_Clone_eq)

text \<open>C1 Strong eventual consistency of the workspace state: two replicas that have merged the same
  set of replica states into a common state, in whatever order and with whatever repetitions, answer
  every \<open>Get\<close> alike.\<close>

theorem state_convergence:
  assumes "replica w s" and "\<And>x. x \<in> set xs \<Longrightarrow> replica w x" and "set xs = set ys"
  shows "st_Get path (foldl st_merge s xs) = st_Get path (foldl st_merge s ys)"
  by (rule state.convergence [THEN fun_cong, of w]) (auto intro: replica_ok assms simp flip: assms(3))

theorem state_convergence_witness:
  "let s = NewStateCRDT 0 ''c'';
       a = snd (run_local 1 0 10 (LSet ''title'' (VStr ''x'')) (NewStateCRDT 0 ''a''));
       b = snd (run_local 2 0 20 (LSet ''title'' (VStr ''y'')) (NewStateCRDT 0 ''b''))
   in st_Get ''title'' (foldl st_merge s [a, b]) = st_Get ''title'' (foldl st_merge s [b, a, b])"
  unfolding Let_def
proof (rule state_convergence)
  let ?w = "\<lambda>p s. if fst s = 10 then VStr ''x'' else VStr ''y''"
  show "replica ?w (NewStateCRDT 0 ''c'')" by (rule replica.new)
  show "replica ?w x" if "x \<in> set
      [snd (run_local 1 0 10 (LSet ''title'' (VStr ''x'')) (NewStateCRDT 0 ''a'')),
       snd (run_local 2 0 20 (LSet ''title'' (VStr ''y'')) (NewStateCRDT 0 ''b''))]" for x
    using that by (auto simp del: run_local.simps intro!: replica.intros)
qed auto

text \<open>Merging is commutative, associative and idempotent on what an application reads.\<close>

theorem st_merge_semilattice:
  assumes "replica w a" "replica w b" "replica w c"
  shows "st_Get path (st_merge a b) = st_Get path (st_merge b a) \<and>
    st_Get path (st_merge (st_merge a b) c) = st_Get path (st_merge a (st_merge b c)) \<and>
    st_Get path (st_merge a a) = st_Get path a"
  using assms [THEN replica_ok]
  by (intro conjI state.query_merge_commute [THEN fun_cong, of w]
      state.query_merge_assoc [THEN fun_cong, of w] state.query_merge_idem [THEN fun_cong, of w])

theorem st_merge_semilattice_witness:
  "let a = NewStateCRDT 0 ''a''; b = snd (run_local 2 0 20 (LIncrement ''n'' 3) (NewStateCRDT 0 ''b''))
   in st_Get ''n'' (st_merge a b) = st_Get ''n'' (st_merge b a)"
  unfolding Let_def
  by (rule st_merge_semilattice [THEN conjunct1, of "\<lambda>_ _. VNil", OF _ _ replica.new])
    (auto intro!: replica.new replica.local simp del: run_local.simps)

section \<open>The whole state and the single path\<close>

lemma foldl_lookup_upd:
  assumes "enumerates xs n"
  shows "fmlookup (foldl (\<lambda>m (k, v). if P v then fmupd k (g v) m else m) m xs) k =
     (case fmlookup n k of None \<Rightarrow> fmlookup m k | Some v \<Rightarrow> if P v then Some (g v) else fmlookup m k)"
  by (subst foldl_range_lookup [where f = "\<lambda>r v. if P v then Some (g v) else r", OF _ assms]) auto

lemma st_GetState_lookup:
  "fmlookup (st_GetState s) p =
     (case fmlookup (st_sets s) p of
        Some e \<Rightarrow> Some (VList (map VStr (os_Elements e)))
      | None \<Rightarrow> (case fmlookup (st_counters s) p of
           Some c \<Rightarrow> Some (VInt (pn_Value c))
         | None \<Rightarrow> (case fmlookup (st_registers s) p of
              Some r \<Rightarrow> if lww_Get r \<noteq> VNil then Some (lww_Get r) else None
            | None \<Rightarrow> None)))"
  by (simp add: st_GetState_def Let_def foldl_lookup_upd [OF go_range_enumerates]
      foldl_lookup_upd [OF go_range_enumerates, where P = "\<lambda>_. True", simplified] split: option.split)

text \<open>\<open>GetState\<close> agrees with \<open>Get\<close> at every path that holds one kind of data: the
  path is present exactly when \<open>Get\<close> reports it, with the value \<open>Get\<close> returns.\<close>

theorem st_GetState_Get:
  assumes "\<not> (fmlookup (st_registers s) p \<noteq> None \<and> fmlookup (st_counters s) p \<noteq> None)"
    and "\<not> (fmlookup (st_registers s) p \<noteq> None \<and> fmlookup (st_sets s) p \<noteq> None)"
    and "\<not> (fmlookup (st_counters s) p \<noteq> None \<and> fmlookup (st_sets s) p \<noteq> None)"
  shows "fmlookup (st_GetState s) p = (if snd (st_Get p s) then Some (fst (st_Get p s)) else None)"
  using assms by (auto simp: st_GetState_lookup st_Get_def split: option.splits)

theorem st_GetState_Get_witness:
  "let s = snd (st_Set 1 10 ''t'' (VStr ''x'') (NewStateCRDT 0 ''a''))
   in fmlookup (st_GetState s) ''t'' = Some (VStr ''x'')"
  unfolding Let_def
  by (subst st_GetState_Get) (auto simp: st_Set_def Let_def NewStateCRDT_def st_Get_def lww_Set_def
      NewLWWRegister_def lww_Get_def)

end
