(* ===== verification/Float64.thy ===== *)
theory Float64
  imports Complex_Main "HOL-Library.Log_Nat"
begin

text \<open>
  Go's \<open>float64\<close> as far as the program computes with it: a finite double is the rational it
  denotes and every operation rounds its exact result to the nearest double, ties to even
  (\<open>f64_round\<close>).  Signed zeros, infinities and NaN do not arise in the operations modelled
  with it; overflow beyond the largest double is out of range of every quantity the program
  computes.  The components use three facts: rounding is monotone, it keeps every integer
  below \<open>2 ^ 53\<close>, and with it every bound that is such an integer.
\<close>

section \<open>Model\<close>

definition ilog2 :: "rat \<Rightarrow> int" where
  "ilog2 x =
     (let (a, b) = quotient_of x;
          k = int (floorlog 2 (nat a)) - int (floorlog 2 (nat b))
      in if 2 powi k \<le> x then k else k - 1)"

definition round_half_even :: "rat \<Rightarrow> int" where
  "round_half_even x =
     (let q = \<lfloor>x\<rfloor>; r = x - of_int q
      in if r < 1 / 2 then q else if 1 / 2 < r then q + 1 else if even q then q else q + 1)"

definition f64_exponent :: "rat \<Rightarrow> int" where
  "f64_exponent x = max (ilog2 \<bar>x\<bar> - 52) (- 1074)"

definition f64_round :: "rat \<Rightarrow> rat" where
  "f64_round x =
     (if x = 0 then 0
      else of_int (round_half_even (x / 2 powi f64_exponent x)) * 2 powi f64_exponent x)"

definition f64_add :: "rat \<Rightarrow> rat \<Rightarrow> rat" where "f64_add x y = f64_round (x + y)"
definition f64_sub :: "rat \<Rightarrow> rat \<Rightarrow> rat" where "f64_sub x y = f64_round (x - y)"
definition f64_mul :: "rat \<Rightarrow> rat \<Rightarrow> rat" where "f64_mul x y = f64_round (x * y)"
definition f64_div :: "rat \<Rightarrow> rat \<Rightarrow> rat" where "f64_div x y = f64_round (x / y)"
definition f64_of_int :: "int \<Rightarrow> rat" where "f64_of_int n = f64_round (of_int n)"

text \<open>Go's conversion of a float to \<open>int64\<close> truncates toward zero; outside the range of
  \<open>int64\<close> the language leaves the result to the implementation, here \<open>ovf\<close>.\<close>

definition f64_to_int64 :: "int \<Rightarrow> rat \<Rightarrow> int" where
  "f64_to_int64 ovf x =
     (let n = (if 0 \<le> x then \<lfloor>x\<rfloor> else \<lceil>x\<rceil>) in if - (2 ^ 63) \<le> n \<and> n < 2 ^ 63 then n else ovf)"

lemmas f64_ops = f64_add_def f64_sub_def f64_mul_def f64_div_def f64_of_int_def

section \<open>The binary logarithm\<close>

lemma powi_less: "m < n \<Longrightarrow> (2::rat) powi m < 2 powi n"
  by (rule power_int_strict_increasing) auto

lemma powi_le: "m \<le> n \<Longrightarrow> (2::rat) powi m \<le> 2 powi n"
  by (rule power_int_increasing) auto

lemma floorlog_powi:
  assumes "0 < a"
  shows "(2::rat) powi (int (floorlog 2 (nat a)) - 1) \<le> of_int a"
    and "(of_int a::rat) < 2 powi int (floorlog 2 (nat a))"
proof -
  have b: "2 ^ (floorlog 2 (nat a) - 1) \<le> nat a" "nat a < 2 ^ floorlog 2 (nat a)"
    using floorlog_bounds [of "nat a" 2] assms by auto
  have pos: "0 < floorlog 2 (nat a)" using b(2) assms by (cases "floorlog 2 (nat a)") auto
  have "(2::rat) powi (int (floorlog 2 (nat a)) - 1) = of_nat (2 ^ (floorlog 2 (nat a) - 1))"
    using pos by (simp add: power_int_def nat_diff_distrib)
  also have "\<dots> \<le> of_nat (nat a)" using b(1) by (simp only: of_nat_le_iff)
  finally show "(2::rat) powi (int (floorlog 2 (nat a)) - 1) \<le> of_int a" using assms by simp
  have "(of_nat (nat a)::rat) < of_nat (2 ^ floorlog 2 (nat a))"
    using b(2) by (simp only: of_nat_less_iff)
  then show "(of_int a::rat) < 2 powi int (floorlog 2 (nat a))" using assms by simp
qed

lemma ilog2_bounds:
  assumes "0 < x"
  shows "2 powi ilog2 x \<le> x \<and> x < 2 powi (ilog2 x + 1)"
proof -
  obtain a b where q: "quotient_of x = (a, b)" by (cases "quotient_of x")
  have x: "x = of_int a / of_int b" using quotient_of_div [OF q] .
  have b: "0 < b" using quotient_of_denom_pos [OF q] .
  have a: "0 < a" using assms b by (simp add: x zero_less_divide_iff)
  define p r where "p = int (floorlog 2 (nat a))" and "r = int (floorlog 2 (nat b))"
  note la = floorlog_powi [OF a, folded p_def] and lb = floorlog_powi [OF b, folded r_def]
  have bpos: "(0::rat) < of_int b" using b by simp
  have "x < 2 powi p / 2 powi (r - 1)"
    unfolding x using la lb bpos by (intro frac_less) (auto simp: a less_imp_le)
  also have "\<dots> = 2 powi (p - r + 1)" by (simp flip: power_int_diff add: algebra_simps)
  finally have up: "x < 2 powi (p - r + 1)" .
  have "2 powi (p - r - 1) = (2 powi (p - 1) / 2 powi r :: rat)"
    by (simp flip: power_int_diff add: algebra_simps)
  also have "\<dots> \<le> x"
    unfolding x using la lb bpos by (intro frac_le) (auto simp: a less_imp_le)
  finally have low: "2 powi (p - r - 1) \<le> x" .
  have "ilog2 x = (if 2 powi (p - r) \<le> x then p - r else p - r - 1)"
    by (simp add: ilog2_def q p_def r_def Let_def)
  with up low show ?thesis by auto
qed

lemma ilog2_mono:
  assumes "0 < x" "x \<le> y"
  shows "ilog2 x \<le> ilog2 y"
proof (rule ccontr)
  assume "\<not> ?thesis"
  then have "2 powi (ilog2 y + 1) \<le> (2::rat) powi ilog2 x" by (intro powi_le) simp
  with ilog2_bounds [of x] ilog2_bounds [of y] assms show False by force
qed

section \<open>Rounding\<close>

lemma round_half_even_of_int [simp]: "round_half_even (of_int n) = n"
  by (simp add: round_half_even_def)

lemma round_half_even_bounds: "\<lfloor>x\<rfloor> \<le> round_half_even x \<and> round_half_even x \<le> \<lfloor>x\<rfloor> + 1"
  by (simp add: round_half_even_def Let_def)

lemma round_half_even_mono:
  assumes "x \<le> y"
  shows "round_half_even x \<le> round_half_even y"
proof (cases "\<lfloor>x\<rfloor> = \<lfloor>y\<rfloor>")
  case True
  then show ?thesis using assms by (auto simp: round_half_even_def Let_def)
next
  case False
  then have "\<lfloor>x\<rfloor> + 1 \<le> \<lfloor>y\<rfloor>" using floor_mono [OF assms] by simp
  then show ?thesis using round_half_even_bounds [of x] round_half_even_bounds [of y] by linarith
qed

lemma round_half_even_minus: "round_half_even (- x) = - round_half_even x"
proof (cases "x = of_int \<lfloor>x\<rfloor>")
  case True
  then have "round_half_even (- of_int \<lfloor>x\<rfloor>) = - round_half_even (of_int \<lfloor>x\<rfloor> :: rat)"
    by (metis of_int_minus round_half_even_of_int)
  with True show ?thesis by simp
next
  case False
  then have "\<lceil>x\<rceil> = \<lfloor>x\<rfloor> + 1" by (metis ceiling_altdef)
  then have f: "\<lfloor>- x\<rfloor> = - \<lfloor>x\<rfloor> - 1" by (simp add: floor_minus)
  show ?thesis by (auto simp: round_half_even_def Let_def f)
qed

lemma f64_round_0 [simp]: "f64_round 0 = 0"
  by (simp add: f64_round_def)

lemma f64_round_minus: "f64_round (- x) = - f64_round x"
  by (simp add: f64_round_def f64_exponent_def round_half_even_minus flip: minus_divide_left)

text \<open>A grid point of the rounding bounds the rounded value.\<close>

lemma round_grid:
  assumes "f64_exponent x \<le> k" "x \<noteq> 0"
  shows "x \<le> of_int n * 2 powi k \<Longrightarrow> f64_round x \<le> of_int n * 2 powi k"
    and "of_int n * 2 powi k \<le> x \<Longrightarrow> of_int n * 2 powi k \<le> f64_round x"
proof -
  define e where "e = f64_exponent x"
  have pos: "(0::rat) < 2 powi e" by simp
  have "(2::rat) powi k = of_int (2 ^ nat (k - e)) * 2 powi e"
    using assms(1) by (simp add: e_def flip: power_int_add power_int_of_nat)
  then obtain c where c: "of_int n * (2::rat) powi k = of_int c * 2 powi e"
    by (metis mult.assoc of_int_mult)
  have r: "f64_round x = of_int (round_half_even (x / 2 powi e)) * 2 powi e"
    using assms(2) by (simp add: f64_round_def e_def)
  show "f64_round x \<le> of_int n * 2 powi k" if "x \<le> of_int n * 2 powi k"
  proof -
    have "x / 2 powi e \<le> of_int c" using that c pos by (simp add: pos_divide_le_eq)
    from round_half_even_mono [OF this] show ?thesis unfolding r c using pos by simp
  qed
  show "of_int n * 2 powi k \<le> f64_round x" if "of_int n * 2 powi k \<le> x"
  proof -
    have "of_int c \<le> x / 2 powi e" using that c pos by (simp add: pos_le_divide_eq)
    from round_half_even_mono [OF this] show ?thesis unfolding r c using pos by simp
  qed
qed

lemma f64_round_nonneg: "0 \<le> x \<Longrightarrow> 0 \<le> f64_round x"
  using round_grid(2) [of x "f64_exponent x" 0] by (cases "x = 0") auto

lemma f64_round_mono_pos:
  assumes "0 < x" "x \<le> y"
  shows "f64_round x \<le> f64_round y"
proof (cases "f64_exponent x = f64_exponent y")
  case True
  have "round_half_even (x / 2 powi f64_exponent y) \<le> round_half_even (y / 2 powi f64_exponent y)"
    using assms by (intro round_half_even_mono divide_right_mono) auto
  then show ?thesis using assms True by (auto simp: f64_round_def intro!: mult_right_mono)
next
  case False
  have le: "ilog2 x \<le> ilog2 y" using assms by (rule ilog2_mono)
  have y: "f64_exponent y = ilog2 y - 52" "f64_exponent x < ilog2 y - 52"
    using False le assms by (auto simp: f64_exponent_def)
  have eq: "ilog2 x + 1 \<le> ilog2 y" using False le assms by (auto simp: f64_exponent_def)
  let ?m = "of_int 1 * (2::rat) powi ilog2 y"
  have "x \<le> 2 powi (ilog2 x + 1)" using ilog2_bounds [of x] assms by simp
  also have "\<dots> \<le> ?m" using powi_le [OF eq] by simp
  finally have "x \<le> ?m" .
  then have "f64_round x \<le> ?m" using y assms by (intro round_grid(1)) auto
  also have "\<dots> \<le> f64_round y"
    using y assms ilog2_bounds [of y] by (intro round_grid(2)) auto
  finally show ?thesis .
qed

lemma f64_round_mono: "x \<le> y \<Longrightarrow> f64_round x \<le> f64_round y"
proof -
  assume le: "x \<le> y"
  consider "0 < x" | "x \<le> 0" "0 \<le> y" | "y < 0" using le by linarith
  then show ?thesis
  proof cases
    case 1
    then show ?thesis using le by (rule f64_round_mono_pos)
  next
    case 2
    then have "0 \<le> f64_round (- x)" "0 \<le> f64_round y" by (auto intro: f64_round_nonneg)
    then show ?thesis by (simp add: f64_round_minus)
  next
    case 3
    then have "f64_round (- y) \<le> f64_round (- x)" using le by (intro f64_round_mono_pos) auto
    then show ?thesis by (simp add: f64_round_minus)
  qed
qed

lemma f64_round_of_int:
  assumes "\<bar>n\<bar> < 2 ^ 53"
  shows "f64_round (of_int n) = of_int n"
proof (cases "n = 0")
  case False
  have "ilog2 (of_int \<bar>n\<bar>) < 53"
  proof (rule ccontr)
    assume "\<not> ?thesis"
    then have "(2::rat) powi 53 \<le> 2 powi ilog2 (of_int \<bar>n\<bar>)" by (intro powi_le) simp
    also have "\<dots> \<le> of_int \<bar>n\<bar>" using ilog2_bounds [of "of_int \<bar>n\<bar>"] False by simp
    also have "\<dots> < of_int (2 ^ 53)" using assms by (simp only: of_int_less_iff)
    finally show False by simp
  qed
  then have "f64_exponent (of_int n) \<le> 0" by (simp add: f64_exponent_def)
  from round_grid [OF this, of n] False show ?thesis by force
qed simp

lemma f64_of_int_exact [simp]: "\<bar>n\<bar> < 2 ^ 53 \<Longrightarrow> f64_of_int n = of_int n"
  by (simp add: f64_of_int_def f64_round_of_int)

lemma f64_of_int_mono: "m \<le> n \<Longrightarrow> f64_of_int m \<le> f64_of_int n"
  by (simp add: f64_of_int_def f64_round_mono)

lemma f64_round_le_int: "\<bar>n\<bar> < 2 ^ 53 \<Longrightarrow> x \<le> of_int n \<Longrightarrow> f64_round x \<le> of_int n"
  using f64_round_mono [of x "of_int n"] by (simp add: f64_round_of_int)

lemma f64_round_ge_int: "\<bar>n\<bar> < 2 ^ 53 \<Longrightarrow> of_int n \<le> x \<Longrightarrow> of_int n \<le> f64_round x"
  using f64_round_mono [of "of_int n" x] by (simp add: f64_round_of_int)

text \<open>Rounding a double again changes nothing.\<close>

lemma f64_round_idem [simp]: "f64_round (f64_round x) = f64_round x"
proof (cases "f64_round x = 0")
  case nz: False
  then have x: "x \<noteq> 0" by auto
  define e n where "e = f64_exponent x" and "n = round_half_even (x / 2 powi e)"
  have y: "f64_round x = of_int n * 2 powi e" using x by (simp add: f64_round_def e_def n_def)
  have "\<bar>x\<bar> < 2 powi (ilog2 \<bar>x\<bar> + 1)" using ilog2_bounds [of "\<bar>x\<bar>"] x by simp
  also have "\<dots> \<le> 2 powi (e + 53)" by (rule powi_le) (simp add: e_def f64_exponent_def)
  finally have "\<bar>x\<bar> / 2 powi e \<le> of_int (2 ^ 53)" by (simp add: power_int_add field_simps)
  then have n: "\<bar>n\<bar> \<le> 2 ^ 53"
    using round_half_even_mono [of "x / 2 powi e" "of_int (2 ^ 53)"] round_half_even_mono [of "of_int (- (2 ^ 53))" "x / 2 powi e"]
    unfolding n_def round_half_even_of_int by (auto simp: abs_le_iff minus_le_iff field_simps)
  have "\<exists>m k. f64_round x = of_int m * 2 powi k \<and> \<bar>m\<bar> < 2 ^ 53 \<and> -1074 \<le> k"
  proof (cases "\<bar>n\<bar> = 2 ^ 53")
    case True
    then have "n = 2 ^ 53 \<or> n = - (2 ^ 53)" by linarith
    then have "of_int n * (2::rat) powi e = of_int (sgn n * 2 ^ 52) * 2 powi (e + 1)"
      by (auto simp: power_int_add sgn_if)
    moreover have "-1074 \<le> e + 1" by (simp add: e_def f64_exponent_def)
    moreover have "\<bar>sgn n * 2 ^ 52\<bar> < (2 ^ 53 :: int)" by (simp add: abs_mult sgn_if)
    ultimately show ?thesis unfolding y by blast
  next
    case False
    then have "\<bar>n\<bar> < 2 ^ 53" using n by simp
    moreover have "-1074 \<le> e" by (simp add: e_def f64_exponent_def)
    ultimately show ?thesis unfolding y by blast
  qed
  then obtain m k where m: "f64_round x = of_int m * 2 powi k" "\<bar>m\<bar> < 2 ^ 53" "-1074 \<le> k" by blast
  have "ilog2 \<bar>f64_round x\<bar> < k + 53"
  proof (rule ccontr)
    assume "\<not> ?thesis"
    then have "(2::rat) powi (k + 53) \<le> 2 powi ilog2 \<bar>f64_round x\<bar>" by (intro powi_le) simp
    also have "\<dots> \<le> \<bar>f64_round x\<bar>" using ilog2_bounds [of "\<bar>f64_round x\<bar>"] nz by simp
    also have "\<dots> = of_int \<bar>m\<bar> * 2 powi k" by (simp add: m(1) abs_mult)
    also have "\<dots> < of_int (2 ^ 53) * 2 powi k" using m(2) by (intro mult_strict_right_mono) (simp_all only: of_int_less_iff, simp)
    finally show False by (simp add: power_int_add)
  qed
  then have "f64_exponent (f64_round x) \<le> k" using m(3) by (simp add: f64_exponent_def)
  from round_grid [OF this nz, of m] m(1) show ?thesis by (intro antisym) auto
qed simp

end
