(* ===== verification/Document_Crdt.thy ===== *)
theory Document_Crdt
  imports Vector_Clock Float64
begin

text \<open>
  The collaborative document (\<open>pkg/collaboration/document_crdt.go\<close>): characters with
  fractional positions, tombstones and an operation log keyed by UUID.  \<open>sort.Slice\<close> is the
  argument \<open>srt\<close>; the library promises a permutation sorted by the key and nothing about
  equal keys (\<open>sorts_by\<close>).  The UUIDs drawn for inserted characters are the function
  \<open>ids\<close> of the character's place.  A string is the list of its code points, all valid, with
  their UTF-8 widths.  \<open>held\<close> says whether the calling goroutine already holds the
  document's mutex, which is not reentrant.
\<close>

section \<open>Model\<close>

type_synonym rune = nat

record crdt_op =
  op_ID :: uuid
  op_Type :: string
  op_Position :: int
  op_Content :: "rune list"
  op_Length :: int
  op_NodeID :: node_id
  op_Clock :: vector_clock
  op_Timestamp :: go_time

record char_node =
  cn_ID :: uuid
  cn_Character :: rune
  cn_Position :: rat
  cn_Deleted :: bool
  cn_NodeID :: node_id
  cn_Clock :: vector_clock

record document =
  doc_documentID :: uuid
  doc_operations :: "(uuid, crdt_op) fmap"
  doc_clock :: vector_clock
  doc_nodeID :: node_id
  doc_tombstones :: "uuid fset"
  doc_characters :: "char_node list"

type_synonym char_sort = "char_node list \<Rightarrow> char_node list"

definition sorts_by :: "('a \<Rightarrow> 'b::linorder) \<Rightarrow> ('a list \<Rightarrow> 'a list) \<Rightarrow> bool" where
  "sorts_by key srt \<longleftrightarrow> (\<forall>xs. mset (srt xs) = mset xs \<and> sorted (map key (srt xs)))"

definition NewDocumentCRDT :: "uuid \<Rightarrow> node_id \<Rightarrow> document" where
  "NewDocumentCRDT documentID nodeID =
     \<lparr>doc_documentID = documentID, doc_operations = fmempty, doc_clock = NewVectorClock,
      doc_nodeID = nodeID, doc_tombstones = {||}, doc_characters = []\<rparr>"

definition doc_getVisibleCharacters :: "char_sort \<Rightarrow> document \<Rightarrow> char_node list" where
  "doc_getVisibleCharacters srt d =
     srt (foldl (\<lambda>visible char. if \<not> cn_Deleted char then visible @ [char] else visible) []
       (doc_characters d))"

definition doc_calculatePosition :: "char_sort \<Rightarrow> int \<Rightarrow> document \<Rightarrow> rat" where
  "doc_calculatePosition srt index d =
     (let visible = doc_getVisibleCharacters srt d
      in if index \<le> 0 then 0
         else if int (length visible) \<le> index then
           (if length visible = 0 then 1
            else f64_add (cn_Position (visible ! (length visible - 1))) 1)
         else f64_div (f64_add (cn_Position (visible ! (nat index - 1))) (cn_Position (visible ! nat index))) 2)"

text \<open>The byte offsets a \<open>range\<close> loop over a string yields.\<close>

definition utf8_width :: "rune \<Rightarrow> nat" where
  "utf8_width r = (if r < 0x80 then 1 else if r < 0x800 then 2 else if r < 0x10000 then 3 else 4)"

fun range_string :: "nat \<Rightarrow> rune list \<Rightarrow> (nat \<times> rune) list" where
  "range_string i [] = []"
| "range_string i (r # rs) = (i, r) # range_string (i + utf8_width r) rs"

definition doc_applyInsert :: "char_sort \<Rightarrow> (nat \<Rightarrow> uuid) \<Rightarrow> crdt_op \<Rightarrow> document \<Rightarrow> document" where
  "doc_applyInsert srt ids op d =
     (let startPos = doc_calculatePosition srt (op_Position op) d
      in foldl (\<lambda>d (i, char).
             d\<lparr>doc_characters := doc_characters d @
                [\<lparr>cn_ID = ids i, cn_Character = char,
                  cn_Position = f64_add startPos (f64_mul (f64_of_int (int i)) (f64_round (1 / 100000))),
                  cn_Deleted = False, cn_NodeID = op_NodeID op, cn_Clock = vc_Clone (op_Clock op)\<rparr>]\<rparr>)
           d (range_string 0 (op_Content op)))"

text \<open>The inner loop of \<open>applyDelete\<close> stops at the first character with the identifier.\<close>

fun mark_deleted :: "uuid \<Rightarrow> char_node list \<Rightarrow> char_node list" where
  "mark_deleted uid [] = []"
| "mark_deleted uid (c # cs) =
     (if cn_ID c = uid then c\<lparr>cn_Deleted := True\<rparr> # cs else c # mark_deleted uid cs)"

definition doc_mark :: "uuid \<Rightarrow> document \<Rightarrow> document" where
  "doc_mark uid d =
     (if uid \<in> cn_ID ` set (doc_characters d)
      then d\<lparr>doc_characters := mark_deleted uid (doc_characters d),
             doc_tombstones := finsert uid (doc_tombstones d)\<rparr>
      else d)"

text \<open>A negative position indexes before the start of the slice as soon as the loop body runs.\<close>

definition doc_applyDelete :: "char_sort \<Rightarrow> crdt_op \<Rightarrow> document \<Rightarrow> (string, document) outcome" where
  "doc_applyDelete srt op d =
     (let visible = doc_getVisibleCharacters srt d; n = int (length visible)
      in if n \<le> op_Position op then Failed ''delete position out of bounds'' d
         else let endPos = min (op_Position op + op_Length op) n
              in if op_Position op < endPos \<and> op_Position op < 0 then Panicked
                 else Returned (foldl (\<lambda>d i. doc_mark (cn_ID (visible ! nat i)) d) d
                        [op_Position op..endPos - 1]))"

definition doc_Insert ::
  "char_sort \<Rightarrow> (nat \<Rightarrow> uuid) \<Rightarrow> uuid \<Rightarrow> go_time \<Rightarrow> int \<Rightarrow> rune list \<Rightarrow> document \<Rightarrow> crdt_op \<times> document" where
  "doc_Insert srt ids uid now position content d =
     (let d = d\<lparr>doc_clock := vc_Increment (doc_nodeID d) (doc_clock d)\<rparr>;
          op = \<lparr>op_ID = uid, op_Type = ''insert'', op_Position = position, op_Content = content,
                op_Length = 0, op_NodeID = doc_nodeID d, op_Clock = vc_Clone (doc_clock d),
                op_Timestamp = now\<rparr>;
          d = doc_applyInsert srt ids op d
      in (op, d\<lparr>doc_operations := fmupd uid op (doc_operations d)\<rparr>))"

definition doc_Delete ::
  "char_sort \<Rightarrow> uuid \<Rightarrow> go_time \<Rightarrow> int \<Rightarrow> int \<Rightarrow> document \<Rightarrow> (string, document) outcome" where
  "doc_Delete srt uid now position len d =
     (let d = d\<lparr>doc_clock := vc_Increment (doc_nodeID d) (doc_clock d)\<rparr>;
          op = \<lparr>op_ID = uid, op_Type = ''delete'', op_Position = position, op_Content = [],
                op_Length = len, op_NodeID = doc_nodeID d, op_Clock = vc_Clone (doc_clock d),
                op_Timestamp = now\<rparr>
      in case doc_applyDelete srt op d of
           Returned d \<Rightarrow> Returned (d\<lparr>doc_operations := fmupd uid op (doc_operations d)\<rparr>)
         | Failed e d \<Rightarrow> Failed e d
         | Panicked \<Rightarrow> Panicked
         | Blocked \<Rightarrow> Blocked)"

definition doc_ApplyOperation ::
  "bool \<Rightarrow> char_sort \<Rightarrow> (nat \<Rightarrow> uuid) \<Rightarrow> crdt_op \<Rightarrow> document \<Rightarrow> (string, document) outcome" where
  "doc_ApplyOperation held srt ids op d =
     (if held then Blocked
      else if fmlookup (doc_operations d) (op_ID op) \<noteq> None then Returned d
      else
        let d = d\<lparr>doc_clock := vc_Update (doc_clock d) (op_Clock op)\<rparr>;
            r = (if op_Type op = ''insert'' then Returned (doc_applyInsert srt ids op d)
                 else if op_Type op = ''delete'' then doc_applyDelete srt op d
                 else Failed (''unknown operation type: '' @ op_Type op) d)
        in case r of
             Returned d \<Rightarrow> Returned (d\<lparr>doc_operations := fmupd (op_ID op) op (doc_operations d)\<rparr>)
           | Failed e d \<Rightarrow> Failed e d
           | Panicked \<Rightarrow> Panicked
           | Blocked \<Rightarrow> Blocked)"

definition doc_GetContent :: "char_sort \<Rightarrow> document \<Rightarrow> rune list" where
  "doc_GetContent srt d =
     map cn_Character (srt (foldl (\<lambda>chars char. if \<not> cn_Deleted char then chars @ [char] else chars) []
       (doc_characters d)))"

text \<open>
  \<open>Merge\<close> takes the mutex and then calls \<open>ApplyOperation\<close>, which takes it again; merging a
  document with itself (\<open>same\<close>) already waits at the read lock.
\<close>

fun doc_merge_loop ::
  "char_sort \<Rightarrow> (nat \<Rightarrow> uuid) \<Rightarrow> (uuid \<times> crdt_op) list \<Rightarrow> document \<Rightarrow> (string, document) outcome" where
  "doc_merge_loop srt ids [] d = Returned d"
| "doc_merge_loop srt ids ((opID, op) # ops) d =
     (if fmlookup (doc_operations d) opID \<noteq> None then doc_merge_loop srt ids ops d
      else case doc_ApplyOperation True srt ids op d of
             Returned d \<Rightarrow> doc_merge_loop srt ids ops d
           | Failed e d \<Rightarrow> Failed (''failed to apply operation: '' @ e) d
           | Panicked \<Rightarrow> Panicked
           | Blocked \<Rightarrow> Blocked)"

definition doc_Merge ::
  "bool \<Rightarrow> char_sort \<Rightarrow> (nat \<Rightarrow> uuid) \<Rightarrow> document \<Rightarrow> document \<Rightarrow> (string, document) outcome" where
  "doc_Merge same srt ids other d =
     (if same then Blocked else doc_merge_loop srt ids (go_range (doc_operations other)) d)"

definition doc_Clone :: "document \<Rightarrow> document" where
  "doc_Clone d =
     (NewDocumentCRDT (doc_documentID d) (doc_nodeID d))
       \<lparr>doc_operations := foldl (\<lambda>m (uid, op). fmupd uid op m) fmempty (go_range (doc_operations d)),
        doc_clock := vc_Clone (doc_clock d),
        doc_characters := doc_characters d,
        doc_tombstones := doc_tombstones d\<rparr>"

definition doc_GetOperationsSince ::
  "(crdt_op list \<Rightarrow> crdt_op list) \<Rightarrow> vector_clock \<Rightarrow> document \<Rightarrow> crdt_op list" where
  "doc_GetOperationsSince sort_ops since d =
     sort_ops (foldl (\<lambda>ops (_, op).
         if \<not> vc_HappensBefore since (op_Clock op) \<and> \<not> vc_Concurrent since (op_Clock op)
         then ops else ops @ [op]) [] (go_range (doc_operations d)))"

section \<open>Lemmas\<close>

lemma foldl_collect: "foldl (\<lambda>acc x. if P x then acc @ [x] else acc) acc xs = acc @ filter P xs"
  by (induction xs arbitrary: acc) auto

lemma doc_visible: "doc_getVisibleCharacters srt d = srt (filter (\<lambda>c. \<not> cn_Deleted c) (doc_characters d))"
  by (simp add: doc_getVisibleCharacters_def foldl_collect)

lemma doc_GetContent_visible: "doc_GetContent srt d = map cn_Character (doc_getVisibleCharacters srt d)"
  by (simp add: doc_GetContent_def doc_getVisibleCharacters_def)

lemma mset_visible:
  "sorts_by cn_Position srt \<Longrightarrow>
   mset (doc_getVisibleCharacters srt d) = mset (filter (\<lambda>c. \<not> cn_Deleted c) (doc_characters d))"
  by (simp add: doc_visible sorts_by_def)

lemma mark_deleted_ids [simp]: "map cn_ID (mark_deleted uid cs) = map cn_ID cs"
  by (induction cs) auto

lemma mark_deleted_filter:
  "distinct (map cn_ID cs) \<Longrightarrow> filter (\<lambda>c. \<not> cn_Deleted c) (mark_deleted uid cs) =
     filter (\<lambda>c. \<not> cn_Deleted c \<and> cn_ID c \<noteq> uid) cs"
proof (induction cs)
  case (Cons c cs)
  show ?case
  proof (cases "cn_ID c = uid")
    case True
    then have "\<forall>x \<in> set cs. cn_ID x \<noteq> uid" using Cons.prems by (auto simp: image_iff)
    then show ?thesis using True by (auto intro: filter_cong)
  next
    case False
    then show ?thesis using Cons by simp
  qed
qed simp

lemma mark_deleted_filter2:
  "distinct (map cn_ID cs) \<Longrightarrow> filter (\<lambda>c. \<not> cn_Deleted c \<and> P (cn_ID c)) (mark_deleted uid cs) =
     filter (\<lambda>c. \<not> cn_Deleted c \<and> cn_ID c \<noteq> uid \<and> P (cn_ID c)) cs"
proof -
  assume "distinct (map cn_ID cs)"
  from arg_cong [OF mark_deleted_filter [OF this], of "filter (\<lambda>c. P (cn_ID c))" uid]
  show ?thesis by (simp add: conj_ac)
qed

definition doc_chars_ok :: "document \<Rightarrow> bool" where
  "doc_chars_ok d \<longleftrightarrow> distinct (map cn_ID (doc_characters d))"

lemma doc_mark_chars:
  "doc_chars_ok d \<Longrightarrow> doc_chars_ok (doc_mark uid d) \<and>
     filter (\<lambda>c. \<not> cn_Deleted c \<and> P (cn_ID c)) (doc_characters (doc_mark uid d)) =
     filter (\<lambda>c. \<not> cn_Deleted c \<and> cn_ID c \<noteq> uid \<and> P (cn_ID c)) (doc_characters d)"
  by (auto simp: doc_mark_def doc_chars_ok_def mark_deleted_filter2 intro!: filter_cong)

lemma foldl_mark:
  assumes "doc_chars_ok d"
  shows "doc_chars_ok (foldl (\<lambda>d i. doc_mark (f i) d) d xs) \<and>
    filter (\<lambda>c. \<not> cn_Deleted c \<and> P (cn_ID c)) (doc_characters (foldl (\<lambda>d i. doc_mark (f i) d) d xs)) =
    filter (\<lambda>c. \<not> cn_Deleted c \<and> cn_ID c \<notin> f ` set xs \<and> P (cn_ID c)) (doc_characters d)"
  using assms
proof (induction xs arbitrary: d)
  case (Cons x xs)
  have ok: "doc_chars_ok (doc_mark (f x) d)" using doc_mark_chars [OF Cons.prems] by blast
  show ?case
    using Cons.IH [OF ok] doc_mark_chars [OF Cons.prems, of "f x" "\<lambda>i. i \<notin> f ` set xs \<and> P i"]
    by (simp add: conj_ac)
qed simp

lemma filter_out_middle:
  assumes "distinct (map f (a @ b @ c))"
  shows "filter (\<lambda>x. f x \<notin> f ` set b) (a @ b @ c) = a @ c"
proof -
  have "filter (\<lambda>x. f x \<notin> f ` set b) a = a" "filter (\<lambda>x. f x \<notin> f ` set b) c = c"
    using assms by (auto simp: filter_id_conv)
  moreover have "filter (\<lambda>x. f x \<notin> f ` set b) b = []" by (simp add: filter_empty_conv)
  ultimately show ?thesis by simp
qed

lemma slice_ids:
  assumes "0 \<le> p" "p \<le> e" "e \<le> int (length xs)"
  shows "(\<lambda>i. f (xs ! nat i)) ` set [p..e - 1] = f ` set (drop (nat p) (take (nat e) xs))"
proof -
  have "set (drop (nat p) (take (nat e) xs)) = (\<lambda>i. xs ! nat i) ` {p..e - 1}"
  proof (rule set_eqI)
    fix x
    have "x \<in> set (drop (nat p) (take (nat e) xs)) \<longleftrightarrow> (\<exists>j < nat e - nat p. x = xs ! (nat p + j))"
      using assms by (auto simp: in_set_conv_nth)
    also have "\<dots> \<longleftrightarrow> (\<exists>i \<in> {p..e - 1}. x = xs ! nat i)"
    proof
      assume "\<exists>j < nat e - nat p. x = xs ! (nat p + j)"
      then obtain j where "j < nat e - nat p" "x = xs ! (nat p + j)" by blast
      then show "\<exists>i \<in> {p..e - 1}. x = xs ! nat i"
        using assms by (intro bexI [of _ "p + int j"]) (auto simp: nat_add_distrib)
    next
      assume "\<exists>i \<in> {p..e - 1}. x = xs ! nat i"
      then obtain i where "p \<le> i" "i \<le> e - 1" "x = xs ! nat i" by auto
      then show "\<exists>j < nat e - nat p. x = xs ! (nat p + j)"
        using assms by (intro exI [of _ "nat i - nat p"]) auto
    qed
    finally show "x \<in> set (drop (nat p) (take (nat e) xs)) \<longleftrightarrow> x \<in> (\<lambda>i. xs ! nat i) ` {p..e - 1}"
      by auto
  qed
  then show ?thesis by (auto simp: image_image)
qed

lemma doc_visible_distinct:
  assumes "sorts_by cn_Position srt" "doc_chars_ok d"
  shows "distinct (map cn_ID (doc_getVisibleCharacters srt d))"
proof -
  let ?v = "filter (\<lambda>c. \<not> cn_Deleted c) (doc_characters d)"
  have "distinct (map cn_ID ?v)" using assms(2) by (simp add: doc_chars_ok_def distinct_map_filter)
  moreover have "mset (map cn_ID ?v) = mset (map cn_ID (doc_getVisibleCharacters srt d))"
    using mset_visible [OF assms(1), of d] by simp
  ultimately show ?thesis by (metis mset_eq_imp_distinct_iff)
qed

lemma doc_applyDelete_visible:
  assumes "sorts_by cn_Position srt" "doc_chars_ok d" "doc_applyDelete srt op d = Returned d'"
    and "0 \<le> op_Position op" "0 \<le> op_Length op"
  shows "mset (doc_getVisibleCharacters srt d') =
    mset (take (nat (op_Position op)) (doc_getVisibleCharacters srt d) @
          drop (nat (op_Position op + op_Length op)) (doc_getVisibleCharacters srt d))"
proof -
  let ?v = "doc_getVisibleCharacters srt d" let ?p = "op_Position op"
  define e where "e = min (?p + op_Length op) (int (length ?v))"
  let ?f = "\<lambda>i. cn_ID (?v ! nat i)"
  have p: "?p < int (length ?v)" and d': "d' = foldl (\<lambda>d i. doc_mark (?f i) d) d [?p..e - 1]"
    using assms(3) by (auto simp: doc_applyDelete_def Let_def e_def split: if_splits)
  have ids: "?f ` set [?p..e - 1] = cn_ID ` set (drop (nat ?p) (take (nat e) ?v))"
    using assms(4,5) p by (intro slice_ids) (auto simp: e_def)
  have drop_e: "drop (nat e) ?v = drop (nat (?p + op_Length op)) ?v"
    using assms(4,5) by (auto simp: e_def min_def)
  have pe: "nat ?p \<le> nat e" using assms(4,5) p by (auto simp: e_def)
  have split: "take (nat ?p) ?v @ drop (nat ?p) (take (nat e) ?v) @ drop (nat e) ?v = ?v"
  proof -
    have "take (nat ?p) ?v = take (nat ?p) (take (nat e) ?v)" using pe by (simp add: min_absorb1)
    then show ?thesis by (metis append.assoc append_take_drop_id)
  qed
  have "filter (\<lambda>c. \<not> cn_Deleted c) (doc_characters d') =
      filter (\<lambda>c. \<not> cn_Deleted c \<and> cn_ID c \<notin> ?f ` set [?p..e - 1]) (doc_characters d)"
    using foldl_mark [OF assms(2), where P = "\<lambda>_. True" and f = ?f and xs = "[?p..e - 1]"]
    unfolding d' by simp
  then have "mset (doc_getVisibleCharacters srt d') =
      mset (filter (\<lambda>c. \<not> cn_Deleted c \<and> cn_ID c \<notin> ?f ` set [?p..e - 1]) (doc_characters d))"
    by (simp only: mset_visible [OF assms(1)])
  also have "\<dots> = mset (filter (\<lambda>c. cn_ID c \<notin> ?f ` set [?p..e - 1]) ?v)"
    unfolding mset_filter mset_visible [OF assms(1), of d] filter_filter_mset by (simp add: conj_commute)
  also have "filter (\<lambda>c. cn_ID c \<notin> ?f ` set [?p..e - 1]) ?v = take (nat ?p) ?v @ drop (nat e) ?v"
    unfolding ids
    using filter_out_middle [of cn_ID "take (nat ?p) ?v" "drop (nat ?p) (take (nat e) ?v)" "drop (nat e) ?v"]
      doc_visible_distinct [OF assms(1,2)] by (simp only: split)
  finally show ?thesis by (simp only: drop_e)
qed

section \<open>Properties\<close>

text \<open>\<open>Delete\<close> removes exactly the addressed characters: when it succeeds on a document whose
  characters have distinct identifiers, the new content is, as a collection of characters, the old
  content without the \<open>length\<close> characters from \<open>position\<close> on.\<close>

theorem doc_Delete_content:
  assumes "sorts_by cn_Position srt" "doc_chars_ok d" "0 \<le> position" "0 \<le> len"
    and "doc_Delete srt uid now position len d = Returned d'"
  shows "mset (doc_GetContent srt d') =
    mset (take (nat position) (doc_GetContent srt d) @ drop (nat (position + len)) (doc_GetContent srt d))"
proof -
  define c where "c = vc_Increment (doc_nodeID d) (doc_clock d)"
  define op where "op = \<lparr>op_ID = uid, op_Type = ''delete'', op_Position = position, op_Content = [],
    op_Length = len, op_NodeID = doc_nodeID d, op_Clock = vc_Clone c, op_Timestamp = now\<rparr>"
  obtain d1 where d1: "doc_applyDelete srt op (d\<lparr>doc_clock := c\<rparr>) = Returned d1"
    and d': "d' = d1\<lparr>doc_operations := fmupd uid op (doc_operations d1)\<rparr>"
    using assms(5) by (auto simp: doc_Delete_def Let_def op_def c_def split: outcome.splits)
  have v: "doc_getVisibleCharacters srt (d\<lparr>doc_clock := c\<rparr>) = doc_getVisibleCharacters srt d"
    "doc_getVisibleCharacters srt d' = doc_getVisibleCharacters srt d1"
    by (simp_all add: doc_visible d')
  have "doc_chars_ok (d\<lparr>doc_clock := c\<rparr>)" using assms(2) by (simp add: doc_chars_ok_def)
  from doc_applyDelete_visible [OF assms(1) this d1] assms(3,4)
  have "mset (doc_getVisibleCharacters srt d') = mset (take (nat position) (doc_getVisibleCharacters srt d) @
      drop (nat (position + len)) (doc_getVisibleCharacters srt d))"
    by (simp add: op_def v)
  then show ?thesis
    by (simp add: doc_GetContent_visible take_map drop_map flip: image_mset_union)
qed

theorem doc_Delete_content_witness:
  "let c = (\<lambda>i p. \<lparr>cn_ID = i, cn_Character = unat i, cn_Position = p, cn_Deleted = False, cn_NodeID = ''n'',
             cn_Clock = fmempty\<rparr>);
       d = (NewDocumentCRDT 0 ''n'')\<lparr>doc_characters := [c 7 0, c 8 1]\<rparr>
   in \<exists>d'. doc_Delete (sort_key cn_Position) 1 5 0 1 d = Returned d' \<and>
        mset (doc_GetContent (sort_key cn_Position) d') = {#8#}"
proof -
  define c :: "uuid \<Rightarrow> rat \<Rightarrow> char_node" where "c i p = \<lparr>cn_ID = i, cn_Character = unat i, cn_Position = p,
    cn_Deleted = False, cn_NodeID = ''n'', cn_Clock = fmempty\<rparr>" for i p
  define d where "d = (NewDocumentCRDT 0 ''n'')\<lparr>doc_characters := [c 7 0, c 8 1]\<rparr>"
  have "sorts_by cn_Position (sort_key cn_Position)" by (simp add: sorts_by_def)
  moreover have "doc_chars_ok d" by (simp add: doc_chars_ok_def d_def c_def)
  moreover obtain d' where ret: "doc_Delete (sort_key cn_Position) 1 5 0 1 d = Returned d'"
    by (auto simp: doc_Delete_def doc_applyDelete_def Let_def doc_visible d_def c_def)
  moreover have "doc_GetContent (sort_key cn_Position) d = [7, 8]"
    by (simp add: doc_GetContent_visible doc_visible d_def c_def)
  ultimately have "mset (doc_GetContent (sort_key cn_Position) d') = {#8#}"
    using doc_Delete_content [of "sort_key cn_Position" d 0 1 1 5 d'] by simp
  then show ?thesis using ret by (simp add: Let_def d_def c_def NewDocumentCRDT_def)
qed

lemma doc_merge_loop_eq:
  "doc_merge_loop srt ids xs d =
     (if \<forall>x \<in> fst ` set xs. fmlookup (doc_operations d) x \<noteq> None then Returned d else Blocked)"
  by (induction xs) (force simp: doc_ApplyOperation_def)+

lemma doc_Merge_blocks_cases: "doc_Merge same srt ids other d \<in> {Returned d, Blocked}"
  by (simp add: doc_Merge_def doc_merge_loop_eq)

text \<open>\<open>Merge\<close> cannot bring in anything: it returns, with the document unchanged, exactly when
  the document already has every operation of the other one; as soon as one is missing it calls
  \<open>ApplyOperation\<close> while holding the mutex that call takes, and waits for itself.\<close>

theorem doc_Merge_blocks:
  "doc_Merge False srt ids other d =
     (if fset (fmdom (doc_operations other)) \<subseteq> fset (fmdom (doc_operations d)) then Returned d else Blocked)"
proof -
  have "fst ` set (go_range (doc_operations other)) = fset (fmdom (doc_operations other))"
    using fst_enumerates [OF go_range_enumerates, of "doc_operations other"] by simp
  then show ?thesis unfolding doc_Merge_def doc_merge_loop_eq by (auto simp: fmlookup_dom_iff)
qed

text \<open>Remote operations are idempotent: applying an operation that \<open>ApplyOperation\<close> has already
  accepted leaves the document exactly as it is.\<close>

theorem doc_ApplyOperation_idempotent:
  assumes "doc_ApplyOperation False srt ids op d = Returned d'"
  shows "doc_ApplyOperation False srt ids' op d' = Returned d'"
  using assms by (auto simp: doc_ApplyOperation_def Let_def split: if_splits outcome.splits)

theorem doc_ApplyOperation_idempotent_witness:
  "let op = \<lparr>op_ID = 3, op_Type = ''insert'', op_Position = 0, op_Content = [104, 105], op_Length = 0,
             op_NodeID = ''a'', op_Clock = fmempty, op_Timestamp = 9\<rparr>;
       r = doc_ApplyOperation False (sort_key cn_Position) (\<lambda>i. of_nat i) op (NewDocumentCRDT 0 ''n'')
   in \<exists>d. r = Returned d \<and> doc_ApplyOperation False (sort_key cn_Position) (\<lambda>i. of_nat (i + 9)) op d = Returned d"
proof -
  define op where "op = \<lparr>op_ID = 3, op_Type = ''insert'', op_Position = 0, op_Content = [104, 105], op_Length = 0,
    op_NodeID = ''a'', op_Clock = fmempty, op_Timestamp = 9\<rparr>"
  obtain d where "doc_ApplyOperation False (sort_key cn_Position) (\<lambda>i. of_nat i) op (NewDocumentCRDT 0 ''n'') = Returned d"
    by (auto simp: doc_ApplyOperation_def Let_def op_def NewDocumentCRDT_def)
  with doc_ApplyOperation_idempotent [OF this, of "\<lambda>i. of_nat (i + 9)"] show ?thesis
    by (simp add: Let_def op_def)
qed

text \<open>Text inserted at the front is not placed in front: every insertion at position 0 starts at
  fractional position 0, so a second one gets the positions of the first and, with a stable sort, lands
  behind its first character.\<close>

theorem doc_insert_front:
  assumes "doc_Insert srt ids uid now 0 [a] (NewDocumentCRDT did node) = (o1, d1)"
    and "doc_Insert srt ids' uid' now' 0 [b] d1 = (o2, d2)"
  shows "map cn_Position (doc_characters d2) = [0, 0] \<and> doc_GetContent (sort_key cn_Position) d2 = [a, b]"
  using assms
  by (auto simp: doc_Insert_def Let_def doc_applyInsert_def doc_calculatePosition_def NewDocumentCRDT_def
      doc_GetContent_def f64_ops)

theorem doc_insert_front_witness:
  "doc_GetContent (sort_key cn_Position)
     (snd (doc_Insert (sort_key cn_Position) (\<lambda>_. 2) 11 6 0 [98]
       (snd (doc_Insert (sort_key cn_Position) (\<lambda>_. 1) 10 5 0 [97] (NewDocumentCRDT 0 ''n''))))) = [97, 98]"
  using doc_insert_front [OF prod.collapse [symmetric] prod.collapse [symmetric]] by blast

end
