(* ===== verification/Crdt_Interface.thy ===== *)
theory Crdt_Interface
  imports State_Crdt Document_Crdt
begin

text \<open>
  The \<open>CRDT\<close> interface of \<open>pkg/collaboration/crdt/types.go\<close> over its six implementations.
  \<open>Merge\<close> asserts the dynamic type of its argument before anything else and then takes both
  mutexes, the receiver's for writing and the argument's for reading, so merging a value with
  itself (\<open>same\<close>) waits for its own lock.  Every \<open>Merge\<close> below is the whole method; the
  component theories hold its loop.
\<close>

section \<open>Model\<close>

datatype crdt =
    CGCounter gcounter
  | CPNCounter pncounter
  | CLWWRegister lww_register
  | CORSet or_set
  | CState state_crdt
  | CDocument document

fun crdt_GetType :: "crdt \<Rightarrow> string" where
  "crdt_GetType (CGCounter _) = ''GCounter''"
| "crdt_GetType (CPNCounter _) = ''PNCounter''"
| "crdt_GetType (CLWWRegister _) = ''LWWRegister''"
| "crdt_GetType (CORSet _) = ''ORSet''"
| "crdt_GetType (CState _) = ''StateCRDT''"
| "crdt_GetType (CDocument _) = ''DocumentCRDT''"

definition cannot_merge :: "crdt \<Rightarrow> crdt \<Rightarrow> (string, crdt) outcome" where
  "cannot_merge a other = Failed (''cannot merge '' @ crdt_GetType a @ '' with '' @ crdt_GetType other) a"

fun crdt_Merge :: "bool \<Rightarrow> char_sort \<Rightarrow> (nat \<Rightarrow> uuid) \<Rightarrow> crdt \<Rightarrow> crdt \<Rightarrow> (string, crdt) outcome" where
  "crdt_Merge same srt ids (CGCounter g) (CGCounter h) =
     (if same then Blocked else Returned (CGCounter (gc_merge g h)))"
| "crdt_Merge same srt ids (CPNCounter p) (CPNCounter q) =
     (if same then Blocked else Returned (CPNCounter (pn_merge p q)))"
| "crdt_Merge same srt ids (CLWWRegister r) (CLWWRegister r') =
     (if same then Blocked else Returned (CLWWRegister (lww_merge r r')))"
| "crdt_Merge same srt ids (CORSet s) (CORSet s') =
     (if same then Blocked else Returned (CORSet (os_merge s s')))"
| "crdt_Merge same srt ids (CState s) (CState s') =
     (if same then Blocked else Returned (CState (st_merge s s')))"
| "crdt_Merge same srt ids (CDocument d) (CDocument d') =
     (case doc_Merge same srt ids d' d of
        Returned d \<Rightarrow> Returned (CDocument d)
      | Failed e d \<Rightarrow> Failed e (CDocument d)
      | Panicked \<Rightarrow> Panicked
      | Blocked \<Rightarrow> Blocked)"
| "crdt_Merge same srt ids a other = cannot_merge a other"

fun crdt_Clone :: "crdt \<Rightarrow> crdt" where
  "crdt_Clone (CGCounter g) = CGCounter (gc_Clone g)"
| "crdt_Clone (CPNCounter p) = CPNCounter (pn_Clone p)"
| "crdt_Clone (CLWWRegister r) = CLWWRegister (lww_Clone r)"
| "crdt_Clone (CORSet s) = CORSet (os_Clone s)"
| "crdt_Clone (CState s) = CState (st_Clone s)"
| "crdt_Clone (CDocument d) = CDocument (doc_Clone d)"

section \<open>Properties\<close>

lemma doc_Clone_eq: "doc_Clone d = d"
  by (cases d) (simp add: doc_Clone_def NewDocumentCRDT_def foldl_copy)

text \<open>\<open>Merge\<close> fails exactly on a mismatch of dynamic types, and then changes nothing; on equal types
  it never fails, but it waits for ever when a value is merged with itself.  \<open>Clone\<close> preserves the
  value and its type.\<close>

theorem crdt_Merge_errors:
  "((\<exists>e s. crdt_Merge same srt ids a b = Failed e s) \<longleftrightarrow> crdt_GetType a \<noteq> crdt_GetType b) \<and>
   (crdt_GetType a = crdt_GetType b \<or>
      crdt_Merge same srt ids a b =
        Failed (''cannot merge '' @ crdt_GetType a @ '' with '' @ crdt_GetType b) a) \<and>
   crdt_Merge True srt ids a a = Blocked \<and> crdt_Clone a = a"
proof (intro conjI)
  have doc: "crdt_Merge same srt ids (CDocument d) (CDocument d') \<noteq> Failed e s" for d d' e s
    using doc_Merge_blocks_cases [of same srt ids d' d] by auto
  show "(\<exists>e s. crdt_Merge same srt ids a b = Failed e s) \<longleftrightarrow> crdt_GetType a \<noteq> crdt_GetType b"
    by (cases a; cases b) (use doc in \<open>simp_all add: cannot_merge_def del: crdt_Merge.simps(6)\<close>)
  show "crdt_GetType a = crdt_GetType b \<or> crdt_Merge same srt ids a b =
      Failed (''cannot merge '' @ crdt_GetType a @ '' with '' @ crdt_GetType b) a"
    by (cases a; cases b) (simp_all add: cannot_merge_def)
  show "crdt_Merge True srt ids a a = Blocked"
    by (cases a) (simp_all add: doc_Merge_def)
  show "crdt_Clone a = a"
    by (cases a) (simp_all add: st_Clone_eq doc_Clone_eq)
qed

end
