(* ===== verification/Breaker_Spec.thy ===== *)
theory Breaker_Spec
  imports Prelude
begin

text \<open>
  The contract shared by the four circuit breakers of the program (\<open>pkg/resilience\<close>, \<open>pkg/embedding\<close>,
  \<open>pkg/redis\<close>, \<open>apps/rag-loader/internal/resilience\<close>): the phases a breaker may move
  through, and the window during which an open breaker admits nothing.  A provider names its
  step relation (an operation performed at an instant), its phase, the deadline before which an
  open breaker stays open and the latest instant it has stored.
\<close>

datatype circuit_state = Closed | Open | HalfOpen

fun cs_String :: "circuit_state \<Rightarrow> string" where
  "cs_String Closed = ''closed''"
| "cs_String Open = ''open''"
| "cs_String HalfOpen = ''half-open''"

text \<open>The legal moves of a breaker.\<close>

fun legal_move :: "circuit_state \<Rightarrow> circuit_state \<Rightarrow> bool" where
  "legal_move Closed HalfOpen = False"
| "legal_move Open Closed = False"
| "legal_move _ _ = True"

lemma legal_move_refl [simp]: "legal_move p p"
  by (cases p) simp_all

text \<open>A run: operations performed at non-decreasing instants, with the states they reach.\<close>

fun timed_run :: "(go_time \<Rightarrow> 's \<Rightarrow> 's \<Rightarrow> bool) \<Rightarrow> go_time \<Rightarrow> 's \<Rightarrow> (go_time \<times> 's) list \<Rightarrow> bool" where
  "timed_run step t0 s [] = True"
| "timed_run step t0 s ((now, s') # tr) = (t0 \<le> now \<and> step now s s' \<and> timed_run step now s' tr)"

text \<open>What every breaker promises about its phases, however its operations interleave.\<close>

locale breaker_phases =
  fixes step :: "go_time \<Rightarrow> 's \<Rightarrow> 's \<Rightarrow> bool"
    and phase :: "'s \<Rightarrow> circuit_state"
    and invar :: "'s \<Rightarrow> bool"
  assumes invar_step: "step now s t \<Longrightarrow> invar s \<Longrightarrow> invar t"
    and probes_first: "step now s t \<Longrightarrow> invar s \<Longrightarrow> phase s = Open \<Longrightarrow> phase t \<noteq> Closed"
begin

lemma closed_via_half_open:
  assumes "timed_run step t0 s tr" "invar s" "phase s = Open" "tr = pre @ (now, t) # post" "phase t = Closed"
  shows "\<exists>(m, u) \<in> set pre. phase u = HalfOpen"
  using assms
proof (induction pre arbitrary: t0 s tr)
  case Nil
  then show ?case using probes_first [of now s t] by simp
next
  case (Cons x pre)
  obtain m u where x: "x = (m, u)" by (cases x)
  have step: "step m s u" and run: "timed_run step m u (pre @ (now, t) # post)"
    using Cons.prems x by auto
  have inv: "invar u" using invar_step [OF step] Cons.prems(2) .
  show ?case
  proof (cases "phase u")
    case Closed
    then show ?thesis using probes_first [OF step] Cons.prems(2,3) by simp
  next
    case Open
    then show ?thesis using Cons.IH [OF run inv _ refl] Cons.prems(5) x by auto
  next
    case HalfOpen
    then show ?thesis using x by auto
  qed
qed

end

text \<open>
  The open window.  A caller that has seen the window end may act on it later; \<open>settled\<close> says that
  there is none.
\<close>

locale breaker_contract = breaker_phases step phase invar
  for step :: "go_time \<Rightarrow> 's \<Rightarrow> 's \<Rightarrow> bool" and phase :: "'s \<Rightarrow> circuit_state" and invar :: "'s \<Rightarrow> bool" +
  fixes deadline :: "'s \<Rightarrow> go_time"
    and latest :: "'s \<Rightarrow> go_time"
    and settled :: "'s \<Rightarrow> bool"
  assumes holds_open: "step now s t \<Longrightarrow> invar s \<Longrightarrow> phase s = Open \<Longrightarrow> settled s \<Longrightarrow> now \<le> deadline s \<Longrightarrow>
      phase t = Open \<and> settled t"
    and stays_open: "step now s t \<Longrightarrow> invar s \<Longrightarrow> phase s = Open \<Longrightarrow> phase t = Open \<Longrightarrow>
      latest s \<le> now \<Longrightarrow> deadline s \<le> deadline t"
    and latest_step: "step now s t \<Longrightarrow> latest s \<le> now \<Longrightarrow> latest t \<le> now"
begin

lemma open_window:
  assumes "timed_run step t0 s tr" "invar s" "phase s = Open" "settled s" "latest s \<le> t0"
    and "\<And>now u. (now, u) \<in> set tr \<Longrightarrow> now \<le> deadline s"
  shows "(now, u) \<in> set tr \<Longrightarrow> phase u = Open"
  using assms
proof (induction tr arbitrary: t0 s now u)
  case Nil
  then show ?case by simp
next
  case (Cons x tr)
  obtain m v where x: "x = (m, v)" by (cases x)
  have step: "t0 \<le> m" "step m s v" and run: "timed_run step m v tr"
    using Cons.prems x by auto
  have inv: "invar v" using invar_step [OF step(2)] Cons.prems(3) .
  have le: "m \<le> deadline s" using Cons.prems(7) [of m v] x by simp
  have v: "phase v = Open" "settled v"
    using holds_open [OF step(2) Cons.prems(3-5) le] by auto
  have late: "latest v \<le> m" "deadline s \<le> deadline v"
    using step Cons.prems(3,4,6) v latest_step stays_open by auto
  have "phase u = Open" if "(now, u) \<in> set tr"
  proof (rule Cons.IH [OF that run inv v late(1)])
    show "n \<le> deadline v" if "(n, w) \<in> set tr" for n w
      using Cons.prems(7) [of n w] that late(2) by force
  qed
  then show ?case using Cons.prems(1) x v by auto
qed

end

text \<open>
  A breaker whose admission check and change of phase happen under one lock: it makes legal moves
  only and leaves the open phase only after the deadline, so it keeps the contract with every state
  settled.
\<close>

locale locked_breaker =
  fixes step :: "go_time \<Rightarrow> 's \<Rightarrow> 's \<Rightarrow> bool"
    and phase :: "'s \<Rightarrow> circuit_state"
    and invar :: "'s \<Rightarrow> bool"
    and deadline :: "'s \<Rightarrow> go_time"
    and latest :: "'s \<Rightarrow> go_time"
  assumes keeps: "step now s t \<Longrightarrow> invar s \<Longrightarrow> invar t"
    and moves: "step now s t \<Longrightarrow> invar s \<Longrightarrow> legal_move (phase s) (phase t)"
    and leaves_open: "step now s t \<Longrightarrow> invar s \<Longrightarrow> phase s = Open \<Longrightarrow> phase t \<noteq> Open \<Longrightarrow> deadline s < now"
    and prolongs: "step now s t \<Longrightarrow> invar s \<Longrightarrow> phase s = Open \<Longrightarrow> phase t = Open \<Longrightarrow>
      latest s \<le> now \<Longrightarrow> deadline s \<le> deadline t"
    and clock: "step now s t \<Longrightarrow> latest s \<le> now \<Longrightarrow> latest t \<le> now"

sublocale locked_breaker \<subseteq> contract: breaker_contract step phase invar deadline latest "\<lambda>_. True"
proof
  fix now s t
  assume step: "step now s t"
  show "invar s \<Longrightarrow> phase s = Open \<Longrightarrow> phase t \<noteq> Closed"
    using moves [OF step] by auto
  show "invar s \<Longrightarrow> phase s = Open \<Longrightarrow> True \<Longrightarrow> now \<le> deadline s \<Longrightarrow> phase t = Open \<and> True"
    using leaves_open [OF step] by fastforce
qed (use keeps prolongs clock in blast)+

end
