(* ===== verification/Circuit_Breaker.thy ===== *)
theory Circuit_Breaker
  imports Breaker_Spec Float64
begin

text \<open>
  The circuit breaker of \<open>pkg/resilience\<close> (\<open>counts.go\<close>, \<open>circuit_breaker.go\<close>,
  \<open>circuit_breaker_config.go\<close>).  \<open>Execute\<close> is modelled twice: as a sequential function
  of what its \<open>select\<close> receives, and as a step relation in which calls interleave between
  the admission check, the half-open accounting, the recording of the result and the deferred
  release.  Logging and metrics are left out; the instants read by \<open>time.Now\<close> are arguments.
\<close>

section \<open>Model: counts\<close>

record counts =
  ct_Requests :: int
  ct_Successes :: int
  ct_Failures :: int
  ct_ConsecutiveSuccesses :: int
  ct_ConsecutiveFailures :: int
  ct_Timeout :: int
  ct_ShortCircuited :: int
  ct_Rejected :: int
  ct_LastSuccess :: go_time
  ct_LastFailure :: go_time
  ct_LastTimeout :: go_time
  ct_TotalSuccesses :: u32
  ct_TotalFailures :: u32

definition NewCounts :: counts where
  "NewCounts = \<lparr>ct_Requests = 0, ct_Successes = 0, ct_Failures = 0, ct_ConsecutiveSuccesses = 0,
     ct_ConsecutiveFailures = 0, ct_Timeout = 0, ct_ShortCircuited = 0, ct_Rejected = 0,
     ct_LastSuccess = 0, ct_LastFailure = 0, ct_LastTimeout = 0,
     ct_TotalSuccesses = 0, ct_TotalFailures = 0\<rparr>"

definition ct_RecordSuccess :: "go_time \<Rightarrow> counts \<Rightarrow> counts" where
  "ct_RecordSuccess now c =
     c\<lparr>ct_Requests := ct_Requests c + 1, ct_Successes := ct_Successes c + 1,
       ct_TotalSuccesses := ct_TotalSuccesses c + 1,
       ct_ConsecutiveSuccesses := ct_ConsecutiveSuccesses c + 1,
       ct_ConsecutiveFailures := 0, ct_LastSuccess := now\<rparr>"

definition ct_RecordFailure :: "go_time \<Rightarrow> counts \<Rightarrow> counts" where
  "ct_RecordFailure now c =
     c\<lparr>ct_Requests := ct_Requests c + 1, ct_Failures := ct_Failures c + 1,
       ct_TotalFailures := ct_TotalFailures c + 1,
       ct_ConsecutiveFailures := ct_ConsecutiveFailures c + 1,
       ct_ConsecutiveSuccesses := 0, ct_LastFailure := now\<rparr>"

definition ct_RecordTimeout :: "go_time \<Rightarrow> counts \<Rightarrow> counts" where
  "ct_RecordTimeout now c =
     c\<lparr>ct_Requests := ct_Requests c + 1, ct_Failures := ct_Failures c + 1,
       ct_TotalFailures := ct_TotalFailures c + 1, ct_Timeout := ct_Timeout c + 1,
       ct_ConsecutiveFailures := ct_ConsecutiveFailures c + 1,
       ct_ConsecutiveSuccesses := 0, ct_LastTimeout := now, ct_LastFailure := now\<rparr>"

definition ct_RecordRejected :: "counts \<Rightarrow> counts" where
  "ct_RecordRejected c = c\<lparr>ct_Rejected := ct_Rejected c + 1\<rparr>"

definition ct_RecordShortCircuited :: "counts \<Rightarrow> counts" where
  "ct_RecordShortCircuited c = c\<lparr>ct_ShortCircuited := ct_ShortCircuited c + 1\<rparr>"

definition ct_Reset :: "counts \<Rightarrow> counts" where
  "ct_Reset c = c\<lparr>ct_Requests := 0, ct_Successes := 0, ct_Failures := 0,
     ct_ConsecutiveSuccesses := 0, ct_ConsecutiveFailures := 0, ct_Timeout := 0,
     ct_ShortCircuited := 0, ct_Rejected := 0\<rparr>"

definition ct_ResetTimestamps :: "counts \<Rightarrow> counts" where
  "ct_ResetTimestamps c = c\<lparr>ct_LastSuccess := 0, ct_LastFailure := 0, ct_LastTimeout := 0\<rparr>"

section \<open>Model: the breaker\<close>

datatype cb_error =
    ErrCircuitBreakerOpen
  | ErrCircuitBreakerTimeout
  | ErrMaxRequestsExceeded
  | ErrContext string
  | ErrOperation string
  | Wrap cb_error string

record cb_config =
  cc_FailureThreshold :: int
  cc_FailureRatio :: rat
  cc_ResetTimeout :: duration
  cc_SuccessThreshold :: int
  cc_TimeoutThreshold :: duration
  cc_MaxRequestsHalfOpen :: int
  cc_MinimumRequestCount :: int

record circuit_breaker =
  cb_name :: string
  cb_config :: cb_config
  cb_state :: circuit_state
  cb_counts :: counts
  cb_lastFailureTime :: go_time
  cb_lastStateChange :: go_time
  cb_halfOpenRequests :: int

definition cb_defaults :: "cb_config \<Rightarrow> cb_config" where
  "cb_defaults c =
     \<lparr>cc_FailureThreshold = (if cc_FailureThreshold c = 0 then 5 else cc_FailureThreshold c),
      cc_FailureRatio = (if cc_FailureRatio c = 0 then f64_round (6 / 10) else cc_FailureRatio c),
      cc_ResetTimeout = (if cc_ResetTimeout c = 0 then 30 * second else cc_ResetTimeout c),
      cc_SuccessThreshold = (if cc_SuccessThreshold c = 0 then 2 else cc_SuccessThreshold c),
      cc_TimeoutThreshold = (if cc_TimeoutThreshold c = 0 then 5 * second else cc_TimeoutThreshold c),
      cc_MaxRequestsHalfOpen = (if cc_MaxRequestsHalfOpen c = 0 then 5 else cc_MaxRequestsHalfOpen c),
      cc_MinimumRequestCount = (if cc_MinimumRequestCount c = 0 then 10 else cc_MinimumRequestCount c)\<rparr>"

definition NewCircuitBreaker :: "go_time \<Rightarrow> string \<Rightarrow> cb_config \<Rightarrow> circuit_breaker" where
  "NewCircuitBreaker now name config =
     \<lparr>cb_name = name, cb_config = cb_defaults config, cb_state = Closed, cb_counts = NewCounts,
      cb_lastFailureTime = 0, cb_lastStateChange = now, cb_halfOpenRequests = 0\<rparr>"

definition cb_transitionTo :: "go_time \<Rightarrow> circuit_state \<Rightarrow> circuit_breaker \<Rightarrow> circuit_breaker" where
  "cb_transitionTo now newState cb =
     (if cb_state cb = newState then cb
      else let cb = cb\<lparr>cb_state := newState, cb_lastStateChange := now\<rparr>
           in if newState = HalfOpen then cb\<lparr>cb_counts := NewCounts, cb_halfOpenRequests := 0\<rparr>
              else cb)"

text \<open>
  \<open>canExecute\<close> takes no lock.  What it reads and decides is \<open>cb_check\<close>; when the reset timeout has
  passed it goes on to change the state, which is an action of its own.
\<close>

datatype cb_verdict = Admitted | Expired | Rejected cb_error

definition cb_check :: "go_time \<Rightarrow> circuit_breaker \<Rightarrow> cb_verdict" where
  "cb_check now cb =
     (case cb_state cb of
        Closed \<Rightarrow> Admitted
      | Open \<Rightarrow>
          if cc_ResetTimeout (cb_config cb) < time_sub now (cb_lastFailureTime cb)
          then Expired else Rejected ErrCircuitBreakerOpen
      | HalfOpen \<Rightarrow>
          if cc_MaxRequestsHalfOpen (cb_config cb) \<le> cb_halfOpenRequests cb
          then Rejected ErrMaxRequestsExceeded else Admitted)"

definition cb_canExecute :: "go_time \<Rightarrow> circuit_breaker \<Rightarrow> cb_error option \<times> circuit_breaker" where
  "cb_canExecute now cb =
     (case cb_check now cb of
        Admitted \<Rightarrow> (None, cb)
      | Expired \<Rightarrow> (None, cb_transitionTo now HalfOpen cb)
      | Rejected err \<Rightarrow> (Some err, cb))"

definition cb_recordSuccess :: "go_time \<Rightarrow> circuit_breaker \<Rightarrow> circuit_breaker" where
  "cb_recordSuccess now cb =
     (let counts = ct_RecordSuccess now (cb_counts cb);
          cb = cb\<lparr>cb_counts := counts\<rparr>
      in if cb_state cb = HalfOpen \<and>
            cc_SuccessThreshold (cb_config cb) \<le> ct_ConsecutiveSuccesses counts
         then cb_transitionTo now Closed cb
         else cb)"

definition cb_recordFailure :: "go_time \<Rightarrow> circuit_breaker \<Rightarrow> circuit_breaker" where
  "cb_recordFailure now cb =
     (let counts = ct_RecordFailure now (cb_counts cb);
          cb = cb\<lparr>cb_counts := counts, cb_lastFailureTime := now\<rparr>
      in case cb_state cb of
           Closed \<Rightarrow>
             if cc_FailureThreshold (cb_config cb) \<le> ct_ConsecutiveFailures counts
             then cb_transitionTo now Open cb
             else if cc_MinimumRequestCount (cb_config cb) \<le> ct_Requests counts then
               (let failureRatio = f64_div (f64_of_int (ct_Failures counts)) (f64_of_int (ct_Requests counts))
                in if cc_FailureRatio (cb_config cb) \<le> failureRatio
                   then cb_transitionTo now Open cb else cb)
             else cb
         | HalfOpen \<Rightarrow> cb_transitionTo now Open cb
         | Open \<Rightarrow> cb)"

text \<open>
  What the \<open>select\<close> of \<open>Execute\<close> receives first: the context's cancellation, the timeout
  or the result of the function.
\<close>

datatype 'v exec_event = ContextDone string | TimerFired | FnResult "string + 'v"

definition cb_Execute ::
  "go_time \<Rightarrow> go_time \<Rightarrow> 'v exec_event \<Rightarrow> circuit_breaker \<Rightarrow> (cb_error + 'v) \<times> circuit_breaker" where
  "cb_Execute now now' ev cb =
     (case cb_canExecute now cb of
        (Some err, cb) \<Rightarrow>
          (Inl (Wrap err ''circuit breaker execution failed''), cb_recordFailure now cb)
      | (None, cb) \<Rightarrow>
          let half = cb_state cb = HalfOpen;
              enter = (\<lambda>cb. if half then cb\<lparr>cb_halfOpenRequests := cb_halfOpenRequests cb + 1\<rparr> else cb);
              leave = (\<lambda>cb. if half then cb\<lparr>cb_halfOpenRequests := cb_halfOpenRequests cb - 1\<rparr> else cb);
              cb = enter cb
          in case ev of
               ContextDone e \<Rightarrow> (Inl (Wrap (ErrContext e) ''context cancelled''), leave (cb_recordFailure now' cb))
             | TimerFired \<Rightarrow> (Inl ErrCircuitBreakerTimeout, leave (cb_recordFailure now' cb))
             | FnResult (Inl e) \<Rightarrow>
                 (Inl (Wrap (ErrOperation e) ''circuit breaker execution failed''),
                  leave (cb_recordFailure now' cb))
             | FnResult (Inr v) \<Rightarrow> (Inr v, leave (cb_recordSuccess now' cb)))"

definition cb_Reset :: "go_time \<Rightarrow> circuit_breaker \<Rightarrow> circuit_breaker" where
  "cb_Reset now cb =
     (cb_transitionTo now Closed cb)\<lparr>cb_counts := NewCounts, cb_halfOpenRequests := 0\<rparr>"

definition cb_ExecuteWithFallback ::
  "go_time \<Rightarrow> go_time \<Rightarrow> 'v exec_event \<Rightarrow> (cb_error \<Rightarrow> cb_error + 'v) option \<Rightarrow> circuit_breaker \<Rightarrow>
   (cb_error + 'v) \<times> circuit_breaker" where
  "cb_ExecuteWithFallback now now' ev fallback cb =
     (case cb_Execute now now' ev cb of
        (Inr v, cb) \<Rightarrow> (Inr v, cb)
      | (Inl err, cb) \<Rightarrow>
          (case fallback of
             Some fb \<Rightarrow> (fb err, cb)
           | None \<Rightarrow> (Inl err, cb)))"

definition cb_ExecuteWithDefaultValue ::
  "go_time \<Rightarrow> go_time \<Rightarrow> 'v exec_event \<Rightarrow> 'v \<Rightarrow> circuit_breaker \<Rightarrow> (cb_error + 'v) \<times> circuit_breaker" where
  "cb_ExecuteWithDefaultValue now now' ev defaultValue cb =
     cb_ExecuteWithFallback now now' ev (Some (\<lambda>_. Inr defaultValue)) cb"

section \<open>Model: the manager\<close>

type_synonym cb_manager = "(string, circuit_breaker) fmap"

definition NewCircuitBreakerManager :: "go_time \<Rightarrow> (string, cb_config) fmap \<Rightarrow> cb_manager" where
  "NewCircuitBreakerManager now defaultConfigs =
     foldl (\<lambda>m (name, config). fmupd name (NewCircuitBreaker now name config) m) fmempty
       (go_range defaultConfigs)"

definition cbm_GetCircuitBreaker :: "go_time \<Rightarrow> string \<Rightarrow> cb_manager \<Rightarrow> circuit_breaker \<times> cb_manager" where
  "cbm_GetCircuitBreaker now name m =
     (case fmlookup m name of
        Some breaker \<Rightarrow> (breaker, m)
      | None \<Rightarrow>
          let defaultConfig =
                \<lparr>cc_FailureThreshold = 5, cc_FailureRatio = f64_round (6 / 10),
                 cc_ResetTimeout = 30 * second, cc_SuccessThreshold = 2,
                 cc_TimeoutThreshold = 5 * second, cc_MaxRequestsHalfOpen = 5,
                 cc_MinimumRequestCount = 10\<rparr>;
              breaker = NewCircuitBreaker now name defaultConfig
          in (breaker, fmupd name breaker m))"

definition cbm_Execute ::
  "go_time \<Rightarrow> go_time \<Rightarrow> string \<Rightarrow> 'v exec_event \<Rightarrow> cb_manager \<Rightarrow> (cb_error + 'v) \<times> cb_manager" where
  "cbm_Execute now now' name ev m =
     (let (breaker, m) = cbm_GetCircuitBreaker now name m;
          (r, breaker) = cb_Execute now now' ev breaker
      in (r, fmupd name breaker m))"

definition cbm_ExecuteWithFallback ::
  "go_time \<Rightarrow> go_time \<Rightarrow> string \<Rightarrow> 'v exec_event \<Rightarrow> (cb_error \<Rightarrow> cb_error + 'v) option \<Rightarrow>
   cb_manager \<Rightarrow> (cb_error + 'v) \<times> cb_manager" where
  "cbm_ExecuteWithFallback now now' name ev fallback m =
     (let (breaker, m) = cbm_GetCircuitBreaker now name m;
          (r, breaker) = cb_ExecuteWithFallback now now' ev fallback breaker
      in (r, fmupd name breaker m))"

definition cbm_ExecuteWithDefaultValue ::
  "go_time \<Rightarrow> go_time \<Rightarrow> string \<Rightarrow> 'v exec_event \<Rightarrow> 'v \<Rightarrow> cb_manager \<Rightarrow>
   (cb_error + 'v) \<times> cb_manager" where
  "cbm_ExecuteWithDefaultValue now now' name ev defaultValue m =
     (let (breaker, m) = cbm_GetCircuitBreaker now name m;
          (r, breaker) = cb_ExecuteWithDefaultValue now now' ev defaultValue breaker
      in (r, fmupd name breaker m))"

definition cbm_ResetAll :: "go_time \<Rightarrow> cb_manager \<Rightarrow> cb_manager" where
  "cbm_ResetAll now m =
     foldl (\<lambda>m (name, breaker). fmupd name (cb_Reset now breaker) m) m (go_range m)"

section \<open>Model: service configurations and the registry\<close>

record cb_service_config =
  sc_Enabled :: bool
  sc_MaxRequests :: u32
  sc_Interval :: duration
  sc_Timeout :: duration
  sc_FailureThreshold :: rat
  sc_SuccessThreshold :: u32
  sc_MinimumRequestCount :: u32
  sc_MaxRequestsHalfOpen :: u32

abbreviation service_config ::
  "bool \<Rightarrow> u32 \<Rightarrow> duration \<Rightarrow> duration \<Rightarrow> rat \<Rightarrow> u32 \<Rightarrow> u32 \<Rightarrow> u32 \<Rightarrow> cb_service_config" where
  "service_config e mr i t ft st mrc mho \<equiv>
     \<lparr>sc_Enabled = e, sc_MaxRequests = mr, sc_Interval = i, sc_Timeout = t, sc_FailureThreshold = ft,
      sc_SuccessThreshold = st, sc_MinimumRequestCount = mrc, sc_MaxRequestsHalfOpen = mho\<rparr>"

definition DefaultCircuitBreakerConfigs :: "(string, cb_service_config) fmap" where
  "DefaultCircuitBreakerConfigs = fmap_of_list
     [
      (''task_service'', service_config True 100 (10 * second) (30 * second) (f64_round (5 / 10)) 5 10 10),
      (''workflow_service'', service_config True 50 (10 * second) (45 * second) (f64_round (6 / 10)) 3 5 5),
      (''agent_service'', service_config True 200 (5 * second) (15 * second) (f64_round (5 / 10)) 5 20 20),
      (''context_service'', service_config True 150 (10 * second) (20 * second) (f64_round (4 / 10)) 5 15 15),
      (''document_service'', service_config True 100 (10 * second) (25 * second) (f64_round (5 / 10)) 5 10 10),
      (''workspace_service'', service_config True 100 (10 * second) (20 * second) (f64_round (5 / 10)) 5 10 10),
      (''embedding_service'', service_config True 30 (30 * second) (60 * second) (f64_round (3 / 10)) 2 3 3),
      (''aws_s3'', service_config True 200 (10 * second) (30 * second) (f64_round (3 / 10)) 3 10 20),
      (''aws_sqs'', service_config True 500 (5 * second) (10 * second) (f64_round (3 / 10)) 5 20 50),
      (''redis_cache'', service_config True 1000 (5 * second) (5 * second) (f64_round (2 / 10)) 10 50 100),
      (''postgres_db'', service_config True 200 (10 * second) (10 * second) (f64_round (1 / 10)) 5 20 20)]"

definition GetCircuitBreakerConfig ::
  "(string, cb_service_config) fmap \<Rightarrow> string \<Rightarrow> cb_service_config option" where
  "GetCircuitBreakerConfig configs serviceName = fmlookup configs serviceName"

definition SetCircuitBreakerConfig ::
  "string \<Rightarrow> cb_service_config \<Rightarrow> (string, cb_service_config) fmap \<Rightarrow> (string, cb_service_config) fmap" where
  "SetCircuitBreakerConfig serviceName config configs = fmupd serviceName config configs"

definition sc_ToCircuitBreakerConfig :: "cb_service_config \<Rightarrow> cb_config" where
  "sc_ToCircuitBreakerConfig c =
     \<lparr>cc_FailureThreshold = uint (sc_MinimumRequestCount c),
      cc_FailureRatio = sc_FailureThreshold c,
      cc_ResetTimeout = sc_Timeout c,
      cc_SuccessThreshold = uint (sc_SuccessThreshold c),
      cc_TimeoutThreshold = sc_Timeout c,
      cc_MaxRequestsHalfOpen = uint (sc_MaxRequestsHalfOpen c),
      cc_MinimumRequestCount = uint (sc_MinimumRequestCount c)\<rparr>"

record cb_registry =
  cr_breakers :: "(string, circuit_breaker) fmap"
  cr_configs :: "(string, cb_service_config) fmap"

definition NewCircuitBreakerRegistry :: "(string, cb_service_config) fmap \<Rightarrow> cb_registry" where
  "NewCircuitBreakerRegistry defaults =
     \<lparr>cr_breakers = fmempty,
      cr_configs = foldl (\<lambda>m (service, config). fmupd service config m) fmempty (go_range defaults)\<rparr>"

definition cr_GetOrCreate :: "go_time \<Rightarrow> string \<Rightarrow> cb_registry \<Rightarrow> circuit_breaker \<times> cb_registry" where
  "cr_GetOrCreate now serviceName r =
     (case fmlookup (cr_breakers r) serviceName of
        Some breaker \<Rightarrow> (breaker, r)
      | None \<Rightarrow>
          let config =
                (case fmlookup (cr_configs r) serviceName of
                   Some config \<Rightarrow> config
                 | None \<Rightarrow> service_config True 100 (10 * second) (30 * second) (f64_round (5 / 10)) 5 10 10);
              breaker = NewCircuitBreaker now serviceName (sc_ToCircuitBreakerConfig config)
          in (breaker, r\<lparr>cr_breakers := fmupd serviceName breaker (cr_breakers r)\<rparr>))"

definition cr_UpdateConfig :: "go_time \<Rightarrow> string \<Rightarrow> cb_service_config \<Rightarrow> cb_registry \<Rightarrow> cb_registry" where
  "cr_UpdateConfig now serviceName config r =
     (let r = r\<lparr>cr_configs := fmupd serviceName config (cr_configs r)\<rparr>
      in if fmlookup (cr_breakers r) serviceName \<noteq> None
         then r\<lparr>cr_breakers := fmupd serviceName
                (NewCircuitBreaker now serviceName (sc_ToCircuitBreakerConfig config)) (cr_breakers r)\<rparr>
         else r)"

definition cr_GetAllBreakers :: "cb_registry \<Rightarrow> (string, circuit_breaker) fmap" where
  "cr_GetAllBreakers r = foldl (\<lambda>m (k, v). fmupd k v m) fmempty (go_range (cr_breakers r))"

definition cr_GetHealthStatus :: "cb_registry \<Rightarrow> (string, string) fmap" where
  "cr_GetHealthStatus r =
     foldl (\<lambda>m (name, _). fmupd name ''registered'' m) fmempty (go_range (cr_breakers r))"

section \<open>Model: interleaved calls\<close>

text \<open>
  The breaker with the calls in flight, counted by where they are in \<open>Execute\<close>: about to make the
  breaker half-open, admitted by \<open>canExecute\<close>, refused by it and about to record the failure, running
  without or with half-open accounting, and recorded but not yet released.  The check of
  \<open>canExecute\<close>, a call of \<open>transitionTo\<close> and the recording of a result, which holds the mutex, are one
  step each.
\<close>

record cb_sys =
  sy_cb :: circuit_breaker
  sy_expired :: nat
  sy_admitted :: nat
  sy_rejected :: nat
  sy_plain :: nat
  sy_counted :: nat
  sy_leaving :: nat

definition cb_sys_init :: "circuit_breaker \<Rightarrow> cb_sys" where
  "cb_sys_init cb = \<lparr>sy_cb = cb, sy_expired = 0, sy_admitted = 0, sy_rejected = 0, sy_plain = 0, sy_counted = 0,
     sy_leaving = 0\<rparr>"

definition cb_record :: "bool \<Rightarrow> go_time \<Rightarrow> circuit_breaker \<Rightarrow> circuit_breaker" where
  "cb_record ok now cb = (if ok then cb_recordSuccess now cb else cb_recordFailure now cb)"

inductive cb_step :: "go_time \<Rightarrow> cb_sys \<Rightarrow> cb_sys \<Rightarrow> bool" for now where
  admit: "cb_check now (sy_cb s) = Admitted \<Longrightarrow>
    cb_step now s (s\<lparr>sy_admitted := Suc (sy_admitted s)\<rparr>)"
| reject: "cb_check now (sy_cb s) = Rejected err \<Longrightarrow>
    cb_step now s (s\<lparr>sy_rejected := Suc (sy_rejected s)\<rparr>)"
| expire: "cb_check now (sy_cb s) = Expired \<Longrightarrow>
    cb_step now s (s\<lparr>sy_expired := Suc (sy_expired s)\<rparr>)"
| half_open: "sy_expired s = Suc n \<Longrightarrow>
    cb_step now s (s\<lparr>sy_cb := cb_transitionTo now HalfOpen (sy_cb s), sy_expired := n,
      sy_admitted := Suc (sy_admitted s)\<rparr>)"
| record_reject: "sy_rejected s = Suc n \<Longrightarrow>
    cb_step now s (s\<lparr>sy_cb := cb_recordFailure now (sy_cb s), sy_rejected := n\<rparr>)"
| enter_half: "sy_admitted s = Suc n \<Longrightarrow> cb_state (sy_cb s) = HalfOpen \<Longrightarrow>
    cb_step now s (s\<lparr>sy_cb := (sy_cb s)\<lparr>cb_halfOpenRequests := cb_halfOpenRequests (sy_cb s) + 1\<rparr>,
      sy_admitted := n, sy_counted := Suc (sy_counted s)\<rparr>)"
| enter: "sy_admitted s = Suc n \<Longrightarrow> cb_state (sy_cb s) \<noteq> HalfOpen \<Longrightarrow>
    cb_step now s (s\<lparr>sy_admitted := n, sy_plain := Suc (sy_plain s)\<rparr>)"
| finish_plain: "sy_plain s = Suc n \<Longrightarrow>
    cb_step now s (s\<lparr>sy_cb := cb_record ok now (sy_cb s), sy_plain := n\<rparr>)"
| finish_counted: "sy_counted s = Suc n \<Longrightarrow>
    cb_step now s (s\<lparr>sy_cb := cb_record ok now (sy_cb s), sy_counted := n,
      sy_leaving := Suc (sy_leaving s)\<rparr>)"
| leave: "sy_leaving s = Suc n \<Longrightarrow>
    cb_step now s (s\<lparr>sy_cb := (sy_cb s)\<lparr>cb_halfOpenRequests := cb_halfOpenRequests (sy_cb s) - 1\<rparr>,
      sy_leaving := n\<rparr>)"

section \<open>Invariant\<close>

definition counts_ok :: "counts \<Rightarrow> bool" where
  "counts_ok c \<longleftrightarrow> ct_Requests c = ct_Successes c + ct_Failures c \<and>
     0 \<le> ct_ConsecutiveSuccesses c \<and> ct_ConsecutiveSuccesses c \<le> ct_Successes c \<and>
     0 \<le> ct_ConsecutiveFailures c \<and> ct_ConsecutiveFailures c \<le> ct_Failures c"

definition cc_ok :: "cb_config \<Rightarrow> bool" where
  "cc_ok c \<longleftrightarrow> 0 < cc_FailureThreshold c \<and> 0 < cc_SuccessThreshold c \<and>
     0 < cc_MaxRequestsHalfOpen c \<and> 0 < cc_ResetTimeout c \<and> cc_ResetTimeout c < 2 ^ 63 - 1"

definition cb_ok :: "circuit_breaker \<Rightarrow> bool" where
  "cb_ok cb \<longleftrightarrow> cc_ok (cb_config cb) \<and> counts_ok (cb_counts cb) \<and>
     (cb_state cb = Closed \<longrightarrow> ct_ConsecutiveFailures (cb_counts cb) < cc_FailureThreshold (cb_config cb)) \<and>
     (cb_state cb = HalfOpen \<longrightarrow> ct_Failures (cb_counts cb) = 0 \<and>
        ct_ConsecutiveSuccesses (cb_counts cb) = ct_Successes (cb_counts cb) \<and>
        ct_Successes (cb_counts cb) < cc_SuccessThreshold (cb_config cb))"

lemma counts_ok_new [simp]: "counts_ok NewCounts"
  by (simp add: counts_ok_def NewCounts_def)

lemma counts_ok_RecordSuccess: "counts_ok c \<Longrightarrow> counts_ok (ct_RecordSuccess now c)"
  by (simp add: counts_ok_def ct_RecordSuccess_def)

lemma counts_ok_RecordFailure: "counts_ok c \<Longrightarrow> counts_ok (ct_RecordFailure now c)"
  by (simp add: counts_ok_def ct_RecordFailure_def)

lemma cb_transitionTo_simps [simp]:
  "cb_state (cb_transitionTo now p cb) = p"
  "cb_config (cb_transitionTo now p cb) = cb_config cb"
  "cb_lastFailureTime (cb_transitionTo now p cb) = cb_lastFailureTime cb"
  "p \<noteq> HalfOpen \<Longrightarrow> cb_counts (cb_transitionTo now p cb) = cb_counts cb"
  "p \<noteq> HalfOpen \<Longrightarrow> cb_halfOpenRequests (cb_transitionTo now p cb) = cb_halfOpenRequests cb"
  "cb_state cb \<noteq> HalfOpen \<Longrightarrow> cb_counts (cb_transitionTo now HalfOpen cb) = NewCounts"
  "cb_state cb \<noteq> HalfOpen \<Longrightarrow> cb_halfOpenRequests (cb_transitionTo now HalfOpen cb) = 0"
  by (auto simp: cb_transitionTo_def Let_def)

lemma cb_config_ops [simp]:
  "cb_config (cb_recordSuccess now cb) = cb_config cb"
  "cb_config (cb_recordFailure now cb) = cb_config cb"
  "cb_config (snd (cb_canExecute now cb)) = cb_config cb"
  by (auto simp: cb_recordSuccess_def cb_recordFailure_def cb_canExecute_def Let_def
      split: circuit_state.split cb_verdict.split)

lemma cb_halfOpenRequests_record [simp]:
  "cb_halfOpenRequests (cb_recordSuccess now cb) = cb_halfOpenRequests cb"
  "cb_halfOpenRequests (cb_recordFailure now cb) = cb_halfOpenRequests cb"
  by (auto simp: cb_recordSuccess_def cb_recordFailure_def Let_def split: circuit_state.split)

lemma cb_ok_new: "cc_ok (cb_defaults config) \<Longrightarrow> cb_ok (NewCircuitBreaker now name config)"
  by (simp add: cb_ok_def NewCircuitBreaker_def cc_ok_def, simp add: NewCounts_def)

lemma cb_ok_half_open:
  assumes "cb_ok cb" shows "cb_ok (cb_transitionTo now HalfOpen cb)"
proof (cases "cb_state cb = HalfOpen")
  case True
  then show ?thesis using assms by (simp add: cb_transitionTo_def)
next
  case False
  then show ?thesis using assms by (simp add: cb_ok_def) (simp add: NewCounts_def cc_ok_def)
qed

lemma cb_ok_canExecute: "cb_ok cb \<Longrightarrow> cb_ok (snd (cb_canExecute now cb))"
  by (simp add: cb_canExecute_def cb_ok_half_open split: cb_verdict.split)

lemma cb_ok_recordSuccess:
  assumes "cb_ok cb" shows "cb_ok (cb_recordSuccess now cb)"
  using assms counts_ok_RecordSuccess [of "cb_counts cb" now]
  by (cases "cb_state cb") (auto simp: cb_ok_def cb_recordSuccess_def Let_def;
    auto simp: ct_RecordSuccess_def counts_ok_def cc_ok_def)+

lemma cb_ok_recordFailure:
  assumes "cb_ok cb" shows "cb_ok (cb_recordFailure now cb)"
  using assms counts_ok_RecordFailure [of "cb_counts cb" now]
  by (cases "cb_state cb") (auto simp: cb_ok_def cb_recordFailure_def Let_def;
    auto simp: ct_RecordFailure_def counts_ok_def cc_ok_def)+

lemma cb_ok_halfOpenRequests [simp]: "cb_ok (cb\<lparr>cb_halfOpenRequests := n\<rparr>) = cb_ok cb"
  by (simp add: cb_ok_def)

lemma cb_ok_Reset: "cb_ok cb \<Longrightarrow> cb_ok (cb_Reset now cb)"
  by (simp add: cb_ok_def cb_Reset_def cc_ok_def, simp add: NewCounts_def)

lemma cb_ok_record: "cb_ok cb \<Longrightarrow> cb_ok (cb_record ok now cb)"
  by (simp add: cb_record_def cb_ok_recordSuccess cb_ok_recordFailure)

lemma cb_Execute_ok:
  assumes "cb_ok cb" shows "cb_ok (snd (cb_Execute now now' ev cb))"
proof -
  obtain e cb1 where c: "cb_canExecute now cb = (e, cb1)" by (cases "cb_canExecute now cb")
  have "cb_ok cb1" using cb_ok_canExecute [OF assms, of now] c by simp
  then show ?thesis
    by (cases e; cases ev)
      (auto simp: cb_Execute_def c Let_def cb_ok_recordFailure cb_ok_recordSuccess split: sum.split)
qed

section \<open>Moves and the open window\<close>

lemma cb_record_moves: "legal_move (cb_state cb) (cb_state (cb_record ok now cb))"
  by (cases "cb_state cb") (auto simp: cb_record_def cb_recordSuccess_def cb_recordFailure_def Let_def)

lemma cb_record_open:
  "cb_state cb = Open \<Longrightarrow> cb_state (cb_record ok now cb) = Open \<and>
     cb_lastFailureTime (cb_record ok now cb) = (if ok then cb_lastFailureTime cb else now)"
  by (auto simp: cb_record_def cb_recordSuccess_def cb_recordFailure_def Let_def)

lemma cb_record_latest:
  "cb_lastFailureTime (cb_record ok now cb) = (if ok then cb_lastFailureTime cb else now)"
  by (auto simp: cb_record_def cb_recordSuccess_def cb_recordFailure_def Let_def
      split: circuit_state.split)

lemma cb_config_record [simp]: "cb_config (cb_record ok now cb) = cb_config cb"
  by (simp add: cb_record_def)

lemma cb_recordFailure_record: "cb_recordFailure now cb = cb_record False now cb"
  by (simp add: cb_record_def)

lemma cb_check_Expired:
  "cb_check now cb = Expired \<longleftrightarrow> cb_state cb = Open \<and>
     cc_ResetTimeout (cb_config cb) < time_sub now (cb_lastFailureTime cb)"
  by (auto simp: cb_check_def split: circuit_state.splits)

lemma cb_halfOpenRequests_half_open:
  "cb_halfOpenRequests (cb_transitionTo now HalfOpen cb) \<in> {cb_halfOpenRequests cb, 0}"
  by (auto simp: cb_transitionTo_def Let_def)

definition sys_ok :: "cb_sys \<Rightarrow> bool" where
  "sys_ok s \<longleftrightarrow> cb_ok (sy_cb s) \<and>
     cb_halfOpenRequests (sy_cb s) \<le> int (sy_counted s) + int (sy_leaving s)"

lemma sys_ok_step: "cb_step now s t \<Longrightarrow> sys_ok s \<Longrightarrow> sys_ok t"
proof (induction rule: cb_step.induct)
  case (half_open s n)
  then show ?case
    using cb_ok_half_open [of "sy_cb s" now] cb_halfOpenRequests_half_open [of now "sy_cb s"]
    by (auto simp: sys_ok_def)
qed (auto simp: sys_ok_def cb_ok_record cb_ok_recordFailure cb_record_def cb_ok_recordSuccess)

abbreviation sys_phase :: "cb_sys \<Rightarrow> circuit_state" where
  "sys_phase s \<equiv> cb_state (sy_cb s)"

abbreviation sys_latest :: "cb_sys \<Rightarrow> go_time" where
  "sys_latest s \<equiv> cb_lastFailureTime (sy_cb s)"

definition sys_deadline :: "cb_sys \<Rightarrow> go_time" where
  "sys_deadline s = cb_lastFailureTime (sy_cb s) + cc_ResetTimeout (cb_config (sy_cb s))"

text \<open>One step seen through the contract: phase, deadline and latest instant.\<close>

lemma cb_step_observed:
  assumes "cb_step now s t" "sys_ok s"
  shows "(sys_phase s = Open \<longrightarrow> sys_phase t \<noteq> Closed) \<and>
    (sys_latest t = sys_latest s \<or> sys_latest t = now) \<and>
    cb_config (sy_cb t) = cb_config (sy_cb s) \<and>
    (sys_phase s = Open \<longrightarrow> sy_expired s = 0 \<longrightarrow> now \<le> sys_deadline s \<longrightarrow>
       sys_phase t = Open \<and> sy_expired t = 0)"
  using assms
proof (induction rule: cb_step.induct)
  case (expire s)
  have "0 < cc_ResetTimeout (cb_config (sy_cb s))" "cc_ResetTimeout (cb_config (sy_cb s)) < 2 ^ 63 - 1"
    using expire.prems by (auto simp: sys_ok_def cb_ok_def cc_ok_def)
  then show ?case
    using expire.hyps by (auto simp: cb_check_Expired sys_deadline_def time_sub_gt algebra_simps)
next
  case (record_reject s n)
  then show ?case
    using cb_record_moves [of "sy_cb s" False now] cb_record_open [of "sy_cb s" False now]
    by (auto simp: cb_record_latest cb_recordFailure_record)
next
  case (finish_plain s n ok)
  then show ?case
    using cb_record_moves [of "sy_cb s" ok now] cb_record_open [of "sy_cb s" ok now]
    by (auto simp: cb_record_latest)
next
  case (finish_counted s n ok)
  then show ?case
    using cb_record_moves [of "sy_cb s" ok now] cb_record_open [of "sy_cb s" ok now]
    by (auto simp: cb_record_latest)
qed auto

interpretation resilience: breaker_contract cb_step sys_phase sys_ok sys_deadline sys_latest "\<lambda>s. sy_expired s = 0"
proof
  fix now s t
  assume step: "cb_step now s t"
  show "sys_ok s \<Longrightarrow> sys_ok t" by (rule sys_ok_step [OF step])
  show "sys_ok s \<Longrightarrow> sys_phase s = Open \<Longrightarrow> sys_phase t \<noteq> Closed"
    using cb_step_observed [OF step] by blast
  show "sys_ok s \<Longrightarrow> sys_phase s = Open \<Longrightarrow> sy_expired s = 0 \<Longrightarrow> now \<le> sys_deadline s \<Longrightarrow>
      sys_phase t = Open \<and> sy_expired t = 0"
    using cb_step_observed [OF step] by blast
  show "sys_ok s \<Longrightarrow> sys_phase s = Open \<Longrightarrow> sys_phase t = Open \<Longrightarrow> sys_latest s \<le> now \<Longrightarrow>
      sys_deadline s \<le> sys_deadline t"
    using cb_step_observed [OF step] by (auto simp: sys_deadline_def)
  show "sys_latest s \<le> now \<Longrightarrow> sys_latest t \<le> now"
    using step by (induction rule: cb_step.induct)
      (auto simp: cb_record_latest cb_recordFailure_record)
qed

section \<open>Properties\<close>

text \<open>The states of a breaker built by \<open>NewCircuitBreaker\<close>, calls interleaving at any instants.\<close>

inductive cb_reachable :: "cb_config \<Rightarrow> cb_sys \<Rightarrow> bool" for config where
  init: "cb_reachable config (cb_sys_init (NewCircuitBreaker now name config))"
| step: "cb_reachable config s \<Longrightarrow> cb_step now s t \<Longrightarrow> cb_reachable config t"
| reset: "cb_reachable config s \<Longrightarrow> cb_reachable config (s\<lparr>sy_cb := cb_Reset now (sy_cb s)\<rparr>)"

lemma cb_reachable_ok: "cb_reachable config s \<Longrightarrow> cc_ok (cb_defaults config) \<Longrightarrow> sys_ok s"
proof (induction rule: cb_reachable.induct)
  case (init now name)
  then show ?case using cb_ok_new [of config now name]
    by (simp add: sys_ok_def cb_sys_init_def NewCircuitBreaker_def)
next
  case (step s now t)
  then show ?case by (simp add: sys_ok_step)
next
  case (reset s now)
  then show ?case by (simp add: sys_ok_def cb_ok_Reset) (simp add: cb_Reset_def)
qed


definition zero_config :: cb_config where
  "zero_config = \<lparr>cc_FailureThreshold = 0, cc_FailureRatio = 0, cc_ResetTimeout = 0,
     cc_SuccessThreshold = 0, cc_TimeoutThreshold = 0, cc_MaxRequestsHalfOpen = 0,
     cc_MinimumRequestCount = 0\<rparr>"

lemma cc_ok_zero_config: "cc_ok (cb_defaults zero_config)"
  by (simp add: cc_ok_def cb_defaults_def zero_config_def time_units)



definition open_sys :: cb_sys where
  "open_sys = cb_sys_init ((NewCircuitBreaker 0 ''svc'' zero_config)
     \<lparr>cb_state := Open, cb_lastFailureTime := 100\<rparr>)"

lemma open_sys_ok: "sys_ok open_sys"
  by (simp add: sys_ok_def open_sys_def cb_sys_init_def NewCircuitBreaker_def cb_ok_def
      cc_ok_zero_config)


text \<open>An open breaker closes only by way of the half-open phase: on every interleaving of calls
  from an open breaker to a closed one, an earlier state of the run is half-open.\<close>

theorem cb_closed_via_half_open:
  assumes "timed_run cb_step t0 s (pre @ (now, t) # post)" "sys_ok s"
    and "cb_state (sy_cb s) = Open" "cb_state (sy_cb t) = Closed"
  shows "\<exists>(m, u) \<in> set pre. cb_state (sy_cb u) = HalfOpen"
  using resilience.closed_via_half_open [OF assms(1-3) refl assms(4)] .

definition probe_config :: cb_config where
  "probe_config = \<lparr>cc_FailureThreshold = 1, cc_FailureRatio = 1, cc_ResetTimeout = 10,
     cc_SuccessThreshold = 1, cc_TimeoutThreshold = 5, cc_MaxRequestsHalfOpen = 1,
     cc_MinimumRequestCount = 10\<rparr>"

definition probe_breaker :: "circuit_state \<Rightarrow> circuit_breaker" where
  "probe_breaker p = \<lparr>cb_name = ''svc'', cb_config = probe_config, cb_state = p, cb_counts = NewCounts,
     cb_lastFailureTime = 100, cb_lastStateChange = 100, cb_halfOpenRequests = 0\<rparr>"

lemmas probe_defs = probe_breaker_def probe_config_def cb_sys_init_def cb_check_def cb_canExecute_def
  cb_transitionTo_def cb_record_def cb_recordSuccess_def cb_recordFailure_def ct_RecordSuccess_def
  ct_RecordFailure_def NewCounts_def time_sub_def Let_def

lemma probe_ok: "cb_ok (probe_breaker Open)"
  by (simp add: cb_ok_def cc_ok_def counts_ok_def probe_breaker_def probe_config_def NewCounts_def)

theorem cb_closed_via_half_open_witness:
  "\<exists>pre t post. timed_run cb_step 100 (cb_sys_init (probe_breaker Open)) (pre @ (202, t) # post) \<and>
     cb_state (sy_cb t) = Closed \<and> (\<exists>(m, u) \<in> set pre. cb_state (sy_cb u) = HalfOpen)"
proof -
  define s0 where "s0 = cb_sys_init (probe_breaker Open)"
  define e where "e = s0\<lparr>sy_expired := 1\<rparr>"
  define s1 where "s1 = s0\<lparr>sy_cb := cb_transitionTo 200 HalfOpen (sy_cb s0), sy_admitted := 1\<rparr>"
  define s2 where "s2 = s1\<lparr>sy_cb := (sy_cb s1)\<lparr>cb_halfOpenRequests := 1\<rparr>, sy_admitted := 0, sy_counted := 1\<rparr>"
  define s3 where "s3 = s2\<lparr>sy_cb := cb_record True 202 (sy_cb s2), sy_counted := 0, sy_leaving := 1\<rparr>"
  note defs = s0_def e_def s1_def s2_def s3_def
  have "cb_step 200 s0 e"
    using cb_step.expire [of 200 s0] by (simp add: defs probe_defs)
  moreover have "cb_step 200 e s1"
    using cb_step.half_open [of e 0 200] by (simp add: defs probe_defs)
  moreover have "cb_step 201 s1 s2"
    using cb_step.enter_half [of s1 0 201] by (simp add: defs probe_defs)
  moreover have "cb_step 202 s2 s3"
    using cb_step.finish_counted [of s2 0 202 True] by (simp add: defs probe_defs)
  ultimately have run: "timed_run cb_step 100 s0 ([(200, e), (200, s1), (201, s2)] @ (202, s3) # [])"
    by simp
  have "cb_state (sy_cb s3) = Closed" by (simp add: defs probe_defs)
  moreover have "cb_state (sy_cb s0) = Open" "sys_ok s0"
    using probe_ok by (simp_all add: s0_def sys_ok_def cb_sys_init_def probe_breaker_def)
  ultimately show ?thesis
    using run cb_closed_via_half_open [OF run] unfolding s0_def by blast
qed

text \<open>Two calls that have both seen the window of a tripped breaker end.\<close>

definition two_probes :: "circuit_breaker \<Rightarrow> cb_sys" where
  "two_probes cb = (cb_sys_init cb)\<lparr>sy_expired := 2\<rparr>"

definition tripped :: circuit_breaker where
  "tripped = cb_recordFailure 100 (NewCircuitBreaker 0 ''svc'' probe_config)"

lemmas tripped_defs = tripped_def two_probes_def NewCircuitBreaker_def cb_defaults_def probe_defs numeral_2_eq_2

lemmas probe_step = cb_reachable.step [where config = probe_config]

lemma two_probes_reachable: "cb_reachable probe_config (two_probes tripped)"
proof -
  define a where "a = cb_sys_init (NewCircuitBreaker 0 ''svc'' probe_config)"
  note defs = a_def tripped_defs
  have "cb_reachable probe_config a" unfolding a_def by (rule cb_reachable.init)
  from probe_step [OF this cb_step.admit [of 50]]
  have "cb_reachable probe_config (a\<lparr>sy_admitted := 1\<rparr>)" by (simp add: defs)
  from probe_step [OF this cb_step.enter [of _ 0 60]]
  have "cb_reachable probe_config (a\<lparr>sy_plain := 1\<rparr>)" by (simp add: defs)
  from probe_step [OF this cb_step.finish_plain [of _ 0 100 False]]
  have "cb_reachable probe_config (cb_sys_init tripped)" by (simp add: defs)
  from probe_step [OF this cb_step.expire [of 200]]
  have "cb_reachable probe_config ((cb_sys_init tripped)\<lparr>sy_expired := 1\<rparr>)" by (simp add: defs)
  from probe_step [OF this cb_step.expire [of 200]] show ?thesis by (simp add: defs)
qed

lemma first_probe_reachable:
  "cb_reachable probe_config ((two_probes (cb_transitionTo 200 HalfOpen tripped))\<lparr>sy_expired := 1, sy_admitted := 1\<rparr>)"
  using probe_step [OF two_probes_reachable cb_step.half_open [of _ 1 200]] by (simp add: tripped_defs)

text \<open>The half-open phase is not protected under concurrency, since \<open>canExecute\<close> takes no lock.  With
  a limit of one, two calls can be admitted and run in the half-open phase at the same time; and a call that
  saw an earlier window end can make the breaker half-open one nanosecond after it has tripped again,
  although the reset timeout is ten.\<close>

theorem cb_half_open_unprotected:
  "(\<exists>s. cb_reachable probe_config s \<and> cb_state (sy_cb s) = HalfOpen \<and>
      cc_MaxRequestsHalfOpen (cb_config (sy_cb s)) = 1 \<and> sy_counted s = 2) \<and>
   (\<exists>s t. cb_reachable probe_config s \<and> cb_state (sy_cb s) = Open \<and> cb_lastFailureTime (sy_cb s) = 300 \<and>
      cc_ResetTimeout (cb_config (sy_cb s)) = 10 \<and> cb_step 301 s t \<and> cb_state (sy_cb t) = HalfOpen)"
proof
  let ?cb = "cb_transitionTo 200 HalfOpen tripped"
  let ?h = "\<lambda>n. (?cb)\<lparr>cb_halfOpenRequests := n\<rparr>"
  from probe_step [OF first_probe_reachable cb_step.half_open [of _ 0 200]]
  have "cb_reachable probe_config ((cb_sys_init ?cb)\<lparr>sy_admitted := 2\<rparr>)" by (simp add: tripped_defs)
  from probe_step [OF this cb_step.enter_half [of _ 1 200]]
  have "cb_reachable probe_config ((cb_sys_init (?h 1))\<lparr>sy_admitted := 1, sy_counted := 1\<rparr>)"
    by (simp add: tripped_defs)
  from probe_step [OF this cb_step.enter_half [of _ 0 200]]
  have "cb_reachable probe_config ((cb_sys_init (?h 2))\<lparr>sy_counted := 2\<rparr>)" by (simp add: tripped_defs)
  then show "\<exists>s. cb_reachable probe_config s \<and> cb_state (sy_cb s) = HalfOpen \<and>
      cc_MaxRequestsHalfOpen (cb_config (sy_cb s)) = 1 \<and> sy_counted s = 2"
    by (intro exI [of _ "(cb_sys_init (?h 2))\<lparr>sy_counted := 2\<rparr>"] conjI) (simp_all add: tripped_defs)
  define r where "r = (cb_sys_init (cb_recordFailure 300 (?h 1)))\<lparr>sy_expired := 1, sy_leaving := 1\<rparr>"
  from probe_step [OF first_probe_reachable cb_step.enter_half [of _ 0 200]]
  have "cb_reachable probe_config ((cb_sys_init (?h 1))\<lparr>sy_expired := 1, sy_counted := 1\<rparr>)"
    by (simp add: tripped_defs)
  from probe_step [OF this cb_step.finish_counted [of _ 0 300 False]]
  have "cb_reachable probe_config r" by (simp add: r_def tripped_defs)
  moreover have "cb_step 301 r (r\<lparr>sy_cb := cb_transitionTo 301 HalfOpen (sy_cb r), sy_expired := 0,
      sy_admitted := 1\<rparr>)"
    using cb_step.half_open [of r 0 301] by (simp add: r_def cb_sys_init_def)
  moreover have "cb_state (sy_cb r) = Open" "cb_lastFailureTime (sy_cb r) = 300"
    "cc_ResetTimeout (cb_config (sy_cb r)) = 10"
    by (simp_all add: r_def tripped_defs)
  ultimately show "\<exists>s t. cb_reachable probe_config s \<and> cb_state (sy_cb s) = Open \<and>
      cb_lastFailureTime (sy_cb s) = 300 \<and> cc_ResetTimeout (cb_config (sy_cb s)) = 10 \<and> cb_step 301 s t \<and>
      cb_state (sy_cb t) = HalfOpen"
    by (intro exI [of _ r] exI [of _ "r\<lparr>sy_cb := cb_transitionTo 301 HalfOpen (sy_cb r), sy_expired := 0,
      sy_admitted := 1\<rparr>"] conjI) simp_all
qed

subsection \<open>Sequential calls\<close>

fun cb_calls :: "(go_time \<times> go_time \<times> 'v exec_event) list \<Rightarrow> circuit_breaker \<Rightarrow>
    (cb_error + 'v) list \<times> circuit_breaker" where
  "cb_calls [] cb = ([], cb)"
| "cb_calls ((now, now', ev) # xs) cb =
     (let (r, cb) = cb_Execute now now' ev cb; (rs, cb) = cb_calls xs cb in (r # rs, cb))"

text \<open>Each instant is at most \<open>d\<close> after the one before it.\<close>

fun gaps_within :: "duration \<Rightarrow> go_time \<Rightarrow> go_time list \<Rightarrow> bool" where
  "gaps_within d t [] = True"
| "gaps_within d t (x # xs) = (x - t \<le> d \<and> gaps_within d x xs)"

lemma cb_Execute_rejected:
  assumes "cb_ok cb" "cb_state cb = Open" "now - cb_lastFailureTime cb \<le> cc_ResetTimeout (cb_config cb)"
  shows "cb_Execute now now' ev cb =
    (Inl (Wrap ErrCircuitBreakerOpen ''circuit breaker execution failed''),
     cb\<lparr>cb_counts := ct_RecordFailure now (cb_counts cb), cb_lastFailureTime := now\<rparr>)"
proof -
  have "0 < cc_ResetTimeout (cb_config cb)" "cc_ResetTimeout (cb_config cb) < 2 ^ 63 - 1"
    using assms(1) by (auto simp: cb_ok_def cc_ok_def)
  then have "\<not> cc_ResetTimeout (cb_config cb) < time_sub now (cb_lastFailureTime cb)"
    using assms(3) by (simp add: time_sub_gt)
  then show ?thesis
    using assms(2) by (simp add: cb_Execute_def cb_canExecute_def cb_check_def cb_recordFailure_def Let_def)
qed

text \<open>Refused calls keep the breaker open: \<open>Execute\<close> records a failure for a call it refuses,
  which restarts the reset timeout, so an open breaker that is called again within every
  \<open>ResetTimeout\<close> refuses every call, however long this goes on.\<close>

theorem cb_refused_calls_keep_open:
  assumes "cb_ok cb" "cb_state cb = Open"
    and "gaps_within (cc_ResetTimeout (cb_config cb)) (cb_lastFailureTime cb) (map fst xs)"
  shows "cb_state (snd (cb_calls xs cb)) = Open \<and>
    fst (cb_calls xs cb) = map (\<lambda>_. Inl (Wrap ErrCircuitBreakerOpen ''circuit breaker execution failed'')) xs"
  using assms
proof (induction xs arbitrary: cb)
  case Nil
  then show ?case by simp
next
  case (Cons x xs)
  obtain now now' ev where x: "x = (now, now', ev)" by (cases x)
  let ?cb = "cb\<lparr>cb_counts := ct_RecordFailure now (cb_counts cb), cb_lastFailureTime := now\<rparr>"
  have ex: "cb_Execute now now' ev cb =
      (Inl (Wrap ErrCircuitBreakerOpen ''circuit breaker execution failed''), ?cb)"
    using Cons.prems x by (intro cb_Execute_rejected) auto
  have "cb_ok ?cb" using cb_Execute_ok [OF Cons.prems(1), of now now' ev] ex by simp
  then have "cb_state (snd (cb_calls xs ?cb)) = Open \<and>
      fst (cb_calls xs ?cb) = map (\<lambda>_. Inl (Wrap ErrCircuitBreakerOpen ''circuit breaker execution failed'')) xs"
    using Cons.prems x by (intro Cons.IH) auto
  then show ?case by (auto simp: x ex split: prod.split)
qed

theorem cb_refused_calls_keep_open_witness:
  "cb_state (snd (cb_calls [(105, 106, FnResult (Inr True)), (114, 115, FnResult (Inr True)),
     (123, 124, FnResult (Inr True))] (probe_breaker Open))) = Open"
  using cb_refused_calls_keep_open [OF probe_ok, of "[(105, 106, FnResult (Inr True)),
      (114, 115, FnResult (Inr True)), (123, 124, FnResult (Inr True))]"]
  by (simp add: probe_breaker_def probe_config_def)

lemma cb_Execute_success_half_open:
  assumes "cb_ok cb" "cb_state cb = HalfOpen" "cb_halfOpenRequests cb = 0"
  shows "\<exists>cb'. cb_Execute now now' (FnResult (Inr v)) cb = (Inr v, cb') \<and> cb_ok cb' \<and>
    cb_config cb' = cb_config cb \<and> cb_halfOpenRequests cb' = 0 \<and>
    (if ct_Successes (cb_counts cb) + 1 = cc_SuccessThreshold (cb_config cb) then cb_state cb' = Closed
     else cb_state cb' = HalfOpen \<and> ct_Successes (cb_counts cb') = ct_Successes (cb_counts cb) + 1)"
proof -
  have max: "\<not> cc_MaxRequestsHalfOpen (cb_config cb) \<le> 0"
    and succ: "ct_ConsecutiveSuccesses (cb_counts cb) = ct_Successes (cb_counts cb)"
      "ct_Successes (cb_counts cb) < cc_SuccessThreshold (cb_config cb)"
    using assms by (auto simp: cb_ok_def cc_ok_def)
  have ok: "cb_ok (snd (cb_Execute now now' (FnResult (Inr v)) cb))"
    using assms(1) by (rule cb_Execute_ok)
  then show ?thesis
    using assms(2,3) max succ
    by (auto simp: cb_Execute_def cb_canExecute_def cb_check_def Let_def cb_recordSuccess_def ct_RecordSuccess_def)
qed

lemma cb_calls_half_open:
  assumes "cb_ok cb" "cb_state cb = HalfOpen" "cb_halfOpenRequests cb = 0"
    and "int (length xs) = cc_SuccessThreshold (cb_config cb) - ct_Successes (cb_counts cb)"
    and "\<And>x. x \<in> set xs \<Longrightarrow> \<exists>v. snd (snd x) = FnResult (Inr v)"
  shows "cb_state (snd (cb_calls xs cb)) = Closed"
  using assms
proof (induction xs arbitrary: cb)
  case Nil
  then show ?case by (simp add: cb_ok_def)
next
  case (Cons x xs)
  obtain now now' v where x: "x = (now, now', FnResult (Inr v))"
    using Cons.prems(5) [of x] by (cases x) auto
  obtain cb' where ex: "cb_Execute now now' (FnResult (Inr v)) cb = (Inr v, cb')" and cb': "cb_ok cb'"
    "cb_config cb' = cb_config cb" "cb_halfOpenRequests cb' = 0"
    "if ct_Successes (cb_counts cb) + 1 = cc_SuccessThreshold (cb_config cb) then cb_state cb' = Closed
     else cb_state cb' = HalfOpen \<and> ct_Successes (cb_counts cb') = ct_Successes (cb_counts cb) + 1"
    using cb_Execute_success_half_open [OF Cons.prems(1-3), of now now' v] by (elim exE conjE)
  show ?case
  proof (cases "ct_Successes (cb_counts cb) + 1 = cc_SuccessThreshold (cb_config cb)")
    case True
    then have "int (length xs) = 0" using Cons.prems(4) by (simp only: list.size)
    then show ?thesis using cb' True by (simp add: x ex)
  next
    case False
    then have "cb_state (snd (cb_calls xs cb')) = Closed"
      using Cons.prems(4,5) cb' by (intro Cons.IH) auto
    then show ?thesis by (auto simp: x ex split: prod.split)
  qed
qed

text \<open>C18 Recovery: once more than \<open>ResetTimeout\<close> has passed since the last failure, as many
  successful calls in a row as \<open>SuccessThreshold\<close> asks for close the breaker.\<close>

theorem cb_recovers:
  assumes "cb_ok cb" "cb_state cb = Open"
    and "cb_lastFailureTime cb + cc_ResetTimeout (cb_config cb) < now"
    and "int (length xs) + 1 = cc_SuccessThreshold (cb_config cb)"
    and "\<And>x. x \<in> set xs \<Longrightarrow> \<exists>v. snd (snd x) = FnResult (Inr v)"
  shows "cb_state (snd (cb_calls ((now, now', FnResult (Inr v)) # xs) cb)) = Closed"
proof -
  have "0 < cc_ResetTimeout (cb_config cb)" "cc_ResetTimeout (cb_config cb) < 2 ^ 63 - 1"
    using assms(1) by (auto simp: cb_ok_def cc_ok_def)
  then have can: "cb_canExecute now cb = (None, cb_transitionTo now HalfOpen cb)"
    using assms(2,3) by (simp add: cb_canExecute_def cb_check_def time_sub_gt)
  let ?h = "cb_transitionTo now HalfOpen cb"
  have h: "cb_ok ?h" using cb_ok_canExecute [OF assms(1), of now] can by simp
  then have "cb_Execute now now' ev cb = cb_Execute now now' ev ?h" for ev :: "'a exec_event"
    using assms(2) by (simp add: cb_Execute_def can) (simp add: cb_canExecute_def cb_check_def cb_ok_def cc_ok_def)
  then have "cb_calls ((now, now', FnResult (Inr v)) # xs) cb =
      cb_calls ((now, now', FnResult (Inr v)) # xs) ?h" by simp
  moreover have "cb_state (snd (cb_calls ((now, now', FnResult (Inr v)) # xs) ?h)) = Closed"
    using assms h by (intro cb_calls_half_open) (auto simp: NewCounts_def)
  ultimately show ?thesis by simp
qed

theorem cb_recovers_witness:
  "cb_state (snd (cb_calls [(111, 112, FnResult (Inr True))] (probe_breaker Open))) = Closed"
  using cb_recovers [OF probe_ok, of 111 "[]" 112 True]
  by (simp add: probe_breaker_def probe_config_def)

end
