(* ===== verification/Redis_Breaker.thy ===== *)
theory Redis_Breaker
  imports Breaker_Spec Float64
begin

text \<open>
  The circuit breaker of \<open>pkg/redis\<close> (\<open>circuit_breaker.go\<close>): a generation counter makes
  late results harmless and the open timeout backs off.  \<open>ovf\<close> is the value Go's conversion
  yields for a float outside the range of \<open>int64\<close>, which the language leaves to the
  implementation; the invariant keeps the program from depending on it.
\<close>

section \<open>Model\<close>

record rb_config =
  rc_FailureThreshold :: int
  rc_SuccessThreshold :: int
  rc_Timeout :: duration
  rc_MaxTimeout :: duration
  rc_TimeoutMultiplier :: rat

definition rb_DefaultConfig :: rb_config where
  "rb_DefaultConfig = \<lparr>rc_FailureThreshold = 5, rc_SuccessThreshold = 2, rc_Timeout = 30 * second,
     rc_MaxTimeout = 5 * minute, rc_TimeoutMultiplier = 2\<rparr>"

record redis_breaker =
  rb_config :: rb_config
  rb_state :: circuit_state
  rb_failures :: int
  rb_successes :: int
  rb_lastFailureTime :: go_time
  rb_currentTimeout :: duration
  rb_generation :: u64

definition rb_New :: "rb_config option \<Rightarrow> redis_breaker" where
  "rb_New config =
     (let config = (case config of None \<Rightarrow> rb_DefaultConfig | Some c \<Rightarrow> c)
      in \<lparr>rb_config = config, rb_state = Closed, rb_failures = 0, rb_successes = 0,
          rb_lastFailureTime = 0, rb_currentTimeout = rc_Timeout config, rb_generation = 0\<rparr>)"

definition rb_beforeRequest :: "go_time \<Rightarrow> redis_breaker \<Rightarrow> (u64 \<times> string option) \<times> redis_breaker" where
  "rb_beforeRequest now cb =
     (case rb_state cb of
        Closed \<Rightarrow> ((rb_generation cb, None), cb)
      | Open \<Rightarrow>
          if rb_currentTimeout cb < time_sub now (rb_lastFailureTime cb)
          then let cb = cb\<lparr>rb_state := HalfOpen, rb_successes := 0, rb_generation := rb_generation cb + 1\<rparr>
               in ((rb_generation cb, None), cb)
          else ((rb_generation cb, Some ''circuit breaker is open''), cb)
      | HalfOpen \<Rightarrow> ((rb_generation cb, None), cb))"

definition rb_onSuccess :: "redis_breaker \<Rightarrow> redis_breaker" where
  "rb_onSuccess cb =
     (case rb_state cb of
        Closed \<Rightarrow> cb\<lparr>rb_failures := 0\<rparr>
      | HalfOpen \<Rightarrow>
          let cb = cb\<lparr>rb_successes := rb_successes cb + 1\<rparr>
          in if rc_SuccessThreshold (rb_config cb) \<le> rb_successes cb
             then cb\<lparr>rb_state := Closed, rb_failures := 0, rb_successes := 0,
                     rb_currentTimeout := rc_Timeout (rb_config cb), rb_generation := rb_generation cb + 1\<rparr>
             else cb
      | Open \<Rightarrow> cb)"

definition rb_onFailure :: "int \<Rightarrow> go_time \<Rightarrow> redis_breaker \<Rightarrow> redis_breaker" where
  "rb_onFailure ovf now cb0 =
     (let cb = cb0\<lparr>rb_lastFailureTime := now\<rparr>
      in case rb_state cb of
           Closed \<Rightarrow>
             let cb = cb\<lparr>rb_failures := rb_failures cb + 1\<rparr>
             in if rc_FailureThreshold (rb_config cb) \<le> rb_failures cb
                then cb\<lparr>rb_state := Open, rb_generation := rb_generation cb + 1\<rparr>
                else cb
         | HalfOpen \<Rightarrow>
             let timeout = f64_to_int64 ovf
                   (f64_mul (f64_of_int (rb_currentTimeout cb)) (rc_TimeoutMultiplier (rb_config cb)));
                 timeout = (if rc_MaxTimeout (rb_config cb) < timeout
                            then rc_MaxTimeout (rb_config cb) else timeout)
             in cb\<lparr>rb_state := Open, rb_successes := 0, rb_generation := rb_generation cb + 1,
                    rb_currentTimeout := timeout\<rparr>
         | Open \<Rightarrow> cb)"

definition rb_afterRequest :: "int \<Rightarrow> go_time \<Rightarrow> u64 \<Rightarrow> bool \<Rightarrow> redis_breaker \<Rightarrow> redis_breaker" where
  "rb_afterRequest ovf now generation ok cb =
     (if generation \<noteq> rb_generation cb then cb
      else if ok then rb_onSuccess cb
      else rb_onFailure ovf now cb)"

definition rb_ExecuteWithResult ::
  "int \<Rightarrow> go_time \<Rightarrow> go_time \<Rightarrow> string option \<Rightarrow> string + 'v \<Rightarrow> redis_breaker \<Rightarrow>
   (string + 'v) \<times> redis_breaker" where
  "rb_ExecuteWithResult ovf now now' ctxErr operation cb =
     (case ctxErr of
        Some e \<Rightarrow> (Inl e, cb)
      | None \<Rightarrow>
          (case rb_beforeRequest now cb of
             ((_, Some err), cb) \<Rightarrow> (Inl err, cb)
           | ((generation, None), cb) \<Rightarrow>
               (operation, rb_afterRequest ovf now' generation (\<not> isl operation) cb)))"

definition rb_Execute ::
  "int \<Rightarrow> go_time \<Rightarrow> go_time \<Rightarrow> string option \<Rightarrow> string option \<Rightarrow> redis_breaker \<Rightarrow>
   string option \<times> redis_breaker" where
  "rb_Execute ovf now now' ctxErr operation cb =
     (case ctxErr of
        Some e \<Rightarrow> (Some e, cb)
      | None \<Rightarrow>
          (case rb_beforeRequest now cb of
             ((_, Some err), cb) \<Rightarrow> (Some err, cb)
           | ((generation, None), cb) \<Rightarrow>
               (operation, rb_afterRequest ovf now' generation (operation = None) cb)))"

definition rb_Reset :: "redis_breaker \<Rightarrow> redis_breaker" where
  "rb_Reset cb = cb\<lparr>rb_state := Closed, rb_failures := 0, rb_successes := 0,
     rb_currentTimeout := rc_Timeout (rb_config cb), rb_generation := rb_generation cb + 1\<rparr>"

record rb_manager =
  rm_breakers :: "(string, redis_breaker) fmap"
  rm_config :: rb_config

definition rm_New :: "rb_config option \<Rightarrow> rb_manager" where
  "rm_New config = \<lparr>rm_breakers = fmempty,
     rm_config = (case config of None \<Rightarrow> rb_DefaultConfig | Some c \<Rightarrow> c)\<rparr>"

definition rm_GetBreaker :: "string \<Rightarrow> rb_manager \<Rightarrow> redis_breaker \<times> rb_manager" where
  "rm_GetBreaker key m =
     (case fmlookup (rm_breakers m) key of
        Some breaker \<Rightarrow> (breaker, m)
      | None \<Rightarrow>
          let breaker = rb_New (Some (rm_config m))
          in (breaker, m\<lparr>rm_breakers := fmupd key breaker (rm_breakers m)\<rparr>))"

definition rm_ResetAll :: "rb_manager \<Rightarrow> rb_manager" where
  "rm_ResetAll m = m\<lparr>rm_breakers :=
     foldl (\<lambda>b (key, breaker). fmupd key (rb_Reset breaker) b) (rm_breakers m) (go_range (rm_breakers m))\<rparr>"

definition rm_ResetBreaker :: "string \<Rightarrow> rb_manager \<Rightarrow> string option \<times> rb_manager" where
  "rm_ResetBreaker key m =
     (case fmlookup (rm_breakers m) key of
        None \<Rightarrow> (Some (''circuit breaker not found: '' @ key), m)
      | Some breaker \<Rightarrow> (None, m\<lparr>rm_breakers := fmupd key (rb_Reset breaker) (rm_breakers m)\<rparr>))"

section \<open>Model: interleaved requests\<close>

record rb_sys =
  rs_cb :: redis_breaker
  rs_inflight :: "u64 list"

inductive rb_step :: "int \<Rightarrow> go_time \<Rightarrow> rb_sys \<Rightarrow> rb_sys \<Rightarrow> bool" for ovf now where
  admitted: "rb_beforeRequest now (rs_cb s) = ((g, None), cb) \<Longrightarrow>
    rb_step ovf now s (s\<lparr>rs_cb := cb, rs_inflight := g # rs_inflight s\<rparr>)"
| refused: "rb_beforeRequest now (rs_cb s) = ((g, Some err), cb) \<Longrightarrow>
    rb_step ovf now s (s\<lparr>rs_cb := cb\<rparr>)"
| reported: "g \<in> set (rs_inflight s) \<Longrightarrow>
    rb_step ovf now s (s\<lparr>rs_cb := rb_afterRequest ovf now g ok (rs_cb s),
      rs_inflight := remove1 g (rs_inflight s)\<rparr>)"

section \<open>Invariant\<close>

definition rc_ok :: "rb_config \<Rightarrow> bool" where
  "rc_ok c \<longleftrightarrow> 0 < rc_FailureThreshold c \<and> 0 < rc_SuccessThreshold c \<and> 0 < rc_Timeout c \<and>
     rc_Timeout c \<le> rc_MaxTimeout c \<and> rc_MaxTimeout c < 2 ^ 53 \<and> 1 \<le> rc_TimeoutMultiplier c \<and>
     f64_mul (of_int (rc_MaxTimeout c)) (rc_TimeoutMultiplier c) < 2 ^ 63"

definition rb_ok :: "redis_breaker \<Rightarrow> bool" where
  "rb_ok cb \<longleftrightarrow> rc_ok (rb_config cb) \<and>
     rc_Timeout (rb_config cb) \<le> rb_currentTimeout cb \<and>
     rb_currentTimeout cb \<le> rc_MaxTimeout (rb_config cb) \<and>
     (rb_state cb = Closed \<longrightarrow> rb_failures cb < rc_FailureThreshold (rb_config cb)) \<and>
     (rb_state cb = HalfOpen \<longrightarrow> rb_successes cb < rc_SuccessThreshold (rb_config cb))"

text \<open>Backing off never shortens the timeout and never passes the maximum.\<close>

lemma backoff_bounds:
  assumes "rc_ok c" "0 < t" "t \<le> rc_MaxTimeout c"
  shows "t \<le> f64_to_int64 ovf (f64_mul (f64_of_int t) (rc_TimeoutMultiplier c))"
proof -
  let ?m = "rc_TimeoutMultiplier c"
  have m: "1 \<le> ?m" and small: "\<bar>t\<bar> < 2 ^ 53" "f64_of_int t = of_int t"
    using assms by (auto simp: rc_ok_def)
  have "of_int t * 1 \<le> of_int t * ?m" using m assms(2) by (intro mult_left_mono) auto
  then have low: "of_int t \<le> f64_mul (of_int t) ?m"
    unfolding f64_mul_def using small by (intro f64_round_ge_int) auto
  have "f64_mul (of_int t) ?m \<le> f64_mul (of_int (rc_MaxTimeout c)) ?m"
    unfolding f64_mul_def using assms m by (intro f64_round_mono mult_right_mono) auto
  then have "f64_mul (of_int t) ?m < of_int (2 ^ 63)" using assms(1) by (simp add: rc_ok_def)
  then have high: "\<lfloor>f64_mul (of_int t) ?m\<rfloor> < 2 ^ 63" by (simp only: floor_less_iff)
  have floor: "t \<le> \<lfloor>f64_mul (of_int t) ?m\<rfloor>" using low by (simp add: le_floor_iff)
  have "(0::rat) \<le> of_int t" using assms(2) by simp
  then have "0 \<le> f64_mul (of_int t) ?m" using low by (rule order_trans)
  then show ?thesis using floor high assms(2) by (simp add: f64_to_int64_def small(2) Let_def)
qed

lemma rb_ok_onFailure:
  assumes "rb_ok cb" shows "rb_ok (rb_onFailure ovf now cb)"
proof (cases "rb_state cb")
  case HalfOpen
  have "rc_ok (rb_config cb)" "0 < rb_currentTimeout cb" "rb_currentTimeout cb \<le> rc_MaxTimeout (rb_config cb)"
    using assms by (auto simp: rb_ok_def rc_ok_def)
  from backoff_bounds [OF this, of ovf] show ?thesis
    using assms HalfOpen by (auto simp: rb_ok_def rb_onFailure_def Let_def)
qed (use assms in \<open>auto simp: rb_ok_def rb_onFailure_def Let_def\<close>)

lemma rb_ok_onSuccess: "rb_ok cb \<Longrightarrow> rb_ok (rb_onSuccess cb)"
  by (cases "rb_state cb") (auto simp: rb_ok_def rb_onSuccess_def Let_def rc_ok_def)

lemma rb_ok_afterRequest: "rb_ok cb \<Longrightarrow> rb_ok (rb_afterRequest ovf now g ok cb)"
  by (simp add: rb_afterRequest_def rb_ok_onFailure rb_ok_onSuccess)

lemma rb_ok_beforeRequest: "rb_ok cb \<Longrightarrow> rb_ok (snd (rb_beforeRequest now cb))"
  by (cases "rb_state cb") (auto simp: rb_ok_def rb_beforeRequest_def Let_def rc_ok_def)

lemma rb_ok_Reset: "rb_ok cb \<Longrightarrow> rb_ok (rb_Reset cb)"
  by (simp add: rb_ok_def rb_Reset_def rc_ok_def)

lemma rb_ok_New: "rc_ok c \<Longrightarrow> rb_ok (rb_New (Some c))"
  by (simp add: rb_ok_def rb_New_def rc_ok_def)

definition rs_ok :: "rb_sys \<Rightarrow> bool" where "rs_ok s \<longleftrightarrow> rb_ok (rs_cb s)"

abbreviation rs_phase :: "rb_sys \<Rightarrow> circuit_state" where "rs_phase s \<equiv> rb_state (rs_cb s)"
abbreviation rs_latest :: "rb_sys \<Rightarrow> go_time" where "rs_latest s \<equiv> rb_lastFailureTime (rs_cb s)"

definition rs_deadline :: "rb_sys \<Rightarrow> go_time" where
  "rs_deadline s = rb_lastFailureTime (rs_cb s) + rb_currentTimeout (rs_cb s)"

lemma rb_beforeRequest_cases:
  assumes "rb_beforeRequest now cb = ((g, e), cb')"
  shows "cb' = cb \<and> g = rb_generation cb \<and> (e = None \<longleftrightarrow> rb_state cb \<noteq> Open) \<or>
    (e = None \<and> rb_state cb = Open \<and> rb_currentTimeout cb < time_sub now (rb_lastFailureTime cb) \<and>
     g = rb_generation cb' \<and>
     cb' = cb\<lparr>rb_state := HalfOpen, rb_successes := 0, rb_generation := rb_generation cb + 1\<rparr>)"
  using assms by (auto simp: rb_beforeRequest_def Let_def split: circuit_state.splits if_splits)

lemma rb_afterRequest_observed:
  "legal_move (rb_state cb) (rb_state (rb_afterRequest ovf now g ok cb)) \<and>
   (rb_lastFailureTime (rb_afterRequest ovf now g ok cb) \<in> {rb_lastFailureTime cb, now}) \<and>
   (rb_state cb = Open \<longrightarrow> rb_state (rb_afterRequest ovf now g ok cb) = Open \<and>
      rb_currentTimeout (rb_afterRequest ovf now g ok cb) = rb_currentTimeout cb) \<and>
   (rb_state (rb_afterRequest ovf now g ok cb) \<noteq> rb_state cb \<longrightarrow>
      rb_generation (rb_afterRequest ovf now g ok cb) = rb_generation cb + 1)"
  by (cases "rb_state cb")
    (auto simp: rb_afterRequest_def rb_onSuccess_def rb_onFailure_def Let_def)

lemma rb_step_observed:
  assumes "rb_step ovf now s t" "rs_ok s"
  shows "legal_move (rs_phase s) (rs_phase t) \<and> rs_latest t \<in> {rs_latest s, now} \<and> rs_ok t \<and>
    (rs_phase s = Open \<longrightarrow> rs_phase t \<noteq> Open \<longrightarrow> rs_deadline s < now) \<and>
    (rs_phase s = Open \<longrightarrow> rs_phase t = Open \<longrightarrow> rb_currentTimeout (rs_cb t) = rb_currentTimeout (rs_cb s)) \<and>
    (rs_phase t \<noteq> rs_phase s \<longrightarrow> rb_generation (rs_cb t) = rb_generation (rs_cb s) + 1)"
  using assms
proof (induction rule: rb_step.induct)
  case (admitted s g cb)
  have "0 < rb_currentTimeout (rs_cb s)" "rb_currentTimeout (rs_cb s) < 2 ^ 63 - 1"
    using admitted.prems by (auto simp: rs_ok_def rb_ok_def rc_ok_def)
  then show ?case
    using rb_beforeRequest_cases [OF admitted.hyps] rb_ok_beforeRequest [of "rs_cb s" now] admitted
    by (auto simp: rs_deadline_def rs_ok_def time_sub_gt algebra_simps)
next
  case (refused s g err cb)
  then show ?case using rb_beforeRequest_cases [OF refused.hyps] by (auto simp: rs_ok_def)
next
  case (reported g s ok)
  then show ?case
    using rb_afterRequest_observed [of "rs_cb s" ovf now g ok]
    by (auto simp: rs_ok_def rb_ok_afterRequest)
qed

lemma rs_latest_step: "rb_step ovf now s t \<Longrightarrow> rs_latest s \<le> now \<Longrightarrow> rs_latest t \<le> now"
proof (induction rule: rb_step.induct)
  case (admitted s g cb)
  then show ?case using rb_beforeRequest_cases [OF admitted.hyps] by auto
next
  case (refused s g err cb)
  then show ?case using rb_beforeRequest_cases [OF refused.hyps] by auto
next
  case (reported g s ok)
  then show ?case using rb_afterRequest_observed [of "rs_cb s" ovf now g ok] by auto
qed

interpretation redis: locked_breaker "rb_step ovf" rs_phase rs_ok rs_deadline rs_latest for ovf
  by unfold_locales
    (use rb_step_observed rs_latest_step in \<open>(fastforce simp: rs_deadline_def)+\<close>)

section \<open>Properties\<close>

inductive rb_reachable :: "int \<Rightarrow> rb_config \<Rightarrow> rb_sys \<Rightarrow> bool" for ovf config where
  init: "rb_reachable ovf config \<lparr>rs_cb = rb_New (Some config), rs_inflight = []\<rparr>"
| step: "rb_reachable ovf config s \<Longrightarrow> rb_step ovf now s t \<Longrightarrow> rb_reachable ovf config t"
| reset: "rb_reachable ovf config s \<Longrightarrow> rb_reachable ovf config (s\<lparr>rs_cb := rb_Reset (rs_cb s)\<rparr>)"

lemma rb_reachable_ok: "rb_reachable ovf config s \<Longrightarrow> rc_ok config \<Longrightarrow> rs_ok s"
proof (induction rule: rb_reachable.induct)
  case init
  then show ?case by (simp add: rs_ok_def rb_ok_New)
next
  case (step s now t)
  then show ?case using rb_step_observed by blast
next
  case (reset s)
  then show ?case by (simp add: rs_ok_def rb_ok_Reset)
qed

text \<open>C19 The open timeout always stays between the configured timeout and the maximum, whatever the
  sequence of failures and recoveries, although it is multiplied in floating point; a closed breaker has
  fewer failures than trip it and a half-open one fewer successes than close it.\<close>

theorem rb_reachable_invariant:
  assumes "rb_reachable ovf config s" "rc_ok config"
  shows "rc_Timeout (rb_config (rs_cb s)) \<le> rb_currentTimeout (rs_cb s) \<and>
    rb_currentTimeout (rs_cb s) \<le> rc_MaxTimeout (rb_config (rs_cb s)) \<and>
    (case rb_state (rs_cb s) of
       Closed \<Rightarrow> rb_failures (rs_cb s) < rc_FailureThreshold (rb_config (rs_cb s))
     | HalfOpen \<Rightarrow> rb_successes (rs_cb s) < rc_SuccessThreshold (rb_config (rs_cb s))
     | Open \<Rightarrow> True)"
  using rb_reachable_ok [OF assms] by (auto simp: rs_ok_def rb_ok_def split: circuit_state.split)

lemma rc_ok_default: "rc_ok rb_DefaultConfig"
proof -
  have "f64_mul 300000000000 2 \<le> of_int 600000000000"
    unfolding f64_mul_def by (rule f64_round_le_int) simp_all
  then show ?thesis by (simp add: rc_ok_def rb_DefaultConfig_def time_units)
qed

theorem rb_reachable_invariant_witness:
  "rb_currentTimeout (rs_cb \<lparr>rs_cb = rb_New (Some rb_DefaultConfig), rs_inflight = []\<rparr>) \<le> 5 * minute"
  using rb_reachable_invariant [OF rb_reachable.init rc_ok_default]
  by (simp add: rb_New_def rb_DefaultConfig_def)



text \<open>The redis breaker honours the contract of a circuit breaker: from an open state, no
  interleaving of requests leaves the open phase before the current timeout has passed since the last
  failure.\<close>

theorem rb_open_window:
  assumes "timed_run (rb_step ovf) t0 s tr" "rs_ok s" "rb_state (rs_cb s) = Open"
    and "rb_lastFailureTime (rs_cb s) \<le> t0" "(now, u) \<in> set tr"
    and "\<And>m v. (m, v) \<in> set tr \<Longrightarrow> m \<le> rb_lastFailureTime (rs_cb s) + rb_currentTimeout (rs_cb s)"
  shows "rb_state (rs_cb u) = Open"
  using redis.contract.open_window [OF assms(1-3) TrueI assms(4) _ assms(5)] assms(6) by (auto simp: rs_deadline_def)

theorem rb_open_window_witness:
  "let s = \<lparr>rs_cb = (rb_New (Some rb_DefaultConfig))\<lparr>rb_state := Open, rb_lastFailureTime := 50\<rparr>,
            rs_inflight = []\<rparr>
   in rb_state (rs_cb s) = Open"
proof -
  define s where "s = \<lparr>rs_cb = (rb_New (Some rb_DefaultConfig))\<lparr>rb_state := Open, rb_lastFailureTime := 50\<rparr>,
    rs_inflight = []\<rparr>"
  have ok: "rs_ok s"
    using rb_ok_New [OF rc_ok_default] by (simp add: s_def rs_ok_def rb_ok_def rb_New_def)
  have "rb_beforeRequest 60 (rs_cb s) = ((0, Some ''circuit breaker is open''), rs_cb s)"
    by (simp add: s_def rb_beforeRequest_def rb_New_def rb_DefaultConfig_def time_sub_def time_units)
  from rb_step.refused [OF this, of 0] have "timed_run (rb_step 0) 55 s [(60, s)]"
    by (simp add: s_def)
  from rb_open_window [OF this ok, of 60 s] show ?thesis
    by (simp add: s_def rb_New_def rb_DefaultConfig_def time_units)
qed

end
