(* ===== verification/Rag_Breaker.thy ===== *)
theory Rag_Breaker
  imports Breaker_Spec Float64
begin

text \<open>
  The circuit breaker and the retry loop of the RAG loader
  (\<open>apps/rag-loader/internal/resilience/circuit_breaker.go\<close>).  The breaker honours the shared
  contract, but entering the half-open phase keeps the counters of the closed phase, which can
  lock it (\<open>rag_locked_out\<close>).
\<close>

section \<open>Model: the breaker\<close>

record rag_config =
  rg_MaxFailures :: int
  rg_ResetTimeout :: duration
  rg_HalfOpenMaxRequests :: int
  rg_FailureThreshold :: rat
  rg_MinimumRequestCount :: int

definition rag_DefaultConfig :: rag_config where
  "rag_DefaultConfig = \<lparr>rg_MaxFailures = 5, rg_ResetTimeout = 60 * second,
     rg_HalfOpenMaxRequests = 3, rg_FailureThreshold = f64_round (5 / 10), rg_MinimumRequestCount = 10\<rparr>"

record rag_breaker =
  ra_config :: rag_config
  ra_state :: circuit_state
  ra_failures :: int
  ra_successes :: int
  ra_requests :: int
  ra_lastAttempt :: go_time

definition rag_New :: "rag_config \<Rightarrow> rag_breaker" where
  "rag_New config =
     (let config = (if rg_MaxFailures config \<le> 0 then config\<lparr>rg_MaxFailures := 5\<rparr> else config);
          config = (if rg_ResetTimeout config \<le> 0 then config\<lparr>rg_ResetTimeout := 60 * second\<rparr> else config);
          config = (if rg_HalfOpenMaxRequests config \<le> 0 then config\<lparr>rg_HalfOpenMaxRequests := 3\<rparr> else config)
      in \<lparr>ra_config = config, ra_state = Closed, ra_failures = 0, ra_successes = 0, ra_requests = 0,
          ra_lastAttempt = 0\<rparr>)"

definition rag_setState :: "circuit_state \<Rightarrow> rag_breaker \<Rightarrow> rag_breaker" where
  "rag_setState st cb = cb\<lparr>ra_state := st\<rparr>"

definition rag_reset :: "rag_breaker \<Rightarrow> rag_breaker" where
  "rag_reset cb = cb\<lparr>ra_failures := 0, ra_successes := 0, ra_requests := 0\<rparr>"

definition rag_allow :: "go_time \<Rightarrow> rag_breaker \<Rightarrow> bool \<times> rag_breaker" where
  "rag_allow now cb =
     (case ra_state cb of
        Closed \<Rightarrow> (True, cb)
      | Open \<Rightarrow>
          if rg_ResetTimeout (ra_config cb) < time_sub now (ra_lastAttempt cb)
          then (True, rag_setState HalfOpen cb)
          else (False, cb)
      | HalfOpen \<Rightarrow> (ra_requests cb < rg_HalfOpenMaxRequests (ra_config cb), cb))"

definition rag_failureRate :: "rag_breaker \<Rightarrow> rat" where
  "rag_failureRate cb = f64_div (f64_of_int (ra_failures cb)) (f64_of_int (ra_requests cb))"

definition rag_onSuccess :: "rag_breaker \<Rightarrow> rag_breaker" where
  "rag_onSuccess cb =
     (case ra_state cb of
        HalfOpen \<Rightarrow>
          if rg_HalfOpenMaxRequests (ra_config cb) \<le> ra_successes cb
          then rag_reset (rag_setState Closed cb)
          else cb
      | Closed \<Rightarrow>
          if rg_MinimumRequestCount (ra_config cb) \<le> ra_requests cb then
            (if rag_failureRate cb < rg_FailureThreshold (ra_config cb) then rag_reset cb else cb)
          else cb
      | Open \<Rightarrow> cb)"

definition rag_onFailure :: "rag_breaker \<Rightarrow> rag_breaker" where
  "rag_onFailure cb =
     (case ra_state cb of
        HalfOpen \<Rightarrow> rag_setState Open cb
      | Closed \<Rightarrow>
          if rg_MaxFailures (ra_config cb) \<le> ra_failures cb then rag_setState Open cb
          else if rg_MinimumRequestCount (ra_config cb) \<le> ra_requests cb then
            (if rg_FailureThreshold (ra_config cb) \<le> rag_failureRate cb then rag_setState Open cb else cb)
          else cb
      | Open \<Rightarrow> cb)"

definition rag_recordResult :: "go_time \<Rightarrow> bool \<Rightarrow> rag_breaker \<Rightarrow> rag_breaker" where
  "rag_recordResult now success cb0 =
     (let cb = cb0\<lparr>ra_requests := ra_requests cb0 + 1, ra_lastAttempt := now\<rparr>
      in if success then rag_onSuccess (cb\<lparr>ra_successes := ra_successes cb + 1\<rparr>)
         else rag_onFailure (cb\<lparr>ra_failures := ra_failures cb + 1\<rparr>))"

datatype rag_error = ErrCircuitOpen | ErrFn string

text \<open>\<open>Execute\<close>: \<open>fn\<close> is the error the protected function returns, \<open>None\<close> for success.\<close>

definition rag_Execute :: "go_time \<Rightarrow> go_time \<Rightarrow> string option \<Rightarrow> rag_breaker \<Rightarrow>
    rag_error option \<times> rag_breaker" where
  "rag_Execute now now' fn cb =
     (case rag_allow now cb of
        (False, cb) \<Rightarrow> (Some ErrCircuitOpen, cb)
      | (True, cb) \<Rightarrow> (map_option ErrFn fn, rag_recordResult now' (fn = None) cb))"

section \<open>Model: interleaved calls\<close>

record rag_sys =
  rs_breaker :: rag_breaker
  rs_running :: nat

inductive rag_step :: "go_time \<Rightarrow> rag_sys \<Rightarrow> rag_sys \<Rightarrow> bool" for now where
  allowed: "rag_allow now (rs_breaker s) = (True, cb) \<Longrightarrow>
    rag_step now s (s\<lparr>rs_breaker := cb, rs_running := Suc (rs_running s)\<rparr>)"
| refused: "rag_allow now (rs_breaker s) = (False, cb) \<Longrightarrow> rag_step now s (s\<lparr>rs_breaker := cb\<rparr>)"
| recorded: "rs_running s = Suc n \<Longrightarrow>
    rag_step now s (s\<lparr>rs_breaker := rag_recordResult now ok (rs_breaker s), rs_running := n\<rparr>)"

section \<open>The breaker honours the contract\<close>

definition rg_ok :: "rag_config \<Rightarrow> bool" where
  "rg_ok c \<longleftrightarrow> 0 < rg_MaxFailures c \<and> 0 < rg_HalfOpenMaxRequests c \<and>
     0 < rg_ResetTimeout c \<and> rg_ResetTimeout c < 2 ^ 63 - 1"

definition ra_ok :: "rag_breaker \<Rightarrow> bool" where
  "ra_ok cb \<longleftrightarrow> rg_ok (ra_config cb) \<and> 0 \<le> ra_failures cb \<and> 0 \<le> ra_successes cb \<and>
     ra_requests cb = ra_failures cb + ra_successes cb \<and>
     (ra_state cb = Closed \<longrightarrow> ra_failures cb < rg_MaxFailures (ra_config cb))"

lemmas rag_defs = rag_allow_def rag_recordResult_def rag_onSuccess_def rag_onFailure_def
  rag_reset_def rag_setState_def

lemma rag_allow_cases:
  assumes "rag_allow now cb = (b, cb')"
  shows "cb' = cb \<and> (b \<longrightarrow> ra_state cb \<noteq> Open) \<or>
    b \<and> ra_state cb = Open \<and> cb' = cb\<lparr>ra_state := HalfOpen\<rparr> \<and>
     rg_ResetTimeout (ra_config cb) < time_sub now (ra_lastAttempt cb)"
  using assms by (auto simp: rag_defs split: circuit_state.splits if_splits)

lemma rag_recordResult_observed:
  "legal_move (ra_state cb) (ra_state (rag_recordResult now ok cb)) \<and>
   ra_lastAttempt (rag_recordResult now ok cb) = now \<and>
   ra_config (rag_recordResult now ok cb) = ra_config cb \<and>
   (ra_state cb = Open \<longrightarrow> ra_state (rag_recordResult now ok cb) = Open)"
  by (cases "ra_state cb") (auto simp: rag_defs Let_def)

definition rag_sys_ok :: "rag_sys \<Rightarrow> bool" where
  "rag_sys_ok s \<longleftrightarrow> rg_ok (ra_config (rs_breaker s))"

abbreviation rag_phase :: "rag_sys \<Rightarrow> circuit_state" where "rag_phase s \<equiv> ra_state (rs_breaker s)"
abbreviation rag_latest :: "rag_sys \<Rightarrow> go_time" where "rag_latest s \<equiv> ra_lastAttempt (rs_breaker s)"

definition rag_deadline :: "rag_sys \<Rightarrow> go_time" where
  "rag_deadline s = ra_lastAttempt (rs_breaker s) + rg_ResetTimeout (ra_config (rs_breaker s))"

lemma rag_step_observed:
  assumes "rag_step now s t"
  shows "ra_config (rs_breaker t) = ra_config (rs_breaker s) \<and> rag_latest t \<in> {rag_latest s, now} \<and>
    legal_move (rag_phase s) (rag_phase t) \<and>
    (rag_sys_ok s \<longrightarrow> rag_phase s = Open \<longrightarrow> rag_phase t \<noteq> Open \<longrightarrow> rag_deadline s < now)"
  using assms
proof (induction rule: rag_step.induct)
  case (allowed s cb)
  then show ?case
    using rag_allow_cases [OF allowed.hyps]
    by (auto simp: rag_deadline_def rag_sys_ok_def rg_ok_def time_sub_gt algebra_simps)
next
  case (refused s cb)
  then show ?case using rag_allow_cases [OF refused.hyps] by auto
next
  case (recorded s n ok)
  then show ?case using rag_recordResult_observed [of "rs_breaker s" now ok] by auto
qed

interpretation rag: locked_breaker rag_step rag_phase rag_sys_ok rag_deadline rag_latest
  by unfold_locales
    (use rag_step_observed in \<open>(fastforce simp: rag_deadline_def rag_sys_ok_def)+\<close>)

section \<open>Model: retries\<close>

record retry_config =
  rt_MaxRetries :: int
  rt_InitialDelay :: duration
  rt_MaxDelay :: duration
  rt_Multiplier :: rat
  rt_RetryableErrors :: "string list"

definition DefaultRetryConfig :: retry_config where
  "DefaultRetryConfig = \<lparr>rt_MaxRetries = 3, rt_InitialDelay = 1 * second, rt_MaxDelay = 30 * second,
     rt_Multiplier = 2, rt_RetryableErrors = []\<rparr>"

text \<open>\<open>is\<close> is \<open>errors.Is\<close>; the loop over the configured errors returns at the first match.\<close>

fun isRetryable_loop :: "(string \<Rightarrow> string \<Rightarrow> bool) \<Rightarrow> string \<Rightarrow> string list \<Rightarrow> bool" where
  "isRetryable_loop is err [] = False"
| "isRetryable_loop is err (r # rs) = (if is err r then True else isRetryable_loop is err rs)"

definition isRetryable :: "(string \<Rightarrow> string \<Rightarrow> bool) \<Rightarrow> string \<Rightarrow> string list \<Rightarrow> bool" where
  "isRetryable is err retryableErrors =
     (if retryableErrors = [] then True else isRetryable_loop is err retryableErrors)"

datatype retry_result =
    RetryOk
  | NonRetryable string
  | MaxRetriesExceeded "string option"
  | ContextDone string

definition next_delay :: "int \<Rightarrow> retry_config \<Rightarrow> duration \<Rightarrow> duration" where
  "next_delay ovf config delay =
     (let delay = f64_to_int64 ovf (f64_mul (f64_of_int delay) (rt_Multiplier config))
      in if rt_MaxDelay config < delay then rt_MaxDelay config else delay)"

text \<open>
  The loop: \<open>fn i\<close> is what the \<open>i\<close>-th call returns, \<open>wait i\<close> whether the context ends
  during the wait after it.  The result carries the delays slept, in order.
\<close>

function retry_loop ::
  "(string \<Rightarrow> string \<Rightarrow> bool) \<Rightarrow> int \<Rightarrow> retry_config \<Rightarrow> (int \<Rightarrow> string option) \<Rightarrow>
   (int \<Rightarrow> string option) \<Rightarrow> int \<Rightarrow> duration \<Rightarrow> string option \<Rightarrow> retry_result \<times> duration list" where
  "retry_loop is ovf config fn wait attempt delay lastErr =
     (if attempt \<le> rt_MaxRetries config then
        (case fn attempt of
           None \<Rightarrow> (RetryOk, [])
         | Some err \<Rightarrow>
             if \<not> isRetryable is err (rt_RetryableErrors config) then (NonRetryable err, [])
             else if attempt = rt_MaxRetries config then (MaxRetriesExceeded (Some err), [])
             else (case wait attempt of
                None \<Rightarrow>
                  (let (r, ds) = retry_loop is ovf config fn wait (attempt + 1)
                         (next_delay ovf config delay) (Some err)
                   in (r, delay # ds))
              | Some e \<Rightarrow> (ContextDone e, [])))
      else (MaxRetriesExceeded lastErr, []))"
  by pat_completeness auto
termination
  by (relation "measure (\<lambda>(is, ovf, config, fn, wait, attempt, delay, lastErr).
        nat (rt_MaxRetries config + 1 - attempt))") auto

declare retry_loop.simps [simp del]

definition RetryWithBackoff ::
  "(string \<Rightarrow> string \<Rightarrow> bool) \<Rightarrow> int \<Rightarrow> retry_config \<Rightarrow>
   (int \<Rightarrow> string option) \<Rightarrow> (int \<Rightarrow> string option) \<Rightarrow> retry_result \<times> duration list" where
  "RetryWithBackoff is ovf config fn wait =
     retry_loop is ovf config fn wait 0 (rt_InitialDelay config) None"

section \<open>Lemmas\<close>

lemma ra_ok_recordResult: "ra_ok cb \<Longrightarrow> ra_ok (rag_recordResult now ok cb)"
  by (cases "ra_state cb") (auto simp: ra_ok_def rag_defs Let_def rg_ok_def)

lemma ra_ok_allow: "ra_ok cb \<Longrightarrow> ra_ok (snd (rag_allow now cb))"
  by (cases "ra_state cb") (auto simp: ra_ok_def rag_defs)

fun rag_calls :: "(go_time \<times> go_time \<times> string option) list \<Rightarrow> rag_breaker \<Rightarrow>
    rag_error option list \<times> rag_breaker" where
  "rag_calls [] cb = ([], cb)"
| "rag_calls ((now, now', fn) # xs) cb =
     (let (r, cb) = rag_Execute now now' fn cb; (rs, cb) = rag_calls xs cb in (r # rs, cb))"

lemma rag_exhausted:
  assumes "ra_state cb = HalfOpen" "rg_HalfOpenMaxRequests (ra_config cb) \<le> ra_requests cb"
  shows "rag_calls xs cb = (map (\<lambda>_. Some ErrCircuitOpen) xs, cb)"
proof (induction xs)
  case (Cons x xs)
  then show ?case using assms by (cases x) (simp add: rag_Execute_def rag_allow_def)
qed simp

section \<open>Properties\<close>

text \<open>The loader's breaker can lock itself out for good: when it opened with at least
  \<open>HalfOpenMaxRequests - 1\<close> requests counted and too few successes, the first probe after the
  reset timeout is let through, and although it succeeds every later call, at whatever instant, is
  refused with \<open>ErrCircuitOpen\<close> and changes nothing.\<close>

theorem rag_locked_out:
  assumes "ra_state cb = Open" "rg_ResetTimeout (ra_config cb) < time_sub now (ra_lastAttempt cb)"
    and "ra_successes cb + 1 < rg_HalfOpenMaxRequests (ra_config cb)"
    and "rg_HalfOpenMaxRequests (ra_config cb) \<le> ra_requests cb + 1"
  shows "fst (rag_Execute now now' None cb) = None \<and>
    rag_calls xs (snd (rag_Execute now now' None cb)) =
      (map (\<lambda>_. Some ErrCircuitOpen) xs, snd (rag_Execute now now' None cb))"
proof -
  let ?cb = "cb\<lparr>ra_state := HalfOpen, ra_requests := ra_requests cb + 1, ra_lastAttempt := now',
    ra_successes := ra_successes cb + 1\<rparr>"
  have "rag_Execute now now' None cb = (None, ?cb)"
    using assms by (simp add: rag_Execute_def rag_defs Let_def)
  then show ?thesis using assms rag_exhausted [of ?cb xs] by simp
qed

text \<open>With the default configuration five failures in a row are enough.\<close>

theorem rag_locked_out_witness:
  "let cb = snd (rag_calls [(0, 0, Some ''down''), (0, 0, Some ''down''), (0, 0, Some ''down''),
         (0, 0, Some ''down''), (0, 0, Some ''down'')] (rag_New rag_DefaultConfig));
       cb = snd (rag_Execute (61 * second) (61 * second) None cb)
   in rag_calls [(10 ^ 20, 10 ^ 20, None)] cb = ([Some ErrCircuitOpen], cb)"
proof -
  define cb where "cb = snd (rag_calls [(0, 0, Some ''down''), (0, 0, Some ''down''), (0, 0, Some ''down''),
         (0, 0, Some ''down''), (0, 0, Some ''down'')] (rag_New rag_DefaultConfig))"
  have cb: "cb = \<lparr>ra_config = rag_DefaultConfig, ra_state = Open, ra_failures = 5, ra_successes = 0,
      ra_requests = 5, ra_lastAttempt = 0\<rparr>"
    by (simp add: cb_def rag_Execute_def rag_defs rag_New_def rag_DefaultConfig_def time_units)
  show ?thesis
    unfolding Let_def cb_def [symmetric]
    using rag_locked_out [of cb "61 * second" "61 * second" "[(10 ^ 20, 10 ^ 20, None)]"]
    by (simp add: cb rag_DefaultConfig_def time_units time_sub_def)
qed

section \<open>Lemmas: retries\<close>

lemma next_delay_le: "next_delay ovf config delay \<le> rt_MaxDelay config"
  by (auto simp: next_delay_def Let_def)

lemma retry_loop_delays:
  assumes "retry_loop is ovf config fn wait attempt delay lastErr = (r, ds)"
    and "delay \<le> max (rt_InitialDelay config) (rt_MaxDelay config)"
  shows "length ds \<le> nat (rt_MaxRetries config - attempt) \<and>
    (\<forall>d \<in> set ds. d \<le> max (rt_InitialDelay config) (rt_MaxDelay config))"
  using assms
proof (induction "is" ovf config fn wait attempt delay lastErr arbitrary: r ds rule: retry_loop.induct)
  case (1 "is" ovf config fn wait attempt delay lastErr)
  show ?case
  proof (cases "\<exists>err. attempt < rt_MaxRetries config \<and> fn attempt = Some err \<and>
      isRetryable is err (rt_RetryableErrors config) \<and> wait attempt = None")
    case True
    then obtain err where c: "attempt < rt_MaxRetries config" "fn attempt = Some err"
      "isRetryable is err (rt_RetryableErrors config)" "wait attempt = None" by blast
    obtain r' ds' where rec: "retry_loop is ovf config fn wait (attempt + 1)
        (next_delay ovf config delay) (Some err) = (r', ds')" by (metis surj_pair)
    have "next_delay ovf config delay \<le> max (rt_InitialDelay config) (rt_MaxDelay config)"
      using next_delay_le [of ovf config delay] by simp
    from "1.IH" [OF _ c(2) _ _ c(4) rec this] c
    have IH: "length ds' \<le> nat (rt_MaxRetries config - (attempt + 1))"
      "\<forall>d \<in> set ds'. d \<le> max (rt_InitialDelay config) (rt_MaxDelay config)" by auto
    have "ds = delay # ds'"
      using "1.prems"(1) c rec by (subst (asm) retry_loop.simps) simp
    then show ?thesis using IH "1.prems"(2) c(1) by auto
  next
    case False
    then have "ds = []"
      using "1.prems"(1)
      by (subst (asm) retry_loop.simps) (auto split: if_splits option.splits)
    then show ?thesis by simp
  qed
qed

lemma retry_loop_outcome:
  assumes "rt_RetryableErrors config = []" "\<And>i. wait i = None"
  shows "fst (retry_loop is ovf config fn wait attempt delay lastErr) = RetryOk \<longleftrightarrow>
    (\<exists>i. attempt \<le> i \<and> i \<le> rt_MaxRetries config \<and> fn i = None)"
  using assms
proof (induction "is" ovf config fn wait attempt delay lastErr rule: retry_loop.induct)
  case (1 "is" ovf config fn wait attempt delay lastErr)
  have retry: "isRetryable is err (rt_RetryableErrors config)" for err
    using "1.prems"(1) by (simp add: isRetryable_def)
  have later: "(\<exists>i. attempt \<le> i \<and> i \<le> rt_MaxRetries config \<and> fn i = None) \<longleftrightarrow>
      (\<exists>i. attempt + 1 \<le> i \<and> i \<le> rt_MaxRetries config \<and> fn i = None)" if "fn attempt = Some err" for err
    by (metis add1_zle_eq order_le_less option.distinct(1) that)
  show ?case
  proof (cases "attempt < rt_MaxRetries config")
    case less: True
    show ?thesis
    proof (cases "fn attempt")
      case None
      then show ?thesis using less by (subst retry_loop.simps) auto
    next
      case (Some err)
      have "fst (retry_loop is ovf config fn wait attempt delay lastErr) =
          fst (retry_loop is ovf config fn wait (attempt + 1) (next_delay ovf config delay) (Some err))"
        using less Some retry "1.prems"(2) [of attempt]
        by (subst retry_loop.simps) (simp split: prod.split)
      then show ?thesis
        using "1.IH" [OF _ Some _ _ "1.prems"(2) "1.prems"] less retry later [OF Some] by simp
    qed
  next
    case False
    then show ?thesis
      using retry by (subst retry_loop.simps) (auto split: option.split)
  qed
qed

text \<open>Exponential backoff: the retry loop ends, sleeps at most \<open>MaxRetries\<close> times, and every
  delay it sleeps is at most the larger of the initial and the maximal delay.\<close>

theorem RetryWithBackoff_delays:
  "length (snd (RetryWithBackoff is ovf config fn wait)) \<le> nat (rt_MaxRetries config) \<and>
   list_all (\<lambda>d. d \<le> max (rt_InitialDelay config) (rt_MaxDelay config))
     (snd (RetryWithBackoff is ovf config fn wait))"
  using retry_loop_delays [of "is" ovf config fn wait 0 "rt_InitialDelay config" None]
  by (cases "RetryWithBackoff is ovf config fn wait") (auto simp: RetryWithBackoff_def list_all_iff)

text \<open>C33 When no error is singled out as retryable and the context stays alive, the retry loop
  succeeds exactly when one of the first \<open>MaxRetries + 1\<close> calls succeeds.\<close>

theorem RetryWithBackoff_outcome:
  assumes "rt_RetryableErrors config = []" "\<And>i. wait i = None"
  shows "fst (RetryWithBackoff is ovf config fn wait) = RetryOk \<longleftrightarrow>
    (\<exists>i. 0 \<le> i \<and> i \<le> rt_MaxRetries config \<and> fn i = None)"
  unfolding RetryWithBackoff_def by (rule retry_loop_outcome [OF assms])

theorem RetryWithBackoff_outcome_witness:
  "fst (RetryWithBackoff (=) 0 DefaultRetryConfig
     (\<lambda>i. if i < 2 then Some ''busy'' else None) (\<lambda>_. None)) = RetryOk"
  by (subst RetryWithBackoff_outcome) (auto simp: DefaultRetryConfig_def intro!: exI [of _ 2])

end
