(* ===== verification/Rate_Limiter.thy ===== *)
theory Rate_Limiter
  imports Prelude Float64
begin

text \<open>
  The token bucket of \<open>pkg/resilience/rate_limiter.go\<close> and \<open>rate_limiter_methods.go\<close>.
  The refill is computed in floating point and truncated; \<open>ovf\<close> is the value of the
  conversion of an infinity or an out-of-range float to \<open>int\<close>.
\<close>

section \<open>Model\<close>

record rl_config =
  rl_Limit :: int
  rl_Period :: duration
  rl_BurstFactor :: int

record rate_limiter =
  rl_name :: string
  rl_config :: rl_config
  rl_tokens :: int
  rl_lastRefill :: go_time

definition NewRateLimiter :: "go_time \<Rightarrow> string \<Rightarrow> rl_config \<Rightarrow> rate_limiter" where
  "NewRateLimiter now name config =
     \<lparr>rl_name = name, rl_config = config, rl_tokens = rl_Limit config, rl_lastRefill = now\<rparr>"

text \<open>\<open>Duration.Seconds\<close>: whole seconds plus the fraction, in floating point.\<close>

definition dur_Seconds :: "duration \<Rightarrow> rat" where
  "dur_Seconds d =
     (let sec = sgn d * (\<bar>d\<bar> div second); nsec = d - sec * second
      in f64_add (f64_of_int sec) (f64_div (f64_of_int nsec) (f64_of_int second)))"

text \<open>Go's \<open>int\<close> addition wraps at 64 bits.\<close>

definition int64_add :: "int \<Rightarrow> int \<Rightarrow> int" where
  "int64_add a b = sint (word_of_int (a + b) :: u64)"

definition rl_tokensToAdd :: "int \<Rightarrow> duration \<Rightarrow> rl_config \<Rightarrow> int" where
  "rl_tokensToAdd ovf elapsed c =
     (if dur_Seconds (rl_Period c) = 0 then ovf
      else f64_to_int64 ovf
        (f64_div (f64_mul (dur_Seconds elapsed) (f64_of_int (rl_Limit c))) (dur_Seconds (rl_Period c))))"

definition rl_Allow :: "int \<Rightarrow> go_time \<Rightarrow> rate_limiter \<Rightarrow> bool \<times> rate_limiter" where
  "rl_Allow ovf now r0 =
     (let elapsed = time_sub now (rl_lastRefill r0);
          r = (if 0 < elapsed then
                 (let tokensToAdd = rl_tokensToAdd ovf elapsed (rl_config r0)
                  in if 0 < tokensToAdd
                     then r0\<lparr>rl_tokens := min (int64_add (rl_tokens r0) tokensToAdd) (rl_Limit (rl_config r0)),
                             rl_lastRefill := now\<rparr>
                     else r0)
               else r0)
      in if 0 < rl_tokens r then (True, r\<lparr>rl_tokens := rl_tokens r - 1\<rparr>) else (False, r))"

type_synonym rl_manager = "(string, rate_limiter) fmap"

definition NewRateLimiterManager :: "go_time \<Rightarrow> (string, rl_config) fmap \<Rightarrow> rl_manager" where
  "NewRateLimiterManager now defaultConfigs =
     foldl (\<lambda>m (name, config). fmupd name (NewRateLimiter now name config) m) fmempty
       (go_range defaultConfigs)"

definition rlm_GetRateLimiter :: "go_time \<Rightarrow> string \<Rightarrow> rl_manager \<Rightarrow> rate_limiter \<times> rl_manager" where
  "rlm_GetRateLimiter now name m =
     (case fmlookup m name of
        Some limiter \<Rightarrow> (limiter, m)
      | None \<Rightarrow>
          let limiter = NewRateLimiter now name \<lparr>rl_Limit = 100, rl_Period = minute, rl_BurstFactor = 3\<rparr>
          in (limiter, fmupd name limiter m))"

section \<open>Bounds\<close>

definition rl_ok :: "rate_limiter \<Rightarrow> bool" where
  "rl_ok r \<longleftrightarrow> 0 \<le> rl_tokens r \<and> rl_tokens r \<le> rl_Limit (rl_config r) \<and>
     rl_Limit (rl_config r) \<le> 2 ^ 20 \<and> second \<le> rl_Period (rl_config r)"

lemma f64_round_le_pow2: "x \<le> 2 ^ k \<Longrightarrow> f64_round x \<le> 2 ^ k"
proof -
  assume le: "x \<le> 2 ^ k"
  show ?thesis
  proof (cases "0 < x")
    case True
    have "\<not> int k < ilog2 x"
    proof
      assume "int k < ilog2 x"
      then have "(2::rat) powi int k < 2 powi ilog2 x" by (rule powi_less)
      also have "\<dots> \<le> x" using ilog2_bounds [OF True] by simp
      finally show False using le by simp
    qed
    then have "f64_exponent x \<le> int k" using True by (simp add: f64_exponent_def)
    from round_grid(1) [OF this, of 1] show ?thesis using True le by simp
  next
    case False
    then have "f64_round x \<le> 0" using f64_round_mono [of x 0] by simp
    then show ?thesis by (rule order_trans) simp
  qed
qed

lemma dur_Seconds_bounds:
  assumes "0 \<le> d" "d < 2 ^ 63"
  shows "of_int (d div second) \<le> dur_Seconds d" "dur_Seconds d \<le> of_int (d div second) + 1"
proof -
  let ?s = "d div second" and ?n = "d mod second"
  have s: "0 \<le> ?s" "?s < 2 ^ 34" and n: "0 \<le> ?n" "?n < second"
    using assms by (auto simp: time_units)
  have sgn: "sgn d * (\<bar>d\<bar> div second) = ?s" "d - ?s * second = ?n"
    using assms by (auto simp: sgn_if minus_div_mult_eq_mod)
  have eqs: "f64_of_int ?s = of_int ?s" "f64_of_int ?n = of_int ?n" "f64_of_int second = of_int second"
    using s n by (auto intro!: f64_of_int_exact simp: time_units)
  let ?f = "f64_div (of_int ?n) (of_int second)"
  have "of_int 0 \<le> ?f" unfolding f64_div_def
    using n by (intro f64_round_ge_int) (auto simp: time_units)
  moreover have "?f \<le> of_int 1" unfolding f64_div_def
    using n by (intro f64_round_le_int) (auto simp: time_units)
  moreover have eq: "dur_Seconds d = f64_round (of_int ?s + ?f)"
    by (simp add: dur_Seconds_def Let_def sgn eqs f64_add_def)
  ultimately show "of_int ?s \<le> dur_Seconds d" "dur_Seconds d \<le> of_int ?s + 1"
    using s f64_round_ge_int [of ?s "of_int ?s + ?f"] f64_round_le_int [of "?s + 1" "of_int ?s + ?f"]
    by (auto simp: eq)
qed

lemma rl_tokensToAdd_le:
  assumes "rl_ok r" "0 < elapsed" "elapsed < 2 ^ 63" "rl_Period (rl_config r) < 2 ^ 63"
  shows "0 \<le> rl_tokensToAdd ovf elapsed (rl_config r)" "rl_tokensToAdd ovf elapsed (rl_config r) \<le> 2 ^ 54"
proof -
  let ?c = "rl_config r" let ?e = "dur_Seconds elapsed" let ?p = "dur_Seconds (rl_Period ?c)"
  have L: "0 \<le> rl_Limit ?c" "rl_Limit ?c \<le> 2 ^ 20" and P: "second \<le> rl_Period ?c"
    using assms(1) by (auto simp: rl_ok_def)
  have "1 \<le> rl_Period ?c div second" using P by (simp add: time_units)
  then have "(1::rat) \<le> of_int (rl_Period ?c div second)" by simp
  then have p: "1 \<le> ?p"
    using dur_Seconds_bounds(1) [of "rl_Period ?c"] P assms(4) by (simp add: time_units)
  have "elapsed div second + 1 \<le> 2 ^ 34" using assms(3) by (simp add: time_units)
  then have "of_int (elapsed div second + 1) \<le> (of_int (2 ^ 34) :: rat)" by (simp only: of_int_le_iff)
  moreover have "(0::rat) \<le> of_int (elapsed div second)" using assms(2) by (simp add: time_units)
  ultimately have e: "0 \<le> ?e" "?e \<le> 2 ^ 34"
    using dur_Seconds_bounds [of elapsed] assms(2,3) by auto
  have l: "f64_of_int (rl_Limit ?c) = of_int (rl_Limit ?c)" using L by simp
  have "(of_int (rl_Limit ?c) :: rat) \<le> of_int (2 ^ 20)" using L(2) by (simp only: of_int_le_iff)
  then have "?e * of_int (rl_Limit ?c) \<le> 2 ^ 34 * 2 ^ 20" using e L(1) by (intro mult_mono) auto
  then have m: "f64_mul ?e (of_int (rl_Limit ?c)) \<le> 2 ^ 54"
    unfolding f64_mul_def by (intro f64_round_le_pow2) simp
  have m0: "0 \<le> f64_mul ?e (of_int (rl_Limit ?c))"
    unfolding f64_mul_def using e L by (intro f64_round_nonneg) simp
  define x where "x = f64_div (f64_mul ?e (of_int (rl_Limit ?c))) ?p"
  have "f64_mul ?e (of_int (rl_Limit ?c)) / ?p \<le> f64_mul ?e (of_int (rl_Limit ?c)) / 1"
    using m0 p by (intro divide_left_mono) auto
  then have hi: "x \<le> of_int (2 ^ 54)"
    unfolding x_def f64_div_def using m by (simp add: f64_round_le_pow2 [of _ 54, simplified])
  have lo: "0 \<le> x" unfolding x_def f64_div_def using m0 p by (intro f64_round_nonneg) simp
  have fl: "0 \<le> \<lfloor>x\<rfloor>" "\<lfloor>x\<rfloor> \<le> 2 ^ 54"
    using lo floor_mono [OF hi] by auto
  then have "rl_tokensToAdd ovf elapsed ?c = \<lfloor>x\<rfloor>"
    using p lo by (simp add: rl_tokensToAdd_def l f64_to_int64_def Let_def flip: x_def)
  with fl show "0 \<le> rl_tokensToAdd ovf elapsed ?c" "rl_tokensToAdd ovf elapsed ?c \<le> 2 ^ 54" by auto
qed

lemma int64_add_exact: "- (2 ^ 63) \<le> a + b \<Longrightarrow> a + b < 2 ^ 63 \<Longrightarrow> int64_add a b = a + b"
  unfolding int64_add_def by (subst sint_sbintrunc') (auto intro: signed_take_bit_int_eq_self)

section \<open>Properties\<close>

text \<open>The bucket never holds more than \<open>Limit\<close> tokens nor fewer than none, in spite of the
  floating-point refill: every call of \<open>Allow\<close>, at whatever instant, keeps the token count within
  the limit, for limits up to \<open>2 ^ 20\<close> and periods of a second or more.\<close>

theorem rl_Allow_invariant:
  assumes "rl_ok r" "rl_Period (rl_config r) < 2 ^ 63"
  shows "rl_ok (snd (rl_Allow ovf now r)) \<and> rl_config (snd (rl_Allow ovf now r)) = rl_config r"
proof -
  let ?e = "time_sub now (rl_lastRefill r)"
  let ?k = "rl_tokensToAdd ovf ?e (rl_config r)"
  have "int64_add (rl_tokens r) ?k = rl_tokens r + ?k" if "0 < ?e"
    using rl_tokensToAdd_le [OF assms(1) that time_sub_bounds(2) assms(2), of ovf] assms(1)
    by (intro int64_add_exact) (auto simp: rl_ok_def)
  then show ?thesis
    using assms(1) by (auto simp: rl_Allow_def rl_ok_def Let_def)
qed

theorem rl_Allow_invariant_witness:
  "rl_ok (snd (rl_Allow 0 (90 * second)
     (NewRateLimiter 0 ''api'' \<lparr>rl_Limit = 100, rl_Period = minute, rl_BurstFactor = 3\<rparr>)))"
proof -
  let ?r = "NewRateLimiter 0 ''api'' \<lparr>rl_Limit = 100, rl_Period = minute, rl_BurstFactor = 3\<rparr>"
  have "rl_ok ?r" "rl_Period (rl_config ?r) < 2 ^ 63"
    by (simp_all add: rl_ok_def NewRateLimiter_def time_units)
  from rl_Allow_invariant [OF this, of 0 "90 * second"] show ?thesis by simp
qed

fun rl_calls :: "int \<Rightarrow> go_time list \<Rightarrow> rate_limiter \<Rightarrow> bool list \<times> rate_limiter" where
  "rl_calls ovf [] r = ([], r)"
| "rl_calls ovf (now # ts) r =
     (let (b, r) = rl_Allow ovf now r; (bs, r) = rl_calls ovf ts r in (b # bs, r))"

lemma rl_Allow_no_time:
  "now \<le> rl_lastRefill r \<Longrightarrow> rl_Allow ovf now r =
     (if 0 < rl_tokens r then (True, r\<lparr>rl_tokens := rl_tokens r - 1\<rparr>) else (False, r))"
proof -
  assume "now \<le> rl_lastRefill r"
  then have "\<not> 0 < time_sub now (rl_lastRefill r)" by (auto simp: time_sub_def)
  then show ?thesis by (simp add: rl_Allow_def)
qed

text \<open>A burst of calls before the bucket is refilled is granted exactly as long as tokens last:
  of \<open>n\<close> calls the first \<open>tokens\<close> are allowed and the rest refused.  The configured
  \<open>BurstFactor\<close> plays no part.\<close>

theorem rl_burst:
  assumes "0 \<le> rl_tokens r" "\<And>t. t \<in> set ts \<Longrightarrow> t \<le> rl_lastRefill r"
  shows "fst (rl_calls ovf ts r) = map (\<lambda>i. int i < rl_tokens r) [0..<length ts]"
  using assms
proof (induction ts arbitrary: r)
  case Nil
  then show ?case by simp
next
  case (Cons t ts)
  have split: "[0..<length (t # ts)] = 0 # map Suc [0..<length ts]"
    by (simp only: list.size add_Suc_right add_0_right upt_conv_Cons [OF zero_less_Suc] map_Suc_upt)
  show ?case
  proof (cases "0 < rl_tokens r")
    case True
    let ?r = "r\<lparr>rl_tokens := rl_tokens r - 1\<rparr>"
    have "fst (rl_calls ovf ts ?r) = map (\<lambda>i. int i < rl_tokens ?r) [0..<length ts]"
      using Cons.prems True by (intro Cons.IH) auto
    then show ?thesis
      unfolding split using True Cons.prems(2) [of t]
      by (auto simp: rl_Allow_no_time split: prod.split)
  next
    case False
    have "fst (rl_calls ovf ts r) = map (\<lambda>i. int i < rl_tokens r) [0..<length ts]"
      using Cons.prems by (intro Cons.IH) auto
    then show ?thesis
      unfolding split using False Cons.prems
      by (auto simp: rl_Allow_no_time split: prod.split)
  qed
qed

theorem rl_burst_witness:
  "fst (rl_calls 0 [7, 7, 7] (NewRateLimiter 7 ''api'' \<lparr>rl_Limit = 2, rl_Period = minute, rl_BurstFactor = 3\<rparr>))
     = [True, True, False]"
proof -
  let ?r = "NewRateLimiter 7 ''api'' \<lparr>rl_Limit = 2, rl_Period = minute, rl_BurstFactor = 3\<rparr>"
  have "fst (rl_calls 0 [7, 7, 7] ?r) = map (\<lambda>i. int i < rl_tokens ?r) [0..<length [7, 7, 7::int]]"
    by (rule rl_burst) (auto simp: NewRateLimiter_def)
  then show ?thesis by (simp add: NewRateLimiter_def upt_rec)
qed

end
