(* ===== verification/Bulkhead.thy ===== *)
theory Bulkhead
  imports Rate_Limiter
begin

text \<open>
  The bulkhead of \<open>pkg/resilience/bulkhead.go\<close>: a semaphore channel bounds the concurrent
  operations, a buffered queue holds the overflow and a processor goroutine moves queued
  operations to the semaphore.  The atomic actions of \<open>Execute\<close>, \<open>executeWithResource\<close>,
  \<open>handleResourceUnavailable\<close> and \<open>processQueue\<close> are definitions of their own, and
  \<open>bh_step\<close> interleaves them.  A channel is its buffer: the semaphore the number of tokens in
  it, the queue the list of operations, oldest first.
\<close>

section \<open>Model\<close>

datatype bh_error =
    ErrBulkheadFull
  | ErrBulkheadQueueFull
  | ErrBulkheadTimeout
  | ErrBulkheadContextCanceled
  | ErrBulkheadClosed
  | ErrRateLimited string
  | ErrAlreadyClosed
  | ContextErr string

record bh_config =
  bc_MaxConcurrentCalls :: int
  bc_MaxQueueDepth :: int
  bc_QueueTimeout :: duration
  bc_RateLimitConfig :: "rl_config option"
  bc_EnableBackpressure :: bool

record 'op bulkhead =
  bh_name :: string
  bh_config :: bh_config
  bh_semaphore :: nat
  bh_queue :: "'op list"
  bh_rateLimiter :: "rate_limiter option"
  bh_activeRequests :: int
  bh_queuedRequests :: int
  bh_totalRequests :: int
  bh_rejectedRequests :: int
  bh_completedRequests :: int
  bh_timedOutRequests :: int
  bh_closed :: bool

definition NewBulkhead :: "go_time \<Rightarrow> string \<Rightarrow> bh_config \<Rightarrow> 'op bulkhead" where
  "NewBulkhead now name config0 =
     (let config = (if bc_MaxConcurrentCalls config0 \<le> 0
                    then config0\<lparr>bc_MaxConcurrentCalls := 10\<rparr> else config0);
          config = (if bc_MaxQueueDepth config < 0 then config\<lparr>bc_MaxQueueDepth := 0\<rparr> else config);
          config = (if bc_QueueTimeout config \<le> 0 then config\<lparr>bc_QueueTimeout := 30 * second\<rparr> else config)
      in \<lparr>bh_name = name, bh_config = config, bh_semaphore = 0, bh_queue = [],
          bh_rateLimiter = map_option (NewRateLimiter now name) (bc_RateLimitConfig config),
          bh_activeRequests = 0, bh_queuedRequests = 0, bh_totalRequests = 0, bh_rejectedRequests = 0,
          bh_completedRequests = 0, bh_timedOutRequests = 0, bh_closed = False\<rparr>)"

text \<open>How \<open>Execute\<close> continues after its first, non-blocking part.\<close>

datatype bh_next = Refused bh_error | RunNow | Queue

definition bh_handleResourceUnavailable :: "'op bulkhead \<Rightarrow> bh_next \<times> 'op bulkhead" where
  "bh_handleResourceUnavailable b =
     (if bc_MaxQueueDepth (bh_config b) = 0
      then (Refused ErrBulkheadFull, b\<lparr>bh_rejectedRequests := bh_rejectedRequests b + 1\<rparr>)
      else (Queue, b))"

definition bh_Execute :: "int \<Rightarrow> go_time \<Rightarrow> 'op bulkhead \<Rightarrow> bh_next \<times> 'op bulkhead" where
  "bh_Execute ovf now b0 =
     (if bh_closed b0 then (Refused ErrBulkheadClosed, b0)
      else
        let b = b0\<lparr>bh_totalRequests := bh_totalRequests b0 + 1\<rparr>;
            (allowed, b) = (case bh_rateLimiter b of
                None \<Rightarrow> (True, b)
              | Some rl \<Rightarrow> (let (a, rl) = rl_Allow ovf now rl in (a, b\<lparr>bh_rateLimiter := Some rl\<rparr>)))
        in if \<not> allowed
           then (Refused (ErrRateLimited (bh_name b)), b\<lparr>bh_rejectedRequests := bh_rejectedRequests b + 1\<rparr>)
           else if int (bh_semaphore b) < bc_MaxConcurrentCalls (bh_config b)
           then (RunNow, b\<lparr>bh_semaphore := bh_semaphore b + 1\<rparr>)
           else bh_handleResourceUnavailable b)"

text \<open>
  Sending on the queue.  \<open>ctxDone\<close> says that the \<open>select\<close> takes the case of the ended context,
  which only the variant without back-pressure has.  A send on the closed queue panics; on a full
  queue, back-pressure refuses at once and the other variant waits.
\<close>

definition bh_enqueue :: "bool \<Rightarrow> 'op \<Rightarrow> 'op bulkhead \<Rightarrow> (bh_error, 'op bulkhead) outcome" where
  "bh_enqueue ctxDone op b =
     (if \<not> bc_EnableBackpressure (bh_config b) \<and> ctxDone
      then Failed ErrBulkheadContextCanceled (b\<lparr>bh_rejectedRequests := bh_rejectedRequests b + 1\<rparr>)
      else if bh_closed b then Panicked
      else if int (length (bh_queue b)) < bc_MaxQueueDepth (bh_config b)
      then Returned (b\<lparr>bh_queue := bh_queue b @ [op]\<rparr>)
      else if bc_EnableBackpressure (bh_config b)
      then Failed ErrBulkheadQueueFull (b\<lparr>bh_rejectedRequests := bh_rejectedRequests b + 1\<rparr>)
      else Blocked)"

definition bh_count_queued :: "int \<Rightarrow> 'op bulkhead \<Rightarrow> 'op bulkhead" where
  "bh_count_queued d b = b\<lparr>bh_queuedRequests := bh_queuedRequests b + d\<rparr>"

definition bh_count_active :: "int \<Rightarrow> 'op bulkhead \<Rightarrow> 'op bulkhead" where
  "bh_count_active d b = b\<lparr>bh_activeRequests := bh_activeRequests b + d\<rparr>"

definition bh_complete :: "'op bulkhead \<Rightarrow> 'op bulkhead" where
  "bh_complete b = b\<lparr>bh_completedRequests := bh_completedRequests b + 1\<rparr>"

definition bh_release :: "'op bulkhead \<Rightarrow> 'op bulkhead" where
  "bh_release b = b\<lparr>bh_semaphore := bh_semaphore b - 1\<rparr>"

text \<open>
  The waiter's \<open>select\<close> after queueing, when no result has come: the timeout (\<open>None\<close>) or the end
  of the context with its error.
\<close>

definition bh_wait_over :: "string option \<Rightarrow> 'op bulkhead \<Rightarrow> bh_error \<times> 'op bulkhead" where
  "bh_wait_over ctxErr b =
     (case ctxErr of
        None \<Rightarrow> (ErrBulkheadTimeout, b\<lparr>bh_timedOutRequests := bh_timedOutRequests b + 1\<rparr>)
      | Some err \<Rightarrow> (ContextErr err, b\<lparr>bh_rejectedRequests := bh_rejectedRequests b + 1\<rparr>))"

definition bh_process_acquire :: "'op bulkhead \<Rightarrow> 'op bulkhead option" where
  "bh_process_acquire b =
     (if int (bh_semaphore b) < bc_MaxConcurrentCalls (bh_config b)
      then Some (b\<lparr>bh_semaphore := bh_semaphore b + 1\<rparr>) else None)"

definition bh_process_cancel :: "'op bulkhead \<Rightarrow> 'op bulkhead" where
  "bh_process_cancel b = b\<lparr>bh_queuedRequests := bh_queuedRequests b - 1,
     bh_rejectedRequests := bh_rejectedRequests b + 1\<rparr>"

definition bh_Close :: "'op bulkhead \<Rightarrow> bh_error option \<times> 'op bulkhead" where
  "bh_Close b = (if bh_closed b then (Some ErrAlreadyClosed, b\<lparr>bh_closed := True\<rparr>)
     else (None, b\<lparr>bh_closed := True\<rparr>))"

record bh_stats =
  bs_Name :: string
  bs_ActiveRequests :: int
  bs_QueuedRequests :: int
  bs_TotalRequests :: int
  bs_RejectedRequests :: int
  bs_CompletedRequests :: int
  bs_TimedOutRequests :: int
  bs_MaxConcurrent :: int
  bs_MaxQueueDepth :: int

definition bh_GetStats :: "'op bulkhead \<Rightarrow> bh_stats" where
  "bh_GetStats b =
     \<lparr>bs_Name = bh_name b, bs_ActiveRequests = bh_activeRequests b,
      bs_QueuedRequests = bh_queuedRequests b, bs_TotalRequests = bh_totalRequests b,
      bs_RejectedRequests = bh_rejectedRequests b, bs_CompletedRequests = bh_completedRequests b,
      bs_TimedOutRequests = bh_timedOutRequests b,
      bs_MaxConcurrent = bc_MaxConcurrentCalls (bh_config b),
      bs_MaxQueueDepth = bc_MaxQueueDepth (bh_config b)\<rparr>"

record 'op bh_manager =
  bm_bulkheads :: "(string, 'op bulkhead) fmap"
  bm_configs :: "(string, bh_config) fmap"

definition NewBulkheadManager :: "go_time \<Rightarrow> (string, bh_config) fmap \<Rightarrow> 'op bh_manager" where
  "NewBulkheadManager now defaultConfigs =
     foldl (\<lambda>m (name, config).
         m\<lparr>bm_configs := fmupd name config (bm_configs m),
           bm_bulkheads := fmupd name (NewBulkhead now name config) (bm_bulkheads m)\<rparr>)
       \<lparr>bm_bulkheads = fmempty, bm_configs = fmempty\<rparr> (go_range defaultConfigs)"

definition bm_GetBulkhead :: "go_time \<Rightarrow> string \<Rightarrow> 'op bh_manager \<Rightarrow> 'op bulkhead \<times> 'op bh_manager" where
  "bm_GetBulkhead now name m =
     (case fmlookup (bm_bulkheads m) name of
        Some bulkhead \<Rightarrow> (bulkhead, m)
      | None \<Rightarrow>
          let config = (case fmlookup (bm_configs m) name of
                Some config \<Rightarrow> config
              | None \<Rightarrow> \<lparr>bc_MaxConcurrentCalls = 10, bc_MaxQueueDepth = 100,
                   bc_QueueTimeout = 30 * second, bc_RateLimitConfig = None, bc_EnableBackpressure = True\<rparr>);
              bulkhead = NewBulkhead now name config
          in (bulkhead, m\<lparr>bm_bulkheads := fmupd name bulkhead (bm_bulkheads m)\<rparr>))"

text \<open>The manager holds pointers: what a call changes in a bulkhead is written back to its map.\<close>

definition bm_Execute :: "int \<Rightarrow> go_time \<Rightarrow> string \<Rightarrow> 'op bh_manager \<Rightarrow> bh_next \<times> 'op bh_manager" where
  "bm_Execute ovf now bulkheadName m0 =
     (let (bulkhead, m) = bm_GetBulkhead now bulkheadName m0;
          (next, bulkhead) = bh_Execute ovf now bulkhead
      in (next, m\<lparr>bm_bulkheads := fmupd bulkheadName bulkhead (bm_bulkheads m)\<rparr>))"

definition bm_GetAllStats :: "'op bh_manager \<Rightarrow> (string, bh_stats) fmap" where
  "bm_GetAllStats m =
     foldl (\<lambda>stats (name, bulkhead). fmupd name (bh_GetStats bulkhead) stats) fmempty (go_range (bm_bulkheads m))"

text \<open>The errors of \<open>Close\<close>, each with the name of its bulkhead; the empty list is \<open>nil\<close>.\<close>

definition bm_Close :: "'op bh_manager \<Rightarrow> (string \<times> bh_error) list \<times> 'op bh_manager" where
  "bm_Close m0 =
     foldl (\<lambda>(errs, m) (name, bulkhead).
         let (err, bulkhead) = bh_Close bulkhead
         in (case err of None \<Rightarrow> errs | Some e \<Rightarrow> errs @ [(name, e)],
             m\<lparr>bm_bulkheads := fmupd name bulkhead (bm_bulkheads m)\<rparr>))
       ([], m0) (go_range (bm_bulkheads m0))"

definition DefaultBulkheadConfigs :: "(string, bh_config) fmap" where
  "DefaultBulkheadConfigs =
     (let config = (\<lambda>calls depth timeout limit.
            \<lparr>bc_MaxConcurrentCalls = calls, bc_MaxQueueDepth = depth, bc_QueueTimeout = timeout * second,
             bc_RateLimitConfig = limit, bc_EnableBackpressure = True\<rparr>);
          limit = (\<lambda>n burst. Some \<lparr>rl_Limit = n, rl_Period = minute, rl_BurstFactor = burst\<rparr>)
      in fmap_of_list
           [(''github_api'', config 50 200 60 (limit 100 2)),
            (''harness_api'', config 30 100 45 (limit 50 2)),
            (''database'', config 100 500 10 None),
            (''cache'', config 200 1000 5 None),
            (''agent_execution'', config 20 50 120 (limit 30 1)),
            (''workflow_execution'', config 15 30 180 (limit 20 1))])"

section \<open>Model: interleaved calls\<close>

text \<open>
  The goroutines by where they are: \<open>queueing\<close> calls are about to send on the queue,
  \<open>sent\<close> ones have sent but not counted themselves, \<open>holding\<close> goroutines hold a token
  and have not counted themselves active, \<open>running\<close> ones run the operation,
  \<open>finishing\<close> ones have completed but still hold the token, \<open>released\<close> ones have given the
  token back and not yet counted themselves out.  The processor holds at most one operation
  taken off the queue (\<open>proc\<close>), and has \<open>started\<close> operations whose queue count it has still
  to lower.  The first part of \<open>Execute\<close>, which never waits, is one step.  A call whose send on
  the closed queue panics has no step: the panic ends the program.
\<close>

record 'op bh_sys =
  bs_b :: "'op bulkhead"
  bs_queueing :: nat
  bs_sent :: nat
  bs_waiting :: nat
  bs_proc :: "'op option"
  bs_started :: nat
  bs_holding :: nat
  bs_running :: nat
  bs_finishing :: nat
  bs_released :: nat

inductive bh_step :: "'op bh_sys \<Rightarrow> 'op bh_sys \<Rightarrow> bool" where
  refuse: "bh_Execute ovf now (bs_b s) = (Refused e, b) \<Longrightarrow> bh_step s (s\<lparr>bs_b := b\<rparr>)"
| run_now: "bh_Execute ovf now (bs_b s) = (RunNow, b) \<Longrightarrow>
    bh_step s (s\<lparr>bs_b := b, bs_holding := Suc (bs_holding s)\<rparr>)"
| queue: "bh_Execute ovf now (bs_b s) = (Queue, b) \<Longrightarrow>
    bh_step s (s\<lparr>bs_b := b, bs_queueing := Suc (bs_queueing s)\<rparr>)"
| send: "bs_queueing s = Suc n \<Longrightarrow> bh_enqueue ctxDone op (bs_b s) = Returned b \<Longrightarrow>
    bh_step s (s\<lparr>bs_b := b, bs_queueing := n, bs_sent := Suc (bs_sent s)\<rparr>)"
| send_refused: "bs_queueing s = Suc n \<Longrightarrow> bh_enqueue ctxDone op (bs_b s) = Failed e b \<Longrightarrow>
    bh_step s (s\<lparr>bs_b := b, bs_queueing := n\<rparr>)"
| sent_counted: "bs_sent s = Suc n \<Longrightarrow>
    bh_step s (s\<lparr>bs_b := bh_count_queued 1 (bs_b s), bs_sent := n, bs_waiting := Suc (bs_waiting s)\<rparr>)"
| wait_over: "bs_waiting s = Suc n \<Longrightarrow>
    bh_step s (s\<lparr>bs_b := snd (bh_wait_over ctxErr (bs_b s)), bs_waiting := n\<rparr>)"
| wait_done: "bs_waiting s = Suc n \<Longrightarrow> bh_step s (s\<lparr>bs_waiting := n\<rparr>)"
| take_op: "bs_proc s = None \<Longrightarrow> bs_started s = 0 \<Longrightarrow> bh_queue (bs_b s) = op # ops \<Longrightarrow>
    bh_step s (s\<lparr>bs_b := (bs_b s)\<lparr>bh_queue := ops\<rparr>, bs_proc := Some op\<rparr>)"
| acquire: "bs_proc s = Some op \<Longrightarrow> bh_process_acquire (bs_b s) = Some b \<Longrightarrow>
    bh_step s (s\<lparr>bs_b := b, bs_proc := None, bs_started := Suc (bs_started s)\<rparr>)"
| start_op: "bs_started s = Suc n \<Longrightarrow>
    bh_step s (s\<lparr>bs_b := bh_count_queued (- 1) (bs_b s), bs_started := n, bs_holding := Suc (bs_holding s)\<rparr>)"
| cancel: "bs_proc s = Some op \<Longrightarrow>
    bh_step s (s\<lparr>bs_b := bh_process_cancel (bs_b s), bs_proc := None\<rparr>)"
| begin_op: "bs_holding s = Suc n \<Longrightarrow>
    bh_step s (s\<lparr>bs_b := bh_count_active 1 (bs_b s), bs_holding := n, bs_running := Suc (bs_running s)\<rparr>)"
| finish: "bs_running s = Suc n \<Longrightarrow>
    bh_step s (s\<lparr>bs_b := bh_complete (bs_b s), bs_running := n, bs_finishing := Suc (bs_finishing s)\<rparr>)"
| release: "bs_finishing s = Suc n \<Longrightarrow>
    bh_step s (s\<lparr>bs_b := bh_release (bs_b s), bs_finishing := n, bs_released := Suc (bs_released s)\<rparr>)"
| count_out: "bs_released s = Suc n \<Longrightarrow>
    bh_step s (s\<lparr>bs_b := bh_count_active (- 1) (bs_b s), bs_released := n\<rparr>)"
| close: "bh_step s (s\<lparr>bs_b := snd (bh_Close (bs_b s))\<rparr>)"

definition bh_init :: "go_time \<Rightarrow> string \<Rightarrow> bh_config \<Rightarrow> 'op bh_sys" where
  "bh_init now name config =
     \<lparr>bs_b = NewBulkhead now name config, bs_queueing = 0, bs_sent = 0, bs_waiting = 0, bs_proc = None,
      bs_started = 0, bs_holding = 0, bs_running = 0, bs_finishing = 0, bs_released = 0\<rparr>"

inductive bh_reachable :: "go_time \<Rightarrow> string \<Rightarrow> bh_config \<Rightarrow> 'op bh_sys \<Rightarrow> bool" for now name config where
  init: "bh_reachable now name config (bh_init now name config)"
| step: "bh_reachable now name config s \<Longrightarrow> bh_step s t \<Longrightarrow> bh_reachable now name config t"

section \<open>Invariant\<close>

definition bh_ok :: "'op bh_sys \<Rightarrow> bool" where
  "bh_ok s \<longleftrightarrow>
     bh_semaphore (bs_b s) = bs_started s + bs_holding s + bs_running s + bs_finishing s \<and>
     int (bh_semaphore (bs_b s)) \<le> bc_MaxConcurrentCalls (bh_config (bs_b s)) \<and>
     int (length (bh_queue (bs_b s))) \<le> bc_MaxQueueDepth (bh_config (bs_b s)) \<and>
     bh_activeRequests (bs_b s) = int (bs_running s + bs_finishing s + bs_released s) \<and>
     bh_queuedRequests (bs_b s) + int (bs_sent s) =
       int (length (bh_queue (bs_b s))) + (if bs_proc s = None then 0 else 1) + int (bs_started s)"

lemma bh_ok_init: "bh_ok (bh_init now name config)"
  by (auto simp: bh_ok_def bh_init_def NewBulkhead_def Let_def)

lemma bh_Execute_cases:
  assumes "bh_Execute ovf now b = (x, b')"
  shows "bh_config b' = bh_config b \<and> bh_queue b' = bh_queue b \<and>
    bh_activeRequests b' = bh_activeRequests b \<and> bh_queuedRequests b' = bh_queuedRequests b \<and>
    (if x = RunNow then bh_semaphore b' = Suc (bh_semaphore b) \<and>
        int (bh_semaphore b) < bc_MaxConcurrentCalls (bh_config b)
     else bh_semaphore b' = bh_semaphore b)"
  using assms
  by (auto simp: bh_Execute_def bh_handleResourceUnavailable_def Let_def
      split: if_splits option.splits prod.splits)

lemma bh_ok_step: "bh_step s t \<Longrightarrow> bh_ok s \<Longrightarrow> bh_ok t"
proof (induction rule: bh_step.induct)
  case (refuse ovf now s e b)
  then show ?case using bh_Execute_cases [OF refuse.hyps] by (simp add: bh_ok_def)
next
  case (run_now ovf now s b)
  then show ?case using bh_Execute_cases [OF run_now.hyps] by (simp add: bh_ok_def)
next
  case (queue ovf now s b)
  then show ?case using bh_Execute_cases [OF queue.hyps] by (simp add: bh_ok_def)
next
  case (send s n ctxDone op b)
  then show ?case by (auto simp: bh_ok_def bh_enqueue_def split: if_splits)
next
  case (send_refused s n ctxDone op e b)
  then show ?case by (auto simp: bh_ok_def bh_enqueue_def split: if_splits)
next
  case (acquire s op b)
  then show ?case by (auto simp: bh_ok_def bh_process_acquire_def split: if_splits)
qed (auto simp: bh_ok_def bh_count_queued_def bh_count_active_def bh_complete_def bh_release_def
    bh_wait_over_def bh_process_cancel_def bh_Close_def split: option.splits)

lemma bh_reachable_ok: "bh_reachable now name config s \<Longrightarrow> bh_ok s"
  by (induction rule: bh_reachable.induct) (auto intro: bh_ok_init bh_ok_step)

section \<open>Properties\<close>

text \<open>C21 The bulkhead isolates: in every state that any interleaving of calls, the queue processor and
  \<open>Close\<close> can reach, at most \<open>MaxConcurrentCalls\<close> operations run at the same time and at
  most \<open>MaxQueueDepth\<close> are queued; the semaphore holds exactly one token for each operation
  between acquiring and releasing it, and \<open>QueuedRequests\<close> counts the queued operations up to the
  callers that have not counted themselves yet.\<close>

theorem bh_isolation:
  assumes "bh_reachable now name config s"
  shows "int (bs_running s) \<le> bc_MaxConcurrentCalls (bh_config (bs_b s)) \<and>
    int (length (bh_queue (bs_b s))) \<le> bc_MaxQueueDepth (bh_config (bs_b s)) \<and>
    bh_semaphore (bs_b s) = bs_started s + bs_holding s + bs_running s + bs_finishing s \<and>
    bh_queuedRequests (bs_b s) + int (bs_sent s) =
      int (length (bh_queue (bs_b s))) + (if bs_proc s = None then 0 else 1) + int (bs_started s)"
  using bh_reachable_ok [OF assms] by (auto simp: bh_ok_def)

theorem bh_isolation_witness:
  "int (bs_running (bh_init 0 ''db'' \<lparr>bc_MaxConcurrentCalls = 2, bc_MaxQueueDepth = 1,
     bc_QueueTimeout = 1, bc_RateLimitConfig = None, bc_EnableBackpressure = True\<rparr> :: nat bh_sys)) \<le> 2"
  using bh_isolation [OF bh_reachable.init [of 0 "''db''" "\<lparr>bc_MaxConcurrentCalls = 2, bc_MaxQueueDepth = 1,
     bc_QueueTimeout = 1, bc_RateLimitConfig = None, bc_EnableBackpressure = True\<rparr>"]]
  by (simp add: bh_init_def NewBulkhead_def)

definition tiny_config :: bh_config where
  "tiny_config = \<lparr>bc_MaxConcurrentCalls = 1, bc_MaxQueueDepth = 1, bc_QueueTimeout = 1,
     bc_RateLimitConfig = None, bc_EnableBackpressure = True\<rparr>"

text \<open>\<open>Close\<close> races with \<open>Execute\<close>: a call can pass the closed check, find the
  semaphore full and be about to send on the queue when \<open>Close\<close> closes it, and sending on a
  closed channel panics.\<close>

theorem bh_send_after_close:
  "\<exists>s :: nat bh_sys. bh_reachable 0 ''db'' tiny_config s \<and> 0 < bs_queueing s \<and>
     (\<forall>ctxDone op. bh_enqueue ctxDone op (bs_b s) = Panicked)"
proof -
  define a :: "nat bh_sys" where "a = bh_init 0 ''db'' tiny_config"
  define b where "b = a\<lparr>bs_b := (bs_b a)\<lparr>bh_totalRequests := 1, bh_semaphore := 1\<rparr>, bs_holding := 1\<rparr>"
  define c where "c = b\<lparr>bs_b := (bs_b b)\<lparr>bh_totalRequests := 2\<rparr>, bs_queueing := 1\<rparr>"
  note defs = bh_init_def NewBulkhead_def tiny_config_def bh_Execute_def
    bh_handleResourceUnavailable_def Let_def
  note R = bh_reachable.step [where now = 0 and name = "''db''" and config = tiny_config]
  have "bh_reachable 0 ''db'' tiny_config a" unfolding a_def by (rule bh_reachable.init)
  from R [OF this bh_step.run_now [of 0 0 a "bs_b b"]]
  have "bh_reachable 0 ''db'' tiny_config b" by (simp add: a_def b_def defs)
  from R [OF this bh_step.queue [of 0 0 b "bs_b c"]]
  have "bh_reachable 0 ''db'' tiny_config c" by (simp add: a_def b_def c_def defs)
  from R [OF this bh_step.close]
  have "bh_reachable 0 ''db'' tiny_config (c\<lparr>bs_b := snd (bh_Close (bs_b c))\<rparr>)" .
  moreover have "bh_enqueue ctxDone op (snd (bh_Close (bs_b c))) = Panicked" "bs_queueing c = 1" for ctxDone op
    by (simp_all add: bh_enqueue_def bh_Close_def a_def b_def c_def defs)
  ultimately show ?thesis
    by (intro exI [of _ "c\<lparr>bs_b := snd (bh_Close (bs_b c))\<rparr>"]) simp
qed

end
