(* ===== verification/Binary_Protocol.thy ===== *)
theory Binary_Protocol
  imports Prelude
begin

text \<open>
  The binary WebSocket header (\<open>pkg/models/websocket/binary.go\<close>): 24 bytes, big-endian.  A
  reader is the list of bytes it still has to deliver and a writer the bytes written so far.
\<close>

unbundle bit_operations_syntax

section \<open>Model: big-endian integers\<close>

definition be_Uint16 :: "u8 \<Rightarrow> u8 \<Rightarrow> u16" where
  "be_Uint16 b0 b1 = ucast b1 OR push_bit 8 (ucast b0)"

definition be_Uint32 :: "u8 \<Rightarrow> u8 \<Rightarrow> u8 \<Rightarrow> u8 \<Rightarrow> u32" where
  "be_Uint32 b0 b1 b2 b3 =
     ucast b3 OR push_bit 8 (ucast b2) OR push_bit 16 (ucast b1) OR push_bit 24 (ucast b0)"

definition be_Uint64 :: "u8 \<Rightarrow> u8 \<Rightarrow> u8 \<Rightarrow> u8 \<Rightarrow> u8 \<Rightarrow> u8 \<Rightarrow> u8 \<Rightarrow> u8 \<Rightarrow> u64" where
  "be_Uint64 b0 b1 b2 b3 b4 b5 b6 b7 =
     ucast b7 OR push_bit 8 (ucast b6) OR push_bit 16 (ucast b5) OR push_bit 24 (ucast b4) OR
     push_bit 32 (ucast b3) OR push_bit 40 (ucast b2) OR push_bit 48 (ucast b1) OR push_bit 56 (ucast b0)"

definition be_PutUint16 :: "u16 \<Rightarrow> u8 list" where
  "be_PutUint16 v = [ucast (drop_bit 8 v), ucast v]"

definition be_PutUint32 :: "u32 \<Rightarrow> u8 list" where
  "be_PutUint32 v = [ucast (drop_bit 24 v), ucast (drop_bit 16 v), ucast (drop_bit 8 v), ucast v]"

definition be_PutUint64 :: "u64 \<Rightarrow> u8 list" where
  "be_PutUint64 v = [ucast (drop_bit 56 v), ucast (drop_bit 48 v), ucast (drop_bit 40 v),
     ucast (drop_bit 32 v), ucast (drop_bit 24 v), ucast (drop_bit 16 v), ucast (drop_bit 8 v), ucast v]"

section \<open>Model: the header\<close>

record binary_header =
  hd_Magic :: u32
  hd_Version :: u8
  hd_Type :: u8
  hd_Flags :: u16
  hd_SequenceID :: u64
  hd_Method :: u16
  hd_Reserved :: u16
  hd_DataSize :: u32

definition MagicNumber :: u32 where "MagicNumber = 0x4D435057"

definition FlagCompressed :: u16 where "FlagCompressed = push_bit 0 1"
definition FlagEncrypted :: u16 where "FlagEncrypted = push_bit 1 1"
definition FlagBatch :: u16 where "FlagBatch = push_bit 2 1"

datatype header_error =
    ErrEOF
  | ErrUnexpectedEOF
  | ErrInvalidMagic
  | ErrUnsupportedVersion
  | ErrPayloadTooLarge

text \<open>\<open>io.ReadFull\<close>: the first \<open>n\<close> bytes and the rest, or an error that consumes what there was.\<close>

definition ReadFull :: "nat \<Rightarrow> u8 list \<Rightarrow> (header_error + u8 list) \<times> u8 list" where
  "ReadFull n r =
     (if n \<le> length r then (Inr (take n r), drop n r)
      else if r = [] then (Inl ErrEOF, [])
      else (Inl ErrUnexpectedEOF, []))"

definition decode_header :: "u8 list \<Rightarrow> binary_header" where
  "decode_header buf =
     \<lparr>hd_Magic = be_Uint32 (buf ! 0) (buf ! 1) (buf ! 2) (buf ! 3),
      hd_Version = buf ! 4,
      hd_Type = buf ! 5,
      hd_Flags = be_Uint16 (buf ! 6) (buf ! 7),
      hd_SequenceID = be_Uint64 (buf ! 8) (buf ! 9) (buf ! 10) (buf ! 11) (buf ! 12) (buf ! 13)
        (buf ! 14) (buf ! 15),
      hd_Method = be_Uint16 (buf ! 16) (buf ! 17),
      hd_Reserved = be_Uint16 (buf ! 18) (buf ! 19),
      hd_DataSize = be_Uint32 (buf ! 20) (buf ! 21) (buf ! 22) (buf ! 23)\<rparr>"

definition ParseBinaryHeader :: "u8 list \<Rightarrow> (header_error + binary_header) \<times> u8 list" where
  "ParseBinaryHeader r =
     (case ReadFull 24 r of
        (Inl err, r) \<Rightarrow> (Inl err, r)
      | (Inr buf, r) \<Rightarrow>
          let header = decode_header buf
          in if hd_Magic header \<noteq> MagicNumber then (Inl ErrInvalidMagic, r)
             else if hd_Version header \<noteq> 1 then (Inl ErrUnsupportedVersion, r)
             else if 1024 * 1024 < hd_DataSize header then (Inl ErrPayloadTooLarge, r)
             else (Inr header, r))"

definition encode_header :: "binary_header \<Rightarrow> u8 list" where
  "encode_header h =
     be_PutUint32 (hd_Magic h) @ [hd_Version h] @ [hd_Type h] @ be_PutUint16 (hd_Flags h) @
     be_PutUint64 (hd_SequenceID h) @ be_PutUint16 (hd_Method h) @ be_PutUint16 (hd_Reserved h) @
     be_PutUint32 (hd_DataSize h)"

definition WriteBinaryHeader :: "u8 list \<Rightarrow> binary_header \<Rightarrow> u8 list" where
  "WriteBinaryHeader w h = w @ encode_header h"

definition hd_IsCompressed :: "binary_header \<Rightarrow> bool" where
  "hd_IsCompressed h \<longleftrightarrow> hd_Flags h AND FlagCompressed \<noteq> 0"

definition hd_IsEncrypted :: "binary_header \<Rightarrow> bool" where
  "hd_IsEncrypted h \<longleftrightarrow> hd_Flags h AND FlagEncrypted \<noteq> 0"

definition hd_IsBatch :: "binary_header \<Rightarrow> bool" where
  "hd_IsBatch h \<longleftrightarrow> hd_Flags h AND FlagBatch \<noteq> 0"

definition hd_SetFlag :: "u16 \<Rightarrow> binary_header \<Rightarrow> binary_header" where
  "hd_SetFlag flag h = h\<lparr>hd_Flags := hd_Flags h OR flag\<rparr>"

definition hd_ClearFlag :: "u16 \<Rightarrow> binary_header \<Rightarrow> binary_header" where
  "hd_ClearFlag flag h = h\<lparr>hd_Flags := hd_Flags h AND NOT flag\<rparr>"

definition MethodToString :: "u16 \<Rightarrow> string" where
  "MethodToString method =
     (if method = 1 then ''initialize''
      else if method = 2 then ''tool.list''
      else if method = 3 then ''tool.execute''
      else if method = 4 then ''context.get''
      else if method = 5 then ''context.update''
      else if method = 6 then ''event.subscribe''
      else if method = 7 then ''event.unsubscribe''
      else if method = 8 then ''ping''
      else if method = 9 then ''pong''
      else ''unknown'')"

definition StringToMethod :: "string \<Rightarrow> u16" where
  "StringToMethod method =
     (if method = ''initialize'' then 1
      else if method = ''tool.list'' then 2
      else if method = ''tool.execute'' then 3
      else if method = ''context.get'' then 4
      else if method = ''context.update'' then 5
      else if method = ''event.subscribe'' then 6
      else if method = ''event.unsubscribe'' then 7
      else if method = ''ping'' then 8
      else if method = ''pong'' then 9
      else 0)"

section \<open>Bytes and integers\<close>

lemma byte_out: "8 \<le> k \<Longrightarrow> \<not> bit (b :: u8) (k + n)"
  using bit_imp_le_length [of b "k + n"] by auto

lemma byte_low:
  fixes v :: "'a::len word"
  shows "bit (ucast (ucast v :: u8) :: 'a word) n \<longleftrightarrow> n < 8 \<and> bit v n"
  using bit_imp_le_length [of v n] by (auto simp: bit_simps)

lemma byte_at:
  fixes v :: "'a::len word"
  shows "bit (push_bit k (ucast (ucast (drop_bit k v) :: u8)) :: 'a word) n \<longleftrightarrow>
    k \<le> n \<and> n < k + 8 \<and> bit v n"
  using bit_imp_le_length [of v n] by (auto simp: bit_simps)

lemma be_16: "be_Uint16 (ucast (drop_bit 8 v)) (ucast v) = v"
  by (rule bit_word_eqI) (auto simp: be_Uint16_def bit_or_iff byte_low byte_at)

lemma be_32: "be_Uint32 (ucast (drop_bit 24 v)) (ucast (drop_bit 16 v)) (ucast (drop_bit 8 v)) (ucast v) = v"
proof (rule bit_word_eqI)
  fix n assume "n < LENGTH(32)"
  then have "n < 8 \<or> 8 \<le> n \<and> n < 16 \<or> 16 \<le> n \<and> n < 24 \<or> 24 \<le> n \<and> n < 32" by simp arith
  then show "bit (be_Uint32 (ucast (drop_bit 24 v)) (ucast (drop_bit 16 v)) (ucast (drop_bit 8 v))
      (ucast v)) n = bit v n"
    by (auto simp: be_Uint32_def bit_or_iff byte_low byte_at)
qed

lemma be_64: "be_Uint64 (ucast (drop_bit 56 v)) (ucast (drop_bit 48 v)) (ucast (drop_bit 40 v))
    (ucast (drop_bit 32 v)) (ucast (drop_bit 24 v)) (ucast (drop_bit 16 v)) (ucast (drop_bit 8 v)) (ucast v) = v"
proof (rule bit_word_eqI)
  fix n assume "n < LENGTH(64)"
  then have "n < 8 \<or> 8 \<le> n \<and> n < 16 \<or> 16 \<le> n \<and> n < 24 \<or> 24 \<le> n \<and> n < 32 \<or> 32 \<le> n \<and> n < 40 \<or>
      40 \<le> n \<and> n < 48 \<or> 48 \<le> n \<and> n < 56 \<or> 56 \<le> n \<and> n < 64" by simp arith
  then show "bit (be_Uint64 (ucast (drop_bit 56 v)) (ucast (drop_bit 48 v)) (ucast (drop_bit 40 v))
    (ucast (drop_bit 32 v)) (ucast (drop_bit 24 v)) (ucast (drop_bit 16 v)) (ucast (drop_bit 8 v)) (ucast v)) n
      = bit v n"
    by (auto simp: be_Uint64_def bit_or_iff byte_low byte_at)
qed

lemma be_put_16: "be_PutUint16 (be_Uint16 b0 b1) = [b0, b1]"
  by (auto simp: be_PutUint16_def be_Uint16_def bit_simps byte_out intro!: bit_word_eqI)

lemma be_put_32: "be_PutUint32 (be_Uint32 b0 b1 b2 b3) = [b0, b1, b2, b3]"
  by (auto simp: be_PutUint32_def be_Uint32_def bit_simps byte_out intro!: bit_word_eqI)

lemma be_put_64: "be_PutUint64 (be_Uint64 b0 b1 b2 b3 b4 b5 b6 b7) = [b0, b1, b2, b3, b4, b5, b6, b7]"
  by (auto simp: be_PutUint64_def be_Uint64_def bit_simps byte_out intro!: bit_word_eqI)

lemmas be_put_defs = be_PutUint16_def be_PutUint32_def be_PutUint64_def

lemma encode_header_length: "length (encode_header h) = 24"
  by (simp add: encode_header_def be_put_defs)

lemma decode_encode: "decode_header (encode_header h) = h"
  by (cases h) (simp add: decode_header_def encode_header_def be_put_defs be_16 be_32 be_64)

lemma list24:
  assumes "length xs = 24"
  obtains a0 a1 a2 a3 a4 a5 a6 a7 a8 a9 a10 a11 a12 a13 a14 a15 a16 a17 a18 a19 a20 a21 a22 a23 where
    "xs = [a0, a1, a2, a3, a4, a5, a6, a7, a8, a9, a10, a11, a12, a13, a14, a15, a16, a17, a18, a19, a20,
      a21, a22, a23]"
  using assms by (auto simp: length_Suc_conv eval_nat_numeral)

lemma encode_decode: "length buf = 24 \<Longrightarrow> encode_header (decode_header buf) = buf"
  by (erule list24) (simp add: decode_header_def encode_header_def be_put_16 be_put_32 be_put_64)

section \<open>Properties\<close>

text \<open>C26 Round trip of the header: what \<open>WriteBinaryHeader\<close> appends,
  \<open>ParseBinaryHeader\<close> reads back unchanged for every header with the magic number, version 1 and a payload of at most one
  megabyte, and leaves the rest of the stream untouched.\<close>

theorem header_round_trip:
  assumes "hd_Magic h = MagicNumber" "hd_Version h = 1" "hd_DataSize h \<le> 1024 * 1024"
  shows "ParseBinaryHeader (WriteBinaryHeader [] h @ rest) = (Inr h, rest)"
  using assms
  by (simp add: ParseBinaryHeader_def WriteBinaryHeader_def ReadFull_def encode_header_length
      decode_encode Let_def not_less)

theorem header_round_trip_witness:
  "let h = \<lparr>hd_Magic = MagicNumber, hd_Version = 1, hd_Type = 3, hd_Flags = 5, hd_SequenceID = 123456789,
            hd_Method = 8, hd_Reserved = 0, hd_DataSize = 1048576\<rparr>
   in ParseBinaryHeader (WriteBinaryHeader [] h @ [7]) = (Inr h, [7])"
  unfolding Let_def by (rule header_round_trip) simp_all


text \<open>Method names and numbers correspond: \<open>StringToMethod\<close> undoes \<open>MethodToString\<close> on
  the nine methods and yields 0 for every other number; the name of a number that is not a method is
  \<open>unknown\<close>.\<close>

theorem method_names:
  "StringToMethod (MethodToString m) = (if 1 \<le> m \<and> m \<le> 9 then m else 0) \<and>
   (StringToMethod s = 0 \<or> MethodToString (StringToMethod s) = s)"
proof -
  have "m \<in> {1, 2, 3, 4, 5, 6, 7, 8, 9}" if "1 \<le> m" "m \<le> 9"
  proof -
    have "1 \<le> unat m" "unat m \<le> 9" using that by (simp_all add: word_le_nat_alt)
    then have "unat m \<in> {1, 2, 3, 4, 5, 6, 7, 8, 9}" by auto
    then have "of_nat (unat m) \<in> (of_nat ` {1, 2, 3, 4, 5, 6, 7, 8, 9} :: u16 set)" by (rule imageI)
    then show ?thesis by simp
  qed
  then show ?thesis by (auto simp: StringToMethod_def MethodToString_def)
qed

end
