(* ===== verification/Status_Spec.thy ===== *)
theory Status_Spec
  imports Prelude
begin

text \<open>
  The contract of the status types of \<open>pkg/models\<close>: a transition table, the statuses it
  knows and the terminal ones.  Clients rely on three laws: transitions stay within the known
  statuses, a terminal status has no successor, and every other status has one.
\<close>

section \<open>Transition tables\<close>

type_synonym status = string
type_synonym transitions = "(status, status list) fmap"

text \<open>The loop shared by the \<open>CanTransitionTo\<close> methods.\<close>

fun range_contains :: "status list \<Rightarrow> status \<Rightarrow> bool" where
  "range_contains [] target = False"
| "range_contains (v # vs) target = (if v = target then True else range_contains vs target)"

lemma range_contains_set [simp]: "range_contains vs t \<longleftrightarrow> t \<in> set vs"
  by (induction vs) auto

definition table_CanTransitionTo :: "transitions \<Rightarrow> status \<Rightarrow> status \<Rightarrow> bool" where
  "table_CanTransitionTo table s target =
     (case fmlookup table s of None \<Rightarrow> False | Some validTargets \<Rightarrow> range_contains validTargets target)"

lemma table_live: "(\<exists>t. table_CanTransitionTo table s t) \<longleftrightarrow> fmget [] table s \<noteq> []"
  by (auto simp: table_CanTransitionTo_def fmget_def split: option.splits)
    (metis list.set_intros(1) neq_Nil_conv)

section \<open>The contract\<close>

locale status_machine =
  fixes can :: "status \<Rightarrow> status \<Rightarrow> bool"
    and known :: "status set"
    and terminal :: "status \<Rightarrow> bool"
  assumes can_known: "can s t \<Longrightarrow> s \<in> known \<and> t \<in> known"
    and terminal_known: "terminal s \<Longrightarrow> s \<in> known"
    and live: "s \<in> known \<Longrightarrow> terminal s \<longleftrightarrow> \<not> (\<exists>t. can s t)"
begin

lemma terminal_absorbing: "can\<^sup>*\<^sup>* s t \<Longrightarrow> terminal s \<Longrightarrow> t = s"
  by (induction rule: rtranclp_induct) (use live terminal_known in blast)+

lemma known_closed: "can\<^sup>*\<^sup>* s t \<Longrightarrow> s \<in> known \<Longrightarrow> t \<in> known"
  by (induction rule: rtranclp_induct) (use can_known in blast)+

lemma progress: "s \<in> known \<Longrightarrow> \<not> terminal s \<Longrightarrow> \<exists>t \<in> known. can s t"
  using live can_known by blast

end

end
