(* ===== verification/Status_Machines.thy ===== *)
theory Status_Machines
  imports Status_Spec Float64
begin

text \<open>
  The status types of \<open>pkg/models\<close>: agents (\<open>agent_status.go\<close>), workflows and workflow
  steps (\<open>workflow_status_complete.go\<close>), each an interpretation of \<open>status_machine\<close>, and
  the completion rules of distributed tasks (\<open>distributed_task_complete.go\<close>).  A Go string type
  is a \<open>string\<close>; metrics calls are left out.
\<close>

section \<open>Model: agents\<close>

definition validAgentTransitions :: transitions where
  "validAgentTransitions = fmap_of_list
     [(''offline'', [''starting'']),
      (''starting'', [''active'', ''error'']),
      (''active'', [''draining'', ''maintenance'', ''error'', ''stopping'']),
      (''draining'', [''inactive'', ''error'']),
      (''inactive'', [''active'', ''maintenance'', ''stopping'']),
      (''maintenance'', [''active'', ''inactive'', ''stopping'']),
      (''error'', [''stopping'', ''maintenance'']),
      (''stopping'', [''offline''])]"

definition agent_CanTransitionTo :: "status \<Rightarrow> status \<Rightarrow> bool" where
  "agent_CanTransitionTo s target = table_CanTransitionTo validAgentTransitions s target"

definition invalid_transition :: "status \<Rightarrow> status \<Rightarrow> string" where
  "invalid_transition s target = ''invalid transition from '' @ s @ '' to '' @ target"

definition agent_TransitionTo :: "status \<Rightarrow> status \<Rightarrow> status \<times> string option" where
  "agent_TransitionTo s target =
     (if \<not> agent_CanTransitionTo s target then (s, Some (invalid_transition s target))
      else (target, None))"

definition agent_Validate :: "status \<Rightarrow> string option" where
  "agent_Validate s =
     (if s \<in> {''active'', ''inactive'', ''maintenance'', ''draining'', ''error'', ''offline'',
              ''starting'', ''stopping''}
      then None else Some (''invalid agent status: '' @ s))"

record workload_info =
  wl_AgentID :: string
  wl_ActiveTasks :: int
  wl_QueuedTasks :: int
  wl_CPUUsage :: rat
  wl_MemoryUsage :: rat
  wl_WorkloadScore :: rat
  wl_LastUpdated :: go_time

definition wl_Calculate :: "workload_info \<Rightarrow> workload_info" where
  "wl_Calculate w =
     (let taskScore = f64_mul (f64_of_int (wl_ActiveTasks w * 2 + wl_QueuedTasks w)) 10;
          taskScore = (if 100 < taskScore then 100 else taskScore);
          resourceScore = f64_div (f64_add (wl_CPUUsage w) (wl_MemoryUsage w)) 2
      in w\<lparr>wl_WorkloadScore := f64_add (f64_mul taskScore (f64_round (6 / 10)))
              (f64_mul resourceScore (f64_round (4 / 10)))\<rparr>)"

section \<open>Model: workflows and steps\<close>

definition WorkflowTransitions :: transitions where
  "WorkflowTransitions = fmap_of_list
     [(''pending'', [''running'', ''cancelled'']),
      (''running'', [''paused'', ''completed'', ''failed'', ''cancelled'', ''timeout'']),
      (''paused'', [''running'', ''cancelled'', ''timeout'']),
      (''completed'', []),
      (''failed'', []),
      (''cancelled'', []),
      (''timeout'', [])]"

definition StepTransitions :: transitions where
  "StepTransitions = fmap_of_list
     [(''pending'', [''queued'', ''skipped'', ''cancelling'']),
      (''queued'', [''running'', ''cancelling'']),
      (''running'', [''completed'', ''failed'', ''retrying'', ''cancelling'', ''timeout'']),
      (''retrying'', [''running'', ''failed'', ''cancelling'']),
      (''cancelling'', [''cancelled'']),
      (''completed'', []),
      (''failed'', []),
      (''skipped'', []),
      (''cancelled'', []),
      (''timeout'', [])]"

definition workflow_CanTransitionTo :: "status \<Rightarrow> status \<Rightarrow> bool" where
  "workflow_CanTransitionTo s target = table_CanTransitionTo WorkflowTransitions s target"

definition workflow_IsTerminal :: "status \<Rightarrow> bool" where
  "workflow_IsTerminal s \<longleftrightarrow> s \<in> {''completed'', ''failed'', ''cancelled'', ''timeout''}"

definition step_CanTransitionTo :: "status \<Rightarrow> status \<Rightarrow> bool" where
  "step_CanTransitionTo s target = table_CanTransitionTo StepTransitions s target"

definition step_IsTerminal :: "status \<Rightarrow> bool" where
  "step_IsTerminal s \<longleftrightarrow> s \<in> {''completed'', ''failed'', ''skipped'', ''cancelled'', ''timeout''}"

definition step_Validate :: "status \<Rightarrow> string option" where
  "step_Validate s =
     (if s \<in> {''pending'', ''queued'', ''running'', ''completed'', ''failed'', ''skipped'', ''retrying'',
              ''cancelling'', ''cancelled'', ''timeout''}
      then None else Some (''invalid step status: '' @ s))"

definition step_TransitionTo :: "status \<Rightarrow> status \<Rightarrow> status \<times> string option" where
  "step_TransitionTo s target =
     (if \<not> step_CanTransitionTo s target then (s, Some (invalid_transition s target))
      else (target, None))"

section \<open>Model: distributed tasks\<close>

record distributed_task =
  dt_SubtaskIDs :: "string list"
  dt_CoordinationMode :: string
  dt_CompletionMode :: string
  dt_CompletionThreshold :: int
  dt_ProgressPercent :: "rat option"
  dt_StartedAt :: "go_time option"
  dt_EstimatedDuration :: duration
  dt_ResultsCollected :: int

definition coordination_IsValid :: "string \<Rightarrow> bool" where
  "coordination_IsValid m \<longleftrightarrow>
     m \<in> {''parallel'', ''sequential'', ''pipeline'', ''map_reduce'', ''leader_elect''}"

definition completion_IsValid :: "string \<Rightarrow> bool" where
  "completion_IsValid m \<longleftrightarrow> m \<in> {''all'', ''any'', ''majority'', ''threshold'', ''best_of''}"

definition dt_CalculateProgress :: "distributed_task \<Rightarrow> rat" where
  "dt_CalculateProgress dt =
     (case dt_ProgressPercent dt of
        Some p \<Rightarrow> p
      | None \<Rightarrow>
          if length (dt_SubtaskIDs dt) = 0 then 0
          else f64_mul (f64_div (f64_of_int (dt_ResultsCollected dt))
                 (f64_of_int (int (length (dt_SubtaskIDs dt))))) 100)"

definition dt_IsComplete :: "distributed_task \<Rightarrow> bool" where
  "dt_IsComplete dt =
     (let totalSubtasks = int (length (dt_SubtaskIDs dt))
      in if totalSubtasks = 0 then True
         else if dt_CompletionMode dt = ''all'' then totalSubtasks \<le> dt_ResultsCollected dt
         else if dt_CompletionMode dt = ''any'' then 0 < dt_ResultsCollected dt
         else if dt_CompletionMode dt = ''majority'' then totalSubtasks div 2 < dt_ResultsCollected dt
         else if dt_CompletionMode dt = ''threshold'' then
           (if 0 < dt_CompletionThreshold dt then dt_CompletionThreshold dt \<le> dt_ResultsCollected dt
            else totalSubtasks \<le> dt_ResultsCollected dt)
         else if dt_CompletionMode dt = ''best_of'' then
           dt_CompletionThreshold dt \<le> dt_ResultsCollected dt
         else False)"

definition dt_GetEstimatedCompletion :: "distributed_task \<Rightarrow> go_time option" where
  "dt_GetEstimatedCompletion dt =
     (case dt_StartedAt dt of
        None \<Rightarrow> None
      | Some t \<Rightarrow> if dt_EstimatedDuration dt = 0 then None else Some (t + dt_EstimatedDuration dt))"

section \<open>The tables honour the contract\<close>

lemma table_cases:
  "table_CanTransitionTo (fmap_of_list xs) s t \<Longrightarrow> \<exists>vs. (s, vs) \<in> set xs \<and> t \<in> set vs"
  by (auto simp: table_CanTransitionTo_def fmlookup_of_list split: option.splits dest: map_of_SomeD)

lemma table_lookup:
  "distinct (map fst xs) \<Longrightarrow> (s, vs) \<in> set xs \<Longrightarrow>
   table_CanTransitionTo (fmap_of_list xs) s t \<longleftrightarrow> t \<in> set vs"
  by (simp add: table_CanTransitionTo_def fmlookup_of_list)

abbreviation agent_known :: "status set" where "agent_known \<equiv> {s. agent_Validate s = None}"
abbreviation step_known :: "status set" where "step_known \<equiv> {s. step_Validate s = None}"
abbreviation workflow_known :: "status set" where
  "workflow_known \<equiv> {''pending'', ''running'', ''paused'', ''completed'', ''failed'', ''cancelled'', ''timeout''}"

interpretation agent: status_machine agent_CanTransitionTo agent_known "\<lambda>_. False"
proof
  show "s \<in> agent_known \<and> t \<in> agent_known" if "agent_CanTransitionTo s t" for s t
    using table_cases [OF that [unfolded agent_CanTransitionTo_def validAgentTransitions_def]]
    by (auto simp: agent_Validate_def)
  show "False \<longleftrightarrow> \<not> (\<exists>t. agent_CanTransitionTo s t)" if "s \<in> agent_known" for s
    using that unfolding agent_CanTransitionTo_def table_live
    by (auto simp: agent_Validate_def validAgentTransitions_def split: if_splits)
qed simp

interpretation workflow: status_machine workflow_CanTransitionTo workflow_known workflow_IsTerminal
proof
  show "s \<in> workflow_known \<and> t \<in> workflow_known" if "workflow_CanTransitionTo s t" for s t
    using table_cases [OF that [unfolded workflow_CanTransitionTo_def WorkflowTransitions_def]] by auto
  show "workflow_IsTerminal s \<longleftrightarrow> \<not> (\<exists>t. workflow_CanTransitionTo s t)" if "s \<in> workflow_known" for s
    using that unfolding workflow_CanTransitionTo_def table_live
    by (elim insertE emptyE) (simp_all add: workflow_IsTerminal_def WorkflowTransitions_def)
qed (auto simp: workflow_IsTerminal_def)

interpretation wstep: status_machine step_CanTransitionTo step_known step_IsTerminal
proof
  show "s \<in> step_known \<and> t \<in> step_known" if "step_CanTransitionTo s t" for s t
    using table_cases [OF that [unfolded step_CanTransitionTo_def StepTransitions_def]]
    by (auto simp: step_Validate_def)
  show "step_IsTerminal s \<longleftrightarrow> \<not> (\<exists>t. step_CanTransitionTo s t)" if "s \<in> step_known" for s
    using that unfolding step_CanTransitionTo_def table_live
    by (auto simp: step_Validate_def step_IsTerminal_def StepTransitions_def split: if_splits)
qed (auto simp: step_IsTerminal_def step_Validate_def)

lemma workflow_table_known: "s \<in> fset (fmdom WorkflowTransitions) \<Longrightarrow> s \<in> workflow_known"
  by (auto simp: WorkflowTransitions_def)

lemma workflow_progress:
  "s \<in> fset (fmdom WorkflowTransitions) \<Longrightarrow> \<not> workflow_IsTerminal s \<Longrightarrow> \<exists>w. workflow_CanTransitionTo s w"
  using workflow.progress [OF workflow_table_known] by blast

section \<open>Properties\<close>

text \<open>A workflow that has reached a terminal status never leaves it, whatever transitions are tried,
  and every other status of the table still has a successor; the same holds of workflow steps.\<close>

theorem terminal_statuses_absorbing:
  assumes "workflow_CanTransitionTo\<^sup>*\<^sup>* s t" "step_CanTransitionTo\<^sup>*\<^sup>* u v"
  shows "(workflow_IsTerminal s \<longrightarrow> t = s) \<and> (step_IsTerminal u \<longrightarrow> v = u) \<and>
    (s \<in> fset (fmdom WorkflowTransitions) \<longrightarrow> \<not> workflow_IsTerminal s \<longrightarrow> (\<exists>w. workflow_CanTransitionTo s w)) \<and>
    (step_Validate u = None \<longrightarrow> \<not> step_IsTerminal u \<longrightarrow> (\<exists>w. step_CanTransitionTo u w))"
  using workflow.terminal_absorbing [OF assms(1)] wstep.terminal_absorbing [OF assms(2)] wstep.progress [of u]
    workflow_progress [of s]
  by auto

theorem terminal_statuses_absorbing_witness:
  "workflow_IsTerminal ''failed'' \<and> step_IsTerminal ''skipped'' \<and>
   (\<exists>w. step_CanTransitionTo ''queued'' w)"
  using terminal_statuses_absorbing [of "''failed''" "''failed''" "''queued''" "''queued''"]
  by (simp add: workflow_IsTerminal_def step_IsTerminal_def step_Validate_def)

lemma agent_cycle:
  assumes "agent_Validate s = None"
  shows "agent_CanTransitionTo\<^sup>*\<^sup>* ''offline'' s \<and> agent_CanTransitionTo\<^sup>*\<^sup>* s ''offline''"
proof -
  let ?R = "agent_CanTransitionTo\<^sup>*\<^sup>*"
  have e: "?R ''offline'' ''starting''" "?R ''starting'' ''active''" "?R ''starting'' ''error''"
    "?R ''active'' ''draining''" "?R ''active'' ''maintenance''" "?R ''active'' ''stopping''"
    "?R ''draining'' ''inactive''" "?R ''inactive'' ''stopping''" "?R ''maintenance'' ''stopping''"
    "?R ''error'' ''stopping''" "?R ''stopping'' ''offline''"
    by (rule r_into_rtranclp, simp add: agent_CanTransitionTo_def validAgentTransitions_def
        table_CanTransitionTo_def)+
  note t = rtranclp_trans [of agent_CanTransitionTo]
  note active = t [OF e(1) e(2)] and stop = e(11)
  note up = active t [OF e(1) e(3)] t [OF active e(4)] t [OF active e(5)] t [OF active e(6)]
    t [OF t [OF active e(4)] e(7)]
  note down = t [OF e(6) stop] t [OF e(10) stop] t [OF e(9) stop] t [OF e(8) stop]
    t [OF e(7) t [OF e(8) stop]] t [OF e(2) t [OF e(6) stop]]
  from assms show ?thesis
    using e up down by (auto simp: agent_Validate_def split: if_splits)
qed

text \<open>No agent status is a dead end: from every valid status every other valid status can be reached
  by allowed transitions, and \<open>TransitionTo\<close> from a valid status always leaves a valid status.\<close>

theorem agent_statuses_connected:
  assumes "agent_Validate s = None" "agent_Validate t = None"
  shows "agent_CanTransitionTo\<^sup>*\<^sup>* s t \<and> agent_Validate (fst (agent_TransitionTo s u)) = None"
  using agent_cycle [OF assms(1)] agent_cycle [OF assms(2)] agent.can_known [of s u] assms
  by (auto simp: agent_TransitionTo_def intro: rtranclp_trans)

theorem agent_statuses_connected_witness:
  "agent_CanTransitionTo\<^sup>*\<^sup>* ''error'' ''active''"
  using agent_statuses_connected [of "''error''" "''active''"] by (simp add: agent_Validate_def)

text \<open>Collecting more results never un-completes a distributed task, and a task in mode
  \<open>best_of\<close> whose threshold was left at zero is complete before any result has arrived.\<close>

theorem dt_IsComplete_mono:
  assumes "dt_IsComplete dt" "dt_ResultsCollected dt \<le> n"
  shows "dt_IsComplete (dt\<lparr>dt_ResultsCollected := n\<rparr>) \<and>
    dt_IsComplete (dt\<lparr>dt_CompletionMode := ''best_of'', dt_CompletionThreshold := 0, dt_ResultsCollected := 0\<rparr>)"
  using assms by (auto simp: dt_IsComplete_def Let_def split: if_splits)

theorem dt_IsComplete_mono_witness:
  "let dt = \<lparr>dt_SubtaskIDs = [''a'', ''b'', ''c''], dt_CoordinationMode = ''parallel'',
        dt_CompletionMode = ''majority'', dt_CompletionThreshold = 0, dt_ProgressPercent = None,
        dt_StartedAt = None, dt_EstimatedDuration = 0, dt_ResultsCollected = 2\<rparr>
   in dt_IsComplete (dt\<lparr>dt_ResultsCollected := 3\<rparr>)"
  unfolding Let_def
  by (rule dt_IsComplete_mono [THEN conjunct1]) (simp_all add: dt_IsComplete_def)

end
