(* ===== verification/Memory_Cache.thy ===== *)
theory Memory_Cache
  imports Prelude
begin

text \<open>
  The in-memory cache of \<open>pkg/common/cache/memory.go\<close>, which the authentication limiter and the
  services use behind the \<open>Cache\<close> interface.  \<open>Get\<close> takes a pointer to the variable to fill: the
  model passes the value the variable has before the call and returns the value it has after.
  The lemmas show what a \<open>Get\<close> observes after a \<open>Set\<close> and that \<open>Set\<close> keeps the cache within
  its capacity by evicting an entry that expires first.
\<close>

section \<open>Model\<close>

record 'v cache_item =
  ci_value :: 'v
  ci_expiration :: go_time

record 'v memory_cache =
  mc_items :: "(string, 'v cache_item) fmap"
  mc_maxItems :: int
  mc_defaultTTL :: duration

definition NewMemoryCache :: "int \<Rightarrow> duration \<Rightarrow> 'v memory_cache" where
  "NewMemoryCache maxItems defaultTTL =
     \<lparr>mc_items = fmempty, mc_maxItems = maxItems, mc_defaultTTL = defaultTTL\<rparr>"

text \<open>\<open>Get\<close> reports whether the key is there and alive; it never writes to \<open>value\<close>.\<close>

definition mc_Get :: "go_time \<Rightarrow> string \<Rightarrow> 'd \<Rightarrow> 'v memory_cache \<Rightarrow> string option \<times> 'd" where
  "mc_Get now key v c =
     (case fmlookup (mc_items c) key of
        None \<Rightarrow> (Some ''key not found'', v)
      | Some item \<Rightarrow> if ci_expiration item < now then (Some ''key expired'', v) else (None, v))"

definition mc_evictOldest :: "'v memory_cache \<Rightarrow> 'v memory_cache" where
  "mc_evictOldest c =
     (let (oldestKey, oldestTime) =
            foldl (\<lambda>(oldestKey, oldestTime) (key, item).
                if oldestKey = [] \<or> ci_expiration item < oldestTime then (key, ci_expiration item)
                else (oldestKey, oldestTime)) ([], 0) (go_range (mc_items c))
      in if oldestKey \<noteq> [] then c\<lparr>mc_items := fmdrop oldestKey (mc_items c)\<rparr> else c)"

definition mc_Set :: "go_time \<Rightarrow> string \<Rightarrow> 'v \<Rightarrow> duration \<Rightarrow> 'v memory_cache \<Rightarrow> 'v memory_cache" where
  "mc_Set now key v ttl c =
     (let ttl = (if ttl = 0 then mc_defaultTTL c else ttl);
          c = (if mc_maxItems c \<le> int (fcard (fmdom (mc_items c))) then mc_evictOldest c else c)
      in c\<lparr>mc_items := fmupd key \<lparr>ci_value = v, ci_expiration = now + ttl\<rparr> (mc_items c)\<rparr>)"

definition mc_Delete :: "string \<Rightarrow> 'v memory_cache \<Rightarrow> 'v memory_cache" where
  "mc_Delete key c = c\<lparr>mc_items := fmdrop key (mc_items c)\<rparr>"

definition mc_Exists :: "go_time \<Rightarrow> string \<Rightarrow> 'v memory_cache \<Rightarrow> bool" where
  "mc_Exists now key c =
     (case fmlookup (mc_items c) key of
        None \<Rightarrow> False
      | Some item \<Rightarrow> \<not> ci_expiration item < now)"

definition mc_Flush :: "'v memory_cache \<Rightarrow> 'v memory_cache" where
  "mc_Flush c = c\<lparr>mc_items := fmempty\<rparr>"

definition mc_Size :: "'v memory_cache \<Rightarrow> int" where
  "mc_Size c = int (fcard (fmdom (mc_items c)))"

section \<open>What a read observes\<close>

lemma mc_Get_value [simp]: "snd (mc_Get now key v c) = v"
  by (simp add: mc_Get_def split: option.split)

lemma mc_Get_Exists: "fst (mc_Get now key v c) = None \<longleftrightarrow> mc_Exists now key c"
  by (auto simp: mc_Get_def mc_Exists_def split: option.split)

lemma mc_Get_hit: "mc_Exists now key c \<Longrightarrow> mc_Get now key v c = (None, v)"
  by (metis mc_Get_Exists mc_Get_value prod.collapse)

lemma mc_Exists_Set_same:
  "mc_Exists now' key (mc_Set now key v ttl c)
     \<longleftrightarrow> now' \<le> now + (if ttl = 0 then mc_defaultTTL c else ttl)"
  by (auto simp: mc_Exists_def mc_Set_def Let_def)

lemma mc_Exists_Delete [simp]:
  "mc_Exists now key' (mc_Delete key c) \<longleftrightarrow> key' \<noteq> key \<and> mc_Exists now key' c"
  by (auto simp: mc_Exists_def mc_Delete_def)

lemma mc_Exists_New [simp]: "\<not> mc_Exists now key (NewMemoryCache n ttl)"
  by (simp add: mc_Exists_def NewMemoryCache_def)

section \<open>Eviction\<close>

text \<open>The loop of \<open>evictOldest\<close> ends at an entry that expires first, when no key is empty.\<close>

definition evict_step :: "string \<times> go_time \<Rightarrow> string \<times> 'v cache_item \<Rightarrow> string \<times> go_time" where
  "evict_step = (\<lambda>(oldestKey, oldestTime) (key, item).
     if oldestKey = [] \<or> ci_expiration item < oldestTime then (key, ci_expiration item)
     else (oldestKey, oldestTime))"

lemma evict_loop:
  assumes "[] \<notin> fst ` set xs" and "k \<noteq> []" and "foldl evict_step (k, t) xs = (k', t')"
  shows "k' \<noteq> [] \<and> t' \<le> t \<and> (\<forall>(key, item) \<in> set xs. t' \<le> ci_expiration item)
    \<and> ((k', t') = (k, t) \<or> (\<exists>item. (k', item) \<in> set xs \<and> t' = ci_expiration item))"
  using assms
proof (induction xs arbitrary: k t)
  case Nil
  then show ?case by simp
next
  case (Cons x xs)
  obtain key item where x: "x = (key, item)" by (cases x)
  show ?case
  proof (cases "ci_expiration item < t")
    case True
    with Cons.prems have "foldl evict_step (key, ci_expiration item) xs = (k', t')" "key \<noteq> []"
      by (auto simp: x evict_step_def)
    from Cons.IH [OF _ this(2,1)] Cons.prems(1) True show ?thesis by (auto simp: x)
  next
    case False
    with Cons.prems have "foldl evict_step (k, t) xs = (k', t')" by (auto simp: x evict_step_def)
    from Cons.IH [OF _ Cons.prems(2) this] Cons.prems(1) False show ?thesis by (auto simp: x)
  qed
qed

lemma mc_evictOldest_earliest:
  assumes "mc_items c \<noteq> fmempty" and keys: "[] \<notin> fset (fmdom (mc_items c))"
  obtains key item where "fmlookup (mc_items c) key = Some item"
    and "mc_evictOldest c = c\<lparr>mc_items := fmdrop key (mc_items c)\<rparr>"
    and "\<And>key' item'. fmlookup (mc_items c) key' = Some item' \<Longrightarrow> ci_expiration item \<le> ci_expiration item'"
proof -
  let ?xs = "go_range (mc_items c)"
  have ne: "?xs \<noteq> []"
    using assms(1) by (metis fmap_ext fmempty_lookup map_of.simps(1) map_of_go_range)
  then obtain k0 i0 xs where xs: "?xs = (k0, i0) # xs" by (cases ?xs) auto
  have dom: "fst ` set ?xs = fset (fmdom (mc_items c))"
    using fst_enumerates [OF go_range_enumerates] by simp
  then have k0: "k0 \<noteq> []" and nxs: "[] \<notin> fst ` set xs" using keys xs by (auto simp: rev_image_eqI)
  obtain k t where fold: "foldl evict_step ([], 0) ?xs = (k, t)"
    by (cases "foldl evict_step ([], 0) ?xs")
  then have "foldl evict_step (k0, ci_expiration i0) xs = (k, t)"
    by (simp add: xs evict_step_def)
  note loop = evict_loop [OF nxs k0 this]
  then have "\<exists>item. (k, item) \<in> set ?xs \<and> t = ci_expiration item" by (auto simp: xs)
  then obtain item where item: "(k, item) \<in> set ?xs" "t = ci_expiration item" by blast
  have min: "t \<le> ci_expiration item'" if "(key', item') \<in> set ?xs" for key' item'
    using that loop by (auto simp: xs)
  have "mc_evictOldest c = c\<lparr>mc_items := fmdrop k (mc_items c)\<rparr>"
    using fold loop by (simp add: mc_evictOldest_def evict_step_def [symmetric])
  with item min show ?thesis by (intro that [of k item]) (auto simp: set_go_range)
qed

lemma fcard_drop: "fmlookup m k = Some v \<Longrightarrow> Suc (fcard (fmdom (fmdrop k m))) = fcard (fmdom m)"
  by (metis fcard_Suc_fminus1 fmdom_drop fmdomI)

lemma fcard_upd_le: "fcard (fmdom (fmupd k v m)) \<le> Suc (fcard (fmdom m))"
  by (simp add: fcard_finsert_if)

definition mc_wf :: "'v memory_cache \<Rightarrow> bool" where
  "mc_wf c \<longleftrightarrow> 0 < mc_maxItems c \<and> mc_Size c \<le> mc_maxItems c \<and> [] \<notin> fset (fmdom (mc_items c))"

lemma mc_wf_New: "0 < n \<Longrightarrow> mc_wf (NewMemoryCache n ttl)"
  by (simp add: mc_wf_def NewMemoryCache_def mc_Size_def fcard_fempty)

lemma mc_wf_evict:
  assumes "mc_wf c" and "mc_maxItems c \<le> mc_Size c"
  shows "mc_wf (mc_evictOldest c)" and "mc_Size (mc_evictOldest c) < mc_maxItems c"
    and "mc_maxItems (mc_evictOldest c) = mc_maxItems c"
proof -
  have "mc_items c \<noteq> fmempty" using assms by (auto simp: mc_wf_def mc_Size_def fcard_fempty)
  then obtain k item where k: "fmlookup (mc_items c) k = Some item"
    and ev: "mc_evictOldest c = c\<lparr>mc_items := fmdrop k (mc_items c)\<rparr>"
    using assms(1) by (auto simp: mc_wf_def elim: mc_evictOldest_earliest)
  show "mc_Size (mc_evictOldest c) < mc_maxItems c"
    using fcard_drop [OF k] assms by (simp add: ev mc_Size_def mc_wf_def)
  then show "mc_wf (mc_evictOldest c)" using assms by (auto simp: ev mc_wf_def)
  show "mc_maxItems (mc_evictOldest c) = mc_maxItems c" by (simp add: ev)
qed

text \<open>The in-memory cache respects its capacity: if it holds at most \<open>maxItems\<close> entries, all under
  non-empty keys, with \<open>maxItems\<close> positive, then the same is true after a \<open>Set\<close> under any
  non-empty key, because a \<open>Set\<close> at capacity first evicts an entry.
\<close>

theorem mc_Set_capacity:
  assumes "mc_wf c" and "key \<noteq> []"
  shows "mc_wf (mc_Set now key v ttl c)"
proof -
  define c' where "c' = (if mc_maxItems c \<le> mc_Size c then mc_evictOldest c else c)"
  have c': "mc_wf c'" "mc_Size c' < mc_maxItems c'"
    using mc_wf_evict [OF assms(1)] assms(1) by (auto simp: c'_def)
  have "mc_items (mc_Set now key v ttl c)
      = fmupd key \<lparr>ci_value = v, ci_expiration = now + (if ttl = 0 then mc_defaultTTL c else ttl)\<rparr>
          (mc_items c')"
    and "mc_maxItems (mc_Set now key v ttl c) = mc_maxItems c'"
    by (simp_all add: mc_Set_def c'_def mc_Size_def Let_def)
  with c' assms(2) show ?thesis by (auto simp: mc_wf_def mc_Size_def fcard_finsert_if)
qed

theorem mc_Set_capacity_witness:
  "mc_wf (NewMemoryCache 1 minute :: int memory_cache) \<and> ''k'' \<noteq> []
     \<and> mc_wf (mc_Set 0 ''k'' (7::int) minute (NewMemoryCache 1 minute))"
  by (intro conjI mc_Set_capacity mc_wf_New) simp_all

end
