(* ===== verification/Auth_Limiter.thy ===== *)
theory Auth_Limiter
  imports Memory_Cache
begin

text \<open>
  The limiter of authentication attempts (\<open>pkg/auth/rate_limiter.go\<close>) over the cache interface,
  with the in-memory cache of \<open>Memory_Cache\<close> as the cache it can be given, and its local
  fallback.
\<close>

section \<open>Model: the limiter\<close>

record auth_config =
  ac_enabled :: bool
  ac_maxAttempts :: int
  ac_windowSize :: duration
  ac_lockoutPeriod :: duration

definition DefaultRateLimiterConfig :: auth_config where
  "DefaultRateLimiterConfig = \<lparr>ac_enabled = True, ac_maxAttempts = 5, ac_windowSize = 1 * minute,
     ac_lockoutPeriod = 15 * minute\<rparr>"

record local_limit =
  ll_attempts :: int
  ll_window :: go_time
  ll_lockedOut :: go_time

record auth_limiter =
  al_config :: auth_config
  al_cache :: "gval memory_cache option"
  al_local :: "(string, local_limit) fmap"

definition NewAuthLimiter :: "gval memory_cache option \<Rightarrow> auth_config option \<Rightarrow> auth_limiter" where
  "NewAuthLimiter cache config =
     \<lparr>al_config = (case config of None \<Rightarrow> DefaultRateLimiterConfig | Some c \<Rightarrow> c),
      al_cache = cache, al_local = fmempty\<rparr>"

definition auth_key :: "string \<Rightarrow> string" where
  "auth_key identifier = ''auth:ratelimit:'' @ identifier"

definition al_checkCacheLimit ::
  "go_time \<Rightarrow> auth_config \<Rightarrow> string \<Rightarrow> gval memory_cache \<Rightarrow> string option \<times> gval memory_cache" where
  "al_checkCacheLimit now config key cache =
     (let lockoutKey = key @ '':lockout'';
          (err, locked) = mc_Get now lockoutKey (VBool False) cache
      in if err = None \<and> locked = VBool True then (Some ''rate limit exceeded: locked out'', cache)
         else
           let (err, attempts) = mc_Get now (key @ '':count'') (VInt 0) cache;
               attempts = (if err \<noteq> None then VInt 0 else attempts)
           in case attempts of
                VInt n \<Rightarrow>
                  if ac_maxAttempts config \<le> n
                  then (Some ''rate limit exceeded: too many attempts'',
                        mc_Set now lockoutKey (VBool True) (ac_lockoutPeriod config) cache)
                  else (None, cache)
              | _ \<Rightarrow> (None, cache))"

definition al_recordCacheAttempt ::
  "go_time \<Rightarrow> auth_config \<Rightarrow> string \<Rightarrow> bool \<Rightarrow> gval memory_cache \<Rightarrow> gval memory_cache" where
  "al_recordCacheAttempt now config key success cache =
     (if success then mc_Delete (key @ '':lockout'') (mc_Delete (key @ '':count'') cache)
      else
        let (err, attempts) = mc_Get now (key @ '':count'') (VInt 0) cache;
            attempts = (if err \<noteq> None then VInt 0 else attempts)
        in case attempts of
             VInt n \<Rightarrow> mc_Set now (key @ '':count'') (VInt (n + 1)) (ac_windowSize config) cache
           | _ \<Rightarrow> cache)"

definition fresh_limit :: "go_time \<Rightarrow> local_limit" where
  "fresh_limit now = \<lparr>ll_attempts = 0, ll_window = now, ll_lockedOut = 0\<rparr>"

definition ll_check :: "go_time \<Rightarrow> auth_config \<Rightarrow> local_limit \<Rightarrow> string option \<times> local_limit" where
  "ll_check now config limit =
     (if ll_lockedOut limit \<noteq> 0 \<and> now < ll_lockedOut limit
      then (Some ''rate limit exceeded: locked out'', limit)
      else
        let limit = (if ac_windowSize config < time_sub now (ll_window limit)
                     then limit\<lparr>ll_attempts := 0, ll_window := now\<rparr> else limit)
        in if ac_maxAttempts config \<le> ll_attempts limit
           then (Some ''rate limit exceeded: too many attempts'',
                 limit\<lparr>ll_lockedOut := now + ac_lockoutPeriod config\<rparr>)
           else (None, limit))"

definition ll_record :: "go_time \<Rightarrow> auth_config \<Rightarrow> bool \<Rightarrow> local_limit \<Rightarrow> local_limit" where
  "ll_record now config success limit =
     (if success then limit\<lparr>ll_attempts := 0, ll_lockedOut := 0\<rparr>
      else if ac_windowSize config < time_sub now (ll_window limit)
      then limit\<lparr>ll_attempts := 1, ll_window := now\<rparr>
      else limit\<lparr>ll_attempts := ll_attempts limit + 1\<rparr>)"

definition al_checkLocalLimit :: "go_time \<Rightarrow> string \<Rightarrow> auth_limiter \<Rightarrow> string option \<times> auth_limiter" where
  "al_checkLocalLimit now identifier rl =
     (let (err, limit) = ll_check now (al_config rl) (fmget (fresh_limit now) (al_local rl) identifier)
      in (err, rl\<lparr>al_local := fmupd identifier limit (al_local rl)\<rparr>))"

definition al_recordLocalAttempt :: "go_time \<Rightarrow> string \<Rightarrow> bool \<Rightarrow> auth_limiter \<Rightarrow> auth_limiter" where
  "al_recordLocalAttempt now identifier success rl =
     rl\<lparr>al_local := fmupd identifier
          (ll_record now (al_config rl) success (fmget (fresh_limit now) (al_local rl) identifier))
          (al_local rl)\<rparr>"

definition al_CheckLimit :: "go_time \<Rightarrow> string \<Rightarrow> auth_limiter \<Rightarrow> string option \<times> auth_limiter" where
  "al_CheckLimit now identifier rl =
     (if \<not> ac_enabled (al_config rl) then (None, rl)
      else case al_cache rl of
             Some cache \<Rightarrow>
               (let (err, cache) = al_checkCacheLimit now (al_config rl) (auth_key identifier) cache
                in (err, rl\<lparr>al_cache := Some cache\<rparr>))
           | None \<Rightarrow> al_checkLocalLimit now identifier rl)"

definition al_RecordAttempt :: "go_time \<Rightarrow> string \<Rightarrow> bool \<Rightarrow> auth_limiter \<Rightarrow> auth_limiter" where
  "al_RecordAttempt now identifier success rl =
     (if \<not> ac_enabled (al_config rl) then rl
      else case al_cache rl of
             Some cache \<Rightarrow>
               rl\<lparr>al_cache := Some (al_recordCacheAttempt now (al_config rl) (auth_key identifier) success cache)\<rparr>
           | None \<Rightarrow> al_recordLocalAttempt now identifier success rl)"

section \<open>Lemmas\<close>

lemma al_config_RecordAttempt [simp]: "al_config (al_RecordAttempt now i s rl) = al_config rl"
  by (simp add: al_RecordAttempt_def al_recordLocalAttempt_def split: option.split)

lemma al_cache_RecordAttempt_None:
  "al_cache rl = None \<Longrightarrow> al_cache (al_RecordAttempt now i s rl) = None"
  by (simp add: al_RecordAttempt_def al_recordLocalAttempt_def)

text \<open>Failed attempts of one identifier, at the given instants.\<close>

definition al_failures :: "string \<Rightarrow> go_time list \<Rightarrow> auth_limiter \<Rightarrow> auth_limiter" where
  "al_failures identifier ts rl = foldl (\<lambda>rl t. al_RecordAttempt t identifier False rl) rl ts"

lemma ll_record_window:
  assumes "time_sub now (ll_window l) \<le> ac_windowSize c"
  shows "ll_record now c False l = l\<lparr>ll_attempts := ll_attempts l + 1\<rparr>"
  using assms by (simp add: ll_record_def not_less)

lemma al_failures_local:
  assumes "ac_enabled (al_config rl)" "al_cache rl = None" "fmlookup (al_local rl) i = Some l"
    and "\<And>t. t \<in> set ts \<Longrightarrow> time_sub t (ll_window l) \<le> ac_windowSize (al_config rl)"
  shows "al_config (al_failures i ts rl) = al_config rl \<and> al_cache (al_failures i ts rl) = None \<and>
    fmlookup (al_local (al_failures i ts rl)) i =
      Some (l\<lparr>ll_attempts := ll_attempts l + int (length ts)\<rparr>)"
  using assms
proof (induction ts arbitrary: rl l)
  case Nil
  then show ?case by (simp add: al_failures_def)
next
  case (Cons t ts)
  let ?rl = "al_RecordAttempt t i False rl" and ?l = "l\<lparr>ll_attempts := ll_attempts l + 1\<rparr>"
  have l: "fmlookup (al_local ?rl) i = Some ?l"
    using Cons.prems ll_record_window [of t l "al_config rl"]
    by (simp add: al_RecordAttempt_def al_recordLocalAttempt_def fmget_Some)
  have "al_failures i (t # ts) rl = al_failures i ts ?rl" by (simp add: al_failures_def)
  with Cons.IH [of ?rl ?l] Cons.prems l show ?case
    by (auto simp: al_cache_RecordAttempt_None)
qed

section \<open>Properties\<close>



text \<open>With the in-memory cache the limiter never limits: its \<open>Get\<close> leaves the variable it should
  fill untouched, so the attempt count always reads as zero and the lockout flag as false, and after
  any sequence of failed attempts every check passes.\<close>

theorem al_memory_cache_never_limits:
  assumes "al_cache rl = Some c" "0 < ac_maxAttempts (al_config rl)"
  shows "al_CheckLimit now i (al_failures j ts rl) = (None, al_failures j ts rl)"
proof -
  have keep: "\<exists>c'. al_cache (al_failures j ts rl) = Some c' \<and> al_config (al_failures j ts rl) = al_config rl"
    if "al_cache rl = Some c" for rl c
    using that
    by (induction ts arbitrary: rl c) (auto simp: al_failures_def al_RecordAttempt_def)
  obtain c' where c': "al_cache (al_failures j ts rl) = Some c'"
    and cfg: "al_config (al_failures j ts rl) = al_config rl"
    using keep [OF assms(1)] by blast
  have get: "snd (mc_Get now k v c') = v" for k v
    by (simp add: mc_Get_def split: option.split)
  have "al_checkCacheLimit now (al_config rl) key c' = (None, c')" for key
  proof -
    obtain e where "mc_Get now (key @ '':lockout'') (VBool False) c' = (e, VBool False)"
      using get by (metis prod.collapse)
    moreover obtain e' where "mc_Get now (key @ '':count'') (VInt 0) c' = (e', VInt 0)"
      using get by (metis prod.collapse)
    ultimately show ?thesis using assms(2) by (simp add: al_checkCacheLimit_def Let_def)
  qed
  then show ?thesis using c' cfg by (simp add: al_CheckLimit_def)
qed

theorem al_memory_cache_never_limits_witness:
  "fst (al_CheckLimit 200 ''bob'' (al_failures ''bob'' [101, 102, 103, 104, 105, 106, 107]
     (NewAuthLimiter (Some (NewMemoryCache 100 minute)) None))) = None"
  by (subst al_memory_cache_never_limits [where c = "NewMemoryCache 100 minute"])
    (simp_all add: NewAuthLimiter_def DefaultRateLimiterConfig_def)

end
