(* ===== verification/Semantic_Version.thy ===== *)
theory Semantic_Version
  imports Prelude "HOL-Library.Product_Lexorder"
begin

text \<open>
  Semantic versions of the updater (\<open>pkg/updater/version.go\<close>).  The functions of Go's
  \<open>strings\<close> and \<open>strconv\<close> packages the code uses are modelled on lists of characters;
  the prose of error messages is kept, the cause wrapped with \<open>%w\<close> is not.
\<close>

section \<open>Model: strings and numbers\<close>

definition TrimPrefix :: "string \<Rightarrow> string \<Rightarrow> string" where
  "TrimPrefix s p = (if take (length p) s = p then drop (length p) s else s)"

text \<open>\<open>SplitN(s, sep, 2)\<close> for a separator of one character.\<close>

fun SplitN2 :: "char \<Rightarrow> string \<Rightarrow> string \<times> string option" where
  "SplitN2 sep [] = ([], None)"
| "SplitN2 sep (c # s) =
     (if c = sep then ([], Some s) else (let (a, b) = SplitN2 sep s in (c # a, b)))"

fun Split :: "char \<Rightarrow> string \<Rightarrow> string list" where
  "Split sep [] = [[]]"
| "Split sep (c # s) =
     (if c = sep then [] # Split sep s
      else case Split sep s of [] \<Rightarrow> [[c]] | p # ps \<Rightarrow> (c # p) # ps)"

definition digit_value :: "char \<Rightarrow> int" where
  "digit_value c = int (of_char c) - 48"

definition is_digit :: "char \<Rightarrow> bool" where
  "is_digit c \<longleftrightarrow> 48 \<le> (of_char c :: nat) \<and> (of_char c :: nat) \<le> 57"

definition digits_value :: "string \<Rightarrow> int" where
  "digits_value s = foldl (\<lambda>n c. 10 * n + digit_value c) 0 s"

text \<open>\<open>strconv.Atoi\<close>: an optional sign, at least one digit, and a value within 64 bits.\<close>

definition Atoi :: "string \<Rightarrow> int option" where
  "Atoi s =
     (let neg = (s \<noteq> [] \<and> hd s = CHR ''-'');
          ds = (if s \<noteq> [] \<and> (hd s = CHR ''-'' \<or> hd s = CHR ''+'') then tl s else s);
          n = (if neg then - digits_value ds else digits_value ds)
      in if ds = [] \<or> \<not> list_all is_digit ds then None
         else if - (2 ^ 63) \<le> n \<and> n < 2 ^ 63 then Some n else None)"

fun digits_of :: "nat \<Rightarrow> string" where
  "digits_of n = (if n < 10 then [char_of (48 + n)] else digits_of (n div 10) @ [char_of (48 + n mod 10)])"

declare digits_of.simps [simp del]

definition Itoa :: "int \<Rightarrow> string" where
  "Itoa n = (if n < 0 then CHR ''-'' # digits_of (nat (- n)) else digits_of (nat n))"

section \<open>Model: versions\<close>

record version =
  vr_Major :: int
  vr_Minor :: int
  vr_Patch :: int
  vr_Prerelease :: string
  vr_Build :: string

definition ParseVersion :: "string \<Rightarrow> string + version" where
  "ParseVersion v0 =
     (let v = TrimPrefix v0 ''v''
      in if v = [] then Inl ''empty version string''
         else
           let (head, build) = SplitN2 CHR ''+'' v;
               (head, pre) = SplitN2 CHR ''-'' head;
               numbers = Split CHR ''.'' head
           in if length numbers < 1 then Inl (''invalid version format: '' @ v)
              else case Atoi (numbers ! 0) of
                None \<Rightarrow> Inl ''invalid major version''
              | Some major \<Rightarrow>
                  (case (if length numbers > 1 then Atoi (numbers ! 1) else Some 0) of
                     None \<Rightarrow> Inl ''invalid minor version''
                   | Some minor \<Rightarrow>
                       (case (if length numbers > 2 then Atoi (numbers ! 2) else Some 0) of
                          None \<Rightarrow> Inl ''invalid patch version''
                        | Some patch \<Rightarrow>
                            Inr \<lparr>vr_Major = major, vr_Minor = minor, vr_Patch = patch,
                                 vr_Prerelease = (case pre of None \<Rightarrow> [] | Some p \<Rightarrow> p),
                                 vr_Build = (case build of None \<Rightarrow> [] | Some b \<Rightarrow> b)\<rparr>)))"

definition vr_String :: "version \<Rightarrow> string" where
  "vr_String v =
     (let s = Itoa (vr_Major v) @ ''.'' @ Itoa (vr_Minor v) @ ''.'' @ Itoa (vr_Patch v);
          s = (if vr_Prerelease v \<noteq> [] then s @ ''-'' @ vr_Prerelease v else s)
      in if vr_Build v \<noteq> [] then s @ ''+'' @ vr_Build v else s)"

definition vr_Compare :: "version \<Rightarrow> version \<Rightarrow> int" where
  "vr_Compare v other =
     (if vr_Major v \<noteq> vr_Major other then (if vr_Major v < vr_Major other then - 1 else 1)
      else if vr_Minor v \<noteq> vr_Minor other then (if vr_Minor v < vr_Minor other then - 1 else 1)
      else if vr_Patch v \<noteq> vr_Patch other then (if vr_Patch v < vr_Patch other then - 1 else 1)
      else if vr_Prerelease v = [] \<and> vr_Prerelease other \<noteq> [] then 1
      else if vr_Prerelease v \<noteq> [] \<and> vr_Prerelease other = [] then - 1
      else if vr_Prerelease v \<noteq> vr_Prerelease other then
        (if vr_Prerelease v < vr_Prerelease other then - 1 else 1)
      else 0)"

definition vr_IsNewerThan :: "version \<Rightarrow> version \<Rightarrow> bool" where
  "vr_IsNewerThan v other \<longleftrightarrow> 0 < vr_Compare v other"

definition vr_IsOlderThan :: "version \<Rightarrow> version \<Rightarrow> bool" where
  "vr_IsOlderThan v other \<longleftrightarrow> vr_Compare v other < 0"

definition vr_Equals :: "version \<Rightarrow> version \<Rightarrow> bool" where
  "vr_Equals v other \<longleftrightarrow> vr_Compare v other = 0"

definition vr_IsStable :: "version \<Rightarrow> bool" where
  "vr_IsStable v \<longleftrightarrow> vr_Prerelease v = []"

definition CompareVersionStrings :: "string \<Rightarrow> string \<Rightarrow> string + int" where
  "CompareVersionStrings v1 v2 =
     (case ParseVersion v1 of
        Inl err \<Rightarrow> Inl (''invalid version v1: '' @ err)
      | Inr ver1 \<Rightarrow>
          (case ParseVersion v2 of
             Inl err \<Rightarrow> Inl (''invalid version v2: '' @ err)
           | Inr ver2 \<Rightarrow> Inr (vr_Compare ver1 ver2)))"

definition IsNewerVersion :: "string \<Rightarrow> string \<Rightarrow> string + bool" where
  "IsNewerVersion v1 v2 =
     (case CompareVersionStrings v1 v2 of Inl err \<Rightarrow> Inl err | Inr r \<Rightarrow> Inr (0 < r))"

section \<open>Lemmas: numbers\<close>

lemma digits_of_digits: "list_all is_digit (digits_of n) \<and> digits_of n \<noteq> []"
proof (induction n rule: digits_of.induct)
  case (1 n)
  have digit: "k < 10 \<Longrightarrow> is_digit (char_of (48 + k))" for k :: nat by (simp add: is_digit_def)
  from 1 show ?case by (cases "n < 10") (simp_all add: digits_of.simps [of n] digit)
qed

lemma digits_value_snoc: "digits_value (s @ [c]) = 10 * digits_value s + digit_value c"
  by (simp add: digits_value_def)

lemma digits_value_of: "digits_value (digits_of n) = int n"
proof (induction n rule: digits_of.induct)
  case (1 n)
  show ?case
  proof (cases "n < 10")
    case True
    then show ?thesis by (simp add: digits_of.simps [of n] digits_value_def digit_value_def)
  next
    case False
    have "digits_value (digits_of n) = 10 * int (n div 10) + int (n mod 10)"
      using False 1 by (simp add: digits_of.simps [of n] digits_value_snoc digit_value_def)
    also have "\<dots> = int n" by (simp add: zdiv_int zmod_int)
    finally show ?thesis .
  qed
qed

lemma digits_no_sep:
  assumes "c \<in> {CHR ''.'', CHR ''-'', CHR ''+'', CHR ''v''}"
  shows "c \<notin> set (digits_of n)"
  using digits_of_digits [of n] assms by (auto simp: list_all_iff is_digit_def)

lemma Atoi_digits: "int n < 2 ^ 63 \<Longrightarrow> Atoi (digits_of n) = Some (int n)"
proof -
  assume n: "int n < 2 ^ 63"
  have hd: "hd (digits_of n) \<in> set (digits_of n)" using digits_of_digits [of n] by simp
  then have "hd (digits_of n) \<noteq> CHR ''-''" "hd (digits_of n) \<noteq> CHR ''+''"
    using digits_no_sep [of _ n] by auto
  then show ?thesis using n digits_of_digits [of n] by (simp add: Atoi_def digits_value_of)
qed

section \<open>Lemmas: splitting\<close>

lemma SplitN2_none: "sep \<notin> set s \<Longrightarrow> SplitN2 sep s = (s, None)"
  by (induction s) auto

lemma SplitN2_sep: "sep \<notin> set s \<Longrightarrow> SplitN2 sep (s @ sep # t) = (s, Some t)"
  by (induction s) auto

lemma Split_none: "sep \<notin> set s \<Longrightarrow> Split sep s = [s]"
  by (induction s) auto

lemma Split_nonempty [simp]: "Split sep s \<noteq> []"
  by (induction s) (auto split: list.split)

lemma Split_sep: "sep \<notin> set s \<Longrightarrow> Split sep (s @ sep # t) = s # Split sep t"
  by (induction s) (auto split: list.split)

section \<open>Properties\<close>

definition version_ok :: "version \<Rightarrow> bool" where
  "version_ok v \<longleftrightarrow> 0 \<le> vr_Major v \<and> vr_Major v < 2 ^ 63 \<and> 0 \<le> vr_Minor v \<and> vr_Minor v < 2 ^ 63 \<and>
     0 \<le> vr_Patch v \<and> vr_Patch v < 2 ^ 63 \<and> CHR ''+'' \<notin> set (vr_Prerelease v)"

lemma Itoa_nonneg: "0 \<le> n \<Longrightarrow> Itoa n = digits_of (nat n)"
  by (simp add: Itoa_def)

text \<open>Printing and parsing a version round-trips: for every version with components from \<open>0\<close> to
  \<open>2 ^ 63 - 1\<close> and a prerelease without a plus sign, \<open>ParseVersion\<close> of its \<open>String\<close>, with or without a
  leading \<open>v\<close>, is the version itself.\<close>

theorem version_round_trip:
  assumes "version_ok v"
  shows "ParseVersion (vr_String v) = Inr v \<and> ParseVersion (''v'' @ vr_String v) = Inr v"
proof -
  let ?M = "digits_of (nat (vr_Major v))" and ?m = "digits_of (nat (vr_Minor v))"
    and ?p = "digits_of (nat (vr_Patch v))"
  define core where "core = ?M @ ''.'' @ ?m @ ''.'' @ ?p"
  define rest where "rest = (if vr_Prerelease v \<noteq> [] then ''-'' @ vr_Prerelease v else [])"
  define tail where "tail = (if vr_Build v \<noteq> [] then ''+'' @ vr_Build v else [])"
  have nonneg: "0 \<le> vr_Major v" "0 \<le> vr_Minor v" "0 \<le> vr_Patch v" using assms by (auto simp: version_ok_def)
  have str: "vr_String v = core @ rest @ tail"
    by (simp add: vr_String_def core_def rest_def tail_def Itoa_nonneg nonneg)
  have core_seps: "CHR ''+'' \<notin> set core" "CHR ''-'' \<notin> set core"
    by (auto simp: core_def digits_no_sep)
  have plus: "CHR ''+'' \<notin> set (core @ rest)"
    using core_seps assms by (auto simp: rest_def version_ok_def)
  have s1: "SplitN2 CHR ''+'' (core @ rest @ tail) =
      (core @ rest, if vr_Build v \<noteq> [] then Some (vr_Build v) else None)"
    using SplitN2_none [OF plus] SplitN2_sep [OF plus, of "vr_Build v"] by (simp add: tail_def)
  have s2: "SplitN2 CHR ''-'' (core @ rest) =
      (core, if vr_Prerelease v \<noteq> [] then Some (vr_Prerelease v) else None)"
    using SplitN2_none [OF core_seps(2)] SplitN2_sep [OF core_seps(2), of "vr_Prerelease v"]
    by (simp add: rest_def)
  have s3: "Split CHR ''.'' core = [?M, ?m, ?p]"
    by (simp add: core_def Split_sep Split_none digits_no_sep)
  have nums: "Atoi ?M = Some (vr_Major v)" "Atoi ?m = Some (vr_Minor v)" "Atoi ?p = Some (vr_Patch v)"
    using assms by (auto simp: version_ok_def Atoi_digits)
  have ne: "core \<noteq> []" by (simp add: core_def)
  have "hd core \<noteq> CHR ''v''"
    using digits_no_sep [of "CHR ''v''" "nat (vr_Major v)"] digits_of_digits [of "nat (vr_Major v)"]
    by (metis core_def hd_append2 hd_in_set insertCI)
  then have trim: "TrimPrefix (core @ rest @ tail) ''v'' = core @ rest @ tail"
    "TrimPrefix (''v'' @ core @ rest @ tail) ''v'' = core @ rest @ tail"
    using ne by (auto simp: TrimPrefix_def neq_Nil_conv)
  show ?thesis
    unfolding str ParseVersion_def trim using ne by (simp add: s1 s2 s3 nums Let_def)
qed

theorem version_round_trip_witness:
  "ParseVersion (''v'' @ vr_String \<lparr>vr_Major = 1, vr_Minor = 20, vr_Patch = 3, vr_Prerelease = ''rc.1'',
      vr_Build = ''abc''\<rparr>) = Inr \<lparr>vr_Major = 1, vr_Minor = 20, vr_Patch = 3, vr_Prerelease = ''rc.1'',
      vr_Build = ''abc''\<rparr>"
  by (rule version_round_trip [THEN conjunct2]) (simp add: version_ok_def)

text \<open>The key by which \<open>Compare\<close> orders: a release comes after all its prereleases.\<close>

definition vr_key :: "version \<Rightarrow> int \<times> int \<times> int \<times> bool \<times> string" where
  "vr_key v = (vr_Major v, vr_Minor v, vr_Patch v, vr_Prerelease v = [], vr_Prerelease v)"

lemma vr_Compare_key:
  "vr_Compare a b = (if vr_key a < vr_key b then - 1 else if vr_key a = vr_key b then 0 else 1)"
  by (simp add: vr_Compare_def vr_key_def less_prod_simp)

text \<open>\<open>Compare\<close> is a total order on versions up to build metadata: it returns -1, 0 or 1, is
  antisymmetric, is 0 exactly for versions that differ in nothing but the build, and is transitive.\<close>

theorem vr_Compare_total_order:
  "vr_Compare a b \<in> {- 1, 0, 1} \<and> vr_Compare b a = - vr_Compare a b \<and>
   (vr_Compare a b = 0 \<longleftrightarrow> vr_key a = vr_key b) \<and>
   (vr_Compare a b < 0 \<and> vr_Compare b c < 0 \<longrightarrow> vr_Compare a c < 0)"
  unfolding vr_Compare_key by auto

theorem vr_Compare_total_order_witness:
  "let a = \<lparr>vr_Major = 1, vr_Minor = 0, vr_Patch = 0, vr_Prerelease = ''beta'', vr_Build = []\<rparr>;
       b = a\<lparr>vr_Prerelease := []\<rparr>; c = b\<lparr>vr_Patch := 1\<rparr>
   in vr_Compare a c < 0"
  using vr_Compare_total_order [of "\<lparr>vr_Major = 1, vr_Minor = 0, vr_Patch = 0, vr_Prerelease = ''beta'', vr_Build = []\<rparr>"
      "\<lparr>vr_Major = 1, vr_Minor = 0, vr_Patch = 0, vr_Prerelease = [], vr_Build = []\<rparr>"
      "\<lparr>vr_Major = 1, vr_Minor = 0, vr_Patch = 1, vr_Prerelease = [], vr_Build = []\<rparr>"]
  by (simp add: vr_Compare_def)

end
