(* ===== verification/Tool_Relationships.thy ===== *)
theory Tool_Relationships
  imports Prelude
begin

text \<open>
  The relationship manager of the edge server's tools
  (\<open>apps/edge-mcp/internal/tools/relationships.go\<close>): the relations between tools, the types of
  their inputs and outputs and the workflow templates, with the tables every manager starts from.
  The loops over maps are modelled in key order, so a listing is determined up to the order in
  which Go visits a map.
\<close>

section \<open>Data\<close>

record tool_relationship =
  tr_Prerequisites :: "string list"
  tr_CommonlyUsedWith :: "string list"
  tr_NextSteps :: "string list"
  tr_Alternatives :: "string list"
  tr_ConflictsWith :: "string list"

record data_type =
  dy_Format :: string
  dy_Schema :: string
  dy_ContentType :: string
  dy_Properties :: "(string, gval) fmap"

record io_compatibility =
  io_InputType :: data_type
  io_OutputType :: data_type

record rel_workflow_step =
  ws_Order :: int
  ws_ToolName :: string
  ws_Description :: string
  ws_Required :: bool
  ws_Condition :: string
  ws_InputFrom :: string
  ws_Parameters :: "(string, gval) fmap"

record workflow_template =
  wt_Name :: string
  wt_Description :: string
  wt_Category :: string
  wt_Steps :: "rel_workflow_step list"
  wt_Tags :: "string list"

record relationship_manager =
  rm_relationships :: "(string, tool_relationship) fmap"
  rm_ioCompatibility :: "(string, io_compatibility) fmap"
  rm_workflows :: "workflow_template list"

section \<open>The default tables\<close>

definition initializeDefaultRelationships :: "(string, tool_relationship) fmap" where
  "initializeDefaultRelationships = fmap_of_list
     [(''github_get_issue'',
        \<lparr>tr_Prerequisites = [],
         tr_CommonlyUsedWith = [''github_update_issue'', ''github_add_issue_comment'', ''github_list_issue_comments''],
         tr_NextSteps = [''github_update_issue'', ''github_add_issue_comment'', ''github_create_pull_request''],
         tr_Alternatives = [''github_search_issues''],
         tr_ConflictsWith = []\<rparr>),
      (''github_create_issue'',
        \<lparr>tr_Prerequisites = [''github_get_repository''],
         tr_CommonlyUsedWith = [''github_add_issue_comment'', ''github_update_issue''],
         tr_NextSteps = [''github_add_issue_comment'', ''github_assign_issue'', ''github_add_labels''],
         tr_Alternatives = [],
         tr_ConflictsWith = []\<rparr>),
      (''github_list_issues'',
        \<lparr>tr_Prerequisites = [],
         tr_CommonlyUsedWith = [''github_get_issue'', ''github_search_issues''],
         tr_NextSteps = [''github_get_issue'', ''github_update_issue'', ''github_create_issue''],
         tr_Alternatives = [''github_search_issues''],
         tr_ConflictsWith = []\<rparr>),
      (''github_create_pull_request'',
        \<lparr>tr_Prerequisites = [''github_create_branch'', ''github_push_files''],
         tr_CommonlyUsedWith = [''github_add_pull_request_review_comment'', ''github_request_reviewers''],
         tr_NextSteps = [''github_request_reviewers'', ''github_add_pull_request_review_comment'', ''github_merge_pull_request''],
         tr_Alternatives = [],
         tr_ConflictsWith = []\<rparr>),
      (''github_merge_pull_request'',
        \<lparr>tr_Prerequisites = [''github_get_pull_request'', ''github_get_pull_request_reviews''],
         tr_CommonlyUsedWith = [''github_delete_branch''],
         tr_NextSteps = [''github_delete_branch'', ''github_create_release''],
         tr_Alternatives = [],
         tr_ConflictsWith = [''github_update_pull_request'']\<rparr>),
      (''github_run_workflow'',
        \<lparr>tr_Prerequisites = [''github_list_workflows''],
         tr_CommonlyUsedWith = [''github_get_workflow_run'', ''github_list_workflow_jobs''],
         tr_NextSteps = [''github_get_workflow_run'', ''github_get_workflow_run_logs'', ''github_list_artifacts''],
         tr_Alternatives = [''github_rerun_workflow_run''],
         tr_ConflictsWith = []\<rparr>),
      (''github_cancel_workflow_run'',
        \<lparr>tr_Prerequisites = [''github_get_workflow_run''],
         tr_CommonlyUsedWith = [''github_rerun_workflow_run''],
         tr_NextSteps = [''github_rerun_workflow_run'', ''github_run_workflow''],
         tr_Alternatives = [],
         tr_ConflictsWith = [''github_get_workflow_run_logs'']\<rparr>),
      (''agent_heartbeat'',
        \<lparr>tr_Prerequisites = [],
         tr_CommonlyUsedWith = [''agent_status'', ''agent_list''],
         tr_NextSteps = [''task_assign'', ''task_get''],
         tr_Alternatives = [],
         tr_ConflictsWith = []\<rparr>),
      (''task_assign'',
        \<lparr>tr_Prerequisites = [''task_create'', ''agent_list''],
         tr_CommonlyUsedWith = [''task_get'', ''agent_status''],
         tr_NextSteps = [''task_get'', ''task_complete''],
         tr_Alternatives = [],
         tr_ConflictsWith = []\<rparr>),
      (''task_complete'',
        \<lparr>tr_Prerequisites = [''task_assign'', ''task_get''],
         tr_CommonlyUsedWith = [''context_update''],
         tr_NextSteps = [''task_create'', ''workflow_execute''],
         tr_Alternatives = [],
         tr_ConflictsWith = [''task_assign'']\<rparr>),
      (''workflow_create'',
        \<lparr>tr_Prerequisites = [],
         tr_CommonlyUsedWith = [''workflow_list'', ''template_get''],
         tr_NextSteps = [''workflow_execute'', ''workflow_get''],
         tr_Alternatives = [''template_instantiate''],
         tr_ConflictsWith = []\<rparr>),
      (''workflow_execute'',
        \<lparr>tr_Prerequisites = [''workflow_create''],
         tr_CommonlyUsedWith = [''workflow_execution_get'', ''context_update''],
         tr_NextSteps = [''workflow_execution_get'', ''task_list''],
         tr_Alternatives = [],
         tr_ConflictsWith = []\<rparr>),
      (''workflow_cancel'',
        \<lparr>tr_Prerequisites = [''workflow_execution_get''],
         tr_CommonlyUsedWith = [],
         tr_NextSteps = [''workflow_execute''],
         tr_Alternatives = [],
         tr_ConflictsWith = [''workflow_execution_get'']\<rparr>),
      (''context_update'',
        \<lparr>tr_Prerequisites = [],
         tr_CommonlyUsedWith = [''context_get'', ''context_append''],
         tr_NextSteps = [''workflow_execute'', ''task_create''],
         tr_Alternatives = [''context_append''],
         tr_ConflictsWith = []\<rparr>),
      (''context_get'',
        \<lparr>tr_Prerequisites = [],
         tr_CommonlyUsedWith = [''context_update'', ''context_append''],
         tr_NextSteps = [''context_update''],
         tr_Alternatives = [],
         tr_ConflictsWith = []\<rparr>),
      (''template_instantiate'',
        \<lparr>tr_Prerequisites = [''template_list'', ''template_get''],
         tr_CommonlyUsedWith = [''workflow_execute''],
         tr_NextSteps = [''workflow_execute'', ''workflow_get''],
         tr_Alternatives = [''workflow_create''],
         tr_ConflictsWith = []\<rparr>)]"

abbreviation mk_step ::
  "int \<Rightarrow> string \<Rightarrow> string \<Rightarrow> bool \<Rightarrow> string \<Rightarrow> string \<Rightarrow> (string, gval) fmap \<Rightarrow> rel_workflow_step" where
  "mk_step order tool descr required condition from parameters \<equiv>
     \<lparr>ws_Order = order, ws_ToolName = tool, ws_Description = descr, ws_Required = required,
      ws_Condition = condition, ws_InputFrom = from, ws_Parameters = parameters\<rparr>"

definition initializeDefaultWorkflows :: "workflow_template list" where
  "initializeDefaultWorkflows =
     [\<lparr>wt_Name = ''code_review_workflow'',
       wt_Description = ''Complete code review process from PR creation to merge'',
       wt_Category = ''pull_requests'',
       wt_Steps =
         [mk_step 1 ''github_create_branch'' ''Create feature branch'' True
            '''' '''' fmempty,
          mk_step 2 ''github_push_files'' ''Push code changes'' True
            '''' ''step_1'' fmempty,
          mk_step 3 ''github_create_pull_request'' ''Create PR for review'' True
            '''' ''step_2'' fmempty,
          mk_step 4 ''github_request_reviewers'' ''Request code reviewers'' False
            '''' ''step_3'' fmempty,
          mk_step 5 ''github_run_workflow'' ''Run CI/CD checks'' True
            '''' ''step_3'' fmempty,
          mk_step 6 ''github_get_pull_request_reviews'' ''Check review status'' True
            '''' ''step_3'' fmempty,
          mk_step 7 ''github_merge_pull_request'' ''Merge approved PR'' True
            ''all_reviews_approved'' ''step_6'' fmempty,
          mk_step 8 ''github_delete_branch'' ''Clean up feature branch'' False
            '''' ''step_7'' fmempty],
       wt_Tags = [''review'', ''collaboration'', ''quality'']\<rparr>,
      \<lparr>wt_Name = ''issue_resolution_workflow'',
       wt_Description = ''Complete issue resolution from creation to closure'',
       wt_Category = ''issues'',
       wt_Steps =
         [mk_step 1 ''github_create_issue'' ''Create new issue'' True
            '''' '''' fmempty,
          mk_step 2 ''github_add_labels'' ''Add appropriate labels'' False
            '''' ''step_1'' fmempty,
          mk_step 3 ''github_assign_issue'' ''Assign to developer'' True
            '''' ''step_1'' fmempty,
          mk_step 4 ''github_create_branch'' ''Create fix branch'' True
            '''' ''step_1'' fmempty,
          mk_step 5 ''github_push_files'' ''Push fix'' True
            '''' ''step_4'' fmempty,
          mk_step 6 ''github_create_pull_request'' ''Create PR with fix'' True
            '''' ''step_5'' (fmap_of_list [(''closes_issue'', VBool True)]),
          mk_step 7 ''github_merge_pull_request'' ''Merge fix'' True
            '''' ''step_6'' fmempty,
          mk_step 8 ''github_update_issue'' ''Close issue'' True
            '''' ''step_1'' (fmap_of_list [(''state'', VStr ''closed'')])],
       wt_Tags = [''bug'', ''fix'', ''tracking'']\<rparr>,
      \<lparr>wt_Name = ''deployment_workflow'',
       wt_Description = ''Deploy application through CI/CD pipeline'',
       wt_Category = ''ci_cd'',
       wt_Steps =
         [mk_step 1 ''github_get_latest_release'' ''Get current release'' True
            '''' '''' fmempty,
          mk_step 2 ''github_create_release'' ''Create new release'' True
            '''' '''' fmempty,
          mk_step 3 ''github_run_workflow'' ''Trigger deployment workflow'' True
            '''' ''step_2'' (fmap_of_list [(''workflow_id'', VStr ''deploy.yml'')]),
          mk_step 4 ''github_get_workflow_run'' ''Monitor deployment'' True
            '''' ''step_3'' fmempty,
          mk_step 5 ''github_list_workflow_jobs'' ''Check deployment jobs'' False
            '''' ''step_4'' fmempty,
          mk_step 6 ''github_get_workflow_run_logs'' ''Get deployment logs'' False
            ''on_failure'' ''step_4'' fmempty],
       wt_Tags = [''deployment'', ''release'', ''production'']\<rparr>,
      \<lparr>wt_Name = ''multi_agent_task_workflow'',
       wt_Description = ''Coordinate multiple agents for complex task'',
       wt_Category = ''agent'',
       wt_Steps =
         [mk_step 1 ''context_update'' ''Set task context'' True
            '''' '''' fmempty,
          mk_step 2 ''task_create'' ''Create main task'' True
            '''' ''step_1'' fmempty,
          mk_step 3 ''agent_list'' ''Get available agents'' True
            '''' '''' fmempty,
          mk_step 4 ''task_assign'' ''Assign to best agent'' True
            '''' ''step_2,step_3'' fmempty,
          mk_step 5 ''task_get'' ''Monitor task progress'' True
            '''' ''step_4'' fmempty,
          mk_step 6 ''task_create'' ''Create follow-up tasks'' False
            ''needs_subtasks'' ''step_5'' fmempty,
          mk_step 7 ''task_complete'' ''Complete main task'' True
            '''' ''step_5'' fmempty,
          mk_step 8 ''context_update'' ''Update context with results'' True
            '''' ''step_7'' fmempty],
       wt_Tags = [''orchestration'', ''multi-agent'', ''coordination'']\<rparr>]"

definition initializeIOCompatibility :: "(string, io_compatibility) fmap" where
  "initializeIOCompatibility = fmap_of_list
     [(''github_get_issue'',
        \<lparr>io_InputType =
           \<lparr>dy_Format = ''json'', dy_Schema = ''issue_identifier'', dy_ContentType = '''',
            dy_Properties = fmap_of_list [(''issue_number'', VStr ''integer''), (''owner'', VStr ''string''), (''repo'', VStr ''string'')]\<rparr>,
         io_OutputType =
           \<lparr>dy_Format = ''json'', dy_Schema = ''issue'', dy_ContentType = ''application/json'',
            dy_Properties = fmap_of_list [(''id'', VStr ''integer''), (''number'', VStr ''integer''), (''title'', VStr ''string''), (''body'', VStr ''string''), (''state'', VStr ''string'')]\<rparr>\<rparr>),
      (''github_create_issue'',
        \<lparr>io_InputType =
           \<lparr>dy_Format = ''json'', dy_Schema = ''issue_create'', dy_ContentType = '''',
            dy_Properties = fmap_of_list [(''title'', VStr ''string''), (''body'', VStr ''string''), (''labels'', VStr ''array''), (''assignees'', VStr ''array'')]\<rparr>,
         io_OutputType =
           \<lparr>dy_Format = ''json'', dy_Schema = ''issue'', dy_ContentType = ''application/json'',
            dy_Properties = fmempty\<rparr>\<rparr>),
      (''github_list_issues'',
        \<lparr>io_InputType =
           \<lparr>dy_Format = ''json'', dy_Schema = ''list_params'', dy_ContentType = '''',
            dy_Properties = fmap_of_list [(''state'', VStr ''string''), (''labels'', VStr ''string''), (''sort'', VStr ''string''), (''direction'', VStr ''string''), (''per_page'', VStr ''integer'')]\<rparr>,
         io_OutputType =
           \<lparr>dy_Format = ''json'', dy_Schema = ''issue_list'', dy_ContentType = ''application/json'',
            dy_Properties = fmap_of_list [(''issues'', VStr ''array[issue]''), (''total'', VStr ''integer'')]\<rparr>\<rparr>),
      (''github_create_pull_request'',
        \<lparr>io_InputType =
           \<lparr>dy_Format = ''json'', dy_Schema = ''pull_request_create'', dy_ContentType = '''',
            dy_Properties = fmap_of_list [(''title'', VStr ''string''), (''body'', VStr ''string''), (''head'', VStr ''string''), (''base'', VStr ''string'')]\<rparr>,
         io_OutputType =
           \<lparr>dy_Format = ''json'', dy_Schema = ''pull_request'', dy_ContentType = ''application/json'',
            dy_Properties = fmempty\<rparr>\<rparr>),
      (''workflow_create'',
        \<lparr>io_InputType =
           \<lparr>dy_Format = ''json'', dy_Schema = ''workflow_definition'', dy_ContentType = '''',
            dy_Properties = fmap_of_list [(''name'', VStr ''string''), (''description'', VStr ''string''), (''steps'', VStr ''array'')]\<rparr>,
         io_OutputType =
           \<lparr>dy_Format = ''json'', dy_Schema = ''workflow'', dy_ContentType = ''application/json'',
            dy_Properties = fmap_of_list [(''id'', VStr ''string''), (''name'', VStr ''string''), (''created_at'', VStr ''timestamp'')]\<rparr>\<rparr>),
      (''workflow_execute'',
        \<lparr>io_InputType =
           \<lparr>dy_Format = ''json'', dy_Schema = ''workflow_execution_params'', dy_ContentType = '''',
            dy_Properties = fmap_of_list [(''workflow_id'', VStr ''string''), (''input'', VStr ''object'')]\<rparr>,
         io_OutputType =
           \<lparr>dy_Format = ''json'', dy_Schema = ''workflow_execution'', dy_ContentType = ''application/json'',
            dy_Properties = fmap_of_list [(''execution_id'', VStr ''string''), (''status'', VStr ''string'')]\<rparr>\<rparr>),
      (''task_create'',
        \<lparr>io_InputType =
           \<lparr>dy_Format = ''json'', dy_Schema = ''task_definition'', dy_ContentType = '''',
            dy_Properties = fmap_of_list [(''title'', VStr ''string''), (''description'', VStr ''string''), (''priority'', VStr ''string''), (''type'', VStr ''string'')]\<rparr>,
         io_OutputType =
           \<lparr>dy_Format = ''json'', dy_Schema = ''task'', dy_ContentType = ''application/json'',
            dy_Properties = fmap_of_list [(''id'', VStr ''string''), (''status'', VStr ''string''), (''created_at'', VStr ''timestamp'')]\<rparr>\<rparr>),
      (''context_update'',
        \<lparr>io_InputType =
           \<lparr>dy_Format = ''json'', dy_Schema = ''context_data'', dy_ContentType = '''',
            dy_Properties = fmap_of_list [(''session_id'', VStr ''string''), (''context'', VStr ''object''), (''merge'', VStr ''boolean'')]\<rparr>,
         io_OutputType =
           \<lparr>dy_Format = ''json'', dy_Schema = ''context'', dy_ContentType = ''application/json'',
            dy_Properties = fmap_of_list [(''version'', VStr ''integer''), (''updated_at'', VStr ''timestamp'')]\<rparr>\<rparr>)]"

definition NewRelationshipManager :: relationship_manager where
  "NewRelationshipManager =
     \<lparr>rm_relationships = initializeDefaultRelationships, rm_ioCompatibility = initializeIOCompatibility,
      rm_workflows = initializeDefaultWorkflows\<rparr>"

section \<open>Operations\<close>

definition rm_GetRelationship :: "string \<Rightarrow> relationship_manager \<Rightarrow> tool_relationship option" where
  "rm_GetRelationship toolName rm = fmlookup (rm_relationships rm) toolName"

definition rm_GetIOCompatibility :: "string \<Rightarrow> relationship_manager \<Rightarrow> io_compatibility option" where
  "rm_GetIOCompatibility toolName rm = fmlookup (rm_ioCompatibility rm) toolName"

definition rm_GetWorkflowsForCategory :: "string \<Rightarrow> relationship_manager \<Rightarrow> workflow_template list" where
  "rm_GetWorkflowsForCategory category rm =
     foldl (\<lambda>workflows wft. if wt_Category wft = category then workflows @ [wft] else workflows) []
       (rm_workflows rm)"

fun steps_contain :: "string \<Rightarrow> rel_workflow_step list \<Rightarrow> bool" where
  "steps_contain toolName [] = False"
| "steps_contain toolName (st # sts) = (if ws_ToolName st = toolName then True else steps_contain toolName sts)"

definition rm_GetWorkflowsWithTool :: "string \<Rightarrow> relationship_manager \<Rightarrow> workflow_template list" where
  "rm_GetWorkflowsWithTool toolName rm =
     foldl (\<lambda>workflows wft. if steps_contain toolName (wt_Steps wft) then workflows @ [wft] else workflows) []
       (rm_workflows rm)"

text \<open>The loops that look for a string in a slice.\<close>

fun slice_contains :: "string list \<Rightarrow> string \<Rightarrow> bool" where
  "slice_contains [] x = False"
| "slice_contains (y # ys) x = (if y = x then True else slice_contains ys x)"

definition schema_families :: "string list list" where
  "schema_families =
     [[''issue'', ''issue_identifier'', ''issue_create'', ''issue_list''],
      [''pull_request'', ''pull_request_identifier'', ''pull_request_create''],
      [''workflow'', ''workflow_definition'', ''workflow_execution_params'', ''workflow_execution''],
      [''task'', ''task_definition'', ''task_identifier''],
      [''context'', ''context_data''],
      [''agent'', ''agent_status'']]"

definition isRelatedSchema :: "string \<Rightarrow> string \<Rightarrow> bool" where
  "isRelatedSchema schema1 schema2 =
     list_ex (\<lambda>family.
         let (contains1, contains2) =
               foldl (\<lambda>(c1, c2) schema. (if schema = schema1 then True else c1, if schema = schema2 then True else c2))
                 (False, False) family
         in contains1 \<and> contains2) schema_families"

definition transformations :: "(string, string list) fmap" where
  "transformations = fmap_of_list
     [(''issue'', [''issue_identifier'', ''issue_create'', ''pull_request_create'']),
      (''pull_request'', [''issue_create'', ''pull_request_identifier'']),
      (''workflow'', [''workflow_execution_params'']),
      (''workflow_execution'', [''task_definition'']),
      (''task'', [''context_data'']),
      (''issue_list'', [''issue_identifier'', ''issue'']),
      (''context'', [''task_definition'', ''workflow_execution_params''])]"

definition canTransform :: "string \<Rightarrow> string \<Rightarrow> bool" where
  "canTransform fromSchema toSchema =
     (case fmlookup transformations fromSchema of
        None \<Rightarrow> False
      | Some allowed \<Rightarrow> slice_contains allowed toSchema)"

definition rm_CheckCompatibility :: "string \<Rightarrow> string \<Rightarrow> relationship_manager \<Rightarrow> bool \<times> string" where
  "rm_CheckCompatibility sourceTool targetTool rm =
     (case (fmlookup (rm_ioCompatibility rm) sourceTool, fmlookup (rm_ioCompatibility rm) targetTool) of
        (Some sourceIO, Some targetIO) \<Rightarrow>
          let out = dy_Schema (io_OutputType sourceIO); inp = dy_Schema (io_InputType targetIO)
          in if out = inp then (True, ''direct compatibility'')
             else if canTransform out inp
             then (True, ''compatible with transformation from '' @ out @ '' to '' @ inp)
             else if dy_Format (io_OutputType sourceIO) = dy_Format (io_InputType targetIO) \<and>
                     isRelatedSchema out inp
             then (True, ''format compatible, may need transformation'')
             else (False, ''incompatible types: '' @ out @ '' -> '' @ inp)
      | _ \<Rightarrow> (False, ''compatibility information not available''))"

text \<open>A set built as a \<open>map[string]bool\<close>.\<close>

definition string_set :: "string list \<Rightarrow> (string, bool) fmap" where
  "string_set xs = foldl (\<lambda>m x. fmupd x True m) fmempty xs"

definition missing :: "(string, bool) fmap \<Rightarrow> string list \<Rightarrow> string list" where
  "missing available xs = foldl (\<lambda>acc x. if \<not> fmget False available x then acc @ [x] else acc) [] xs"

definition rm_ValidateDependencies :: "string \<Rightarrow> string list \<Rightarrow> relationship_manager \<Rightarrow> bool \<times> string list" where
  "rm_ValidateDependencies toolName availableTools rm =
     (case fmlookup (rm_relationships rm) toolName of
        None \<Rightarrow> (True, [])
      | Some rel \<Rightarrow>
          let missingPrereqs = missing (string_set availableTools) (tr_Prerequisites rel)
          in (length missingPrereqs = 0, missingPrereqs))"

definition rm_ValidateWorkflow :: "workflow_template \<Rightarrow> string list \<Rightarrow> bool \<times> string list" where
  "rm_ValidateWorkflow wft availableTools =
     (let missingTools = missing (string_set availableTools) (map ws_ToolName (wt_Steps wft))
      in (length missingTools = 0, missingTools))"

definition rm_SuggestNextTools :: "string \<Rightarrow> relationship_manager \<Rightarrow> string list" where
  "rm_SuggestNextTools currentTool rm =
     (case fmlookup (rm_relationships rm) currentTool of
        None \<Rightarrow> []
      | Some rel \<Rightarrow>
          let suggestions = foldl (\<lambda>m tool. fmupd tool True m) fmempty (tr_NextSteps rel);
              suggestions = foldl (\<lambda>m tool. fmupd tool True m) suggestions (tr_CommonlyUsedWith rel)
          in foldl (\<lambda>result (tool, _). result @ [tool]) [] (go_range suggestions))"

definition rm_GetAlternatives :: "string \<Rightarrow> relationship_manager \<Rightarrow> string list" where
  "rm_GetAlternatives toolName rm =
     (case fmlookup (rm_relationships rm) toolName of None \<Rightarrow> [] | Some rel \<Rightarrow> tr_Alternatives rel)"

definition rm_CheckConflicts :: "string \<Rightarrow> string \<Rightarrow> relationship_manager \<Rightarrow> bool" where
  "rm_CheckConflicts tool1 tool2 rm =
     (let lists = (\<lambda>a b. case fmlookup (rm_relationships rm) a of
            None \<Rightarrow> False | Some rel \<Rightarrow> slice_contains (tr_ConflictsWith rel) b)
      in if lists tool1 tool2 then True else lists tool2 tool1)"

fun find_workflow :: "string \<Rightarrow> workflow_template list \<Rightarrow> workflow_template option" where
  "find_workflow name [] = None"
| "find_workflow name (wft # wfts) = (if wt_Name wft = name then Some wft else find_workflow name wfts)"

definition rm_GetWorkflowByName :: "string \<Rightarrow> relationship_manager \<Rightarrow> workflow_template option" where
  "rm_GetWorkflowByName name rm = find_workflow name (rm_workflows rm)"

definition rm_GetAllWorkflows :: "relationship_manager \<Rightarrow> workflow_template list" where
  "rm_GetAllWorkflows rm = rm_workflows rm"

section \<open>What the default tables say\<close>

text \<open>
  The default tables ask for tools they exclude: \<open>task_complete\<close> has \<open>task_assign\<close> as a prerequisite
  and as a conflict, and \<open>workflow_cancel\<close> has \<open>workflow_execution_get\<close> as both.
\<close>

lemma default_prerequisites_conflict:
  "\<exists>rel. rm_GetRelationship ''task_complete'' NewRelationshipManager = Some rel \<and>
      ''task_assign'' \<in> set (tr_Prerequisites rel) \<and>
      rm_CheckConflicts ''task_complete'' ''task_assign'' NewRelationshipManager"
  "\<exists>rel. rm_GetRelationship ''workflow_cancel'' NewRelationshipManager = Some rel \<and>
      ''workflow_execution_get'' \<in> set (tr_Prerequisites rel) \<and>
      rm_CheckConflicts ''workflow_cancel'' ''workflow_execution_get'' NewRelationshipManager"
  by (simp_all add: rm_GetRelationship_def rm_CheckConflicts_def NewRelationshipManager_def
      initializeDefaultRelationships_def fmlookup_of_list)

text \<open>The steps of the default workflows are numbered from one without gaps.\<close>

lemma default_workflow_orders:
  "list_all (\<lambda>w. map ws_Order (wt_Steps w) = [1..int (length (wt_Steps w))]) initializeDefaultWorkflows"
  by (simp add: initializeDefaultWorkflows_def upto_rec1)

end
