(* ===== verification/Tool_Registry.thy ===== *)
theory Tool_Registry
  imports Tool_Relationships
begin

text \<open>
  The tool registry of the edge server (\<open>apps/edge-mcp/internal/tools/registry.go\<close>), which
  consults the relationship manager.  A tool handler is a function from its arguments to an error
  or a value; contexts are left out.  The loops over maps are modelled in key order, so a listing
  is determined up to the order in which Go visits a map.
\<close>

section \<open>Model\<close>

type_synonym json = string
type_synonym tool_handler = "json \<Rightarrow> string + gval"

record tool_definition =
  td_Name :: string
  td_Description :: string
  td_InputSchema :: "(string, gval) fmap"
  td_Handler :: "tool_handler option"
  td_Category :: string
  td_Tags :: "string list"
  td_Prerequisites :: "string list"
  td_CommonlyUsedWith :: "string list"
  td_NextSteps :: "string list"
  td_Alternatives :: "string list"
  td_ConflictsWith :: "string list"
  td_IOCompatibility :: "io_compatibility option"

record registry =
  rg_tools :: "(string, tool_definition) fmap"
  rg_relationships :: relationship_manager

datatype tool_error =
    ToolNotFoundError string
  | ToolConfigError string string
  | HandlerError string

fun tool_error_Error :: "tool_error \<Rightarrow> string" where
  "tool_error_Error (ToolNotFoundError name) = ''tool not found: '' @ name"
| "tool_error_Error (ToolConfigError name reason) = ''tool '' @ name @ '' configuration error: '' @ reason"
| "tool_error_Error (HandlerError e) = e"

definition NewRegistry :: registry where
  "NewRegistry = \<lparr>rg_tools = fmempty, rg_relationships = NewRelationshipManager\<rparr>"

definition rg_Register :: "tool_definition list \<Rightarrow> registry \<Rightarrow> registry" where
  "rg_Register defs r = foldl (\<lambda>r def. r\<lparr>rg_tools := fmupd (td_Name def) def (rg_tools r)\<rparr>) r defs"

definition rg_RegisterRemote :: "tool_definition \<Rightarrow> registry \<Rightarrow> registry" where
  "rg_RegisterRemote tool r = r\<lparr>rg_tools := fmupd (td_Name tool) tool (rg_tools r)\<rparr>"

definition rg_ListAll :: "registry \<Rightarrow> tool_definition list" where
  "rg_ListAll r = foldl (\<lambda>tools (_, tool). tools @ [tool]) [] (go_range (rg_tools r))"

definition rg_ListByCategory :: "string \<Rightarrow> registry \<Rightarrow> tool_definition list" where
  "rg_ListByCategory category r =
     foldl (\<lambda>tools (_, tool). if td_Category tool = category then tools @ [tool] else tools) []
       (go_range (rg_tools r))"

fun all_in :: "(string, bool) fmap \<Rightarrow> string list \<Rightarrow> bool" where
  "all_in tagMap [] = True"
| "all_in tagMap (tag # tags) = (if \<not> fmget False tagMap tag then False else all_in tagMap tags)"

definition hasAllTags :: "string list \<Rightarrow> string list \<Rightarrow> bool" where
  "hasAllTags toolTags requiredTags = all_in (string_set toolTags) requiredTags"

definition rg_ListByTags :: "string list \<Rightarrow> registry \<Rightarrow> tool_definition list" where
  "rg_ListByTags tags r =
     foldl (\<lambda>tools (_, tool). if hasAllTags (td_Tags tool) tags then tools @ [tool] else tools) []
       (go_range (rg_tools r))"

definition rg_ListWithFilter :: "string \<Rightarrow> string list \<Rightarrow> registry \<Rightarrow> tool_definition list" where
  "rg_ListWithFilter category tags r =
     foldl (\<lambda>tools (_, tool).
         if category \<noteq> '''' \<and> td_Category tool \<noteq> category then tools
         else if 0 < length tags \<and> \<not> hasAllTags (td_Tags tool) tags then tools
         else tools @ [tool]) [] (go_range (rg_tools r))"

definition rg_Execute :: "registry \<Rightarrow> string \<Rightarrow> json \<Rightarrow> tool_error + gval" where
  "rg_Execute r name args =
     (case fmlookup (rg_tools r) name of
        None \<Rightarrow> Inl (ToolNotFoundError name)
      | Some tool \<Rightarrow>
          (case td_Handler tool of
             None \<Rightarrow> Inl (ToolConfigError name ''no handler configured'')
           | Some handler \<Rightarrow>
               (case handler args of Inl e \<Rightarrow> Inl (HandlerError e) | Inr v \<Rightarrow> Inr v)))"

definition rg_Get :: "string \<Rightarrow> registry \<Rightarrow> tool_definition option" where
  "rg_Get name r = fmlookup (rg_tools r) name"

definition rg_Count :: "registry \<Rightarrow> int" where
  "rg_Count r = int (fcard (fmdom (rg_tools r)))"

definition rg_names :: "registry \<Rightarrow> string list" where
  "rg_names r = foldl (\<lambda>names (name, _). names @ [name]) [] (go_range (rg_tools r))"

definition rg_ValidateToolDependencies :: "string \<Rightarrow> registry \<Rightarrow> bool \<times> string list" where
  "rg_ValidateToolDependencies toolName r =
     rm_ValidateDependencies toolName (rg_names r) (rg_relationships r)"

definition rg_available :: "string list \<Rightarrow> registry \<Rightarrow> string list" where
  "rg_available xs r =
     foldl (\<lambda>acc tool. if fmlookup (rg_tools r) tool \<noteq> None then acc @ [tool] else acc) [] xs"

definition rg_SuggestNextTools :: "string \<Rightarrow> registry \<Rightarrow> string list" where
  "rg_SuggestNextTools currentTool r =
     rg_available (rm_SuggestNextTools currentTool (rg_relationships r)) r"

definition rg_GetAlternativeTools :: "string \<Rightarrow> registry \<Rightarrow> string list" where
  "rg_GetAlternativeTools toolName r =
     rg_available (rm_GetAlternatives toolName (rg_relationships r)) r"

definition rg_ValidateWorkflow :: "workflow_template \<Rightarrow> registry \<Rightarrow> bool \<times> string list" where
  "rg_ValidateWorkflow wft r = rm_ValidateWorkflow wft (rg_names r)"

definition rg_EnrichToolWithRelationships :: "registry \<Rightarrow> tool_definition \<Rightarrow> tool_definition" where
  "rg_EnrichToolWithRelationships r tool0 =
     (let tool =
            (case rm_GetRelationship (td_Name tool0) (rg_relationships r) of
               None \<Rightarrow> tool0
             | Some rel \<Rightarrow>
                 tool0\<lparr>td_Prerequisites := tr_Prerequisites rel,
                       td_CommonlyUsedWith := tr_CommonlyUsedWith rel,
                       td_NextSteps := tr_NextSteps rel,
                       td_Alternatives := tr_Alternatives rel,
                       td_ConflictsWith := tr_ConflictsWith rel\<rparr>)
      in case rm_GetIOCompatibility (td_Name tool) (rg_relationships r) of
           None \<Rightarrow> tool
         | Some io \<Rightarrow> tool\<lparr>td_IOCompatibility := Some io\<rparr>)"

definition rg_ListAllEnriched :: "registry \<Rightarrow> tool_definition list" where
  "rg_ListAllEnriched r =
     foldl (\<lambda>tools (_, tool). tools @ [rg_EnrichToolWithRelationships r tool]) [] (go_range (rg_tools r))"

section \<open>Lemmas\<close>

lemma slice_contains_set [simp]: "slice_contains xs x \<longleftrightarrow> x \<in> set xs"
  by (induction xs) auto

lemma string_set_get: "fmget False (string_set xs) x \<longleftrightarrow> x \<in> set xs"
proof -
  have "fmget False (foldl (\<lambda>m x. fmupd x True m) m xs) x \<longleftrightarrow> x \<in> set xs \<or> fmget False m x" for m
    by (induction xs arbitrary: m) auto
  then show ?thesis by (simp add: string_set_def)
qed

lemma all_in_set: "all_in m xs \<longleftrightarrow> (\<forall>x \<in> set xs. fmget False m x)"
  by (induction xs) auto

lemma hasAllTags_subset: "hasAllTags toolTags requiredTags \<longleftrightarrow> set requiredTags \<subseteq> set toolTags"
  by (auto simp: hasAllTags_def all_in_set string_set_get)

lemma foldl_keep:
  "foldl (\<lambda>acc (k, x). if P x then acc @ [x] else acc) acc xs = acc @ filter P (map snd xs)"
  by (induction xs arbitrary: acc) auto

lemma foldl_select: "foldl (\<lambda>acc x. if P x then acc @ [x] else acc) acc xs = acc @ filter P xs"
  by (induction xs arbitrary: acc) auto

lemma foldl_keys: "foldl (\<lambda>acc (k, x). acc @ [k]) acc xs = acc @ map fst xs"
  by (induction xs arbitrary: acc) auto

lemma set_values: "x \<in> set (map snd (go_range m)) \<longleftrightarrow> (\<exists>k. fmlookup m k = Some x)"
proof -
  have "x \<in> set (map snd (go_range m)) \<longleftrightarrow> (\<exists>k. (k, x) \<in> set (go_range m))"
    by (simp add: image_iff Bex_def)
  then show ?thesis by (simp add: set_go_range)
qed

lemma missing_filter: "missing m xs = filter (\<lambda>x. \<not> fmget False m x) xs"
  by (simp add: missing_def foldl_select)

lemma set_rg_names: "set (rg_names r) = fset (fmdom (rg_tools r))"
  using fst_enumerates [OF go_range_enumerates, of "rg_tools r"] by (simp add: rg_names_def foldl_keys)

lemma rg_ListWithFilter_filter:
  "rg_ListWithFilter category tags r =
     filter (\<lambda>t. (category = '''' \<or> td_Category t = category) \<and> set tags \<subseteq> set (td_Tags t))
       (map snd (go_range (rg_tools r)))"
proof -
  have "rg_ListWithFilter category tags r =
      foldl (\<lambda>acc (k, t). if (category = '''' \<or> td_Category t = category) \<and> set tags \<subseteq> set (td_Tags t)
        then acc @ [t] else acc) [] (go_range (rg_tools r))"
    unfolding rg_ListWithFilter_def
    by (intro arg_cong2 [where f = "\<lambda>f xs. foldl f [] xs"]) (auto simp: fun_eq_iff hasAllTags_subset)
  then show ?thesis by (simp add: foldl_keep)
qed

lemma rg_Register_lookup:
  "fmlookup (rg_tools (rg_Register defs r)) name =
     (case find (\<lambda>d. td_Name d = name) (rev defs) of Some d \<Rightarrow> Some d | None \<Rightarrow> fmlookup (rg_tools r) name)"
proof (induction defs rule: rev_induct)
  case (snoc d ds)
  then show ?case by (auto simp: rg_Register_def split: option.splits)
qed (simp add: rg_Register_def)

section \<open>Properties\<close>

text \<open>Filtered listings are exact: a tool is listed by \<open>ListWithFilter\<close> exactly when it is
  registered, has the requested category (or none is requested) and carries every requested tag, and no
  tool is listed twice when names are keys of their tools.\<close>

theorem rg_ListWithFilter_exact:
  assumes "\<And>n t. rg_Get n r = Some t \<Longrightarrow> td_Name t = n"
  shows "set (rg_ListWithFilter category tags r) =
      {t. rg_Get (td_Name t) r = Some t \<and> (category = '''' \<or> td_Category t = category) \<and>
          set tags \<subseteq> set (td_Tags t)} \<and>
    distinct (rg_ListWithFilter category tags r)"
proof -
  have "distinct (map snd (go_range (rg_tools r)))"
  proof -
    have "map td_Name (map snd (go_range (rg_tools r))) = map fst (go_range (rg_tools r))"
      using assms by (auto simp: set_go_range rg_Get_def intro!: map_cong)
    then show ?thesis
      using go_range_enumerates [of "rg_tools r"] by (metis distinct_map enumerates_def)
  qed
  moreover have "(\<exists>n. fmlookup (rg_tools r) n = Some t) \<longleftrightarrow> rg_Get (td_Name t) r = Some t" for t
    using assms by (auto simp: rg_Get_def)
  then have "t \<in> set (map snd (go_range (rg_tools r))) \<longleftrightarrow> rg_Get (td_Name t) r = Some t" for t
    by (simp only: set_values)
  ultimately show ?thesis
    unfolding rg_ListWithFilter_filter set_filter by (intro conjI) (blast, simp)
qed

theorem rg_ListWithFilter_exact_witness:
  "let t = \<lparr>td_Name = ''a'', td_Description = '''', td_InputSchema = fmempty, td_Handler = None, td_Category = ''ci'', td_Tags = [''read''],
            td_Prerequisites = [], td_CommonlyUsedWith = [], td_NextSteps = [], td_Alternatives = [],
            td_ConflictsWith = [], td_IOCompatibility = None\<rparr>;
       r = rg_RegisterRemote t NewRegistry
   in t \<in> set (rg_ListWithFilter ''ci'' [''read''] r)"
  unfolding Let_def
  by (subst rg_ListWithFilter_exact [THEN conjunct1])
    (auto simp: rg_Get_def rg_RegisterRemote_def NewRegistry_def split: if_splits)

text \<open>Dependency checks are exact: \<open>ValidateToolDependencies\<close> reports success exactly when every
  prerequisite of the tool is registered, and otherwise lists precisely the unregistered ones; the
  suggested next tools are registered, and conflicts are symmetric.\<close>

theorem rg_dependencies_exact:
  "fst (rg_ValidateToolDependencies tool r) = (snd (rg_ValidateToolDependencies tool r) = []) \<and>
   set (snd (rg_ValidateToolDependencies tool r)) =
     {p. \<exists>rel. fmlookup (rm_relationships (rg_relationships r)) tool = Some rel \<and>
        p \<in> set (tr_Prerequisites rel) \<and> rg_Get p r = None} \<and>
   set (rg_SuggestNextTools tool r) \<subseteq> {t. rg_Get t r \<noteq> None} \<and>
   rm_CheckConflicts tool tool' (rg_relationships r) = rm_CheckConflicts tool' tool (rg_relationships r)"
proof (intro conjI)
  show "fst (rg_ValidateToolDependencies tool r) = (snd (rg_ValidateToolDependencies tool r) = [])"
    by (simp add: rg_ValidateToolDependencies_def rm_ValidateDependencies_def Let_def split: option.split)
  show "set (snd (rg_ValidateToolDependencies tool r)) =
     {p. \<exists>rel. fmlookup (rm_relationships (rg_relationships r)) tool = Some rel \<and>
        p \<in> set (tr_Prerequisites rel) \<and> rg_Get p r = None}"
    by (auto simp: rg_ValidateToolDependencies_def rm_ValidateDependencies_def Let_def missing_filter
        string_set_get set_rg_names rg_Get_def fmlookup_dom_iff split: option.splits)
  show "set (rg_SuggestNextTools tool r) \<subseteq> {t. rg_Get t r \<noteq> None}"
    by (auto simp: rg_SuggestNextTools_def rg_available_def foldl_select rg_Get_def)
  show "rm_CheckConflicts tool tool' (rg_relationships r) = rm_CheckConflicts tool' tool (rg_relationships r)"
    by (simp add: rm_CheckConflicts_def Let_def split: option.split)
qed

end
