(* ===== verification/Batch_Executor.thy ===== *)
theory Batch_Executor
  imports Tool_Registry
begin

text \<open>
  Batches of tool calls (\<open>apps/edge-mcp/internal/mcp/batch.go\<close>).  The executor relies on the
  registry through one operation, which the locale \<open>tool_source\<close> states and the registry
  provides.  \<open>done i\<close> says whether the batch context has ended when the call at index \<open>i\<close>
  looks; durations are left out.  The parallel mode fills every place of the result slice, in
  whatever order the goroutines run; with no slot of concurrency every goroutine waits for the end
  of the context, which the timeout brings, and a negative number of slots makes \<open>make\<close> panic.
\<close>

section \<open>Model\<close>

record batch_config =
  ba_MaxBatchSize :: int
  ba_EnableParallelExecution :: bool
  ba_ContinueOnError :: bool
  ba_Timeout :: duration
  ba_MaxConcurrency :: int

definition DefaultBatchConfig :: batch_config where
  "DefaultBatchConfig = \<lparr>ba_MaxBatchSize = 10, ba_EnableParallelExecution = True,
     ba_ContinueOnError = True, ba_Timeout = 5 * minute, ba_MaxConcurrency = 5\<rparr>"

record batch_tool_call =
  bt_ID :: string
  bt_Name :: string
  bt_Arguments :: json

record batch_request =
  bq_Tools :: "batch_tool_call list"
  bq_Parallel :: "bool option"

record batch_tool_result =
  br_ID :: string
  br_Name :: string
  br_Status :: string
  br_Result :: gval
  br_Error :: string
  br_Index :: nat

record batch_response =
  bp_Results :: "batch_tool_result list"
  bp_SuccessCount :: int
  bp_ErrorCount :: int
  bp_Parallel :: bool

text \<open>The errors \<open>Execute\<close> and \<open>ValidateBatchRequest\<close> format, with their arguments, and the panic of \<open>make(chan struct{}, n)\<close>.\<close>

datatype batch_error =
    BatchNil
  | BatchEmpty
  | BatchTooLarge nat int
  | ToolNameEmpty nat
  | MakeChanPanic

type_synonym tool_exec = "string \<Rightarrow> json \<Rightarrow> tool_error + gval"

definition cancelled_result :: "batch_tool_call \<Rightarrow> nat \<Rightarrow> batch_tool_result" where
  "cancelled_result tool i =
     \<lparr>br_ID = bt_ID tool, br_Name = bt_Name tool, br_Status = ''error'', br_Result = VNil,
      br_Error = ''batch execution timeout or cancelled'', br_Index = i\<rparr>"

definition executeSingleTool :: "tool_exec \<Rightarrow> batch_tool_call \<Rightarrow> nat \<Rightarrow> batch_tool_result" where
  "executeSingleTool exec toolCall index =
     (let result = \<lparr>br_ID = bt_ID toolCall, br_Name = bt_Name toolCall, br_Status = '''', br_Result = VNil,
            br_Error = '''', br_Index = index\<rparr>
      in case exec (bt_Name toolCall) (bt_Arguments toolCall) of
           Inl err \<Rightarrow> result\<lparr>br_Status := ''error'', br_Error := tool_error_Error err\<rparr>
         | Inr v \<Rightarrow> result\<lparr>br_Status := ''success'', br_Result := v\<rparr>)"

text \<open>
  Each goroutine writes its own place of the slice: the result is the update of every index,
  here in the order of the list \<open>sched\<close>, the order in which the goroutines finish.
\<close>

definition parallel_result ::
  "batch_config \<Rightarrow> tool_exec \<Rightarrow> (nat \<Rightarrow> bool) \<Rightarrow> batch_tool_call list \<Rightarrow> nat \<Rightarrow> batch_tool_result" where
  "parallel_result config exec done tools i =
     (if done i \<or> ba_MaxConcurrency config = 0 then cancelled_result (tools ! i) i
      else executeSingleTool exec (tools ! i) i)"

definition executeParallel ::
  "batch_config \<Rightarrow> tool_exec \<Rightarrow> (nat \<Rightarrow> bool) \<Rightarrow> nat list \<Rightarrow> batch_tool_call list \<Rightarrow>
   batch_error + batch_tool_result list" where
  "executeParallel config exec done sched tools =
     (if ba_MaxConcurrency config < 0 then Inl MakeChanPanic
      else
        let zero = \<lparr>br_ID = '''', br_Name = '''', br_Status = '''', br_Result = VNil, br_Error = '''', br_Index = 0\<rparr>
        in Inr (foldl (\<lambda>results i. results[i := parallel_result config exec done tools i])
             (replicate (length tools) zero) sched))"

text \<open>
  In the sequential loop the \<open>break\<close> of the cancellation case leaves the \<open>select\<close>, not the
  loop: without \<open>ContinueOnError\<close> a cancelled call is recorded and then executed.
\<close>

fun executeSequential_loop ::
  "batch_config \<Rightarrow> tool_exec \<Rightarrow> (nat \<Rightarrow> bool) \<Rightarrow> nat \<Rightarrow> batch_tool_call list \<Rightarrow> batch_tool_result list \<Rightarrow>
   batch_tool_result list" where
  "executeSequential_loop config exec done i [] results = results"
| "executeSequential_loop config exec done i (tool # tools) results =
     (if done i \<and> ba_ContinueOnError config
      then executeSequential_loop config exec done (i + 1) tools (results @ [cancelled_result tool i])
      else
        let results = (if done i then results @ [cancelled_result tool i] else results);
            result = executeSingleTool exec tool i;
            results = results @ [result]
        in if \<not> ba_ContinueOnError config \<and> br_Status result = ''error'' then results
           else executeSequential_loop config exec done (i + 1) tools results)"

definition executeSequential ::
  "batch_config \<Rightarrow> tool_exec \<Rightarrow> (nat \<Rightarrow> bool) \<Rightarrow> batch_tool_call list \<Rightarrow> batch_tool_result list" where
  "executeSequential config exec done tools = executeSequential_loop config exec done 0 tools []"

definition batch_summary :: "bool \<Rightarrow> batch_tool_result list \<Rightarrow> batch_response" where
  "batch_summary parallel results =
     (let (successCount, errorCount) =
        foldl (\<lambda>(s, e) result. if br_Status result = ''success'' then (s + 1, e) else (s, e + 1)) (0, 0) results
      in \<lparr>bp_Results = results, bp_SuccessCount = successCount, bp_ErrorCount = errorCount,
          bp_Parallel = parallel\<rparr>)"

definition be_Execute ::
  "registry \<Rightarrow> batch_config \<Rightarrow> (nat \<Rightarrow> bool) \<Rightarrow> nat list \<Rightarrow> batch_request \<Rightarrow> batch_error + batch_response" where
  "be_Execute r config done sched request =
     (if length (bq_Tools request) = 0 then Inl BatchEmpty
      else if ba_MaxBatchSize config < int (length (bq_Tools request))
      then Inl (BatchTooLarge (length (bq_Tools request)) (ba_MaxBatchSize config))
      else
        let parallel = (case bq_Parallel request of None \<Rightarrow> ba_EnableParallelExecution config | Some p \<Rightarrow> p);
            results = (if parallel then executeParallel config (rg_Execute r) done sched (bq_Tools request)
                       else Inr (executeSequential config (rg_Execute r) done (bq_Tools request)))
        in case results of
             Inl panic \<Rightarrow> Inl panic
           | Inr results \<Rightarrow> Inr (batch_summary parallel results))"

fun find_empty_name :: "nat \<Rightarrow> batch_tool_call list \<Rightarrow> nat option" where
  "find_empty_name i [] = None"
| "find_empty_name i (tool # tools) = (if bt_Name tool = '''' then Some i else find_empty_name (i + 1) tools)"

definition be_ValidateBatchRequest :: "batch_config \<Rightarrow> batch_request option \<Rightarrow> batch_error option" where
  "be_ValidateBatchRequest config request =
     (case request of
        None \<Rightarrow> Some BatchNil
      | Some req \<Rightarrow>
          if length (bq_Tools req) = 0 then Some BatchEmpty
          else if ba_MaxBatchSize config < int (length (bq_Tools req))
          then Some (BatchTooLarge (length (bq_Tools req)) (ba_MaxBatchSize config))
          else map_option ToolNameEmpty (find_empty_name 0 (bq_Tools req)))"

section \<open>What the executor relies on\<close>

locale tool_source =
  fixes exec :: tool_exec and available :: "string set"
  assumes unavailable: "name \<notin> available \<Longrightarrow> exec name args = Inl (ToolNotFoundError name)"
begin

lemma unknown_tool_fails:
  "bt_Name call \<notin> available \<Longrightarrow>
   br_Status (executeSingleTool exec call i) = ''error'' \<and>
   br_Error (executeSingleTool exec call i) = ''tool not found: '' @ bt_Name call"
  by (simp add: executeSingleTool_def unavailable)

end

interpretation reg: tool_source "rg_Execute r" "fset (fmdom (rg_tools r))" for r
  by unfold_locales (auto simp: rg_Execute_def fmlookup_dom_iff split: option.split)

section \<open>Lemmas\<close>

lemma executeSingleTool_fields [simp]:
  "br_ID (executeSingleTool exec c i) = bt_ID c" "br_Name (executeSingleTool exec c i) = bt_Name c"
  "br_Index (executeSingleTool exec c i) = i"
  by (simp_all add: executeSingleTool_def Let_def split: sum.split)

lemma foldl_update:
  assumes "distinct sched" "\<And>i. i \<in> set sched \<Longrightarrow> i < length xs"
  shows "foldl (\<lambda>results i. results[i := f i]) xs sched =
    map (\<lambda>i. if i \<in> set sched then f i else xs ! i) [0..<length xs]"
  using assms
proof (induction sched arbitrary: xs)
  case Nil
  then show ?case by (simp add: map_nth)
next
  case (Cons j js)
  have "foldl (\<lambda>results i. results[i := f i]) (xs[j := f j]) js =
      map (\<lambda>i. if i \<in> set js then f i else xs[j := f j] ! i) [0..<length (xs[j := f j])]"
    using Cons.prems by (intro Cons.IH) auto
  then show ?case using Cons.prems by (auto intro!: map_cong simp: nth_list_update)
qed

lemma executeParallel_eq:
  assumes "0 \<le> ba_MaxConcurrency config" "distinct sched" "set sched = {..<length tools}"
  shows "executeParallel config exec done sched tools =
    Inr (map (parallel_result config exec done tools) [0..<length tools])"
  unfolding executeParallel_def Let_def using assms
  by (subst foldl_update) (auto intro!: map_cong)

lemma executeSequential_continue:
  assumes "ba_ContinueOnError config"
  shows "executeSequential_loop config exec done i tools results =
    results @ map (\<lambda>j. if done (i + j) then cancelled_result (tools ! j) (i + j)
      else executeSingleTool exec (tools ! j) (i + j)) [0..<length tools]"
proof (induction tools arbitrary: i results)
  case Nil
  then show ?case by simp
next
  case (Cons t ts)
  have split: "[0..<length (t # ts)] = 0 # map Suc [0..<length ts]"
    by (simp only: list.size add_Suc_right add_0_right upt_conv_Cons [OF zero_less_Suc] map_Suc_upt)
  show ?case
    unfolding split using assms Cons.IH [of "i + 1"] by (simp add: comp_def Let_def)
qed

lemma batch_counts:
  "foldl (\<lambda>(s, e) result. if br_Status result = ''success'' then (s + 1, e) else (s, e + 1)) (a, b) rs =
     (a + int (length (filter (\<lambda>r. br_Status r = ''success'') rs)),
      b + int (length (filter (\<lambda>r. br_Status r \<noteq> ''success'') rs)))"
  by (induction rs arbitrary: a b) auto

lemma batch_summary_results:
  "bp_Results (batch_summary p rs) = rs"
  "bp_SuccessCount (batch_summary p rs) + bp_ErrorCount (batch_summary p rs) = int (length rs)"
  using sum_length_filter_compl [of "\<lambda>r. br_Status r = ''success''" rs]
  by (simp_all add: batch_summary_def batch_counts)

lemma be_Execute_parallel:
  assumes "bq_Parallel request = Some True" "be_Execute r config done sched request = Inr response"
    and "distinct sched" "set sched = {..<length (bq_Tools request)}"
  shows "response = batch_summary True
    (map (parallel_result config (rg_Execute r) done (bq_Tools request)) [0..<length (bq_Tools request)])"
proof -
  have "0 \<le> ba_MaxConcurrency config"
    using assms(1,2) by (auto simp: be_Execute_def executeParallel_def split: if_splits)
  then show ?thesis
    using assms executeParallel_eq [of config sched "bq_Tools request" "rg_Execute r" "done"]
    by (auto simp: be_Execute_def split: if_splits)
qed

section \<open>Properties\<close>

text \<open>C32 Results come back in the order of the calls, one for each, whatever order the goroutines finish
  in: the result at index \<open>i\<close> carries the identifier, the name and the index of the call, a call
  of an unregistered tool ends in an error, and the success and error counts add up to the number of
  calls.\<close>

theorem batch_parallel_results:
  assumes "bq_Parallel request = Some True" "be_Execute r config done sched request = Inr response"
    and "distinct sched" "set sched = {..<length (bq_Tools request)}" "i < length (bq_Tools request)"
  shows "length (bp_Results response) = length (bq_Tools request) \<and>
    br_ID (bp_Results response ! i) = bt_ID (bq_Tools request ! i) \<and>
    br_Name (bp_Results response ! i) = bt_Name (bq_Tools request ! i) \<and>
    br_Index (bp_Results response ! i) = i \<and>
    (rg_Get (bt_Name (bq_Tools request ! i)) r = None \<longrightarrow> br_Status (bp_Results response ! i) = ''error'') \<and>
    bp_SuccessCount response + bp_ErrorCount response = int (length (bq_Tools request))"
proof -
  let ?tools = "bq_Tools request"
  have "br_Status (executeSingleTool (rg_Execute r) (?tools ! i) i) = ''error''"
    if "rg_Get (bt_Name (?tools ! i)) r = None"
    using reg.unknown_tool_fails [of "?tools ! i" r i] that by (simp add: rg_Get_def fmlookup_dom_iff)
  then show ?thesis
    using be_Execute_parallel [OF assms(1-4)] assms(5)
    by (simp add: batch_summary_results parallel_result_def cancelled_result_def)
qed

theorem batch_parallel_results_witness:
  "let r = NewRegistry;
       request = \<lparr>bq_Tools = [\<lparr>bt_ID = ''1'', bt_Name = ''a'', bt_Arguments = ''''\<rparr>,
         \<lparr>bt_ID = ''2'', bt_Name = ''b'', bt_Arguments = ''''\<rparr>], bq_Parallel = Some True\<rparr>
   in \<exists>response. be_Execute r DefaultBatchConfig (\<lambda>_. False) [1, 0] request = Inr response \<and>
      length (bp_Results response) = 2 \<and> br_ID (bp_Results response ! 1) = ''2'' \<and>
      br_Status (bp_Results response ! 1) = ''error''"
proof -
  define r where "r = NewRegistry"
  define request where "request = \<lparr>bq_Tools = [\<lparr>bt_ID = ''1'', bt_Name = ''a'', bt_Arguments = ''''\<rparr>,
         \<lparr>bt_ID = ''2'', bt_Name = ''b'', bt_Arguments = ''''\<rparr>], bq_Parallel = Some True\<rparr>"
  obtain response where resp: "be_Execute r DefaultBatchConfig (\<lambda>_. False) [1, 0] request = Inr response"
    by (simp add: be_Execute_def executeParallel_def DefaultBatchConfig_def request_def)
  have "rg_Get ''b'' r = None"
    by (simp add: rg_Get_def r_def NewRegistry_def)
  then show ?thesis
    using batch_parallel_results [OF _ resp, of 1] resp
    unfolding Let_def r_def [symmetric] request_def [symmetric]
    by (auto simp: request_def lessThan_Suc numeral_2_eq_2)
qed

text \<open>The two execution modes agree: with \<open>ContinueOnError\<close> and at least one slot of concurrency the
  parallel mode returns exactly the results of the sequential mode, for the same cancellations and any order in
  which the goroutines finish.\<close>

theorem batch_modes_agree:
  assumes "ba_ContinueOnError config" "0 < ba_MaxConcurrency config"
    and "distinct sched" "set sched = {..<length tools}"
  shows "executeParallel config exec done sched tools = Inr (executeSequential config exec done tools)"
  using executeSequential_continue [OF assms(1), of exec "done" 0 tools "[]"]
    executeParallel_eq [OF _ assms(3,4), of config exec "done"] assms(2)
  by (simp add: executeSequential_def parallel_result_def)

theorem batch_modes_agree_witness:
  "executeParallel DefaultBatchConfig (\<lambda>_ _. Inr VNil) (\<lambda>i. i = 1) [1, 0]
     [\<lparr>bt_ID = ''1'', bt_Name = ''a'', bt_Arguments = ''''\<rparr>, \<lparr>bt_ID = ''2'', bt_Name = ''b'', bt_Arguments = ''''\<rparr>] =
   Inr (executeSequential DefaultBatchConfig (\<lambda>_ _. Inr VNil) (\<lambda>i. i = 1)
     [\<lparr>bt_ID = ''1'', bt_Name = ''a'', bt_Arguments = ''''\<rparr>, \<lparr>bt_ID = ''2'', bt_Name = ''b'', bt_Arguments = ''''\<rparr>])"
  by (rule batch_modes_agree) (auto simp: DefaultBatchConfig_def)

text \<open>Without \<open>ContinueOnError\<close> the sequential mode does not stop at a cancelled batch: when the
  context has ended and the tools succeed, every tool is still executed and appears twice in the results,
  once as cancelled and once as successful.\<close>

theorem batch_cancelled_still_executed:
  assumes "\<not> ba_ContinueOnError config" "\<And>n a. \<exists>v. exec n a = Inr v"
  shows "length (executeSequential config exec (\<lambda>_. True) tools) = 2 * length tools \<and>
    length (filter (\<lambda>r. br_Status r = ''success'') (executeSequential config exec (\<lambda>_. True) tools)) = length tools"
proof -
  have ok: "br_Status (executeSingleTool exec t i) = ''success''" for t i
    using assms(2) [of "bt_Name t" "bt_Arguments t"] by (auto simp: executeSingleTool_def)
  have "length (executeSequential_loop config exec (\<lambda>_. True) i tools rs) = length rs + 2 * length tools \<and>
      length (filter (\<lambda>r. br_Status r = ''success'') (executeSequential_loop config exec (\<lambda>_. True) i tools rs)) =
      length (filter (\<lambda>r. br_Status r = ''success'') rs) + length tools" for i rs
    using assms(1) by (induction tools arbitrary: i rs) (auto simp: Let_def ok cancelled_result_def)
  from this [of 0 "[]"] show ?thesis by (simp add: executeSequential_def)
qed

theorem batch_cancelled_still_executed_witness:
  "length (executeSequential (DefaultBatchConfig\<lparr>ba_ContinueOnError := False\<rparr>) (\<lambda>_ _. Inr VNil) (\<lambda>_. True)
     [\<lparr>bt_ID = ''1'', bt_Name = ''a'', bt_Arguments = ''''\<rparr>]) = 2"
  using batch_cancelled_still_executed [of "DefaultBatchConfig\<lparr>ba_ContinueOnError := False\<rparr>" "\<lambda>_ _. Inr VNil"
      "[\<lparr>bt_ID = ''1'', bt_Name = ''a'', bt_Arguments = ''''\<rparr>]"]
  by simp

end
