(* ===== verification/Uuid_Text.thy ===== *)
theory Uuid_Text
  imports Prelude
begin

text \<open>
  The text of a UUID, which the repositories and services use as part of their cache keys: 32
  hexadecimal digits in groups of 8, 4, 4, 4 and 12.  Different UUIDs have different texts, so
  keys that start with the same prefix never collide.
\<close>

section \<open>Model\<close>

definition hex_digit :: "nat \<Rightarrow> char" where
  "hex_digit n = ''0123456789abcdef'' ! n"

definition uuid_hex :: "uuid \<Rightarrow> string" where
  "uuid_hex u = map (\<lambda>i. hex_digit (unat (take_bit 4 (drop_bit (4 * (31 - i)) u)))) [0..<32]"

definition uuid_String :: "uuid \<Rightarrow> string" where
  "uuid_String u =
     (let h = uuid_hex u
      in take 8 h @ ''-'' @ take 4 (drop 8 h) @ ''-'' @ take 4 (drop 12 h) @ ''-''
         @ take 4 (drop 16 h) @ ''-'' @ drop 20 h)"

section \<open>Texts determine UUIDs\<close>

lemma hex_digit_inj: "hex_digit m = hex_digit n \<Longrightarrow> m < 16 \<Longrightarrow> n < 16 \<Longrightarrow> m = n"
  unfolding hex_digit_def by (subst (asm) nth_eq_iff_index_eq) auto

lemma nibble_less: "unat (take_bit 4 (u :: uuid)) < 16"
  using take_bit_nat_less_exp [of 4 "unat u"] unfolding unsigned_take_bit_eq by simp

lemma uuid_hex_inj: "uuid_hex u = uuid_hex v \<Longrightarrow> u = v"
proof (rule bit_word_eqI)
  fix n
  assume eq: "uuid_hex u = uuid_hex v" and "n < LENGTH(128)"
  then have j: "31 - n div 4 < 32" and n: "n div 4 \<le> 31" by auto
  let ?d = "\<lambda>w. take_bit 4 (drop_bit (4 * (n div 4)) w)"
  from eq have "uuid_hex u ! (31 - n div 4) = uuid_hex v ! (31 - n div 4)" by simp
  with j n have "hex_digit (unat (?d u)) = hex_digit (unat (?d v))" by (simp add: uuid_hex_def)
  then have "unat (?d u) = unat (?d v)" using hex_digit_inj nibble_less by blast
  then have "?d u = ?d v" by (rule unsigned_word_eqI)
  then have "bit (?d u) (n mod 4) = bit (?d v) (n mod 4)" by simp
  then show "bit u n = bit v n" by (simp add: bit_simps)
qed

lemma length_uuid_hex [simp]: "length (uuid_hex u) = 32"
  by (simp add: uuid_hex_def)

lemma uuid_String_inj: "uuid_String u = uuid_String v \<longleftrightarrow> u = v"
proof
  assume eq: "uuid_String u = uuid_String v"
  let ?parts = "\<lambda>h. take 8 h @ take 4 (drop 8 h) @ take 4 (drop 12 h) @ take 4 (drop 16 h) @ drop 20 h"
  have whole: "?parts h = h" if "length h = 32" for h :: string
    using append_take_drop_id [of 4 "drop 16 h"] append_take_drop_id [of 4 "drop 12 h"]
      append_take_drop_id [of 4 "drop 8 h"] append_take_drop_id [of 8 h] that by simp
  from eq have "?parts (uuid_hex u) = ?parts (uuid_hex v)"
    by (auto simp: uuid_String_def Let_def)
  then have "uuid_hex u = uuid_hex v" by (simp add: whole)
  then show "u = v" by (rule uuid_hex_inj)
qed simp

lemma prefixed_uuid_inj [simp]: "p @ uuid_String u = p @ uuid_String v \<longleftrightarrow> u = v"
  by (simp add: uuid_String_inj)

end
