(* ===== verification/Workflow_Validation.thy ===== *)
theory Workflow_Validation
  imports Prelude
begin

text \<open>
  Workflow definitions (\<open>pkg/models/workflow.go\<close>, \<open>workflow_extended.go\<close>) and their validation
  by the workflow service (\<open>validateWorkflow\<close> and \<open>validateNoCycles\<close> of
  \<open>pkg/services/workflow_service_impl.go\<close>).  The depth-first search keeps the three colours the
  code keeps (0 unvisited, 1 visiting, 2 visited) in a map and its \<open>hasCycle\<close> flag.  The lemmas
  show that the search ends, that it reports a cycle exactly when the dependency graph has one,
  and that a workflow is accepted exactly when its step list is a topological order of itself.
\<close>

section \<open>Model: data\<close>

record workflow_step =
  ws_ID :: string
  ws_Type :: string
  ws_Config :: "(string, gval) fmap"
  ws_TimeoutSeconds :: int
  ws_OnFailure :: string
  ws_Dependencies :: "string list"

record workflow =
  wf_ID :: uuid
  wf_TenantID :: uuid
  wf_Name :: string
  wf_Type :: string
  wf_Version :: int
  wf_CreatedBy :: string
  wf_Steps :: "workflow_step list"
  wf_Config :: "(string, gval) fmap"
  wf_Description :: string
  wf_IsActive :: bool
  wf_CreatedAt :: go_time
  wf_UpdatedAt :: go_time

definition GetSteps :: "workflow \<Rightarrow> workflow_step list" where
  "GetSteps w = wf_Steps w"

text \<open>The \<open>ValidationError\<close> of \<open>pkg/services/errors.go\<close>: a field and a message.\<close>

datatype validation_error = ValidationError string string

section \<open>Model: cycle detection\<close>

type_synonym adjacency = "(string, string list) fmap"
type_synonym colours = "(string, int) fmap"

definition build_adj :: "workflow_step list \<Rightarrow> adjacency" where
  "build_adj steps = foldl (\<lambda>adj step. fmupd (ws_ID step) (ws_Dependencies step) adj) fmempty steps"

text \<open>
  The loop over \<open>adj[node]\<close> in the recursive closure \<open>dfs\<close>, from the dependencies still to be
  looked at; the \<open>return\<close> inside the loop leaves \<open>node\<close> coloured 1, the end of the loop colours
  it 2.  The recursive call is unfolded to its own loop.
\<close>

function dfs_loop ::
  "adjacency \<Rightarrow> string \<Rightarrow> string list \<Rightarrow> colours \<Rightarrow> bool \<Rightarrow> colours \<times> bool" where
  "dfs_loop adj node [] visited hasCycle = (fmupd node 2 visited, hasCycle)"
| "dfs_loop adj node (dep # deps) visited hasCycle =
     (if fmget 0 visited dep = 1 then (visited, True)
      else if fmget 0 visited dep = 0 then
        (let (visited', hasCycle') =
               (if hasCycle then (visited, hasCycle)
                else dfs_loop adj dep (fmget [] adj dep) (fmupd dep 1 visited) hasCycle)
         in dfs_loop adj node deps visited' hasCycle')
      else dfs_loop adj node deps visited hasCycle)"
  by pat_completeness auto

definition unvisited :: "adjacency \<Rightarrow> colours \<Rightarrow> string set" where
  "unvisited adj visited = {k \<in> fset (fmdom adj). fmget 0 visited k = 0}"

lemma finite_unvisited [simp]: "finite (unvisited adj visited)"
  by (simp add: unvisited_def)

lemma unvisited_upd: "c \<noteq> 0 \<Longrightarrow> unvisited adj (fmupd k c visited) = unvisited adj visited - {k}"
  by (auto simp: unvisited_def)

lemma unvisited_upd_less:
  assumes "k \<in> fset (fmdom adj)" and "fmget 0 visited k = 0" and "c \<noteq> 0"
  shows "card (unvisited adj (fmupd k c visited)) < card (unvisited adj visited)"
proof -
  have "k \<in> unvisited adj visited" using assms(1,2) by (simp add: unvisited_def)
  then show ?thesis using assms(3) by (metis card_Diff1_less finite_unvisited unvisited_upd)
qed

lemma dfs_loop_unvisited:
  "dfs_loop_dom (adj, node, deps, visited, hc) \<Longrightarrow>
     unvisited adj (fst (dfs_loop adj node deps visited hc)) \<subseteq> unvisited adj visited"
proof (induction adj node deps visited hc rule: dfs_loop.pinduct)
  case (1 adj node visited hasCycle)
  then show ?case by (auto simp: dfs_loop.psimps unvisited_upd)
next
  case (2 adj node dep deps visited hasCycle)
  show ?case
  proof (cases "fmget 0 visited dep = 0 \<and> \<not> hasCycle")
    case True
    obtain v' h' where r: "dfs_loop adj dep (fmget [] adj dep) (fmupd dep 1 visited) hasCycle = (v', h')"
      by (cases "dfs_loop adj dep (fmget [] adj dep) (fmupd dep 1 visited) hasCycle")
    have "unvisited adj v' \<subseteq> unvisited adj (fmupd dep 1 visited)"
      using 2(2) True r by auto
    moreover have "unvisited adj (fst (dfs_loop adj node deps v' h')) \<subseteq> unvisited adj v'"
      using 2(3) True r by auto
    ultimately show ?thesis
      using 2(1) True r by (auto simp: dfs_loop.psimps unvisited_upd)
  next
    case False
    then show ?thesis using 2 by (auto simp: dfs_loop.psimps Let_def)
  qed
qed

termination dfs_loop
proof (relation "measures [\<lambda>(adj, node, deps, visited, hc). card (unvisited adj visited),
    \<lambda>(adj, node, deps, visited, hc). length deps]", goal_cases)
  case 1
  then show ?case by simp
next
  case (2 adj node dep deps visited hasCycle)
  show ?case
  proof (cases "dep \<in> fset (fmdom adj)")
    case True
    with 2 show ?thesis by (simp add: unvisited_upd_less)
  next
    case False
    then have "unvisited adj (fmupd dep 1 visited) = unvisited adj visited"
      by (auto simp: unvisited_upd unvisited_def)
    moreover have "fmget [] adj dep = []" using False by (simp add: fmget_def fmdom_notD)
    ultimately show ?thesis by simp
  qed
next
  case (3 adj node dep deps visited hasCycle x xa y)
  have "unvisited adj xa \<subseteq> unvisited adj visited"
  proof (cases hasCycle)
    case True
    with 3 show ?thesis by simp
  next
    case False
    then have d: "dfs_loop_dom (adj, dep, fmget [] adj dep, fmupd dep 1 visited, hasCycle)"
      and r: "dfs_loop adj dep (fmget [] adj dep) (fmupd dep 1 visited) hasCycle = (xa, y)"
      using 3 by auto
    then show ?thesis
      using dfs_loop_unvisited [OF d] by (auto simp: unvisited_upd)
  qed
  then have "card (unvisited adj xa) \<le> card (unvisited adj visited)"
    by (intro card_mono) auto
  then show ?case by auto
next
  case 4
  then show ?case by simp
qed

definition dfs :: "adjacency \<Rightarrow> string \<Rightarrow> colours \<Rightarrow> bool \<Rightarrow> colours \<times> bool" where
  "dfs adj node visited hasCycle =
     (if hasCycle then (visited, hasCycle)
      else dfs_loop adj node (fmget [] adj node) (fmupd node 1 visited) hasCycle)"

text \<open>The loop in terms of the recursive closure, as the code has it.\<close>

lemma dfs_loop_Cons:
  "dfs_loop adj node (dep # deps) visited hasCycle =
     (if fmget 0 visited dep = 1 then (visited, True)
      else if fmget 0 visited dep = 0 then
        (let (visited', hasCycle') = dfs adj dep visited hasCycle
         in dfs_loop adj node deps visited' hasCycle')
      else dfs_loop adj node deps visited hasCycle)"
  by (simp add: dfs_def)

definition dfs_root :: "adjacency \<Rightarrow> colours \<times> bool \<Rightarrow> workflow_step \<Rightarrow> colours \<times> bool" where
  "dfs_root adj = (\<lambda>(visited, hasCycle) step.
     if fmget 0 visited (ws_ID step) = 0 then dfs adj (ws_ID step) visited hasCycle
     else (visited, hasCycle))"

definition dfs_roots :: "adjacency \<Rightarrow> workflow_step list \<Rightarrow> colours \<times> bool" where
  "dfs_roots adj steps =
     foldl (dfs_root adj) (fmempty, False) steps"

definition validateNoCycles :: "workflow \<Rightarrow> validation_error option" where
  "validateNoCycles w =
     (let adj = build_adj (GetSteps w);
          (visited, hasCycle) = dfs_roots adj (GetSteps w)
      in if hasCycle then Some (ValidationError ''steps'' ''circular dependency detected'') else None)"

section \<open>Model: validation\<close>

fun check_deps :: "string set \<Rightarrow> string list \<Rightarrow> validation_error option" where
  "check_deps stepIDs [] = None"
| "check_deps stepIDs (dep # deps) =
     (if dep \<notin> stepIDs
      then Some (ValidationError ''step.dependencies'' (''unknown dependency: '' @ dep))
      else check_deps stepIDs deps)"

fun check_steps :: "string set \<Rightarrow> workflow_step list \<Rightarrow> validation_error option" where
  "check_steps stepIDs [] = None"
| "check_steps stepIDs (step # steps) =
     (if ws_ID step = '''' then Some (ValidationError ''step.id'' ''required'')
      else if ws_ID step \<in> stepIDs then Some (ValidationError ''step.id'' ''duplicate step ID'')
      else
        let stepIDs = insert (ws_ID step) stepIDs
        in case check_deps stepIDs (ws_Dependencies step) of
             Some e \<Rightarrow> Some e
           | None \<Rightarrow> check_steps stepIDs steps)"

definition validateWorkflow :: "workflow \<Rightarrow> validation_error option" where
  "validateWorkflow w =
     (if wf_Name w = '''' then Some (ValidationError ''name'' ''required'')
      else if wf_Type w = '''' then Some (ValidationError ''type'' ''required'')
      else if GetSteps w = [] then Some (ValidationError ''steps'' ''at least one step required'')
      else case check_steps {} (GetSteps w) of
             Some e \<Rightarrow> Some e
           | None \<Rightarrow> validateNoCycles w)"

section \<open>The search finds every cycle and only cycles\<close>

definition edges :: "adjacency \<Rightarrow> (string \<times> string) set" where
  "edges adj = {(n, d). d \<in> set (fmget [] adj n)}"

abbreviation grey :: "colours \<Rightarrow> string set" where
  "grey visited \<equiv> {n. fmget 0 visited n = 1}"

abbreviation black :: "colours \<Rightarrow> string set" where
  "black visited \<equiv> {n. fmget 0 visited n = 2}"

definition colours_ok :: "colours \<Rightarrow> bool" where
  "colours_ok visited \<longleftrightarrow> (\<forall>n. fmget 0 visited n \<in> {0, 1, 2})"

text \<open>The finished nodes are closed under dependencies, and no cycle runs through them.\<close>

definition finished_ok :: "adjacency \<Rightarrow> colours \<Rightarrow> bool" where
  "finished_ok adj visited \<longleftrightarrow> colours_ok visited
     \<and> edges adj `` black visited \<subseteq> black visited
     \<and> acyclic (edges adj \<inter> black visited \<times> UNIV)"

lemma closed_rtrancl:
  assumes "(x, y) \<in> r\<^sup>*" and "x \<in> B" and "r `` B \<subseteq> B"
  shows "y \<in> B"
  using assms(1,2) by (induction rule: rtrancl_induct) (use assms(3) in auto)

lemma acyclic_insert_node:
  assumes closed: "E `` B \<subseteq> B" and ac: "acyclic (E \<inter> B \<times> UNIV)"
    and "n \<notin> B" and succ: "E `` {n} \<subseteq> B"
  shows "acyclic (E \<inter> insert n B \<times> UNIV)"
proof (rule acyclicI, rule allI, rule notI)
  let ?R = "E \<inter> insert n B \<times> UNIV"
  fix x assume cyc: "(x, x) \<in> ?R\<^sup>+"
  have into: "?R `` insert n B \<subseteq> B" using closed succ by auto
  have R: "?R `` B \<subseteq> B" using closed by auto
  obtain y where "(x, y) \<in> ?R" "(y, x) \<in> ?R\<^sup>*" using cyc by (meson tranclD)
  then have "y \<in> B" using into by auto
  then have xB: "x \<in> B" using closed_rtrancl [OF \<open>(y, x) \<in> ?R\<^sup>*\<close> _ R] by simp
  have "(x, z) \<in> (E \<inter> B \<times> UNIV)\<^sup>+ \<and> z \<in> B" if "(x, z) \<in> ?R\<^sup>+" for z
    using that
  proof (induction rule: trancl_induct)
    case (base y)
    then show ?case using xB closed by auto
  next
    case (step y z)
    then have "(y, z) \<in> E \<inter> B \<times> UNIV" using closed by auto
    then show ?case using step closed by (auto intro: trancl_into_trancl)
  qed
  with cyc ac show False by (auto simp: acyclic_def)
qed

lemma finished_ok_finish:
  assumes ok: "finished_ok adj visited" and "fmget 0 visited n = 1"
    and "set (fmget [] adj n) \<subseteq> black visited"
  shows "finished_ok adj (fmupd n 2 visited)"
proof -
  have b: "black (fmupd n 2 visited) = insert n (black visited)" by auto
  have "n \<notin> black visited" using assms(2) by simp
  moreover have "edges adj `` {n} \<subseteq> black visited" using assms(3) by (auto simp: edges_def)
  ultimately have "acyclic (edges adj \<inter> insert n (black visited) \<times> UNIV)"
    using ok acyclic_insert_node [of "edges adj" "black visited" n] by (simp add: finished_ok_def)
  moreover have "edges adj `` insert n (black visited) \<subseteq> insert n (black visited)"
    using ok assms(3) by (auto simp: finished_ok_def edges_def)
  moreover have "colours_ok (fmupd n 2 visited)" using ok by (simp add: finished_ok_def colours_ok_def)
  ultimately show ?thesis unfolding finished_ok_def b by blast
qed

lemma finished_ok_start:
  "finished_ok adj visited \<Longrightarrow> fmget 0 visited n = 0 \<Longrightarrow> finished_ok adj (fmupd n 1 visited)"
proof -
  assume ok: "finished_ok adj visited" and "fmget 0 visited n = 0"
  then have "black (fmupd n 1 visited) = black visited" by auto
  with ok show ?thesis by (simp add: finished_ok_def colours_ok_def)
qed

lemma dfs_loop_flag: "snd (dfs_loop adj node deps visited True)"
  by (induction deps arbitrary: visited) (auto simp: Let_def)

lemma back_edge_cycle:
  assumes "d \<in> set (fmget [] adj node)" and "(d, node) \<in> (edges adj)\<^sup>*"
  shows "\<not> acyclic (edges adj)"
proof -
  have "(node, d) \<in> edges adj" using assms(1) by (simp add: edges_def)
  then have "(node, node) \<in> (edges adj)\<^sup>+" using assms(2) by (rule rtrancl_into_trancl2)
  then show ?thesis by (auto simp: acyclic_def)
qed

definition dfs_pre :: "adjacency \<Rightarrow> string \<Rightarrow> string list \<Rightarrow> colours \<Rightarrow> bool" where
  "dfs_pre adj node deps visited \<longleftrightarrow> finished_ok adj visited \<and> fmget 0 visited node = 1
     \<and> (\<forall>g \<in> grey visited. (g, node) \<in> (edges adj)\<^sup>*)
     \<and> set deps \<subseteq> set (fmget [] adj node) \<and> set (fmget [] adj node) \<subseteq> set deps \<union> black visited"

definition dfs_post :: "adjacency \<Rightarrow> string \<Rightarrow> colours \<Rightarrow> colours \<times> bool \<Rightarrow> bool" where
  "dfs_post adj node visited r \<longleftrightarrow>
     (if snd r then \<not> acyclic (edges adj)
      else finished_ok adj (fst r) \<and> grey (fst r) = grey visited - {node}
        \<and> black visited \<subseteq> black (fst r) \<and> node \<in> black (fst r))"

lemma dfs_pre_descend:
  assumes "dfs_pre adj node (dep # deps) visited" and "fmget 0 visited dep = 0"
  shows "dfs_pre adj dep (fmget [] adj dep) (fmupd dep 1 visited)"
proof -
  have "(node, dep) \<in> edges adj" using assms(1) by (simp add: dfs_pre_def edges_def)
  then show ?thesis
    using assms by (auto simp: dfs_pre_def finished_ok_start intro: rtrancl_into_rtrancl)
qed

lemma dfs_pre_next:
  assumes "dfs_pre adj node (dep # deps) visited" and "finished_ok adj visited'"
    and "grey visited' = grey visited" and "black visited \<subseteq> black visited'" and "dep \<in> black visited'"
  shows "dfs_pre adj node deps visited'"
proof -
  have "fmget 0 visited' node = 1" using assms(1,3) by (auto simp: dfs_pre_def)
  moreover have "\<forall>g \<in> grey visited'. (g, node) \<in> (edges adj)\<^sup>*"
    using assms(1,3) by (simp add: dfs_pre_def)
  moreover have "set (fmget [] adj node) \<subseteq> set deps \<union> black visited'"
    using assms(1,4,5) by (auto simp: dfs_pre_def)
  ultimately show ?thesis using assms(1,2) by (auto simp: dfs_pre_def)
qed

lemma dfs_loop_spec:
  "dfs_pre adj node deps visited \<Longrightarrow> dfs_post adj node visited (dfs_loop adj node deps visited False)"
proof (induction adj node deps visited "False" rule: dfs_loop.induct)
  case (1 adj node visited)
  then show ?case
    using finished_ok_finish [of adj visited node] by (auto simp: dfs_pre_def dfs_post_def)
next
  case (2 adj node dep deps visited)
  consider (grey) "fmget 0 visited dep = 1" | (tree) "fmget 0 visited dep = 0"
    | (cross) "fmget 0 visited dep = 2"
    using "2.prems" by (auto simp: dfs_pre_def finished_ok_def colours_ok_def)
  then show ?case
  proof cases
    case grey
    then show ?thesis
      using "2.prems" back_edge_cycle by (auto simp: dfs_post_def dfs_pre_def)
  next
    case tree
    obtain v' h' where r: "dfs_loop adj dep (fmget [] adj dep) (fmupd dep 1 visited) False = (v', h')"
      by (cases "dfs_loop adj dep (fmget [] adj dep) (fmupd dep 1 visited) False")
    have sub: "dfs_post adj dep (fmupd dep 1 visited) (v', h')"
      using "2.hyps"(1) [OF _ tree] dfs_pre_descend [OF "2.prems" tree] tree r by auto
    show ?thesis
    proof (cases h')
      case True
      with sub have "\<not> acyclic (edges adj)" by (simp add: dfs_post_def)
      then show ?thesis
        using tree r True dfs_loop_flag by (auto simp: dfs_post_def Let_def)
    next
      case False
      from sub tree have *: "finished_ok adj v'" "grey v' = grey visited" "black visited \<subseteq> black v'"
        "dep \<in> black v'"
        by (auto simp: dfs_post_def False)
      then have "dfs_pre adj node deps v'" using dfs_pre_next [OF "2.prems"] by blast
      then have "dfs_post adj node v' (dfs_loop adj node deps v' False)"
        using "2.hyps"(2) tree r False by auto
      with * tree r False show ?thesis by (auto simp: dfs_post_def Let_def Collect_mono_iff)
    qed
  next
    case cross
    have "dfs_pre adj node deps visited"
      using dfs_pre_next [OF "2.prems"] "2.prems" cross by (auto simp: dfs_pre_def)
    then show ?thesis using "2.hyps"(3) cross by simp
  qed
qed

lemma dfs_roots_loop:
  assumes "finished_ok adj visited" and "grey visited = {}"
  shows "case foldl (dfs_root adj) (visited, hc) steps of (visited', hc') \<Rightarrow>
      (hc \<longrightarrow> hc') \<and> (\<not> hc \<and> hc' \<longrightarrow> \<not> acyclic (edges adj))
      \<and> (\<not> hc' \<longrightarrow> finished_ok adj visited' \<and> grey visited' = {}
           \<and> black visited \<union> ws_ID ` set steps \<subseteq> black visited')"
  using assms
proof (induction steps arbitrary: visited hc)
  case Nil
  then show ?case by simp
next
  case (Cons step steps)
  let ?n = "ws_ID step"
  show ?case
  proof (cases "fmget 0 visited ?n = 0 \<and> \<not> hc")
    case True
    obtain v' h' where r: "dfs adj ?n visited hc = (v', h')" by (cases "dfs adj ?n visited hc")
    have "dfs_pre adj ?n (fmget [] adj ?n) (fmupd ?n 1 visited)"
      using Cons.prems True by (auto simp: dfs_pre_def finished_ok_start)
    then have post: "dfs_post adj ?n (fmupd ?n 1 visited) (v', h')"
      using dfs_loop_spec [of adj ?n "fmget [] adj ?n" "fmupd ?n 1 visited"] r True
      by (simp add: dfs_def)
    show ?thesis
    proof (cases h')
      case True
      have "hc' \<or> \<not> h'" if "foldl (dfs_root adj) (v', h') xs = (w, hc')" for xs w hc'
        using that True
        by (induction xs arbitrary: v' h') (auto simp: dfs_root_def dfs_def split: if_splits)
      with True post r \<open>fmget 0 visited ?n = 0 \<and> \<not> hc\<close> show ?thesis
        by (auto simp: dfs_root_def dfs_post_def split: prod.splits)
    next
      case False
      with post have *: "finished_ok adj v'" "grey v' = {}" "black visited \<subseteq> black v'" "?n \<in> black v'"
        using Cons.prems True by (auto simp: dfs_post_def Collect_mono_iff split: if_splits)
      show ?thesis
        using Cons.IH [OF *(1,2), of h'] *(3,4) r True False by (auto simp: dfs_root_def split: prod.splits)
    qed
  next
    case False
    then have n: "hc \<or> fmget 0 visited ?n = 2"
      using Cons.prems by (auto simp: finished_ok_def colours_ok_def)
    have "foldl (dfs_root adj) (visited, hc) (step # steps)
      = foldl (dfs_root adj) (visited, hc) steps"
      using n by (auto simp: dfs_root_def dfs_def)
    then show ?thesis using Cons.IH [OF Cons.prems, of hc] n by (auto split: prod.splits)
  qed
qed

lemma build_adj_dom: "fset (fmdom (build_adj steps)) = ws_ID ` set steps"
proof -
  have "fset (fmdom (foldl (\<lambda>adj step. fmupd (ws_ID step) (ws_Dependencies step) adj) m steps))
      = fset (fmdom m) \<union> ws_ID ` set steps" for m
    by (induction steps arbitrary: m) auto
  then show ?thesis by (simp add: build_adj_def)
qed

lemma validateNoCycles_iff:
  "validateNoCycles w = None \<longleftrightarrow> acyclic (edges (build_adj (GetSteps w)))"
proof -
  let ?adj = "build_adj (GetSteps w)"
  have init: "finished_ok ?adj fmempty" "grey fmempty = {}"
    by (auto simp: finished_ok_def colours_ok_def acyclic_def)
  obtain v h where r: "dfs_roots ?adj (GetSteps w) = (v, h)" by (cases "dfs_roots ?adj (GetSteps w)")
  have spec: "h \<longrightarrow> \<not> acyclic (edges ?adj)"
    "\<not> h \<longrightarrow> finished_ok ?adj v \<and> ws_ID ` set (GetSteps w) \<subseteq> black v"
    using dfs_roots_loop [OF init, of False "GetSteps w"] r by (auto simp: dfs_roots_def)
  have "edges ?adj \<subseteq> edges ?adj \<inter> black v \<times> UNIV" if "\<not> h"
  proof -
    have "n \<in> ws_ID ` set (GetSteps w)" if "d \<in> set (fmget [] ?adj n)" for n d
      using that build_adj_dom [of "GetSteps w"] by (metis empty_iff empty_set fmdom_notD fmget_None)
    then show ?thesis using spec(2) that by (auto simp: edges_def)
  qed
  then have "acyclic (edges ?adj)" if "\<not> h"
    using spec(2) that acyclic_subset unfolding finished_ok_def by blast
  with spec(1) r show ?thesis by (auto simp: validateNoCycles_def)
qed

section \<open>What validation accepts\<close>

lemma check_deps_None: "check_deps S deps = None \<longleftrightarrow> set deps \<subseteq> S"
  by (induction deps) auto

lemma check_steps_None:
  "check_steps S steps = None \<longleftrightarrow>
     '''' \<notin> ws_ID ` set steps \<and> distinct (map ws_ID steps) \<and> S \<inter> ws_ID ` set steps = {}
     \<and> (\<forall>i < length steps. set (ws_Dependencies (steps ! i)) \<subseteq> S \<union> ws_ID ` set (take (Suc i) steps))"
proof (induction steps arbitrary: S)
  case Nil
  then show ?case by simp
next
  case (Cons step steps)
  have "(\<forall>i < length (step # steps).
       set (ws_Dependencies ((step # steps) ! i)) \<subseteq> S \<union> ws_ID ` set (take (Suc i) (step # steps)))
     \<longleftrightarrow> set (ws_Dependencies step) \<subseteq> insert (ws_ID step) S \<and> (\<forall>i < length steps.
       set (ws_Dependencies (steps ! i)) \<subseteq> insert (ws_ID step) S \<union> ws_ID ` set (take (Suc i) steps))"
    by (auto simp: All_less_Suc2 simp del: take_Suc_Cons) (auto simp: take_Suc_Cons)
  then show ?case
    using Cons.IH [of "insert (ws_ID step) S"]
    by (auto simp: Let_def check_deps_None error_chain_None)
qed

lemma build_adj_nth:
  assumes "distinct (map ws_ID steps)" and "i < length steps"
  shows "fmget [] (build_adj steps) (ws_ID (steps ! i)) = ws_Dependencies (steps ! i)"
proof -
  have keep: "fmlookup (foldl (\<lambda>adj step. fmupd (ws_ID step) (ws_Dependencies step) adj) m xs) k
      = fmlookup m k" if "k \<notin> ws_ID ` set xs" for m xs k
    using that by (induction xs arbitrary: m) auto
  have "fmlookup (foldl (\<lambda>adj step. fmupd (ws_ID step) (ws_Dependencies step) adj) m steps)
      (ws_ID (steps ! i)) = Some (ws_Dependencies (steps ! i))" for m
    using assms by (induction steps arbitrary: m i) (auto simp: nth_Cons keep split: nat.splits)
  then show ?thesis by (simp add: build_adj_def fmget_def)
qed

lemma edges_steps:
  assumes "distinct (map ws_ID steps)"
  shows "edges (build_adj steps) =
    {(ws_ID (steps ! i), d) | i d. i < length steps \<and> d \<in> set (ws_Dependencies (steps ! i))}"
proof -
  have "\<exists>i < length steps. n = ws_ID (steps ! i)" if "d \<in> set (fmget [] (build_adj steps) n)" for n d
  proof -
    have "n \<in> ws_ID ` set steps"
      using that build_adj_dom [of steps] by (metis empty_iff empty_set fmdom_notD fmget_None)
    then show ?thesis by (auto simp: in_set_conv_nth)
  qed
  then show ?thesis using build_adj_nth [OF assms] by (fastforce simp: edges_def)
qed

lemma ordered_acyclic:
  assumes d: "distinct (map ws_ID steps)"
    and ord: "\<forall>i < length steps. set (ws_Dependencies (steps ! i)) \<subseteq> ws_ID ` set (take i steps)"
  shows "acyclic (edges (build_adj steps))"
proof -
  define pos where "pos n = (LEAST i. i < length steps \<and> ws_ID (steps ! i) = n)" for n
  have pos: "pos (ws_ID (steps ! i)) = i" if "i < length steps" for i
    unfolding pos_def using that d by (intro Least_equality) (auto simp: distinct_conv_nth)
  have "(x, y) \<in> edges (build_adj steps) \<Longrightarrow> pos y < pos x" for x y
  proof -
    assume "(x, y) \<in> edges (build_adj steps)"
    then obtain i where i: "i < length steps" "x = ws_ID (steps ! i)" "y \<in> set (ws_Dependencies (steps ! i))"
      using edges_steps [OF d] by auto
    then have "y \<in> ws_ID ` set (take i steps)" using ord by blast
    then obtain j where "j < i" "y = ws_ID (steps ! j)" by (auto simp: in_set_conv_nth)
    then show ?thesis using i pos by simp
  qed
  then have "edges (build_adj steps) \<subseteq> (measure pos)\<inverse>" by auto
  then show ?thesis
    by (meson acyclic_converse acyclic_subset wf_acyclic wf_measure)
qed

text \<open>C5 A workflow definition is accepted by \<open>validateWorkflow\<close> exactly when it has a name, a type
  and at least one step, its step ids are non-empty and distinct, and every step depends only on
  steps declared before it: the accepted step lists are exactly the topological orders of their
  own dependency graphs (a definition that lists a dependency after its user is rejected, even
  when it is acyclic).
\<close>

theorem validateWorkflow_iff:
  "validateWorkflow w = None \<longleftrightarrow>
     wf_Name w \<noteq> '''' \<and> wf_Type w \<noteq> '''' \<and> wf_Steps w \<noteq> []
     \<and> '''' \<notin> ws_ID ` set (wf_Steps w) \<and> distinct (map ws_ID (wf_Steps w))
     \<and> (\<forall>i < length (wf_Steps w).
          set (ws_Dependencies (wf_Steps w ! i)) \<subseteq> ws_ID ` set (take i (wf_Steps w)))"
proof -
  let ?S = "wf_Steps w"
  have "(\<forall>i < length ?S. set (ws_Dependencies (?S ! i)) \<subseteq> ws_ID ` set (take (Suc i) ?S))
      \<and> acyclic (edges (build_adj ?S))
    \<longleftrightarrow> (\<forall>i < length ?S. set (ws_Dependencies (?S ! i)) \<subseteq> ws_ID ` set (take i ?S))"
    if d: "distinct (map ws_ID ?S)"
  proof (intro iffI conjI allI impI)
    fix i
    assume "(\<forall>i < length ?S. set (ws_Dependencies (?S ! i)) \<subseteq> ws_ID ` set (take (Suc i) ?S))
      \<and> acyclic (edges (build_adj ?S))" and i: "i < length ?S"
    moreover from this have "ws_ID (?S ! i) \<notin> set (ws_Dependencies (?S ! i))"
      unfolding acyclic_def edges_steps [OF d] by blast
    ultimately show "set (ws_Dependencies (?S ! i)) \<subseteq> ws_ID ` set (take i ?S)"
      by (auto simp: take_Suc_conv_app_nth)
  next
    fix i
    assume "\<forall>i < length ?S. set (ws_Dependencies (?S ! i)) \<subseteq> ws_ID ` set (take i ?S)"
      and "i < length ?S"
    then show "set (ws_Dependencies (?S ! i)) \<subseteq> ws_ID ` set (take (Suc i) ?S)"
      by (auto simp: take_Suc_conv_app_nth)
  qed (rule ordered_acyclic [OF d])
  then show ?thesis
    by (auto simp: validateWorkflow_def check_steps_None validateNoCycles_iff GetSteps_def
        error_chain_None)
qed

theorem validateWorkflow_iff_witness:
  "let a = \<lparr>ws_ID = ''a'', ws_Type = ''task'', ws_Config = fmempty, ws_TimeoutSeconds = 5, ws_OnFailure = '''',
              ws_Dependencies = []\<rparr>;
       b = \<lparr>ws_ID = ''b'', ws_Type = ''task'', ws_Config = fmempty, ws_TimeoutSeconds = 5, ws_OnFailure = '''',
              ws_Dependencies = [''a'']\<rparr>;
       w = (\<lambda>steps. \<lparr>wf_ID = 1, wf_TenantID = 2, wf_Name = ''n'', wf_Type = ''sequential'',
              wf_Version = 1, wf_CreatedBy = ''u'', wf_Steps = steps, wf_Config = fmempty,
              wf_Description = '''', wf_IsActive = True, wf_CreatedAt = 0, wf_UpdatedAt = 0\<rparr>)
   in validateWorkflow (w [a, b]) = None \<and> validateWorkflow (w [b, a]) \<noteq> None"
  by (simp add: Let_def validateWorkflow_iff All_less_Suc2 Ex_less_Suc2)

end
