(* ===== verification/Json_Values.thy ===== *)
theory Json_Values
  imports Prelude Float64
begin

text \<open>
  What a dynamic value is after it has been stored in a JSON column and read back with
  \<open>encoding/json\<close>: every number is a \<open>float64\<close>, an instant is the text \<open>tt\<close> gives it, and lists and
  objects are converted element by element.  The type assertions that Go code makes on such values
  are \<open>at_key\<close> (an index into a map that may be nil) with \<open>as_float\<close>, \<open>as_string\<close>, \<open>as_bool\<close> and \<open>as_items\<close>.
\<close>

section \<open>Model\<close>

fun json_value :: "(go_time \<Rightarrow> string) \<Rightarrow> gval \<Rightarrow> gval" where
  "json_value tt (VInt n) = VFloat (f64_of_int n)"
| "json_value tt (VTime t) = VStr (tt t)"
| "json_value tt (VList vs) = VList (map (json_value tt) vs)"
| "json_value tt (VMap kvs) = VMap (map (\<lambda>(k, v). (k, json_value tt v)) kvs)"
| "json_value tt v = v"

definition json_map :: "(go_time \<Rightarrow> string) \<Rightarrow> (string, gval) fmap \<Rightarrow> (string, gval) fmap" where
  "json_map tt m = fmmap (json_value tt) m"

definition at_key :: "(string, gval) fmap option \<Rightarrow> string \<Rightarrow> gval" where
  "at_key m k = (case m of None \<Rightarrow> VNil | Some p \<Rightarrow> fmget VNil p k)"

definition as_float :: "gval \<Rightarrow> rat option" where
  "as_float v = (case v of VFloat x \<Rightarrow> Some x | _ \<Rightarrow> None)"

definition as_string :: "gval \<Rightarrow> string option" where
  "as_string v = (case v of VStr s \<Rightarrow> Some s | _ \<Rightarrow> None)"

definition as_bool :: "gval \<Rightarrow> bool" where
  "as_bool v = (case v of VBool b \<Rightarrow> b | _ \<Rightarrow> False)"

definition as_items :: "gval \<Rightarrow> gval list" where
  "as_items v = (case v of VList vs \<Rightarrow> vs | _ \<Rightarrow> [])"

definition no_ints :: "(string, gval) fmap \<Rightarrow> bool" where
  "no_ints m \<longleftrightarrow> (\<forall>k n. fmlookup m k \<noteq> Some (VInt n))"

section \<open>Stored values\<close>

lemma json_value_not_int [simp]: "json_value tt v \<noteq> VInt n"
  by (cases v) auto

lemma json_value_not_time [simp]: "json_value tt v \<noteq> VTime t"
  by (cases v) auto

lemma no_ints_json_map [simp]: "no_ints (json_map tt m)"
  by (auto simp: no_ints_def json_map_def)

lemma at_key_simps [simp]:
  "at_key None k = VNil" "at_key (Some fmempty) k = VNil"
  "at_key (Some (fmupd j v m)) k = (if k = j then v else at_key (Some m) k)"
  by (simp_all add: at_key_def)

lemma at_key_json_not_time [simp]: "at_key (map_option (json_map tt) m) k \<noteq> VTime t"
  by (cases m) (auto simp: at_key_def json_map_def fmget_def split: option.splits)

lemma at_key_json:
  "as_string (at_key (Some m) k) = Some s \<Longrightarrow> as_string (at_key (Some (json_map tt m)) k) = Some s"
  by (auto simp: at_key_def fmget_def json_map_def as_string_def split: option.splits gval.splits)

end
