(* ===== verification/Workflow_Repository.thy ===== *)
theory Workflow_Repository
  imports Workflow_Validation Json_Values
begin

text \<open>
  The workflow repository of \<open>pkg/repository/postgres/workflow_repository.go\<close>: the two tables it
  reads and writes, and the statements it sends to them.  A table is a map from primary keys to
  rows; an \<open>INSERT \<dots> ON CONFLICT (id) DO NOTHING\<close>, an \<open>UPDATE \<dots> WHERE\<close> and a \<open>SELECT \<dots>
  WHERE\<close> act on it as SQL defines.  The error \<open>db\<close> of each operation is what the driver reports
  (\<open>None\<close>: no error).  Values of a \<open>JSONMap\<close> go through \<open>encoding/json\<close> when they are stored and
  come back as JSON values: a number is a \<open>float64\<close>, an instant the text \<open>tt\<close> gives it.  Columns that
  the struct tags exclude (\<open>db:"-"\<close>: \<open>StepStatuses\<close>, \<open>CurrentStepID\<close>) are not stored.  The
  repository's own cache keeps copies of what these reads return and is left out, as are
  \<open>agents\<close>, \<open>tags\<close> and the list and search queries.
\<close>

section \<open>Model: data\<close>

record step_status =
  ss_StepID :: string
  ss_Status :: string
  ss_Output :: "(string, gval) fmap"
  ss_Error :: string
  ss_StartedAt :: "go_time option"
  ss_CompletedAt :: "go_time option"
  ss_RetryCount :: int

record execution =
  ex_ID :: uuid
  ex_WorkflowID :: uuid
  ex_TenantID :: uuid
  ex_Status :: string
  ex_Context :: "(string, gval) fmap"
  ex_State :: "(string, gval) fmap"
  ex_InitiatedBy :: string
  ex_Error :: string
  ex_StartedAt :: go_time
  ex_CompletedAt :: "go_time option"
  ex_UpdatedAt :: go_time
  ex_StepStatuses :: "(string, step_status) fmap"
  ex_CurrentStepID :: string

record workflow_row =
  wr_workflow :: workflow
  wr_deleted_at :: "go_time option"

record wf_db =
  db_workflows :: "(uuid, workflow_row) fmap"
  db_executions :: "(uuid, execution) fmap"

datatype repo_error = ErrNotFound | ErrDuplicate | ErrOptimisticLock | DbError string

section \<open>Model: JSON columns\<close>

definition stored_step :: "(go_time \<Rightarrow> string) \<Rightarrow> workflow_step \<Rightarrow> workflow_step" where
  "stored_step tt s = s\<lparr>ws_Config := json_map tt (ws_Config s)\<rparr>"

definition stored_workflow :: "(go_time \<Rightarrow> string) \<Rightarrow> workflow \<Rightarrow> workflow" where
  "stored_workflow tt w = w\<lparr>wf_Steps := map (stored_step tt) (wf_Steps w),
     wf_Config := json_map tt (wf_Config w)\<rparr>"

definition stored_execution :: "(go_time \<Rightarrow> string) \<Rightarrow> execution \<Rightarrow> execution" where
  "stored_execution tt e = e\<lparr>ex_Context := json_map tt (ex_Context e), ex_State := json_map tt (ex_State e),
     ex_StepStatuses := fmempty, ex_CurrentStepID := ''''\<rparr>"

section \<open>Model: workflows\<close>

text \<open>Every operation also returns the workflow or execution object it was given, as it leaves it.\<close>

definition wr_Create ::
  "(go_time \<Rightarrow> string) \<Rightarrow> string option \<Rightarrow> go_time \<Rightarrow> uuid \<Rightarrow> workflow \<Rightarrow> wf_db \<Rightarrow>
     repo_error option \<times> workflow \<times> wf_db" where
  "wr_Create tt err now fresh w d =
     (let w = (if wf_ID w = 0 then w\<lparr>wf_ID := fresh\<rparr> else w);
          w = w\<lparr>wf_CreatedAt := now, wf_UpdatedAt := now, wf_Version := 1, wf_IsActive := True\<rparr>
      in case err of
           Some e \<Rightarrow> (Some (DbError e), w, d)
         | None \<Rightarrow>
             if fmlookup (db_workflows d) (wf_ID w) \<noteq> None then (Some ErrDuplicate, w, d)
             else (None, w, d\<lparr>db_workflows := fmupd (wf_ID w)
                     \<lparr>wr_workflow = stored_workflow tt w, wr_deleted_at = None\<rparr> (db_workflows d)\<rparr>))"

definition wr_Get :: "string option \<Rightarrow> uuid \<Rightarrow> wf_db \<Rightarrow> repo_error + workflow" where
  "wr_Get err wid d =
     (case err of
        Some e \<Rightarrow> Inl (DbError e)
      | None \<Rightarrow>
          (case fmlookup (db_workflows d) wid of
             None \<Rightarrow> Inl ErrNotFound
           | Some row \<Rightarrow> if wr_deleted_at row \<noteq> None then Inl ErrNotFound else Inr (wr_workflow row)))"

definition wr_Update ::
  "(go_time \<Rightarrow> string) \<Rightarrow> string option \<Rightarrow> go_time \<Rightarrow> workflow \<Rightarrow> wf_db \<Rightarrow>
     repo_error option \<times> workflow \<times> wf_db" where
  "wr_Update tt err now w d =
     (let oldVersion = wf_Version w;
          w = w\<lparr>wf_Version := wf_Version w + 1, wf_UpdatedAt := now\<rparr>
      in case err of
           Some e \<Rightarrow> (Some (DbError e), w, d)
         | None \<Rightarrow>
             (case fmlookup (db_workflows d) (wf_ID w) of
                None \<Rightarrow> (Some ErrNotFound, w, d)
              | Some row \<Rightarrow>
                  if wr_deleted_at row \<noteq> None then (Some ErrNotFound, w, d)
                  else if wf_Version (wr_workflow row) \<noteq> oldVersion then (Some ErrOptimisticLock, w, d)
                  else
                    let old = wr_workflow row; new = stored_workflow tt w
                    in (None, w, d\<lparr>db_workflows := fmupd (wf_ID w)
                          (row\<lparr>wr_workflow := new\<lparr>wf_ID := wf_ID old, wf_TenantID := wf_TenantID old,
                             wf_CreatedBy := wf_CreatedBy old, wf_CreatedAt := wf_CreatedAt old\<rparr>\<rparr>)
                          (db_workflows d)\<rparr>)))"

definition wr_SoftDelete ::
  "string option \<Rightarrow> go_time \<Rightarrow> uuid \<Rightarrow> wf_db \<Rightarrow> repo_error option \<times> wf_db" where
  "wr_SoftDelete err now wid d =
     (case err of
        Some e \<Rightarrow> (Some (DbError e), d)
      | None \<Rightarrow>
          (case fmlookup (db_workflows d) wid of
             None \<Rightarrow> (Some ErrNotFound, d)
           | Some row \<Rightarrow>
               if wr_deleted_at row \<noteq> None then (Some ErrNotFound, d)
               else (None, d\<lparr>db_workflows := fmupd wid
                       (row\<lparr>wr_workflow := (wr_workflow row)\<lparr>wf_UpdatedAt := now\<rparr>,
                            wr_deleted_at := Some now\<rparr>) (db_workflows d)\<rparr>)))"

section \<open>Model: executions\<close>

definition wr_CreateExecution ::
  "(go_time \<Rightarrow> string) \<Rightarrow> string option \<Rightarrow> go_time \<Rightarrow> uuid \<Rightarrow> execution \<Rightarrow> wf_db \<Rightarrow>
     repo_error option \<times> execution \<times> wf_db" where
  "wr_CreateExecution tt err now fresh e d =
     (let e = (if ex_ID e = 0 then e\<lparr>ex_ID := fresh\<rparr> else e);
          e = e\<lparr>ex_StartedAt := now, ex_UpdatedAt := now\<rparr>;
          e = (if ex_Status e = '''' then e\<lparr>ex_Status := ''pending''\<rparr> else e)
      in case err of
           Some x \<Rightarrow> (Some (DbError x), e, d)
         | None \<Rightarrow>
             if fmlookup (db_executions d) (ex_ID e) \<noteq> None then (Some ErrDuplicate, e, d)
             else (None, e, d\<lparr>db_executions :=
                     fmupd (ex_ID e) ((stored_execution tt e)\<lparr>ex_CompletedAt := None\<rparr>) (db_executions d)\<rparr>))"

definition wr_GetExecution :: "string option \<Rightarrow> uuid \<Rightarrow> wf_db \<Rightarrow> repo_error + execution" where
  "wr_GetExecution err eid d =
     (case err of
        Some x \<Rightarrow> Inl (DbError x)
      | None \<Rightarrow> (case fmlookup (db_executions d) eid of None \<Rightarrow> Inl ErrNotFound | Some e \<Rightarrow> Inr e))"

definition wr_UpdateExecution ::
  "(go_time \<Rightarrow> string) \<Rightarrow> string option \<Rightarrow> go_time \<Rightarrow> execution \<Rightarrow> wf_db \<Rightarrow>
     repo_error option \<times> execution \<times> wf_db" where
  "wr_UpdateExecution tt err now e d =
     (let e = e\<lparr>ex_UpdatedAt := now\<rparr>
      in case err of
           Some x \<Rightarrow> (Some (DbError x), e, d)
         | None \<Rightarrow>
             (case fmlookup (db_executions d) (ex_ID e) of
                None \<Rightarrow> (Some ErrNotFound, e, d)
              | Some old \<Rightarrow>
                  let new = stored_execution tt e
                  in (None, e, d\<lparr>db_executions := fmupd (ex_ID e)
                        (old\<lparr>ex_Status := ex_Status new, ex_Context := ex_Context new,
                             ex_State := ex_State new, ex_Error := ex_Error new,
                             ex_CompletedAt := ex_CompletedAt new, ex_UpdatedAt := ex_UpdatedAt new\<rparr>)
                        (db_executions d)\<rparr>)))"

text \<open>
  \<open>UpdateStepStatus\<close> edits the \<open>step_statuses\<close> object inside the \<open>state\<close> column; a value there
  that is not an object is replaced.
\<close>

definition json_object_put :: "string \<Rightarrow> gval \<Rightarrow> (string \<times> gval) list \<Rightarrow> (string \<times> gval) list" where
  "json_object_put k v kvs = (k, v) # filter (\<lambda>kv. fst kv \<noteq> k) kvs"

definition wr_UpdateStepStatus ::
  "(go_time \<Rightarrow> string) \<Rightarrow> string option \<Rightarrow> go_time \<Rightarrow> uuid \<Rightarrow> string \<Rightarrow> string \<Rightarrow> (string, gval) fmap \<Rightarrow>
     wf_db \<Rightarrow> repo_error option \<times> wf_db" where
  "wr_UpdateStepStatus tt err now eid stepID status output d =
     (case err of
        Some x \<Rightarrow> (Some (DbError x), d)
      | None \<Rightarrow>
          (case fmlookup (db_executions d) eid of
             None \<Rightarrow> (Some ErrNotFound, d)
           | Some e \<Rightarrow>
               let stepStatuses = (case fmlookup (ex_State e) ''step_statuses'' of
                     Some (VMap kvs) \<Rightarrow> kvs | _ \<Rightarrow> []);
                   stepStatus = VMap [(''step_id'', VStr stepID), (''status'', VStr status),
                     (''output'', VMap (go_range output)), (''completed_at'', VTime now)];
                   state = fmupd ''step_statuses'' (VMap (json_object_put stepID stepStatus stepStatuses))
                     (ex_State e)
               in (None, d\<lparr>db_executions :=
                     fmupd eid (e\<lparr>ex_State := json_map tt state, ex_UpdatedAt := now\<rparr>) (db_executions d)\<rparr>)))"

definition wr_GetActiveExecutions :: "string option \<Rightarrow> uuid \<Rightarrow> wf_db \<Rightarrow> repo_error + execution list" where
  "wr_GetActiveExecutions err wid d =
     (case err of
        Some x \<Rightarrow> Inl (DbError x)
      | None \<Rightarrow> Inr (rev (sort_key ex_StartedAt (filter (\<lambda>e. ex_WorkflowID e = wid
                  \<and> ex_Status e \<in> {''pending'', ''running'', ''paused''})
                (map snd (go_range (db_executions d)))))))"

section \<open>What the tables hold\<close>

text \<open>
  Rows are filed under their own, non-nil ids, an execution row carries no runtime data, and no
  value of a JSON column is an \<open>int\<close>.
\<close>

definition db_ok :: "wf_db \<Rightarrow> bool" where
  "db_ok d \<longleftrightarrow>
     (\<forall>i row. fmlookup (db_workflows d) i = Some row \<longrightarrow> wf_ID (wr_workflow row) = i \<and> i \<noteq> 0
        \<and> no_ints (wf_Config (wr_workflow row)))
     \<and> (\<forall>i e. fmlookup (db_executions d) i = Some e \<longrightarrow>
          ex_ID e = i \<and> i \<noteq> 0 \<and> ex_StepStatuses e = fmempty \<and> ex_CurrentStepID e = ''''
          \<and> no_ints (ex_Context e))"

lemmas repo_defs = wr_Create_def wr_Get_def wr_Update_def wr_SoftDelete_def wr_CreateExecution_def
  wr_GetExecution_def wr_UpdateExecution_def wr_UpdateStepStatus_def

lemma db_ok_empty: "db_ok \<lparr>db_workflows = fmempty, db_executions = fmempty\<rparr>"
  by (simp add: db_ok_def)

lemma stored_execution_simps [simp]:
  "ex_ID (stored_execution tt e) = ex_ID e" "ex_StepStatuses (stored_execution tt e) = fmempty"
  "ex_CurrentStepID (stored_execution tt e) = ''''" "ex_Status (stored_execution tt e) = ex_Status e"
  "ex_WorkflowID (stored_execution tt e) = ex_WorkflowID e" "no_ints (ex_Context (stored_execution tt e))"
  by (simp_all add: stored_execution_def)

lemma stored_workflow_simps [simp]:
  "wf_ID (stored_workflow tt w) = wf_ID w" "wf_Version (stored_workflow tt w) = wf_Version w"
  "no_ints (wf_Config (stored_workflow tt w))"
  by (simp_all add: stored_workflow_def)

lemma db_ok_Create: "db_ok d \<Longrightarrow> fresh \<noteq> 0 \<Longrightarrow> db_ok (snd (snd (wr_Create tt err now fresh w d)))"
  by (auto simp: wr_Create_def db_ok_def Let_def split: option.split)

lemma db_ok_Update: "db_ok d \<Longrightarrow> db_ok (snd (snd (wr_Update tt err now w d)))"
  by (auto simp: wr_Update_def db_ok_def Let_def split: option.split)

lemma db_ok_SoftDelete: "db_ok d \<Longrightarrow> db_ok (snd (wr_SoftDelete err now i d))"
  by (auto simp: wr_SoftDelete_def db_ok_def Let_def split: option.split)

lemma db_ok_CreateExecution:
  "db_ok d \<Longrightarrow> fresh \<noteq> 0 \<Longrightarrow> db_ok (snd (snd (wr_CreateExecution tt err now fresh e d)))"
  by (auto simp: wr_CreateExecution_def db_ok_def Let_def split: option.split)

lemma db_ok_UpdateExecution: "db_ok d \<Longrightarrow> db_ok (snd (snd (wr_UpdateExecution tt err now e d)))"
  by (auto simp: wr_UpdateExecution_def db_ok_def Let_def split: option.split)

lemma db_ok_UpdateStepStatus:
  "db_ok d \<Longrightarrow> db_ok (snd (wr_UpdateStepStatus tt err now i step status out d))"
  by (auto simp: wr_UpdateStepStatus_def db_ok_def Let_def split: option.split)

lemmas db_ok_ops = db_ok_Create db_ok_Update db_ok_SoftDelete db_ok_CreateExecution
  db_ok_UpdateExecution db_ok_UpdateStepStatus

text \<open>A read never yields runtime data.\<close>

lemma wr_GetExecution_runtime:
  "db_ok d \<Longrightarrow> wr_GetExecution err i d = Inr e \<Longrightarrow>
     ex_ID e = i \<and> i \<noteq> 0 \<and> ex_StepStatuses e = fmempty \<and> ex_CurrentStepID e = '''' \<and> no_ints (ex_Context e)"
  by (auto simp: wr_GetExecution_def db_ok_def split: option.splits)

text \<open>C24 Workflow updates are protected against lost updates: if an update of a workflow read at some
  version succeeds, then every update of the same workflow that still carries that version, or
  any other than the next one, fails with an optimistic-lock error and leaves the tables as
  they are.
\<close>

theorem wr_Update_optimistic:
  assumes "fst (wr_Update tt err now w d) = None"
    and "wf_ID w' = wf_ID w" and "wf_Version w' \<noteq> wf_Version w + 1"
  shows "fst (wr_Update tt None now' w' (snd (snd (wr_Update tt err now w d)))) = Some ErrOptimisticLock
    \<and> snd (snd (wr_Update tt None now' w' (snd (snd (wr_Update tt err now w d)))))
        = snd (snd (wr_Update tt err now w d))"
  using assms by (auto simp: wr_Update_def Let_def split: option.splits if_splits)

theorem wr_Update_optimistic_witness:
  "let w = \<lparr>wf_ID = 7, wf_TenantID = 2, wf_Name = ''n'', wf_Type = ''sequential'', wf_Version = 1,
         wf_CreatedBy = ''u'', wf_Steps = [], wf_Config = fmempty, wf_Description = '''',
         wf_IsActive = True, wf_CreatedAt = 0, wf_UpdatedAt = 0\<rparr>;
       d = snd (snd (wr_Create (\<lambda>_. '''') None 0 9 w \<lparr>db_workflows = fmempty, db_executions = fmempty\<rparr>))
   in fst (wr_Update (\<lambda>_. '''') None 1 w d) = None
      \<and> fst (wr_Update (\<lambda>_. '''') None 2 w (snd (snd (wr_Update (\<lambda>_. '''') None 1 w d))))
          = Some ErrOptimisticLock"
proof -
  define w where "w = \<lparr>wf_ID = 7, wf_TenantID = 2, wf_Name = ''n'', wf_Type = ''sequential'',
    wf_Version = 1, wf_CreatedBy = ''u'', wf_Steps = [], wf_Config = fmempty, wf_Description = '''',
    wf_IsActive = True, wf_CreatedAt = 0, wf_UpdatedAt = 0\<rparr>"
  let ?d = "snd (snd (wr_Create (\<lambda>_. '''') None 0 9 w \<lparr>db_workflows = fmempty, db_executions = fmempty\<rparr>))"
  have "fst (wr_Update (\<lambda>_. '''') None 1 w ?d) = None"
    by (simp add: w_def wr_Create_def wr_Update_def Let_def)
  from wr_Update_optimistic [OF this, of w 2] this show ?thesis
    by (simp add: Let_def w_def [symmetric])
qed

end
