(* ===== verification/Workflow_Input.thy ===== *)
theory Workflow_Input
  imports Workflow_Repository
begin

text \<open>
  The checks of workflow inputs and template parameters (\<open>validateWorkflowInput\<close>,
  \<open>validateFieldType\<close>, \<open>validateFieldConstraint\<close> and its parts, \<open>validateTemplateParameters\<close>,
  \<open>validateParameterType\<close> of \<open>pkg/services/workflow_service_impl.go\<close>).  A nested
  \<open>map[string]interface{}\<close> is an association list with distinct keys; its type switch sees the
  dynamic types \<open>int\<close>, \<open>float64\<close>, \<open>bool\<close>, \<open>string\<close>, \<open>[]interface{}\<close> and
  \<open>map[string]interface{}\<close>.  Comparing two lists or two maps with \<open>==\<close> panics.  The regular
  expression engine is the argument \<open>rx\<close>: pattern and text give an error or whether they match.
\<close>

section \<open>Model\<close>

datatype input_error =
    RequiredMissing string
  | WrongType string string
  | LessThanMinimum string
  | ExceedsMaximum string
  | InvalidPattern string string
  | NoMatch string string
  | NotAllowed string

type_synonym check = "(input_error, unit) outcome"
type_synonym regexp = "string \<Rightarrow> string \<Rightarrow> string + bool"

text \<open>A loop that leaves at the first failing iteration, and two checks in sequence.\<close>

fun each :: "('a \<Rightarrow> check) \<Rightarrow> 'a list \<Rightarrow> check" where
  "each f [] = Returned ()"
| "each f (x # xs) = (case f x of Returned _ \<Rightarrow> each f xs | r \<Rightarrow> r)"

definition then_check :: "check \<Rightarrow> check \<Rightarrow> check" where
  "then_check a b = (case a of Returned _ \<Rightarrow> b | r \<Rightarrow> r)"

definition require :: "bool \<Rightarrow> input_error \<Rightarrow> check" where
  "require ok e = (if ok then Returned () else Failed e ())"

definition has_type :: "string \<Rightarrow> gval \<Rightarrow> bool" where
  "has_type expected v =
     (if expected = ''string'' then (case v of VStr _ \<Rightarrow> True | _ \<Rightarrow> False)
      else if expected = ''number'' then (case v of VInt _ \<Rightarrow> True | VFloat _ \<Rightarrow> True | _ \<Rightarrow> False)
      else if expected = ''boolean'' then (case v of VBool _ \<Rightarrow> True | _ \<Rightarrow> False)
      else if expected = ''object'' then (case v of VMap _ \<Rightarrow> True | _ \<Rightarrow> False)
      else if expected = ''array'' then (case v of VList _ \<Rightarrow> True | _ \<Rightarrow> False)
      else True)"

definition validateFieldType :: "string \<Rightarrow> gval \<Rightarrow> string \<Rightarrow> check" where
  "validateFieldType fieldName v expected = require (has_type expected v) (WrongType fieldName expected)"

definition validateMinConstraint :: "string \<Rightarrow> gval \<Rightarrow> gval \<Rightarrow> check" where
  "validateMinConstraint fieldName v minVal =
     (case (v, minVal) of
        (VInt n, VInt m) \<Rightarrow> require (\<not> n < m) (LessThanMinimum fieldName)
      | (VFloat x, VFloat m) \<Rightarrow> require (\<not> x < m) (LessThanMinimum fieldName)
      | (VStr s, VInt m) \<Rightarrow> require (\<not> int (length s) < m) (LessThanMinimum fieldName)
      | _ \<Rightarrow> Returned ())"

definition validateMaxConstraint :: "string \<Rightarrow> gval \<Rightarrow> gval \<Rightarrow> check" where
  "validateMaxConstraint fieldName v maxVal =
     (case (v, maxVal) of
        (VInt n, VInt m) \<Rightarrow> require (\<not> m < n) (ExceedsMaximum fieldName)
      | (VFloat x, VFloat m) \<Rightarrow> require (\<not> m < x) (ExceedsMaximum fieldName)
      | (VStr s, VInt m) \<Rightarrow> require (\<not> m < int (length s)) (ExceedsMaximum fieldName)
      | _ \<Rightarrow> Returned ())"

definition validatePatternConstraint :: "regexp \<Rightarrow> string \<Rightarrow> gval \<Rightarrow> gval \<Rightarrow> check" where
  "validatePatternConstraint rx fieldName v pattern =
     (case (v, pattern) of
        (VStr str, VStr patternStr) \<Rightarrow>
          (case rx patternStr str of
             Inl err \<Rightarrow> Failed (InvalidPattern fieldName err) ()
           | Inr matched \<Rightarrow> require matched (NoMatch fieldName patternStr))
      | _ \<Rightarrow> Returned ())"

text \<open>\<open>==\<close> on two interface values: different dynamic types are unequal; lists and maps panic.\<close>

definition iface_eq :: "gval \<Rightarrow> gval \<Rightarrow> bool option" where
  "iface_eq a b =
     (case (a, b) of
        (VList _, VList _) \<Rightarrow> None
      | (VMap _, VMap _) \<Rightarrow> None
      | _ \<Rightarrow> Some (a = b))"

fun find_allowed :: "string \<Rightarrow> gval \<Rightarrow> gval list \<Rightarrow> check" where
  "find_allowed fieldName v [] = Failed (NotAllowed fieldName) ()"
| "find_allowed fieldName v (allowed # rest) =
     (case iface_eq v allowed of
        None \<Rightarrow> Panicked
      | Some True \<Rightarrow> Returned ()
      | Some False \<Rightarrow> find_allowed fieldName v rest)"

definition validateEnumConstraint :: "string \<Rightarrow> gval \<Rightarrow> gval \<Rightarrow> check" where
  "validateEnumConstraint fieldName v enum =
     (case enum of VList allowedValues \<Rightarrow> find_allowed fieldName v allowedValues | _ \<Rightarrow> Returned ())"

definition when_key :: "(string \<times> gval) list \<Rightarrow> string \<Rightarrow> (gval \<Rightarrow> check) \<Rightarrow> check" where
  "when_key m k f = (case map_of m k of None \<Rightarrow> Returned () | Some v \<Rightarrow> f v)"

definition validateFieldConstraint :: "regexp \<Rightarrow> string \<Rightarrow> gval \<Rightarrow> gval \<Rightarrow> check" where
  "validateFieldConstraint rx fieldName v constraint =
     (case constraint of
        VMap cm \<Rightarrow>
          then_check (when_key cm ''min'' (validateMinConstraint fieldName v))
            (then_check (when_key cm ''max'' (validateMaxConstraint fieldName v))
              (then_check (when_key cm ''pattern'' (validatePatternConstraint rx fieldName v))
                (when_key cm ''enum'' (validateEnumConstraint fieldName v))))
      | _ \<Rightarrow> Returned ())"

text \<open>\<open>input[k]\<close>: a missing key and a nil map both give nil.\<close>

definition input_get :: "(string, gval) fmap \<Rightarrow> string \<Rightarrow> gval" where
  "input_get inp k = fmget VNil inp k"

definition check_required :: "(string, gval) fmap \<Rightarrow> gval \<Rightarrow> check" where
  "check_required inp field =
     (case field of
        VStr fieldName \<Rightarrow> require (input_get inp fieldName \<noteq> VNil) (RequiredMissing fieldName)
      | _ \<Rightarrow> Returned ())"

definition check_property :: "(string, gval) fmap \<Rightarrow> string \<times> gval \<Rightarrow> check" where
  "check_property inp = (\<lambda>(fieldName, fieldDef).
     (case fieldDef of
        VMap fd \<Rightarrow>
          (case map_of fd ''type'' of
             Some (VStr fieldType) \<Rightarrow>
               if input_get inp fieldName \<noteq> VNil
               then validateFieldType fieldName (input_get inp fieldName) fieldType
               else Returned ()
           | _ \<Rightarrow> Returned ())
      | _ \<Rightarrow> Returned ()))"

definition check_constraint :: "regexp \<Rightarrow> (string, gval) fmap \<Rightarrow> string \<times> gval \<Rightarrow> check" where
  "check_constraint rx inp = (\<lambda>(fieldName, constraint).
     if input_get inp fieldName \<noteq> VNil
     then validateFieldConstraint rx fieldName (input_get inp fieldName) constraint
     else Returned ())"

text \<open>
  A type assertion \<open>x.([]interface{})\<close> or \<open>x.(map[string]interface{})\<close> guards each loop: when it
  fails there is nothing to visit.
\<close>

definition schema_list :: "(string \<times> gval) list \<Rightarrow> string \<Rightarrow> gval list" where
  "schema_list schema k = (case map_of schema k of Some (VList vs) \<Rightarrow> vs | _ \<Rightarrow> [])"

definition schema_map :: "(string \<times> gval) list \<Rightarrow> string \<Rightarrow> (string \<times> gval) list" where
  "schema_map schema k = (case map_of schema k of Some (VMap kvs) \<Rightarrow> kvs | _ \<Rightarrow> [])"

definition schema_of :: "workflow \<Rightarrow> (string \<times> gval) list option" where
  "schema_of w = (case fmlookup (wf_Config w) ''input_schema'' of Some (VMap schema) \<Rightarrow> Some schema | _ \<Rightarrow> None)"

definition validateWorkflowInput :: "regexp \<Rightarrow> workflow \<Rightarrow> (string, gval) fmap \<Rightarrow> check" where
  "validateWorkflowInput rx w inp =
     (case schema_of w of
        None \<Rightarrow> Returned ()
      | Some schema \<Rightarrow>
          then_check (each (check_required inp) (schema_list schema ''required''))
            (then_check (each (check_property inp) (schema_map schema ''properties''))
              (each (check_constraint rx inp) (schema_map schema ''constraints''))))"

section \<open>Model: template parameters\<close>

record template_parameter =
  tp_Name :: string
  tp_Type :: string
  tp_Required :: bool
  tp_DefaultValue :: gval

definition validateParameterType :: "template_parameter \<Rightarrow> gval \<Rightarrow> check" where
  "validateParameterType param v = require (has_type (tp_Type param) v) (WrongType (tp_Name param) (tp_Type param))"

text \<open>The parameter map is shared with the caller: the defaults filled in before an error stay.\<close>

fun validateTemplateParameters ::
  "template_parameter list \<Rightarrow> (string, gval) fmap \<Rightarrow> input_error option \<times> (string, gval) fmap" where
  "validateTemplateParameters [] params = (None, params)"
| "validateTemplateParameters (param # rest) params =
     (case fmlookup params (tp_Name param) of
        None \<Rightarrow>
          if tp_Required param then (Some (RequiredMissing (tp_Name param)), params)
          else if tp_DefaultValue param \<noteq> VNil
          then validateTemplateParameters rest (fmupd (tp_Name param) (tp_DefaultValue param) params)
          else validateTemplateParameters rest params
      | Some v \<Rightarrow>
          (case validateParameterType param v of
             Failed e _ \<Rightarrow> (Some e, params)
           | _ \<Rightarrow> validateTemplateParameters rest params))"

section \<open>What the checks accept\<close>

lemma each_Returned: "each f xs = Returned () \<longleftrightarrow> (\<forall>x \<in> set xs. f x = Returned ())"
  by (induction xs) (auto split: outcome.splits)

lemma then_check_Returned [simp]:
  "then_check a b = Returned () \<longleftrightarrow> a = Returned () \<and> b = Returned ()"
  by (cases a) (auto simp: then_check_def)

lemma require_Returned [simp]: "require ok e = Returned () \<longleftrightarrow> ok"
  by (simp add: require_def)

lemma validateWorkflowInput_alt:
  "validateWorkflowInput rx w inp = Returned () \<longleftrightarrow>
     (case schema_of w of
        None \<Rightarrow> True
      | Some schema \<Rightarrow>
          (\<forall>f \<in> set (schema_list schema ''required''). check_required inp f = Returned ())
          \<and> (\<forall>p \<in> set (schema_map schema ''properties''). check_property inp p = Returned ())
          \<and> (\<forall>c \<in> set (schema_map schema ''constraints''). check_constraint rx inp c = Returned ()))"
  by (auto simp: validateWorkflowInput_def each_Returned split: option.splits)


definition example_schema :: "(string \<times> gval) list" where
  "example_schema = [(''required'', VList [VStr ''n'']),
     (''properties'', VMap [(''n'', VMap [(''type'', VStr ''number'')])])]"

definition example_workflow :: workflow where
  "example_workflow = \<lparr>wf_ID = 1, wf_TenantID = 2, wf_Name = ''n'', wf_Type = ''sequential'',
     wf_Version = 1, wf_CreatedBy = ''u'', wf_Steps = [],
     wf_Config = fmap_of_list [(''input_schema'', VMap example_schema)],
     wf_Description = '''', wf_IsActive = True, wf_CreatedAt = 0, wf_UpdatedAt = 0\<rparr>"


text \<open>Length limits of strings are never enforced for a schema that has been stored: a \<open>min\<close> or
  \<open>max\<close> that has gone through the database's JSON column is a \<open>float64\<close>, and the string case of
  both checks only looks at an \<open>int\<close>, so every string passes.
\<close>

theorem stored_length_limits_ignored:
  "validateMinConstraint f (VStr s) (json_value tt limit) = Returned ()
     \<and> validateMaxConstraint f (VStr s) (json_value tt limit) = Returned ()"
  by (auto simp: validateMinConstraint_def validateMaxConstraint_def json_value_not_int
      split: gval.split)

text \<open>
  The only inputs on which validation panics are those where a field with an \<open>enum\<close> constraint
  holds a list or an object.
\<close>

definition scalar :: "gval \<Rightarrow> bool" where
  "scalar v \<longleftrightarrow> (case v of VList _ \<Rightarrow> False | VMap _ \<Rightarrow> False | _ \<Rightarrow> True)"

lemma each_panic: "each f xs = Panicked \<Longrightarrow> \<exists>x \<in> set xs. f x = Panicked"
  by (induction xs) (auto split: outcome.splits)

lemma then_check_panic [simp]:
  "then_check a b = Panicked \<longleftrightarrow> a = Panicked \<or> a = Returned () \<and> b = Panicked"
  by (cases a) (auto simp: then_check_def)

lemma require_no_panic [simp]: "require ok e \<noteq> Panicked"
  by (simp add: require_def)

lemma iface_eq_scalar: "scalar v \<Longrightarrow> iface_eq v w = Some (v = w)"
  by (cases v) (auto simp: iface_eq_def scalar_def)

lemma find_allowed_no_panic: "scalar v \<Longrightarrow> find_allowed f v xs \<noteq> Panicked"
  by (induction xs) (auto simp: iface_eq_scalar split: bool.splits)

lemma bounds_no_panic:
  "validateMinConstraint f v m \<noteq> Panicked" "validateMaxConstraint f v m \<noteq> Panicked"
  by (cases v; cases m; simp add: validateMinConstraint_def validateMaxConstraint_def)+

lemma pattern_no_panic: "validatePatternConstraint rx f v m \<noteq> Panicked"
  by (cases v; cases m) (simp_all add: validatePatternConstraint_def split: sum.split)

lemma enum_no_panic: "scalar v \<Longrightarrow> validateEnumConstraint f v m \<noteq> Panicked"
  by (cases m) (simp_all add: validateEnumConstraint_def find_allowed_no_panic)

lemma constraint_no_panic: "scalar v \<Longrightarrow> validateFieldConstraint rx f v c \<noteq> Panicked"
  by (cases c) (auto simp: validateFieldConstraint_def when_key_def bounds_no_panic pattern_no_panic
      enum_no_panic split: option.split)

theorem validateWorkflowInput_no_panic:
  assumes "\<And>k. scalar (input_get inp k)"
  shows "validateWorkflowInput rx w inp \<noteq> Panicked"
proof -
  have "check_required inp f \<noteq> Panicked" for f
    by (cases f) (simp_all add: check_required_def)
  moreover have "check_property inp p \<noteq> Panicked" for p
    by (auto simp: check_property_def validateFieldType_def split: prod.split gval.split option.split)
  moreover have "check_constraint rx inp c \<noteq> Panicked" for c
    using assms by (auto simp: check_constraint_def constraint_no_panic split: prod.splits)
  ultimately show ?thesis
    by (auto simp: validateWorkflowInput_def dest!: each_panic split: option.splits)
qed

text \<open>What a successful validation of template parameters leaves in the parameter map.\<close>

definition param_result :: "template_parameter \<Rightarrow> gval option \<Rightarrow> gval option \<Rightarrow> bool" where
  "param_result p before after \<longleftrightarrow>
     (case before of
        Some v \<Rightarrow> has_type (tp_Type p) v \<and> after = Some v
      | None \<Rightarrow> \<not> tp_Required p
          \<and> after = (if tp_DefaultValue p = VNil then None else Some (tp_DefaultValue p)))"

lemma validateTemplateParameters_result:
  "validateTemplateParameters ps params = (None, params') \<Longrightarrow> distinct (map tp_Name ps) \<Longrightarrow>
     (\<forall>p \<in> set ps. param_result p (fmlookup params (tp_Name p)) (fmlookup params' (tp_Name p)))
     \<and> (\<forall>k. k \<notin> tp_Name ` set ps \<longrightarrow> fmlookup params' k = fmlookup params k)"
proof (induction ps arbitrary: params)
  case Nil
  then show ?case by simp
next
  case (Cons p ps)
  obtain params1 where p1: "validateTemplateParameters ps params1 = (None, params')"
    and other: "\<And>k. k \<noteq> tp_Name p \<Longrightarrow> fmlookup params1 k = fmlookup params k"
    and here: "param_result p (fmlookup params (tp_Name p)) (fmlookup params1 (tp_Name p))"
    using Cons.prems(1)
    by (auto simp: param_result_def validateParameterType_def require_def
        split: option.splits if_splits)
  have d: "distinct (map tp_Name ps)" "tp_Name p \<notin> tp_Name ` set ps" using Cons.prems by auto
  note IH = Cons.IH [OF p1 d(1)]
  have "fmlookup params' (tp_Name p) = fmlookup params1 (tp_Name p)" using IH d(2) by blast
  moreover have "tp_Name q \<noteq> tp_Name p" if "q \<in> set ps" for q using that d(2) by (metis image_eqI)
  ultimately show ?case using IH here other by auto
qed

end
