(* ===== verification/Distributed_Tx.thy ===== *)
theory Distributed_Tx
  imports Prelude
begin

text \<open>
  The transactions of \<open>pkg/services/base_service.go\<close>: the saga compensator, the two-phase commit
  of \<open>distributedTransaction\<close> and \<open>WithTransaction\<close>, which runs a function under both.  A
  participant is given by the errors its three methods return; the calls made on participants and
  compensations are recorded in a log, which is what the theorems speak about.  The goroutines of
  one phase call every participant once and are joined before the phase's result is looked at, so
  the model visits the participants in the order of their ids; the theorems only use which calls
  were made in which phase.  Logging, metrics and the deadline of the context are left out.
\<close>

section \<open>Model: compensator\<close>

text \<open>A compensation is the error it returns; the compensations that ran are logged.\<close>

datatype call = PrepareCall string | CommitCall string | RollbackCall string | CompensateCall nat

record compensation =
  cp_id :: nat
  cp_result :: "string option"

type_synonym compensator = "compensation list"

definition NewCompensator :: compensator where
  "NewCompensator = []"

definition AddCompensation :: "compensation \<Rightarrow> compensator \<Rightarrow> compensator" where
  "AddCompensation f c = f # c"

definition Compensate :: "compensator \<Rightarrow> call list \<times> string option" where
  "Compensate c =
     (let errs = List.map_filter cp_result c
      in (map (\<lambda>f. CompensateCall (cp_id f)) c,
          if errs \<noteq> [] then Some (''compensation failed: '' @ hd errs) else None))"

section \<open>Model: distributed transaction\<close>

datatype tx_error =
    NotActiveForRegister
  | AlreadyRegistered string
  | NotActiveForCommit
  | PrepareFailed nat
  | AlreadyFinished

datatype tx_state = TxActive | TxPreparing | TxCommitting | TxAborting | TxCommitted | TxAborted

record participant =
  pt_Prepare :: "string option"
  pt_Commit :: "string option"
  pt_Rollback :: "string option"

record dtx =
  tx_participants :: "(string, participant) fmap"
  tx_state :: tx_state
  tx_compensations :: "compensation list"
  tx_cancelled :: bool
  tx_log :: "call list"

definition startDistributedTransaction :: dtx where
  "startDistributedTransaction =
     \<lparr>tx_participants = fmempty, tx_state = TxActive, tx_compensations = [], tx_cancelled = False,
      tx_log = []\<rparr>"

definition tx_RegisterParticipant :: "string \<Rightarrow> participant \<Rightarrow> dtx \<Rightarrow> tx_error option \<times> dtx" where
  "tx_RegisterParticipant participantID p t =
     (if tx_state t \<noteq> TxActive then (Some NotActiveForRegister, t)
      else if fmlookup (tx_participants t) participantID \<noteq> None
      then (Some (AlreadyRegistered participantID), t)
      else (None, t\<lparr>tx_participants := fmupd participantID p (tx_participants t)\<rparr>))"

definition tx_AddCompensation :: "compensation \<Rightarrow> dtx \<Rightarrow> dtx" where
  "tx_AddCompensation f t = t\<lparr>tx_compensations := tx_compensations t @ [f]\<rparr>"

definition tx_doRollback :: "dtx \<Rightarrow> dtx" where
  "tx_doRollback t = t\<lparr>tx_log := tx_log t
       @ map (\<lambda>(pID, p). RollbackCall pID) (go_range (tx_participants t))
       @ map (\<lambda>f. CompensateCall (cp_id f)) (rev (tx_compensations t))\<rparr>"

definition prepareErrors :: "dtx \<Rightarrow> (string \<times> string) list" where
  "prepareErrors t = List.map_filter (\<lambda>(pID, p). map_option (Pair pID) (pt_Prepare p))
     (go_range (tx_participants t))"

definition tx_Commit :: "dtx \<Rightarrow> tx_error option \<times> dtx" where
  "tx_Commit t =
     (if tx_state t \<noteq> TxActive then (Some NotActiveForCommit, t)
      else
        let t = t\<lparr>tx_state := TxPreparing,
                  tx_log := tx_log t @ map (\<lambda>(pID, p). PrepareCall pID) (go_range (tx_participants t))\<rparr>
        in if prepareErrors t \<noteq> [] then
             let t = t\<lparr>tx_state := TxAborting\<rparr>;
                 t = tx_doRollback t
             in (Some (PrepareFailed (length (prepareErrors t))), t\<lparr>tx_state := TxAborted\<rparr>)
           else
             let t = t\<lparr>tx_state := TxCommitting,
                  tx_log := tx_log t @ map (\<lambda>(pID, p). CommitCall pID) (go_range (tx_participants t))\<rparr>
             in (None, t\<lparr>tx_state := TxCommitted, tx_cancelled := True\<rparr>))"

definition tx_Rollback :: "dtx \<Rightarrow> tx_error option \<times> dtx" where
  "tx_Rollback t =
     (if tx_state t = TxAborted \<or> tx_state t = TxCommitted
      then (Some AlreadyFinished, t)
      else
        let t = t\<lparr>tx_state := TxAborting\<rparr>;
            t = tx_doRollback t
        in (None, t\<lparr>tx_state := TxAborted, tx_cancelled := True\<rparr>))"

section \<open>Model: WithTransaction\<close>

text \<open>
  The function receives the transaction as the interface \<open>Transaction\<close>, which has no method to
  register a participant, and the compensator only through a context key whose type is local to
  \<open>WithTransaction\<close>: it can reach neither, so it is a function of the service state alone.
\<close>

definition WithTransaction :: "('s \<Rightarrow> 'e option \<times> 's) \<Rightarrow> 's \<Rightarrow> ('e + tx_error) option \<times> dtx \<times> 's" where
  "WithTransaction fn s =
     (let tx = startDistributedTransaction;
          compensator = NewCompensator;
          (err, s) = fn s
      in case err of
           Some e \<Rightarrow>
             let (ran, compErr) = Compensate compensator;
                 (rbErr, tx) = tx_Rollback (tx\<lparr>tx_log := tx_log tx @ ran\<rparr>)
             in (Some (Inl e), tx, s)
         | None \<Rightarrow>
             let (err, tx) = tx_Commit tx
             in case err of
                  Some e \<Rightarrow> let (ran, compErr) = Compensate compensator
                            in (Some (Inr e), tx\<lparr>tx_log := tx_log tx @ ran\<rparr>, s)
                | None \<Rightarrow> (None, tx, s))"

lemmas tx_defs = tx_RegisterParticipant_def tx_AddCompensation_def tx_doRollback_def tx_Commit_def
  tx_Rollback_def

section \<open>Runs of a transaction\<close>

inductive tx_step :: "dtx \<Rightarrow> dtx \<Rightarrow> bool" where
  register: "tx_step t (snd (tx_RegisterParticipant pID p t))"
| compensation: "tx_step t (tx_AddCompensation f t)"
| commit: "tx_step t (snd (tx_Commit t))"
| rollback: "tx_step t (snd (tx_Rollback t))"

inductive_cases tx_stepE: "tx_step t t'"

definition tx_reachable :: "dtx \<Rightarrow> bool" where
  "tx_reachable t \<longleftrightarrow> tx_step\<^sup>*\<^sup>* startDistributedTransaction t"

definition called :: "(string \<Rightarrow> call) \<Rightarrow> dtx \<Rightarrow> string set" where
  "called c t = {pID. c pID \<in> set (tx_log t)}"

lemma range_calls:
  "inj c \<Longrightarrow> {q. c q \<in> (\<lambda>(pID, p). c pID) ` set (go_range m)} = fset (fmdom m)"
  using fst_enumerates [OF go_range_enumerates, of m] by (force dest: injD)

text \<open>
  What a log looks like in each resting state: nothing has been called while the transaction is
  active; a committed transaction has prepared and committed every participant and rolled back
  none; an aborted one has rolled back every participant and committed none.
\<close>

definition tx_inv :: "dtx \<Rightarrow> bool" where
  "tx_inv t \<longleftrightarrow> (case tx_state t of
       TxActive \<Rightarrow> tx_log t = [] \<and> \<not> tx_cancelled t
     | TxCommitted \<Rightarrow> called PrepareCall t = fset (fmdom (tx_participants t))
         \<and> called CommitCall t = fset (fmdom (tx_participants t))
         \<and> called RollbackCall t = {} \<and> prepareErrors t = []
     | TxAborted \<Rightarrow> called RollbackCall t = fset (fmdom (tx_participants t))
         \<and> called CommitCall t = {}
     | _ \<Rightarrow> False)"

lemma called_append [simp]: "{q. c q \<in> set (xs @ ys)} = {q. c q \<in> set xs} \<union> {q. c q \<in> set ys}"
  by auto

lemma tx_inv_start: "tx_inv startDistributedTransaction"
  by (simp add: tx_inv_def startDistributedTransaction_def)

lemma prepareErrors_cong [simp]:
  "prepareErrors (t\<lparr>tx_state := s\<rparr>) = prepareErrors t"
  "prepareErrors (t\<lparr>tx_log := l\<rparr>) = prepareErrors t"
  "prepareErrors (t\<lparr>tx_cancelled := b\<rparr>) = prepareErrors t"
  "prepareErrors (t\<lparr>tx_compensations := cs\<rparr>) = prepareErrors t"
  by (simp_all add: prepareErrors_def)

lemma calls_of_range:
  "PrepareCall q \<in> (\<lambda>(pID, p). PrepareCall pID) ` set (go_range m) \<longleftrightarrow> q |\<in>| fmdom m"
  "CommitCall q \<in> (\<lambda>(pID, p). CommitCall pID) ` set (go_range m) \<longleftrightarrow> q |\<in>| fmdom m"
  "RollbackCall q \<in> (\<lambda>(pID, p). RollbackCall pID) ` set (go_range m) \<longleftrightarrow> q |\<in>| fmdom m"
  using fst_enumerates [OF go_range_enumerates, of m] by force+

lemma no_other_calls [simp]:
  "PrepareCall q \<notin> (\<lambda>(pID, p). CommitCall pID) ` X" "PrepareCall q \<notin> (\<lambda>(pID, p). RollbackCall pID) ` X"
  "CommitCall q \<notin> (\<lambda>(pID, p). PrepareCall pID) ` X" "CommitCall q \<notin> (\<lambda>(pID, p). RollbackCall pID) ` X"
  "RollbackCall q \<notin> (\<lambda>(pID, p). PrepareCall pID) ` X" "RollbackCall q \<notin> (\<lambda>(pID, p). CommitCall pID) ` X"
  by auto

lemmas log_simps = called_def calls_of_range

lemma tx_inv_Commit: "tx_inv t \<Longrightarrow> tx_inv (snd (tx_Commit t))"
  by (auto simp: tx_inv_def tx_Commit_def tx_doRollback_def Let_def log_simps split: tx_state.splits)

lemma tx_inv_Rollback: "tx_inv t \<Longrightarrow> tx_inv (snd (tx_Rollback t))"
  by (auto simp: tx_inv_def tx_Rollback_def tx_doRollback_def Let_def log_simps split: tx_state.splits)

lemma tx_inv_step: "tx_step t t' \<Longrightarrow> tx_inv t \<Longrightarrow> tx_inv t'"
proof (induction rule: tx_step.induct)
  case (register t pID p)
  then show ?case by (auto simp: tx_RegisterParticipant_def tx_inv_def split: tx_state.splits)
next
  case (compensation t f)
  then show ?case
    by (auto simp: tx_AddCompensation_def tx_inv_def called_def prepareErrors_def split: tx_state.splits)
qed (simp_all add: tx_inv_Commit tx_inv_Rollback)

lemma tx_reachable_inv: "tx_reachable t \<Longrightarrow> tx_inv t"
  unfolding tx_reachable_def
  by (induction rule: rtranclp_induct) (auto intro: tx_inv_start tx_inv_step)

section \<open>Guarantees\<close>

lemma prepareErrors_Nil:
  "prepareErrors t = [] \<longleftrightarrow> (\<forall>pID p. fmlookup (tx_participants t) pID = Some p \<longrightarrow> pt_Prepare p = None)"
proof -
  have "prepareErrors t = [] \<longleftrightarrow> (\<forall>x \<in> set (go_range (tx_participants t)). pt_Prepare (snd x) = None)"
    by (auto simp: prepareErrors_def List.map_filter_def filter_empty_conv split: prod.splits)
  then show ?thesis unfolding set_go_range [symmetric] by force
qed

text \<open>C6 Two-phase commit is atomic in the calls it makes: in every state a distributed transaction
  can reach, either no participant has been asked to commit or none has been asked to roll back,
  and if any has been asked to commit then every participant was prepared without an error and
  every participant was asked to commit.
\<close>

theorem tx_atomic:
  assumes "tx_reachable t"
  shows "(called CommitCall t = {} \<or> called RollbackCall t = {})
    \<and> (called CommitCall t \<noteq> {} \<longrightarrow>
         called CommitCall t = fset (fmdom (tx_participants t))
         \<and> called PrepareCall t = fset (fmdom (tx_participants t))
         \<and> (\<forall>pID p. fmlookup (tx_participants t) pID = Some p \<longrightarrow> pt_Prepare p = None))"
  using tx_reachable_inv [OF assms]
  by (auto simp: tx_inv_def prepareErrors_Nil [symmetric] called_def split: tx_state.splits)

theorem tx_atomic_witness:
  "let p = \<lparr>pt_Prepare = None, pt_Commit = None, pt_Rollback = None\<rparr>;
       t = snd (tx_Commit (snd (tx_RegisterParticipant ''db'' p startDistributedTransaction)))
   in tx_reachable t \<and> called CommitCall t = {''db''} \<and> called RollbackCall t = {}"
proof -
  define t where "t = snd (tx_Commit (snd (tx_RegisterParticipant ''db''
    \<lparr>pt_Prepare = None, pt_Commit = None, pt_Rollback = None\<rparr> startDistributedTransaction)))"
  have r: "tx_reachable t"
    unfolding tx_reachable_def t_def
    by (meson tx_step.commit tx_step.register r_into_rtranclp rtranclp.rtrancl_into_rtrancl)
  have "tx_log t = [PrepareCall ''db'', CommitCall ''db'']"
    by (simp add: t_def tx_defs startDistributedTransaction_def prepareErrors_def Let_def
        go_range_def sorted_list_of_fmap_def sorted_list_of_fset.rep_eq List.map_filter_def)
  then have "called CommitCall t = {''db''}" by (auto simp: called_def)
  with tx_atomic [OF r] r show ?thesis by (auto simp: Let_def t_def [symmetric])
qed

text \<open>A finished transaction stays as it is, and both operations report an error.\<close>

lemma tx_finished_stable:
  assumes "tx_state t = TxCommitted \<or> tx_state t = TxAborted"
  shows "snd (tx_Commit t) = t" and "snd (tx_Rollback t) = t"
    and "fst (tx_Commit t) = Some NotActiveForCommit" and "fst (tx_Rollback t) = Some AlreadyFinished"
  using assms by (auto simp: tx_Commit_def tx_Rollback_def)

text \<open>Compensations run last registered first, after every participant was rolled back.\<close>

lemma tx_Rollback_order:
  assumes "tx_state t = TxActive" and "tx_log t = []"
  shows "tx_log (snd (tx_Rollback t)) =
    map (\<lambda>(pID, p). RollbackCall pID) (go_range (tx_participants t))
      @ map (\<lambda>f. CompensateCall (cp_id f)) (rev (tx_compensations t))"
  using assms by (simp add: tx_Rollback_def tx_doRollback_def)

lemma Compensate_order: "fst (Compensate (foldl (\<lambda>c f. AddCompensation f c) NewCompensator fs))
    = map (\<lambda>f. CompensateCall (cp_id f)) (rev fs)"
proof -
  have "foldl (\<lambda>c f. AddCompensation f c) c fs = rev fs @ c" for c
    by (induction fs arbitrary: c) (auto simp: AddCompensation_def)
  then show ?thesis by (simp add: Compensate_def NewCompensator_def Let_def)
qed

text \<open>With no participant and no compensation, both endings only set the final state.\<close>

lemma WithTransaction_eq:
  "WithTransaction fn s =
     (map_option Inl (fst (fn s)),
      startDistributedTransaction\<lparr>tx_state := if fst (fn s) = None then TxCommitted else TxAborted,
        tx_cancelled := True\<rparr>,
      snd (fn s))"
  by (simp add: WithTransaction_def tx_defs startDistributedTransaction_def NewCompensator_def
      Compensate_def prepareErrors_def List.map_filter_def Let_def split: prod.split option.split)

text \<open>\<open>WithTransaction\<close> undoes nothing: whether the function succeeds or fails, the service state
  afterwards is the state the function left behind, and no participant is rolled back and no
  compensation runs; the result is an error exactly when the function returned it.
\<close>

theorem WithTransaction_keeps_effects:
  "snd (snd (WithTransaction fn s)) = snd (fn s)
     \<and> fst (WithTransaction fn s) = map_option Inl (fst (fn s))
     \<and> tx_log (fst (snd (WithTransaction fn s))) = []
     \<and> tx_state (fst (snd (WithTransaction fn s)))
         = (if fst (fn s) = None then TxCommitted else TxAborted)"
  by (simp add: WithTransaction_eq startDistributedTransaction_def)

end
