(* ===== verification/Workflow_Service.thy ===== *)
theory Workflow_Service
  imports Uuid_Text Workflow_Input Memory_Cache Distributed_Tx Rate_Limiter Status_Machines Semantic_Version
begin

text \<open>
  The workflow service of \<open>pkg/services/workflow_service_impl.go\<close> over its three in-memory caches
  (\<open>Memory_Cache\<close>), the Postgres repository (\<open>Workflow_Repository\<close>) and the transactions of the
  base service (\<open>Distributed_Tx\<close>).  What a call depends on outside these (clock, fresh ids, rate
  limiter, quota manager, authoriser, sanitiser, event publisher, database errors, the work a step
  does) is the record \<open>env\<close>; an authoriser's decision is taken for the conditions of the call at
  hand.  A handler returns its error and the service state it leaves.  Notifications, logging and
  tracing have no effect on either and are left out.
\<close>

section \<open>Model: environment and state\<close>

datatype svc_error =
    EValidation validation_error
  | EUnauthorized string string
  | ErrRateLimitExceeded
  | ErrQuotaExceeded
  | EExternal string
  | ERepo repo_error
  | EExecutionNotFound uuid
  | EWrap string svc_error
  | WorkflowNotActiveError uuid
  | StepNotFoundError string
  | StepDependencyError string string string
  | EMessage string
  | EInput input_error
  | ETx tx_error

record quota_manager =
  qm_GetQuota :: "string \<Rightarrow> string + int"
  qm_GetUsage :: "string \<Rightarrow> string + int"
  qm_IncrementUsage :: "string \<Rightarrow> int \<Rightarrow> string option"

record env =
  en_now :: go_time
  en_uuid :: uuid
  en_tenant :: uuid
  en_agent :: string
  en_RateLimiter :: "(string \<Rightarrow> string option) option"
  en_QuotaManager :: "quota_manager option"
  en_Authorizer :: "(string \<Rightarrow> string \<Rightarrow> bool \<times> string) option"
  en_Sanitizer :: "(string \<Rightarrow> string) option"
  en_GetDefaults :: "string option"
  en_publish :: "string \<Rightarrow> string option"
  en_db :: "string \<Rightarrow> string option"
  en_regexp :: regexp
  en_time_text :: "go_time \<Rightarrow> string"
  en_broadcast :: "string option"
  en_run_step :: "workflow_step \<Rightarrow> string option \<times> (string, gval) fmap"

datatype cached = CWorkflow workflow | CExecution execution | CUuid uuid

record wf_service =
  sv_db :: wf_db
  sv_workflowCache :: "cached memory_cache"
  sv_executionCache :: "cached memory_cache"
  sv_statsCache :: "cached memory_cache"
  sv_active :: "(uuid, execution) fmap"

definition NewWorkflowService :: "wf_db \<Rightarrow> wf_service" where
  "NewWorkflowService d =
     \<lparr>sv_db = d, sv_workflowCache = NewMemoryCache 1000 (10 * minute),
      sv_executionCache = NewMemoryCache 5000 (5 * minute),
      sv_statsCache = NewMemoryCache 500 (1 * minute), sv_active = fmempty\<rparr>"

definition workflow_key :: "uuid \<Rightarrow> string" where "workflow_key i = ''workflow:'' @ uuid_String i"
definition execution_key :: "uuid \<Rightarrow> string" where "execution_key i = ''execution:'' @ uuid_String i"
definition idempotency_key :: "string \<Rightarrow> string" where "idempotency_key k = ''idempotency:'' @ k"

text \<open>The zero values of \<open>models.Workflow\<close> and \<open>models.WorkflowExecution\<close>.\<close>

definition zero_workflow :: workflow where
  "zero_workflow = \<lparr>wf_ID = 0, wf_TenantID = 0, wf_Name = '''', wf_Type = '''', wf_Version = 0,
     wf_CreatedBy = '''', wf_Steps = [], wf_Config = fmempty, wf_Description = '''',
     wf_IsActive = False, wf_CreatedAt = 0, wf_UpdatedAt = 0\<rparr>"

definition zero_execution :: execution where
  "zero_execution = \<lparr>ex_ID = 0, ex_WorkflowID = 0, ex_TenantID = 0, ex_Status = '''',
     ex_Context = fmempty, ex_State = fmempty, ex_InitiatedBy = '''', ex_Error = '''', ex_StartedAt = 0,
     ex_CompletedAt = None, ex_UpdatedAt = 0, ex_StepStatuses = fmempty, ex_CurrentStepID = ''''\<rparr>"

section \<open>Model: base service\<close>

definition CheckRateLimit :: "env \<Rightarrow> string \<Rightarrow> svc_error option" where
  "CheckRateLimit en resource =
     (case en_RateLimiter en of
        None \<Rightarrow> None
      | Some check \<Rightarrow>
          if check (''tenant:'' @ uuid_String (en_tenant en) @ '':'' @ resource) \<noteq> None
          then Some ErrRateLimitExceeded
          else if check (''agent:'' @ en_agent en @ '':'' @ resource) \<noteq> None
          then Some ErrRateLimitExceeded
          else None)"

definition CheckQuota :: "env \<Rightarrow> string \<Rightarrow> int \<Rightarrow> svc_error option" where
  "CheckQuota en resource amount =
     (case en_QuotaManager en of
        None \<Rightarrow> None
      | Some qm \<Rightarrow>
          (case qm_GetQuota qm resource of
             Inl e \<Rightarrow> Some (EExternal e)
           | Inr quota \<Rightarrow>
               (case qm_GetUsage qm resource of
                  Inl e \<Rightarrow> Some (EExternal e)
                | Inr usage \<Rightarrow>
                    if quota < int64_add usage amount then Some ErrQuotaExceeded
                    else map_option EExternal (qm_IncrementUsage qm resource amount))))"

definition authorize :: "env \<Rightarrow> string \<Rightarrow> string \<Rightarrow> string \<Rightarrow> svc_error option" where
  "authorize en resource action description =
     (case en_Authorizer en of
        None \<Rightarrow> None
      | Some decide \<Rightarrow>
          let (allowed, reason) = decide resource action
          in if allowed then None else Some (EUnauthorized description reason))"

definition PublishEvent :: "env \<Rightarrow> string \<Rightarrow> svc_error option" where
  "PublishEvent en eventType = map_option EExternal (en_publish en eventType)"

definition in_transaction ::
  "(wf_service \<Rightarrow> svc_error option \<times> wf_service) \<Rightarrow> wf_service \<Rightarrow> svc_error option \<times> wf_service" where
  "in_transaction fn s =
     (let (err, tx, s) = WithTransaction fn s
      in (map_option (case_sum id ETx) err, s))"

section \<open>Model: cached reads\<close>

definition sanitizeWorkflow :: "env \<Rightarrow> workflow \<Rightarrow> workflow" where
  "sanitizeWorkflow en w =
     (case en_Sanitizer en of
        None \<Rightarrow> w
      | Some san \<Rightarrow> w\<lparr>wf_Name := san (wf_Name w), wf_Description := san (wf_Description w)\<rparr>)"

definition applyWorkflowDefaults :: "env \<Rightarrow> svc_error option" where
  "applyWorkflowDefaults en = map_option EExternal (en_GetDefaults en)"

definition getWorkflow :: "env \<Rightarrow> uuid \<Rightarrow> wf_service \<Rightarrow> (svc_error + workflow) \<times> wf_service" where
  "getWorkflow en wid s =
     (case mc_Get (en_now en) (workflow_key wid) zero_workflow (sv_workflowCache s) of
        (None, cached) \<Rightarrow> (Inr cached, s)
      | (Some _, _) \<Rightarrow>
          (case wr_Get (en_db en ''get_workflow'') wid (sv_db s) of
             Inl e \<Rightarrow> (Inl (ERepo e), s)
           | Inr w \<Rightarrow> (Inr w, s\<lparr>sv_workflowCache :=
                 mc_Set (en_now en) (workflow_key wid) (CWorkflow w) (10 * minute) (sv_workflowCache s)\<rparr>)))"

definition getExecution :: "env \<Rightarrow> uuid \<Rightarrow> wf_service \<Rightarrow> (svc_error + execution) \<times> wf_service" where
  "getExecution en eid s =
     (case mc_Get (en_now en) (execution_key eid) zero_execution (sv_executionCache s) of
        (None, cached) \<Rightarrow> (Inr cached, s)
      | (Some _, _) \<Rightarrow>
          (case wr_GetExecution (en_db en ''get_execution'') eid (sv_db s) of
             Inl e \<Rightarrow> (Inl (if e = ErrNotFound then EExecutionNotFound eid else ERepo e), s)
           | Inr x \<Rightarrow> (Inr x, s\<lparr>sv_executionCache :=
                 mc_Set (en_now en) (execution_key eid) (CExecution x) (5 * minute) (sv_executionCache s)\<rparr>)))"

definition checkExecutionIdempotency :: "env \<Rightarrow> string \<Rightarrow> wf_service \<Rightarrow> string + uuid" where
  "checkExecutionIdempotency en key s =
     (case mc_Get (en_now en) (idempotency_key key) (0::uuid) (sv_executionCache s) of
        (None, i) \<Rightarrow> if i \<noteq> 0 then Inr i else Inl ''not found''
      | (Some _, _) \<Rightarrow> Inl ''not found'')"

definition storeExecutionIdempotencyKey :: "env \<Rightarrow> string \<Rightarrow> uuid \<Rightarrow> wf_service \<Rightarrow> wf_service" where
  "storeExecutionIdempotencyKey en key i s =
     s\<lparr>sv_executionCache :=
        mc_Set (en_now en) (idempotency_key key) (CUuid i) (24 * 60 * minute) (sv_executionCache s)\<rparr>"

definition invalidateWorkflowCaches :: "uuid \<Rightarrow> wf_service \<Rightarrow> wf_service" where
  "invalidateWorkflowCaches tenant s =
     s\<lparr>sv_workflowCache := mc_Delete (''tenant:'' @ uuid_String tenant @ '':workflows'') (sv_workflowCache s),
       sv_statsCache := mc_Delete (''tenant:'' @ uuid_String tenant @ '':workflow:stats'') (sv_statsCache s)\<rparr>"

definition drop_execution :: "uuid \<Rightarrow> wf_service \<Rightarrow> wf_service" where
  "drop_execution eid s = s\<lparr>sv_executionCache := mc_Delete (execution_key eid) (sv_executionCache s)\<rparr>"

section \<open>Model: workflow definitions\<close>

definition CreateWorkflow :: "env \<Rightarrow> workflow \<Rightarrow> wf_service \<Rightarrow> svc_error option \<times> wf_service" where
  "CreateWorkflow en w s =
     (case CheckRateLimit en ''workflow:create'' of Some e \<Rightarrow> (Some e, s) | None \<Rightarrow>
     (case CheckQuota en ''workflows'' 1 of Some e \<Rightarrow> (Some e, s) | None \<Rightarrow>
     (let w = sanitizeWorkflow en w in
      case validateWorkflow w of
        Some e \<Rightarrow> (Some (EWrap ''workflow validation failed'' (EValidation e)), s) | None \<Rightarrow>
     (case authorize en ''workflow'' ''create'' ''create workflow'' of
        Some e \<Rightarrow> (Some (EWrap ''authorization failed'' e), s) | None \<Rightarrow>
     (let w = w\<lparr>wf_ID := en_uuid en, wf_TenantID := en_tenant en, wf_CreatedBy := en_agent en,
                wf_IsActive := True, wf_Version := 1\<rparr>;
          (err, s) = in_transaction (\<lambda>s.
             case applyWorkflowDefaults en of Some e \<Rightarrow> (Some e, s) | None \<Rightarrow>
             (let (rerr, w', d) = wr_Create (en_time_text en) (en_db en ''create_workflow'') (en_now en)
                    (en_uuid en) w (sv_db s);
                  s = s\<lparr>sv_db := d\<rparr>
              in case rerr of
                   Some e \<Rightarrow> (Some (EWrap ''failed to create workflow'' (ERepo e)), s)
                 | None \<Rightarrow> (PublishEvent en ''WorkflowCreated'', s))) s
      in case err of
           Some e \<Rightarrow> (Some e, s)
         | None \<Rightarrow> (None, invalidateWorkflowCaches (wf_TenantID w) s))))))"

definition UpdateWorkflow :: "env \<Rightarrow> workflow option \<Rightarrow> wf_service \<Rightarrow> svc_error option \<times> wf_service" where
  "UpdateWorkflow en wopt s =
     (case wopt of None \<Rightarrow> (Some (EValidation (ValidationError ''workflow'' ''required'')), s) | Some w \<Rightarrow>
     (if wf_ID w = 0 then (Some (EValidation (ValidationError ''workflow.id'' ''required'')), s) else
     (case CheckRateLimit en ''workflow:update'' of Some e \<Rightarrow> (Some e, s) | None \<Rightarrow>
     (case getWorkflow en (wf_ID w) s of
        (Inl e, s) \<Rightarrow> (Some (EWrap ''workflow not found'' e), s)
      | (Inr existing, s) \<Rightarrow>
     (case authorize en ''workflow'' ''update'' ''update workflow'' of Some e \<Rightarrow> (Some e, s) | None \<Rightarrow>
     (case wr_GetActiveExecutions (en_db en ''get_active_executions'') (wf_ID w) (sv_db s) of
        Inl e \<Rightarrow> (Some (EWrap ''failed to check active executions'' (ERepo e)), s)
      | Inr active \<Rightarrow>
     (if active \<noteq> [] \<and> wf_Type w \<noteq> wf_Type existing
      then (Some (EValidation (ValidationError ''type'' (''cannot change workflow type while ''
              @ Itoa (int (length active)) @ '' executions are active''))), s) else
     (let w = sanitizeWorkflow en w in
      case validateWorkflow w of
        Some e \<Rightarrow> (Some (EWrap ''workflow validation failed'' (EValidation e)), s) | None \<Rightarrow>
     (let w = w\<lparr>wf_ID := wf_ID existing, wf_TenantID := wf_TenantID existing,
                wf_CreatedBy := wf_CreatedBy existing, wf_CreatedAt := wf_CreatedAt existing,
                wf_UpdatedAt := en_now en, wf_Version := wf_Version existing + 1\<rparr>;
          (err, s) = in_transaction (\<lambda>s.
             let (rerr, w', d) = wr_Update (en_time_text en) (en_db en ''update_workflow'') (en_now en)
                   w (sv_db s);
                 s = s\<lparr>sv_db := d\<rparr>
             in case rerr of
                  Some e \<Rightarrow> (Some (EWrap ''failed to update workflow'' (ERepo e)), s)
                | None \<Rightarrow> (PublishEvent en ''WorkflowUpdated'', s)) s
      in case err of
           Some e \<Rightarrow> (Some e, s)
         | None \<Rightarrow>
             (let s = invalidateWorkflowCaches (wf_TenantID w) s;
                  s = s\<lparr>sv_workflowCache := mc_Delete (workflow_key (wf_ID w)) (sv_workflowCache s)\<rparr>
              in (None, foldl (\<lambda>s (k, x). if ex_WorkflowID x = wf_ID w then drop_execution (ex_ID x) s else s)
                   s (go_range (sv_active s)))))))))))))"

definition DeleteWorkflow :: "env \<Rightarrow> uuid \<Rightarrow> wf_service \<Rightarrow> svc_error option \<times> wf_service" where
  "DeleteWorkflow en wid s =
     (if wid = 0 then (Some (EValidation (ValidationError ''id'' ''required'')), s) else
     (case CheckRateLimit en ''workflow:delete'' of Some e \<Rightarrow> (Some e, s) | None \<Rightarrow>
     (case getWorkflow en wid s of
        (Inl e, s) \<Rightarrow> (Some (EWrap ''workflow not found'' e), s)
      | (Inr w, s) \<Rightarrow>
     (case authorize en ''workflow'' ''delete'' ''delete workflow'' of Some e \<Rightarrow> (Some e, s) | None \<Rightarrow>
     (case wr_GetActiveExecutions (en_db en ''get_active_executions'') wid (sv_db s) of
        Inl e \<Rightarrow> (Some (EWrap ''failed to check active executions'' (ERepo e)), s)
      | Inr active \<Rightarrow>
     (if active \<noteq> []
      then (Some (EValidation (ValidationError ''workflow'' (''cannot delete workflow with ''
              @ Itoa (int (length active)) @ '' active executions''))), s) else
     (let (err, s) = in_transaction (\<lambda>s.
             case en_db en ''list_executions'' of
               Some e \<Rightarrow> (Some (EWrap ''failed to list executions'' (ERepo (DbError e))), s)
             | None \<Rightarrow>
                 let (rerr, d) = wr_SoftDelete (en_db en ''soft_delete_workflow'') (en_now en) wid (sv_db s);
                     s = s\<lparr>sv_db := d\<rparr>
                 in case rerr of
                      Some e \<Rightarrow> (Some (EWrap ''failed to delete workflow'' (ERepo e)), s)
                    | None \<Rightarrow> (PublishEvent en ''WorkflowDeleted'', s)) s
      in case err of
           Some e \<Rightarrow> (Some e, s)
         | None \<Rightarrow>
             (let s = s\<lparr>sv_workflowCache := mc_Delete (workflow_key wid) (sv_workflowCache s)\<rparr>;
                  s = invalidateWorkflowCaches (wf_TenantID w) s
              in (None, foldl (\<lambda>s (k, x). if ex_WorkflowID x = wid
                      then drop_execution (ex_ID x) (s\<lparr>sv_active := fmdrop k (sv_active s)\<rparr>) else s)
                   s (go_range (sv_active s)))))))))))"

section \<open>Model: executions\<close>

definition init_statuses :: "workflow_step list \<Rightarrow> (string, step_status) fmap" where
  "init_statuses steps = foldl (\<lambda>m step. fmupd (ws_ID step)
     \<lparr>ss_StepID = ws_ID step, ss_Status = ''pending'', ss_Output = fmempty, ss_Error = '''',
      ss_StartedAt = None, ss_CompletedAt = None, ss_RetryCount = 0\<rparr> m) fmempty steps"

definition new_execution :: "env \<Rightarrow> workflow \<Rightarrow> uuid \<Rightarrow> string \<Rightarrow> string \<Rightarrow> execution" where
  "new_execution en w wid initiator status =
     \<lparr>ex_ID = en_uuid en, ex_WorkflowID = wid, ex_TenantID = wf_TenantID w, ex_Status = status,
      ex_Context = fmempty, ex_State = fmempty, ex_InitiatedBy = initiator, ex_Error = '''',
      ex_StartedAt = en_now en, ex_CompletedAt = None, ex_UpdatedAt = 0,
      ex_StepStatuses = init_statuses (GetSteps w), ex_CurrentStepID = ''''\<rparr>"

text \<open>
  \<open>ExecuteWorkflow\<close> up to the goroutine it starts.  The execution row is inserted through the
  database transaction and becomes visible at the commit; \<open>Update\<close> writes outside it.  A panic
  of the input validation is the result \<open>None\<close>.
\<close>

definition ExecuteWorkflow ::
  "env \<Rightarrow> uuid \<Rightarrow> (string, gval) fmap \<Rightarrow> string \<Rightarrow> wf_service \<Rightarrow>
     (svc_error + execution) option \<times> wf_service" where
  "ExecuteWorkflow en wid inp idempotencyKey s =
     (case CheckRateLimit en ''workflow:execute'' of Some e \<Rightarrow> (Some (Inl e), s) | None \<Rightarrow>
     (case (if idempotencyKey \<noteq> '''' then checkExecutionIdempotency en idempotencyKey s else Inl '''') of
        Inr existingID \<Rightarrow> map_prod Some id (getExecution en existingID s)
      | Inl _ \<Rightarrow>
     (case getWorkflow en wid s of
        (Inl e, s) \<Rightarrow> (Some (Inl (EWrap ''workflow not found'' e)), s)
      | (Inr w, s) \<Rightarrow>
     (if \<not> wf_IsActive w then (Some (Inl (WorkflowNotActiveError wid)), s) else
     (case validateWorkflowInput (en_regexp en) w inp of
        Failed e _ \<Rightarrow> (Some (Inl (EWrap ''input validation failed'' (EInput e))), s)
      | Panicked \<Rightarrow> (None, s)
      | Blocked \<Rightarrow> (None, s)
      | Returned _ \<Rightarrow>
     (case authorize en ''workflow'' ''execute'' ''execute workflow'' of
        Some e \<Rightarrow> (Some (Inl (EWrap ''authorization failed'' e)), s) | None \<Rightarrow>
     (let x = new_execution en w wid (en_agent en) ''pending'';
          x = x\<lparr>ex_Context := fmupd ''input'' (VMap (go_range inp)) (ex_Context x)\<rparr>
      in case en_db en ''begin'' of
           Some e \<Rightarrow> (Some (Inl (EWrap ''failed to begin transaction'' (ERepo (DbError e)))), s) | None \<Rightarrow>
     (let (cerr, x, dtx) = wr_CreateExecution (en_time_text en) (en_db en ''create_execution'') (en_now en)
            (en_uuid en) x (sv_db s)
      in case cerr of
           Some e \<Rightarrow> (Some (Inl (EWrap ''failed to create execution'' (ERepo e))), s) | None \<Rightarrow>
     (let s = (if idempotencyKey \<noteq> '''' then storeExecutionIdempotencyKey en idempotencyKey (ex_ID x) s else s);
          w = w\<lparr>wf_Config := fmupd ''last_executed_at'' (VTime (ex_StartedAt x)) (wf_Config w)\<rparr>;
          (uerr, w, d) = wr_Update (en_time_text en) (en_db en ''update_workflow'') (en_now en) w (sv_db s);
          s = s\<lparr>sv_db := d\<rparr>
      in case uerr of Some e \<Rightarrow> (Some (Inl (ERepo e)), s) | None \<Rightarrow>
     (case en_db en ''commit'' of
        Some e \<Rightarrow> (Some (Inl (EWrap ''failed to commit transaction'' (ERepo (DbError e)))), s)
      | None \<Rightarrow>
          (let s = s\<lparr>sv_db := (sv_db s)\<lparr>db_executions := db_executions dtx\<rparr>\<rparr>
           in (Some (Inr x), s\<lparr>sv_active := fmupd (ex_ID x) x (sv_active s)\<rparr>))))))))))))"

text \<open>\<open>execution.StepStatuses[id]\<close> is a pointer: a missing entry is nil, and writing through it panics.\<close>

fun checkStepDependencies :: "execution \<Rightarrow> string \<Rightarrow> string list \<Rightarrow> svc_error option" where
  "checkStepDependencies x stepID [] = None"
| "checkStepDependencies x stepID (depID # deps) =
     (case fmlookup (ex_StepStatuses x) depID of
        None \<Rightarrow> Some (EMessage (''dependency step '' @ depID @ '' not found''))
      | Some depStatus \<Rightarrow>
          if ss_Status depStatus \<noteq> ''completed''
          then Some (StepDependencyError stepID depID (ss_Status depStatus))
          else checkStepDependencies x stepID deps)"

definition put_status :: "string \<Rightarrow> step_status \<Rightarrow> execution \<Rightarrow> execution" where
  "put_status stepID st x = x\<lparr>ex_StepStatuses := fmupd stepID st (ex_StepStatuses x)\<rparr>"

definition all_statuses :: "execution \<Rightarrow> string list" where
  "all_statuses x = map (\<lambda>(k, st). ss_Status st) (go_range (ex_StepStatuses x))"

definition update_row :: "env \<Rightarrow> execution \<Rightarrow> wf_service \<Rightarrow> svc_error option \<times> wf_service" where
  "update_row en x s =
     (let (rerr, x', d) = wr_UpdateExecution (en_time_text en) (en_db en ''update_execution'') (en_now en) x (sv_db s)
      in (map_option (\<lambda>e. EWrap ''failed to update execution'' (ERepo e)) rerr, s\<lparr>sv_db := d\<rparr>))"

definition checkWorkflowCompletion :: "env \<Rightarrow> execution \<Rightarrow> wf_service \<Rightarrow> execution \<times> wf_service" where
  "checkWorkflowCompletion en x s =
     (let sts = all_statuses x
      in if ''pending'' \<in> set sts \<or> ''running'' \<in> set sts then (x, s)
         else
           let x = x\<lparr>ex_Status := (if ''failed'' \<in> set sts then ''failed'' else ''completed''),
                     ex_CompletedAt := Some (en_now en)\<rparr>
           in (x, snd (update_row en x s)))"

definition step_types :: "string set" where
  "step_types = {''task'', ''approval'', ''parallel'', ''conditional'', ''sequential'', ''script'', ''webhook'',
     ''branching'', ''compensation''}"

definition run_step :: "env \<Rightarrow> workflow_step \<Rightarrow> string option \<times> (string, gval) fmap" where
  "run_step en step =
     (if ws_Type step \<in> step_types then en_run_step en step
      else (Some (''unsupported step type: '' @ ws_Type step), fmempty))"

definition update_step_row ::
  "env \<Rightarrow> uuid \<Rightarrow> string \<Rightarrow> string \<Rightarrow> (string, gval) fmap \<Rightarrow> wf_service \<Rightarrow> svc_error option \<times> wf_service" where
  "update_step_row en eid stepID status output s =
     (let (rerr, d) = wr_UpdateStepStatus (en_time_text en) (en_db en ''update_step_status'') (en_now en) eid
            stepID status output (sv_db s)
      in (map_option ERepo rerr, s\<lparr>sv_db := d\<rparr>))"

definition ExecuteWorkflowStep ::
  "env \<Rightarrow> uuid \<Rightarrow> string \<Rightarrow> wf_service \<Rightarrow> (svc_error, wf_service) outcome" where
  "ExecuteWorkflowStep en eid stepID s =
     (case getExecution en eid s of (Inl e, s) \<Rightarrow> Failed e s | (Inr x, s) \<Rightarrow>
     (case getWorkflow en (ex_WorkflowID x) s of (Inl e, s) \<Rightarrow> Failed e s | (Inr w, s) \<Rightarrow>
     (case List.find (\<lambda>st. ws_ID st = stepID) (GetSteps w) of
        None \<Rightarrow> Failed (StepNotFoundError stepID) s
      | Some step \<Rightarrow>
     (case checkStepDependencies x (ws_ID step) (ws_Dependencies step) of Some e \<Rightarrow> Failed e s | None \<Rightarrow>
     (case fmlookup (ex_StepStatuses x) stepID of
        None \<Rightarrow> Panicked
      | Some st \<Rightarrow>
     (let st = st\<lparr>ss_Status := ''running'', ss_StartedAt := Some (en_now en), ss_RetryCount := ss_RetryCount st + 1\<rparr>;
          x = put_status stepID st x;
          (err, s) = update_step_row en eid stepID ''running'' fmempty s
      in case err of Some e \<Rightarrow> Failed e s | None \<Rightarrow>
     (let (stepErr, output) = run_step en step;
          st = (case stepErr of
                  Some msg \<Rightarrow> st\<lparr>ss_Status := ''failed'', ss_Error := msg\<rparr>
                | None \<Rightarrow> st\<lparr>ss_Status := ''completed'', ss_Output := output\<rparr>);
          st = st\<lparr>ss_CompletedAt := Some (en_now en)\<rparr>;
          x = put_status stepID st x;
          (err, s) = update_step_row en eid stepID (ss_Status st) output s
      in case err of Some e \<Rightarrow> Failed e s | None \<Rightarrow>
     (let (x, s) = checkWorkflowCompletion en x s
      in case stepErr of Some msg \<Rightarrow> Failed (EMessage msg) s | None \<Rightarrow> Returned s))))))))"

section \<open>Model: lifecycle of an execution\<close>

definition bad_status :: "string \<Rightarrow> string \<Rightarrow> svc_error" where
  "bad_status verb status =
     EValidation (ValidationError ''status'' (''cannot '' @ verb @ '' execution in status '' @ status))"

definition UpdateExecution :: "env \<Rightarrow> execution option \<Rightarrow> wf_service \<Rightarrow> svc_error option \<times> wf_service" where
  "UpdateExecution en xopt s =
     (case xopt of None \<Rightarrow> (Some (EValidation (ValidationError ''execution'' ''required'')), s) | Some x \<Rightarrow>
     (if ex_ID x = 0 then (Some (EValidation (ValidationError ''execution.id'' ''required'')), s) else
     (case getExecution en (ex_ID x) s of
        (Inl e, s) \<Rightarrow> (Some (EWrap ''failed to get existing execution'' e), s)
      | (Inr existing, s) \<Rightarrow>
     (case authorize en ''workflow_execution'' ''update'' ''update workflow execution'' of
        Some e \<Rightarrow> (Some e, s) | None \<Rightarrow>
     (let (err, s) = in_transaction (\<lambda>s.
             case update_row en x s of
               (Some e, s) \<Rightarrow> (Some e, s)
             | (None, s) \<Rightarrow> (PublishEvent en ''WorkflowExecutionUpdated'', s)) s
      in case err of Some e \<Rightarrow> (Some e, s) | None \<Rightarrow> (None, drop_execution (ex_ID x) s))))))"

definition PauseExecution :: "env \<Rightarrow> uuid \<Rightarrow> string \<Rightarrow> wf_service \<Rightarrow> svc_error option \<times> wf_service" where
  "PauseExecution en eid reason s =
     (case CheckRateLimit en ''execution:pause'' of Some e \<Rightarrow> (Some e, s) | None \<Rightarrow>
     (case getExecution en eid s of (Inl e, s) \<Rightarrow> (Some e, s) | (Inr x, s) \<Rightarrow>
     (case authorize en ''workflow_execution'' ''pause'' ''pause execution'' of Some e \<Rightarrow> (Some e, s) | None \<Rightarrow>
     (if ex_Status x \<noteq> ''running'' then (Some (bad_status ''pause'' (ex_Status x)), s) else
     (let x = x\<lparr>ex_Status := ''paused'', ex_UpdatedAt := en_now en,
                ex_Context := fmupd ''paused_at'' (VTime (en_now en))
                  (fmupd ''pause_reason'' (VStr reason) (ex_Context x))\<rparr>
      in case update_row en x s of
           (Some e, s) \<Rightarrow> (Some e, s)
         | (None, s) \<Rightarrow> (None, drop_execution eid (s\<lparr>sv_active := fmdrop eid (sv_active s)\<rparr>)))))))"

definition ResumeExecution :: "env \<Rightarrow> uuid \<Rightarrow> wf_service \<Rightarrow> svc_error option \<times> execution option \<times> wf_service" where
  "ResumeExecution en eid s =
     (case CheckRateLimit en ''execution:resume'' of Some e \<Rightarrow> (Some e, None, s) | None \<Rightarrow>
     (case getExecution en eid s of (Inl e, s) \<Rightarrow> (Some e, None, s) | (Inr x, s) \<Rightarrow>
     (case authorize en ''workflow_execution'' ''resume'' ''resume execution'' of
        Some e \<Rightarrow> (Some e, None, s) | None \<Rightarrow>
     (if ex_Status x \<noteq> ''paused'' then (Some (bad_status ''resume'' (ex_Status x)), None, s) else
     (let x = x\<lparr>ex_Status := ''running'', ex_UpdatedAt := en_now en,
                ex_Context := fmdrop ''pause_reason''
                  (fmupd ''resumed_at'' (VTime (en_now en)) (ex_Context x))\<rparr>
      in case update_row en x s of
           (Some e, s) \<Rightarrow> (Some e, None, s)
         | (None, s) \<Rightarrow> (None, Some x, drop_execution eid (s\<lparr>sv_active := fmupd eid x (sv_active s)\<rparr>)))))))"

text \<open>
  The goroutine \<open>ResumeExecution\<close> starts with the execution object it holds: it runs the current
  step, or every pending step whose dependencies are complete.  \<open>None\<close> is a panic, which ends
  the process.
\<close>

fun resume_steps :: "env \<Rightarrow> uuid \<Rightarrow> execution \<Rightarrow> workflow_step list \<Rightarrow> wf_service \<Rightarrow> wf_service option" where
  "resume_steps en eid x [] s = Some s"
| "resume_steps en eid x (step # steps) s =
     (if (case fmlookup (ex_StepStatuses x) (ws_ID step) of None \<Rightarrow> False | Some st \<Rightarrow> ss_Status st = ''pending'')
         \<and> checkStepDependencies x (ws_ID step) (ws_Dependencies step) = None
      then (case ExecuteWorkflowStep en eid (ws_ID step) s of
              Returned s \<Rightarrow> resume_steps en eid x steps s
            | Failed e s \<Rightarrow> resume_steps en eid x steps s
            | _ \<Rightarrow> None)
      else resume_steps en eid x steps s)"

definition run_current_step :: "env \<Rightarrow> uuid \<Rightarrow> string \<Rightarrow> wf_service \<Rightarrow> wf_service option" where
  "run_current_step en eid stepID s =
     (case ExecuteWorkflowStep en eid stepID s of Returned s \<Rightarrow> Some s | Failed e s \<Rightarrow> Some s | _ \<Rightarrow> None)"

definition resume_background :: "env \<Rightarrow> uuid \<Rightarrow> execution \<Rightarrow> wf_service \<Rightarrow> wf_service option" where
  "resume_background en eid x s =
     map_option (\<lambda>s. s\<lparr>sv_active := fmdrop eid (sv_active s)\<rparr>)
       (case getWorkflow en (ex_WorkflowID x) s of
          (Inl e, s) \<Rightarrow> Some s
        | (Inr w, s) \<Rightarrow>
            if ex_CurrentStepID x \<noteq> '''' then run_current_step en eid (ex_CurrentStepID x) s
            else resume_steps en eid x (GetSteps w) s)"

definition cancel_step :: "go_time \<Rightarrow> string \<Rightarrow> step_status \<Rightarrow> step_status" where
  "cancel_step now reason st =
     (if ss_Status st \<in> {''pending'', ''running''}
      then st\<lparr>ss_Status := ''cancelled'', ss_CompletedAt := Some now, ss_Error := ''Execution cancelled: '' @ reason\<rparr>
      else st)"

definition CancelExecution :: "env \<Rightarrow> uuid \<Rightarrow> string \<Rightarrow> wf_service \<Rightarrow> svc_error option \<times> wf_service" where
  "CancelExecution en eid reason s =
     (case CheckRateLimit en ''execution:cancel'' of Some e \<Rightarrow> (Some e, s) | None \<Rightarrow>
     (case getExecution en eid s of (Inl e, s) \<Rightarrow> (Some e, s) | (Inr x, s) \<Rightarrow>
     (case authorize en ''workflow_execution'' ''cancel'' ''cancel execution'' of Some e \<Rightarrow> (Some e, s) | None \<Rightarrow>
     (if ex_Status x \<in> {''completed'', ''failed'', ''cancelled''}
      then (Some (bad_status ''cancel'' (ex_Status x)), s) else
     (let (err, s) = in_transaction (\<lambda>s.
             let x = x\<lparr>ex_Status := ''cancelled'', ex_CompletedAt := Some (en_now en), ex_UpdatedAt := en_now en,
                       ex_Context := fmupd ''cancelled_by'' (VStr (en_agent en))
                         (fmupd ''cancel_reason'' (VStr reason) (ex_Context x)),
                       ex_StepStatuses := fmmap (cancel_step (en_now en) reason) (ex_StepStatuses x)\<rparr>
             in case update_row en x s of
                  (Some e, s) \<Rightarrow> (Some e, s)
                | (None, s) \<Rightarrow> (None, snd (getWorkflow en (ex_WorkflowID x) s))) s
      in case err of
           Some e \<Rightarrow> (Some e, s)
         | None \<Rightarrow> (None, drop_execution eid (s\<lparr>sv_active := fmdrop eid (sv_active s)\<rparr>)))))))"

text \<open>\<open>m[k].(int)\<close> with a default for a missing key or another dynamic type.\<close>

definition int_or :: "int \<Rightarrow> gval option \<Rightarrow> int" where
  "int_or z v = (case v of Some (VInt n) \<Rightarrow> n | _ \<Rightarrow> z)"

definition reset_step :: "step_status \<Rightarrow> step_status" where
  "reset_step st = st\<lparr>ss_Status := ''pending'', ss_StartedAt := None, ss_CompletedAt := None, ss_Error := '''',
     ss_Output := fmempty, ss_RetryCount := ss_RetryCount st + 1\<rparr>"

definition reset_from ::
  "string \<Rightarrow> workflow_step list \<Rightarrow> (string, step_status) fmap \<Rightarrow> (string, step_status) fmap" where
  "reset_from fromStep steps sts =
     snd (foldl (\<lambda>(stepFound, sts) step.
         let stepFound = (stepFound \<or> ws_ID step = fromStep)
         in (stepFound,
             if stepFound then (case fmlookup sts (ws_ID step) of
                 None \<Rightarrow> sts | Some st \<Rightarrow> fmupd (ws_ID step) (reset_step st) sts) else sts))
       (fromStep = '''', sts) steps)"

definition retry_start :: "string \<Rightarrow> workflow_step list \<Rightarrow> string \<Rightarrow> string" where
  "retry_start fromStep steps current =
     (if fromStep \<noteq> '''' then fromStep
      else case List.find (\<lambda>step. ws_Dependencies step = []) steps of
             Some step \<Rightarrow> ws_ID step | None \<Rightarrow> current)"

definition RetryExecution ::
  "env \<Rightarrow> uuid \<Rightarrow> string \<Rightarrow> wf_service \<Rightarrow> svc_error option \<times> execution option \<times> wf_service" where
  "RetryExecution en eid fromStep s =
     (case CheckRateLimit en ''execution:retry'' of Some e \<Rightarrow> (Some e, None, s) | None \<Rightarrow>
     (case getExecution en eid s of (Inl e, s) \<Rightarrow> (Some e, None, s) | (Inr x, s) \<Rightarrow>
     (case authorize en ''workflow_execution'' ''retry'' ''retry execution'' of
        Some e \<Rightarrow> (Some e, None, s) | None \<Rightarrow>
     (if ex_Status x \<noteq> ''failed'' then (Some (bad_status ''retry'' (ex_Status x)), None, s) else
     (if fromStep \<noteq> '''' \<and> fmlookup (ex_StepStatuses x) fromStep = None
      then (Some (EValidation (ValidationError ''fromStep'' (''step '' @ fromStep @ '' not found in execution''))),
            None, s) else
     (case getWorkflow en (ex_WorkflowID x) s of
        (Inl e, s) \<Rightarrow> (Some (EWrap ''failed to get workflow'' e), None, s)
      | (Inr w, s) \<Rightarrow>
     (let retryCount = int_or 0 (fmlookup (ex_Context x) ''retry_count'');
          maxRetries = int_or 3 (fmlookup (wf_Config w) ''max_retries'')
      in if maxRetries \<le> retryCount
         then (Some (EValidation (ValidationError ''retry_count'' (''execution has been retried ''
                 @ Itoa retryCount @ '' times, max is '' @ Itoa maxRetries))), None, s) else
     (let x = x\<lparr>ex_Status := ''running'', ex_UpdatedAt := en_now en, ex_CompletedAt := None,
                ex_Context := fmupd ''retried_by'' (VStr (en_agent en)) (fmupd ''retried_at'' (VTime (en_now en))
                  (fmupd ''retry_from_step'' (VStr fromStep)
                    (fmupd ''retry_count'' (VInt (retryCount + 1)) (ex_Context x)))),
                ex_StepStatuses := reset_from fromStep (GetSteps w) (ex_StepStatuses x),
                ex_CurrentStepID := retry_start fromStep (GetSteps w) (ex_CurrentStepID x)\<rparr>;
          (err, s) = in_transaction (update_row en x) s
      in case err of
           Some e \<Rightarrow> (Some e, None, s)
         | None \<Rightarrow> (None, Some x, drop_execution eid (s\<lparr>sv_active := fmupd eid x (sv_active s)\<rparr>))))))))))"

definition retry_background :: "env \<Rightarrow> uuid \<Rightarrow> execution \<Rightarrow> wf_service \<Rightarrow> wf_service option" where
  "retry_background en eid x s =
     map_option (\<lambda>s. s\<lparr>sv_active := fmdrop eid (sv_active s)\<rparr>)
       (if ex_CurrentStepID x \<noteq> '''' then run_current_step en eid (ex_CurrentStepID x) s else Some s)"

text \<open>The goroutine of \<open>startExecution\<close>: every step without dependencies, in order.\<close>

fun start_steps :: "env \<Rightarrow> uuid \<Rightarrow> workflow_step list \<Rightarrow> wf_service \<Rightarrow> wf_service option" where
  "start_steps en eid [] s = Some s"
| "start_steps en eid (step # steps) s =
     (if ws_Dependencies step = []
      then (case run_current_step en eid (ws_ID step) s of
              None \<Rightarrow> None | Some s \<Rightarrow> start_steps en eid steps s)
      else start_steps en eid steps s)"

definition startExecution :: "env \<Rightarrow> workflow \<Rightarrow> execution \<Rightarrow> wf_service \<Rightarrow> wf_service option" where
  "startExecution en w x s =
     map_option (\<lambda>s. s\<lparr>sv_active := fmdrop (ex_ID x) (sv_active s)\<rparr>)
       (start_steps en (ex_ID x) (GetSteps w) s)"

section \<open>What the caches give back\<close>

lemma in_transaction_eq: "in_transaction fn s = fn s"
  by (cases "fn s") (simp add: in_transaction_def WithTransaction_eq option.map_comp comp_def option.map_ident)

lemma getWorkflow_hit:
  "mc_Exists (en_now en) (workflow_key wid) (sv_workflowCache s) \<Longrightarrow> getWorkflow en wid s = (Inr zero_workflow, s)"
  by (simp add: getWorkflow_def mc_Get_hit)

lemma mc_Get_miss:
  "\<not> mc_Exists now k c \<Longrightarrow> \<exists>e. mc_Get now k v c = (Some e, v)"
  by (auto simp: mc_Get_def mc_Exists_def split: option.splits)

lemma getWorkflow_miss:
  assumes "\<not> mc_Exists (en_now en) (workflow_key wid) (sv_workflowCache s)"
  shows "getWorkflow en wid s = (case wr_Get (en_db en ''get_workflow'') wid (sv_db s) of
             Inl e \<Rightarrow> (Inl (ERepo e), s)
           | Inr w \<Rightarrow> (Inr w, s\<lparr>sv_workflowCache :=
                 mc_Set (en_now en) (workflow_key wid) (CWorkflow w) (10 * minute) (sv_workflowCache s)\<rparr>))"
  using mc_Get_miss [OF assms, of zero_workflow] by (auto simp: getWorkflow_def)

lemma getExecution_hit:
  "mc_Exists (en_now en) (execution_key eid) (sv_executionCache s) \<Longrightarrow>
     getExecution en eid s = (Inr zero_execution, s)"
  by (simp add: getExecution_def mc_Get_hit)

lemma getExecution_miss:
  assumes "\<not> mc_Exists (en_now en) (execution_key eid) (sv_executionCache s)"
  shows "getExecution en eid s = (case wr_GetExecution (en_db en ''get_execution'') eid (sv_db s) of
             Inl e \<Rightarrow> (Inl (if e = ErrNotFound then EExecutionNotFound eid else ERepo e), s)
           | Inr x \<Rightarrow> (Inr x, s\<lparr>sv_executionCache :=
                 mc_Set (en_now en) (execution_key eid) (CExecution x) (5 * minute) (sv_executionCache s)\<rparr>))"
  using mc_Get_miss [OF assms, of zero_execution] by (auto simp: getExecution_def)

end
