(* ===== verification/Workflow_Guarantees.thy ===== *)
theory Workflow_Guarantees
  imports Workflow_Service
begin

text \<open>
  What the workflow service does once it is composed with the cache, the repository and the
  transactions it is built on: which status changes its lifecycle operations make, what a created
  workflow reads back as, and where the composition does not do what its parts intend (cached
  reads, the update of a definition, the execution of steps, the retry limit).
\<close>

section \<open>Reads\<close>

lemma getWorkflow_db [simp]: "sv_db (snd (getWorkflow en wid s)) = sv_db s"
  by (auto simp: getWorkflow_def split: prod.splits option.splits sum.splits)

lemma getExecution_db [simp]: "sv_db (snd (getExecution en eid s)) = sv_db s"
  by (auto simp: getExecution_def split: prod.splits option.splits sum.splits)

lemma getWorkflow_result:
  assumes "getWorkflow en wid s = (Inr w, s')"
  shows "(w = zero_workflow \<and> mc_Exists (en_now en) (workflow_key wid) (sv_workflowCache s) \<and> s' = s)
    \<or> (wr_Get (en_db en ''get_workflow'') wid (sv_db s) = Inr w
        \<and> sv_db s' = sv_db s \<and> sv_executionCache s' = sv_executionCache s
        \<and> sv_workflowCache s' = mc_Set (en_now en) (workflow_key wid) (CWorkflow w) (10 * minute) (sv_workflowCache s))"
proof (cases "mc_Exists (en_now en) (workflow_key wid) (sv_workflowCache s)")
  case True
  with assms show ?thesis by (simp add: getWorkflow_hit)
next
  case False
  with assms show ?thesis by (auto simp: getWorkflow_miss split: sum.splits)
qed

lemma getExecution_result:
  assumes "getExecution en eid s = (Inr x, s')"
  shows "(x = zero_execution \<and> mc_Exists (en_now en) (execution_key eid) (sv_executionCache s) \<and> s' = s)
    \<or> (wr_GetExecution (en_db en ''get_execution'') eid (sv_db s) = Inr x
        \<and> sv_db s' = sv_db s \<and> sv_workflowCache s' = sv_workflowCache s
        \<and> sv_executionCache s' = mc_Set (en_now en) (execution_key eid) (CExecution x) (5 * minute) (sv_executionCache s))"
proof (cases "mc_Exists (en_now en) (execution_key eid) (sv_executionCache s)")
  case True
  with assms show ?thesis by (simp add: getExecution_hit)
next
  case False
  with assms show ?thesis by (auto simp: getExecution_miss split: sum.splits)
qed

text \<open>However it is read, an execution comes without its runtime data.\<close>

lemma getExecution_runtime:
  assumes "db_ok (sv_db s)" and "getExecution en eid s = (Inr x, s')"
  shows "ex_StepStatuses x = fmempty" and "ex_CurrentStepID x = ''''" and "no_ints (ex_Context x)"
    and "sv_db s' = sv_db s"
  using getExecution_result [OF assms(2)] wr_GetExecution_runtime [OF assms(1)]
  by (auto simp: zero_execution_def no_ints_def)

lemma getWorkflow_no_ints:
  "db_ok (sv_db s) \<Longrightarrow> getWorkflow en wid s = (Inr w, s') \<Longrightarrow> no_ints (wf_Config w)"
  using getWorkflow_result [of en wid s w s']
  by (auto simp: zero_workflow_def no_ints_def wr_Get_def db_ok_def split: option.splits if_splits)

text \<open>A cached read returns an empty object: once the service has read a workflow from the
  repository, every read of it in the next ten minutes succeeds with the zero workflow (no name,
  no steps, inactive), because the in-memory cache reports a hit without filling its target.
\<close>

theorem getWorkflow_cached_empty:
  assumes "getWorkflow en wid s = (Inr w, s')" and "w \<noteq> zero_workflow"
    and "en_now en' \<le> en_now en + 10 * minute"
  shows "fst (getWorkflow en' wid s') = Inr zero_workflow"
proof -
  have "mc_Exists (en_now en') (workflow_key wid) (sv_workflowCache s')"
    using getWorkflow_result [OF assms(1)] assms(2,3) by (auto simp: mc_Exists_Set_same minute_def second_def)
  then show ?thesis by (simp add: getWorkflow_hit)
qed

section \<open>Executing a step\<close>

lemma deps_fail: "ex_StepStatuses x = fmempty \<Longrightarrow> deps \<noteq> [] \<Longrightarrow> checkStepDependencies x i deps \<noteq> None"
  by (cases deps) auto

lemma ExecuteWorkflowStep_outcome:
  assumes "db_ok (sv_db s)"
  shows "ExecuteWorkflowStep en eid stepID s = Panicked
    \<or> (\<exists>e s'. ExecuteWorkflowStep en eid stepID s = Failed e s' \<and> sv_db s' = sv_db s)"
proof -
  obtain r s1 where g: "getExecution en eid s = (r, s1)" by (cases "getExecution en eid s")
  have db1: "sv_db s1 = sv_db s" using getExecution_db [of en eid s] g by simp
  show ?thesis
  proof (cases r)
    case (Inl e)
    with g db1 show ?thesis by (simp add: ExecuteWorkflowStep_def)
  next
    case (Inr x)
    obtain rw s2 where w: "getWorkflow en (ex_WorkflowID x) s1 = (rw, s2)"
      by (cases "getWorkflow en (ex_WorkflowID x) s1")
    have db2: "sv_db s2 = sv_db s" using getWorkflow_db [of en "ex_WorkflowID x" s1] w db1 by simp
    note x = getExecution_runtime [OF assms g [unfolded Inr]]
    show ?thesis
      using g w db2 x(1) Inr
      by (auto simp: ExecuteWorkflowStep_def split: sum.splits option.splits)
  qed
qed

text \<open>C35 No workflow step ever runs on a stored execution: with the Postgres repository, executing a
  step either fails, leaving every row as it was, or panics on a nil step status; it never
  succeeds, because an execution is always read back without its step statuses.
\<close>

theorem ExecuteWorkflowStep_never_runs:
  assumes "db_ok (sv_db s)"
  shows "case ExecuteWorkflowStep en eid stepID s of
      Returned s' \<Rightarrow> False | Failed e s' \<Rightarrow> sv_db s' = sv_db s | Panicked \<Rightarrow> True | Blocked \<Rightarrow> False"
  using ExecuteWorkflowStep_outcome [OF assms, of en eid stepID] by auto

lemma run_current_step_db:
  "db_ok (sv_db s) \<Longrightarrow> run_current_step en eid i s = Some s' \<Longrightarrow> sv_db s' = sv_db s"
  using ExecuteWorkflowStep_outcome [of s en eid i] by (auto simp: run_current_step_def)

lemma start_steps_db:
  "db_ok (sv_db s) \<Longrightarrow> start_steps en eid steps s = Some s' \<Longrightarrow> sv_db s' = sv_db s"
proof (induction steps arbitrary: s)
  case (Cons step steps)
  show ?case
  proof (cases "ws_Dependencies step = []")
    case True
    then obtain s1 where s1: "run_current_step en eid (ws_ID step) s = Some s1"
      "start_steps en eid steps s1 = Some s'"
      using Cons.prems(2) by (auto split: option.splits)
    then have "sv_db s1 = sv_db s" using run_current_step_db Cons.prems(1) by blast
    then show ?thesis using Cons.IH [of s1] Cons.prems(1) s1(2) by simp
  next
    case False
    then show ?thesis using Cons by simp
  qed
qed simp

lemma startExecution_db:
  "db_ok (sv_db s) \<Longrightarrow> startExecution en w x s = Some s' \<Longrightarrow> sv_db s' = sv_db s"
  by (auto simp: startExecution_def dest: start_steps_db)

lemma resume_steps_idle:
  "ex_StepStatuses x = fmempty \<Longrightarrow> resume_steps en eid x steps s = Some s"
  by (induction steps) auto

section \<open>Lifecycle\<close>

text \<open>The row of one execution changes its status from one allowed value to another; nothing else changes.\<close>

definition status_change :: "wf_db \<Rightarrow> uuid \<Rightarrow> (string \<Rightarrow> bool) \<Rightarrow> string \<Rightarrow> wf_db \<Rightarrow> bool" where
  "status_change d eid from to d' \<longleftrightarrow>
     (\<exists>x x'. fmlookup (db_executions d) eid = Some x \<and> from (ex_Status x) \<and> ex_Status x' = to
        \<and> d' = d\<lparr>db_executions := fmupd eid x' (db_executions d)\<rparr>)"

lemma update_row_change:
  assumes "db_ok (sv_db s)" and "update_row en x s = (None, s')"
  shows "ex_ID x \<noteq> 0" and "\<exists>x'. sv_db s' = (sv_db s)\<lparr>db_executions := fmupd (ex_ID x) x' (db_executions (sv_db s))\<rparr>
    \<and> ex_Status x' = ex_Status x"
proof -
  obtain old where old: "en_db en ''update_execution'' = None"
    "fmlookup (db_executions (sv_db s)) (ex_ID x) = Some old"
    using assms(2) by (auto simp: update_row_def wr_UpdateExecution_def Let_def split: option.splits)
  with assms(1) show "ex_ID x \<noteq> 0" by (auto simp: db_ok_def)
  from assms(2) old show "\<exists>x'. sv_db s' = (sv_db s)\<lparr>db_executions := fmupd (ex_ID x) x' (db_executions (sv_db s))\<rparr>
    \<and> ex_Status x' = ex_Status x"
    by (auto simp: update_row_def wr_UpdateExecution_def Let_def)
qed

lemma drop_execution_db [simp]: "sv_db (drop_execution i s) = sv_db s"
  by (simp add: drop_execution_def)

text \<open>A read that finds a non-empty status, or a non-nil id, came from the row.\<close>

lemma getExecution_row:
  assumes "db_ok (sv_db s)" and "getExecution en eid s = (Inr x, s1)"
    and "ex_Status x \<noteq> '''' \<or> ex_ID x \<noteq> 0"
  shows "fmlookup (db_executions (sv_db s)) eid = Some x" and "ex_ID x = eid"
  using getExecution_result [OF assms(2)] assms(1,3)
  by (auto simp: zero_execution_def wr_GetExecution_def db_ok_def split: option.splits)

lemma Pause_change:
  assumes "db_ok (sv_db s)" and "PauseExecution en eid reason s = (None, s')"
  shows "status_change (sv_db s) eid (\<lambda>st. st = ''running'') ''paused'' (sv_db s')"
proof -
  obtain x s1 s2 where g: "getExecution en eid s = (Inr x, s1)" and st: "ex_Status x = ''running''"
    and u: "update_row en (x\<lparr>ex_Status := ''paused'', ex_UpdatedAt := en_now en,
        ex_Context := fmupd ''paused_at'' (VTime (en_now en))
          (fmupd ''pause_reason'' (VStr reason) (ex_Context x))\<rparr>) s1 = (None, s2)"
    and s': "sv_db s' = sv_db s2"
    using assms(2)
    by (auto simp: PauseExecution_def Let_def split: option.splits prod.splits sum.splits if_splits)
  have row: "fmlookup (db_executions (sv_db s)) eid = Some x" "ex_ID x = eid"
    using getExecution_row [OF assms(1) g] st by auto
  have "sv_db s1 = sv_db s" using getExecution_db [of en eid s] g by simp
  then show ?thesis
    using update_row_change [OF _ u] assms(1) row st s' by (auto simp: status_change_def)
qed

lemma Resume_change:
  assumes "db_ok (sv_db s)" and "ResumeExecution en eid s = (None, xo, s')"
  shows "status_change (sv_db s) eid (\<lambda>st. st = ''paused'') ''running'' (sv_db s')
    \<and> (\<exists>x. xo = Some x \<and> ex_StepStatuses x = fmempty \<and> ex_CurrentStepID x = '''')"
proof -
  obtain x s1 s2 where g: "getExecution en eid s = (Inr x, s1)" and st: "ex_Status x = ''paused''"
    and u: "update_row en (x\<lparr>ex_Status := ''running'', ex_UpdatedAt := en_now en,
        ex_Context := fmdrop ''pause_reason'' (fmupd ''resumed_at'' (VTime (en_now en)) (ex_Context x))\<rparr>) s1
        = (None, s2)"
    and s': "sv_db s' = sv_db s2"
    and xo: "xo = Some (x\<lparr>ex_Status := ''running'', ex_UpdatedAt := en_now en,
        ex_Context := fmdrop ''pause_reason'' (fmupd ''resumed_at'' (VTime (en_now en)) (ex_Context x))\<rparr>)"
    using assms(2)
    by (auto simp: ResumeExecution_def Let_def split: option.splits prod.splits sum.splits if_splits)
  have row: "fmlookup (db_executions (sv_db s)) eid = Some x" "ex_ID x = eid"
    using getExecution_row [OF assms(1) g] st by auto
  have "sv_db s1 = sv_db s" using getExecution_db [of en eid s] g by simp
  then show ?thesis
    using update_row_change [OF _ u] assms(1) row st s' xo getExecution_runtime [OF assms(1) g]
    by (auto simp: status_change_def)
qed

lemma Cancel_change:
  assumes "db_ok (sv_db s)" and "CancelExecution en eid reason s = (None, s')"
  shows "status_change (sv_db s) eid (\<lambda>st. st \<notin> {''completed'', ''failed'', ''cancelled''}) ''cancelled'' (sv_db s')"
proof -
  obtain x s1 s2 y where g: "getExecution en eid s = (Inr x, s1)"
    and st: "ex_Status x \<notin> {''completed'', ''failed'', ''cancelled''}"
    and u: "update_row en y s1 = (None, s2)" and y: "ex_ID y = ex_ID x" "ex_Status y = ''cancelled''"
    and s': "sv_db s' = sv_db s2"
    using assms(2)
    by (fastforce simp: CancelExecution_def Let_def in_transaction_eq
        split: option.splits prod.splits sum.splits if_splits)
  have db1: "sv_db s1 = sv_db s" using getExecution_db [of en eid s] g by simp
  note ch = update_row_change [OF _ u, unfolded db1, OF assms(1)]
  then have row: "fmlookup (db_executions (sv_db s)) eid = Some x" "ex_ID x = eid"
    using getExecution_row [OF assms(1) g] y by auto
  then show ?thesis using ch st s' y db1 by (auto simp: status_change_def)
qed

lemma Retry_change:
  assumes "db_ok (sv_db s)" and "RetryExecution en eid fromStep s = (None, xo, s')"
  shows "fromStep = '''' \<and> status_change (sv_db s) eid (\<lambda>st. st = ''failed'') ''running'' (sv_db s')"
proof -
  obtain x s1 where g: "getExecution en eid s = (Inr x, s1)" and st: "ex_Status x = ''failed''"
    and fs: "\<not> (fromStep \<noteq> '''' \<and> fmlookup (ex_StepStatuses x) fromStep = None)"
    using assms(2) by (auto simp: RetryExecution_def split: option.splits prod.splits sum.splits if_splits)
  obtain w s2 where w: "getWorkflow en (ex_WorkflowID x) s1 = (Inr w, s2)"
    using assms(2) g st fs by (auto simp: RetryExecution_def split: option.splits prod.splits sum.splits)
  obtain y s3 where u: "update_row en y s2 = (None, s3)" and y: "ex_ID y = ex_ID x" "ex_Status y = ''running''"
    and s': "sv_db s' = sv_db s3"
    using assms(2) g st fs w
    by (fastforce simp: RetryExecution_def Let_def in_transaction_eq
        split: option.splits prod.splits if_splits)
  have db2: "sv_db s2 = sv_db s"
    using getExecution_db [of en eid s] getWorkflow_db [of en "ex_WorkflowID x" s1] g w by simp
  have row: "fmlookup (db_executions (sv_db s)) eid = Some x" "ex_ID x = eid"
    using getExecution_row [OF assms(1) g] st by auto
  have "fromStep = ''''" using fs getExecution_runtime(1) [OF assms(1) g] by simp
  then show ?thesis
    using update_row_change(2) [OF _ u] assms(1) db2 row st s' y by (auto simp: status_change_def)
qed


definition stored_status :: "wf_db \<Rightarrow> uuid \<Rightarrow> string" where
  "stored_status d eid = (case fmlookup (db_executions d) eid of None \<Rightarrow> '''' | Some x \<Rightarrow> ex_Status x)"

lemma status_change_stored:
  "status_change d eid from to d' \<Longrightarrow> from (stored_status d eid) \<and> stored_status d' eid = to"
  by (auto simp: status_change_def stored_status_def)

lemma workflow_table [simp]:
  "workflow_CanTransitionTo ''running'' ''paused''" "workflow_CanTransitionTo ''paused'' ''running''"
  "\<not> workflow_CanTransitionTo ''failed'' ''running''"
  by (simp_all add: workflow_CanTransitionTo_def table_CanTransitionTo_def WorkflowTransitions_def)

text \<open>Pausing and resuming an execution follow the table of workflow transitions of
  \<open>pkg/models\<close>; retrying does not: it moves a stored execution out of the status failed, which
  the table makes final.
\<close>

theorem lifecycle_against_table:
  assumes "db_ok (sv_db s)"
  shows "(fst (PauseExecution en eid reason s) = None \<longrightarrow>
       workflow_CanTransitionTo (stored_status (sv_db s) eid)
         (stored_status (sv_db (snd (PauseExecution en eid reason s))) eid))
    \<and> (fst (ResumeExecution en eid s) = None \<longrightarrow>
       workflow_CanTransitionTo (stored_status (sv_db s) eid)
         (stored_status (sv_db (snd (snd (ResumeExecution en eid s)))) eid))
    \<and> (fst (RetryExecution en eid fromStep s) = None \<longrightarrow>
       workflow_IsTerminal (stored_status (sv_db s) eid)
       \<and> \<not> workflow_CanTransitionTo (stored_status (sv_db s) eid)
           (stored_status (sv_db (snd (snd (RetryExecution en eid fromStep s)))) eid))"
proof (intro conjI impI)
  assume "fst (PauseExecution en eid reason s) = None"
  then show "workflow_CanTransitionTo (stored_status (sv_db s) eid)
      (stored_status (sv_db (snd (PauseExecution en eid reason s))) eid)"
    using status_change_stored [OF Pause_change [OF assms]] by (metis prod.collapse workflow_table(1))
next
  assume "fst (ResumeExecution en eid s) = None"
  then show "workflow_CanTransitionTo (stored_status (sv_db s) eid)
      (stored_status (sv_db (snd (snd (ResumeExecution en eid s)))) eid)"
    using status_change_stored [OF Resume_change [OF assms, THEN conjunct1]]
    by (metis prod.collapse workflow_table(2))
next
  assume "fst (RetryExecution en eid fromStep s) = None"
  then have "stored_status (sv_db s) eid = ''failed''"
    "stored_status (sv_db (snd (snd (RetryExecution en eid fromStep s)))) eid = ''running''"
    using status_change_stored [OF Retry_change [OF assms, THEN conjunct2]] by (metis prod.collapse)+
  then show "workflow_IsTerminal (stored_status (sv_db s) eid)"
    and "\<not> workflow_CanTransitionTo (stored_status (sv_db s) eid)
           (stored_status (sv_db (snd (snd (RetryExecution en eid fromStep s)))) eid)"
    by (simp_all add: workflow_IsTerminal_def)
qed

text \<open>Which errors the parts of a handler can return.\<close>

lemma CheckRateLimit_error: "CheckRateLimit en k = Some e \<Longrightarrow> e = ErrRateLimitExceeded"
  by (auto simp: CheckRateLimit_def split: option.splits if_splits)

lemma authorize_error: "authorize en k a d = Some e \<Longrightarrow> \<exists>reason. e = EUnauthorized d reason"
  by (auto simp: authorize_def split: option.splits if_splits prod.splits)

lemma getExecution_error: "getExecution en i s = (Inl e, s') \<Longrightarrow> \<nexists>v. e = EValidation v"
  by (auto simp: getExecution_def split: option.splits prod.splits sum.splits if_splits)

lemma update_row_error: "update_row en x s = (Some e, s') \<Longrightarrow> \<nexists>v. e = EValidation v"
  by (auto simp: update_row_def split: prod.splits)

lemmas handler_errors = CheckRateLimit_error authorize_error getExecution_error update_row_error

text \<open>The retry limit is never enforced: for a stored execution the count of earlier retries is
  always read as zero and the configured maximum as three, so no retry is ever refused for
  having been retried too often.
\<close>

theorem RetryExecution_unlimited:
  assumes "db_ok (sv_db s)"
  shows "fst (RetryExecution en eid fromStep s) \<noteq> Some (EValidation (ValidationError ''retry_count'' msg))"
proof
  assume ref: "fst (RetryExecution en eid fromStep s) = Some (EValidation (ValidationError ''retry_count'' msg))"
  have zero: "int_or z (fmlookup m k) = z" if "no_ints m" for z m k
    using that by (cases "fmlookup m k") (auto simp: int_or_def no_ints_def split: gval.split)
  obtain x s1 where g: "getExecution en eid s = (Inr x, s1)" and st: "ex_Status x = ''failed''"
    and fs: "\<not> (fromStep \<noteq> '''' \<and> fmlookup (ex_StepStatuses x) fromStep = None)"
    and pre: "CheckRateLimit en ''execution:retry'' = None"
      "authorize en ''workflow_execution'' ''retry'' ''retry execution'' = None"
    using ref by (auto simp: RetryExecution_def bad_status_def dest: handler_errors
        split: option.splits prod.splits sum.splits if_splits)
  obtain w s2 where w: "getWorkflow en (ex_WorkflowID x) s1 = (Inr w, s2)"
    using ref g st fs pre by (auto simp: RetryExecution_def split: prod.splits sum.splits)
  note x = getExecution_runtime [OF assms g]
  have "no_ints (wf_Config w)" using getWorkflow_no_ints [OF _ w] x assms by simp
  with ref g st fs pre w x show False
    by (auto simp: RetryExecution_def zero in_transaction_eq Let_def dest: update_row_error
        split: prod.splits option.splits)
qed

section \<open>Definitions\<close>

lemma wr_Update_wrong_version:
  assumes "db_ok d" and "existing = zero_workflow \<or> wr_Get err i d = Inr existing"
    and "wf_ID w = wf_ID existing" and "wf_Version w = wf_Version existing + 1"
  shows "fst (wr_Update tt err' now w d) \<noteq> None"
proof (cases "existing = zero_workflow")
  case True
  moreover have "fmlookup (db_workflows d) 0 = None"
    using assms(1) by (meson db_ok_def not_None_eq)
  ultimately show ?thesis
    using assms(3) by (simp add: wr_Update_def zero_workflow_def Let_def split: option.split)
next
  case False
  then obtain row where row: "fmlookup (db_workflows d) i = Some row" "wr_workflow row = existing"
    using assms(2) by (auto simp: wr_Get_def split: option.splits if_splits)
  then have "wf_ID w = i" using assms(1,3) by (auto simp: db_ok_def)
  then show ?thesis
    using row assms(4) by (simp add: wr_Update_def Let_def split: option.split)
qed

text \<open>An update of a workflow definition never succeeds: \<open>UpdateWorkflow\<close> hands the repository the
  stored version plus one, and the repository only updates a row whose version is the one it is
  handed (a cached read hands it the nil id), so every call ends with an error.
\<close>

theorem UpdateWorkflow_never_succeeds:
  assumes "db_ok (sv_db s)"
  shows "fst (UpdateWorkflow en wopt s) \<noteq> None"
proof
  assume ok: "fst (UpdateWorkflow en wopt s) = None"
  obtain w existing s1 where w: "wopt = Some w" and g: "getWorkflow en (wf_ID w) s = (Inr existing, s1)"
    using ok by (auto simp: UpdateWorkflow_def split: option.splits prod.splits sum.splits if_splits)
  have db: "sv_db s1 = sv_db s" using getWorkflow_db [of en "wf_ID w" s] g by simp
  have ex: "existing = zero_workflow \<or> wr_Get (en_db en ''get_workflow'') (wf_ID w) (sv_db s) = Inr existing"
    using getWorkflow_result [OF g] by auto
  define u where "u = (sanitizeWorkflow en w)\<lparr>wf_ID := wf_ID existing, wf_TenantID := wf_TenantID existing,
      wf_CreatedBy := wf_CreatedBy existing, wf_CreatedAt := wf_CreatedAt existing,
      wf_UpdatedAt := en_now en, wf_Version := wf_Version existing + 1\<rparr>"
  have "fst (wr_Update (en_time_text en) (en_db en ''update_workflow'') (en_now en) u (sv_db s)) \<noteq> None"
    using wr_Update_wrong_version [OF assms ex] by (simp add: u_def)
  then show False
    using ok w g db
    by (auto simp: UpdateWorkflow_def in_transaction_eq Let_def u_def [symmetric]
        split: option.splits prod.splits sum.splits if_splits)
qed

text \<open>C34 What \<open>CreateWorkflow\<close> accepts is a validated definition, and it reads back as it was stored:
  after a successful creation, the first read of the new id returns the sanitised definition with
  the caller's tenant, active, at version one, with its JSON columns as stored.
\<close>

theorem CreateWorkflow_readback:
  assumes "fst (CreateWorkflow en w s) = None" and "en_uuid en \<noteq> 0" and "en_db en' ''get_workflow'' = None"
    and "\<not> mc_Exists (en_now en') (workflow_key (en_uuid en)) (sv_workflowCache s)"
  shows "validateWorkflow (sanitizeWorkflow en w) = None
    \<and> fst (getWorkflow en' (en_uuid en) (snd (CreateWorkflow en w s)))
      = Inr (stored_workflow (en_time_text en) ((sanitizeWorkflow en w)\<lparr>wf_ID := en_uuid en,
          wf_TenantID := en_tenant en, wf_CreatedBy := en_agent en, wf_CreatedAt := en_now en,
          wf_UpdatedAt := en_now en, wf_Version := 1, wf_IsActive := True\<rparr>))"
proof -
  let ?w = "(sanitizeWorkflow en w)\<lparr>wf_ID := en_uuid en, wf_TenantID := en_tenant en,
      wf_CreatedBy := en_agent en, wf_IsActive := True, wf_Version := 1\<rparr>"
  have v: "validateWorkflow (sanitizeWorkflow en w) = None"
    using assms(1) by (auto simp: CreateWorkflow_def Let_def split: option.splits)
  have "fst (wr_Create (en_time_text en) (en_db en ''create_workflow'') (en_now en) (en_uuid en) ?w (sv_db s)) = None"
    using assms(1) by (auto simp: CreateWorkflow_def in_transaction_eq Let_def split: option.splits prod.splits)
  then have c: "en_db en ''create_workflow'' = None" "fmlookup (db_workflows (sv_db s)) (en_uuid en) = None"
    using assms(2) by (auto simp: wr_Create_def Let_def split: option.splits if_splits)
  have db: "sv_db (snd (CreateWorkflow en w s)) = (sv_db s)\<lparr>db_workflows := fmupd (en_uuid en)
      \<lparr>wr_workflow = stored_workflow (en_time_text en) ((sanitizeWorkflow en w)\<lparr>wf_ID := en_uuid en,
          wf_TenantID := en_tenant en, wf_CreatedBy := en_agent en, wf_CreatedAt := en_now en,
          wf_UpdatedAt := en_now en, wf_Version := 1, wf_IsActive := True\<rparr>),
       wr_deleted_at = None\<rparr> (db_workflows (sv_db s))\<rparr>"
    using assms(1,2) c
    by (auto simp: CreateWorkflow_def in_transaction_eq wr_Create_def invalidateWorkflowCaches_def Let_def
        split: option.splits)
  have "sv_workflowCache (snd (CreateWorkflow en w s))
      = mc_Delete (''tenant:'' @ uuid_String (en_tenant en) @ '':workflows'') (sv_workflowCache s)"
    using assms(1,2) c
    by (auto simp: CreateWorkflow_def in_transaction_eq wr_Create_def invalidateWorkflowCaches_def Let_def
        split: option.splits)
  then have "\<not> mc_Exists (en_now en') (workflow_key (en_uuid en)) (sv_workflowCache (snd (CreateWorkflow en w s)))"
    using assms(4) by simp
  then show ?thesis using v assms(3) by (simp add: getWorkflow_miss wr_Get_def db)
qed

text \<open>A failed creation can leave its workflow behind: when only the publication of the event
  fails, \<open>CreateWorkflow\<close> returns that error, yet the row it inserted stays in the table.
\<close>

theorem CreateWorkflow_error_keeps_row:
  assumes "CheckRateLimit en ''workflow:create'' = None" and "CheckQuota en ''workflows'' 1 = None"
    and "validateWorkflow (sanitizeWorkflow en w) = None"
    and "authorize en ''workflow'' ''create'' ''create workflow'' = None"
    and "applyWorkflowDefaults en = None" and "en_db en ''create_workflow'' = None"
    and "en_uuid en \<noteq> 0" and "fmlookup (db_workflows (sv_db s)) (en_uuid en) = None"
    and "en_publish en ''WorkflowCreated'' = Some e"
  shows "fst (CreateWorkflow en w s) = Some (EExternal e)
    \<and> fmlookup (db_workflows (sv_db (snd (CreateWorkflow en w s)))) (en_uuid en) \<noteq> None"
  using assms
  by (simp add: CreateWorkflow_def in_transaction_eq wr_Create_def PublishEvent_def Let_def)

section \<open>Executions\<close>

lemma checkExecutionIdempotency_never: "checkExecutionIdempotency en key s = Inl ''not found''"
proof -
  have "\<exists>e. mc_Get (en_now en) (idempotency_key key) (0::uuid) (sv_executionCache s) = (e, 0)"
    by (metis mc_Get_value prod.collapse)
  then show ?thesis by (auto simp: checkExecutionIdempotency_def split: option.split)
qed

text \<open>A workflow can be executed once per ten minutes, idempotency key or not: after a successful
  \<open>ExecuteWorkflow\<close>, every further call for the same workflow within ten minutes that passes the
  rate limit fails with a workflow-not-active error, even with the same idempotency key.
\<close>

theorem ExecuteWorkflow_then_not_active:
  assumes "ExecuteWorkflow en wid inp key s = (Some (Inr x), s')"
    and "en_now en' \<le> en_now en + 10 * minute" and "CheckRateLimit en' ''workflow:execute'' = None"
  shows "fst (ExecuteWorkflow en' wid inp' key' s') = Some (Inl (WorkflowNotActiveError wid))"
proof -
  have idem: "(if k \<noteq> '''' then checkExecutionIdempotency e k t else Inl '''')
      = Inl (if k \<noteq> '''' then ''not found'' else '''')" for e k t
    by (simp add: checkExecutionIdempotency_never)
  obtain w s1 where g: "getWorkflow en wid s = (Inr w, s1)" and act: "wf_IsActive w"
    using assms(1) unfolding ExecuteWorkflow_def idem
    by (auto split: option.splits prod.splits sum.splits if_splits)
  have s1: "sv_workflowCache s1 = mc_Set (en_now en) (workflow_key wid) (CWorkflow w) (10 * minute) (sv_workflowCache s)"
    using getWorkflow_result [OF g] act by (auto simp: zero_workflow_def)
  have "sv_workflowCache s' = sv_workflowCache s1"
    using assms(1) g act unfolding ExecuteWorkflow_def idem
    by (auto simp: Let_def storeExecutionIdempotencyKey_def
        split: option.splits prod.splits outcome.splits if_splits)
  then have "mc_Exists (en_now en') (workflow_key wid) (sv_workflowCache s')"
    using assms(2) s1 by (simp add: mc_Exists_Set_same minute_def second_def)
  then show ?thesis
    using assms(3) unfolding ExecuteWorkflow_def idem by (simp add: getWorkflow_hit zero_workflow_def)
qed

text \<open>Resuming an execution starts nothing: the goroutine that a successful resume launches ends
  without a panic and without touching any row, whatever has happened in the meantime.
\<close>

theorem resume_background_idle:
  assumes "db_ok (sv_db s)" and "ResumeExecution en eid s = (None, Some x, s')"
  shows "\<exists>t'. resume_background en' eid x t = Some t' \<and> sv_db t' = sv_db t"
proof -
  have x: "ex_StepStatuses x = fmempty" "ex_CurrentStepID x = ''''"
    using Resume_change [OF assms] by auto
  obtain r t1 where g: "getWorkflow en' (ex_WorkflowID x) t = (r, t1)"
    by (cases "getWorkflow en' (ex_WorkflowID x) t")
  then have "sv_db t1 = sv_db t" using getWorkflow_db [of en' "ex_WorkflowID x" t] by simp
  then show ?thesis using g by (cases r) (simp_all add: resume_background_def x resume_steps_idle)
qed

section \<open>A concrete service\<close>

text \<open>One stored workflow with one step, and one stored execution of it; every service reachable.\<close>

definition demo_env :: "go_time \<Rightarrow> env" where
  "demo_env now = \<lparr>en_now = now, en_uuid = 9, en_tenant = 2, en_agent = ''a'', en_RateLimiter = None,
     en_QuotaManager = None, en_Authorizer = None, en_Sanitizer = None, en_GetDefaults = None,
     en_publish = (\<lambda>_. None), en_db = (\<lambda>_. None), en_regexp = (\<lambda>_ _. Inr True),
     en_time_text = (\<lambda>_. ''t''), en_broadcast = None, en_run_step = (\<lambda>_. (None, fmempty))\<rparr>"

definition demo_step :: workflow_step where
  "demo_step = \<lparr>ws_ID = ''a'', ws_Type = ''task'', ws_Config = fmempty, ws_TimeoutSeconds = 5, ws_OnFailure = '''', ws_Dependencies = []\<rparr>"

definition demo_workflow :: workflow where
  "demo_workflow = \<lparr>wf_ID = 7, wf_TenantID = 2, wf_Name = ''n'', wf_Type = ''sequential'', wf_Version = 1,
     wf_CreatedBy = ''u'', wf_Steps = [demo_step], wf_Config = fmempty, wf_Description = '''',
     wf_IsActive = True, wf_CreatedAt = 0, wf_UpdatedAt = 0\<rparr>"

definition demo_execution :: "string \<Rightarrow> execution" where
  "demo_execution status = zero_execution\<lparr>ex_ID := 8, ex_WorkflowID := 7, ex_TenantID := 2, ex_Status := status\<rparr>"

definition demo_db :: "string \<Rightarrow> wf_db" where
  "demo_db status = \<lparr>db_workflows = fmap_of_list [(7, \<lparr>wr_workflow = demo_workflow, wr_deleted_at = None\<rparr>)],
     db_executions = fmap_of_list [(8, demo_execution status)]\<rparr>"

definition demo :: "string \<Rightarrow> wf_service" where
  "demo status = NewWorkflowService (demo_db status)"

lemma demo_env_simps [simp]:
  "en_now (demo_env now) = now" "en_uuid (demo_env now) = 9" "en_tenant (demo_env now) = 2"
  "en_agent (demo_env now) = ''a''" "en_db (demo_env now) k = None" "en_publish (demo_env now) k = None"
  "en_time_text (demo_env now) = (\<lambda>_. ''t'')" "sanitizeWorkflow (demo_env now) w = w"
  "CheckRateLimit (demo_env now) k = None" "CheckQuota (demo_env now) k n = None"
  "authorize (demo_env now) k a d = None" "applyWorkflowDefaults (demo_env now) = None"
  "PublishEvent (demo_env now) k = None"
  by (simp_all add: demo_env_def sanitizeWorkflow_def CheckRateLimit_def CheckQuota_def authorize_def
      applyWorkflowDefaults_def PublishEvent_def)

lemma demo_ok: "db_ok (sv_db (demo status))"
  by (simp add: db_ok_def demo_def demo_db_def NewWorkflowService_def demo_workflow_def demo_execution_def
      zero_execution_def no_ints_def)

lemma demo_miss:
  "mc_Get now k v (sv_workflowCache (demo status)) = (Some ''key not found'', v)"
  "mc_Get now k v (sv_executionCache (demo status)) = (Some ''key not found'', v)"
  by (simp_all add: demo_def NewWorkflowService_def NewMemoryCache_def mc_Get_def)

lemma demo_rows [simp]:
  "db_workflows (sv_db (demo status)) = fmap_of_list [(7, \<lparr>wr_workflow = demo_workflow, wr_deleted_at = None\<rparr>)]"
  "db_executions (sv_db (demo status)) = fmap_of_list [(8, demo_execution status)]"
  by (simp_all add: demo_def NewWorkflowService_def demo_db_def)

lemma demo_getWorkflow:
  "getWorkflow (demo_env now) 7 (demo status) = (Inr demo_workflow, (demo status)\<lparr>sv_workflowCache :=
     mc_Set now (workflow_key 7) (CWorkflow demo_workflow) (10 * minute) (sv_workflowCache (demo status))\<rparr>)"
  by (simp add: getWorkflow_def demo_miss wr_Get_def)

lemma demo_getExecution:
  "getExecution (demo_env now) 8 (demo status) = (Inr (demo_execution status), (demo status)\<lparr>sv_executionCache :=
     mc_Set now (execution_key 8) (CExecution (demo_execution status)) (5 * minute) (sv_executionCache (demo status))\<rparr>)"
  by (simp add: getExecution_def demo_miss wr_GetExecution_def)

theorem getWorkflow_cached_empty_witness:
  "fst (getWorkflow (demo_env 0) 7 (demo ''running'')) = Inr demo_workflow \<and> demo_workflow \<noteq> zero_workflow
     \<and> fst (getWorkflow (demo_env minute) 7 (snd (getWorkflow (demo_env 0) 7 (demo ''running'')))) = Inr zero_workflow"
  using getWorkflow_cached_empty [OF demo_getWorkflow, of "demo_env minute" 0 "''running''"]
  by (simp add: demo_getWorkflow) (simp add: demo_workflow_def zero_workflow_def minute_def second_def)

lemma demo_getWorkflow':
  "fst (getWorkflow (demo_env now) 7 ((demo status)\<lparr>sv_executionCache := c\<rparr>)) = Inr demo_workflow"
  by (simp add: getWorkflow_def demo_miss wr_Get_def)

lemma demo_step_panics: "ExecuteWorkflowStep (demo_env 0) 8 ''a'' (demo ''running'') = Panicked"
proof -
  have x: "ex_WorkflowID (demo_execution st) = 7" "ex_StepStatuses (demo_execution st) = fmempty" for st
    by (simp_all add: demo_execution_def zero_execution_def)
  have w: "GetSteps demo_workflow = [demo_step]" "ws_ID demo_step = ''a''" "ws_Dependencies demo_step = []"
    by (simp_all add: GetSteps_def demo_workflow_def demo_step_def)
  show ?thesis
    unfolding ExecuteWorkflowStep_def demo_getExecution
    using demo_getWorkflow' [where now = 0 and status = "''running''" and c = "mc_Set 0 (execution_key 8)
      (CExecution (demo_execution ''running'')) (5 * minute) (sv_executionCache (demo ''running''))"]
    by (auto simp: x w split: prod.split)
qed

theorem ExecuteWorkflowStep_never_runs_witness:
  "db_ok (sv_db (demo ''running'')) \<and> ExecuteWorkflowStep (demo_env 0) 8 ''a'' (demo ''running'') = Panicked"
  using ExecuteWorkflowStep_never_runs [OF demo_ok] demo_ok
    demo_step_panics by simp

lemma demo_pause: "fst (PauseExecution (demo_env 0) 8 ''r'' (demo ''running'')) = None"
  by (simp add: PauseExecution_def demo_getExecution update_row_def wr_UpdateExecution_def
      demo_execution_def zero_execution_def Let_def)


theorem lifecycle_against_table_witness:
  "db_ok (sv_db (demo ''running'')) \<and> workflow_CanTransitionTo (stored_status (sv_db (demo ''running'')) 8)
     (stored_status (sv_db (snd (PauseExecution (demo_env 0) 8 ''r'' (demo ''running'')))) 8)"
  using lifecycle_against_table [OF demo_ok] demo_pause demo_ok
  by blast

theorem RetryExecution_unlimited_witness:
  "db_ok (sv_db (demo ''failed'')) \<and> fst (RetryExecution (demo_env 0) 8 '''' (demo ''failed''))
     \<noteq> Some (EValidation (ValidationError ''retry_count'' ''execution has been retried 3 times, max is 3''))"
  using RetryExecution_unlimited [OF demo_ok] demo_ok by blast

theorem UpdateWorkflow_never_succeeds_witness:
  "db_ok (sv_db (demo ''running'')) \<and> fst (UpdateWorkflow (demo_env 0) (Some demo_workflow) (demo ''running'')) \<noteq> None"
  using UpdateWorkflow_never_succeeds [OF demo_ok] demo_ok by blast

definition empty_service :: wf_service where
  "empty_service = NewWorkflowService \<lparr>db_workflows = fmempty, db_executions = fmempty\<rparr>"

lemma demo_valid: "validateWorkflow demo_workflow = None"
  by (simp add: validateWorkflow_def demo_workflow_def demo_step_def GetSteps_def validateNoCycles_def build_adj_def
      dfs_roots_def dfs_root_def dfs_def)

lemma demo_create: "fst (CreateWorkflow (demo_env 0) demo_workflow empty_service) = None"
  by (simp add: CreateWorkflow_def demo_valid in_transaction_eq wr_Create_def empty_service_def
      NewWorkflowService_def Let_def)

theorem CreateWorkflow_readback_witness:
  "fst (CreateWorkflow (demo_env 0) demo_workflow empty_service) = None
     \<and> (\<exists>w. fst (getWorkflow (demo_env 0) 9 (snd (CreateWorkflow (demo_env 0) demo_workflow empty_service))) = Inr w
          \<and> wf_TenantID w = 2 \<and> map ws_ID (wf_Steps w) = [''a''])"
proof -
  have "\<not> mc_Exists 0 (workflow_key 9) (sv_workflowCache empty_service)"
    by (simp add: empty_service_def NewWorkflowService_def)
  then show ?thesis
    using CreateWorkflow_readback [OF demo_create, of "demo_env 0"] demo_create
    by (simp add: stored_workflow_def stored_step_def demo_workflow_def demo_step_def)
qed

theorem CreateWorkflow_error_keeps_row_witness:
  "let en = (demo_env 0)\<lparr>en_publish := \<lambda>_. Some ''down''\<rparr>
   in fst (CreateWorkflow en demo_workflow empty_service) = Some (EExternal ''down'')
      \<and> fmlookup (db_workflows (sv_db (snd (CreateWorkflow en demo_workflow empty_service)))) 9 \<noteq> None"
proof -
  let ?en = "(demo_env 0)\<lparr>en_publish := \<lambda>_. Some ''down''\<rparr>"
  have "CheckRateLimit ?en ''workflow:create'' = None" "CheckQuota ?en ''workflows'' 1 = None"
    "validateWorkflow (sanitizeWorkflow ?en demo_workflow) = None"
    "authorize ?en ''workflow'' ''create'' ''create workflow'' = None"
    "applyWorkflowDefaults ?en = None" "en_db ?en ''create_workflow'' = None" "en_uuid ?en \<noteq> 0"
    "fmlookup (db_workflows (sv_db empty_service)) (en_uuid ?en) = None"
    "en_publish ?en ''WorkflowCreated'' = Some ''down''"
    by (simp_all add: demo_env_def CheckRateLimit_def CheckQuota_def sanitizeWorkflow_def demo_valid authorize_def
        applyWorkflowDefaults_def empty_service_def NewWorkflowService_def)
  from CreateWorkflow_error_keeps_row [OF this] show ?thesis by (simp add: Let_def)
qed

lemma demo_input: "validateWorkflowInput rx demo_workflow fmempty = Returned ()"
  by (simp add: validateWorkflowInput_def schema_of_def demo_workflow_def)

lemma demo_execute: "\<exists>x s. ExecuteWorkflow (demo_env 0) 7 fmempty '''' (demo ''failed'') = (Some (Inr x), s)"
proof -
  have a: "wf_IsActive demo_workflow" "wf_ID demo_workflow = 7" "wf_Version demo_workflow = 1"
    by (simp_all add: demo_workflow_def)
  show ?thesis
    by (simp add: ExecuteWorkflow_def demo_getWorkflow a demo_input new_execution_def wr_CreateExecution_def
        wr_Update_def Let_def)
qed

theorem ExecuteWorkflow_then_not_active_witness:
  "\<exists>x s. ExecuteWorkflow (demo_env 0) 7 fmempty '''' (demo ''failed'') = (Some (Inr x), s)
     \<and> fst (ExecuteWorkflow (demo_env minute) 7 fmempty ''k'' s) = Some (Inl (WorkflowNotActiveError 7))"
proof -
  obtain x s where e: "ExecuteWorkflow (demo_env 0) 7 fmempty '''' (demo ''failed'') = (Some (Inr x), s)"
    using demo_execute by blast
  from ExecuteWorkflow_then_not_active [OF e, of "demo_env minute" fmempty "''k''"] e show ?thesis
    by (simp add: minute_def second_def)
qed

lemma demo_resume: "\<exists>x s. ResumeExecution (demo_env 0) 8 (demo ''paused'') = (None, Some x, s)"
  by (simp add: ResumeExecution_def demo_getExecution update_row_def wr_UpdateExecution_def
      demo_execution_def zero_execution_def Let_def)

theorem resume_background_idle_witness:
  "\<exists>x s. ResumeExecution (demo_env 0) 8 (demo ''paused'') = (None, Some x, s)
     \<and> (\<exists>t'. resume_background (demo_env 1) 8 x s = Some t' \<and> sv_db t' = sv_db s)"
proof -
  obtain x s where r: "ResumeExecution (demo_env 0) 8 (demo ''paused'') = (None, Some x, s)"
    using demo_resume by blast
  from resume_background_idle [OF demo_ok r, of "demo_env 1" s] r show ?thesis by blast
qed

end
