(* ===== verification/Workflow_Steps.thy ===== *)
theory Workflow_Steps
  imports Workflow_Guarantees
begin

text \<open>
  The step-by-step interface of the workflow service (\<open>CreateExecution\<close>, \<open>StartWorkflow\<close>,
  \<open>CompleteStep\<close>, \<open>FailStep\<close>, \<open>RetryStep\<close>, \<open>GetCurrentStep\<close>, \<open>GetPendingSteps\<close>,
  \<open>GetExecutionStatus\<close>, \<open>SubmitApproval\<close> and \<open>continueWorkflowExecution\<close> of
  \<open>pkg/services/workflow_service_impl.go\<close>).  What a handler does to the execution object it has
  loaded is a function of its own, so that the lemmas can say both what the step machine does to
  an execution and what remains of that once the execution is loaded from the repository.
\<close>

section \<open>Model: the step machine\<close>

definition set_next :: "go_time \<Rightarrow> string \<Rightarrow> execution \<Rightarrow> execution option" where
  "set_next now nextID x =
     (case fmlookup (ex_StepStatuses x) nextID of
        None \<Rightarrow> None
      | Some st \<Rightarrow> Some (put_status nextID (st\<lparr>ss_Status := ''running'', ss_StartedAt := Some now\<rparr>)
                    (x\<lparr>ex_CurrentStepID := nextID\<rparr>)))"

definition step_index :: "workflow_step list \<Rightarrow> string \<Rightarrow> nat" where
  "step_index steps stepID =
     (if \<exists>step \<in> set steps. ws_ID step = stepID then length (takeWhile (\<lambda>step. ws_ID step \<noteq> stepID) steps) else 0)"

text \<open>\<open>CompleteStep\<close> after the step was found running; \<open>None\<close> is the nil dereference of the next step.\<close>

definition complete_step ::
  "go_time \<Rightarrow> workflow_step list \<Rightarrow> string \<Rightarrow> step_status \<Rightarrow> (string, gval) fmap option \<Rightarrow> execution \<Rightarrow> execution option" where
  "complete_step now steps stepID st output x =
     (let st = st\<lparr>ss_Status := ''completed'', ss_CompletedAt := Some now\<rparr>;
          st = (case output of None \<Rightarrow> st | Some m \<Rightarrow> st\<lparr>ss_Output := m\<rparr>);
          x = put_status stepID st x;
          i = step_index steps stepID
      in if i + 1 < length steps then set_next now (ws_ID (steps ! (i + 1))) x
         else Some (x\<lparr>ex_Status := ''completed'', ex_CompletedAt := Some now, ex_CurrentStepID := ''''\<rparr>))"

definition fail_step :: "go_time \<Rightarrow> string \<Rightarrow> string \<Rightarrow> (string, gval) fmap option \<Rightarrow> step_status \<Rightarrow> execution \<Rightarrow> execution" where
  "fail_step now stepID reason details st x =
     (let st = st\<lparr>ss_Status := ''failed'', ss_CompletedAt := Some now, ss_Error := reason\<rparr>;
          st = (case details of None \<Rightarrow> st | Some m \<Rightarrow> st\<lparr>ss_Output := m\<rparr>)
      in (put_status stepID st x)\<lparr>ex_Status := ''failed'', ex_CompletedAt := Some now, ex_Error := reason\<rparr>)"

definition retry_step :: "go_time \<Rightarrow> string \<Rightarrow> step_status \<Rightarrow> execution \<Rightarrow> execution" where
  "retry_step now stepID st x =
     (let x = put_status stepID (st\<lparr>ss_Status := ''running'', ss_StartedAt := Some now, ss_CompletedAt := None,
                ss_Error := '''', ss_RetryCount := ss_RetryCount st + 1\<rparr>) x;
          x = (if ex_Status x = ''failed''
               then x\<lparr>ex_Status := ''running'', ex_CompletedAt := None, ex_Error := ''''\<rparr> else x)
      in x\<lparr>ex_CurrentStepID := stepID\<rparr>)"

section \<open>Model: handlers\<close>

definition CreateExecution :: "env \<Rightarrow> execution \<Rightarrow> wf_service \<Rightarrow> svc_error option \<times> execution \<times> wf_service" where
  "CreateExecution en x s =
     (if ex_WorkflowID x = 0 then (Some (EMessage ''workflow ID is required''), x, s) else
      let x = (if ex_ID x = 0 then x\<lparr>ex_ID := en_uuid en\<rparr> else x);
          x = (if ex_Status x = '''' then x\<lparr>ex_Status := ''pending''\<rparr> else x);
          x = (if ex_StartedAt x = 0 then x\<lparr>ex_StartedAt := en_now en\<rparr> else x);
          (rerr, x, d) = wr_CreateExecution (en_time_text en) (en_db en ''create_execution'') (en_now en)
            (en_uuid en) x (sv_db s);
          s = s\<lparr>sv_db := d\<rparr>
      in case rerr of
           Some e \<Rightarrow> (Some (EWrap ''failed to create execution'' (ERepo e)), x, s)
         | None \<Rightarrow> (None, x, s\<lparr>sv_executionCache := mc_Set (en_now en) (uuid_String (ex_ID x)) (CExecution x) (5 * minute)
                       (sv_executionCache s),
                     sv_active := fmupd (ex_ID x) x (sv_active s)\<rparr>))"

definition StartWorkflow ::
  "env \<Rightarrow> uuid \<Rightarrow> string \<Rightarrow> (string, gval) fmap option \<Rightarrow> wf_service \<Rightarrow>
     (svc_error, execution option \<times> wf_service) outcome" where
  "StartWorkflow en wid initiatorID inp s =
     (case getWorkflow en wid s of
        (Inl e, s) \<Rightarrow> Failed (EWrap ''workflow not found'' e) (None, s)
      | (Inr w, s) \<Rightarrow>
     (let x = new_execution en w wid initiatorID ''running'';
          x = (case inp of None \<Rightarrow> x | Some m \<Rightarrow> x\<lparr>ex_Context := fmupd ''input'' (VMap (go_range m)) (ex_Context x)\<rparr>);
          (err, x, s) = CreateExecution en x s
      in case err of Some e \<Rightarrow> Failed e (None, s) | None \<Rightarrow>
     (case GetSteps w of
        [] \<Rightarrow> Returned (Some x, s)
      | firstStep # _ \<Rightarrow>
          (case set_next (ex_StartedAt x) (ws_ID firstStep) x of
             None \<Rightarrow> Panicked
           | Some x \<Rightarrow>
               (case UpdateExecution en (Some x) s of
                  (Some e, s) \<Rightarrow> Failed e (None, s)
                | (None, s) \<Rightarrow> Returned (Some x, s))))))"

definition finish_update :: "env \<Rightarrow> execution \<Rightarrow> wf_service \<Rightarrow> (svc_error, wf_service) outcome" where
  "finish_update en x s =
     (case UpdateExecution en (Some x) s of (Some e, s) \<Rightarrow> Failed e s | (None, s) \<Rightarrow> Returned s)"

definition CompleteStep ::
  "env \<Rightarrow> uuid \<Rightarrow> string \<Rightarrow> (string, gval) fmap option \<Rightarrow> wf_service \<Rightarrow> (svc_error, wf_service) outcome" where
  "CompleteStep en eid stepID output s =
     (case getExecution en eid s of (Inl e, s) \<Rightarrow> Failed e s | (Inr x, s) \<Rightarrow>
     (case fmlookup (ex_StepStatuses x) stepID of
        None \<Rightarrow> Failed (EMessage (''step '' @ stepID @ '' not found in execution'')) s
      | Some st \<Rightarrow>
     (if ss_Status st \<noteq> ''running''
      then Failed (EMessage (''step '' @ stepID @ '' is not running (status: '' @ ss_Status st @ '')'')) s else
     (case getWorkflow en (ex_WorkflowID x) s of (Inl e, s) \<Rightarrow> Failed e s | (Inr w, s) \<Rightarrow>
     (case complete_step (en_now en) (GetSteps w) stepID st output x of
        None \<Rightarrow> Panicked
      | Some x \<Rightarrow> finish_update en x s)))))"

definition FailStep ::
  "env \<Rightarrow> uuid \<Rightarrow> string \<Rightarrow> string \<Rightarrow> (string, gval) fmap option \<Rightarrow> wf_service \<Rightarrow> (svc_error, wf_service) outcome" where
  "FailStep en eid stepID reason details s =
     (case getExecution en eid s of (Inl e, s) \<Rightarrow> Failed e s | (Inr x, s) \<Rightarrow>
     (case fmlookup (ex_StepStatuses x) stepID of
        None \<Rightarrow> Failed (EMessage (''step '' @ stepID @ '' not found'')) s
      | Some st \<Rightarrow> finish_update en (fail_step (en_now en) stepID reason details st x) s))"

definition RetryStep :: "env \<Rightarrow> uuid \<Rightarrow> string \<Rightarrow> wf_service \<Rightarrow> (svc_error, wf_service) outcome" where
  "RetryStep en eid stepID s =
     (case getExecution en eid s of (Inl e, s) \<Rightarrow> Failed e s | (Inr x, s) \<Rightarrow>
     (case fmlookup (ex_StepStatuses x) stepID of
        None \<Rightarrow> Failed (EMessage (''step '' @ stepID @ '' not found'')) s
      | Some st \<Rightarrow>
          if ss_Status st \<noteq> ''failed''
          then Failed (EMessage (''step '' @ stepID @ '' is not failed (status: '' @ ss_Status st @ '')'')) s
          else finish_update en (retry_step (en_now en) stepID st x) s))"

definition GetCurrentStep ::
  "env \<Rightarrow> uuid \<Rightarrow> wf_service \<Rightarrow> (svc_error + step_status option) \<times> wf_service" where
  "GetCurrentStep en eid s =
     (case getExecution en eid s of (Inl e, s) \<Rightarrow> (Inl e, s) | (Inr x, s) \<Rightarrow>
      if ex_CurrentStepID x = '''' then (Inr None, s)
      else case fmlookup (ex_StepStatuses x) (ex_CurrentStepID x) of
             None \<Rightarrow> (Inl (EMessage ''current step not found''), s)
           | Some st \<Rightarrow> (Inr (Some st), s))"

definition GetPendingSteps ::
  "env \<Rightarrow> uuid \<Rightarrow> wf_service \<Rightarrow> (svc_error + (string \<times> step_status) list) \<times> wf_service" where
  "GetPendingSteps en eid s =
     (case getExecution en eid s of (Inl e, s) \<Rightarrow> (Inl e, s) | (Inr x, s) \<Rightarrow>
      (Inr (filter (\<lambda>(k, st). ss_Status st \<in> {''pending'', ''running''}) (go_range (ex_StepStatuses x))), s))"

text \<open>The counts and the percentage of \<open>GetExecutionStatus\<close>; the percentage is truncated to an \<open>int\<close>.\<close>

definition count_status :: "string \<Rightarrow> execution \<Rightarrow> nat" where
  "count_status status x = length (filter (\<lambda>st. st = status) (all_statuses x))"

definition execution_progress :: "execution \<Rightarrow> int" where
  "execution_progress x =
     (let total = length (all_statuses x)
      in if total = 0 then 0
         else f64_to_int64 0 (f64_mul (f64_div (f64_of_int (int (count_status ''completed'' x)))
                (f64_of_int (int total))) 100))"

section \<open>Model: approvals\<close>

record approval =
  ap_Approved :: bool
  ap_ApprovedBy :: string
  ap_Comments :: string

text \<open>\<open>strings.Contains\<close>, and \<open>strings.ToLower\<close> on the bytes of an ASCII text.\<close>

definition contains_text :: "string \<Rightarrow> string \<Rightarrow> bool" where
  "contains_text text word = (\<exists>i \<le> length text. take (length word) (drop i text) = word)"

definition ascii_lower :: "char \<Rightarrow> char" where
  "ascii_lower c = (if CHR ''A'' \<le> c \<and> c \<le> CHR ''Z'' then char_of ((of_char c :: nat) + 32) else c)"

definition approval_decision :: "approval \<Rightarrow> string" where
  "approval_decision a =
     (if ap_Approved a then ''approved''
      else if ap_Comments a \<noteq> '''' \<and> contains_text (map ascii_lower (ap_Comments a)) ''escalate''
      then ''escalated'' else ''rejected'')"

definition ready_after :: "execution \<Rightarrow> string \<Rightarrow> workflow_step list \<Rightarrow> string list" where
  "ready_after x completedStepID steps =
     map ws_ID (filter (\<lambda>step. completedStepID \<in> set (ws_Dependencies step)
       \<and> checkStepDependencies x (ws_ID step) (ws_Dependencies step) = None) steps)"

text \<open>
  \<open>SubmitApproval\<close> also returns the steps whose execution \<open>continueWorkflowExecution\<close> starts in
  goroutines.  The approval stored in the step's output is given by its three fields.
\<close>

definition approval_value :: "approval \<Rightarrow> gval" where
  "approval_value a = VMap [(''approved'', VBool (ap_Approved a)), (''approved_by'', VStr (ap_ApprovedBy a)),
     (''comments'', VStr (ap_Comments a))]"

definition continueWorkflowExecution ::
  "env \<Rightarrow> execution \<Rightarrow> string \<Rightarrow> wf_service \<Rightarrow> (svc_error + string list) \<times> wf_service" where
  "continueWorkflowExecution en x completedStepID s =
     (case getWorkflow en (ex_WorkflowID x) s of
        (Inl e, s) \<Rightarrow> (Inl (EWrap ''failed to get workflow'' e), s)
      | (Inr w, s) \<Rightarrow> (Inr (ready_after x completedStepID (GetSteps w)), s))"

definition apply_approval ::
  "env \<Rightarrow> approval \<Rightarrow> workflow_step \<Rightarrow> string \<Rightarrow> step_status \<Rightarrow> execution \<Rightarrow> wf_service \<Rightarrow>
     (svc_error + execution \<times> string list) \<times> wf_service" where
  "apply_approval en a step stepID st x s =
     (let st = st\<lparr>ss_Output := fmupd ''approval'' (approval_value a) (ss_Output st)\<rparr>;
          now = en_now en;
          decision = approval_decision a
      in if decision = ''approved'' then
           let x = put_status stepID (st\<lparr>ss_Status := ''completed'', ss_CompletedAt := Some now\<rparr>) x
           in case continueWorkflowExecution en x stepID s of
                (Inl e, s) \<Rightarrow> (Inl (EWrap ''failed to continue workflow'' e), s)
              | (Inr started, s) \<Rightarrow> (Inr (x, started), s)
         else if decision = ''rejected'' then
           let err = ''Approval rejected by '' @ ap_ApprovedBy a @ '': '' @ ap_Comments a;
               x = put_status stepID (st\<lparr>ss_Status := ''failed'', ss_CompletedAt := Some now, ss_Error := err\<rparr>) x;
               x = (if ws_OnFailure step = ''fail_workflow''
                    then x\<lparr>ex_Status := ''failed'', ex_Error := err, ex_CompletedAt := Some now\<rparr> else x)
           in (Inr (x, []), s)
         else
           case fmlookup (ws_Config step) ''escalate_to'' of
             Some (VStr escalateTo) \<Rightarrow>
               (case en_broadcast en of
                  Some e \<Rightarrow> (Inl (EWrap ''failed to notify escalation'' (EExternal e)), s)
                | None \<Rightarrow> (Inr (put_status stepID (st\<lparr>ss_Output :=
                    fmupd ''escalated_to'' (VStr escalateTo) (ss_Output st)\<rparr>) x, []), s))
           | _ \<Rightarrow> (Inr (put_status stepID st x, []), s))"

definition SubmitApproval ::
  "env \<Rightarrow> uuid \<Rightarrow> string \<Rightarrow> approval option \<Rightarrow> wf_service \<Rightarrow> (svc_error + string list) \<times> wf_service" where
  "SubmitApproval en eid stepID aopt s =
     (case CheckRateLimit en ''approval:submit'' of Some e \<Rightarrow> (Inl e, s) | None \<Rightarrow>
     (case aopt of None \<Rightarrow> (Inl (EValidation (ValidationError ''approval'' ''required'')), s) | Some a \<Rightarrow>
     (if ap_ApprovedBy a = '''' then (Inl (EValidation (ValidationError ''approved_by'' ''required'')), s) else
     (case getExecution en eid s of (Inl e, s) \<Rightarrow> (Inl e, s) | (Inr x, s) \<Rightarrow>
     (case authorize en ''workflow_approval'' ''submit'' ''submit approval'' of Some e \<Rightarrow> (Inl e, s) | None \<Rightarrow>
     (case fmlookup (ex_StepStatuses x) stepID of
        None \<Rightarrow> (Inl (EValidation (ValidationError ''step_id'' (''step '' @ stepID @ '' not found in execution''))), s)
      | Some st \<Rightarrow>
     (if ss_Status st \<noteq> ''awaiting_approval''
      then (Inl (EValidation (ValidationError ''status'' (''step '' @ stepID
              @ '' is not awaiting approval, current status: '' @ ss_Status st))), s) else
     (case getWorkflow en (ex_WorkflowID x) s of
        (Inl e, s) \<Rightarrow> (Inl (EWrap ''failed to get workflow'' e), s)
      | (Inr w, s) \<Rightarrow>
     (case List.find (\<lambda>step. ws_ID step = stepID) (GetSteps w) of
        None \<Rightarrow> (Inl (EValidation (ValidationError ''step_id'' (''step '' @ stepID @ '' not found in workflow definition''))), s)
      | Some step \<Rightarrow>
     (case apply_approval en a step stepID st x s of
        (Inl e, s) \<Rightarrow> (Inl e, s)
      | (Inr (x, started), s) \<Rightarrow>
          (case update_row en (x\<lparr>ex_UpdatedAt := en_now en\<rparr>) s of
             (Some e, s) \<Rightarrow> (Inl e, s)
           | (None, s) \<Rightarrow> (Inr started, drop_execution eid s))))))))))))"

section \<open>The step machine completes a workflow\<close>

definition step_status_of :: "execution \<Rightarrow> string \<Rightarrow> string" where
  "step_status_of x i = (case fmlookup (ex_StepStatuses x) i of None \<Rightarrow> '''' | Some st \<Rightarrow> ss_Status st)"

text \<open>The execution a client drives: start the first step, then complete each step in the order of the list.\<close>

fun drive :: "go_time \<Rightarrow> workflow_step list \<Rightarrow> string list \<Rightarrow> execution \<Rightarrow> execution option" where
  "drive now steps [] x = Some x"
| "drive now steps (i # is) x =
     (case fmlookup (ex_StepStatuses x) i of
        None \<Rightarrow> None
      | Some st \<Rightarrow>
          if ss_Status st \<noteq> ''running'' then None
          else (case complete_step now steps i st None x of None \<Rightarrow> None | Some x \<Rightarrow> drive now steps is x))"

lemma step_status_of_put [simp]: "step_status_of (put_status i st x) j = (if j = i then ss_Status st else step_status_of x j)"
  by (simp add: step_status_of_def put_status_def)

lemma step_status_of_cong [simp]:
  "step_status_of (x\<lparr>ex_CurrentStepID := c\<rparr>) = step_status_of x" "step_status_of (x\<lparr>ex_Status := s\<rparr>) = step_status_of x"
  "step_status_of (x\<lparr>ex_CompletedAt := t\<rparr>) = step_status_of x"
  by (simp_all add: step_status_of_def fun_eq_iff)

lemma step_status_of_Some: "step_status_of x i \<noteq> '''' \<Longrightarrow> \<exists>st. fmlookup (ex_StepStatuses x) i = Some st \<and> ss_Status st = step_status_of x i"
  by (auto simp: step_status_of_def split: option.splits)

lemma step_index_nth:
  assumes "distinct (map ws_ID steps)" and "k < length steps"
  shows "step_index steps (ws_ID (steps ! k)) = k"
proof -
  have "takeWhile (\<lambda>step. ws_ID step \<noteq> ws_ID (steps ! k)) steps = take k steps"
    using assms by (intro takeWhile_eq_take_P_nth) (auto simp: distinct_conv_nth)
  then show ?thesis using assms(2) by (auto simp: step_index_def)
qed

definition stage :: "workflow_step list \<Rightarrow> nat \<Rightarrow> execution \<Rightarrow> bool" where
  "stage steps k x \<longleftrightarrow> (\<forall>j < length steps. step_status_of x (ws_ID (steps ! j)) =
     (if j < k then ''completed'' else if j = k then ''running'' else ''pending''))"

lemma set_next_status:
  "step_status_of x i \<noteq> '''' \<Longrightarrow> \<exists>x'. set_next now i x = Some x' \<and> step_status_of x' = (step_status_of x)(i := ''running'')"
  using step_status_of_Some [of x i] by (auto simp: set_next_def fun_eq_iff)

lemma complete_stage:
  assumes d: "distinct (map ws_ID steps)" and k: "Suc k < length steps" and st: "stage steps k x"
    and s: "fmlookup (ex_StepStatuses x) (ws_ID (steps ! k)) = Some s"
  shows "\<exists>x'. complete_step now steps (ws_ID (steps ! k)) s None x = Some x' \<and> stage steps (Suc k) x'"
proof -
  let ?x = "put_status (ws_ID (steps ! k)) (s\<lparr>ss_Status := ''completed'', ss_CompletedAt := Some now\<rparr>) x"
  have ne: "ws_ID (steps ! i) \<noteq> ws_ID (steps ! j)" if "i < length steps" "j < length steps" "i \<noteq> j" for i j
    using that d by (auto simp: distinct_conv_nth)
  have "step_status_of ?x (ws_ID (steps ! Suc k)) = ''pending''"
    using ne [of "Suc k" k] k st by (simp add: stage_def)
  then have "step_status_of ?x (ws_ID (steps ! Suc k)) \<noteq> ''''" by simp
  then obtain x' where x': "set_next now (ws_ID (steps ! Suc k)) ?x = Some x'"
    "step_status_of x' = (step_status_of ?x)(ws_ID (steps ! Suc k) := ''running'')"
    using set_next_status by blast
  moreover have "stage steps (Suc k) x'"
    using st k ne by (auto simp: stage_def x'(2) less_Suc_eq)
  ultimately show ?thesis
    using step_index_nth [OF d, of k] k by (simp add: complete_step_def Let_def)
qed

lemma drive_stage:
  assumes d: "distinct (map ws_ID steps)" and "k < length steps" and "stage steps k x"
  shows "\<exists>x'. drive now steps (map ws_ID (drop k steps)) x = Some x' \<and> ex_Status x' = ''completed''
    \<and> (\<forall>step \<in> set steps. step_status_of x' (ws_ID step) = ''completed'')"
  using assms(2,3)
proof (induction "length steps - k" arbitrary: k x)
  case 0
  then show ?case by simp
next
  case (Suc m)
  let ?i = "ws_ID (steps ! k)"
  have dr: "map ws_ID (drop k steps) = ?i # map ws_ID (drop (Suc k) steps)"
    using Suc.prems(1) by (metis Cons_nth_drop_Suc list.simps(9))
  have run: "step_status_of x ?i = ''running''" using Suc.prems by (simp add: stage_def)
  then obtain s where s: "fmlookup (ex_StepStatuses x) ?i = Some s" "ss_Status s = ''running''"
    using step_status_of_Some [of x ?i] by auto
  show ?case
  proof (cases "Suc k < length steps")
    case True
    then obtain x1 where x1: "complete_step now steps ?i s None x = Some x1" "stage steps (Suc k) x1"
      using complete_stage [OF d True Suc.prems(2) s(1)] by blast
    have "\<exists>x'. drive now steps (map ws_ID (drop (Suc k) steps)) x1 = Some x' \<and> ex_Status x' = ''completed''
        \<and> (\<forall>step \<in> set steps. step_status_of x' (ws_ID step) = ''completed'')"
      using Suc.hyps(1) [OF _ True x1(2)] Suc.hyps(2) by simp
    then show ?thesis using s x1(1) by (simp add: dr)
  next
    case False
    then have last: "k = length steps - 1" "drop (Suc k) steps = []" using Suc.prems(1) by auto
    have "step_status_of x (ws_ID step) = ''completed'' \<or> ws_ID step = ?i" if "step \<in> set steps" for step
      using that Suc.prems False by (auto simp: stage_def in_set_conv_nth) (metis less_SucE not_less_eq)
    then show ?thesis
      using s step_index_nth [OF d Suc.prems(1)] False last(2)
      by (auto simp: dr complete_step_def Let_def put_status_def [symmetric])
  qed
qed

lemma validated_steps: "validateWorkflow w = None \<Longrightarrow> distinct (map ws_ID (wf_Steps w)) \<and> wf_Steps w \<noteq> []"
  by (auto simp: validateWorkflow_def GetSteps_def check_steps_None error_chain_None split: if_splits)

lemma init_statuses_pending:
  "i \<in> ws_ID ` set steps \<Longrightarrow> \<exists>st. fmlookup (init_statuses steps) i = Some st \<and> ss_Status st = ''pending''"
proof -
  let ?f = "\<lambda>m step. fmupd (ws_ID step) \<lparr>ss_StepID = ws_ID step, ss_Status = ''pending'', ss_Output = fmempty,
      ss_Error = '''', ss_StartedAt = None, ss_CompletedAt = None, ss_RetryCount = 0\<rparr> m"
  have "\<exists>st. fmlookup (foldl ?f m steps) i = Some st \<and> ss_Status st = ''pending''"
    if "i \<in> ws_ID ` set steps \<or> (\<exists>st. fmlookup m i = Some st \<and> ss_Status st = ''pending'')" for m
    using that by (induction steps arbitrary: m) auto
  then show "i \<in> ws_ID ` set steps \<Longrightarrow> ?thesis" by (simp add: init_statuses_def)
qed



section \<open>The step interface over the repository\<close>

text \<open>The step interface cannot move a stored execution: with the Postgres repository, completing,
  failing or retrying a step and submitting an approval always fail, and no row changes, because
  the execution is loaded without the step statuses these handlers look the step up in.
\<close>

theorem step_interface_stuck:
  assumes "db_ok (sv_db s)"
  shows "(\<exists>e s'. CompleteStep en eid stepID output s = Failed e s' \<and> sv_db s' = sv_db s)
    \<and> (\<exists>e s'. FailStep en eid stepID reason details s = Failed e s' \<and> sv_db s' = sv_db s)
    \<and> (\<exists>e s'. RetryStep en eid stepID s = Failed e s' \<and> sv_db s' = sv_db s)
    \<and> (\<exists>e s'. SubmitApproval en eid stepID aopt s = (Inl e, s') \<and> sv_db s' = sv_db s)"
proof -
  obtain r s1 where g: "getExecution en eid s = (r, s1)" by (cases "getExecution en eid s")
  have db: "sv_db s1 = sv_db s" using getExecution_db [of en eid s] g by simp
  have x: "ex_StepStatuses x = fmempty" if "r = Inr x" for x
    using getExecution_runtime(1) [OF assms] g that by blast
  show ?thesis
    using g db x
    by (cases r) (auto simp: CompleteStep_def FailStep_def RetryStep_def SubmitApproval_def split: option.split)
qed

theorem step_interface_stuck_witness:
  "db_ok (sv_db (demo ''running'')) \<and> (\<exists>e s'. CompleteStep (demo_env 0) 8 ''a'' None (demo ''running'') = Failed e s')"
  using step_interface_stuck [OF demo_ok] demo_ok by blast

text \<open>The progress reported for an execution is a percentage: it lies between 0 and 100, and it is
  100 when every one of a non-empty set of steps is completed (for fewer than \<open>2 ^ 53\<close> steps).
\<close>

theorem execution_progress_bounds:
  assumes "length (all_statuses x) < 2 ^ 53"
  shows "0 \<le> execution_progress x \<and> execution_progress x \<le> 100
    \<and> (all_statuses x \<noteq> [] \<and> set (all_statuses x) = {''completed''} \<longrightarrow> execution_progress x = 100)"
proof -
  let ?t = "length (all_statuses x)" and ?c = "count_status ''completed'' x"
  have c: "?c \<le> ?t" by (simp add: count_status_def)
  have exact: "f64_of_int (int ?c) = of_nat ?c" "f64_of_int (int ?t) = of_nat ?t"
    using assms c by simp_all
  define p where "p = f64_mul (f64_div (of_nat ?c) (of_nat ?t)) 100"
  have "f64_div (of_nat ?c) (of_nat ?t) \<le> 1" if "?t \<noteq> 0"
    using f64_round_le_int [of 1 "of_nat ?c / of_nat ?t"] c that by (simp add: f64_div_def divide_le_eq)
  moreover have "0 \<le> f64_div (of_nat ?c) (of_nat ?t)" by (simp add: f64_div_def f64_round_nonneg)
  ultimately have p: "0 \<le> p" "?t \<noteq> 0 \<Longrightarrow> p \<le> 100"
    using f64_round_le_int [of 100 "f64_div (of_nat ?c) (of_nat ?t) * 100"]
    by (simp_all add: p_def f64_mul_def f64_round_nonneg)
  have full: "p = 100" if "?c = ?t" "?t \<noteq> 0"
    using that f64_round_of_int [of 100] f64_round_of_int [of 1] by (simp add: p_def f64_div_def f64_mul_def)
  have fl: "\<lfloor>p\<rfloor> \<le> 100 \<and> 0 \<le> \<lfloor>p\<rfloor>" if "?t \<noteq> 0"
    using p that by (simp add: floor_le_iff)
  then have e: "execution_progress x = (if ?t = 0 then 0 else \<lfloor>p\<rfloor>)"
  proof (cases "?t = 0")
    case False
    then have "- (2 ^ 63) \<le> \<lfloor>p\<rfloor> \<and> \<lfloor>p\<rfloor> < 2 ^ 63" using fl by simp
    then have "f64_to_int64 0 p = \<lfloor>p\<rfloor>" using p(1) by (simp only: f64_to_int64_def Let_def if_True simp_thms)
    then show ?thesis using False by (simp add: execution_progress_def exact p_def)
  qed (simp add: execution_progress_def)
  have "?c = ?t" if "set (all_statuses x) = {''completed''}"
    using that by (simp add: count_status_def)
  then show ?thesis
    using e full fl by auto
qed

definition demo_done :: execution where
  "demo_done = put_status ''a'' \<lparr>ss_StepID = ''a'', ss_Status = ''completed'', ss_Output = fmempty,
     ss_Error = '''', ss_StartedAt = None, ss_CompletedAt = None, ss_RetryCount = 0\<rparr> (demo_execution ''running'')"

theorem execution_progress_bounds_witness: "execution_progress demo_done = 100"
proof -
  have "all_statuses demo_done = [''completed'']"
    by (simp add: all_statuses_def demo_done_def put_status_def demo_execution_def zero_execution_def
        go_range_def sorted_list_of_fmap_def sorted_list_of_fset.rep_eq)
  then show ?thesis using execution_progress_bounds [of demo_done] by simp
qed

end
