(* ===== verification/Go_Float.thy ===== *)
theory Go_Float
  imports Float64 "HOL-Library.Multiset"
begin

text \<open>
  Go's \<open>float64\<close> with the values a division can produce: finite doubles (as in \<open>Float64\<close>), the
  two infinities and NaN.  A finite zero is taken as positive.  Comparisons with NaN are false.
  \<open>sort.Slice\<close> is an argument of the operations that call it, with the promise \<open>slice_sort\<close>: the
  result is a permutation, and it is ordered when the comparison is a strict weak order on the
  elements.
\<close>

section \<open>Model\<close>

datatype gofloat = Fin rat | PInf | NInf | NaN

definition fl_neg :: "gofloat \<Rightarrow> gofloat" where
  "fl_neg x = (case x of Fin a \<Rightarrow> Fin (- a) | PInf \<Rightarrow> NInf | NInf \<Rightarrow> PInf | NaN \<Rightarrow> NaN)"

definition fl_add :: "gofloat \<Rightarrow> gofloat \<Rightarrow> gofloat" where
  "fl_add x y =
     (case (x, y) of
        (NaN, _) \<Rightarrow> NaN | (_, NaN) \<Rightarrow> NaN
      | (Fin a, Fin b) \<Rightarrow> Fin (f64_add a b)
      | (PInf, NInf) \<Rightarrow> NaN | (NInf, PInf) \<Rightarrow> NaN
      | (PInf, _) \<Rightarrow> PInf | (_, PInf) \<Rightarrow> PInf
      | (NInf, _) \<Rightarrow> NInf | (_, NInf) \<Rightarrow> NInf)"

text \<open>An infinity with the sign of \<open>a\<close>, as a product or quotient with an infinite or zero operand gives it.\<close>

definition signed_inf :: "rat \<Rightarrow> gofloat" where
  "signed_inf a = (if 0 < a then PInf else if a < 0 then NInf else NaN)"

definition fl_mul :: "gofloat \<Rightarrow> gofloat \<Rightarrow> gofloat" where
  "fl_mul x y =
     (case (x, y) of
        (NaN, _) \<Rightarrow> NaN | (_, NaN) \<Rightarrow> NaN
      | (Fin a, Fin b) \<Rightarrow> Fin (f64_mul a b)
      | (Fin a, PInf) \<Rightarrow> signed_inf a | (PInf, Fin a) \<Rightarrow> signed_inf a
      | (Fin a, NInf) \<Rightarrow> fl_neg (signed_inf a) | (NInf, Fin a) \<Rightarrow> fl_neg (signed_inf a)
      | (PInf, PInf) \<Rightarrow> PInf | (NInf, NInf) \<Rightarrow> PInf | (PInf, NInf) \<Rightarrow> NInf | (NInf, PInf) \<Rightarrow> NInf)"

definition fl_div :: "gofloat \<Rightarrow> gofloat \<Rightarrow> gofloat" where
  "fl_div x y =
     (case (x, y) of
        (NaN, _) \<Rightarrow> NaN | (_, NaN) \<Rightarrow> NaN
      | (Fin a, Fin b) \<Rightarrow> if b = 0 then signed_inf a else Fin (f64_div a b)
      | (Fin a, _) \<Rightarrow> Fin 0
      | (PInf, Fin b) \<Rightarrow> if b < 0 then NInf else PInf
      | (NInf, Fin b) \<Rightarrow> if b < 0 then PInf else NInf
      | _ \<Rightarrow> NaN)"

definition fl_less :: "gofloat \<Rightarrow> gofloat \<Rightarrow> bool" where
  "fl_less x y =
     (case (x, y) of
        (Fin a, Fin b) \<Rightarrow> a < b
      | (NInf, Fin _) \<Rightarrow> True | (NInf, PInf) \<Rightarrow> True | (Fin _, PInf) \<Rightarrow> True
      | _ \<Rightarrow> False)"

section \<open>Sorting\<close>

definition weak_order :: "('a \<Rightarrow> 'a \<Rightarrow> bool) \<Rightarrow> 'a set \<Rightarrow> bool" where
  "weak_order lt X \<longleftrightarrow>
     (\<forall>x \<in> X. \<not> lt x x) \<and> (\<forall>x \<in> X. \<forall>y \<in> X. \<forall>z \<in> X. lt x y \<longrightarrow> lt y z \<longrightarrow> lt x z)
     \<and> (\<forall>x \<in> X. \<forall>y \<in> X. \<forall>z \<in> X. lt x y \<longrightarrow> lt x z \<or> lt z y)"

lemma weak_order_subset: "weak_order lt Y \<Longrightarrow> X \<subseteq> Y \<Longrightarrow> weak_order lt X"
  unfolding weak_order_def by (meson subsetD)

lemma weak_orderD:
  assumes "weak_order lt X" and "x \<in> X" and "y \<in> X" and "z \<in> X"
  shows "\<not> lt x x" and "lt x y \<Longrightarrow> \<not> lt y x" and "lt x y \<Longrightarrow> lt x z \<or> lt z y"
  using assms unfolding weak_order_def by blast+

definition slice_sort :: "(('a \<Rightarrow> 'a \<Rightarrow> bool) \<Rightarrow> 'a list \<Rightarrow> 'a list) \<Rightarrow> bool" where
  "slice_sort srt \<longleftrightarrow> (\<forall>lt xs. mset (srt lt xs) = mset xs
     \<and> (weak_order lt (set xs) \<longrightarrow> sorted_wrt (\<lambda>a b. \<not> lt b a) (srt lt xs)))"

lemma slice_sort_mset: "slice_sort srt \<Longrightarrow> mset (srt lt xs) = mset xs"
  by (simp add: slice_sort_def)

lemma slice_sort_set: "slice_sort srt \<Longrightarrow> set (srt lt xs) = set xs"
  by (metis mset_eq_setD slice_sort_mset)

lemma slice_sort_length: "slice_sort srt \<Longrightarrow> length (srt lt xs) = length xs"
  by (metis mset_eq_length slice_sort_mset)

lemma slice_sort_hd:
  assumes "slice_sort srt" and "weak_order lt (set xs)" and "xs \<noteq> []"
  shows "hd (srt lt xs) \<in> set xs" and "y \<in> set xs \<Longrightarrow> \<not> lt y (hd (srt lt xs))"
proof -
  let ?ys = "srt lt xs"
  have ne: "?ys \<noteq> []" using slice_sort_length [OF assms(1), of lt xs] assms(3) by auto
  then show hd: "hd ?ys \<in> set xs" using slice_sort_set [OF assms(1)] hd_in_set by metis
  have "sorted_wrt (\<lambda>a b. \<not> lt b a) ?ys" using assms(1,2) by (simp add: slice_sort_def)
  then have "\<forall>y \<in> set (tl ?ys). \<not> lt y (hd ?ys)" using ne by (cases ?ys) auto
  moreover have "\<not> lt (hd ?ys) (hd ?ys)" using assms(2) hd by (auto simp: weak_order_def)
  moreover have "set xs = insert (hd ?ys) (set (tl ?ys))"
    using slice_sort_set [OF assms(1), of lt xs] ne by (metis list.collapse list.simps(15))
  ultimately show "y \<in> set xs \<Longrightarrow> \<not> lt y (hd ?ys)" by auto
qed

lemma weak_order_fin:
  assumes "\<And>x. x \<in> X \<Longrightarrow> key x = Fin (f x)"
  shows "weak_order (\<lambda>x y. fl_less (key x) (key y)) X" and "weak_order (\<lambda>x y. fl_less (key y) (key x)) X"
  using assms by (auto simp: weak_order_def fl_less_def)

lemma weak_order_not_nan:
  assumes "\<And>x. x \<in> X \<Longrightarrow> key x \<noteq> NaN"
  shows "weak_order (\<lambda>x y. fl_less (key x) (key y)) X"
proof -
  have "fl_less a c \<or> fl_less c b" if "fl_less a b" "c \<noteq> NaN" for a b c
    using that by (cases a; cases b; cases c) (auto simp: fl_less_def)
  moreover have "fl_less a c" if "fl_less a b" "fl_less b c" for a b c
    using that by (cases a; cases b; cases c) (auto simp: fl_less_def)
  moreover have "\<not> fl_less a a" for a by (cases a) (auto simp: fl_less_def)
  ultimately show ?thesis using assms unfolding weak_order_def by meson
qed

text \<open>Insertion sort keeps the promise.\<close>

fun insert_by :: "('a \<Rightarrow> 'a \<Rightarrow> bool) \<Rightarrow> 'a \<Rightarrow> 'a list \<Rightarrow> 'a list" where
  "insert_by lt x [] = [x]"
| "insert_by lt x (y # ys) = (if lt y x then y # insert_by lt x ys else x # y # ys)"

definition insertion_sort :: "('a \<Rightarrow> 'a \<Rightarrow> bool) \<Rightarrow> 'a list \<Rightarrow> 'a list" where
  "insertion_sort lt xs = foldr (insert_by lt) xs []"

lemma mset_insert_by [simp]: "mset (insert_by lt x xs) = add_mset x (mset xs)"
  by (induction xs) auto

lemma set_insert_by [simp]: "set (insert_by lt x xs) = insert x (set xs)"
  by (metis mset_insert_by set_mset_add_mset_insert set_mset_mset)

lemma mset_insertion_sort [simp]: "mset (insertion_sort lt xs) = mset xs"
  unfolding insertion_sort_def by (induction xs) auto

lemma sorted_insert_by:
  assumes "weak_order lt (insert x (set xs))" and "sorted_wrt (\<lambda>a b. \<not> lt b a) xs"
  shows "sorted_wrt (\<lambda>a b. \<not> lt b a) (insert_by lt x xs)"
  using assms
proof (induction xs)
  case (Cons y ys)
  note w = Cons.prems(1)
  have ws: "weak_order lt (insert x (set ys))" using w by (rule weak_order_subset) auto
  show ?case
  proof (cases "lt y x")
    case True
    then have "\<not> lt x y" using weak_orderD(2) [OF w, of y x x] by simp
    then show ?thesis using True Cons.IH [OF ws] Cons.prems(2) by auto
  next
    case False
    have "\<not> lt z x" if "z \<in> set ys" for z
      using weak_orderD(3) [OF w, of z x y] False Cons.prems(2) that by auto
    then show ?thesis using False Cons.prems(2) by auto
  qed
qed simp

lemma slice_sort_insertion: "slice_sort insertion_sort"
proof -
  have "sorted_wrt (\<lambda>a b. \<not> lt b a) (insertion_sort lt xs)" if "weak_order lt (set xs)" for lt and xs :: "'a list"
    using that
  proof (induction xs)
    case (Cons x xs)
    have "weak_order lt (set xs)" using Cons.prems by (rule weak_order_subset) auto
    moreover have "set (insertion_sort lt xs) = set xs" by (metis mset_insertion_sort set_mset_mset)
    ultimately show ?case using Cons.IH Cons.prems sorted_insert_by [of lt x "insertion_sort lt xs"]
      by (simp add: insertion_sort_def)
  qed (simp add: insertion_sort_def)
  then show ?thesis by (simp add: slice_sort_def)
qed

end
