(* ===== verification/Assignment_Engine.thy ===== *)
theory Assignment_Engine
  imports Json_Values Go_Float Rate_Limiter
begin

text \<open>
  The assignment of tasks to agents (\<open>pkg/services/assignment_engine.go\<close>): the eligibility filter,
  the choice of a strategy, the five strategies with their caches and the helper functions.  The
  agent service, the rule engine, \<open>sort.Slice\<close> and \<open>rand.Intn\<close> are the record \<open>world\<close>: what
  they answer during one call.  A result \<open>None\<close> is a panic; logging and metrics are left out,
  but where the code dereferences a nil pointer to build a log entry the model panics.
\<close>

section \<open>Model: data\<close>

record agent =
  ag_ID :: string
  ag_TenantID :: uuid
  ag_Status :: string
  ag_Capabilities :: "string list"
  ag_Metadata :: "(string, gval) fmap option"

record task =
  tk_TenantID :: uuid
  tk_Type :: string
  tk_Priority :: string
  tk_Parameters :: "(string, gval) fmap option"
  tk_TimeoutSeconds :: int

record workload =
  aw_ActiveTasks :: int
  aw_QueuedTasks :: int
  aw_LoadScore :: rat

record rule =
  ru_ID :: string
  ru_Name :: string
  ru_Category :: string

record decision =
  de_Allowed :: bool
  de_Metadata :: "(string, gval) fmap option"

record task_metrics =
  tm_Count :: int
  tm_SuccessRate :: rat
  tm_AverageTime :: rat

record performance =
  pf_TasksCompleted :: int
  pf_TasksFailed :: int
  pf_AverageCompletionTime :: rat
  pf_SuccessRate :: rat
  pf_LoadFactor :: rat
  pf_SpeedScore :: rat
  pf_TaskTypeMetrics :: "(string, task_metrics) fmap option"

datatype assign_error = ErrNoEligibleAgents | ErrNoCapableAgent | EAgentService string | ERuleEngine string

datatype strategy = RoundRobin | LeastLoaded | CapabilityMatch | PerformanceBased | CostOptimized

type_synonym pick = "(assign_error + agent) option"

record rule_engine =
  re_GetRules :: "string + rule list"
  re_Evaluate :: "string \<Rightarrow> agent option \<Rightarrow> string + decision option"

record world =
  wd_now :: go_time
  wd_GetAvailableAgents :: "string + agent list"
  wd_GetAgentCapabilities :: "string \<Rightarrow> string + string list"
  wd_GetAgentWorkload :: "string \<Rightarrow> string + workload"
  wd_GetAgent :: "string \<Rightarrow> string + agent"
  wd_rules :: "rule_engine option"
  wd_sort :: "(agent \<times> gofloat \<Rightarrow> agent \<times> gofloat \<Rightarrow> bool) \<Rightarrow> (agent \<times> gofloat) list \<Rightarrow> (agent \<times> gofloat) list"
  wd_Intn :: "nat \<Rightarrow> nat"
  wd_ovf :: int

record engine =
  ae_strategies :: "(string, strategy) fmap"
  ae_workloadCache :: "(string, workload \<times> go_time) fmap"
  ae_cacheDuration :: duration
  ae_counter :: u64
  ae_performanceCache :: "(string, performance \<times> go_time) fmap"
  ae_perfDuration :: duration

definition RegisterStrategy :: "string \<Rightarrow> strategy \<Rightarrow> engine \<Rightarrow> engine" where
  "RegisterStrategy name st e = e\<lparr>ae_strategies := fmupd name st (ae_strategies e)\<rparr>"

definition NewAssignmentEngine :: engine where
  "NewAssignmentEngine =
     RegisterStrategy ''cost_optimized'' CostOptimized
       (RegisterStrategy ''performance_based'' PerformanceBased
         (RegisterStrategy ''capability_match'' CapabilityMatch
           (RegisterStrategy ''least_loaded'' LeastLoaded
             (RegisterStrategy ''round_robin'' RoundRobin
               \<lparr>ae_strategies = fmempty, ae_workloadCache = fmempty, ae_cacheDuration = 30 * second,
                ae_counter = 0, ae_performanceCache = fmempty, ae_perfDuration = 5 * minute\<rparr>))))"

definition option_list :: "'a option \<Rightarrow> 'a list" where
  "option_list x = (case x of None \<Rightarrow> [] | Some a \<Rightarrow> [a])"

section \<open>Model: eligibility\<close>

definition extractRequiredCapabilities :: "task \<Rightarrow> string list" where
  "extractRequiredCapabilities t =
     (if tk_Type t \<noteq> '''' then [tk_Type t] else [])
     @ List.map_filter as_string (as_items (at_key (tk_Parameters t) ''required_capabilities''))
     @ map ((@) ''lang:'') (option_list (as_string (at_key (tk_Parameters t) ''language'')))
     @ map ((@) ''env:'') (option_list (as_string (at_key (tk_Parameters t) ''environment'')))
     @ map ((@) ''tool:'') (option_list (as_string (at_key (tk_Parameters t) ''tool'')))"

definition hasRequiredCapabilities :: "agent \<Rightarrow> string list \<Rightarrow> string list \<Rightarrow> bool" where
  "hasRequiredCapabilities a agentCaps requiredCaps =
     (if requiredCaps = [] then True
      else
        let capSet = set agentCaps \<union> set (ag_Capabilities a)
        in list_all (\<lambda>req. \<not> (req \<notin> capSet \<and> ''all'' \<notin> capSet)) requiredCaps)"

definition isAgentOverloaded :: "world \<Rightarrow> string \<Rightarrow> engine \<Rightarrow> bool \<times> engine" where
  "isAgentOverloaded wd agentID e =
     (let cacheKey = ''workload_'' @ agentID;
          fresh = (case wd_GetAgentWorkload wd agentID of
             Inl err \<Rightarrow> (False, e)
           | Inr w \<Rightarrow> (f64_round (8 / 10) < aw_LoadScore w \<or> 10 < aw_ActiveTasks w,
                       e\<lparr>ae_workloadCache := fmupd cacheKey (w, wd_now wd) (ae_workloadCache e)\<rparr>))
      in case fmlookup (ae_workloadCache e) cacheKey of
           Some (w, timestamp) \<Rightarrow>
             if time_sub (wd_now wd) timestamp < ae_cacheDuration e
             then (f64_round (8 / 10) < aw_LoadScore w, e)
             else fresh
         | None \<Rightarrow> fresh)"

fun filter_agents :: "world \<Rightarrow> task \<Rightarrow> agent list \<Rightarrow> engine \<Rightarrow> agent list \<times> engine" where
  "filter_agents wd t [] e = ([], e)"
| "filter_agents wd t (a # as) e =
     (if ag_TenantID a \<noteq> tk_TenantID t then filter_agents wd t as e
      else if ag_Status a \<noteq> ''active'' then filter_agents wd t as e
      else case wd_GetAgentCapabilities wd (ag_ID a) of
             Inl err \<Rightarrow> filter_agents wd t as e
           | Inr capabilities \<Rightarrow>
               if \<not> hasRequiredCapabilities a capabilities (extractRequiredCapabilities t)
               then filter_agents wd t as e
               else
                 let (overloaded, e) = isAgentOverloaded wd (ag_ID a) e;
                     (rest, e) = filter_agents wd t as e
                 in (if overloaded then rest else a # rest, e))"

text \<open>The rules for one agent, in order; a nil decision panics when its reason is logged.\<close>

fun passes_rules :: "rule_engine \<Rightarrow> agent \<Rightarrow> rule list \<Rightarrow> bool option" where
  "passes_rules re a [] = Some True"
| "passes_rules re a (r # rs) =
     (case re_Evaluate re (ru_ID r) (Some a) of
        Inl err \<Rightarrow> Some False
      | Inr None \<Rightarrow> None
      | Inr (Some d) \<Rightarrow> if \<not> de_Allowed d then Some False else passes_rules re a rs)"

fun rule_filter :: "rule_engine \<Rightarrow> rule list \<Rightarrow> agent list \<Rightarrow> agent list option" where
  "rule_filter re rs [] = Some []"
| "rule_filter re rs (a # as) =
     (case passes_rules re a rs of
        None \<Rightarrow> None
      | Some ok \<Rightarrow> (case rule_filter re rs as of
            None \<Rightarrow> None | Some rest \<Rightarrow> Some (if ok then a # rest else rest)))"

definition getEligibleAgents ::
  "world \<Rightarrow> task \<Rightarrow> rule list \<Rightarrow> engine \<Rightarrow> (assign_error + agent list) option \<times> engine" where
  "getEligibleAgents wd t rules e =
     (case wd_GetAvailableAgents wd of
        Inl err \<Rightarrow> (Some (Inl (EAgentService err)), e)
      | Inr agents \<Rightarrow>
          let (eligible, e) = filter_agents wd t agents e
          in case wd_rules wd of
               Some re \<Rightarrow>
                 if rules \<noteq> [] \<and> eligible \<noteq> []
                 then (map_option Inr (rule_filter re rules eligible), e)
                 else (Some (Inr eligible), e)
             | None \<Rightarrow> (Some (Inr eligible), e))"

section \<open>Model: choice of a strategy\<close>

definition rule_strategy :: "world \<Rightarrow> rule_engine \<Rightarrow> engine \<Rightarrow> rule \<Rightarrow> strategy option" where
  "rule_strategy wd re e r =
     (if ru_Name r = ''assignment_strategy'' \<or> ru_Category r = ''assignment'' then
        (case re_Evaluate re (ru_ID r) None of
           Inr (Some d) \<Rightarrow>
             if de_Allowed d then
               (case as_string (at_key (de_Metadata d) ''strategy'') of
                  Some name \<Rightarrow> fmlookup (ae_strategies e) name
                | None \<Rightarrow> None)
             else None
         | _ \<Rightarrow> None)
      else None)"

definition default_strategy_name :: "task \<Rightarrow> string" where
  "default_strategy_name t =
     (if tk_Type t \<in> {''build'', ''deploy''} then ''least_loaded''
      else if tk_Type t = ''test'' then ''capability_match''
      else if tk_Type t \<in> {''monitor'', ''health_check''} then ''round_robin''
      else if tk_Type t \<in> {''backup'', ''restore''} then ''performance_based''
      else if tk_Type t \<in> {''data_processing'', ''analysis''} then
        (case at_key (tk_Parameters t) ''data_size'' of
           VInt n \<Rightarrow> if 1000000 < n then ''cost_optimized'' else ''least_loaded''
         | _ \<Rightarrow> ''least_loaded'')
      else ''capability_match'')"

text \<open>A name that is not registered gives a nil strategy: \<open>None\<close>.\<close>

definition determineStrategy :: "world \<Rightarrow> task \<Rightarrow> rule list \<Rightarrow> engine \<Rightarrow> strategy option" where
  "determineStrategy wd t rules e =
     (if tk_Priority t \<in> {''high'', ''critical''} then fmlookup (ae_strategies e) ''performance_based''
      else if at_key (tk_Parameters t) ''cost_sensitive'' = VBool True
      then fmlookup (ae_strategies e) ''cost_optimized''
      else
        let byRule = (case wd_rules wd of
               None \<Rightarrow> None
             | Some re \<Rightarrow> List.find (\<lambda>s. s \<noteq> None) (map (rule_strategy wd re e) rules))
        in case byRule of
             Some (Some st) \<Rightarrow> Some st
           | _ \<Rightarrow> fmlookup (ae_strategies e) (default_strategy_name t))"

section \<open>Model: strategies\<close>

definition rr_Assign :: "world \<Rightarrow> task \<Rightarrow> agent list \<Rightarrow> engine \<Rightarrow> pick \<times> engine" where
  "rr_Assign wd t agents e =
     (if agents = [] then (Some (Inl ErrNoEligibleAgents), e)
      else
        let index = ae_counter e mod of_nat (length agents)
        in (Some (Inr (agents ! unat index)), e\<lparr>ae_counter := ae_counter e + 1\<rparr>))"

definition load_score :: "world \<Rightarrow> agent \<Rightarrow> rat" where
  "load_score wd a =
     (let w = (case wd_GetAgentWorkload wd (ag_ID a) of
            Inl err \<Rightarrow> \<lparr>aw_ActiveTasks = 0, aw_QueuedTasks = 0, aw_LoadScore = f64_round (1 / 10)\<rparr>
          | Inr w \<Rightarrow> w);
          loadScore = f64_add (f64_mul (f64_of_int (aw_ActiveTasks w)) (f64_round (7 / 10)))
            (f64_mul (f64_of_int (aw_QueuedTasks w)) (f64_round (3 / 10)))
      in if 0 < aw_LoadScore w
         then f64_div (f64_add loadScore (f64_mul (aw_LoadScore w) 100)) 2
         else loadScore)"

definition ll_Assign :: "world \<Rightarrow> task \<Rightarrow> agent list \<Rightarrow> engine \<Rightarrow> pick \<times> engine" where
  "ll_Assign wd t agents e =
     (if agents = [] then (Some (Inl ErrNoEligibleAgents), e)
      else
        let agentLoads = wd_sort wd (\<lambda>x y. fl_less (snd x) (snd y)) (map (\<lambda>a. (a, Fin (load_score wd a))) agents);
            minLoad = snd (hd agentLoads);
            candidates = takeWhile (\<lambda>al. snd al = minLoad) agentLoads;
            selectedIndex = (if 1 < length candidates then wd_Intn wd (length candidates) else 0)
        in (Some (Inr (fst (candidates ! selectedIndex))), e))"

definition getCapabilityDetails :: "string list \<Rightarrow> string list \<Rightarrow> string list \<times> string list" where
  "getCapabilityDetails agentCaps requiredCaps =
     partition (\<lambda>req. req \<in> set agentCaps \<or> ''all'' \<in> set agentCaps) requiredCaps"

definition relevanceMap :: "(string, string list) fmap" where
  "relevanceMap = fmap_of_list
     [(''build'', [''docker'', ''maven'', ''gradle'', ''npm'', ''go'', ''make'']),
      (''test'', [''junit'', ''pytest'', ''jest'', ''go-test'', ''selenium'']),
      (''deploy'', [''kubernetes'', ''docker'', ''terraform'', ''ansible'', ''helm'']),
      (''monitor'', [''prometheus'', ''grafana'', ''datadog'', ''newrelic''])]"

definition isRelevantCapability :: "string \<Rightarrow> string \<Rightarrow> bool" where
  "isRelevantCapability capability taskType \<longleftrightarrow>
     capability = taskType \<or> capability \<in> set (fmget [] relevanceMap taskType)"

definition capability_score :: "task \<Rightarrow> agent \<Rightarrow> gofloat" where
  "capability_score t a =
     (let requiredCaps = extractRequiredCapabilities t;
          (matched, missing) = getCapabilityDetails (ag_Capabilities a) requiredCaps;
          score = fl_div (Fin (f64_of_int (int (length matched)))) (Fin (f64_of_int (int (length requiredCaps))));
          extraScore = foldl (\<lambda>s cap. if isRelevantCapability cap (tk_Type t) \<and> cap \<notin> set requiredCaps
             then f64_add s (f64_round (1 / 10)) else s) 0 (ag_Capabilities a);
          extraScore = (if f64_round (3 / 10) < extraScore then f64_round (3 / 10) else extraScore)
      in fl_add score (Fin extraScore))"

definition cm_Assign :: "world \<Rightarrow> task \<Rightarrow> agent list \<Rightarrow> engine \<Rightarrow> pick \<times> engine" where
  "cm_Assign wd t agents e =
     (if agents = [] then (Some (Inl ErrNoEligibleAgents), e)
      else
        let requiredCaps = extractRequiredCapabilities t;
            scores = wd_sort wd (\<lambda>x y. fl_less (snd y) (snd x)) (map (\<lambda>a. (a, capability_score t a)) agents);
            eligibleScores = filter (\<lambda>as. snd (getCapabilityDetails (ag_Capabilities (fst as)) requiredCaps) = []) scores
        in case eligibleScores of
             [] \<Rightarrow> (Some (Inl ErrNoCapableAgent), e)
           | selected # _ \<Rightarrow> (Some (Inr (fst selected)), e))"


section \<open>Model: the performance strategy\<close>

definition i64_sub :: "int \<Rightarrow> int \<Rightarrow> int" where
  "i64_sub m n = sint (word_of_int (m - n) :: 64 word)"

definition float_or :: "rat \<Rightarrow> gval \<Rightarrow> rat" where
  "float_or d v = (case as_float v of None \<Rightarrow> d | Some x \<Rightarrow> x)"

definition read_task_metrics :: "int \<Rightarrow> (string \<times> gval) list \<Rightarrow> task_metrics" where
  "read_task_metrics ovf m =
     \<lparr>tm_Count = f64_to_int64 ovf (float_or 0 (at_key (Some (fmap_of_list m)) ''count'')),
      tm_SuccessRate = float_or 0 (at_key (Some (fmap_of_list m)) ''success_rate''),
      tm_AverageTime = float_or 0 (at_key (Some (fmap_of_list m)) ''average_time'')\<rparr>"

definition task_type_metrics :: "int \<Rightarrow> gval \<Rightarrow> (string, task_metrics) fmap option" where
  "task_type_metrics ovf v =
     (case v of
        VMap kvs \<Rightarrow> Some (fmap_of_list (List.map_filter
          (\<lambda>(k, w). case w of VMap m \<Rightarrow> Some (k, read_task_metrics ovf m) | _ \<Rightarrow> None) kvs))
      | _ \<Rightarrow> None)"

definition default_performance :: performance where
  "default_performance =
     \<lparr>pf_TasksCompleted = 0, pf_TasksFailed = 0, pf_AverageCompletionTime = 300,
      pf_SuccessRate = f64_round (8 / 10), pf_LoadFactor = f64_round (1 / 2),
      pf_SpeedScore = f64_round (7 / 10), pf_TaskTypeMetrics = None\<rparr>"

text \<open>The load factor and the speed score, from the current workload.\<close>

definition load_and_speed :: "world \<Rightarrow> string \<Rightarrow> rat \<times> rat" where
  "load_and_speed wd agentID =
     (case wd_GetAgentWorkload wd agentID of
        Inr w \<Rightarrow> (aw_LoadScore w,
          if aw_LoadScore w < f64_round (3 / 10) then f64_round (9 / 10)
          else if aw_LoadScore w < f64_round (7 / 10) then f64_round (7 / 10)
          else f64_round (5 / 10))
      | Inl err \<Rightarrow> (f64_round (5 / 10), f64_round (7 / 10)))"

definition metadata_performance :: "int \<Rightarrow> rat \<times> rat \<Rightarrow> (string, gval) fmap \<Rightarrow> performance" where
  "metadata_performance ovf ls md =
     (let completed = f64_to_int64 ovf (float_or 0 (fmget VNil md ''tasks_completed''));
          failed = f64_to_int64 ovf (float_or 0 (fmget VNil md ''tasks_failed''))
      in \<lparr>pf_TasksCompleted = completed, pf_TasksFailed = failed,
          pf_AverageCompletionTime = float_or 300 (fmget VNil md ''avg_completion_time''),
          pf_SuccessRate = (if 0 < completed
             then f64_div (f64_of_int (i64_sub completed failed)) (f64_of_int completed)
             else f64_round (8 / 10)),
          pf_LoadFactor = fst ls, pf_SpeedScore = snd ls,
          pf_TaskTypeMetrics = task_type_metrics ovf (fmget VNil md ''task_type_metrics'')\<rparr>)"

definition adjust_for_type :: "string \<Rightarrow> performance \<Rightarrow> performance" where
  "adjust_for_type taskType p =
     (case Option.bind (pf_TaskTypeMetrics p) (\<lambda>m. fmlookup m taskType) of
        None \<Rightarrow> p
      | Some tm \<Rightarrow>
          let p = (if 0 < tm_SuccessRate tm then p\<lparr>pf_SuccessRate := tm_SuccessRate tm\<rparr> else p)
          in if 0 < tm_AverageTime tm then p\<lparr>pf_AverageCompletionTime := tm_AverageTime tm\<rparr> else p)"

text \<open>An agent whose metadata is nil takes the default branch with a nil error, and the log entry
  of that branch reads the error: a panic.\<close>

definition getAgentPerformance :: "world \<Rightarrow> string \<Rightarrow> string \<Rightarrow> engine \<Rightarrow> performance option \<times> engine" where
  "getAgentPerformance wd agentID taskType e =
     (let cacheKey = ''perf_'' @ agentID @ ''_'' @ taskType;
          store = (\<lambda>p. let p = adjust_for_type taskType p
             in (Some p, e\<lparr>ae_performanceCache := fmupd cacheKey (p, wd_now wd) (ae_performanceCache e)\<rparr>));
          fresh = (case wd_GetAgent wd agentID of
             Inl err \<Rightarrow> store default_performance
           | Inr a \<Rightarrow> (case ag_Metadata a of
                 None \<Rightarrow> (None, e)
               | Some md \<Rightarrow> store (metadata_performance (wd_ovf wd) (load_and_speed wd agentID) md)))
      in case fmlookup (ae_performanceCache e) cacheKey of
           Some (p, timestamp) \<Rightarrow>
             if ae_perfDuration e = 0 \<or> time_sub (wd_now wd) timestamp < ae_perfDuration e
             then (Some p, e) else fresh
         | None \<Rightarrow> fresh)"

definition calculatePerformance :: "performance \<Rightarrow> task \<Rightarrow> rat" where
  "calculatePerformance p t =
     (let expectedTime = (if 0 < tk_TimeoutSeconds t then f64_of_int (tk_TimeoutSeconds t) else 300);
          speedScore = (if 0 < pf_AverageCompletionTime p
             then let ratio = f64_div expectedTime (pf_AverageCompletionTime p);
                      ratio = (if 2 < ratio then 2 else ratio)
                  in f64_div ratio 2
             else pf_SpeedScore p);
          availabilityScore = f64_sub 1 (pf_LoadFactor p);
          (successWeight, speedWeight, availabilityWeight) =
            (if tk_Priority t \<in> {''high'', ''critical''}
             then (f64_round (45 / 100), f64_round (4 / 10), f64_round (15 / 100))
             else (f64_round (5 / 10), f64_round (3 / 10), f64_round (2 / 10)));
          score = f64_add (f64_add (f64_mul (pf_SuccessRate p) successWeight) (f64_mul speedScore speedWeight))
             (f64_mul availabilityScore availabilityWeight);
          score = (if 10 < pf_TasksFailed p \<and> pf_SuccessRate p < f64_round (7 / 10)
             then f64_mul score (f64_round (8 / 10)) else score);
          score = (if 100 < pf_TasksCompleted p \<and> f64_round (95 / 100) < pf_SuccessRate p
             then f64_mul score (f64_round (11 / 10)) else score)
      in if 1 < score then 1 else score)"

fun score_performance :: "world \<Rightarrow> task \<Rightarrow> agent list \<Rightarrow> engine \<Rightarrow> (agent \<times> gofloat) list option \<times> engine" where
  "score_performance wd t [] e = (Some [], e)"
| "score_performance wd t (a # as) e =
     (case getAgentPerformance wd (ag_ID a) (tk_Type t) e of
        (None, e) \<Rightarrow> (None, e)
      | (Some p, e) \<Rightarrow>
          let (rest, e) = score_performance wd t as e
          in (map_option ((#) (a, Fin (calculatePerformance p t))) rest, e))"

definition pb_Assign :: "world \<Rightarrow> task \<Rightarrow> agent list \<Rightarrow> engine \<Rightarrow> pick \<times> engine" where
  "pb_Assign wd t agents e =
     (if agents = [] then (Some (Inl ErrNoEligibleAgents), e)
      else case score_performance wd t agents e of
        (None, e) \<Rightarrow> (None, e)
      | (Some ps, e) \<Rightarrow> (Some (Inr (fst (hd (wd_sort wd (\<lambda>x y. fl_less (snd y) (snd x)) ps)))), e))"

section \<open>Model: the cost strategy\<close>

definition isFirstTimeTaskType :: "agent \<Rightarrow> string \<Rightarrow> bool" where
  "isFirstTimeTaskType a taskType =
     (if ag_Metadata a = None then True
      else if (case at_key (ag_Metadata a) ''task_history'' of
             VMap kvs \<Rightarrow> taskType \<in> fst ` set kvs | _ \<Rightarrow> False) then False
      else (case at_key (ag_Metadata a) (taskType @ ''_completed'') of
             VInt n \<Rightarrow> \<not> 0 < n | _ \<Rightarrow> True))"

definition first_float :: "(string, gval) fmap option \<Rightarrow> string list \<Rightarrow> rat option" where
  "first_float md ks = (case List.map_filter (\<lambda>k. as_float (at_key md k)) ks of [] \<Rightarrow> None | x # _ \<Rightarrow> Some x)"

definition total_cost :: "task \<Rightarrow> agent \<Rightarrow> gofloat" where
  "total_cost t a =
     (let md = ag_Metadata a;
          defaultEstimatedHours = (case as_float (at_key (tk_Parameters t) ''estimated_duration'') of
            Some d \<Rightarrow> f64_div d 3600 | None \<Rightarrow> 1);
          hourlyRate = (case first_float md [''hourly_rate'', ''cost_per_hour'', ''rate''] of
            Some r \<Rightarrow> r | None \<Rightarrow> 10);
          estimatedHours = (case first_float md [''avg_'' @ tk_Type t @ ''_time'', ''avg_task_time''] of
            Some avg \<Rightarrow> f64_div avg 3600 | None \<Rightarrow> defaultEstimatedHours);
          estimatedHours = (case as_float (at_key md ''performance_factor'') of
            Some pf \<Rightarrow> fl_div (Fin estimatedHours) (Fin pf) | None \<Rightarrow> Fin estimatedHours);
          totalCost = fl_mul (Fin hourlyRate) estimatedHours;
          totalCost = (case as_float (at_key md ''overhead_cost'') of
            Some overhead \<Rightarrow> fl_add totalCost (Fin overhead) | None \<Rightarrow> totalCost);
          totalCost = (case as_float (at_key md ''setup_cost'') of
            Some setupCost \<Rightarrow> if isFirstTimeTaskType a (tk_Type t) then fl_add totalCost (Fin setupCost) else totalCost
          | None \<Rightarrow> totalCost)
      in case as_float (at_key (tk_Parameters t) ''complexity'') of
           Some complexity \<Rightarrow> fl_mul totalCost (Fin (f64_add 1 (f64_div complexity 10)))
         | None \<Rightarrow> totalCost)"

definition co_Assign :: "world \<Rightarrow> task \<Rightarrow> agent list \<Rightarrow> engine \<Rightarrow> pick \<times> engine" where
  "co_Assign wd t agents e =
     (if agents = [] then (Some (Inl ErrNoEligibleAgents), e)
      else (Some (Inr (fst (hd (wd_sort wd (\<lambda>x y. fl_less (snd x) (snd y))
              (map (\<lambda>a. (a, total_cost t a)) agents))))), e))"

section \<open>Model: the engine\<close>

definition Assign :: "strategy option \<Rightarrow> world \<Rightarrow> task \<Rightarrow> agent list \<Rightarrow> engine \<Rightarrow> pick \<times> engine" where
  "Assign st wd t agents e =
     (case st of
        None \<Rightarrow> (None, e)
      | Some RoundRobin \<Rightarrow> rr_Assign wd t agents e
      | Some LeastLoaded \<Rightarrow> ll_Assign wd t agents e
      | Some CapabilityMatch \<Rightarrow> cm_Assign wd t agents e
      | Some PerformanceBased \<Rightarrow> pb_Assign wd t agents e
      | Some CostOptimized \<Rightarrow> co_Assign wd t agents e)"

definition FindBestAgent :: "world \<Rightarrow> task \<Rightarrow> engine \<Rightarrow> pick \<times> engine" where
  "FindBestAgent wd t e =
     (case (case wd_rules wd of None \<Rightarrow> Inr [] | Some re \<Rightarrow> re_GetRules re) of
        Inl err \<Rightarrow> (Some (Inl (ERuleEngine err)), e)
      | Inr assignmentRules \<Rightarrow>
          (case getEligibleAgents wd t assignmentRules e of
             (None, e) \<Rightarrow> (None, e)
           | (Some (Inl err), e) \<Rightarrow> (Some (Inl err), e)
           | (Some (Inr eligibleAgents), e) \<Rightarrow>
               if eligibleAgents = [] then (Some (Inl ErrNoEligibleAgents), e)
               else Assign (determineStrategy wd t assignmentRules e) wd t eligibleAgents e))"

end
