(* ===== verification/Assignment_Guarantees.thy ===== *)
theory Assignment_Guarantees
  imports Assignment_Engine
begin

text \<open>
  What the assignment engine promises (\<open>pkg/services/assignment_engine.go\<close>).  The interface
  \<open>AssignmentStrategy\<close> is the locale \<open>assignment_strategy\<close>, interpreted on the five strategies and
  on the engine's dispatch; the eligibility filter is characterised, and each strategy has the
  optimum it promises.
\<close>

section \<open>What the engine relies on\<close>

text \<open>\<open>sort.Slice\<close> sorts, \<open>rand.Intn(n)\<close> is below \<open>n\<close>, and the agent list is a Go slice.\<close>

definition world_ok :: "world \<Rightarrow> bool" where
  "world_ok wd \<longleftrightarrow> slice_sort (wd_sort wd) \<and> (\<forall>n. 0 < n \<longrightarrow> wd_Intn wd n < n)
     \<and> (case wd_GetAvailableAgents wd of Inl err \<Rightarrow> True | Inr agents \<Rightarrow> length agents < 2 ^ 63)"

lemma world_okD:
  assumes "world_ok wd"
  shows "slice_sort (wd_sort wd)" and "0 < n \<Longrightarrow> wd_Intn wd n < n"
    and "wd_GetAvailableAgents wd = Inr agents \<Longrightarrow> length agents < 2 ^ 63"
  using assms by (auto simp: world_ok_def)

section \<open>The strategy interface\<close>

locale assignment_strategy =
  fixes assign :: "world \<Rightarrow> task \<Rightarrow> agent list \<Rightarrow> engine \<Rightarrow> pick \<times> engine"
  assumes assign_member: "world_ok wd \<Longrightarrow> agents \<noteq> [] \<Longrightarrow> length agents < 2 ^ 63 \<Longrightarrow>
      assign wd t agents e = (Some (Inr a), e') \<Longrightarrow> a \<in> set agents"
    and assign_keeps: "assign wd t agents e = (r, e') \<Longrightarrow>
      ae_strategies e' = ae_strategies e \<and> ae_workloadCache e' = ae_workloadCache e"
begin

lemma assign_predicate:
  assumes "world_ok wd" and "agents \<noteq> []" and "length agents < 2 ^ 63" and "list_all P agents"
    and "assign wd t agents e = (Some (Inr a), e')"
  shows "P a"
  using assign_member [OF assms(1-3) assms(5)] assms(4) by (simp add: list_all_iff)

end

lemma sorted_hd_member:
  assumes "slice_sort srt" and "agents \<noteq> []"
  shows "fst (hd (srt lt (map (\<lambda>a. (a, f a)) agents))) \<in> set agents"
proof -
  let ?ys = "srt lt (map (\<lambda>a. (a, f a)) agents)"
  have "?ys \<noteq> []" using slice_sort_length [OF assms(1), of lt "map (\<lambda>a. (a, f a)) agents"] assms(2) by auto
  then have "hd ?ys \<in> (\<lambda>a. (a, f a)) ` set agents"
    using slice_sort_set [OF assms(1), of lt "map (\<lambda>a. (a, f a)) agents"] hd_in_set [of ?ys] by simp
  then show ?thesis by auto
qed

lemma unat_mod_length:
  assumes "agents \<noteq> []" and "length agents < 2 ^ 63"
  shows "unat (c mod of_nat (length agents) :: u64) = unat c mod length agents"
    and "unat (c mod of_nat (length agents) :: u64) < length agents"
proof -
  have "unat (of_nat (length agents) :: u64) = length agents"
    using assms(2) by (simp add: unat_of_nat)
  then show "unat (c mod of_nat (length agents) :: u64) = unat c mod length agents"
    by (simp add: unat_mod)
  then show "unat (c mod of_nat (length agents) :: u64) < length agents"
    using assms(1) by simp
qed

lemma ll_candidates:
  fixes f :: "agent \<Rightarrow> rat"
  assumes "slice_sort srt" and "agents \<noteq> []"
    and "ys = srt (\<lambda>x y. fl_less (snd x) (snd y)) (map (\<lambda>a. (a, Fin (f a))) agents)"
    and "c \<in> set (takeWhile (\<lambda>al. snd al = snd (hd ys)) ys)"
  shows "fst c \<in> set agents \<and> (\<forall>b \<in> set agents. f (fst c) \<le> f b)"
proof -
  let ?xs = "map (\<lambda>a. (a, Fin (f a))) agents"
  let ?lt = "\<lambda>x y :: agent \<times> gofloat. fl_less (snd x) (snd y)"
  have wo: "weak_order ?lt (set ?xs)" by (rule weak_order_fin(1) [where f = "\<lambda>x. f (fst x)"]) auto
  have c: "c \<in> set ys" "snd c = snd (hd ys)" using assms(4) by (auto dest: set_takeWhileD)
  then have "c \<in> set ?xs" using slice_sort_set [OF assms(1)] assms(3) by simp
  moreover have "\<not> ?lt y (hd ys)" if "y \<in> set ?xs" for y
    using slice_sort_hd(2) [OF assms(1) wo _ that] assms(2,3) by simp
  ultimately obtain a where a: "a \<in> set agents" "c = (a, Fin (f a))"
    and le: "\<And>y. y \<in> set ?xs \<Longrightarrow> \<not> fl_less (snd y) (snd c)" unfolding c(2) by auto
  have "f a \<le> f b" if "b \<in> set agents" for b
    using le [of "(b, Fin (f b))"] that a(2) by (simp add: fl_less_def)
  then show ?thesis using a by simp
qed

lemma ll_Assign_pick:
  assumes "world_ok wd" and "agents \<noteq> []"
  obtains a where "ll_Assign wd t agents e = (Some (Inr a), e)" and "a \<in> set agents"
    and "\<forall>b \<in> set agents. load_score wd a \<le> load_score wd b"
proof -
  define ys where "ys = wd_sort wd (\<lambda>x y. fl_less (snd x) (snd y)) (map (\<lambda>a. (a, Fin (load_score wd a))) agents)"
  define cs where "cs = takeWhile (\<lambda>al. snd al = snd (hd ys)) ys"
  define i where "i = (if 1 < length cs then wd_Intn wd (length cs) else 0)"
  have "ys \<noteq> []" using slice_sort_length [OF world_okD(1) [OF assms(1)]] assms(2) unfolding ys_def
    by (metis length_0_conv length_map)
  then have "cs \<noteq> []" unfolding cs_def by (cases ys) auto
  then have "i < length cs" using world_okD(2) [OF assms(1), of "length cs"] by (simp add: i_def)
  then have "cs ! i \<in> set cs" by simp
  then have "fst (cs ! i) \<in> set agents \<and> (\<forall>b \<in> set agents. load_score wd (fst (cs ! i)) \<le> load_score wd b)"
    using ll_candidates [OF world_okD(1) [OF assms(1)] assms(2) ys_def] by (simp add: cs_def)
  moreover have "ll_Assign wd t agents e = (Some (Inr (fst (cs ! i))), e)"
    using assms(2) by (simp add: ll_Assign_def Let_def ys_def [symmetric] cs_def [symmetric]) (simp add: i_def)
  ultimately show thesis using that by blast
qed

lemma score_performance_agents:
  "score_performance wd t as e = (Some ps, e') \<Longrightarrow> map fst ps = as"
  by (induction as arbitrary: e ps e') (auto split: prod.splits option.splits)

lemma getAgentPerformance_keeps:
  assumes "getAgentPerformance wd i ty e = (r, e')"
  shows "ae_strategies e' = ae_strategies e \<and> ae_workloadCache e' = ae_workloadCache e"
  using assms by (auto simp: getAgentPerformance_def Let_def split: option.splits sum.splits if_splits)

lemma score_performance_keeps:
  "score_performance wd t as e = (r, e') \<Longrightarrow>
     ae_strategies e' = ae_strategies e \<and> ae_workloadCache e' = ae_workloadCache e"
proof (induction as arbitrary: e r e')
  case (Cons a as)
  then show ?case
    by (auto split: prod.splits option.splits dest!: getAgentPerformance_keeps)
qed simp

interpretation rr: assignment_strategy rr_Assign
  by unfold_locales (auto simp: rr_Assign_def Let_def unat_mod_length split: if_splits)

interpretation ll: assignment_strategy ll_Assign
proof
  fix wd :: world and agents t e a e'
  assume "world_ok wd" "agents \<noteq> []" "ll_Assign wd t agents e = (Some (Inr a), e')"
  then show "a \<in> set agents" by (metis ll_Assign_pick Inr_inject option.inject prod.inject)
qed (auto simp: ll_Assign_def Let_def split: if_splits)

interpretation cm: assignment_strategy cm_Assign
proof
  fix wd :: world and agents t e a e'
  assume ok: "world_ok wd" and pick: "agents \<noteq> []" "cm_Assign wd t agents e = (Some (Inr a), e')"
  let ?ys = "wd_sort wd (\<lambda>x y. fl_less (snd y) (snd x)) (map (\<lambda>a. (a, capability_score t a)) agents)"
  have "a \<in> fst ` set ?ys"
    using pick by (auto simp: cm_Assign_def Let_def split: list.splits if_splits dest!: filter_eq_ConsD)
  then show "a \<in> set agents" using slice_sort_set [OF world_okD(1) [OF ok]] by auto
qed (auto simp: cm_Assign_def Let_def split: if_splits list.splits)

interpretation pb: assignment_strategy pb_Assign
proof
  fix wd :: world and agents t e a e'
  assume ok: "world_ok wd" and ne: "agents \<noteq> []" and pick: "pb_Assign wd t agents e = (Some (Inr a), e')"
  obtain ps where ps: "map fst ps = agents" "a = fst (hd (wd_sort wd (\<lambda>x y. fl_less (snd y) (snd x)) ps))"
    using pick ne by (auto simp: pb_Assign_def split: prod.splits option.splits dest: score_performance_agents)
  then have "hd (wd_sort wd (\<lambda>x y. fl_less (snd y) (snd x)) ps) \<in> set ps"
    using slice_sort_set [OF world_okD(1) [OF ok]] slice_sort_length [OF world_okD(1) [OF ok]] ne
    by (metis hd_in_set length_0_conv map_is_Nil_conv)
  then show "a \<in> set agents" using ps by auto
qed (auto simp: pb_Assign_def split: if_splits prod.splits option.splits dest!: score_performance_keeps)

interpretation co: assignment_strategy co_Assign
  by unfold_locales (auto simp: co_Assign_def sorted_hd_member [OF world_okD(1)] split: if_splits)

interpretation dispatch: assignment_strategy "Assign st" for st
proof
  fix wd :: world and agents t e a e'
  assume "world_ok wd" "agents \<noteq> []" "length agents < 2 ^ 63" "Assign st wd t agents e = (Some (Inr a), e')"
  then show "a \<in> set agents"
    using rr.assign_member ll.assign_member cm.assign_member pb.assign_member co.assign_member
    by (auto simp: Assign_def split: option.splits strategy.splits)
next
  fix wd :: world and agents t e r e'
  assume "Assign st wd t agents e = (r, e')"
  then show "ae_strategies e' = ae_strategies e \<and> ae_workloadCache e' = ae_workloadCache e"
    using rr.assign_keeps ll.assign_keeps cm.assign_keeps pb.assign_keeps co.assign_keeps
    by (auto simp: Assign_def split: option.splits strategy.splits)
qed


section \<open>A concrete world\<close>

definition agent1 :: agent where
  "agent1 = \<lparr>ag_ID = ''a1'', ag_TenantID = 7, ag_Status = ''active'', ag_Capabilities = [''monitor''],
     ag_Metadata = Some fmempty\<rparr>"

definition agent2 :: agent where
  "agent2 = \<lparr>ag_ID = ''a2'', ag_TenantID = 7, ag_Status = ''active'', ag_Capabilities = [], ag_Metadata = None\<rparr>"

definition agent3 :: agent where
  "agent3 = \<lparr>ag_ID = ''a3'', ag_TenantID = 8, ag_Status = ''active'', ag_Capabilities = [''monitor''],
     ag_Metadata = None\<rparr>"

definition monitor_task :: "string \<Rightarrow> task" where
  "monitor_task priority = \<lparr>tk_TenantID = 7, tk_Type = ''monitor'', tk_Priority = priority, tk_Parameters = None,
     tk_TimeoutSeconds = 0\<rparr>"

definition demo_world :: world where
  "demo_world =
     \<lparr>wd_now = 0, wd_GetAvailableAgents = Inr [agent3, agent1, agent2],
      wd_GetAgentCapabilities = (\<lambda>i. Inr (if i = ''a2'' then [''all''] else [])),
      wd_GetAgentWorkload = (\<lambda>i. if i = ''a1'' then Inl ''unreachable''
        else Inr \<lparr>aw_ActiveTasks = (if i = ''a2'' then 1 else 11), aw_QueuedTasks = 0, aw_LoadScore = 0\<rparr>),
      wd_GetAgent = (\<lambda>i. Inr (if i = ''a1'' then agent1 else if i = ''a2'' then agent2 else agent3)),
      wd_rules = None, wd_sort = insertion_sort, wd_Intn = (\<lambda>n. 0), wd_ovf = 0\<rparr>"

lemma world_ok_demo: "world_ok demo_world"
  by (simp add: world_ok_def demo_world_def slice_sort_insertion)

lemmas demo_defs = agent1_def agent2_def agent3_def

lemma monitor_task_simps [simp]:
  "tk_TenantID (monitor_task p) = 7" "tk_Type (monitor_task p) = ''monitor''" "tk_Priority (monitor_task p) = p"
  "tk_Parameters (monitor_task p) = None"
  by (simp_all add: monitor_task_def)

lemma demo_world_simps [simp]:
  "wd_now demo_world = 0" "wd_GetAvailableAgents demo_world = Inr [agent3, agent1, agent2]"
  "wd_GetAgentCapabilities demo_world i = Inr (if i = ''a2'' then [''all''] else [])"
  "wd_GetAgentWorkload demo_world i = (if i = ''a1'' then Inl ''unreachable''
     else Inr \<lparr>aw_ActiveTasks = (if i = ''a2'' then 1 else 11), aw_QueuedTasks = 0, aw_LoadScore = 0\<rparr>)"
  "wd_GetAgent demo_world i = Inr (if i = ''a1'' then agent1 else if i = ''a2'' then agent2 else agent3)"
  "wd_rules demo_world = None" "wd_sort demo_world = insertion_sort" "wd_Intn demo_world n = 0"
  by (simp_all add: demo_world_def)

lemma f64_round_tenths [simp]: "\<not> f64_round (4 / 5) < 0" "0 \<le> f64_round (4 / 5)"
  using f64_round_nonneg [of "4 / 5"] by auto

lemma extract_demo [simp]: "extractRequiredCapabilities (monitor_task p) = [''monitor'']"
  by (simp add: extractRequiredCapabilities_def at_key_def as_items_def option_list_def
      as_string_def map_filter_simps)

lemma FindBestAgent_demo:
  "FindBestAgent demo_world (monitor_task ''low'') NewAssignmentEngine
     = (Some (Inr agent1), snd (FindBestAgent demo_world (monitor_task ''low'') NewAssignmentEngine))"
proof -
  have "fst (FindBestAgent demo_world (monitor_task ''low'') NewAssignmentEngine) = Some (Inr agent1)"
    by (simp add: FindBestAgent_def getEligibleAgents_def isAgentOverloaded_def hasRequiredCapabilities_def
        Let_def NewAssignmentEngine_def RegisterStrategy_def determineStrategy_def default_strategy_name_def
        Assign_def rr_Assign_def at_key_def demo_defs)
  then show ?thesis by (metis prod.collapse)
qed

section \<open>Eligibility\<close>

definition eligible :: "world \<Rightarrow> task \<Rightarrow> agent \<Rightarrow> bool" where
  "eligible wd t a \<longleftrightarrow> ag_TenantID a = tk_TenantID t \<and> ag_Status a = ''active''
     \<and> (\<exists>caps. wd_GetAgentCapabilities wd (ag_ID a) = Inr caps
          \<and> (\<forall>req \<in> set (extractRequiredCapabilities t).
               {req, ''all''} \<inter> (set caps \<union> set (ag_Capabilities a)) \<noteq> {}))"

definition rules_allow :: "rule_engine \<Rightarrow> rule list \<Rightarrow> agent \<Rightarrow> bool" where
  "rules_allow re rs a \<longleftrightarrow> (\<forall>r \<in> set rs. \<exists>d. re_Evaluate re (ru_ID r) (Some a) = Inr (Some d) \<and> de_Allowed d)"

lemma hasRequiredCapabilities_iff:
  "hasRequiredCapabilities a caps reqs
     \<longleftrightarrow> (\<forall>req \<in> set reqs. {req, ''all''} \<inter> (set caps \<union> set (ag_Capabilities a)) \<noteq> {})"
  by (auto simp: hasRequiredCapabilities_def list_all_iff)

lemma filter_agents_Cons:
  assumes "filter_agents wd t (a # as) e = (xs, e')"
  obtains e1 rest where "filter_agents wd t as e1 = (rest, e')" and "xs = rest \<or> xs = a # rest \<and> eligible wd t a"
proof (cases "\<exists>caps. ag_TenantID a = tk_TenantID t \<and> ag_Status a = ''active''
    \<and> wd_GetAgentCapabilities wd (ag_ID a) = Inr caps \<and> hasRequiredCapabilities a caps (extractRequiredCapabilities t)")
  case True
  obtain over e1 rest e2 where "isAgentOverloaded wd (ag_ID a) e = (over, e1)" "filter_agents wd t as e1 = (rest, e2)"
    by (meson surj_pair)
  then show thesis using True assms that
    by (auto simp: eligible_def hasRequiredCapabilities_iff split: if_splits)
next
  case False
  then have "filter_agents wd t (a # as) e = filter_agents wd t as e" by (auto split: sum.splits)
  then show thesis using that assms by auto
qed

lemma filter_agents_sound:
  "filter_agents wd t as e = (xs, e') \<Longrightarrow> length xs \<le> length as \<and> (\<forall>x \<in> set xs. x \<in> set as \<and> eligible wd t x)"
proof (induction as arbitrary: e xs e')
  case (Cons a as)
  from Cons.prems obtain e1 rest where "filter_agents wd t as e1 = (rest, e')"
    and "xs = rest \<or> xs = a # rest \<and> eligible wd t a" by (rule filter_agents_Cons)
  then show ?case using Cons.IH [of e1 rest e'] by auto
qed simp

lemma isAgentOverloaded_keeps:
  "isAgentOverloaded wd i e = (b, e') \<Longrightarrow>
     ae_strategies e' = ae_strategies e \<and> ae_performanceCache e' = ae_performanceCache e"
  by (auto simp: isAgentOverloaded_def Let_def split: option.splits sum.splits if_splits prod.splits)

lemma filter_agents_keeps:
  "filter_agents wd t as e = (xs, e') \<Longrightarrow>
     ae_strategies e' = ae_strategies e \<and> ae_performanceCache e' = ae_performanceCache e"
proof (induction as arbitrary: e xs e')
  case (Cons a as)
  then show ?case
    by (auto split: sum.splits if_splits prod.splits dest!: isAgentOverloaded_keeps)
qed simp

lemma passes_rules_iff: "passes_rules re a rs = Some True \<longleftrightarrow> rules_allow re rs a"
  by (induction rs) (auto simp: rules_allow_def split: sum.splits option.splits)

lemma rule_filter_eq: "rule_filter re rs as = Some xs \<Longrightarrow> xs = filter (rules_allow re rs) as"
proof (induction as arbitrary: xs)
  case (Cons a as)
  then show ?case using passes_rules_iff [of re a rs] by (auto split: option.splits)
qed simp

lemma getEligibleAgents_sound:
  assumes "getEligibleAgents wd t rules e = (Some (Inr xs), e')" and "x \<in> set xs"
  shows "\<exists>agents. wd_GetAvailableAgents wd = Inr agents \<and> x \<in> set agents \<and> length xs \<le> length agents
           \<and> eligible wd t x \<and> (\<forall>re. wd_rules wd = Some re \<longrightarrow> rules_allow re rules x)"
proof -
  obtain agents where ag: "wd_GetAvailableAgents wd = Inr agents"
    using assms(1) by (auto simp: getEligibleAgents_def split: sum.splits)
  obtain ys e1 where f: "filter_agents wd t agents e = (ys, e1)" by (cases "filter_agents wd t agents e")
  have "set xs \<subseteq> set ys \<and> length xs \<le> length ys \<and> (\<forall>re. wd_rules wd = Some re \<longrightarrow> (\<forall>x \<in> set xs. rules_allow re rules x))"
    using assms(1) ag f
    by (auto simp: getEligibleAgents_def rules_allow_def split: option.splits if_splits dest!: rule_filter_eq)
  then show ?thesis using filter_agents_sound [OF f] assms(2) ag by auto
qed

lemma FindBestAgent_pick:
  assumes "world_ok wd" and "FindBestAgent wd t e = (Some (Inr a), e')"
  obtains rules agents where "(case wd_rules wd of None \<Rightarrow> Inr [] | Some re \<Rightarrow> re_GetRules re) = Inr rules"
    "wd_GetAvailableAgents wd = Inr agents" "a \<in> set agents" "eligible wd t a"
    "\<And>re. wd_rules wd = Some re \<Longrightarrow> rules_allow re rules a"
proof -
  obtain rules xs e1 where rules: "(case wd_rules wd of None \<Rightarrow> Inr [] | Some re \<Rightarrow> re_GetRules re) = Inr rules"
    and el: "getEligibleAgents wd t rules e = (Some (Inr xs), e1)" and ne: "xs \<noteq> []"
    and pick: "Assign (determineStrategy wd t rules e1) wd t xs e1 = (Some (Inr a), e')"
    using assms(2) by (auto simp: FindBestAgent_def split: sum.splits prod.splits option.splits if_splits)
  have "length xs < 2 ^ 63"
    using getEligibleAgents_sound [OF el] world_okD(3) [OF assms(1)] ne hd_in_set [of xs] by fastforce
  then have "a \<in> set xs" using dispatch.assign_member [OF assms(1) ne _ pick] by blast
  with that rules getEligibleAgents_sound [OF el this] show thesis by blast
qed

text \<open>C14 Whoever \<open>FindBestAgent\<close> assigns a task to is one of the agents the agent service offers, belongs
  to the task's tenant, is active, has every capability the task requires (or \<open>all\<close>), and passes every
  assignment rule of the rule engine: no choice of strategy can get around the filter.\<close>

theorem FindBestAgent_sound:
  assumes "world_ok wd" and "FindBestAgent wd t e = (Some (Inr a), e')"
  shows "(\<exists>agents. wd_GetAvailableAgents wd = Inr agents \<and> a \<in> set agents)
         \<and> ag_TenantID a = tk_TenantID t \<and> ag_Status a = ''active''
         \<and> (\<exists>caps. wd_GetAgentCapabilities wd (ag_ID a) = Inr caps
              \<and> (\<forall>req \<in> set (extractRequiredCapabilities t).
                   {req, ''all''} \<inter> (set caps \<union> set (ag_Capabilities a)) \<noteq> {}))
         \<and> (\<forall>re rules r. wd_rules wd = Some re \<and> re_GetRules re = Inr rules \<and> r \<in> set rules \<longrightarrow>
              (\<exists>d. re_Evaluate re (ru_ID r) (Some a) = Inr (Some d) \<and> de_Allowed d))"
  using assms
proof (rule FindBestAgent_pick)
  fix rules agents
  assume "(case wd_rules wd of None \<Rightarrow> Inr [] | Some re \<Rightarrow> re_GetRules re) = Inr rules"
    and a: "wd_GetAvailableAgents wd = Inr agents" "a \<in> set agents" "eligible wd t a"
    and "\<And>re. wd_rules wd = Some re \<Longrightarrow> rules_allow re rules a"
  then have "\<forall>re rules r. wd_rules wd = Some re \<and> re_GetRules re = Inr rules \<and> r \<in> set rules \<longrightarrow>
              (\<exists>d. re_Evaluate re (ru_ID r) (Some a) = Inr (Some d) \<and> de_Allowed d)"
    by (auto simp: rules_allow_def)
  with a show ?thesis unfolding eligible_def by blast
qed

theorem FindBestAgent_sound_witness:
  "ag_TenantID agent1 = 7 \<and> ag_TenantID agent3 \<noteq> 7 \<and> ag_Status agent1 = ''active''
   \<and> fst (FindBestAgent demo_world (monitor_task ''low'') NewAssignmentEngine) = Some (Inr agent1)"
  using FindBestAgent_sound [OF world_ok_demo FindBestAgent_demo] FindBestAgent_demo
  by (simp add: demo_defs) (metis fst_conv)

section \<open>Workload check\<close>

definition busy :: "world \<Rightarrow> agent \<Rightarrow> bool" where
  "busy wd a = (case wd_GetAgentWorkload wd (ag_ID a) of
     Inl err \<Rightarrow> False | Inr w \<Rightarrow> f64_round (8 / 10) < aw_LoadScore w \<or> 10 < aw_ActiveTasks w)"

lemma isAgentOverloaded_fresh:
  assumes "fmlookup (ae_workloadCache e) (''workload_'' @ ag_ID a) = None"
  shows "fst (isAgentOverloaded wd (ag_ID a) e) = busy wd a"
    and "i \<noteq> ag_ID a \<Longrightarrow>
      fmlookup (ae_workloadCache (snd (isAgentOverloaded wd (ag_ID a) e))) (''workload_'' @ i)
        = fmlookup (ae_workloadCache e) (''workload_'' @ i)"
  using assms by (auto simp: isAgentOverloaded_def busy_def Let_def split: sum.splits)

lemma filter_agents_skip:
  "\<not> eligible wd t a \<Longrightarrow> filter_agents wd t (a # as) e = filter_agents wd t as e"
  by (auto simp: eligible_def hasRequiredCapabilities_iff split: sum.splits)

lemma filter_agents_take:
  assumes "eligible wd t a" and "isAgentOverloaded wd (ag_ID a) e = (over, e1)"
    and "filter_agents wd t as e1 = (rest, e2)"
  shows "filter_agents wd t (a # as) e = (if over then rest else a # rest, e2)"
  using assms by (auto simp: eligible_def hasRequiredCapabilities_iff)

lemma filter_agents_exact:
  assumes "distinct (map ag_ID as)"
    and "\<forall>a \<in> set as. fmlookup (ae_workloadCache e) (''workload_'' @ ag_ID a) = None"
  shows "fst (filter_agents wd t as e) = filter (\<lambda>a. eligible wd t a \<and> \<not> busy wd a) as"
  using assms
proof (induction as arbitrary: e)
  case (Cons a as)
  obtain over e1 where o: "isAgentOverloaded wd (ag_ID a) e = (over, e1)" by fastforce
  obtain rest e2 where f: "filter_agents wd t as e1 = (rest, e2)" by fastforce
  have fresh: "fmlookup (ae_workloadCache e1) (''workload_'' @ ag_ID b) = None" if "b \<in> set as" for b
  proof -
    have "ag_ID b \<noteq> ag_ID a" using Cons.prems(1) that by (metis distinct.simps(2) image_eqI list.map(2) set_map)
    then show ?thesis using isAgentOverloaded_fresh(2) [of e a "ag_ID b" wd] o Cons.prems(2) that by simp
  qed
  show ?case
  proof (cases "eligible wd t a")
    case True
    moreover have "over = busy wd a" using isAgentOverloaded_fresh(1) [of e a wd] o Cons.prems(2) by simp
    moreover have "rest = filter (\<lambda>a. eligible wd t a \<and> \<not> busy wd a) as"
      using Cons.IH [of e1] Cons.prems(1) fresh f by simp
    ultimately show ?thesis using filter_agents_take [OF _ o f] by simp
  next
    case False
    then have "filter_agents wd t (a # as) e = filter_agents wd t as e" by (rule filter_agents_skip)
    then show ?thesis using Cons.IH [of e] Cons.prems False by (simp del: filter_agents.simps)
  qed
qed simp

lemma rule_filter_total:
  assumes "\<forall>a \<in> set as. \<forall>r \<in> set rs. re_Evaluate re (ru_ID r) (Some a) \<noteq> Inr None"
  shows "rule_filter re rs as = Some (filter (rules_allow re rs) as)"
proof -
  have "passes_rules re a rs \<noteq> None" if "\<forall>r \<in> set rs. re_Evaluate re (ru_ID r) (Some a) \<noteq> Inr None" for a
    using that by (induction rs) (auto split: sum.splits option.splits)
  then have "\<exists>xs. rule_filter re rs as = Some xs"
    using assms by (induction as) (auto split: option.splits)
  then show ?thesis using rule_filter_eq by blast
qed

text \<open>C28 With no workload cached for them, \<open>getEligibleAgents\<close> keeps exactly the agents of the tenant that
  are active, capable, not overloaded and admitted by every assignment rule, in the order the agent
  service gives them, provided the rule engine answers with a decision or an error.\<close>

theorem getEligibleAgents_exact:
  assumes "wd_GetAvailableAgents wd = Inr agents" and "distinct (map ag_ID agents)"
    and "\<forall>a \<in> set agents. fmlookup (ae_workloadCache e) (''workload_'' @ ag_ID a) = None"
    and "\<forall>re a r. wd_rules wd = Some re \<and> a \<in> set agents \<and> r \<in> set rules \<longrightarrow>
           re_Evaluate re (ru_ID r) (Some a) \<noteq> Inr None"
  shows "fst (getEligibleAgents wd t rules e)
         = Some (Inr (filter (\<lambda>a. eligible wd t a \<and> \<not> busy wd a
             \<and> (\<forall>re. wd_rules wd = Some re \<longrightarrow> rules_allow re rules a)) agents))"
proof -
  let ?xs = "filter (\<lambda>a. eligible wd t a \<and> \<not> busy wd a) agents"
  obtain e1 where f: "filter_agents wd t agents e = (?xs, e1)"
    using filter_agents_exact [OF assms(2,3), of wd t] by (cases "filter_agents wd t agents e") simp
  show ?thesis
  proof (cases "wd_rules wd")
    case None
    then show ?thesis using assms(1) f by (simp add: getEligibleAgents_def)
  next
    case (Some re)
    have "rule_filter re rules ?xs = Some (filter (rules_allow re rules) ?xs)"
      by (rule rule_filter_total) (use assms(4) Some in auto)
    then show ?thesis using assms(1) f Some
      by (auto simp: getEligibleAgents_def rules_allow_def conj_assoc filter_empty_conv intro!: filter_cong)
  qed
qed

theorem getEligibleAgents_exact_witness:
  "fst (getEligibleAgents demo_world (monitor_task ''low'') [] NewAssignmentEngine) = Some (Inr [agent1, agent2])"
  by (subst getEligibleAgents_exact [where agents = "[agent3, agent1, agent2]"])
    (simp_all add: NewAssignmentEngine_def RegisterStrategy_def eligible_def busy_def demo_defs)

text \<open>The overload check forgets the task limit: an agent with more than ten active tasks and a load
  score of at most 0.8 is overloaded when its workload is read, but the cached entry is judged by its
  load score alone, so for the next thirty seconds the same agent is not.\<close>

theorem isAgentOverloaded_forgets:
  assumes "fmlookup (ae_workloadCache e) (''workload_'' @ i) = None"
    and "wd_GetAgentWorkload wd i = Inr w" and "10 < aw_ActiveTasks w" and "aw_LoadScore w \<le> f64_round (8 / 10)"
    and "time_sub (wd_now wd') (wd_now wd) < ae_cacheDuration e"
  shows "fst (isAgentOverloaded wd i e) \<and> \<not> fst (isAgentOverloaded wd' i (snd (isAgentOverloaded wd i e)))"
  using assms by (simp add: isAgentOverloaded_def Let_def)

theorem isAgentOverloaded_forgets_witness:
  "fst (isAgentOverloaded demo_world ''a3'' NewAssignmentEngine)
   \<and> \<not> fst (isAgentOverloaded (demo_world\<lparr>wd_now := second\<rparr>) ''a3''
          (snd (isAgentOverloaded demo_world ''a3'' NewAssignmentEngine)))"
  by (rule isAgentOverloaded_forgets [where w = "\<lparr>aw_ActiveTasks = 11, aw_QueuedTasks = 0, aw_LoadScore = 0\<rparr>"])
    (simp_all add: NewAssignmentEngine_def RegisterStrategy_def time_sub_def second_def)

section \<open>What each strategy optimises\<close>

text \<open>The least-loaded strategy always picks one of the agents it is given, and no other has a lower
  load score, whatever \<open>rand.Intn\<close> answers among the equally loaded ones.\<close>

theorem ll_Assign_least_loaded:
  assumes "world_ok wd" and "agents \<noteq> []"
  shows "\<exists>a \<in> set agents. ll_Assign wd t agents e = (Some (Inr a), e)
           \<and> (\<forall>b \<in> set agents. load_score wd a \<le> load_score wd b)"
  using assms by (metis ll_Assign_pick)

theorem ll_Assign_least_loaded_witness:
  "\<exists>a \<in> set [agent1, agent2]. ll_Assign demo_world (monitor_task ''low'') [agent1, agent2] NewAssignmentEngine
       = (Some (Inr a), NewAssignmentEngine)
     \<and> (\<forall>b \<in> set [agent1, agent2]. load_score demo_world a \<le> load_score demo_world b)"
  by (rule ll_Assign_least_loaded [OF world_ok_demo]) simp

fun rr_run :: "nat \<Rightarrow> world \<Rightarrow> task \<Rightarrow> agent list \<Rightarrow> engine \<Rightarrow> pick list" where
  "rr_run 0 wd t agents e = []"
| "rr_run (Suc n) wd t agents e = (let (p, e) = rr_Assign wd t agents e in p # rr_run n wd t agents e)"

lemma rr_run_eq:
  assumes "agents \<noteq> []" and "length agents < 2 ^ 63" and "unat (ae_counter e) + n < 2 ^ 64"
  shows "rr_run n wd t agents e
           = map (\<lambda>i. Some (Inr (agents ! ((unat (ae_counter e) + i) mod length agents)))) [0..<n]"
  using assms(3)
proof (induction n arbitrary: e)
  case (Suc n)
  have "unat (ae_counter e + 1) = unat (ae_counter e) + 1"
    using Suc.prems by (subst unat_plus_simple [THEN iffD1]) (auto simp: no_olen_add_nat)
  moreover have "[0..<Suc n] = 0 # map Suc [0..<n]" by (simp add: upt_conv_Cons map_Suc_upt)
  ultimately show ?case using Suc.IH [of "e\<lparr>ae_counter := ae_counter e + 1\<rparr>"] Suc.prems assms(1,2)
    by (simp add: rr_Assign_def Let_def unat_mod_length o_def)
qed simp

lemma mset_rotate_map: "mset (map (\<lambda>i. xs ! ((k + i) mod length xs)) [0..<length xs]) = mset xs"
proof -
  have "map (\<lambda>i. xs ! ((k + i) mod length xs)) [0..<length xs] = rotate k xs"
    by (rule nth_equalityI) (auto simp: nth_rotate)
  then show ?thesis
    by (metis append_take_drop_id mset_append rotate_drop_take union_commute)
qed

text \<open>Round robin is fair: as long as its 64-bit counter does not wrap, one round of as many calls as
  there are agents assigns every agent exactly once.\<close>

theorem rr_Assign_fair:
  assumes "agents \<noteq> []" and "length agents < 2 ^ 63" and "unat (ae_counter e) + length agents < 2 ^ 64"
  shows "mset (rr_run (length agents) wd t agents e) = image_mset (\<lambda>a. Some (Inr a)) (mset agents)"
proof -
  have "rr_run (length agents) wd t agents e
      = map (\<lambda>a. Some (Inr a)) (map (\<lambda>i. agents ! ((unat (ae_counter e) + i) mod length agents)) [0..<length agents])"
    using rr_run_eq [OF assms] by simp
  then show ?thesis by (metis mset_map mset_rotate_map)
qed


theorem rr_Assign_fair_witness:
  "mset (rr_run 3 demo_world (monitor_task ''low'') [agent1, agent2, agent3] (NewAssignmentEngine\<lparr>ae_counter := 5\<rparr>))
     = {# Some (Inr agent1), Some (Inr agent2), Some (Inr agent3) #}"
  using rr_Assign_fair [of "[agent1, agent2, agent3]" "NewAssignmentEngine\<lparr>ae_counter := 5\<rparr>"
      demo_world "monitor_task ''low''"] by (simp add: numeral_3_eq_3)

lemma getCapabilityDetails_missing:
  "snd (getCapabilityDetails caps reqs) = [] \<longleftrightarrow> (\<forall>req \<in> set reqs. {req, ''all''} \<inter> set caps \<noteq> {})"
  by (auto simp: getCapabilityDetails_def filter_empty_conv)

lemma filter_hd_cases:
  obtains "filter P xs = []" "\<forall>x \<in> set xs. \<not> P x" | x ys where "filter P xs = x # ys" "x \<in> set xs" "P x"
proof (cases "filter P xs")
  case Nil
  then show thesis using that(1) by (simp add: filter_empty_conv)
next
  case (Cons x ys)
  then have "x \<in> set (filter P xs)" by simp
  then have "x \<in> set xs" and "P x" by simp_all
  then show thesis using that(2) Cons by blast
qed

text \<open>The capability strategy is exact on the agents' own capability lists: it assigns an agent that
  lists every required capability (or \<open>all\<close>) when there is one, and \<open>ErrNoCapableAgent\<close> otherwise.  It
  does not read the capabilities of the agent service, by which the filter may have let an agent through.\<close>

theorem cm_Assign_exact:
  fixes t :: task
  assumes "world_ok wd" and "agents \<noteq> []"
  defines "capable \<equiv> \<lambda>a. \<forall>req \<in> set (extractRequiredCapabilities t). {req, ''all''} \<inter> set (ag_Capabilities a) \<noteq> {}"
  shows "if \<exists>a \<in> set agents. capable a
         then \<exists>a \<in> set agents. capable a \<and> cm_Assign wd t agents e = (Some (Inr a), e)
         else cm_Assign wd t agents e = (Some (Inl ErrNoCapableAgent), e)"
proof -
  define P where "P = (\<lambda>as :: agent \<times> gofloat.
    snd (getCapabilityDetails (ag_Capabilities (fst as)) (extractRequiredCapabilities t)) = [])"
  have P: "P x \<longleftrightarrow> capable (fst x)" for x by (simp only: P_def capable_def getCapabilityDetails_missing)
  define ys where "ys = wd_sort wd (\<lambda>x y. fl_less (snd y) (snd x)) (map (\<lambda>a. (a, capability_score t a)) agents)"
  have set: "fst ` set ys = set agents"
    using slice_sort_set [OF world_okD(1) [OF assms(1)]] by (force simp: ys_def)
  have run: "cm_Assign wd t agents e = (case filter P ys of [] \<Rightarrow> (Some (Inl ErrNoCapableAgent), e)
      | selected # _ \<Rightarrow> (Some (Inr (fst selected)), e))"
    using assms(2) by (simp add: cm_Assign_def Let_def P_def ys_def)
  show ?thesis
  proof (rule filter_hd_cases [of P ys])
    assume "filter P ys = []" and "\<forall>x \<in> set ys. \<not> P x"
    then show ?thesis using run set P by fastforce
  next
    fix x zs
    assume "filter P ys = x # zs" "x \<in> set ys" "P x"
    then show ?thesis using run set P by auto
  qed
qed

theorem cm_Assign_exact_witness:
  "cm_Assign demo_world (monitor_task ''low'') [agent2] NewAssignmentEngine
     = (Some (Inl ErrNoCapableAgent), NewAssignmentEngine)"
  using cm_Assign_exact [OF world_ok_demo, of "[agent2]" "monitor_task ''low''" NewAssignmentEngine]
  by (simp add: agent2_def)

text \<open>The cost strategy picks the cheapest agent when no cost is NaN.  The cost is NaN exactly when a
  performance factor of zero meets a zero duration or a zero rate; then the comparison is no order and
  nothing is promised of the choice.\<close>

theorem co_Assign_cheapest:
  assumes "world_ok wd" and "agents \<noteq> []" and "\<forall>a \<in> set agents. total_cost t a \<noteq> NaN"
  shows "\<exists>a \<in> set agents. co_Assign wd t agents e = (Some (Inr a), e)
           \<and> (\<forall>b \<in> set agents. \<not> fl_less (total_cost t b) (total_cost t a))"
proof -
  let ?xs = "map (\<lambda>a. (a, total_cost t a)) agents"
  let ?lt = "\<lambda>x y :: agent \<times> gofloat. fl_less (snd x) (snd y)"
  have "weak_order ?lt (set ?xs)" by (rule weak_order_not_nan) (use assms(3) in auto)
  note s = slice_sort_hd [OF world_okD(1) [OF assms(1)] this]
  have "hd (wd_sort wd ?lt ?xs) \<in> set ?xs" using s(1) assms(2) by simp
  then obtain a where a: "a \<in> set agents" "hd (wd_sort wd ?lt ?xs) = (a, total_cost t a)" by auto
  have "\<not> fl_less (total_cost t b) (total_cost t a)" if "b \<in> set agents" for b
    using s(2) [of "(b, total_cost t b)"] assms(2) that a by auto
  then show ?thesis using a assms(2) by (auto simp: co_Assign_def)
qed

theorem co_Assign_cheapest_witness:
  "\<exists>a \<in> set [agent1, agent2]. co_Assign demo_world (monitor_task ''low'') [agent1, agent2] NewAssignmentEngine
       = (Some (Inr a), NewAssignmentEngine)
     \<and> (\<forall>b \<in> set [agent1, agent2].
          \<not> fl_less (total_cost (monitor_task ''low'') b) (total_cost (monitor_task ''low'') a))"
  by (rule co_Assign_cheapest [OF world_ok_demo])
    (simp_all add: total_cost_def at_key_def as_float_def first_float_def map_filter_simps fl_mul_def demo_defs Let_def)

lemma calculatePerformance_le_1: "calculatePerformance p t \<le> 1"
  by (simp add: calculatePerformance_def Let_def split: prod.splits)

lemma getAgentPerformance_other:
  assumes "i \<noteq> j"
  shows "fmlookup (ae_performanceCache (snd (getAgentPerformance wd i ty e))) (''perf_'' @ j @ ''_'' @ ty)
           = fmlookup (ae_performanceCache e) (''perf_'' @ j @ ''_'' @ ty)"
  using assms by (auto simp: getAgentPerformance_def Let_def split: option.splits sum.splits)

lemma score_performance_nil_metadata:
  assumes "a \<in> set as" and "\<forall>x \<in> set as. wd_GetAgent wd (ag_ID x) = Inr x" and "ag_Metadata a = None"
    and "fmlookup (ae_performanceCache e) (''perf_'' @ ag_ID a @ ''_'' @ tk_Type t) = None"
  shows "fst (score_performance wd t as e) = None"
  using assms
proof (induction as arbitrary: e)
  case (Cons b as)
  obtain p e1 where g: "getAgentPerformance wd (ag_ID b) (tk_Type t) e = (p, e1)" by fastforce
  show ?case
  proof (cases "b = a")
    case True
    then have "p = None" using g Cons.prems by (simp add: getAgentPerformance_def Let_def)
    then show ?thesis using g by simp
  next
    case False
    then have "ag_ID b \<noteq> ag_ID a" using Cons.prems(1,2) by (metis list.set_intros(1) sum.inject(2))
    from getAgentPerformance_other [OF this, of wd "tk_Type t" e]
    have "fst (score_performance wd t as e1) = None" using Cons False g by simp
    then show ?thesis using g by (auto split: option.splits prod.splits)
  qed
qed simp

text \<open>A high-priority task makes a fresh engine panic as soon as one of the agents it may choose has no
  metadata: \<open>getAgentPerformance\<close> takes its default branch because the metadata are nil and logs
  \<open>err.Error()\<close> of the nil error that came with them.\<close>

theorem FindBestAgent_nil_metadata:
  assumes "tk_Priority t \<in> {''high'', ''critical''}" and "wd_rules wd = None"
    and "wd_GetAvailableAgents wd = Inr agents" and "distinct (map ag_ID agents)"
    and "\<forall>x \<in> set agents. wd_GetAgent wd (ag_ID x) = Inr x"
    and "a \<in> set agents" and "ag_Metadata a = None"
    and "ag_TenantID a = tk_TenantID t" and "ag_Status a = ''active''" and "\<not> busy wd a"
    and "wd_GetAgentCapabilities wd (ag_ID a) = Inr caps" and "''all'' \<in> set caps"
  shows "fst (FindBestAgent wd t NewAssignmentEngine) = None"
proof -
  let ?e = NewAssignmentEngine
  obtain xs e1 where f: "filter_agents wd t agents ?e = (xs, e1)" by fastforce
  have new: "ae_workloadCache ?e = fmempty" "fmlookup (ae_strategies ?e) ''performance_based'' = Some PerformanceBased"
    "ae_performanceCache ?e = fmempty" by (simp_all add: NewAssignmentEngine_def RegisterStrategy_def)
  have xs: "xs = filter (\<lambda>a. eligible wd t a \<and> \<not> busy wd a) agents"
    using filter_agents_exact [OF assms(4), of ?e wd t] f new by simp
  then have a: "a \<in> set xs" using assms by (auto simp: eligible_def)
  have "fmlookup (ae_strategies e1) ''performance_based'' = Some PerformanceBased" "ae_performanceCache e1 = fmempty"
    using filter_agents_keeps [OF f] new by simp_all
  moreover have "fst (score_performance wd t xs e1) = None"
    using score_performance_nil_metadata [OF a] xs assms(5,7) calculation(2) by simp
  ultimately show ?thesis using assms(1-3) f a
    by (auto simp: FindBestAgent_def getEligibleAgents_def determineStrategy_def Assign_def pb_Assign_def
        split: prod.splits option.splits)
qed

theorem FindBestAgent_nil_metadata_witness:
  "fst (FindBestAgent demo_world (monitor_task ''critical'') NewAssignmentEngine) = None"
  by (rule FindBestAgent_nil_metadata [where agents = "[agent3, agent1, agent2]" and a = agent2 and caps = "[''all'']"])
    (simp_all add: busy_def demo_defs)

end
