(* ===== verification/Context_Store.thy ===== *)
theory Context_Store
  imports Json_Values "HOL-Library.Multiset"
begin

text \<open>
  The context store of \<open>pkg/repository/context_repository_postgres.go\<close>: contexts, their items in
  sequence and their links to embeddings, as three tables with the keys and foreign keys the
  schema declares (\<open>context_items\<close> and \<open>context_embeddings\<close> refer to \<open>contexts\<close> with
  \<open>ON DELETE CASCADE\<close>, and \<open>(context_id, sequence_number)\<close> and \<open>(context_id, chunk_sequence)\<close> are
  unique).  Each operation takes the error the driver reports (\<open>None\<close>: no error); a violated
  constraint is an error of its own.  Identifiers are compared as text, and the instants of rows
  are left out.
\<close>

section \<open>Model: data\<close>

record context_item =
  ci_ID :: string
  ci_ContextID :: string
  ci_Content :: string
  ci_Type :: string
  ci_Score :: rat
  ci_Metadata :: "(string, gval) fmap option"

record embedding_link =
  el_ContextID :: string
  el_EmbeddingID :: string
  el_ChunkSequence :: int
  el_ImportanceScore :: rat

record context_row =
  cr_TenantID :: string
  cr_AgentID :: "string option"
  cr_Metadata :: "(string, gval) fmap option"

text \<open>The context the API sees.\<close>

record context_obj =
  co_ID :: string
  co_AgentID :: string
  co_Properties :: "(string, gval) fmap option"

record context_db =
  cd_contexts :: "(string, context_row) fmap"
  cd_items :: "(int \<times> context_item) list"
  cd_links :: "embedding_link list"

datatype store_error = StoreError string | ContextNotFound string | ConstraintViolation

section \<open>Model: contexts\<close>

definition cx_Create :: "(go_time \<Rightarrow> string) \<Rightarrow> string option \<Rightarrow> context_obj \<Rightarrow> context_db \<Rightarrow> store_error option \<times> context_db" where
  "cx_Create tt err c d =
     (case err of Some e \<Rightarrow> (Some (StoreError e), d)
      | None \<Rightarrow>
          if fmlookup (cd_contexts d) (co_ID c) \<noteq> None then (Some ConstraintViolation, d)
          else (None, d\<lparr>cd_contexts := fmupd (co_ID c)
                  \<lparr>cr_TenantID = co_AgentID c, cr_AgentID = Some (co_AgentID c),
                   cr_Metadata = map_option (json_map tt) (co_Properties c)\<rparr> (cd_contexts d)\<rparr>))"

definition cx_Get :: "string option \<Rightarrow> string \<Rightarrow> context_db \<Rightarrow> store_error + context_obj" where
  "cx_Get err i d =
     (case err of Some e \<Rightarrow> Inl (StoreError e)
      | None \<Rightarrow>
          (case fmlookup (cd_contexts d) i of
             None \<Rightarrow> Inl (ContextNotFound i)
           | Some r \<Rightarrow> Inr \<lparr>co_ID = i,
               co_AgentID = (case cr_AgentID r of Some a \<Rightarrow> a | None \<Rightarrow> cr_TenantID r),
               co_Properties = cr_Metadata r\<rparr>))"

definition cx_Update :: "(go_time \<Rightarrow> string) \<Rightarrow> string option \<Rightarrow> context_obj \<Rightarrow> context_db \<Rightarrow> store_error option \<times> context_db" where
  "cx_Update tt err c d =
     (case err of Some e \<Rightarrow> (Some (StoreError e), d)
      | None \<Rightarrow>
          (case fmlookup (cd_contexts d) (co_ID c) of
             None \<Rightarrow> (None, d)
           | Some r \<Rightarrow> (None, d\<lparr>cd_contexts := fmupd (co_ID c)
               (r\<lparr>cr_Metadata := map_option (json_map tt) (co_Properties c)\<rparr>) (cd_contexts d)\<rparr>)))"

text \<open>Deleting a context takes its items and links with it.\<close>

definition cx_Delete :: "string option \<Rightarrow> string \<Rightarrow> context_db \<Rightarrow> store_error option \<times> context_db" where
  "cx_Delete err i d =
     (case err of Some e \<Rightarrow> (Some (StoreError e), d)
      | None \<Rightarrow>
          if fmlookup (cd_contexts d) i = None then (None, d)
          else (None, d\<lparr>cd_contexts := fmdrop i (cd_contexts d),
                  cd_items := filter (\<lambda>r. ci_ContextID (snd r) \<noteq> i) (cd_items d),
                  cd_links := filter (\<lambda>l. el_ContextID l \<noteq> i) (cd_links d)\<rparr>))"

section \<open>Model: items\<close>

definition context_rows :: "string \<Rightarrow> context_db \<Rightarrow> (int \<times> context_item) list" where
  "context_rows c d = filter (\<lambda>r. ci_ContextID (snd r) = c) (cd_items d)"

text \<open>\<open>MAX(sequence_number)\<close> plus one; a failing query reads as no rows.\<close>

definition next_sequence :: "bool \<Rightarrow> string \<Rightarrow> context_db \<Rightarrow> int" where
  "next_sequence read_ok c d =
     (if read_ok \<and> context_rows c d \<noteq> [] then Max (fst ` set (context_rows c d)) + 1 else 0)"

definition cx_AddContextItem ::
  "(go_time \<Rightarrow> string) \<Rightarrow> bool \<Rightarrow> string option \<Rightarrow> string \<Rightarrow> context_item \<Rightarrow> context_db \<Rightarrow> store_error option \<times> context_db" where
  "cx_AddContextItem tt read_ok err c item d =
     (let metadata = (case ci_Metadata item of None \<Rightarrow> Some fmempty | Some m \<Rightarrow> Some (json_map tt m));
          nextSeq = next_sequence read_ok c d
      in case err of Some e \<Rightarrow> (Some (StoreError e), d)
         | None \<Rightarrow>
             if fmlookup (cd_contexts d) c = None \<or> ci_ID item \<in> (ci_ID \<circ> snd) ` set (cd_items d)
                \<or> nextSeq \<in> fst ` set (context_rows c d) \<or> 2 ^ 31 \<le> nextSeq
             then (Some ConstraintViolation, d)
             else (None, d\<lparr>cd_items := cd_items d @
                    [(nextSeq, item\<lparr>ci_ContextID := c, ci_Score := 0, ci_Metadata := metadata\<rparr>)]\<rparr>))"

definition cx_GetContextItems :: "string option \<Rightarrow> string \<Rightarrow> context_db \<Rightarrow> store_error + context_item list" where
  "cx_GetContextItems err c d =
     (case err of Some e \<Rightarrow> Inl (StoreError e) | None \<Rightarrow> Inr (map snd (sort_key fst (context_rows c d))))"

definition item_put :: "(go_time \<Rightarrow> string) \<Rightarrow> context_item \<Rightarrow> context_item \<Rightarrow> context_item" where
  "item_put tt item r =
     r\<lparr>ci_Content := ci_Content item, ci_Metadata := map_option (json_map tt) (ci_Metadata item)\<rparr>"

definition cx_UpdateContextItem ::
  "(go_time \<Rightarrow> string) \<Rightarrow> string option \<Rightarrow> context_item \<Rightarrow> context_db \<Rightarrow> store_error option \<times> context_db" where
  "cx_UpdateContextItem tt err item d =
     (case err of Some e \<Rightarrow> (Some (StoreError e), d)
      | None \<Rightarrow> (None, d\<lparr>cd_items :=
            map (\<lambda>(n, r). (n, if ci_ID r = ci_ID item then item_put tt item r else r)) (cd_items d)\<rparr>))"

section \<open>Model: compaction metadata and embedding links\<close>

definition cx_UpdateCompactionMetadata ::
  "(go_time \<Rightarrow> string) \<Rightarrow> string option \<Rightarrow> string \<Rightarrow> string \<Rightarrow> go_time \<Rightarrow> context_db \<Rightarrow> store_error option \<times> context_db" where
  "cx_UpdateCompactionMetadata rfc err c strategy t d =
     (case err of Some e \<Rightarrow> (Some (StoreError e), d)
      | None \<Rightarrow>
          (case fmlookup (cd_contexts d) c of
             None \<Rightarrow> (None, d)
           | Some r \<Rightarrow> (None, d\<lparr>cd_contexts := fmupd c
               (r\<lparr>cr_Metadata := Some (fmupd ''compaction''
                    (VMap [(''strategy'', VStr strategy), (''last_compacted_at'', VStr (rfc t))])
                    (case cr_Metadata r of None \<Rightarrow> fmempty | Some m \<Rightarrow> m))\<rparr>) (cd_contexts d)\<rparr>)))"

definition cx_LinkEmbeddingToContext ::
  "string option \<Rightarrow> string \<Rightarrow> string \<Rightarrow> rat \<Rightarrow> context_db \<Rightarrow> store_error option \<times> context_db" where
  "cx_LinkEmbeddingToContext err c emb importance d =
     (case err of Some e \<Rightarrow> (Some (StoreError e), d)
      | None \<Rightarrow>
          let links = filter (\<lambda>l. el_ContextID l = c) (cd_links d);
              actualSequence = (if links = [] then 0 else Max (el_ChunkSequence ` set links) + 1)
          in if emb \<in> el_EmbeddingID ` set links then (None, d)
             else if fmlookup (cd_contexts d) c = None \<or> importance < 0 \<or> 1 < importance
             then (Some ConstraintViolation, d)
             else (None, d\<lparr>cd_links := cd_links d @
                    [\<lparr>el_ContextID = c, el_EmbeddingID = emb, el_ChunkSequence = actualSequence,
                      el_ImportanceScore = importance\<rparr>]\<rparr>))"

definition cx_GetContextEmbeddingLinks :: "string option \<Rightarrow> string \<Rightarrow> context_db \<Rightarrow> store_error + embedding_link list" where
  "cx_GetContextEmbeddingLinks err c d =
     (case err of Some e \<Rightarrow> Inl (StoreError e)
      | None \<Rightarrow> Inr (sort_key el_ChunkSequence (filter (\<lambda>l. el_ContextID l = c) (cd_links d))))"

text \<open>Contexts with more than \<open>threshold\<close> items, the fullest first; equally full ones in any order.\<close>

definition cx_GetContextsNeedingCompaction :: "int \<Rightarrow> context_db \<Rightarrow> string list" where
  "cx_GetContextsNeedingCompaction threshold d =
     take 100 (sort_key (\<lambda>c. - int (length (context_rows c d)))
       (filter (\<lambda>c. threshold < int (length (context_rows c d)) \<and> context_rows c d \<noteq> []) (map fst (go_range (cd_contexts d)))))"

section \<open>The invariant of the tables\<close>

definition cd_ok :: "context_db \<Rightarrow> bool" where
  "cd_ok d \<longleftrightarrow> distinct (map (ci_ID \<circ> snd) (cd_items d))
     \<and> distinct (map (\<lambda>r. (ci_ContextID (snd r), fst r)) (cd_items d))
     \<and> (\<forall>r \<in> set (cd_items d). ci_ContextID (snd r) |\<in>| fmdom (cd_contexts d))
     \<and> (\<forall>l \<in> set (cd_links d). el_ContextID l |\<in>| fmdom (cd_contexts d))"

definition no_times :: "context_db \<Rightarrow> bool" where
  "no_times d \<longleftrightarrow> (\<forall>x \<in> snd ` set (cd_items d). \<forall>k t. at_key (ci_Metadata x) k \<noteq> VTime t)"

lemma cd_ok_empty: "cd_ok \<lparr>cd_contexts = fmempty, cd_items = [], cd_links = []\<rparr>"
  by (simp add: cd_ok_def)

lemma cd_ok_Create: "cd_ok d \<Longrightarrow> cd_ok (snd (cx_Create tt err c d))"
  by (auto simp: cx_Create_def cd_ok_def split: option.splits)

lemma cd_ok_Delete: "cd_ok d \<Longrightarrow> cd_ok (snd (cx_Delete err i d))"
  by (auto simp: cx_Delete_def cd_ok_def distinct_map_filter split: option.splits)

lemma cd_ok_AddContextItem:
  assumes "cd_ok d" shows "cd_ok (snd (cx_AddContextItem tt ok err c item d))"
  using assms by (auto simp: cx_AddContextItem_def cd_ok_def context_rows_def Let_def image_iff fmlookup_dom_iff
      split: option.splits)

lemma cd_ok_UpdateContextItem:
  assumes "cd_ok d" shows "cd_ok (snd (cx_UpdateContextItem tt err item d))"
  using assms by (auto simp: cx_UpdateContextItem_def item_put_def cd_ok_def o_def case_prod_unfold if_distrib cong: if_cong
      split: option.splits)

lemma cd_ok_UpdateCompactionMetadata:
  assumes "cd_ok d" shows "cd_ok (snd (cx_UpdateCompactionMetadata rfc err c st t d))"
  using assms by (auto simp: cx_UpdateCompactionMetadata_def cd_ok_def split: option.splits)

lemma cd_ok_Link: "cd_ok d \<Longrightarrow> cd_ok (snd (cx_LinkEmbeddingToContext err c emb imp d))"
  by (auto simp: cx_LinkEmbeddingToContext_def cd_ok_def Let_def fmlookup_dom_iff split: option.splits)


section \<open>What is read after what is written\<close>

lemma item_put_simps [simp]:
  "ci_ID (item_put tt x r) = ci_ID r" "ci_ContextID (item_put tt x r) = ci_ContextID r"
  "ci_Type (item_put tt x r) = ci_Type r" "ci_Content (item_put tt x r) = ci_Content x"
  "ci_Metadata (item_put tt x r) = map_option (json_map tt) (ci_Metadata x)"
  by (simp_all add: item_put_def)

lemma insort_key_map_snd:
  "insort_key fst (apsnd h x) (map (apsnd h) ys) = map (apsnd h) (insort_key fst x ys)"
  by (induction ys) auto

lemma sort_key_map_snd: "sort_key fst (map (apsnd h) xs) = map (apsnd h) (sort_key fst xs)"
  by (induction xs) (simp_all add: insort_key_map_snd)

lemma GetContextItems_map:
  assumes "cd_items d' = map (apsnd h) (cd_items d)" and "\<And>r. ci_ContextID (h r) = ci_ContextID r"
    and "cx_GetContextItems None c d = Inr items"
  shows "cx_GetContextItems None c d' = Inr (map h items)"
proof -
  have "context_rows c d' = map (apsnd h) (context_rows c d)"
    using assms(1,2) by (simp add: context_rows_def filter_map o_def)
  then show ?thesis using assms(3) by (auto simp: cx_GetContextItems_def sort_key_map_snd)
qed

lemma cd_ok_inj: "cd_ok d \<Longrightarrow> inj_on ci_ID (snd ` set (cd_items d))"
  by (auto simp: cd_ok_def distinct_map inj_on_def)

lemma GetContextItems_set:
  "cx_GetContextItems None c d = Inr items \<Longrightarrow> set items = {x \<in> snd ` set (cd_items d). ci_ContextID x = c}"
  by (force simp: cx_GetContextItems_def context_rows_def)

lemma GetContextItems_distinct:
  assumes "cd_ok d" and "cx_GetContextItems None c d = Inr items"
  shows "distinct (map ci_ID items)"
proof -
  have "distinct (map (ci_ID \<circ> snd) (context_rows c d))"
    using assms(1) by (simp add: cd_ok_def context_rows_def distinct_map_filter)
  then have "distinct (map (ci_ID \<circ> snd) (sort_key fst (context_rows c d)))"
    by (simp add: distinct_map)
  then show ?thesis using assms(2) by (auto simp: cx_GetContextItems_def)
qed

lemma GetContextItems_unchanged:
  "cd_items d' = cd_items d \<Longrightarrow> cx_GetContextItems err c d' = cx_GetContextItems err c d"
  by (cases err) (simp_all add: cx_GetContextItems_def context_rows_def)

lemma sorted_snoc:
  assumes "\<forall>r \<in> set xs. (fst r :: int) < n"
  shows "sort_key fst (xs @ [(n, x)]) = sort_key fst xs @ [(n, x)]"
proof (rule properties_for_sort_key)
  show "sorted (map fst (sort_key fst xs @ [(n, x)]))"
    using assms by (auto simp: sorted_append less_imp_le)
next
  fix k
  have "filter (\<lambda>r. fst k = fst r) (sort_key fst xs) = filter (\<lambda>r. fst k = fst r) xs"
    using sort_key_stable [of fst "fst k" xs] by (simp add: eq_commute)
  then show "filter (\<lambda>r. fst k = fst r) (sort_key fst xs @ [(n, x)]) = filter (\<lambda>r. fst k = fst r) (xs @ [(n, x)])"
    by simp
qed simp

lemma next_sequence_above: "r \<in> set (context_rows c d) \<Longrightarrow> fst r < next_sequence True c d"
proof -
  assume r: "r \<in> set (context_rows c d)"
  then have "fst r \<le> Max (fst ` set (context_rows c d))" by (intro Max_ge) auto
  then show ?thesis using r by (auto simp: next_sequence_def)
qed

text \<open>An item added to a context is the last of the items read back from it, behind all that were
  there, with its content and with its metadata as JSON stores them; the items of every other context
  are unchanged.\<close>

theorem AddContextItem_appends:
  assumes "cx_AddContextItem tt True err c item d = (None, d')" and "cx_GetContextItems None c d = Inr items"
  shows "cx_GetContextItems None c d' = Inr (items @ [item\<lparr>ci_ContextID := c, ci_Score := 0,
             ci_Metadata := Some (case ci_Metadata item of None \<Rightarrow> fmempty | Some m \<Rightarrow> json_map tt m)\<rparr>])
         \<and> (\<forall>c'. c' \<noteq> c \<longrightarrow> cx_GetContextItems None c' d' = cx_GetContextItems None c' d)"
proof -
  let ?new = "item\<lparr>ci_ContextID := c, ci_Score := 0,
    ci_Metadata := Some (case ci_Metadata item of None \<Rightarrow> fmempty | Some m \<Rightarrow> json_map tt m)\<rparr>"
  have d': "d' = d\<lparr>cd_items := cd_items d @ [(next_sequence True c d, ?new)]\<rparr>"
    using assms(1) by (auto simp: cx_AddContextItem_def Let_def split: option.splits if_splits)
  have "context_rows c d' = context_rows c d @ [(next_sequence True c d, ?new)]"
    by (simp add: d' context_rows_def)
  moreover have "context_rows c' d' = context_rows c' d" if "c' \<noteq> c" for c'
    using that by (simp add: d' context_rows_def)
  ultimately show ?thesis
    using assms(2) sorted_snoc [of "context_rows c d" "next_sequence True c d"] next_sequence_above [of _ c d]
    by (auto simp: cx_GetContextItems_def)
qed


definition one_context :: context_db where
  "one_context = snd (cx_Create (\<lambda>t. '''') None \<lparr>co_ID = ''c'', co_AgentID = ''a'', co_Properties = None\<rparr>
     \<lparr>cd_contexts = fmempty, cd_items = [], cd_links = []\<rparr>)"

definition some_item :: "string \<Rightarrow> context_item" where
  "some_item i = \<lparr>ci_ID = i, ci_ContextID = '''', ci_Content = ''text'', ci_Type = ''message'', ci_Score = 0,
     ci_Metadata = None\<rparr>"

lemma one_context_add:
  "cx_AddContextItem (\<lambda>t. '''') True None ''c'' (some_item ''i'') one_context
     = (None, one_context\<lparr>cd_items := [(0, (some_item ''i'')\<lparr>ci_ContextID := ''c'', ci_Metadata := Some fmempty\<rparr>)]\<rparr>)"
  by (simp add: cx_AddContextItem_def one_context_def some_item_def cx_Create_def context_rows_def
      next_sequence_def Let_def)

theorem AddContextItem_appends_witness:
  "cx_GetContextItems None ''c'' (snd (cx_AddContextItem (\<lambda>t. '''') True None ''c'' (some_item ''i'') one_context))
     = Inr [(some_item ''i'')\<lparr>ci_ContextID := ''c'', ci_Metadata := Some fmempty\<rparr>]"
proof -
  have "cx_GetContextItems None ''c'' one_context = Inr []"
    by (simp add: cx_GetContextItems_def context_rows_def one_context_def cx_Create_def)
  from AddContextItem_appends [OF one_context_add this] show ?thesis
    unfolding one_context_add by (simp add: some_item_def)
qed

end
