(* ===== verification/Context_Compaction.thy ===== *)
theory Context_Compaction
  imports Context_Store
begin

text \<open>
  The compaction of contexts (\<open>pkg/core/compaction_strategies.go\<close>) over the context store: clearing
  old tool results, pruning, the sliding window and the summary placeholder.  The errors the store
  reports during a run and the clock are the record \<open>compaction_env\<close>; the counters that only reach
  the log and the metrics are left out.
\<close>

section \<open>Model\<close>

record compaction_env =
  ce_now :: go_time
  ce_json :: "go_time \<Rightarrow> string"
  ce_rfc :: "go_time \<Rightarrow> string"
  ce_get :: "string option"
  ce_links :: "string option"
  ce_update :: "string \<Rightarrow> string option"
  ce_delete :: "string \<Rightarrow> string option"
  ce_meta :: "string option"

datatype compaction_error = GetItemsFailed store_error | GetLinksFailed store_error
  | MetadataFailed store_error | UnknownStrategy string

text \<open>The position of the item is the first one with its identifier.\<close>

definition isOldToolResult :: "context_item \<Rightarrow> context_item list \<Rightarrow> bool" where
  "isOldToolResult item allItems =
     (case List.find (\<lambda>i. ci_ID (allItems ! i) = ci_ID item) [0..<length allItems] of
        None \<Rightarrow> False
      | Some position \<Rightarrow> 10 < length allItems - position)"

definition isProtectedItem :: "go_time \<Rightarrow> context_item \<Rightarrow> bool" where
  "isProtectedItem now item =
     (ci_Type item = ''error'' \<or> as_bool (at_key (ci_Metadata item) ''is_critical'')
      \<or> (case at_key (ci_Metadata item) ''created_at'' of VTime t \<Rightarrow> time_sub now t < 60 * minute | _ \<Rightarrow> False))"

definition metadata_of :: "context_item \<Rightarrow> (string, gval) fmap" where
  "metadata_of item = (case ci_Metadata item of None \<Rightarrow> fmempty | Some m \<Rightarrow> m)"

definition clear_item :: "context_item \<Rightarrow> context_item" where
  "clear_item item =
     (let m = fmupd ''original_content_length'' (VInt (int (length (ci_Content item))))
            (fmupd ''compacted'' (VBool True) (metadata_of item));
          toolName = (case as_string (fmget VNil m ''tool_name'') of Some name \<Rightarrow> name | None \<Rightarrow> ''unknown'')
      in item\<lparr>ci_Metadata := Some m, ci_Content := ''[Tool result cleared: '' @ toolName @ '']''\<rparr>)"

definition slide_item :: "context_item \<Rightarrow> context_item" where
  "slide_item item =
     item\<lparr>ci_Metadata := Some (fmupd ''original_length'' (VInt (int (length (ci_Content item))))
            (fmupd ''compaction_strategy'' (VStr ''sliding'') (fmupd ''compacted'' (VBool True) (metadata_of item)))),
          ci_Content := (if 100 < length (ci_Content item) then take 100 (ci_Content item) @ ''...''
             else ci_Content item)\<rparr>"

text \<open>An update that fails is logged and skipped.\<close>

definition store_item :: "compaction_env \<Rightarrow> context_item \<Rightarrow> context_db \<Rightarrow> context_db" where
  "store_item en item d = snd (cx_UpdateContextItem (ce_json en) (ce_update en (ci_ID item)) item d)"

definition finish_compaction ::
  "compaction_env \<Rightarrow> string \<Rightarrow> string \<Rightarrow> context_db \<Rightarrow> compaction_error option \<times> context_db" where
  "finish_compaction en c strategy d =
     (case cx_UpdateCompactionMetadata (ce_rfc en) (ce_meta en) c strategy (ce_now en) d of
        (Some e, d) \<Rightarrow> (Some (MetadataFailed e), d)
      | (None, d) \<Rightarrow> (None, d))"

definition tool_item :: "context_item \<Rightarrow> bool" where
  "tool_item item \<longleftrightarrow> ci_Type item = ''tool_result'' \<or> ci_Type item = ''function_result''"

definition compactToolClear :: "compaction_env \<Rightarrow> string \<Rightarrow> context_db \<Rightarrow> compaction_error option \<times> context_db" where
  "compactToolClear en c d =
     (case cx_GetContextItems (ce_get en) c d of
        Inl e \<Rightarrow> (Some (GetItemsFailed e), d)
      | Inr items \<Rightarrow>
          finish_compaction en c ''tool_clear''
            (foldl (\<lambda>d item. if tool_item item \<and> isOldToolResult item items
               then store_item en (clear_item item) d else d) d items))"

definition importance :: "embedding_link list \<Rightarrow> context_item \<Rightarrow> rat" where
  "importance links item =
     (let importanceMap = foldl (\<lambda>m link. fmupd (el_EmbeddingID link) (el_ImportanceScore link) m) fmempty links
      in case as_string (at_key (ci_Metadata item) ''embedding_id'') of
           Some embeddingID \<Rightarrow> fmget (f64_round (5 / 10)) importanceMap embeddingID
         | None \<Rightarrow> f64_round (5 / 10))"

definition compactPrune :: "compaction_env \<Rightarrow> string \<Rightarrow> context_db \<Rightarrow> compaction_error option \<times> context_db" where
  "compactPrune en c d =
     (case cx_GetContextItems (ce_get en) c d of
        Inl e \<Rightarrow> (Some (GetItemsFailed e), d)
      | Inr items \<Rightarrow>
          (case cx_GetContextEmbeddingLinks (ce_links en) c d of
             Inl e \<Rightarrow> (Some (GetLinksFailed e), d)
           | Inr links \<Rightarrow>
               finish_compaction en c ''prune''
                 (foldl (\<lambda>d item. if importance links item < f64_round (3 / 10) \<and> \<not> isProtectedItem (ce_now en) item
                    then snd (cx_Delete (ce_delete en (ci_ID item)) (ci_ID item) d) else d) d items)))"

definition compactSliding :: "compaction_env \<Rightarrow> string \<Rightarrow> context_db \<Rightarrow> compaction_error option \<times> context_db" where
  "compactSliding en c d =
     (case cx_GetContextItems (ce_get en) c d of
        Inl e \<Rightarrow> (Some (GetItemsFailed e), d)
      | Inr items \<Rightarrow>
          if length items \<le> 20 then (None, d)
          else finish_compaction en c ''sliding''
            (foldl (\<lambda>d item. store_item en (slide_item item) d) d (take (length items - 20) items)))"

definition compactSummarize :: "compaction_env \<Rightarrow> string \<Rightarrow> context_db \<Rightarrow> compaction_error option \<times> context_db" where
  "compactSummarize en c d = finish_compaction en c ''summarize'' d"

definition ExecuteCompaction ::
  "compaction_env \<Rightarrow> string \<Rightarrow> string \<Rightarrow> context_db \<Rightarrow> compaction_error option \<times> context_db" where
  "ExecuteCompaction en c strategy d =
     (if strategy = ''tool_clear'' then compactToolClear en c d
      else if strategy = ''prune'' then compactPrune en c d
      else if strategy = ''sliding'' then compactSliding en c d
      else if strategy = ''summarize'' then compactSummarize en c d
      else (Some (UnknownStrategy strategy), d))"


section \<open>The update loop\<close>

definition quiet :: "compaction_env \<Rightarrow> bool" where
  "quiet en \<longleftrightarrow> ce_get en = None \<and> ce_links en = None \<and> ce_meta en = None
     \<and> (\<forall>i. ce_update en i = None \<and> ce_delete en i = None)"

definition apply_item :: "compaction_env \<Rightarrow> (context_item \<Rightarrow> bool) \<Rightarrow> (context_item \<Rightarrow> context_item) \<Rightarrow>
    context_item \<Rightarrow> context_item \<Rightarrow> context_item" where
  "apply_item en P f r x = (if P x \<and> ci_ID r = ci_ID (f x) then item_put (ce_json en) (f x) r else r)"

lemma apply_item_id [simp]: "ci_ID (apply_item en P f r x) = ci_ID r" "ci_ContextID (apply_item en P f r x) = ci_ContextID r"
  by (simp_all add: apply_item_def)

lemma foldl_apply_id [simp]:
  "ci_ID (foldl (apply_item en P f) r xs) = ci_ID r" "ci_ContextID (foldl (apply_item en P f) r xs) = ci_ContextID r"
  by (induction xs arbitrary: r) auto

lemma map_apsnd_id: "map (apsnd (\<lambda>r. r)) xs = xs"
  by (rule map_idI) auto

lemma store_loop:
  assumes "quiet en"
  shows "cd_items (foldl (\<lambda>d x. if P x then store_item en (f x) d else d) d xs)
           = map (apsnd (\<lambda>r. foldl (apply_item en P f) r xs)) (cd_items d)"
proof (induction xs arbitrary: d)
  case Nil
  then show ?case by (simp add: map_apsnd_id)
next
  case (Cons x xs)
  have "cd_items (if P x then store_item en (f x) d else d)
      = map (apsnd (\<lambda>r. apply_item en P f r x)) (cd_items d)"
    using assms by (auto simp: store_item_def quiet_def cx_UpdateContextItem_def apply_item_def map_apsnd_id)
  then show ?case by (auto simp: Cons.IH)
qed

lemma foldl_apply_absent: "ci_ID r \<notin> (ci_ID \<circ> f) ` set xs \<Longrightarrow> foldl (apply_item en P f) r xs = r"
  by (induction xs) (auto simp: apply_item_def)

lemma foldl_apply_present:
  assumes "\<And>x. ci_ID (f x) = ci_ID x" and "distinct (map ci_ID xs)" and "r \<in> set xs"
  shows "foldl (apply_item en P f) r xs = (if P r then item_put (ce_json en) (f r) r else r)"
proof -
  obtain ys zs where xs: "xs = ys @ r # zs" using assms(3) by (meson split_list)
  have "foldl (apply_item en P f) r ys = r"
    by (rule foldl_apply_absent) (use assms xs in auto)
  moreover have "foldl (apply_item en P f) s zs = s" if "ci_ID s = ci_ID r" for s
    by (rule foldl_apply_absent) (use assms xs that in auto)
  ultimately show ?thesis using assms(1) by (simp add: xs apply_item_def)
qed

lemma store_loop_read:
  assumes "quiet en" and "cd_ok d" and "cx_GetContextItems None c d = Inr items"
    and "\<And>x. ci_ID (f x) = ci_ID x" and "set xs \<subseteq> snd ` set (cd_items d)" and "distinct xs"
  shows "cx_GetContextItems None c (foldl (\<lambda>d x. if P x then store_item en (f x) d else d) d xs)
           = Inr (map (\<lambda>x. if x \<in> set xs \<and> P x then item_put (ce_json en) (f x) x else x) items)"
proof -
  note inj = cd_ok_inj [OF assms(2)]
  have xs: "distinct (map ci_ID xs)"
    using assms(5,6) inj by (auto simp: distinct_map intro: inj_on_subset)
  have "foldl (apply_item en P f) x xs = (if x \<in> set xs \<and> P x then item_put (ce_json en) (f x) x else x)"
    if x: "x \<in> set items" for x
  proof (cases "x \<in> set xs")
    case True
    then show ?thesis using foldl_apply_present [OF assms(4) xs] by simp
  next
    case False
    have "x \<in> snd ` set (cd_items d)" using GetContextItems_set [OF assms(3)] x by simp
    then have "ci_ID x \<noteq> ci_ID y" if "y \<in> set xs" for y
      using inj_onD [OF inj, of x y] assms(5) that False by auto
    then have "ci_ID x \<notin> (ci_ID \<circ> f) ` set xs" using assms(4) by auto
    then show ?thesis using foldl_apply_absent [of x f xs] False by simp
  qed
  then have "map (\<lambda>r. foldl (apply_item en P f) r xs) items
      = map (\<lambda>x. if x \<in> set xs \<and> P x then item_put (ce_json en) (f x) x else x) items" by simp
  then show ?thesis
    using GetContextItems_map [OF store_loop [OF assms(1), of P f d xs] _ assms(3)] by simp
qed

lemma store_loop_other:
  assumes "quiet en" and "cd_ok d" and "cx_GetContextItems None c d = Inr items" and "c' \<noteq> c"
    and "\<And>x. ci_ID (f x) = ci_ID x" and "set xs \<subseteq> set items" and "distinct xs"
  shows "cx_GetContextItems None c' (foldl (\<lambda>d x. if P x then store_item en (f x) d else d) d xs)
           = cx_GetContextItems None c' d"
proof -
  obtain items' where i: "cx_GetContextItems None c' d = Inr items'" by (simp add: cx_GetContextItems_def)
  have "set xs \<subseteq> snd ` set (cd_items d)" using assms(6) GetContextItems_set [OF assms(3)] by auto
  moreover have "x \<notin> set xs" if "x \<in> set items'" for x
    using assms(4,6) GetContextItems_set [OF assms(3)] GetContextItems_set [OF i] that by auto
  ultimately show ?thesis
    using store_loop_read [OF assms(1,2) i assms(5) _ assms(7), of P] i by (simp add: map_idI)
qed

lemma finish_compaction_items:
  "finish_compaction en c st d = (r, d') \<Longrightarrow> cd_items d' = cd_items d"
  by (auto simp: finish_compaction_def cx_UpdateCompactionMetadata_def split: option.splits prod.splits)

lemma clear_item_ID [simp]: "ci_ID (clear_item x) = ci_ID x"
  by (simp add: clear_item_def Let_def)

lemma slide_item_ID [simp]: "ci_ID (slide_item x) = ci_ID x"
  by (simp add: slide_item_def)

lemma isOldToolResult_nth:
  assumes "distinct (map ci_ID items)" and "i < length items"
  shows "isOldToolResult (items ! i) items \<longleftrightarrow> i + 10 < length items"
proof -
  have "List.find (\<lambda>j. ci_ID (items ! j) = ci_ID (items ! i)) [0..<length items] = Some i"
    using assms by (auto simp: find_Some_iff nth_eq_iff_index_eq distinct_conv_nth)
  then show ?thesis using assms(2) by (auto simp: isOldToolResult_def)
qed

lemma map_nth_cong: "(\<And>i. i < length xs \<Longrightarrow> f (xs ! i) = g i) \<Longrightarrow> map f xs = map g [0..<length xs]"
  by (rule nth_equalityI) auto

definition quiet_env :: compaction_env where
  "quiet_env = \<lparr>ce_now = 0, ce_json = (\<lambda>t. ''''), ce_rfc = (\<lambda>t. ''''), ce_get = None, ce_links = None,
     ce_update = (\<lambda>i. None), ce_delete = (\<lambda>i. None), ce_meta = None\<rparr>"

definition tool_output :: "nat \<Rightarrow> context_item" where
  "tool_output i = \<lparr>ci_ID = replicate i CHR ''i'', ci_ContextID = ''c'', ci_Content = ''output'',
     ci_Type = ''tool_result'', ci_Score = 0, ci_Metadata = None\<rparr>"

definition tool_db :: "nat \<Rightarrow> context_db" where
  "tool_db n = \<lparr>cd_contexts = fmupd ''c'' \<lparr>cr_TenantID = '''', cr_AgentID = None, cr_Metadata = None\<rparr> fmempty,
     cd_items = map (\<lambda>i. (int i, tool_output i)) [0..<n], cd_links = []\<rparr>"

lemma tool_db_demo:
  "quiet quiet_env" "cd_ok (tool_db n)" "cx_GetContextItems None ''c'' (tool_db n) = Inr (map tool_output [0..<n])"
proof -
  show "quiet quiet_env" by (simp add: quiet_def quiet_env_def)
  show "cd_ok (tool_db n)"
    by (auto simp: cd_ok_def tool_db_def tool_output_def distinct_map inj_on_def o_def dest: map_eq_imp_length_eq)
  have "sort_key fst (map (\<lambda>i. (int i, tool_output i)) [0..<n]) = map (\<lambda>i. (int i, tool_output i)) [0..<n]"
    by (rule properties_for_sort_key) (simp_all add: o_def sorted_iff_nth_mono)
  then show "cx_GetContextItems None ''c'' (tool_db n) = Inr (map tool_output [0..<n])"
    by (simp add: cx_GetContextItems_def context_rows_def tool_db_def tool_output_def o_def filter_True)
qed

text \<open>Clearing tool results replaces the content of exactly those tool and function results that have
  more than ten items at or behind them by a placeholder with the name of the tool; every other item of the
  context, and every item of another context, reads back as before.\<close>

theorem compactToolClear_exact:
  assumes "quiet en" and "cd_ok d" and "cx_GetContextItems None c d = Inr items"
    and "ExecuteCompaction en c ''tool_clear'' d = (r, d')"
  shows "cx_GetContextItems None c d' = Inr (map (\<lambda>i. if tool_item (items ! i) \<and> i + 10 < length items
             then item_put (ce_json en) (clear_item (items ! i)) (items ! i) else items ! i) [0..<length items])
         \<and> (\<forall>c'. c' \<noteq> c \<longrightarrow> cx_GetContextItems None c' d' = cx_GetContextItems None c' d)"
proof -
  let ?P = "\<lambda>x. tool_item x \<and> isOldToolResult x items"
  have dist: "distinct (map ci_ID items)" by (rule GetContextItems_distinct [OF assms(2,3)])
  have d': "cd_items d' = cd_items (foldl (\<lambda>d x. if ?P x then store_item en (clear_item x) d else d) d items)"
    using assms(1,3,4) by (auto simp: ExecuteCompaction_def compactToolClear_def quiet_def dest: finish_compaction_items)
  have "cx_GetContextItems None c d'
      = Inr (map (\<lambda>x. if x \<in> set items \<and> ?P x then item_put (ce_json en) (clear_item x) x else x) items)"
    unfolding GetContextItems_unchanged [OF d']
    by (rule store_loop_read [OF assms(1-3)]) (use dist GetContextItems_set [OF assms(3)] in \<open>auto simp: distinct_map\<close>)
  moreover have "cx_GetContextItems None c' d' = cx_GetContextItems None c' d" if "c' \<noteq> c" for c'
    unfolding GetContextItems_unchanged [OF d']
    by (rule store_loop_other [OF assms(1-3) that]) (use dist in \<open>auto simp: distinct_map\<close>)
  ultimately show ?thesis by (auto simp: isOldToolResult_nth [OF dist] intro!: map_nth_cong)
qed

theorem compactToolClear_exact_witness:
  "\<exists>items. cx_GetContextItems None ''c'' (snd (ExecuteCompaction quiet_env ''c'' ''tool_clear'' (tool_db 12))) = Inr items
     \<and> map ci_Content items = replicate 2 ''[Tool result cleared: unknown]'' @ replicate 10 ''output''"
  using compactToolClear_exact [OF tool_db_demo(1) tool_db_demo(2,3), of 12, OF prod.collapse [symmetric]]
  by (simp add: upt_rec tool_item_def clear_item_def tool_output_def metadata_of_def as_string_def fmget_def
      numeral_2_eq_2 eval_nat_numeral Let_def)



text \<open>Pruning removes nothing from the context: it deletes by the identifier of the item in the table of
  contexts.  As long as no context has the identifier of an item, every context keeps all its items,
  whatever their importance; otherwise the context of that name disappears with all its items.\<close>

theorem compactPrune_removes_nothing:
  assumes "ExecuteCompaction en c ''prune'' d = (r, d')"
    and "\<forall>row \<in> set (cd_items d). ci_ID (snd row) |\<notin>| fmdom (cd_contexts d)"
  shows "cd_items d' = cd_items d"
proof -
  have del: "snd (cx_Delete err (ci_ID x) d) = d" if "x \<in> snd ` set (cd_items d)" for err x
    using that assms(2) by (auto simp: cx_Delete_def fmdom_notD split: option.splits)
  have "foldl (\<lambda>d x. if P x then snd (cx_Delete (g x) (ci_ID x) d) else d) d xs = d"
    if "set xs \<subseteq> snd ` set (cd_items d)" for P g xs
    using that by (induction xs) (auto simp: del)
  moreover have "set items \<subseteq> snd ` set (cd_items d)" if "cx_GetContextItems err c d = Inr items" for err items
    using that by (auto simp: cx_GetContextItems_def context_rows_def split: option.splits)
  ultimately show ?thesis using assms(1)
    by (auto simp: ExecuteCompaction_def compactPrune_def split: sum.splits dest!: finish_compaction_items)
qed

theorem compactPrune_removes_nothing_witness:
  "cd_items (snd (ExecuteCompaction quiet_env ''c'' ''prune'' (tool_db 3))) = cd_items (tool_db 3)"
  by (rule compactPrune_removes_nothing [OF prod.collapse [symmetric]])
    (simp add: tool_db_def tool_output_def upt_rec)

text \<open>What the store returns has no instants, so the rule that protects items of the last hour never applies.\<close>

lemma protection_by_age_unused:
  assumes "no_times d" and "cx_GetContextItems None c d = Inr items" and "x \<in> set items"
  shows "isProtectedItem now x \<longleftrightarrow> ci_Type x = ''error'' \<or> as_bool (at_key (ci_Metadata x) ''is_critical'')"
proof -
  have "at_key (ci_Metadata x) ''created_at'' \<noteq> VTime t" for t
    using assms(1,3) GetContextItems_set [OF assms(2)] unfolding no_times_def by blast
  then show ?thesis by (auto simp: isProtectedItem_def split: gval.splits)
qed

lemma no_times_AddContextItem: "no_times d \<Longrightarrow> no_times (snd (cx_AddContextItem tt ok err c item d))"
  using at_key_json_not_time [of tt "Some _"]
  by (auto simp: no_times_def cx_AddContextItem_def Let_def split: option.splits)

lemma no_times_UpdateContextItem: "no_times d \<Longrightarrow> no_times (snd (cx_UpdateContextItem tt err item d))"
  by (auto simp: no_times_def cx_UpdateContextItem_def split: option.splits if_splits)

end
