(* ===== verification/Context_Packer.thy ===== *)
theory Context_Packer
  imports Context_Store
begin

text \<open>
  Token counting and context packing (\<open>pkg/tokenizer/tokenizer.go\<close>, \<open>pkg/tokenizer/context_packer.go\<close>).
  A string is its bytes; \<open>runes\<close> is the decoding that \<open>range\<close> over a string performs, with U+FFFD for
  an invalid byte.  \<open>unicode.IsSpace\<close> is written out; the table behind \<open>unicode.IsPunct\<close> is the
  argument \<open>isPunct\<close>.  The interface \<open>Tokenizer\<close> is the locale \<open>tokenizer\<close>, which the packer relies on
  and which is interpreted on the simple tokenizer.  Token counts stay far below the range of
  \<open>int\<close>.
\<close>

section \<open>Model: runes\<close>

definition continuation :: "nat list \<Rightarrow> nat \<Rightarrow> bool" where
  "continuation bs i \<longleftrightarrow> i < length bs \<and> 128 \<le> bs ! i \<and> bs ! i < 192"

text \<open>The first rune of the bytes and its width.\<close>

definition decode_rune :: "nat list \<Rightarrow> nat \<times> nat" where
  "decode_rune bs =
     (let b0 = bs ! 0; b1 = bs ! 1; b2 = bs ! 2; b3 = bs ! 3 in
      if b0 < 128 then (b0, 1)
      else if 194 \<le> b0 \<and> b0 < 224 \<and> continuation bs 1
      then ((b0 - 192) * 64 + (b1 - 128), 2)
      else if 224 \<le> b0 \<and> b0 < 240 \<and> continuation bs 1 \<and> continuation bs 2
         \<and> (b0 = 224 \<longrightarrow> 160 \<le> b1) \<and> (b0 = 237 \<longrightarrow> b1 < 160)
      then ((b0 - 224) * 4096 + (b1 - 128) * 64 + (b2 - 128), 3)
      else if 240 \<le> b0 \<and> b0 < 245 \<and> continuation bs 1 \<and> continuation bs 2 \<and> continuation bs 3
         \<and> (b0 = 240 \<longrightarrow> 144 \<le> b1) \<and> (b0 = 244 \<longrightarrow> b1 < 144)
      then ((b0 - 240) * 262144 + (b1 - 128) * 4096 + (b2 - 128) * 64 + (b3 - 128), 4)
      else (65533, 1))"

lemma decode_rune_width: "0 < snd (decode_rune bs)"
  by (simp add: decode_rune_def Let_def)

function runes_of :: "nat list \<Rightarrow> nat list" where
  "runes_of bs = (if bs = [] then [] else case decode_rune bs of (r, w) \<Rightarrow> r # runes_of (drop w bs))"
  by auto
termination
proof (relation "measure length")
  fix bs :: "nat list" and r w :: nat
  assume "bs \<noteq> []" "(r, w) = decode_rune bs"
  then have "0 < length bs" and "0 < w" using decode_rune_width [of bs] by (auto dest: arg_cong [where f = snd])
  then show "(drop w bs, bs) \<in> measure length" by simp
qed simp

declare runes_of.simps [simp del]

definition runes :: "string \<Rightarrow> nat list" where
  "runes s = runes_of (map of_char s)"

definition isSpace :: "nat \<Rightarrow> bool" where
  "isSpace r \<longleftrightarrow> r \<in> {9, 10, 11, 12, 13, 32, 133, 160, 5760, 8232, 8233, 8239, 8287, 12288}
     \<or> 8192 \<le> r \<and> r \<le> 8202"

section \<open>Model: the simple tokenizer\<close>

definition NewSimpleTokenizer :: "int \<Rightarrow> int" where
  "NewSimpleTokenizer tokenLimit = (if tokenLimit \<le> 0 then 8192 else tokenLimit)"

fun count_loop :: "(nat \<Rightarrow> bool) \<Rightarrow> nat list \<Rightarrow> int \<Rightarrow> bool \<Rightarrow> int" where
  "count_loop isPunct [] tokens inWord = (if inWord then tokens + 1 else tokens)"
| "count_loop isPunct (r # rs) tokens inWord =
     (if isSpace r then count_loop isPunct rs (if inWord then tokens + 1 else tokens) False
      else if isPunct r then count_loop isPunct rs (tokens + 1) False
      else count_loop isPunct rs tokens True)"

text \<open>\<open>len(strings.Fields(text))\<close>: the number of maximal runs without space.\<close>

fun fields_loop :: "nat list \<Rightarrow> bool \<Rightarrow> int" where
  "fields_loop [] inField = 0"
| "fields_loop (r # rs) inField =
     (if isSpace r then fields_loop rs False else (if inField then 0 else 1) + fields_loop rs True)"

definition CountTokens :: "int \<Rightarrow> (nat \<Rightarrow> bool) \<Rightarrow> string \<Rightarrow> int" where
  "CountTokens ovf isPunct text =
     (if text = '''' then 0
      else
        let tokens = count_loop isPunct (runes text) 0 False;
            wordCount = fields_loop (runes text) False;
            estimatedTokens = f64_to_int64 ovf (f64_mul (f64_of_int wordCount) (f64_round (13 / 10)))
        in if tokens < estimatedTokens then estimatedTokens else tokens)"

definition flush :: "nat list \<Rightarrow> nat list list" where
  "flush current = (if current = [] then [] else [current])"

fun tokenize_loop :: "(nat \<Rightarrow> bool) \<Rightarrow> nat list \<Rightarrow> nat list \<Rightarrow> nat list list \<Rightarrow> nat list list" where
  "tokenize_loop isPunct [] current tokens = tokens @ flush current"
| "tokenize_loop isPunct (r # rs) current tokens =
     (if isSpace r
      then tokenize_loop isPunct rs [] (tokens @ flush current @ (if r = 10 then [[10]] else []))
      else if isPunct r then tokenize_loop isPunct rs [] (tokens @ flush current @ [[r]])
      else tokenize_loop isPunct rs (current @ [r]) tokens)"

text \<open>The tokens, each as its runes.\<close>

definition Tokenize :: "(nat \<Rightarrow> bool) \<Rightarrow> string \<Rightarrow> nat list list" where
  "Tokenize isPunct text = tokenize_loop isPunct (runes text) [] []"

definition token_limits :: "(string, int) fmap" where
  "token_limits = fmap_of_list
     [(''gpt-4'', 8192), (''gpt-4-32k'', 32768), (''gpt-3.5-turbo'', 4096), (''gpt-3.5-turbo-16k'', 16384),
      (''text-embedding-3-small'', 8191), (''text-embedding-3-large'', 8191)]"

definition NewTikTokenTokenizer :: "string \<Rightarrow> int" where
  "NewTikTokenTokenizer model = (case fmlookup token_limits model of Some limit \<Rightarrow> limit | None \<Rightarrow> 8192)"

section \<open>Model: the packer\<close>

definition formatContextItem :: "context_item \<Rightarrow> string" where
  "formatContextItem item =
     (if ci_Type item \<noteq> '''' then ''['' @ ci_Type item @ ''] '' else '''') @ ci_Content item
     @ (case as_string (at_key (ci_Metadata item) ''timestamp'') of
          Some t \<Rightarrow> '' (at '' @ t @ '')'' | None \<Rightarrow> '''')"

definition countItemTokens :: "(string \<Rightarrow> int) \<Rightarrow> context_item \<Rightarrow> int" where
  "countItemTokens tk item = tk (formatContextItem item)"

definition canSplitItem :: "context_item \<Rightarrow> bool" where
  "canSplitItem item =
     (if ci_Type item = ''error'' then False
      else if as_bool (at_key (ci_Metadata item) ''is_critical'') then False
      else 500 < length (ci_Content item))"

definition partial_item :: "context_item \<Rightarrow> nat \<Rightarrow> context_item" where
  "partial_item item splitPoint =
     item\<lparr>ci_ID := ci_ID item @ ''_partial'', ci_Content := take splitPoint (ci_Content item) @ ''... [truncated]'',
          ci_Metadata := Some (fmupd ''original_length'' (VInt (int (length (ci_Content item))))
            (fmupd ''truncated'' (VBool True) (case ci_Metadata item of None \<Rightarrow> fmempty | Some m \<Rightarrow> m)))\<rparr>"

text \<open>The loop over the ratios; \<open>None\<close> is a panic of the slice expression.\<close>

fun split_loop :: "int \<Rightarrow> (string \<Rightarrow> int) \<Rightarrow> context_item \<Rightarrow> int \<Rightarrow> rat list \<Rightarrow> (context_item \<times> int) option option" where
  "split_loop ovf tk item maxTokens [] = Some None"
| "split_loop ovf tk item maxTokens (ratio # ratios) =
     (let splitPoint = f64_to_int64 ovf (f64_mul (f64_of_int (int (length (ci_Content item)))) ratio)
      in if splitPoint < 0 \<or> int (length (ci_Content item)) < splitPoint then None
         else
           let partialItem = partial_item item (nat splitPoint);
               tokens = countItemTokens tk partialItem
           in if tokens \<le> maxTokens then Some (Some (partialItem, tokens))
              else split_loop ovf tk item maxTokens ratios)"

definition splitItem :: "int \<Rightarrow> (string \<Rightarrow> int) \<Rightarrow> context_item \<Rightarrow> int \<Rightarrow> (context_item \<times> int) option option" where
  "splitItem ovf tk item maxTokens =
     split_loop ovf tk item maxTokens [f64_round (3 / 4), f64_round (1 / 2), f64_round (1 / 4)]"

fun pack_always :: "(string \<Rightarrow> int) \<Rightarrow> int \<Rightarrow> context_item list \<Rightarrow> string set \<Rightarrow> context_item list \<Rightarrow> int \<Rightarrow>
    context_item list \<times> int" where
  "pack_always tk maxTokens [] always packed cur = (packed, cur)"
| "pack_always tk maxTokens (item # items) always packed cur =
     (let tokens = countItemTokens tk item
      in if ci_ID item \<in> always \<and> cur + tokens \<le> maxTokens
         then pack_always tk maxTokens items (always - {ci_ID item}) (packed @ [item]) (cur + tokens)
         else pack_always tk maxTokens items always packed cur)"

fun pack_rest :: "int \<Rightarrow> (string \<Rightarrow> int) \<Rightarrow> int \<Rightarrow> context_item list \<Rightarrow> context_item list \<Rightarrow> int \<Rightarrow>
    (context_item list \<times> int) option" where
  "pack_rest ovf tk maxTokens [] packed cur = Some (packed, cur)"
| "pack_rest ovf tk maxTokens (item # items) packed cur =
     (if ci_ID item \<in> ci_ID ` set packed then pack_rest ovf tk maxTokens items packed cur
      else
        let tokens = countItemTokens tk item
        in if cur + tokens \<le> maxTokens
           then pack_rest ovf tk maxTokens items (packed @ [item]) (cur + tokens)
           else if canSplitItem item
           then (case splitItem ovf tk item (maxTokens - cur) of
                   None \<Rightarrow> None
                 | Some None \<Rightarrow> Some (packed, cur)
                 | Some (Some (partialItem, partialTokens)) \<Rightarrow> Some (packed @ [partialItem], cur + partialTokens))
           else Some (packed, cur))"

definition PackContextWindow ::
  "int \<Rightarrow> (string \<Rightarrow> int) \<Rightarrow> int \<Rightarrow> context_item list \<Rightarrow> int \<Rightarrow> string list \<Rightarrow> (context_item list \<times> int) option" where
  "PackContextWindow ovf tk tokenLimit rankedItems maxTokens alwaysInclude =
     (let maxTokens = (if maxTokens \<le> 0 then tokenLimit else maxTokens);
          (packed, currentTokens) = pack_always tk maxTokens rankedItems (set alwaysInclude) [] 0
      in pack_rest ovf tk maxTokens rankedItems packed currentTokens)"

definition EstimateContextSize :: "(string \<Rightarrow> int) \<Rightarrow> context_item list \<Rightarrow> int" where
  "EstimateContextSize tk items = foldl (\<lambda>total item. total + countItemTokens tk item) 0 items"

definition GetTokenBudgetUtilization :: "int \<Rightarrow> int \<Rightarrow> rat" where
  "GetTokenBudgetUtilization usedTokens maxTokens =
     (if maxTokens \<le> 0 then 0 else f64_div (f64_of_int usedTokens) (f64_of_int maxTokens))"


section \<open>The tokenizer\<close>

locale tokenizer =
  fixes tk :: "string \<Rightarrow> int" and limit :: int
  assumes count_nonneg: "0 \<le> tk s" and limit_pos: "0 < limit"
begin

lemma countItemTokens_nonneg: "0 \<le> countItemTokens tk item"
  by (simp add: countItemTokens_def count_nonneg)

lemma size_nonneg: "0 \<le> sum_list (map (countItemTokens tk) items)"
  by (induction items) (auto simp: countItemTokens_nonneg)

end

lemma tokenize_loop_tokens: "tokenize_loop p rs current tokens = tokens @ tokenize_loop p rs current []"
proof (induction rs arbitrary: current tokens)
  case (Cons r rs)
  have "tokenize_loop p rs c (tokens @ x) = tokens @ tokenize_loop p rs c x" for c x
    using Cons.IH [of c "tokens @ x"] Cons.IH [of c x] by simp
  then show ?case using Cons.IH [of "current @ [r]" tokens] by simp
qed simp

lemma concat_tokenize_loop:
  "concat (tokenize_loop p rs current []) = current @ filter (\<lambda>r. \<not> isSpace r \<or> r = 10) rs"
proof (induction rs arbitrary: current)
  case (Cons r rs)
  have "concat (tokenize_loop p rs [] xs) = concat xs @ filter (\<lambda>r. \<not> isSpace r \<or> r = 10) rs" for xs
    using tokenize_loop_tokens [of p rs "[]" xs] Cons.IH [of "[]"] by simp
  then show ?case using Cons.IH [of "current @ [r]"] by (auto simp: flush_def)
qed (simp add: flush_def)

lemma count_loop_tokens: "count_loop p rs n b = n + count_loop p rs 0 b"
proof (induction rs arbitrary: n b)
  case (Cons r rs)
  show ?case using Cons.IH [of "n + 1" False] Cons.IH [of 1 False] Cons.IH [of n False] Cons.IH [of n True] by simp
qed simp

lemma count_le_tokenize: "count_loop p rs 0 (current \<noteq> []) \<le> int (length (tokenize_loop p rs current []))"
proof (induction rs arbitrary: current)
  case (Cons r rs)
  have t: "int (length xs) + count_loop p rs 0 False \<le> int (length (tokenize_loop p rs [] xs))" for xs
    using tokenize_loop_tokens [of p rs "[]" xs] Cons.IH [of "[]"] by simp
  have c: "count_loop p rs 1 False = 1 + count_loop p rs 0 False" by (rule count_loop_tokens)
  show ?case using Cons.IH [of "current @ [r]"] t [of "flush current"] t [of "flush current @ [[10]]"]
      t [of "flush current @ [[r]]"] c by (auto simp: flush_def)
qed (simp add: flush_def)

lemma fields_le_count: "(w \<longrightarrow> b) \<Longrightarrow> fields_loop rs b + (if w then 1 else 0) \<le> count_loop p rs 0 w"
proof (induction rs arbitrary: b w)
  case (Cons r rs)
  have c: "count_loop p rs 1 False = 1 + count_loop p rs 0 False" by (rule count_loop_tokens)
  show ?case using Cons.IH [of False False] Cons.IH [of False True] Cons.IH [of True True] Cons.prems c by auto
qed simp

lemma fields_loop_nonneg: "0 \<le> fields_loop rs b"
  by (induction rs arbitrary: b) (auto simp: add_increasing)


text \<open>Tokenizing loses nothing but blanks: the tokens put together are the runes of the text in their order,
  without the white space that is not a line feed.\<close>

theorem Tokenize_lossless:
  "concat (Tokenize isPunct text) = filter (\<lambda>r. \<not> isSpace r \<or> r = 10) (runes text)"
  by (simp add: Tokenize_def concat_tokenize_loop)

text \<open>The token count of a text is at least the number of its fields, and at most the larger of the number
  of its tokens and 1.3 tokens per field.  It may be below the number of tokens, since a word directly
  before a punctuation mark is not counted.\<close>

theorem CountTokens_bounds:
  "fields_loop (runes text) False \<le> CountTokens ovf isPunct text
     \<and> CountTokens ovf isPunct text \<le> max (int (length (Tokenize isPunct text)))
         (f64_to_int64 ovf (f64_mul (f64_of_int (fields_loop (runes text) False)) (f64_round (13 / 10))))"
proof (cases "text = ''''")
  case True
  then show ?thesis by (simp add: CountTokens_def runes_def runes_of.simps Tokenize_def flush_def)
next
  case False
  then show ?thesis
    using fields_le_count [of False False "runes text" isPunct] count_le_tokenize [of isPunct "runes text" "[]"]
    by (auto simp: CountTokens_def Tokenize_def Let_def)
qed

text \<open>A word directly before a punctuation mark: two tokens, counted as one.\<close>

lemma count_misses_a_word:
  "CountTokens ovf (\<lambda>r. r = 46) ''ok.'' = 1" "length (Tokenize (\<lambda>r. r = 46) ''ok.'') = 2"
proof -
  have r: "runes ''ok.'' = [111, 107, 46]"
    by (simp add: runes_def runes_of.simps decode_rune_def Let_def of_char_of)
  then show "length (Tokenize (\<lambda>r. r = 46) ''ok.'') = 2" by (simp add: Tokenize_def isSpace_def flush_def)
  have "f64_round (13 / 10) \<le> f64_round (3 / 2)" by (rule f64_round_mono) simp
  moreover have "f64_round (3 / 2) = 3 / 2" by code_simp
  ultimately have "f64_mul 1 (f64_round (13 / 10)) \<le> f64_round (3 / 2)" by (simp add: f64_mul_def f64_round_mono)
  then have "\<lfloor>f64_mul 1 (f64_round (13 / 10))\<rfloor> \<le> 1" unfolding \<open>f64_round (3 / 2) = 3 / 2\<close> by linarith
  moreover have "0 \<le> f64_mul 1 (f64_round (13 / 10))" by (simp add: f64_mul_def f64_round_nonneg)
  ultimately have "f64_to_int64 ovf (f64_mul 1 (f64_round (13 / 10))) \<le> 1"
    by (simp add: f64_to_int64_def Let_def)
  then show "CountTokens ovf (\<lambda>r. r = 46) ''ok.'' = 1" by (simp add: CountTokens_def isSpace_def r Let_def)
qed

interpretation simple: tokenizer "CountTokens ovf isPunct" "NewSimpleTokenizer n" for ovf isPunct n
proof
  fix s
  have "0 \<le> fields_loop (runes s) False" by (rule fields_loop_nonneg)
  then show "0 \<le> CountTokens ovf isPunct s"
    using fields_le_count [of False False "runes s" isPunct] by (auto simp: CountTokens_def Let_def)
qed (simp add: NewSimpleTokenizer_def)

section \<open>The packer keeps the budget\<close>

definition sizes :: "(string \<Rightarrow> int) \<Rightarrow> context_item list \<Rightarrow> int" where
  "sizes tk items = sum_list (map (countItemTokens tk) items)"

lemma sizes_simps [simp]: "sizes tk [] = 0" "sizes tk (xs @ ys) = sizes tk xs + sizes tk ys"
  "sizes tk (x # xs) = countItemTokens tk x + sizes tk xs"
  by (simp_all add: sizes_def)

lemma EstimateContextSize_eq: "EstimateContextSize tk items = sizes tk items"
proof -
  have "foldl (\<lambda>total item. total + countItemTokens tk item) n items = n + sizes tk items" for n
    by (induction items arbitrary: n) auto
  then show ?thesis by (simp add: EstimateContextSize_def)
qed

lemma split_point:
  fixes ovf :: int
  assumes "0 \<le> q" and "q \<le> (1 :: rat)" and "int (length (ci_Content item)) < 2 ^ 53"
  defines "p \<equiv> f64_to_int64 ovf (f64_mul (f64_of_int (int (length (ci_Content item)))) (f64_round q))"
  shows "0 \<le> p" and "p \<le> int (length (ci_Content item))"
proof -
  let ?n = "int (length (ci_Content item))"
  have q: "0 \<le> f64_round q" "f64_round q \<le> 1"
    using f64_round_nonneg [OF assms(1)] f64_round_le_int [of 1 q] assms(2) by simp_all
  let ?x = "f64_mul (f64_of_int ?n) (f64_round q)"
  have "of_int ?n * f64_round q \<le> of_int ?n * 1" using q by (intro mult_left_mono) auto
  then have x: "0 \<le> ?x" "?x \<le> of_int ?n"
    using q assms(3) f64_round_le_int [of ?n "of_int ?n * f64_round q"] by (simp_all add: f64_mul_def f64_round_nonneg)
  then have "0 \<le> \<lfloor>?x\<rfloor>" "\<lfloor>?x\<rfloor> \<le> ?n" by (simp_all add: floor_le_iff)
  then show "0 \<le> p" and "p \<le> ?n" using x assms(3) by (auto simp: p_def f64_to_int64_def Let_def)
qed

lemma splitItem_total:
  assumes "int (length (ci_Content item)) < 2 ^ 53"
  shows "\<exists>r. splitItem ovf tk item b = Some r \<and> (\<forall>x n. r = Some (x, n) \<longrightarrow>
    n = countItemTokens tk x \<and> n \<le> b \<and> (\<exists>k \<le> length (ci_Content item). x = partial_item item k))"
proof -
  have loop: "\<exists>r. split_loop ovf tk item b qs = Some r \<and> (\<forall>x n. r = Some (x, n) \<longrightarrow>
      n = countItemTokens tk x \<and> n \<le> b \<and> (\<exists>k \<le> length (ci_Content item). x = partial_item item k))"
    if "\<forall>q \<in> set qs. \<exists>q'. q = f64_round q' \<and> 0 \<le> q' \<and> q' \<le> 1" for qs
    using that
  proof (induction qs)
    case (Cons q qs)
    then obtain q' where q: "q = f64_round q'" "0 \<le> q'" "q' \<le> 1" by auto
    show ?case using Cons split_point [OF q(2,3) assms, of ovf]
      by (auto simp: Let_def q(1) not_less intro!: exI [of _ "nat (f64_to_int64 ovf _)"])
  qed simp
  show ?thesis unfolding splitItem_def
    by (rule loop) (auto intro: exI [of _ "3 / 4"] exI [of _ "1 / 2"] exI [of _ "1 / 4"])
qed


lemma pack_always_result:
  assumes "pack_always tk b items always packed cur = (packed', cur')" and "cur = sizes tk packed" and "cur \<le> b"
  shows "cur' = sizes tk packed' \<and> cur' \<le> b \<and> (\<exists>xs. packed' = packed @ xs \<and> set xs \<subseteq> set items \<and> ci_ID ` set xs \<subseteq> always)"
  using assms
proof (induction items arbitrary: always packed cur)
  case (Cons x xs)
  show ?case
  proof (cases "ci_ID x \<in> always \<and> cur + countItemTokens tk x \<le> b")
    case True
    then show ?thesis
      using Cons.IH [of "always - {ci_ID x}" "packed @ [x]" "cur + countItemTokens tk x"] Cons.prems
      by (fastforce simp: Let_def)
  next
    case False
    then have "pack_always tk b xs always packed cur = (packed', cur')" using Cons.prems(1) by (auto simp: Let_def)
    from Cons.IH [OF this Cons.prems(2,3)] show ?thesis by auto
  qed
qed auto

text \<open>Ranked items, then at most one truncated ranked item.\<close>

definition packs :: "context_item list \<Rightarrow> context_item list \<Rightarrow> bool" where
  "packs ranked zs \<longleftrightarrow> (\<exists>xs ps. zs = xs @ ps \<and> set xs \<subseteq> set ranked \<and> length ps \<le> 1
     \<and> (\<forall>p \<in> set ps. \<exists>y \<in> set ranked. \<exists>k \<le> length (ci_Content y). p = partial_item y k))"

lemma packs_mono: "packs ranked zs \<Longrightarrow> set ranked \<subseteq> set ranked' \<Longrightarrow> packs ranked' zs"
  unfolding packs_def by (elim exE, rule_tac x = xs in exI, rule_tac x = ps in exI) blast

lemma packs_append:
  assumes "packs ranked zs" and "set ys \<subseteq> set ranked"
  shows "packs ranked (ys @ zs)"
proof -
  obtain xs ps where zs: "zs = xs @ ps" "set xs \<subseteq> set ranked" "length ps \<le> 1"
    "\<forall>p \<in> set ps. \<exists>y \<in> set ranked. \<exists>k \<le> length (ci_Content y). p = partial_item y k"
    using assms(1) by (auto simp: packs_def)
  show ?thesis unfolding packs_def
    by (rule exI [of _ "ys @ xs"], rule exI [of _ ps]) (use zs assms(2) in auto)
qed

lemma packs_Nil [simp]: "packs ranked []"
  by (simp add: packs_def)

lemma packs_partial: "x \<in> set ranked \<Longrightarrow> k \<le> length (ci_Content x) \<Longrightarrow> packs ranked [partial_item x k]"
  unfolding packs_def by (rule exI [of _ "[]"], rule exI [of _ "[partial_item x k]"]) auto

lemma pack_rest_result:
  assumes "\<forall>x \<in> set items. int (length (ci_Content x)) < 2 ^ 53" and "cur = sizes tk packed" and "cur \<le> b"
  shows "\<exists>zs. pack_rest ovf tk b items packed cur = Some (packed @ zs, sizes tk (packed @ zs))
    \<and> sizes tk (packed @ zs) \<le> b \<and> packs items zs"
  using assms
proof (induction items arbitrary: packed cur)
  case (Cons x items)
  let ?n = "countItemTokens tk x"
  consider "ci_ID x \<in> ci_ID ` set packed" | "ci_ID x \<notin> ci_ID ` set packed" "cur + ?n \<le> b"
    | "ci_ID x \<notin> ci_ID ` set packed" "\<not> cur + ?n \<le> b" by blast
  then show ?case
  proof cases
    case 1
    with Cons.IH [OF _ Cons.prems(2,3)] Cons.prems(1) show ?thesis by (auto elim!: packs_mono)
  next
    case 2
    with Cons.IH [of "cur + ?n" "packed @ [x]"] Cons.prems obtain zs where
      zs: "pack_rest ovf tk b items (packed @ [x]) (cur + ?n) = Some (packed @ x # zs, sizes tk (packed @ x # zs))"
      "sizes tk (packed @ x # zs) \<le> b" "packs items zs" by auto
    then have "packs (x # items) ([x] @ zs)" by (intro packs_append packs_mono [OF zs(3)]) auto
    then show ?thesis using zs 2 by (intro exI [of _ "x # zs"]) (simp add: Let_def)
  next
    case 3
    obtain r where r: "splitItem ovf tk x (b - cur) = Some r" and
      p: "\<And>y n. r = Some (y, n) \<Longrightarrow> n = countItemTokens tk y \<and> n \<le> b - cur \<and> (\<exists>k \<le> length (ci_Content x). y = partial_item x k)"
      using splitItem_total [of x ovf tk "b - cur"] Cons.prems(1) by auto
    show ?thesis
    proof (cases "canSplitItem x \<and> r \<noteq> None")
      case True
      then obtain y n where y: "r = Some (y, n)" by auto
      with p [OF y] have "packs (x # items) [y]" by (auto intro: packs_partial)
      then show ?thesis using 3 r True p [OF y] Cons.prems(2) y by (intro exI [of _ "[y]"]) (simp add: Let_def)
    next
      case False
      then show ?thesis using 3 r Cons.prems(2,3)
        by (cases r) (auto simp: Let_def intro!: exI [of _ "[]"])
    qed
  qed
qed auto

text \<open>C36 Packing never panics and never exceeds the budget: the tokens it reports are the tokens of what it
  packed, at most the budget, and what it packed are ranked items, then at most one truncated ranked item.
  The simple tokenizer is the one the packer is built with.\<close>

theorem PackContextWindow_budget:
  fixes ovf n :: int and isPunct :: "nat \<Rightarrow> bool"
  assumes "\<forall>x \<in> set ranked. int (length (ci_Content x)) < 2 ^ 53"
  defines "tk \<equiv> CountTokens ovf isPunct" and "limit \<equiv> NewSimpleTokenizer n"
  shows "\<exists>packed used. PackContextWindow ovf tk limit ranked maxTokens always = Some (packed, used)
           \<and> used = EstimateContextSize tk packed \<and> used \<le> (if maxTokens \<le> 0 then limit else maxTokens)
           \<and> (\<exists>xs ps. packed = xs @ ps \<and> set xs \<subseteq> set ranked \<and> length ps \<le> 1
                \<and> (\<forall>p \<in> set ps. \<exists>y \<in> set ranked. \<exists>k \<le> length (ci_Content y). p = partial_item y k))"
proof -
  let ?b = "if maxTokens \<le> 0 then limit else maxTokens"
  have b: "0 \<le> ?b" using simple.limit_pos [of n] by (auto simp: limit_def)
  obtain packed cur where a: "pack_always tk ?b ranked (set always) [] 0 = (packed, cur)" by fastforce
  have c: "cur = sizes tk packed" "cur \<le> ?b" "set packed \<subseteq> set ranked"
    using pack_always_result [OF a _ b] by auto
  obtain zs where "pack_rest ovf tk ?b ranked packed cur = Some (packed @ zs, sizes tk (packed @ zs))"
    and "sizes tk (packed @ zs) \<le> ?b" and "packs ranked zs"
    using pack_rest_result [OF assms(1) c(1,2)] by blast
  moreover have "packs ranked (packed @ zs)" using calculation(3) c(3) by (rule packs_append)
  ultimately show ?thesis unfolding packs_def PackContextWindow_def Let_def EstimateContextSize_eq a by auto
qed


theorem PackContextWindow_budget_witness:
  "\<exists>packed used. PackContextWindow 0 (CountTokens 0 (\<lambda>r. r = 46)) (NewSimpleTokenizer 0) [some_item ''i''] 0 []
       = Some (packed, used) \<and> used \<le> 8192"
  using PackContextWindow_budget [of "[some_item ''i'']" 0 "\<lambda>r. r = 46" 0 0 "[]"]
  by (auto simp: some_item_def NewSimpleTokenizer_def)

lemma pack_always_all:
  assumes "distinct (map ci_ID items)" and "cur + sizes tk (filter (\<lambda>x. ci_ID x \<in> always) items) \<le> b"
    and "\<And>x. 0 \<le> countItemTokens tk x"
  shows "fst (pack_always tk b items always packed cur) = packed @ filter (\<lambda>x. ci_ID x \<in> always) items"
  using assms(1,2)
proof (induction items arbitrary: always packed cur)
  case (Cons x items)
  let ?f = "filter (\<lambda>y. ci_ID y \<in> always) items"
  have pos: "0 \<le> sizes tk xs" for xs by (induction xs) (simp_all add: assms(3))
  have same: "filter (\<lambda>y. ci_ID y \<in> always - {ci_ID x}) items = ?f"
    using Cons.prems(1) by (intro filter_cong) (auto simp: image_iff)
  show ?case
  proof (cases "ci_ID x \<in> always")
    case True
    then have "cur + countItemTokens tk x \<le> b" using Cons.prems(2) pos [of ?f] by simp
    then show ?thesis
      using True Cons.IH [of "cur + countItemTokens tk x" "always - {ci_ID x}" "packed @ [x]"] Cons.prems same
      by (simp add: Let_def add.assoc)
  next
    case False
    then show ?thesis using Cons.IH [of cur always packed] Cons.prems by (simp add: Let_def)
  qed
qed simp

lemma pack_rest_prefix:
  "pack_rest ovf tk b items packed cur = Some (packed', cur') \<Longrightarrow> \<exists>zs. packed' = packed @ zs"
proof (induction items arbitrary: packed cur)
  case (Cons x items)
  then show ?case by (fastforce simp: Let_def split: if_splits option.splits prod.splits)
qed simp

text \<open>Items that must be included are included first, in the order of their rank, whenever they fit into the
  budget together, whatever else competes with them.\<close>

theorem PackContextWindow_always:
  assumes "distinct (map ci_ID ranked)" and "0 < maxTokens"
    and "EstimateContextSize (CountTokens ovf isPunct) (filter (\<lambda>x. ci_ID x \<in> set always) ranked) \<le> maxTokens"
    and "PackContextWindow ovf (CountTokens ovf isPunct) limit ranked maxTokens always = Some (packed, used)"
  shows "\<exists>zs. packed = filter (\<lambda>x. ci_ID x \<in> set always) ranked @ zs"
proof -
  let ?tk = "CountTokens ovf isPunct"
  obtain p c where pc: "pack_always ?tk maxTokens ranked (set always) [] 0 = (p, c)" by fastforce
  then have "p = filter (\<lambda>x. ci_ID x \<in> set always) ranked"
    using pack_always_all [OF assms(1), of 0 ?tk "set always" maxTokens "[]"] assms(3)
    by (simp add: EstimateContextSize_eq simple.countItemTokens_nonneg)
  moreover have "pack_rest ovf ?tk maxTokens ranked p c = Some (packed, used)"
    using assms(2,4) pc by (simp add: PackContextWindow_def)
  ultimately show ?thesis using pack_rest_prefix by blast
qed


definition empty_item :: "string \<Rightarrow> context_item" where
  "empty_item i = (some_item i)\<lparr>ci_Type := '''', ci_Content := ''''\<rparr>"

theorem PackContextWindow_always_witness:
  "\<exists>zs used. PackContextWindow 0 (CountTokens 0 (\<lambda>r. r = 46)) 8192 [some_item ''a'', empty_item ''b''] 1 [''b'']
     = Some (empty_item ''b'' # zs, used)"
proof -
  let ?tk = "CountTokens 0 (\<lambda>r. r = 46)" and ?items = "[some_item ''a'', empty_item ''b'']"
  have zero: "countItemTokens ?tk (empty_item ''b'') = 0"
    by (simp add: countItemTokens_def formatContextItem_def empty_item_def some_item_def as_string_def CountTokens_def)
  have b: "filter (\<lambda>x. ci_ID x \<in> set [''b'']) ?items = [empty_item ''b'']"
    by (simp add: some_item_def empty_item_def)
  have "pack_always ?tk 1 ?items (set [''b'']) [] 0 = ([empty_item ''b''], 0)"
    using zero by (simp add: Let_def) (simp add: some_item_def empty_item_def)
  moreover obtain packed used where "pack_rest 0 ?tk 1 ?items [empty_item ''b''] 0 = Some (packed, used)"
    using pack_rest_result [of ?items 0 ?tk "[empty_item ''b'']" 1 0] zero
    by (auto simp: some_item_def empty_item_def)
  ultimately have "PackContextWindow 0 ?tk 8192 ?items 1 [''b''] = Some (packed, used)"
    by (simp add: PackContextWindow_def)
  from PackContextWindow_always [OF _ _ _ this, unfolded b] this zero show ?thesis
    by (auto simp: EstimateContextSize_eq some_item_def empty_item_def)
qed

end
