(* ===== verification/Task_Repository.thy ===== *)
theory Task_Repository
  imports Assignment_Engine Circuit_Breaker Status_Spec Uuid_Text
begin

text \<open>
  The task repository of \<open>pkg/repository/postgres/task_repository.go\<close> and
  \<open>task_repository_methods.go\<close> over \<open>base_repository.go\<close>: the table of tasks, the delegations, the
  archive, the cache in front of the table and the circuit breaker (\<open>Circuit_Breaker\<close>) around the
  statements.

  The table is the list of its rows: an \<open>INSERT\<close> appends a row unless one has the same primary key
  \<open>(id, created_at)\<close>, an \<open>UPDATE \<dots> WHERE\<close> maps over the rows, a query filters them and
  \<open>GetContext\<close> takes the first row it is given.  Columns an \<open>INSERT\<close> leaves out take the column
  defaults of the schema in use, the row \<open>rv_default\<close>.  What a call depends on outside the
  repository (the clock, fresh ids, the errors the driver reports for a statement, which event the
  breaker sees first, whether the cache server answers) is the record \<open>repo_env\<close>.  The cache is the
  Redis cache of \<open>pkg/common/cache/redis_cache.go\<close>: it returns what was stored until its time to live
  has passed.  The read replica is taken to be in step with the primary; metrics, tracing and
  the caches of prepared statements are left out.
\<close>

section \<open>Model: data\<close>

record mtask = task +
  tk_ID :: uuid
  tk_Status :: status
  tk_CreatedBy :: string
  tk_AssignedTo :: "string option"
  tk_ParentTaskID :: "uuid option"
  tk_Title :: string
  tk_Description :: string
  tk_Result :: "(string, gval) fmap option"
  tk_Error :: string
  tk_MaxRetries :: int
  tk_RetryCount :: int
  tk_CreatedAt :: go_time
  tk_AssignedAt :: "go_time option"
  tk_StartedAt :: "go_time option"
  tk_CompletedAt :: "go_time option"
  tk_UpdatedAt :: go_time
  tk_DeletedAt :: "go_time option"
  tk_Version :: int

record delegation =
  dl_ID :: uuid
  dl_TaskID :: uuid
  dl_TaskCreatedAt :: go_time
  dl_FromAgentID :: string
  dl_ToAgentID :: string
  dl_Reason :: string
  dl_DelegationType :: string
  dl_DelegatedAt :: go_time

record task_tree =
  tt_Root :: mtask
  tt_Children :: "(uuid, mtask list) fmap"
  tt_Depth :: int

text \<open>
  \<open>types.ErrNotFound\<close> and \<open>interfaces.ErrNotFound\<close> are different values, and so are the two
  \<open>ErrOptimisticLock\<close>.
\<close>

datatype task_error =
    TypesErrNotFound
  | TypesErrAlreadyExists
  | TypesErrOptimisticLock
  | InterfacesErrNotFound
  | InterfacesErrOptimisticLock
  | PqError string string
  | NewError string
  | BreakerError cb_error
  | WrapError string task_error

datatype race = ResultFirst | TimerFirst | ContextFirst string

record repo_env =
  rv_now :: go_time
  rv_uuid :: "nat \<Rightarrow> uuid"
  rv_db :: "string \<Rightarrow> task_error option"
  rv_insert :: "nat \<Rightarrow> task_error option"
  rv_ctx_done :: "nat \<Rightarrow> bool"
  rv_race :: "string \<Rightarrow> race"
  rv_cache_up :: bool
  rv_default :: mtask
  rv_time_text :: "go_time \<Rightarrow> string"
  rv_locked :: "uuid \<Rightarrow> bool"

record task_repo =
  tr_rows :: "mtask list"
  tr_archive :: "mtask list"
  tr_delegations :: "delegation list"
  tr_cache :: "(string, mtask \<times> go_time) fmap"
  tr_cb :: circuit_breaker

definition NewTaskRepository :: "go_time \<Rightarrow> task_repo" where
  "NewTaskRepository now =
     \<lparr>tr_rows = [], tr_archive = [], tr_delegations = [], tr_cache = fmempty,
      tr_cb = NewCircuitBreaker now ''task_repository''
        \<lparr>cc_FailureThreshold = 5, cc_FailureRatio = 0, cc_ResetTimeout = 30 * second, cc_SuccessThreshold = 0,
         cc_TimeoutThreshold = 0, cc_MaxRequestsHalfOpen = 0, cc_MinimumRequestCount = 0\<rparr>\<rparr>"

definition maxRetries :: nat where "maxRetries = 3"
definition batchSize :: nat where "batchSize = 1000"

section \<open>Model: errors\<close>

fun cb_text :: "cb_error \<Rightarrow> string" where
  "cb_text ErrCircuitBreakerOpen = ''circuit breaker is open''"
| "cb_text ErrCircuitBreakerTimeout = ''circuit breaker timeout''"
| "cb_text ErrMaxRequestsExceeded = ''max requests exceeded in half-open state''"
| "cb_text (ErrContext e) = e"
| "cb_text (ErrOperation e) = e"
| "cb_text (Wrap e m) = m @ '': '' @ cb_text e"

fun err_text :: "task_error \<Rightarrow> string" where
  "err_text TypesErrNotFound = ''entity not found''"
| "err_text TypesErrAlreadyExists = ''entity already exists''"
| "err_text TypesErrOptimisticLock = ''version mismatch''"
| "err_text InterfacesErrNotFound = ''entity not found''"
| "err_text InterfacesErrOptimisticLock = ''optimistic lock failed''"
| "err_text (PqError code m) = ''pq: '' @ m"
| "err_text (NewError m) = m"
| "err_text (BreakerError e) = cb_text e"
| "err_text (WrapError m e) = m @ '': '' @ err_text e"

fun errors_Is :: "task_error \<Rightarrow> task_error \<Rightarrow> bool" where
  "errors_Is (WrapError m e) target = (WrapError m e = target \<or> errors_Is e target)"
| "errors_Is e target = (e = target)"

definition strings_Contains :: "string \<Rightarrow> string \<Rightarrow> bool" where
  "strings_Contains s sub = list_ex (\<lambda>i. take (length sub) (drop i s) = sub) [0..<Suc (length s)]"

definition network_error :: "string \<Rightarrow> bool" where
  "network_error s \<longleftrightarrow> strings_Contains s ''connection refused'' \<or> strings_Contains s ''connection reset''
     \<or> strings_Contains s ''broken pipe''"

definition isRetryableError :: "task_error option \<Rightarrow> bool" where
  "isRetryableError err =
     (case err of
        None \<Rightarrow> False
      | Some e \<Rightarrow>
          (case e of
             PqError code m \<Rightarrow>
               if code \<in> {''40001'', ''40P01'', ''53000'', ''53200'', ''53300'', ''58000'', ''58030''} then True
               else if code \<in> {''53100'', ''57014''} then False
               else network_error (err_text e)
           | _ \<Rightarrow> network_error (err_text e)))"

section \<open>Model: base repository\<close>

definition task_key :: "uuid \<Rightarrow> string" where "task_key i = ''task:'' @ uuid_String i"

text \<open>
  A cached task has gone through \<open>encoding/json\<close>, where \<open>Result\<close> is tagged \<open>omitempty\<close>: an empty
  map comes back as nil.
\<close>

definition cached_copy :: "(go_time \<Rightarrow> string) \<Rightarrow> mtask \<Rightarrow> mtask" where
  "cached_copy tt t = t\<lparr>tk_Parameters := map_option (json_map tt) (tk_Parameters t),
     tk_Result := (if tk_Result t = Some fmempty then None else map_option (json_map tt) (tk_Result t))\<rparr>"

definition CacheGet :: "repo_env \<Rightarrow> string \<Rightarrow> task_repo \<Rightarrow> mtask option" where
  "CacheGet rv key r =
     (if \<not> rv_cache_up rv then None
      else case fmlookup (tr_cache r) key of
             None \<Rightarrow> None
           | Some (t, expiry) \<Rightarrow> if rv_now rv < expiry then Some t else None)"

definition CacheSet :: "repo_env \<Rightarrow> string \<Rightarrow> mtask \<Rightarrow> duration \<Rightarrow> task_repo \<Rightarrow> task_repo" where
  "CacheSet rv key t ttl r =
     (if rv_cache_up rv
      then r\<lparr>tr_cache := fmupd key (cached_copy (rv_time_text rv) t, rv_now rv + ttl) (tr_cache r)\<rparr>
      else r)"

definition CacheDelete :: "repo_env \<Rightarrow> string \<Rightarrow> task_repo \<Rightarrow> task_repo" where
  "CacheDelete rv key r = (if rv_cache_up rv then r\<lparr>tr_cache := fmdrop key (tr_cache r)\<rparr> else r)"

definition invalidateTaskCache :: "repo_env \<Rightarrow> mtask \<Rightarrow> task_repo \<Rightarrow> task_repo" where
  "invalidateTaskCache rv t r =
     (let keys = [task_key (tk_ID t), ''tasks:tenant:'' @ uuid_String (tk_TenantID t)]
            @ (case tk_AssignedTo t of None \<Rightarrow> [] | Some a \<Rightarrow> [''tasks:agent:'' @ a])
            @ (case tk_ParentTaskID t of None \<Rightarrow> [] | Some p \<Rightarrow> [''subtasks:'' @ uuid_String p])
      in foldl (\<lambda>r key. CacheDelete rv key r) r keys)"

text \<open>
  \<open>rv_race\<close> says whether the timer or the context wins the race in the breaker's \<open>select\<close>; the
  statement then still runs to its end in its goroutine, but its result is not looked at.
\<close>

definition ExecuteWithCircuitBreaker ::
  "repo_env \<Rightarrow> string \<Rightarrow> (task_repo \<Rightarrow> (task_error + 'a) \<times> task_repo) \<Rightarrow> task_repo \<Rightarrow>
     (task_error + 'a) \<times> task_repo" where
  "ExecuteWithCircuitBreaker rv name fn r =
     (let now = rv_now rv;
          (res, r') = fn r;
          ev = (case rv_race rv name of
                  ResultFirst \<Rightarrow> FnResult (case res of Inl e \<Rightarrow> Inl (err_text e) | Inr v \<Rightarrow> Inr v)
                | TimerFirst \<Rightarrow> TimerFired
                | ContextFirst e \<Rightarrow> ContextDone e);
          (out, cb) = cb_Execute now now ev (tr_cb r)
      in if fst (cb_canExecute now (tr_cb r)) \<noteq> None
         then (map_sum BreakerError id out, r\<lparr>tr_cb := cb\<rparr>)
         else (case (rv_race rv name, res) of
                 (ResultFirst, Inl e) \<Rightarrow> Inl (WrapError ''circuit breaker execution failed'' e)
               | _ \<Rightarrow> map_sum BreakerError id out,
               r'\<lparr>tr_cb := cb\<rparr>))"

text \<open>\<open>WithTransaction\<close>: the function's changes to the tables are kept only when it returns nil and the commit succeeds.\<close>

definition repo_WithTransaction ::
  "repo_env \<Rightarrow> (task_repo \<Rightarrow> (task_error + 'a) \<times> task_repo) \<Rightarrow> task_repo \<Rightarrow> (task_error + 'a) \<times> task_repo" where
  "repo_WithTransaction rv fn r =
     (let undone = (\<lambda>r'. r'\<lparr>tr_rows := tr_rows r, tr_archive := tr_archive r, tr_delegations := tr_delegations r\<rparr>)
      in case rv_db rv ''begin'' of
           Some e \<Rightarrow> (Inl (WrapError ''failed to begin transaction'' e), r)
         | None \<Rightarrow>
             (case fn r of
                (Inl e, r') \<Rightarrow> (Inl e, undone r')
              | (Inr v, r') \<Rightarrow>
                  (case rv_db rv ''commit'' of
                     Some e \<Rightarrow> (Inl (WrapError ''failed to commit transaction'' e), undone r')
                   | None \<Rightarrow> (Inr v, r'))))"

section \<open>Model: reads\<close>

definition live :: "uuid \<Rightarrow> mtask \<Rightarrow> bool" where
  "live i t \<longleftrightarrow> tk_ID t = i \<and> tk_DeletedAt t = None"

definition select_task :: "repo_env \<Rightarrow> string \<Rightarrow> string \<Rightarrow> uuid \<Rightarrow> task_repo \<Rightarrow> task_error + mtask" where
  "select_task rv stmt msg i r =
     (case rv_db rv stmt of
        Some e \<Rightarrow> Inl (WrapError msg e)
      | None \<Rightarrow>
          (case List.find (live i) (tr_rows r) of
             None \<Rightarrow> Inl TypesErrNotFound
           | Some t \<Rightarrow> Inr t))"

definition doGet :: "repo_env \<Rightarrow> uuid \<Rightarrow> task_repo \<Rightarrow> task_error + mtask" where
  "doGet rv i r = select_task rv ''get'' ''failed to get task'' i r"

definition tr_Get :: "repo_env \<Rightarrow> uuid \<Rightarrow> task_repo \<Rightarrow> (task_error + mtask) \<times> task_repo" where
  "tr_Get rv i r =
     (case CacheGet rv (task_key i) r of
        Some t \<Rightarrow> (Inr t, r)
      | None \<Rightarrow>
          (case ExecuteWithCircuitBreaker rv ''task_get'' (\<lambda>r. (doGet rv i r, r)) r of
             (Inl e, r) \<Rightarrow> (Inl e, r)
           | (Inr t, r) \<Rightarrow> (Inr t, CacheSet rv (task_key i) t (5 * minute) r)))"

definition doGetBatch :: "repo_env \<Rightarrow> uuid list \<Rightarrow> task_repo \<Rightarrow> task_error + mtask list" where
  "doGetBatch rv ids r =
     (case rv_db rv ''get_batch'' of
        Some e \<Rightarrow> Inl (WrapError ''failed to get tasks'' e)
      | None \<Rightarrow> Inr (filter (\<lambda>t. tk_ID t \<in> set ids \<and> tk_DeletedAt t = None) (tr_rows r)))"

definition tr_GetBatch :: "repo_env \<Rightarrow> uuid list \<Rightarrow> task_repo \<Rightarrow> (task_error + mtask list) \<times> task_repo" where
  "tr_GetBatch rv ids r =
     (if ids = [] then (Inr [], r)
      else
        let tasks = List.map_filter (\<lambda>i. CacheGet rv (task_key i) r) ids;
            uncachedIDs = filter (\<lambda>i. CacheGet rv (task_key i) r = None) ids
        in if uncachedIDs = [] then (Inr tasks, r)
           else case doGetBatch rv uncachedIDs r of
                  Inl e \<Rightarrow> (Inl e, r)
                | Inr dbTasks \<Rightarrow>
                    (Inr (tasks @ dbTasks),
                     foldl (\<lambda>r t. CacheSet rv (task_key (tk_ID t)) t (5 * minute) r) r dbTasks))"

definition doGetForUpdate :: "repo_env \<Rightarrow> uuid \<Rightarrow> task_repo \<Rightarrow> task_error + mtask" where
  "doGetForUpdate rv i r = select_task rv ''get_for_update'' ''failed to get task for update'' i r"

definition tr_GetForUpdate :: "repo_env \<Rightarrow> uuid \<Rightarrow> task_repo \<Rightarrow> (task_error + mtask) \<times> task_repo" where
  "tr_GetForUpdate rv i r =
     ExecuteWithCircuitBreaker rv ''task_get_for_update'' (\<lambda>r. (doGetForUpdate rv i r, r)) r"

section \<open>Model: inserts\<close>

definition stored_task :: "(go_time \<Rightarrow> string) \<Rightarrow> mtask \<Rightarrow> mtask" where
  "stored_task tt t = t\<lparr>tk_Parameters := map_option (json_map tt) (tk_Parameters t),
     tk_Result := map_option (json_map tt) (tk_Result t)\<rparr>"

text \<open>The columns of \<open>INSERT INTO tasks\<close>; every other column takes its default.\<close>

definition inserted_row :: "repo_env \<Rightarrow> mtask \<Rightarrow> mtask" where
  "inserted_row rv t =
     (let d = rv_default rv
      in (stored_task (rv_time_text rv) t)\<lparr>tk_Result := tk_Result d, tk_Error := tk_Error d,
           tk_RetryCount := tk_RetryCount d, tk_AssignedAt := tk_AssignedAt d, tk_StartedAt := tk_StartedAt d,
           tk_CompletedAt := tk_CompletedAt d, tk_DeletedAt := tk_DeletedAt d, tk_Version := tk_Version d\<rparr>)"

definition same_key :: "mtask \<Rightarrow> mtask \<Rightarrow> bool" where
  "same_key t row \<longleftrightarrow> tk_ID row = tk_ID t \<and> tk_CreatedAt row = tk_CreatedAt t"

definition prepared :: "repo_env \<Rightarrow> nat \<Rightarrow> mtask \<Rightarrow> mtask" where
  "prepared rv n t = (if tk_ID t = 0 then t\<lparr>tk_ID := rv_uuid rv n\<rparr> else t)\<lparr>tk_CreatedAt := rv_now rv,
     tk_UpdatedAt := rv_now rv, tk_Version := 1\<rparr>"

definition doCreate :: "repo_env \<Rightarrow> nat \<Rightarrow> mtask \<Rightarrow> task_repo \<Rightarrow> task_error option \<times> mtask \<times> task_repo" where
  "doCreate rv attempt t r =
     (let t = prepared rv 0 t
      in case rv_db rv ''prepare_create'' of
           Some e \<Rightarrow> (Some (WrapError ''failed to prepare statement'' e), t, r)
         | None \<Rightarrow>
             (case rv_insert rv attempt of
                Some e \<Rightarrow> (Some (WrapError ''failed to create task'' e), t, r)
              | None \<Rightarrow>
                  if list_ex (same_key t) (tr_rows r) then (Some TypesErrAlreadyExists, t, r)
                  else (None, t, invalidateTaskCache rv t (r\<lparr>tr_rows := tr_rows r @ [inserted_row rv t]\<rparr>))))"

fun create_loop ::
  "repo_env \<Rightarrow> nat \<Rightarrow> nat \<Rightarrow> task_error option \<Rightarrow> mtask \<Rightarrow> task_repo \<Rightarrow> task_error option \<times> mtask \<times> task_repo" where
  "create_loop rv 0 attempt err t r = (err, t, r)"
| "create_loop rv (Suc n) attempt err t r =
     (let (err, t, r) = doCreate rv attempt t r
      in if err = None then (None, t, r)
         else if \<not> isRetryableError err then (err, t, r)
         else if rv_ctx_done rv attempt then (Some (NewError ''context canceled''), t, r)
         else create_loop rv n (Suc attempt) err t r)"

definition createWithRetry :: "repo_env \<Rightarrow> mtask \<Rightarrow> task_repo \<Rightarrow> task_error option \<times> mtask \<times> task_repo" where
  "createWithRetry rv t r = create_loop rv maxRetries 0 None t r"

definition tr_Create :: "repo_env \<Rightarrow> mtask \<Rightarrow> task_repo \<Rightarrow> (task_error + mtask) \<times> task_repo" where
  "tr_Create rv t r =
     ExecuteWithCircuitBreaker rv ''task_create''
       (\<lambda>r. let (err, t, r) = createWithRetry rv t r
            in (case err of Some e \<Rightarrow> Inl e | None \<Rightarrow> Inr t, r)) r"

definition doBatchInsert :: "repo_env \<Rightarrow> nat \<Rightarrow> mtask list \<Rightarrow> task_repo \<Rightarrow> task_error option \<times> task_repo" where
  "doBatchInsert rv first tasks r =
     (case rv_db rv ''begin'' of Some e \<Rightarrow> (Some (WrapError ''failed to begin transaction'' e), r) | None \<Rightarrow>
     (case rv_db rv ''prepare_copy'' of Some e \<Rightarrow> (Some (WrapError ''failed to prepare copy statement'' e), r) | None \<Rightarrow>
     (let tasks = map (\<lambda>(n, t). prepared rv n t) (enumerate first tasks)
      in case rv_db rv ''copy'' of Some e \<Rightarrow> (Some (WrapError ''failed to execute copy'' e), r) | None \<Rightarrow>
     (if list_ex (\<lambda>t. list_ex (same_key t) (tr_rows r)) tasks \<or> \<not> distinct (map tk_ID tasks)
      then (Some (WrapError ''failed to complete copy'' (PqError ''23505'' ''duplicate key value violates unique constraint'')), r)
      else case rv_db rv ''commit'' of Some e \<Rightarrow> (Some (WrapError ''failed to commit transaction'' e), r) | None \<Rightarrow>
       (None, foldl (\<lambda>r t. invalidateTaskCache rv t r)
          (r\<lparr>tr_rows := tr_rows r @ map (inserted_row rv) tasks\<rparr>) tasks)))))"

function batch_loop :: "repo_env \<Rightarrow> nat \<Rightarrow> mtask list \<Rightarrow> task_repo \<Rightarrow> task_error option \<times> task_repo" where
  "batch_loop rv i [] r = (None, r)"
| "batch_loop rv i (t # ts) r =
     (case doBatchInsert rv i (take batchSize (t # ts)) r of
        (Some e, r) \<Rightarrow> (Some (WrapError ''failed to insert batch'' e), r)
      | (None, r) \<Rightarrow> batch_loop rv (i + batchSize) (drop batchSize (t # ts)) r)"
  by pat_completeness auto
termination by (relation "measure (\<lambda>(rv, i, ts, r). length ts)") (auto simp: batchSize_def)

definition tr_CreateBatch :: "repo_env \<Rightarrow> mtask list \<Rightarrow> task_repo \<Rightarrow> task_error option \<times> task_repo" where
  "tr_CreateBatch rv tasks r = batch_loop rv 0 tasks r"

section \<open>Model: updates\<close>

definition update_where :: "(mtask \<Rightarrow> bool) \<Rightarrow> (mtask \<Rightarrow> mtask) \<Rightarrow> task_repo \<Rightarrow> task_repo" where
  "update_where P f r = r\<lparr>tr_rows := map (\<lambda>t. if P t then f t else t) (tr_rows r)\<rparr>"

definition affected :: "(mtask \<Rightarrow> bool) \<Rightarrow> task_repo \<Rightarrow> nat" where
  "affected P r = length (filter P (tr_rows r))"

text \<open>The columns of \<open>UPDATE tasks SET\<close>, from the task to the row.\<close>

definition set_columns :: "(go_time \<Rightarrow> string) \<Rightarrow> mtask \<Rightarrow> mtask \<Rightarrow> mtask" where
  "set_columns tt t row =
     (let s = stored_task tt t
      in row\<lparr>tk_Type := tk_Type s, tk_Priority := tk_Priority s, tk_Parameters := tk_Parameters s,
             tk_Status := tk_Status s, tk_AssignedTo := tk_AssignedTo s, tk_Title := tk_Title s,
             tk_Description := tk_Description s, tk_Result := tk_Result s, tk_Error := tk_Error s,
             tk_RetryCount := tk_RetryCount s, tk_AssignedAt := tk_AssignedAt s,
             tk_StartedAt := tk_StartedAt s, tk_CompletedAt := tk_CompletedAt s,
             tk_UpdatedAt := tk_UpdatedAt s, tk_Version := tk_Version s\<rparr>)"

definition doUpdate :: "repo_env \<Rightarrow> mtask \<Rightarrow> task_repo \<Rightarrow> (task_error + mtask) \<times> task_repo" where
  "doUpdate rv t r =
     (let t = t\<lparr>tk_Version := tk_Version t + 1, tk_UpdatedAt := rv_now rv\<rparr>
      in case rv_db rv ''prepare_update'' of Some e \<Rightarrow> (Inl (WrapError ''failed to prepare statement'' e), r) | None \<Rightarrow>
     (case rv_db rv ''update'' of Some e \<Rightarrow> (Inl (WrapError ''failed to update task'' e), r) | None \<Rightarrow>
     (if affected (live (tk_ID t)) r = 0 then (Inl TypesErrNotFound, r)
      else (Inr t, invalidateTaskCache rv t (update_where (live (tk_ID t)) (set_columns (rv_time_text rv) t) r)))))"

definition tr_Update :: "repo_env \<Rightarrow> mtask \<Rightarrow> task_repo \<Rightarrow> (task_error + mtask) \<times> task_repo" where
  "tr_Update rv t r = ExecuteWithCircuitBreaker rv ''task_update'' (doUpdate rv t) r"

definition doUpdateWithVersion ::
  "repo_env \<Rightarrow> mtask \<Rightarrow> int \<Rightarrow> task_repo \<Rightarrow> (task_error + mtask) \<times> task_repo" where
  "doUpdateWithVersion rv t expectedVersion r =
     (let t = t\<lparr>tk_Version := expectedVersion + 1, tk_UpdatedAt := rv_now rv\<rparr>;
          match = (\<lambda>row. live (tk_ID t) row \<and> tk_Version row = expectedVersion)
      in case rv_db rv ''prepare_update_with_version'' of
           Some e \<Rightarrow> (Inl (WrapError ''failed to prepare statement'' e), r) | None \<Rightarrow>
     (case rv_db rv ''update_with_version'' of Some e \<Rightarrow> (Inl (WrapError ''failed to update task'' e), r) | None \<Rightarrow>
     (if affected match r = 0 then
        (case rv_db rv ''exists'' of
           Some e \<Rightarrow> (Inl (WrapError ''failed to check task existence'' e), r)
         | None \<Rightarrow> (Inl (if affected (live (tk_ID t)) r = 0 then TypesErrNotFound else TypesErrOptimisticLock), r))
      else (Inr t, invalidateTaskCache rv t (update_where match (set_columns (rv_time_text rv) t) r)))))"

definition tr_UpdateWithVersion ::
  "repo_env \<Rightarrow> mtask \<Rightarrow> int \<Rightarrow> task_repo \<Rightarrow> (task_error + mtask) \<times> task_repo" where
  "tr_UpdateWithVersion rv t expectedVersion r =
     ExecuteWithCircuitBreaker rv ''task_update_with_version'' (doUpdateWithVersion rv t expectedVersion) r"

section \<open>Model: deletes\<close>

definition delete_rows :: "uuid \<Rightarrow> task_repo \<Rightarrow> task_repo" where
  "delete_rows i r = r\<lparr>tr_rows := filter (\<lambda>t. tk_ID t \<noteq> i) (tr_rows r)\<rparr>"

definition active_child :: "uuid \<Rightarrow> mtask \<Rightarrow> bool" where
  "active_child i t \<longleftrightarrow> tk_ParentTaskID t = Some i \<and> tk_DeletedAt t = None"

definition tr_Delete :: "repo_env \<Rightarrow> uuid \<Rightarrow> task_repo \<Rightarrow> (task_error + unit) \<times> task_repo" where
  "tr_Delete rv i r =
     (case rv_db rv ''count_subtasks'' of Some e \<Rightarrow> (Inl (WrapError ''failed to check subtasks'' e), r) | None \<Rightarrow>
     (if 0 < affected (active_child i) r then (Inl (NewError ''cannot delete task with active subtasks''), r) else
     (case tr_Get rv i r of
        (Inl e, r) \<Rightarrow> (Inl e, r)
      | (Inr t, r) \<Rightarrow>
          repo_WithTransaction rv (\<lambda>r.
            case rv_db rv ''delete'' of Some e \<Rightarrow> (Inl (WrapError ''failed to delete task'' e), r) | None \<Rightarrow>
            (if affected (\<lambda>t. tk_ID t = i) r = 0 then (Inl InterfacesErrNotFound, r)
             else (Inr (), invalidateTaskCache rv t (delete_rows i r)))) r)))"

definition doSoftDelete :: "repo_env \<Rightarrow> uuid \<Rightarrow> task_repo \<Rightarrow> (task_error + unit) \<times> task_repo" where
  "doSoftDelete rv i r =
     (case rv_db rv ''soft_delete'' of Some e \<Rightarrow> (Inl (WrapError ''failed to soft delete task'' e), r) | None \<Rightarrow>
     (if affected (live i) r = 0 then (Inl TypesErrNotFound, r)
      else (Inr (), CacheDelete rv (task_key i)
        (update_where (live i) (\<lambda>t. t\<lparr>tk_DeletedAt := Some (rv_now rv), tk_UpdatedAt := rv_now rv\<rparr>) r))))"

definition tr_SoftDelete :: "repo_env \<Rightarrow> uuid \<Rightarrow> task_repo \<Rightarrow> (task_error + unit) \<times> task_repo" where
  "tr_SoftDelete rv i r = ExecuteWithCircuitBreaker rv ''task_soft_delete'' (doSoftDelete rv i) r"

section \<open>Model: status updates\<close>

definition touch :: "repo_env \<Rightarrow> mtask \<Rightarrow> mtask" where
  "touch rv t = t\<lparr>tk_UpdatedAt := rv_now rv, tk_Version := tk_Version t + 1\<rparr>"

definition tr_AssignToAgent :: "repo_env \<Rightarrow> uuid \<Rightarrow> string \<Rightarrow> task_repo \<Rightarrow> (task_error + unit) \<times> task_repo" where
  "tr_AssignToAgent rv i agentID r =
     (let match = (\<lambda>t. live i t \<and> tk_Status t \<in> {''pending'', ''rejected''})
      in case rv_db rv ''assign'' of Some e \<Rightarrow> (Inl (WrapError ''failed to assign task'' e), r) | None \<Rightarrow>
     (if affected match r = 0 then
        (case rv_db rv ''check_status'' of Some e \<Rightarrow> (Inl (WrapError ''failed to check task status'' e), r) | None \<Rightarrow>
        (case List.find (live i) (tr_rows r) of
           None \<Rightarrow> (Inl TypesErrNotFound, r)
         | Some t \<Rightarrow> (Inl (NewError (''task cannot be assigned in current status: '' @ tk_Status t)), r)))
      else (Inr (), CacheDelete rv (task_key i) (update_where match
             (\<lambda>t. (touch rv t)\<lparr>tk_AssignedTo := Some agentID, tk_AssignedAt := Some (rv_now rv),
                 tk_Status := ''assigned''\<rparr>) r))))"

definition tr_UnassignTask :: "repo_env \<Rightarrow> uuid \<Rightarrow> task_repo \<Rightarrow> (task_error + unit) \<times> task_repo" where
  "tr_UnassignTask rv i r =
     (case rv_db rv ''unassign'' of Some e \<Rightarrow> (Inl (WrapError ''failed to unassign task'' e), r) | None \<Rightarrow>
     (if affected (live i) r = 0 then (Inl TypesErrNotFound, r)
      else (Inr (), CacheDelete rv (task_key i) (update_where (live i)
             (\<lambda>t. (touch rv t)\<lparr>tk_AssignedTo := None, tk_AssignedAt := None, tk_Status := ''pending''\<rparr>) r))))"

definition repoTransitions :: transitions where
  "repoTransitions = fmap_of_list
     [(''pending'', [''assigned'', ''cancelled'']),
      (''assigned'', [''accepted'', ''rejected'', ''cancelled'']),
      (''accepted'', [''in_progress'', ''cancelled'']),
      (''rejected'', [''pending'', ''assigned'']),
      (''in_progress'', [''completed'', ''failed'', ''timeout'', ''cancelled'']),
      (''completed'', []), (''failed'', []), (''cancelled'', []), (''timeout'', [])]"

definition canTransition :: "status \<Rightarrow> status \<Rightarrow> bool" where
  "canTransition from to = table_CanTransitionTo repoTransitions from to"

definition set_status :: "repo_env \<Rightarrow> status \<Rightarrow> mtask \<Rightarrow> mtask" where
  "set_status rv st t =
     (let t = (touch rv t)\<lparr>tk_Status := st\<rparr>
      in if st = ''in_progress'' then t\<lparr>tk_StartedAt := Some (rv_now rv)\<rparr>
         else if st \<in> {''completed'', ''failed'', ''cancelled'', ''timeout''}
         then t\<lparr>tk_CompletedAt := Some (rv_now rv)\<rparr>
         else t)"

definition tr_UpdateStatus ::
  "repo_env \<Rightarrow> uuid \<Rightarrow> status \<Rightarrow> (string, gval) fmap \<Rightarrow> task_repo \<Rightarrow> (task_error + unit) \<times> task_repo" where
  "tr_UpdateStatus rv i st metadata r =
     (case tr_Get rv i r of
        (Inl e, r) \<Rightarrow> (Inl e, r)
      | (Inr t, r) \<Rightarrow>
     (if \<not> canTransition (tk_Status t) st
      then (Inl (NewError (''invalid status transition from '' @ tk_Status t @ '' to '' @ st)), r) else
     (case rv_db rv ''update_status'' of Some e \<Rightarrow> (Inl (WrapError ''failed to update task status'' e), r) | None \<Rightarrow>
     (if affected (live i) r = 0 then (Inl InterfacesErrNotFound, r) else
     (let r = update_where (live i) (set_status rv st) r
      in if metadata \<noteq> fmempty then
           (case rv_db rv ''update_metadata'' of
              Some e \<Rightarrow> (Inl (WrapError ''failed to update task metadata'' e), r)
            | None \<Rightarrow> (Inr (), invalidateTaskCache rv t (update_where (\<lambda>t. tk_ID t = i)
                (\<lambda>t. t\<lparr>tk_Result := Some (json_map (rv_time_text rv) metadata)\<rparr>) r)))
         else (Inr (), invalidateTaskCache rv t r))))))"

definition bulk_step :: "repo_env \<Rightarrow> (task_error + unit) \<times> task_repo \<Rightarrow> uuid \<times> status \<Rightarrow> (task_error + unit) \<times> task_repo" where
  "bulk_step rv = (\<lambda>(res, r) (i, st).
     case res of
       Inl e \<Rightarrow> (Inl e, r)
     | Inr _ \<Rightarrow>
         (case rv_db rv (''bulk:'' @ uuid_String i) of
            Some e \<Rightarrow> (Inl (WrapError (''failed to update task '' @ uuid_String i) e), r)
          | None \<Rightarrow> (Inr (), CacheDelete rv (task_key i)
              (update_where (live i) (\<lambda>t. (touch rv t)\<lparr>tk_Status := st\<rparr>) r))))"

definition tr_BulkUpdateStatus :: "repo_env \<Rightarrow> (uuid \<times> status) list \<Rightarrow> task_repo \<Rightarrow> (task_error + unit) \<times> task_repo" where
  "tr_BulkUpdateStatus rv updates r =
     repo_WithTransaction rv (\<lambda>r.
       case rv_db rv ''prepare_bulk'' of Some e \<Rightarrow> (Inl (WrapError ''failed to prepare statement'' e), r) | None \<Rightarrow>
       foldl (bulk_step rv) (Inr (), r) updates) r"

definition tr_BatchUpdateStatus :: "repo_env \<Rightarrow> uuid list \<Rightarrow> status \<Rightarrow> task_repo \<Rightarrow> (task_error + unit) \<times> task_repo" where
  "tr_BatchUpdateStatus rv taskIDs st r = tr_BulkUpdateStatus rv (map (\<lambda>i. (i, st)) taskIDs) r"

definition tr_IncrementRetryCount :: "repo_env \<Rightarrow> uuid \<Rightarrow> task_repo \<Rightarrow> (task_error + int) \<times> task_repo" where
  "tr_IncrementRetryCount rv i r =
     (case rv_db rv ''increment_retry'' of Some e \<Rightarrow> (Inl (WrapError ''failed to increment retry count'' e), r) | None \<Rightarrow>
     (let r' = update_where (live i) (\<lambda>t. (touch rv t)\<lparr>tk_RetryCount := tk_RetryCount t + 1\<rparr>) r
      in case List.find (live i) (tr_rows r') of
           None \<Rightarrow> (Inl TypesErrNotFound, r)
         | Some t \<Rightarrow> (Inr (tk_RetryCount t), CacheDelete rv (task_key i) r')))"

definition tr_LockTaskForExecution :: "repo_env \<Rightarrow> uuid \<Rightarrow> string \<Rightarrow> task_repo \<Rightarrow> (task_error + unit) \<times> task_repo" where
  "tr_LockTaskForExecution rv i agentID r =
     repo_WithTransaction rv (\<lambda>r.
       let match = (\<lambda>t. tk_ID t = i \<and> tk_AssignedTo t = Some agentID \<and> tk_Status t \<in> {''assigned'', ''accepted''}
                        \<and> tk_DeletedAt t = None)
       in case rv_db rv ''advisory_lock'' of Some e \<Rightarrow> (Inl (WrapError ''failed to acquire advisory lock'' e), r) | None \<Rightarrow>
       (if rv_locked rv i then (Inl (NewError ''task is already locked by another agent''), r) else
       (case rv_db rv ''lock_update'' of Some e \<Rightarrow> (Inl (WrapError ''failed to update task status'' e), r) | None \<Rightarrow>
       (if affected match r = 0
        then (Inl (NewError ''task not found or not in valid state for execution''), r)
        else (Inr (), CacheDelete rv (task_key i) (update_where match
               (\<lambda>t. (touch rv t)\<lparr>tk_Status := ''in_progress'', tk_StartedAt := Some (rv_now rv)\<rparr>) r)))))) r"

section \<open>Model: archive\<close>

definition archivable :: "go_time \<Rightarrow> mtask \<Rightarrow> bool" where
  "archivable before t \<longleftrightarrow> (case tk_CompletedAt t of None \<Rightarrow> False | Some c \<Rightarrow> c < before)
     \<and> tk_Status t \<in> {''completed'', ''failed'', ''cancelled''} \<and> tk_DeletedAt t = None"

definition tr_ArchiveTasks :: "repo_env \<Rightarrow> go_time \<Rightarrow> task_repo \<Rightarrow> (task_error + nat) \<times> task_repo" where
  "tr_ArchiveTasks rv before r =
     repo_WithTransaction rv (\<lambda>r.
       case rv_db rv ''archive'' of Some e \<Rightarrow> (Inl (WrapError ''failed to archive tasks'' e), r) | None \<Rightarrow>
       (let moved = filter (archivable before) (tr_rows r);
            r = r\<lparr>tr_archive := tr_archive r @ moved\<rparr>
        in if moved \<noteq> [] then
             (case rv_db rv ''delete_archived'' of
                Some e \<Rightarrow> (Inl (WrapError ''failed to delete archived tasks'' e), r)
              | None \<Rightarrow> (Inr (length moved), r\<lparr>tr_rows := filter (\<lambda>t. \<not> archivable before t) (tr_rows r)\<rparr>))
           else (Inr 0, r))) r"

section \<open>Model: trees and lists\<close>

definition tr_GetSubtasks :: "repo_env \<Rightarrow> uuid \<Rightarrow> task_repo \<Rightarrow> task_error + mtask list" where
  "tr_GetSubtasks rv parent r =
     (case rv_db rv ''get_subtasks'' of
        Some e \<Rightarrow> Inl (WrapError ''failed to get subtasks'' e)
      | None \<Rightarrow> Inr (sort_key tk_CreatedAt (filter (active_child parent) (tr_rows r))))"

text \<open>The first number is \<open>maxDepth - currentDepth\<close>.\<close>

fun loadTaskChildren :: "repo_env \<Rightarrow> task_repo \<Rightarrow> nat \<Rightarrow> int \<Rightarrow> uuid \<Rightarrow> task_tree \<Rightarrow> task_error + task_tree" where
  "loadTaskChildren rv r 0 currentDepth parent tree = Inr tree"
| "loadTaskChildren rv r (Suc n) currentDepth parent tree =
     (case tr_GetSubtasks rv parent r of
        Inl e \<Rightarrow> Inl e
      | Inr children \<Rightarrow>
          if children = [] then Inr tree
          else
            foldl (\<lambda>acc child. case acc of
                Inl e \<Rightarrow> Inl e
              | Inr tree \<Rightarrow> loadTaskChildren rv r n (currentDepth + 1) (tk_ID child) tree)
              (Inr (tree\<lparr>tt_Children := fmupd parent children (tt_Children tree),
                         tt_Depth := max (tt_Depth tree) (currentDepth + 1)\<rparr>)) children)"

definition tr_GetTaskTree :: "repo_env \<Rightarrow> uuid \<Rightarrow> nat \<Rightarrow> task_repo \<Rightarrow> (task_error + task_tree) \<times> task_repo" where
  "tr_GetTaskTree rv rootID maxDepth r =
     (case tr_Get rv rootID r of
        (Inl e, r) \<Rightarrow> (Inl e, r)
      | (Inr t, r) \<Rightarrow>
          (loadTaskChildren rv r maxDepth 0 rootID \<lparr>tt_Root = t, tt_Children = fmempty, tt_Depth = 0\<rparr>, r))"

record task_filters =
  fl_Status :: "string list"
  fl_Priority :: "string list"
  fl_Types :: "string list"
  fl_AssignedTo :: "string option"
  fl_CreatedBy :: "string option"
  fl_ParentTaskID :: "uuid option"
  fl_CreatedAfter :: "go_time option"
  fl_CreatedBefore :: "go_time option"
  fl_Limit :: int
  fl_Offset :: int

record task_page =
  tp_Tasks :: "mtask list"
  tp_TotalCount :: int
  tp_HasMore :: bool

text \<open>The \<open>WHERE\<close> clause \<open>buildTaskQuery\<close> writes.\<close>

definition task_query :: "uuid \<Rightarrow> task_filters \<Rightarrow> mtask \<Rightarrow> bool" where
  "task_query tenantID f t \<longleftrightarrow> tk_DeletedAt t = None
     \<and> (tenantID \<noteq> 0 \<longrightarrow> tk_TenantID t = tenantID)
     \<and> (fl_Status f \<noteq> [] \<longrightarrow> tk_Status t \<in> set (fl_Status f))
     \<and> (fl_Priority f \<noteq> [] \<longrightarrow> tk_Priority t \<in> set (fl_Priority f))
     \<and> (fl_Types f \<noteq> [] \<longrightarrow> tk_Type t \<in> set (fl_Types f))
     \<and> (case fl_AssignedTo f of None \<Rightarrow> True | Some a \<Rightarrow> tk_AssignedTo t = Some a)
     \<and> (case fl_CreatedBy f of None \<Rightarrow> True | Some c \<Rightarrow> tk_CreatedBy t = c)
     \<and> (case fl_CreatedAfter f of None \<Rightarrow> True | Some c \<Rightarrow> c \<le> tk_CreatedAt t)
     \<and> (case fl_CreatedBefore f of None \<Rightarrow> True | Some c \<Rightarrow> tk_CreatedAt t \<le> c)
     \<and> (case fl_ParentTaskID f of None \<Rightarrow> True | Some p \<Rightarrow> tk_ParentTaskID t = Some p)"

definition task_window :: "task_filters \<Rightarrow> 'a list \<Rightarrow> 'a list" where
  "task_window f xs =
     (let xs = (if 0 < fl_Offset f then drop (nat (fl_Offset f)) xs else xs)
      in if 0 < fl_Limit f then take (nat (fl_Limit f)) xs else xs)"

text \<open>
  The default order, newest first.  The \<open>COUNT(*)\<close> query is the list query cut at \<open>ORDER BY\<close>, so
  it counts every match.
\<close>

definition tr_ListByTenant :: "repo_env \<Rightarrow> uuid \<Rightarrow> task_filters \<Rightarrow> task_repo \<Rightarrow> task_error + task_page" where
  "tr_ListByTenant rv tenantID f r =
     (case rv_db rv ''count_tasks'' of Some e \<Rightarrow> Inl (WrapError ''failed to count tasks'' e) | None \<Rightarrow>
     (case rv_db rv ''list_tasks'' of Some e \<Rightarrow> Inl (WrapError ''failed to list tasks'' e) | None \<Rightarrow>
     (let found = filter (task_query tenantID f) (tr_rows r);
          tasks = task_window f (sort_key (\<lambda>t. - tk_CreatedAt t) found)
      in Inr \<lparr>tp_Tasks = tasks, tp_TotalCount = int (length found),
             tp_HasMore = (0 < fl_Limit f \<and> int (length tasks) = fl_Limit f)\<rparr>)))"

definition tr_ListByAgent :: "repo_env \<Rightarrow> string \<Rightarrow> task_filters \<Rightarrow> task_repo \<Rightarrow> task_error + task_page" where
  "tr_ListByAgent rv agentID f r = tr_ListByTenant rv 0 (f\<lparr>fl_AssignedTo := Some agentID\<rparr>) r"

definition tr_GetTasksForExecution :: "repo_env \<Rightarrow> (string \<Rightarrow> int) \<Rightarrow> string \<Rightarrow> int \<Rightarrow> task_repo \<Rightarrow> task_error + mtask list" where
  "tr_GetTasksForExecution rv rank agentID limit r =
     (case rv_db rv ''tasks_for_execution'' of
        Some e \<Rightarrow> Inl (WrapError ''failed to get tasks for execution'' e)
      | None \<Rightarrow>
          Inr (take (nat limit) (sort_key (\<lambda>t. - rank (tk_Priority t)) (sort_key tk_CreatedAt
            (filter (\<lambda>t. tk_AssignedTo t = Some agentID \<and> tk_Status t \<in> {''assigned'', ''accepted''}
               \<and> tk_DeletedAt t = None) (tr_rows r))))))"

definition tr_GetOverdueTasks :: "repo_env \<Rightarrow> task_repo \<Rightarrow> task_error + mtask list" where
  "tr_GetOverdueTasks rv r =
     (case rv_db rv ''overdue_tasks'' of
        Some e \<Rightarrow> Inl (WrapError ''failed to get overdue tasks'' e)
      | None \<Rightarrow>
          Inr (filter (\<lambda>t. tk_Status t = ''in_progress''
              \<and> (case tk_StartedAt t of None \<Rightarrow> False | Some s \<Rightarrow> s + tk_TimeoutSeconds t * second < rv_now rv)
              \<and> tk_DeletedAt t = None) (tr_rows r)))"

section \<open>Model: delegations\<close>

definition tr_CreateDelegation :: "repo_env \<Rightarrow> delegation \<Rightarrow> task_repo \<Rightarrow> (task_error + delegation) \<times> task_repo" where
  "tr_CreateDelegation rv d r =
     (let d = (if dl_ID d = 0 then d\<lparr>dl_ID := rv_uuid rv 0\<rparr> else d);
          d = (if dl_DelegatedAt d = 0 then d\<lparr>dl_DelegatedAt := rv_now rv\<rparr> else d)
      in case rv_db rv ''create_delegation'' of
           Some e \<Rightarrow> (Inl (WrapError ''failed to create delegation'' e), r)
         | None \<Rightarrow> (Inr d, r\<lparr>tr_delegations := tr_delegations r @ [d]\<rparr>))"

definition tr_GetDelegationHistory :: "repo_env \<Rightarrow> uuid \<Rightarrow> task_repo \<Rightarrow> task_error + delegation list" where
  "tr_GetDelegationHistory rv i r =
     (case rv_db rv ''delegation_history'' of
        Some e \<Rightarrow> Inl (WrapError ''failed to get delegation history'' e)
      | None \<Rightarrow> Inr (sort_key (\<lambda>d. - dl_DelegatedAt d) (filter (\<lambda>d. dl_TaskID d = i) (tr_delegations r))))"

text \<open>The list of nodes built from the linked list: the oldest delegation first.\<close>

definition tr_GetDelegationChain :: "repo_env \<Rightarrow> uuid \<Rightarrow> task_repo \<Rightarrow> task_error + delegation list" where
  "tr_GetDelegationChain rv i r = map_sum id rev (tr_GetDelegationHistory rv i r)"

section \<open>Keys\<close>

lemma task_key_inj [simp]: "task_key i = task_key j \<longleftrightarrow> i = j"
  by (simp add: task_key_def uuid_String_inj)

end
