(* ===== verification/Task_Service.thy ===== *)
theory Task_Service
  imports Task_Repository Workflow_Service "HOL-Library.AList"
begin

text \<open>
  The task service of \<open>pkg/services/task_service_impl.go\<close> with its background workers
  (\<open>task_helpers.go\<close>): creation, assignment, the life of a task, delegation, trees, workflow tasks,
  rebalancing and progress checks, over the repository (\<open>Task_Repository\<close>), the assignment engine
  (\<open>Assignment_Engine\<close>), the in-memory caches (\<open>Memory_Cache\<close>) and the base service's rate limits,
  quotas, events and transactions (\<open>Workflow_Service\<close>, \<open>Distributed_Tx\<close>).

  A handler returns its error and the service state it leaves.  The error \<open>TPanic\<close> is a panic.  What
  a call depends on outside is the record \<open>task_env\<close>.  The service functions that take a pointer
  to a task also return the task as they leave it.  Notifications, logging, tracing and metrics
  are left out.
\<close>

section \<open>Model: environment and state\<close>

datatype ts_error =
    TBase svc_error
  | TRepo task_error
  | TAssign assign_error
  | TNew string
  | TWrap string ts_error
  | ErrConcurrentModification
  | DelegationError string
  | TTx tx_error
  | TPanic

record policy_defaults =
  pd_GetString :: "string \<Rightarrow> string \<Rightarrow> string"
  pd_GetInt :: "string \<Rightarrow> int \<Rightarrow> int"
  pd_GetMap :: "string \<Rightarrow> (string, gval) fmap option"

datatype ctx_key = StringKey string | ContextKey string

record task_env =
  te_en :: env
  te_rv :: repo_env
  te_wd :: world
  te_CheckPermission :: "string \<Rightarrow> string \<Rightarrow> bool"
  te_SanitizeJSON :: "(string, gval) fmap \<Rightarrow> string + (string, gval) fmap option"
  te_GetDefaults :: "(string \<Rightarrow> string + policy_defaults) option"
  te_auto_rules :: "(mtask \<Rightarrow> string + rule list) option"
  te_delegation_policy :: "(mtask \<Rightarrow> delegation \<Rightarrow> string + bool \<times> string) option"
  te_ctx :: "ctx_key \<Rightarrow> bool option"
  te_dur_text :: "duration \<Rightarrow> string"

datatype tcached = TCTask mtask | TCTasks "mtask list" | TCUuid uuid

record task_service =
  ts_repo :: task_repo
  ts_engine :: engine
  ts_taskCache :: "tcached memory_cache"
  ts_statsCache :: "tcached memory_cache"
  ts_tracked :: "(uuid, go_time) fmap"

definition NewTaskService :: "task_repo \<Rightarrow> task_service" where
  "NewTaskService r = \<lparr>ts_repo = r, ts_engine = NewAssignmentEngine,
     ts_taskCache = NewMemoryCache 10000 (5 * minute), ts_statsCache = NewMemoryCache 1000 (1 * minute),
     ts_tracked = fmempty\<rparr>"

abbreviation te_now :: "task_env \<Rightarrow> go_time" where "te_now te \<equiv> rv_now (te_rv te)"

definition now_text :: "task_env \<Rightarrow> gval" where
  "now_text te = VStr (rv_time_text (te_rv te) (te_now te))"

text \<open>The zero value of \<open>models.Task\<close>.\<close>

definition zero_task :: mtask where
  "zero_task = \<lparr>tk_TenantID = 0, tk_Type = '''', tk_Priority = '''', tk_Parameters = None, tk_TimeoutSeconds = 0,
     tk_ID = 0, tk_Status = '''', tk_CreatedBy = '''', tk_AssignedTo = None, tk_ParentTaskID = None, tk_Title = '''',
     tk_Description = '''', tk_Result = None, tk_Error = '''', tk_MaxRetries = 0, tk_RetryCount = 0, tk_CreatedAt = 0,
     tk_AssignedAt = None, tk_StartedAt = None, tk_CompletedAt = None, tk_UpdatedAt = 0, tk_DeletedAt = None, tk_Version = 0\<rparr>"

definition taskTransitions :: transitions where
  "taskTransitions = fmap_of_list
     [(''pending'', [''assigned'', ''cancelled'']),
      (''assigned'', [''accepted'', ''rejected'', ''cancelled'']),
      (''accepted'', [''in_progress'', ''cancelled'']),
      (''rejected'', [''pending'', ''cancelled'']),
      (''in_progress'', [''completed'', ''failed'', ''cancelled'']),
      (''completed'', []),
      (''failed'', [''pending'']),
      (''cancelled'', [])]"

definition isValidStatusTransition :: "status \<Rightarrow> status \<Rightarrow> bool" where
  "isValidStatusTransition from to = table_CanTransitionTo taskTransitions from to"

section \<open>Model: helpers\<close>

definition denied :: "task_env \<Rightarrow> string \<Rightarrow> bool" where
  "denied te action \<longleftrightarrow> en_Authorizer (te_en te) \<noteq> None \<and> \<not> te_CheckPermission te ''task'' action"

definition load_task :: "task_env \<Rightarrow> string \<Rightarrow> uuid \<Rightarrow> task_service \<Rightarrow> (ts_error + mtask) \<times> task_service" where
  "load_task te msg i s =
     (let (res, r) = tr_Get (te_rv te) i (ts_repo s)
      in (map_sum (\<lambda>e. TWrap msg (TRepo e)) id res, s\<lparr>ts_repo := r\<rparr>))"

definition forget_task :: "uuid \<Rightarrow> task_service \<Rightarrow> task_service" where
  "forget_task i s = s\<lparr>ts_taskCache := mc_Delete (task_key i) (ts_taskCache s)\<rparr>"

definition update_task :: "task_env \<Rightarrow> string \<Rightarrow> mtask \<Rightarrow> task_service \<Rightarrow> ts_error option \<times> task_service" where
  "update_task te msg t s =
     (let (res, r) = tr_Update (te_rv te) t (ts_repo s); s = s\<lparr>ts_repo := r\<rparr>
      in case res of Inl e \<Rightarrow> (Some (TWrap msg (TRepo e)), s) | Inr _ \<Rightarrow> (None, s))"

text \<open>\<open>repo.Update\<close> followed by the invalidation of the service's cache entry.\<close>

definition save_task :: "task_env \<Rightarrow> string \<Rightarrow> mtask \<Rightarrow> task_service \<Rightarrow> ts_error option \<times> task_service" where
  "save_task te msg t s =
     (let (err, s) = update_task te msg t s
      in (err, if err = None then forget_task (tk_ID t) s else s))"

text \<open>\<open>if task.Result == nil\<close>, make a map, and then assign a key.\<close>

definition put_result :: "string \<Rightarrow> gval \<Rightarrow> mtask \<Rightarrow> mtask" where
  "put_result k v t = t\<lparr>tk_Result := Some (fmupd k v (case tk_Result t of None \<Rightarrow> fmempty | Some m \<Rightarrow> m))\<rparr>"

definition sanitizeTask :: "task_env \<Rightarrow> mtask \<Rightarrow> ts_error option \<times> mtask" where
  "sanitizeTask te t =
     (case en_Sanitizer (te_en te) of
        None \<Rightarrow> (None, t)
      | Some san \<Rightarrow>
          let t = t\<lparr>tk_Title := san (tk_Title t), tk_Description := san (tk_Description t)\<rparr>
          in case tk_Parameters t of
               None \<Rightarrow> (None, t)
             | Some p \<Rightarrow>
                 (case te_SanitizeJSON te p of
                    Inl e \<Rightarrow> (Some (TBase (EExternal e)), t)
                  | Inr None \<Rightarrow> (None, t)
                  | Inr (Some params) \<Rightarrow> (None, t\<lparr>tk_Parameters := Some params\<rparr>)))"

definition validateTask :: "mtask \<Rightarrow> ts_error option" where
  "validateTask t =
     (if tk_Type t = '''' then Some (TBase (EValidation (ValidationError ''type'' ''required'')))
      else if tk_Title t = '''' then Some (TBase (EValidation (ValidationError ''title'' ''required'')))
      else if 500 < length (tk_Title t)
      then Some (TBase (EValidation (ValidationError ''title'' ''exceeds maximum length'')))
      else None)"

definition authorizeTaskCreation :: "task_env \<Rightarrow> ts_error option" where
  "authorizeTaskCreation te = map_option TBase (authorize (te_en te) ''task'' ''create'' ''create task'')"

definition applyTaskDefaults :: "task_env \<Rightarrow> mtask \<Rightarrow> ts_error option \<times> mtask" where
  "applyTaskDefaults te t =
     (case te_GetDefaults te of
        None \<Rightarrow> (None, t)
      | Some get \<Rightarrow>
          (case get (tk_Type t) of
             Inl e \<Rightarrow> (Some (TBase (EExternal e)), t)
           | Inr pd \<Rightarrow>
               let t = (if tk_Priority t = '''' then t\<lparr>tk_Priority := pd_GetString pd ''priority'' ''normal''\<rparr> else t);
                   t = (if tk_MaxRetries t = 0 then t\<lparr>tk_MaxRetries := pd_GetInt pd ''max_retries'' 3\<rparr> else t);
                   t = (if tk_TimeoutSeconds t = 0
                        then t\<lparr>tk_TimeoutSeconds := pd_GetInt pd ''timeout_seconds'' 3600\<rparr> else t)
               in case pd_GetMap pd ''parameters'' of
                    None \<Rightarrow> (None, t)
                  | Some defaultParams \<Rightarrow>
                      let params = (case tk_Parameters t of None \<Rightarrow> fmempty | Some p \<Rightarrow> p)
                      in (None, t\<lparr>tk_Parameters := Some (foldl (\<lambda>m (k, v).
                           if fmlookup m k = None then fmupd k v m else m) params (go_range defaultParams))\<rparr>)))"

definition shouldAutoAssign :: "task_env \<Rightarrow> mtask \<Rightarrow> bool" where
  "shouldAutoAssign te t =
     (if tk_Priority t = ''high'' then True
      else case te_auto_rules te of
             None \<Rightarrow> False
           | Some get \<Rightarrow> (case get t of Inl e \<Rightarrow> False | Inr rules \<Rightarrow> rules \<noteq> []))"

definition idem_key :: "string \<Rightarrow> string" where "idem_key k = ''idem:'' @ k"

definition checkIdempotency :: "task_env \<Rightarrow> string \<Rightarrow> task_service \<Rightarrow> ts_error + uuid" where
  "checkIdempotency te key s =
     (if key = '''' then Inl (TNew ''not found'')
      else case mc_Get (te_now te) (idem_key key) (0::uuid) (ts_taskCache s) of
             (None, taskID) \<Rightarrow> Inr taskID
           | (Some _, _) \<Rightarrow> Inl (TNew ''not found''))"

definition storeIdempotencyKey :: "task_env \<Rightarrow> string \<Rightarrow> uuid \<Rightarrow> task_service \<Rightarrow> task_service" where
  "storeIdempotencyKey te key i s =
     (if key = '''' then s
      else s\<lparr>ts_taskCache := mc_Set (te_now te) (idem_key key) (TCUuid i) (24 * 60 * minute) (ts_taskCache s)\<rparr>)"

definition Track :: "task_env \<Rightarrow> uuid \<Rightarrow> task_service \<Rightarrow> task_service" where
  "Track te i s = s\<lparr>ts_tracked := fmupd i (te_now te) (ts_tracked s)\<rparr>"

definition Untrack :: "uuid \<Rightarrow> task_service \<Rightarrow> task_service" where
  "Untrack i s = s\<lparr>ts_tracked := fmdrop i (ts_tracked s)\<rparr>"

definition executePostCreationActions :: "task_env \<Rightarrow> mtask \<Rightarrow> task_service \<Rightarrow> task_service" where
  "executePostCreationActions te t s =
     (let s = (case tk_AssignedTo t of
                 None \<Rightarrow> s
               | Some a \<Rightarrow> s\<lparr>ts_taskCache := mc_Delete (''agent:'' @ a @ '':tasks'') (ts_taskCache s)\<rparr>);
          s = s\<lparr>ts_statsCache := mc_Delete (''tenant:'' @ uuid_String (tk_TenantID t) @ '':stats'') (ts_statsCache s)\<rparr>
      in Track te (tk_ID t) s)"

definition task_transaction ::
  "('s \<Rightarrow> ts_error option \<times> 's) \<Rightarrow> 's \<Rightarrow> ts_error option \<times> 's" where
  "task_transaction fn s =
     (let (err, tx, s) = WithTransaction fn s
      in (map_option (case_sum id TTx) err, s))"

section \<open>Model: creation and reads\<close>

definition find_agent :: "task_env \<Rightarrow> mtask \<Rightarrow> task_service \<Rightarrow> pick \<times> task_service" where
  "find_agent te t s =
     (let (p, e) = FindBestAgent (te_wd te) (task.truncate t) (ts_engine s)
      in (p, s\<lparr>ts_engine := e\<rparr>))"

text \<open>The function that \<open>Create\<close> runs in the transaction: metadata and defaults, assignment, insert and event.\<close>

definition new_metadata :: "task_env \<Rightarrow> mtask \<Rightarrow> mtask" where
  "new_metadata te t = t\<lparr>tk_ID := rv_uuid (te_rv te) 0, tk_TenantID := en_tenant (te_en te),
     tk_CreatedBy := en_agent (te_en te), tk_Status := ''pending'', tk_Version := 1\<rparr>"

definition auto_assign :: "task_env \<Rightarrow> mtask \<Rightarrow> task_service \<Rightarrow> ts_error option \<times> mtask \<times> task_service" where
  "auto_assign te t s =
     (if tk_AssignedTo t = None \<and> shouldAutoAssign te t then
        (case find_agent te t s of
           (None, s) \<Rightarrow> (Some TPanic, t, s)
         | (Some (Inl _), s) \<Rightarrow> (None, t, s)
         | (Some (Inr a), s) \<Rightarrow> (None, t\<lparr>tk_AssignedTo := Some (ag_ID a), tk_Status := ''assigned'',
                                      tk_AssignedAt := Some (te_now te)\<rparr>, s))
      else (None, t, s))"

definition insert_new :: "task_env \<Rightarrow> string \<Rightarrow> mtask \<Rightarrow> task_service \<Rightarrow> ts_error option \<times> mtask \<times> task_service" where
  "insert_new te idempotencyKey t s =
     (let (res, r) = tr_Create (te_rv te) t (ts_repo s); s = s\<lparr>ts_repo := r\<rparr>
      in case res of
           Inl e \<Rightarrow> (Some (TWrap ''failed to create task'' (TRepo e)), t, s)
         | Inr t \<Rightarrow>
             (let s = (if idempotencyKey \<noteq> '''' then storeIdempotencyKey te idempotencyKey (tk_ID t) s else s)
              in (map_option TBase (PublishEvent (te_en te) ''TaskCreated''), t, s)))"

definition create_in_tx :: "task_env \<Rightarrow> string \<Rightarrow> mtask \<times> task_service \<Rightarrow> ts_error option \<times> mtask \<times> task_service" where
  "create_in_tx te idempotencyKey = (\<lambda>(t, s).
     let (err, t) = applyTaskDefaults te (new_metadata te t)
     in case err of
          Some e \<Rightarrow> (Some e, t, s)
        | None \<Rightarrow>
            (let (err, t, s) = auto_assign te t s
             in case err of Some e \<Rightarrow> (Some e, t, s) | None \<Rightarrow> insert_new te idempotencyKey t s))"

definition svc_Create ::
  "task_env \<Rightarrow> mtask \<Rightarrow> string \<Rightarrow> task_service \<Rightarrow> ts_error option \<times> mtask \<times> task_service" where
  "svc_Create te t idempotencyKey s =
     (case CheckRateLimit (te_en te) ''task:create'' of Some e \<Rightarrow> (Some (TBase e), t, s) | None \<Rightarrow>
     (case CheckQuota (te_en te) ''tasks'' 1 of Some e \<Rightarrow> (Some (TBase e), t, s) | None \<Rightarrow>
     (let existing = (if idempotencyKey \<noteq> '''' then checkIdempotency te idempotencyKey s else Inl (TNew ''''))
      in if \<not> isl existing \<and> projr existing \<noteq> 0 then (None, t\<lparr>tk_ID := projr existing\<rparr>, s) else
     (let (err, t) = sanitizeTask te t
      in case err of Some e \<Rightarrow> (Some (TWrap ''input sanitization failed'' e), t, s) | None \<Rightarrow>
     (case validateTask t of Some e \<Rightarrow> (Some (TWrap ''task validation failed'' e), t, s) | None \<Rightarrow>
     (case authorizeTaskCreation te of Some e \<Rightarrow> (Some (TWrap ''authorization failed'' e), t, s) | None \<Rightarrow>
     (let (err, t, s) = task_transaction (create_in_tx te idempotencyKey) (t, s)
      in case err of Some e \<Rightarrow> (Some e, t, s) | None \<Rightarrow> (None, t, executePostCreationActions te t s))))))))"

definition svc_Get :: "task_env \<Rightarrow> uuid \<Rightarrow> task_service \<Rightarrow> (ts_error + mtask) \<times> task_service" where
  "svc_Get te i s =
     (case mc_Get (te_now te) (task_key i) zero_task (ts_taskCache s) of
        (None, cached) \<Rightarrow> (Inr cached, s)
      | (Some _, _) \<Rightarrow>
          (let (res, r) = tr_Get (te_rv te) i (ts_repo s); s = s\<lparr>ts_repo := r\<rparr>
           in case res of
                Inl e \<Rightarrow> (Inl (TRepo e), s)
              | Inr t \<Rightarrow> (Inr t, s\<lparr>ts_taskCache :=
                  mc_Set (te_now te) (task_key i) (TCTask t) (5 * minute) (ts_taskCache s)\<rparr>)))"

fun validate_batch :: "task_env \<Rightarrow> nat \<Rightarrow> mtask list \<Rightarrow> ts_error + mtask list" where
  "validate_batch te n [] = Inr []"
| "validate_batch te n (t # ts) =
     (case validateTask t of
        Some e \<Rightarrow> Inl (TWrap (''invalid task at index '' @ Itoa (int n)) e)
      | None \<Rightarrow>
          let t = (if tk_ID t = 0 then t\<lparr>tk_ID := rv_uuid (te_rv te) n\<rparr> else t);
              t = (if tk_Status t = '''' then t\<lparr>tk_Status := ''pending''\<rparr> else t);
              t = t\<lparr>tk_CreatedAt := te_now te, tk_UpdatedAt := te_now te\<rparr>
          in map_sum id (Cons t) (validate_batch te (Suc n) ts))"

definition svc_CreateBatch :: "task_env \<Rightarrow> mtask list \<Rightarrow> task_service \<Rightarrow> ts_error option \<times> task_service" where
  "svc_CreateBatch te tasks s =
     (if tasks = [] then (Some (TNew ''no tasks provided''), s)
      else if denied te ''create'' then (Some (TNew ''unauthorized to create tasks''), s)
      else case validate_batch te 0 tasks of
             Inl e \<Rightarrow> (Some e, s)
           | Inr tasks \<Rightarrow>
               let (err, r) = tr_CreateBatch (te_rv te) tasks (ts_repo s)
               in (map_option (\<lambda>e. TWrap ''failed to create batch tasks'' (TRepo e)) err, s\<lparr>ts_repo := r\<rparr>))"

definition svc_GetBatch :: "task_env \<Rightarrow> uuid list \<Rightarrow> task_service \<Rightarrow> (ts_error + mtask list) \<times> task_service" where
  "svc_GetBatch te ids s =
     (if ids = [] then (Inr [], s)
      else if denied te ''read'' then (Inl (TNew ''unauthorized to read tasks''), s)
      else
        let hit = (\<lambda>i. fst (mc_Get (te_now te) (task_key i) zero_task (ts_taskCache s)) = None);
            tasks = map (\<lambda>i. snd (mc_Get (te_now te) (task_key i) zero_task (ts_taskCache s))) (filter hit ids);
            uncachedIDs = filter (\<lambda>i. \<not> hit i) ids
        in if uncachedIDs = [] then (Inr tasks, s)
           else
             let (res, r) = tr_GetBatch (te_rv te) uncachedIDs (ts_repo s); s = s\<lparr>ts_repo := r\<rparr>
             in case res of
                  Inl e \<Rightarrow> (Inl (TWrap ''failed to get batch tasks'' (TRepo e)), s)
                | Inr repTasks \<Rightarrow> (Inr (tasks @ repTasks), s\<lparr>ts_taskCache :=
                    foldl (\<lambda>c t. mc_Set (te_now te) (task_key (tk_ID t)) (TCTask t) (5 * minute) c)
                      (ts_taskCache s) repTasks\<rparr>))"

section \<open>Model: updates and assignment\<close>

definition svc_Update :: "task_env \<Rightarrow> mtask option \<Rightarrow> task_service \<Rightarrow> ts_error option \<times> task_service" where
  "svc_Update te topt s =
     (case topt of None \<Rightarrow> (Some (TNew ''task is required''), s) | Some t \<Rightarrow>
     (if tk_ID t = 0 then (Some (TNew ''task ID is required''), s)
      else if denied te ''update'' then (Some (TNew ''unauthorized to update task''), s)
      else case load_task te ''failed to get existing task'' (tk_ID t) s of
        (Inl e, s) \<Rightarrow> (Some e, s)
      | (Inr existing, s) \<Rightarrow>
          if tk_Status existing \<noteq> tk_Status t \<and> \<not> isValidStatusTransition (tk_Status existing) (tk_Status t)
          then (Some (TNew (''invalid status transition from '' @ tk_Status existing @ '' to '' @ tk_Status t)), s)
          else save_task te ''failed to update task'' (t\<lparr>tk_UpdatedAt := te_now te\<rparr>) s))"

definition svc_Delete :: "task_env \<Rightarrow> uuid \<Rightarrow> task_service \<Rightarrow> ts_error option \<times> task_service" where
  "svc_Delete te i s =
     (if i = 0 then (Some (TNew ''task ID is required''), s)
      else if denied te ''delete'' then (Some (TNew ''unauthorized to delete task''), s)
      else case load_task te ''failed to get task'' i s of
        (Inl e, s) \<Rightarrow> (Some e, s)
      | (Inr t, s) \<Rightarrow>
          if tk_Status t = ''in_progress'' then (Some (TNew ''cannot delete in-progress task''), s)
          else
            let (res, r) = tr_Delete (te_rv te) i (ts_repo s); s = s\<lparr>ts_repo := r\<rparr>
            in case res of
                 Inl e \<Rightarrow> (Some (TWrap ''failed to delete task'' (TRepo e)), s)
               | Inr _ \<Rightarrow> (None, forget_task i s))"

definition AssignTask :: "task_env \<Rightarrow> uuid \<Rightarrow> string \<Rightarrow> task_service \<Rightarrow> ts_error option \<times> task_service" where
  "AssignTask te i agentID s =
     (if i = 0 then (Some (TNew ''task ID is required''), s)
      else if agentID = '''' then (Some (TNew ''agent ID is required''), s)
      else if denied te ''assign'' then (Some (TNew ''unauthorized to assign task''), s)
      else case load_task te ''failed to get task'' i s of
        (Inl e, s) \<Rightarrow> (Some e, s)
      | (Inr t, s) \<Rightarrow>
     (if tk_Status t \<noteq> ''pending'' \<and> tk_Status t \<noteq> ''assigned''
      then (Some (TNew (''task cannot be assigned in status '' @ tk_Status t)), s)
      else case wd_GetAgent (te_wd te) agentID of
        Inl e \<Rightarrow> (Some (TWrap ''failed to get agent'' (TBase (EExternal e))), s)
      | Inr agent \<Rightarrow>
          if ag_Status agent \<noteq> ''active'' then (Some (TNew (''agent is not active: '' @ ag_Status agent)), s)
          else save_task te ''failed to assign task''
                 (t\<lparr>tk_AssignedTo := Some agentID, tk_Status := ''assigned'', tk_UpdatedAt := te_now te\<rparr>) s))"

text \<open>The strategy argument of \<open>AutoAssignTask\<close> is not used.\<close>

definition AutoAssignTask :: "task_env \<Rightarrow> uuid \<Rightarrow> task_service \<Rightarrow> ts_error option \<times> task_service" where
  "AutoAssignTask te i s =
     (if i = 0 then (Some (TNew ''task ID is required''), s)
      else if denied te ''assign'' then (Some (TNew ''unauthorized to assign task''), s)
      else case load_task te ''failed to get task'' i s of
        (Inl e, s) \<Rightarrow> (Some e, s)
      | (Inr t, s) \<Rightarrow>
     (if tk_Status t \<noteq> ''pending'' \<and> tk_Status t \<noteq> ''assigned''
      then (Some (TNew (''task cannot be assigned in status '' @ tk_Status t)), s)
      else case find_agent te t s of
        (None, s) \<Rightarrow> (Some TPanic, s)
      | (Some (Inl e), s) \<Rightarrow> (Some (TWrap ''failed to auto-assign task'' (TAssign e)), s)
      | (Some (Inr selectedAgent), s) \<Rightarrow> AssignTask te i (ag_ID selectedAgent) s))"

section \<open>Model: the life of a task\<close>

text \<open>The checks that accepting, rejecting, starting, completing and failing have in common.\<close>

definition owned_task ::
  "task_env \<Rightarrow> uuid \<Rightarrow> string \<Rightarrow> status \<Rightarrow> string \<Rightarrow> task_service \<Rightarrow> (ts_error + mtask) \<times> task_service" where
  "owned_task te i agentID required verb s =
     (case load_task te ''failed to get task'' i s of
        (Inl e, s) \<Rightarrow> (Inl e, s)
      | (Inr t, s) \<Rightarrow>
          if tk_AssignedTo t \<noteq> Some agentID then (Inl (TNew ''task is not assigned to this agent''), s)
          else if tk_Status t \<noteq> required
          then (Inl (TNew (''task cannot be '' @ verb @ '' in status '' @ tk_Status t)), s)
          else (Inr t, s))"

definition AcceptTask :: "task_env \<Rightarrow> uuid \<Rightarrow> string \<Rightarrow> task_service \<Rightarrow> ts_error option \<times> task_service" where
  "AcceptTask te i agentID s =
     (if i = 0 then (Some (TNew ''task ID is required''), s)
      else if agentID = '''' then (Some (TNew ''agent ID is required''), s)
      else case owned_task te i agentID ''assigned'' ''accepted'' s of
        (Inl e, s) \<Rightarrow> (Some e, s)
      | (Inr t, s) \<Rightarrow>
          save_task te ''failed to accept task'' (t\<lparr>tk_Status := ''accepted'', tk_UpdatedAt := te_now te\<rparr>) s)"

definition RejectTask :: "task_env \<Rightarrow> uuid \<Rightarrow> string \<Rightarrow> string \<Rightarrow> task_service \<Rightarrow> ts_error option \<times> task_service" where
  "RejectTask te i agentID reason s =
     (if i = 0 then (Some (TNew ''task ID is required''), s)
      else if agentID = '''' then (Some (TNew ''agent ID is required''), s)
      else if reason = '''' then (Some (TNew ''rejection reason is required''), s)
      else case owned_task te i agentID ''assigned'' ''rejected'' s of
        (Inl e, s) \<Rightarrow> (Some e, s)
      | (Inr t, s) \<Rightarrow>
          save_task te ''failed to reject task''
            (put_result ''rejected_at'' (now_text te) (put_result ''rejected_by'' (VStr agentID)
              (put_result ''rejection_reason'' (VStr reason)
                (t\<lparr>tk_Status := ''rejected'', tk_AssignedTo := None, tk_UpdatedAt := te_now te\<rparr>)))) s)"

definition StartTask :: "task_env \<Rightarrow> uuid \<Rightarrow> string \<Rightarrow> task_service \<Rightarrow> ts_error option \<times> task_service" where
  "StartTask te i agentID s =
     (if i = 0 then (Some (TNew ''task ID is required''), s)
      else if agentID = '''' then (Some (TNew ''agent ID is required''), s)
      else case owned_task te i agentID ''accepted'' ''started'' s of
        (Inl e, s) \<Rightarrow> (Some e, s)
      | (Inr t, s) \<Rightarrow>
          save_task te ''failed to start task'' (t\<lparr>tk_Status := ''in_progress'', tk_StartedAt := Some (te_now te),
            tk_UpdatedAt := te_now te\<rparr>) s)"

definition UpdateProgress :: "task_env \<Rightarrow> uuid \<Rightarrow> int \<Rightarrow> string \<Rightarrow> task_service \<Rightarrow> ts_error option \<times> task_service" where
  "UpdateProgress te i progress message s =
     (if i = 0 then (Some (TNew ''task ID is required''), s)
      else if progress < 0 \<or> 100 < progress then (Some (TNew ''progress must be between 0 and 100''), s)
      else case load_task te ''failed to get task'' i s of
        (Inl e, s) \<Rightarrow> (Some e, s)
      | (Inr t, s) \<Rightarrow>
          if tk_Status t \<noteq> ''in_progress''
          then (Some (TNew (''cannot update progress for task in status '' @ tk_Status t)), s)
          else
            let t = put_result ''last_progress_update'' (now_text te) (put_result ''progress'' (VInt progress) t);
                t = (if message \<noteq> '''' then put_result ''progress_message'' (VStr message) t else t)
            in save_task te ''failed to update task progress'' (t\<lparr>tk_UpdatedAt := te_now te\<rparr>) s)"

text \<open>
  The argument of \<open>CompleteTask\<close>: a \<open>map[string]interface{}\<close>, which may be nil, or something else.
  Assigning a key of a nil map panics.
\<close>

datatype task_result = ResultMap "(string, gval) fmap option" | ResultValue gval

definition CompleteTask :: "task_env \<Rightarrow> uuid \<Rightarrow> string \<Rightarrow> task_result \<Rightarrow> task_service \<Rightarrow> ts_error option \<times> task_service" where
  "CompleteTask te i agentID result s =
     (if i = 0 then (Some (TNew ''task ID is required''), s)
      else if agentID = '''' then (Some (TNew ''agent ID is required''), s)
      else case owned_task te i agentID ''in_progress'' ''completed'' s of
        (Inl e, s) \<Rightarrow> (Some e, s)
      | (Inr t, s) \<Rightarrow>
          let t = t\<lparr>tk_Status := ''completed'', tk_CompletedAt := Some (te_now te), tk_UpdatedAt := te_now te\<rparr>;
              t = (case result of
                     ResultMap m \<Rightarrow> t\<lparr>tk_Result := m\<rparr>
                   | ResultValue v \<Rightarrow> if tk_Result t = None then put_result ''data'' v t else t)
          in if tk_Result t = None then (Some TPanic, s)
             else
               let t = put_result ''completed_by'' (VStr agentID) (put_result ''progress'' (VInt 100) t);
                   t = (case tk_StartedAt t of
                          None \<Rightarrow> t
                        | Some started \<Rightarrow>
                            put_result ''duration_seconds'' (VFloat (dur_Seconds (time_sub (te_now te) started))) t)
               in save_task te ''failed to complete task'' t s)"

definition FailTask :: "task_env \<Rightarrow> uuid \<Rightarrow> string \<Rightarrow> string \<Rightarrow> task_service \<Rightarrow> ts_error option \<times> task_service" where
  "FailTask te i agentID errorMsg s =
     (if i = 0 then (Some (TNew ''task ID is required''), s)
      else if agentID = '''' then (Some (TNew ''agent ID is required''), s)
      else if errorMsg = '''' then (Some (TNew ''error message is required''), s)
      else case owned_task te i agentID ''in_progress'' ''failed'' s of
        (Inl e, s) \<Rightarrow> (Some e, s)
      | (Inr t, s) \<Rightarrow>
          save_task te ''failed to fail task''
            (put_result ''error_message'' (VStr errorMsg) (put_result ''failed_by'' (VStr agentID)
              (put_result ''failed_at'' (now_text te)
                (t\<lparr>tk_Status := ''failed'', tk_UpdatedAt := te_now te, tk_Error := errorMsg\<rparr>)))) s)"

text \<open>The end of \<open>RetryTask\<close>: the error of an automatic assignment is dropped.\<close>

definition store_retry :: "task_env \<Rightarrow> uuid \<Rightarrow> mtask \<Rightarrow> task_service \<Rightarrow> ts_error option \<times> task_service" where
  "store_retry te i t s =
     (let (err, s) = save_task te ''failed to retry task'' t s
      in case err of
           Some e \<Rightarrow> (Some e, s)
         | None \<Rightarrow>
             if shouldAutoAssign te t then
               let (aerr, s) = AutoAssignTask te i s
               in (if aerr = Some TPanic then Some TPanic else None, s)
             else (None, s))"

definition RetryTask :: "task_env \<Rightarrow> uuid \<Rightarrow> task_service \<Rightarrow> ts_error option \<times> task_service" where
  "RetryTask te i s =
     (if i = 0 then (Some (TNew ''task ID is required''), s)
      else if denied te ''retry'' then (Some (TNew ''unauthorized to retry task''), s)
      else case load_task te ''failed to get task'' i s of
        (Inl e, s) \<Rightarrow> (Some e, s)
      | (Inr t, s) \<Rightarrow>
          if tk_Status t \<noteq> ''failed'' \<and> tk_Status t \<noteq> ''cancelled''
          then (Some (TNew (''task cannot be retried in status '' @ tk_Status t)), s)
          else if tk_MaxRetries t \<le> tk_RetryCount t then (Some (TNew ''task has reached max retry limit''), s)
          else
            let t = t\<lparr>tk_Status := ''pending'', tk_AssignedTo := None, tk_Error := '''', tk_RetryCount := tk_RetryCount t + 1,
                      tk_UpdatedAt := te_now te, tk_StartedAt := None, tk_CompletedAt := None\<rparr>;
                t = put_result ''retried_at'' (now_text te) (put_result ''retry_count'' (VInt (tk_RetryCount t)) t)
            in store_retry te i t s)"

section \<open>Model: delegation\<close>

definition validateDelegation :: "task_env \<Rightarrow> mtask \<Rightarrow> delegation \<Rightarrow> ts_error option" where
  "validateDelegation te t d =
     (if tk_Status t = ''completed'' \<or> tk_Status t = ''cancelled''
      then Some (TNew ''cannot delegate completed or cancelled task'')
      else if dl_TaskID d \<noteq> tk_ID t then Some (TNew ''delegation task ID must match task ID'')
      else if dl_FromAgentID d = '''' then Some (TNew ''delegation from agent is required'')
      else if dl_ToAgentID d = '''' then Some (TNew ''delegation to agent is required'')
      else if dl_FromAgentID d = dl_ToAgentID d then Some (TNew ''cannot delegate to same agent'')
      else if tk_AssignedTo t \<noteq> Some (dl_FromAgentID d) then Some (TNew ''task is not assigned to delegating agent'')
      else case wd_GetAgent (te_wd te) (dl_ToAgentID d) of
             Inl e \<Rightarrow> Some (TWrap ''failed to get target agent'' (TBase (EExternal e)))
           | Inr agent \<Rightarrow> if ag_Status agent \<noteq> ''active'' then Some (TNew ''target agent is not active'') else None)"

definition delegate_in_tx :: "task_env \<Rightarrow> mtask \<Rightarrow> delegation \<Rightarrow> task_service \<Rightarrow> ts_error option \<times> task_service" where
  "delegate_in_tx te t d s =
     (let d = d\<lparr>dl_ID := rv_uuid (te_rv te) 0, dl_DelegatedAt := te_now te\<rparr>;
          (res, r) = tr_CreateDelegation (te_rv te) d (ts_repo s);
          s = s\<lparr>ts_repo := r\<rparr>
      in case res of Inl e \<Rightarrow> (Some (TWrap ''failed to create delegation'' (TRepo e)), s) | Inr d \<Rightarrow>
     (let t = t\<lparr>tk_AssignedTo := Some (dl_ToAgentID d), tk_Status := ''assigned'', tk_AssignedAt := Some (te_now te),
                tk_Version := tk_Version t + 1\<rparr>;
          (res, r) = tr_UpdateWithVersion (te_rv te) t (tk_Version t - 1) (ts_repo s);
          s = s\<lparr>ts_repo := r\<rparr>
      in case res of
           Inl e \<Rightarrow> (Some (if errors_Is e InterfacesErrOptimisticLock then ErrConcurrentModification
                           else TWrap ''failed to update task'' (TRepo e)), s)
         | Inr _ \<Rightarrow> (map_option TBase (PublishEvent (te_en te) ''TaskDelegated''), s)))"

definition DelegateTask :: "task_env \<Rightarrow> delegation \<Rightarrow> task_service \<Rightarrow> ts_error option \<times> task_service" where
  "DelegateTask te d s =
     (case CheckRateLimit (te_en te) ''task:delegate'' of Some e \<Rightarrow> (Some (TBase e), s) | None \<Rightarrow>
     (let (res, r) = tr_GetForUpdate (te_rv te) (dl_TaskID d) (ts_repo s); s = s\<lparr>ts_repo := r\<rparr>
      in case res of Inl e \<Rightarrow> (Some (TWrap ''failed to get task'' (TRepo e)), s) | Inr t \<Rightarrow>
     (case validateDelegation te t d of Some e \<Rightarrow> (Some e, s) | None \<Rightarrow>
     (case (case te_delegation_policy te of None \<Rightarrow> Inr (True, '''') | Some evaluate \<Rightarrow> evaluate t d) of
        Inl e \<Rightarrow> (Some (TWrap ''policy evaluation failed'' (TBase (EExternal e))), s)
      | Inr (allowed, reason) \<Rightarrow>
          if \<not> allowed then (Some (DelegationError reason), s)
          else task_transaction (delegate_in_tx te t d) s))))"

section \<open>Model: trees\<close>

definition as_map :: "gval \<Rightarrow> (string \<times> gval) list option" where
  "as_map v = (case v of VMap kvs \<Rightarrow> Some kvs | _ \<Rightarrow> None)"

definition SubmitSubtaskResult ::
  "task_env \<Rightarrow> uuid \<Rightarrow> uuid \<Rightarrow> task_result \<Rightarrow> task_service \<Rightarrow> ts_error option \<times> task_service" where
  "SubmitSubtaskResult te parentID subtaskID result s =
     (if parentID = 0 then (Some (TNew ''parent task ID is required''), s)
      else if subtaskID = 0 then (Some (TNew ''subtask ID is required''), s)
      else if denied te ''update'' then (Some (TNew ''unauthorized to submit subtask result''), s)
      else case load_task te ''failed to get parent task'' parentID s of
        (Inl e, s) \<Rightarrow> (Some e, s)
      | (Inr parent, s) \<Rightarrow>
     (case load_task te ''failed to get subtask'' subtaskID s of
        (Inl e, s) \<Rightarrow> (Some e, s)
      | (Inr sub, s) \<Rightarrow>
     (if tk_ParentTaskID sub \<noteq> Some parentID then (Some (TNew ''subtask does not belong to parent task''), s) else
     (let subResult = (case tk_Result sub of None \<Rightarrow> fmempty | Some m \<Rightarrow> m);
          subResult = (case result of
                         ResultMap m \<Rightarrow> (case m of None \<Rightarrow> subResult | Some m \<Rightarrow> subResult ++\<^sub>f m)
                       | ResultValue v \<Rightarrow> fmupd ''data'' v subResult);
          parentResult = (case tk_Result parent of None \<Rightarrow> fmempty | Some m \<Rightarrow> m);
          subtaskResults = (case as_map (fmget VNil parentResult ''subtask_results'') of None \<Rightarrow> [] | Some kvs \<Rightarrow> kvs);
          subtaskResults = AList.update (uuid_String subtaskID) (VMap (go_range subResult)) subtaskResults;
          parent = put_result ''subtask_results'' (VMap subtaskResults) parent;
          (err, s) = update_task te ''failed to update parent task'' parent s
      in case err of
           Some e \<Rightarrow> (Some e, s)
         | None \<Rightarrow> (None, forget_task subtaskID (forget_task parentID s))))))"

definition svc_GetTaskTree :: "task_env \<Rightarrow> uuid \<Rightarrow> task_service \<Rightarrow> (ts_error + task_tree) \<times> task_service" where
  "svc_GetTaskTree te rootID s =
     (if rootID = 0 then (Inl (TNew ''root task ID is required''), s)
      else if denied te ''read'' then (Inl (TNew ''unauthorized to read task tree''), s)
      else case load_task te ''failed to get root task'' rootID s of
        (Inl e, s) \<Rightarrow> (Inl e, s)
      | (Inr rootTask, s) \<Rightarrow>
          let (res, r) = tr_GetTaskTree (te_rv te) rootID 10 (ts_repo s); s = s\<lparr>ts_repo := r\<rparr>
          in (map_sum (\<lambda>e. TWrap ''failed to get task tree'' (TRepo e)) id res, s))"

text \<open>The goroutines of \<open>CancelTaskTree\<close>, one for each task of the tree, run to their end; the first error is kept.\<close>

definition cancel_one ::
  "task_env \<Rightarrow> string \<Rightarrow> ts_error option \<times> task_service \<Rightarrow> mtask \<Rightarrow> ts_error option \<times> task_service" where
  "cancel_one te reason = (\<lambda>(err, s) t.
     if tk_Status t \<noteq> ''completed'' \<and> tk_Status t \<noteq> ''cancelled'' then
       let (res, r) = tr_Update (te_rv te) (t\<lparr>tk_Status := ''cancelled'', tk_Error := reason, tk_UpdatedAt := te_now te\<rparr>)
             (ts_repo s);
           s = s\<lparr>ts_repo := r\<rparr>
       in (case (err, res) of (None, Inl e) \<Rightarrow> Some (TRepo e) | _ \<Rightarrow> err, s)
     else (err, s))"

definition tree_tasks :: "task_tree \<Rightarrow> mtask list" where
  "tree_tasks tree = tt_Root tree # concat (map snd (go_range (tt_Children tree)))"

definition CancelTaskTree :: "task_env \<Rightarrow> uuid \<Rightarrow> string \<Rightarrow> task_service \<Rightarrow> ts_error option \<times> task_service" where
  "CancelTaskTree te rootID reason s =
     (if rootID = 0 then (Some (TNew ''root task ID is required''), s)
      else if reason = '''' then (Some (TNew ''cancellation reason is required''), s)
      else if denied te ''cancel'' then (Some (TNew ''unauthorized to cancel task tree''), s)
      else case svc_GetTaskTree te rootID s of
        (Inl e, s) \<Rightarrow> (Some (TWrap ''failed to get task tree'' e), s)
      | (Inr tree, s) \<Rightarrow>
          let (err, s) = foldl (cancel_one te reason) (None, s) (tree_tasks tree)
          in case err of
               Some e \<Rightarrow> (Some (TWrap ''failed to cancel task tree'' e), s)
             | None \<Rightarrow> (None, forget_task rootID s))"

section \<open>Model: workflow tasks and lists\<close>

definition CreateWorkflowTask ::
  "task_env \<Rightarrow> bool \<Rightarrow> uuid \<Rightarrow> uuid \<Rightarrow> (string, gval) fmap option \<Rightarrow> task_service \<Rightarrow> (ts_error + mtask) \<times> task_service" where
  "CreateWorkflowTask te configured workflowID stepID params s =
     (if workflowID = 0 then (Inl (TNew ''workflow ID is required''), s)
      else if stepID = 0 then (Inl (TNew ''step ID is required''), s)
      else if denied te ''create'' then (Inl (TNew ''unauthorized to create workflow task''), s)
      else if \<not> configured then (Inl (TNew ''workflow service not configured''), s)
      else
        let t = zero_task\<lparr>tk_ID := rv_uuid (te_rv te) 1, tk_TenantID := en_tenant (te_en te), tk_Type := ''workflow_step'',
                  tk_Title := ''Workflow Step '' @ uuid_String stepID, tk_Description := ''Task created from workflow step'',
                  tk_Status := ''pending'', tk_Priority := ''normal'', tk_Parameters := params, tk_Result := Some fmempty,
                  tk_CreatedAt := te_now te, tk_UpdatedAt := te_now te\<rparr>;
            t = put_result ''step_id'' (VStr (uuid_String stepID)) (put_result ''workflow_id'' (VStr (uuid_String workflowID)) t);
            (err, t, s) = svc_Create te t '''' s
        in case err of
             Some e \<Rightarrow> (Inl (TWrap ''failed to create workflow task'' e), s)
           | None \<Rightarrow> (Inr t, s))"

definition CompleteWorkflowTask :: "task_env \<Rightarrow> uuid \<Rightarrow> task_result \<Rightarrow> task_service \<Rightarrow> ts_error option \<times> task_service" where
  "CompleteWorkflowTask te i output s =
     (if i = 0 then (Some (TNew ''task ID is required''), s)
      else if denied te ''complete'' then (Some (TNew ''unauthorized to complete workflow task''), s)
      else case load_task te ''failed to get task'' i s of
        (Inl e, s) \<Rightarrow> (Some e, s)
      | (Inr t, s) \<Rightarrow>
          if tk_Type t \<noteq> ''workflow_step'' then (Some (TNew ''task is not a workflow task''), s)
          else
            let agentID = (case tk_AssignedTo t of None \<Rightarrow> '''' | Some a \<Rightarrow> a);
                (err, s) = CompleteTask te i agentID output s
            in (map_option (TWrap ''failed to complete workflow task'') err, s))"

definition GetAgentTasks :: "task_env \<Rightarrow> string \<Rightarrow> task_filters \<Rightarrow> task_service \<Rightarrow> (ts_error + mtask list) \<times> task_service" where
  "GetAgentTasks te agentID filters s =
     (if agentID = '''' then (Inl (TNew ''agent ID is required''), s)
      else if denied te ''read'' then (Inl (TNew ''unauthorized to read tasks''), s)
      else
        let cacheKey = ''agent:'' @ agentID @ '':tasks''
        in case mc_Get (te_now te) cacheKey ([] :: mtask list) (ts_taskCache s) of
             (None, tasks) \<Rightarrow> (Inr tasks, s)
           | (Some _, _) \<Rightarrow>
               (case tr_ListByAgent (te_rv te) agentID (filters\<lparr>fl_CreatedBy := None, fl_ParentTaskID := None,
                       fl_CreatedAfter := None, fl_CreatedBefore := None\<rparr>) (ts_repo s) of
                  Inl e \<Rightarrow> (Inl (TWrap ''failed to get agent tasks'' (TRepo e)), s)
                | Inr page \<Rightarrow> (Inr (tp_Tasks page), s\<lparr>ts_taskCache :=
                    mc_Set (te_now te) cacheKey (TCTasks (tp_Tasks page)) (1 * minute) (ts_taskCache s)\<rparr>)))"

definition no_filters :: task_filters where
  "no_filters = \<lparr>fl_Status = [], fl_Priority = [], fl_Types = [], fl_AssignedTo = None, fl_CreatedBy = None,
     fl_ParentTaskID = None, fl_CreatedAfter = None, fl_CreatedBefore = None, fl_Limit = 0, fl_Offset = 0\<rparr>"

definition GetAvailableTasks :: "task_env \<Rightarrow> string \<Rightarrow> string list \<Rightarrow> task_service \<Rightarrow> ts_error + mtask list" where
  "GetAvailableTasks te agentID capabilities s =
     (if agentID = '''' then Inl (TNew ''agent ID is required'')
      else if denied te ''read'' then Inl (TNew ''unauthorized to read tasks'')
      else case wd_GetAgent (te_wd te) agentID of
        Inl e \<Rightarrow> Inl (TWrap ''failed to get agent'' (TBase (EExternal e)))
      | Inr agent \<Rightarrow>
          if ag_Status agent \<noteq> ''active'' then Inr []
          else case tr_ListByTenant (te_rv te) (ag_TenantID agent)
                     (no_filters\<lparr>fl_Status := [''pending''], fl_Limit := 100\<rparr>) (ts_repo s) of
                 Inl e \<Rightarrow> Inl (TWrap ''failed to get available tasks'' (TRepo e))
               | Inr page \<Rightarrow>
                   if capabilities \<noteq> [] then Inr (filter (\<lambda>t. tk_Type t \<in> set capabilities) (tp_Tasks page))
                   else Inr (tp_Tasks page))"

section \<open>Model: background work\<close>

text \<open>The workloads \<open>RebalanceTasks\<close> collects: one query for each agent until one succeeds.\<close>

definition collect_workloads :: "task_env \<Rightarrow> mtask list \<Rightarrow> (string, workload) fmap" where
  "collect_workloads te tasks = foldl (\<lambda>m t.
     case tk_AssignedTo t of
       None \<Rightarrow> m
     | Some a \<Rightarrow>
         if fmlookup m a \<noteq> None then m
         else case wd_GetAgentWorkload (te_wd te) a of Inl _ \<Rightarrow> m | Inr w \<Rightarrow> fmupd a w m) fmempty tasks"

definition rebalance_one ::
  "task_env \<Rightarrow> (string, workload) fmap \<Rightarrow> ts_error option \<times> task_service \<Rightarrow> mtask \<Rightarrow> ts_error option \<times> task_service" where
  "rebalance_one te workloads = (\<lambda>(err, s) t.
     case (err, tk_AssignedTo t) of
       (None, Some a) \<Rightarrow>
         (case fmlookup workloads a of
            Some w \<Rightarrow>
              if f64_round (8 / 10) < aw_LoadScore w then
                let (aerr, s) = AutoAssignTask te (tk_ID t) s
                in (if aerr = Some TPanic then Some TPanic else None, s)
              else (None, s)
          | None \<Rightarrow> (None, s))
     | _ \<Rightarrow> (err, s))"

definition RebalanceTasks :: "task_env \<Rightarrow> task_service \<Rightarrow> ts_error option \<times> task_service" where
  "RebalanceTasks te s =
     (let isSystemOp = (te_ctx te (StringKey ''system_operation'') = Some True)
      in if \<not> isSystemOp \<and> denied te ''rebalance'' then (Some (TNew ''unauthorized to rebalance tasks''), s)
         else case tr_ListByTenant (te_rv te) (en_tenant (te_en te))
                    (no_filters\<lparr>fl_Status := [''assigned''], fl_Limit := 1000\<rparr>) (ts_repo s) of
                Inl e \<Rightarrow> (Some (TWrap ''failed to get assigned tasks'' (TRepo e)), s)
              | Inr page \<Rightarrow>
                  foldl (rebalance_one te (collect_workloads te (tp_Tasks page))) (None, s) (tp_Tasks page))"

text \<open>\<open>TaskRebalancer.rebalance\<close>: the keys it stores in the context have the type \<open>contextKey\<close>.\<close>

definition rebalance :: "task_env \<Rightarrow> task_service \<Rightarrow> ts_error option \<times> task_service" where
  "rebalance te s =
     (let te = te\<lparr>te_ctx := (\<lambda>k. if k = ContextKey ''system_operation'' then Some True else None)\<rparr>
      in RebalanceTasks te s)"

definition dur_round_second :: "duration \<Rightarrow> duration" where
  "dur_round_second d = sgn d * ((\<bar>d\<bar> + second div 2) div second * second)"

definition go_trunc :: "rat \<Rightarrow> int" where
  "go_trunc x = (if x < 0 then \<lceil>x\<rceil> else \<lfloor>x\<rfloor>)"

text \<open>
  One task of \<open>checkProgress\<close>.  The duration of the timeout does not overflow: the column is a
  32-bit integer.
\<close>

definition check_one :: "task_env \<Rightarrow> task_service \<Rightarrow> uuid \<times> go_time \<Rightarrow> task_service" where
  "check_one te s = (\<lambda>(i, startTime).
     let elapsed = time_sub (te_now te) startTime
     in case svc_Get te i s of
          (Inl _, s) \<Rightarrow> s
        | (Inr t, s) \<Rightarrow>
            if tk_Status t = ''completed'' \<or> tk_Status t = ''failed'' then Untrack i s
            else
              let progressPercent = (if 0 < tk_TimeoutSeconds t
                    then min 100 (f64_mul (f64_div (dur_Seconds elapsed) (f64_of_int (tk_TimeoutSeconds t))) 100) else 0);
                  oldProgress = (case as_float (at_key (tk_Result t) ''progress'') of None \<Rightarrow> 0 | Some x \<Rightarrow> go_trunc x);
                  newProgress = go_trunc progressPercent;
                  s = (if tk_Status t = ''in_progress'' \<and> 5 \<le> newProgress - oldProgress
                       then snd (UpdateProgress te i newProgress
                              (''Task running for '' @ te_dur_text te (dur_round_second elapsed)) s)
                       else s);
                  timeout = tk_TimeoutSeconds t * second
              in if 0 < tk_TimeoutSeconds t \<and> timeout * 90 div 100 < elapsed \<and> timeout < elapsed then
                   let t = t\<lparr>tk_Status := ''timeout'', tk_CompletedAt := Some (te_now te),
                             tk_Error := ''Task timed out after '' @ te_dur_text te elapsed @ '' (timeout: ''
                               @ Itoa (tk_TimeoutSeconds t) @ ''s)''\<rparr>
                   in Untrack i (snd (svc_Update te (Some t) s))
                 else s)"

definition checkProgress :: "task_env \<Rightarrow> task_service \<Rightarrow> task_service" where
  "checkProgress te s = foldl (check_one te) s (go_range (ts_tracked s))"

end
