(* ===== verification/Task_Store.thy ===== *)
theory Task_Store
  imports Task_Repository
begin

text \<open>
  What the task repository guarantees: its cache never disagrees with the table as long as the
  cache server answers and no task is archived, updates with an expected version never overwrite
  a change they have not seen, and the circuit breaker around the statements.
\<close>

section \<open>Writes\<close>

definition rows_of :: "uuid \<Rightarrow> task_repo \<Rightarrow> mtask list" where
  "rows_of i r = filter (\<lambda>t. tk_ID t = i) (tr_rows r)"

text \<open>
  A write that keeps the cache honest: it adds nothing to the cache, and it forgets the cached copy
  of every task whose rows it changes.  It leaves at most one row where there was none.
\<close>

definition write_ok :: "task_repo \<Rightarrow> task_repo \<Rightarrow> bool" where
  "write_ok r r' \<longleftrightarrow>
     (\<forall>key v. fmlookup (tr_cache r') key = Some v \<longrightarrow> fmlookup (tr_cache r) key = Some v)
     \<and> (\<forall>i. rows_of i r' = rows_of i r \<or> fmlookup (tr_cache r') (task_key i) = None)
     \<and> (\<forall>i. length (rows_of i r') \<le> max 1 (length (rows_of i r)))"

definition coherent :: "(go_time \<Rightarrow> string) \<Rightarrow> task_repo \<Rightarrow> bool" where
  "coherent tt r \<longleftrightarrow>
     (\<forall>i t e. fmlookup (tr_cache r) (task_key i) = Some (t, e) \<longrightarrow>
        map_option (cached_copy tt) (List.find (live i) (tr_rows r)) = Some t)
     \<and> (\<forall>i. length (rows_of i r) \<le> 1)"

lemma find_live: "List.find (live i) (tr_rows r) = List.find (\<lambda>t. tk_DeletedAt t = None) (rows_of i r)"
proof -
  have "List.find (live i) xs = List.find (\<lambda>t. tk_DeletedAt t = None) (filter (\<lambda>t. tk_ID t = i) xs)" for xs
    by (induction xs) (auto simp: live_def)
  then show ?thesis by (simp add: rows_of_def)
qed

lemma write_ok_refl [simp]: "write_ok r r"
  by (auto simp: write_ok_def)

lemma write_ok_trans: "write_ok r s \<Longrightarrow> write_ok s u \<Longrightarrow> write_ok r u"
proof -
  assume 1: "write_ok r s" and 2: "write_ok s u"
  have c: "fmlookup (tr_cache r) key = Some v" if "fmlookup (tr_cache u) key = Some v" for key v
    using that 1 2 unfolding write_ok_def by blast
  have n: "rows_of i u = rows_of i r \<or> fmlookup (tr_cache u) (task_key i) = None" for i
    using 1 2 unfolding write_ok_def by (metis option.exhaust)
  have l: "length (rows_of i u) \<le> max 1 (length (rows_of i r))" for i
    using 1 2 unfolding write_ok_def by (meson dual_order.trans max.boundedI max.cobounded1 order_refl)
  show ?thesis unfolding write_ok_def using c n l by blast
qed

lemma coherent_write:
  assumes "coherent tt r" "write_ok r r'"
  shows "coherent tt r'"
  unfolding coherent_def
proof (intro conjI allI impI)
  fix i t e
  assume c: "fmlookup (tr_cache r') (task_key i) = Some (t, e)"
  with assms(2) have "fmlookup (tr_cache r) (task_key i) = Some (t, e)" "rows_of i r' = rows_of i r"
    by (auto simp: write_ok_def)
  with assms(1) show "map_option (cached_copy tt) (List.find (live i) (tr_rows r')) = Some t"
    by (simp add: coherent_def find_live)
next
  fix i
  from assms have "length (rows_of i r') \<le> max 1 (length (rows_of i r))" "length (rows_of i r) \<le> 1"
    by (auto simp: write_ok_def coherent_def)
  then show "length (rows_of i r') \<le> 1" by simp
qed

text \<open>The parts of the state a write is about: the breaker, the archive and the delegations do not matter.\<close>

lemma parts_simps [simp]:
  "rows_of i (r\<lparr>tr_cb := cb\<rparr>) = rows_of i r" "rows_of i (r\<lparr>tr_archive := a\<rparr>) = rows_of i r"
  "rows_of i (r\<lparr>tr_delegations := d\<rparr>) = rows_of i r" "rows_of i (r\<lparr>tr_cache := c\<rparr>) = rows_of i r"
  "rows_of i (r\<lparr>tr_rows := rows\<rparr>) = filter (\<lambda>t. tk_ID t = i) rows"
  by (simp_all add: rows_of_def)

lemma write_ok_cb [simp]: "write_ok r (r'\<lparr>tr_cb := cb\<rparr>) = write_ok r r'"
  "write_ok (r\<lparr>tr_cb := cb\<rparr>) r' = write_ok r r'"
  by (simp_all add: write_ok_def)

lemma coherent_cb [simp]: "coherent tt (r\<lparr>tr_cb := cb\<rparr>) = coherent tt r"
  by (simp add: coherent_def)

section \<open>What the wrappers do to a state\<close>

lemma breaker_state:
  "\<exists>cb. snd (ExecuteWithCircuitBreaker rv name fn r)
     = (if fst (cb_canExecute (rv_now rv) (tr_cb r)) \<noteq> None then r else snd (fn r))\<lparr>tr_cb := cb\<rparr>"
  by (auto simp: ExecuteWithCircuitBreaker_def Let_def split_beta)

lemma breaker_result:
  assumes "fst (ExecuteWithCircuitBreaker rv name fn r) = Inr v"
  shows "fst (cb_canExecute (rv_now rv) (tr_cb r)) = None \<and> rv_race rv name = ResultFirst \<and> fst (fn r) = Inr v"
  using assms
  by (auto simp: ExecuteWithCircuitBreaker_def Let_def split_beta cb_Execute_def split: prod.splits if_splits sum.splits race.splits
      option.splits)

lemma breaker_closed:
  assumes "cb_state (tr_cb r) = Closed" "rv_race rv name = ResultFirst"
  shows "ExecuteWithCircuitBreaker rv name fn r =
    (map_sum (WrapError ''circuit breaker execution failed'') id (fst (fn r)),
     (snd (fn r))\<lparr>tr_cb := (if isl (fst (fn r)) then cb_recordFailure (rv_now rv) (tr_cb r)
        else cb_recordSuccess (rv_now rv) (tr_cb r))\<rparr>)"
  using assms
  by (cases "fn r"; cases "fst (fn r)")
    (auto simp: ExecuteWithCircuitBreaker_def Let_def cb_Execute_def cb_canExecute_def cb_check_def)

lemma write_ok_breaker: "write_ok r (snd (fn r)) \<Longrightarrow> write_ok r (snd (ExecuteWithCircuitBreaker rv name fn r))"
  using breaker_state [of rv name fn r] by (auto split: if_splits)

lemma write_ok_transaction:
  assumes "write_ok r (snd (fn r))"
  shows "write_ok r (snd (repo_WithTransaction rv fn r))"
proof -
  have "write_ok r ((snd (fn r))\<lparr>tr_rows := tr_rows r, tr_archive := tr_archive r, tr_delegations := tr_delegations r\<rparr>)"
    using assms by (auto simp: write_ok_def rows_of_def)
  with assms show ?thesis
    by (auto simp: repo_WithTransaction_def Let_def split: option.splits prod.splits sum.splits)
qed

section \<open>Each write keeps the cache honest\<close>

lemma CacheDelete_cache: "\<exists>c. CacheDelete rv key r = r\<lparr>tr_cache := c\<rparr>"
  by (cases r) (auto simp: CacheDelete_def)

lemma fold_delete_cache: "\<exists>c. foldl (\<lambda>r key. CacheDelete rv key r) r keys = r\<lparr>tr_cache := c\<rparr>"
proof (induction keys arbitrary: r)
  case Nil
  show ?case by (cases r) auto
next
  case (Cons k ks)
  obtain c where "CacheDelete rv k r = r\<lparr>tr_cache := c\<rparr>" using CacheDelete_cache by blast
  with Cons [of "r\<lparr>tr_cache := c\<rparr>"] show ?case by simp
qed

lemma invalidate_cache: "\<exists>c. invalidateTaskCache rv t r = r\<lparr>tr_cache := c\<rparr>"
  unfolding invalidateTaskCache_def Let_def by (rule fold_delete_cache)

lemma invalidate_rows [simp]:
  "tr_rows (CacheDelete rv key r) = tr_rows r" "tr_rows (invalidateTaskCache rv t r) = tr_rows r"
  "rows_of i (CacheDelete rv key r) = rows_of i r" "rows_of i (invalidateTaskCache rv t r) = rows_of i r"
  using CacheDelete_cache [of rv key r] invalidate_cache [of rv t r] by (auto simp: rows_of_def)

lemma CacheDelete_lookup:
  "rv_cache_up rv \<Longrightarrow> fmlookup (tr_cache (CacheDelete rv key r)) key' = (if key' = key then None else fmlookup (tr_cache r) key')"
  by (simp add: CacheDelete_def)

lemma fold_delete_lookup:
  "rv_cache_up rv \<Longrightarrow> fmlookup (tr_cache (foldl (\<lambda>r key. CacheDelete rv key r) r keys)) key'
     = (if key' \<in> set keys then None else fmlookup (tr_cache r) key')"
  by (induction keys arbitrary: r) (auto simp: CacheDelete_lookup)

lemma invalidate_lookup:
  assumes "rv_cache_up rv"
  shows "fmlookup (tr_cache (invalidateTaskCache rv t r)) (task_key (tk_ID t)) = None"
    "fmlookup (tr_cache (invalidateTaskCache rv t r)) key = Some v \<Longrightarrow> fmlookup (tr_cache r) key = Some v"
  using assms by (auto simp: invalidateTaskCache_def Let_def fold_delete_lookup CacheDelete_lookup split: if_splits)

text \<open>A write of rows with one id followed by the deletion of its key.\<close>

lemma write_then_forget:
  assumes "\<And>j. j \<noteq> i \<Longrightarrow> rows_of j s = rows_of j r" "tr_cache s = tr_cache r"
    and "length (rows_of i s) \<le> max 1 (length (rows_of i r))"
    and "\<And>j. rows_of j u = rows_of j s" "fmlookup (tr_cache u) (task_key i) = None"
    and "\<And>key v. fmlookup (tr_cache u) key = Some v \<Longrightarrow> fmlookup (tr_cache s) key = Some v"
  shows "write_ok r u"
proof -
  have "length (rows_of j u) \<le> max 1 (length (rows_of j r))" for j
    using assms(1,3,4) by (cases "j = i") auto
  moreover have "rows_of j u = rows_of j r \<or> fmlookup (tr_cache u) (task_key j) = None" for j
    using assms(1,4,5) by (cases "j = i") auto
  ultimately show ?thesis using assms(2,6) by (auto simp: write_ok_def)
qed

lemma rows_of_update:
  assumes "\<And>t. P t \<Longrightarrow> tk_ID t = i \<and> tk_ID (f t) = i"
  shows "j \<noteq> i \<Longrightarrow> rows_of j (update_where P f r) = rows_of j r"
    "length (rows_of i (update_where P f r)) = length (rows_of i r)"
proof -
  have "filter (\<lambda>t. tk_ID t = j) (map (\<lambda>t. if P t then f t else t) xs) = filter (\<lambda>t. tk_ID t = j) xs" if "j \<noteq> i" for xs
    using that assms by (induction xs) auto
  moreover have "length (filter (\<lambda>t. tk_ID t = i) (map (\<lambda>t. if P t then f t else t) xs))
      = length (filter (\<lambda>t. tk_ID t = i) xs)" for xs
    using assms by (induction xs) auto
  ultimately show "j \<noteq> i \<Longrightarrow> rows_of j (update_where P f r) = rows_of j r"
    "length (rows_of i (update_where P f r)) = length (rows_of i r)"
    by (simp_all add: update_where_def rows_of_def)
qed

lemma cache_update_where [simp]: "tr_cache (update_where P f r) = tr_cache r"
  by (simp add: update_where_def)

lemma write_ok_update:
  assumes "rv_cache_up rv" "\<And>t. P t \<Longrightarrow> tk_ID t = i \<and> tk_ID (f t) = i"
  shows "write_ok r (CacheDelete rv (task_key i) (update_where P f r))"
    "tk_ID t = i \<Longrightarrow> write_ok r (invalidateTaskCache rv t (update_where P f r))"
proof -
  let ?s = "update_where P f r"
  have s: "\<And>j. j \<noteq> i \<Longrightarrow> rows_of j ?s = rows_of j r" "length (rows_of i ?s) \<le> max 1 (length (rows_of i r))"
    using rows_of_update [of P i f, OF assms(2)] by auto
  show "write_ok r (CacheDelete rv (task_key i) ?s)"
    by (rule write_then_forget [OF s(1) cache_update_where s(2)])
      (use assms(1) in \<open>simp_all add: CacheDelete_lookup split: if_splits\<close>)
  show "write_ok r (invalidateTaskCache rv t ?s)" if "tk_ID t = i"
    using write_then_forget [OF s(1) cache_update_where s(2) invalidate_rows(4) _ invalidate_lookup(2) [OF assms(1)]]
      invalidate_lookup(1) [OF assms(1), of t ?s] that by simp
qed

lemma write_ok_foldl:
  assumes "\<And>x u. write_ok (g x) (g (step x u))"
  shows "write_ok (g x) (g (foldl step x us))"
proof (induction us arbitrary: x)
  case (Cons u us)
  then show ?case using assms write_ok_trans by (metis foldl_Cons)
qed simp

lemma live_update: "live i t \<Longrightarrow> tk_ID t = i"
  by (simp add: live_def)

lemma set_columns_ID [simp]: "tk_ID (set_columns tt t row) = tk_ID row"
  by (simp add: set_columns_def Let_def)

lemma set_columns_Version [simp]: "tk_Version (set_columns tt t row) = tk_Version t"
  by (simp add: set_columns_def stored_task_def Let_def)

lemma touch_ID [simp]: "tk_ID (touch rv t) = tk_ID t" "tk_ID (set_status rv st t) = tk_ID t"
  by (simp_all add: touch_def set_status_def Let_def)

lemma write_ok_doUpdate: "rv_cache_up rv \<Longrightarrow> write_ok r (snd (doUpdate rv t r))"
  by (auto simp: doUpdate_def Let_def live_def intro!: write_ok_update split: option.splits)

lemma write_ok_doUpdateWithVersion: "rv_cache_up rv \<Longrightarrow> write_ok r (snd (doUpdateWithVersion rv t v r))"
  by (auto simp: doUpdateWithVersion_def Let_def live_def intro!: write_ok_update split: option.splits)

lemma write_ok_doSoftDelete: "rv_cache_up rv \<Longrightarrow> write_ok r (snd (doSoftDelete rv i r))"
  by (auto simp: doSoftDelete_def live_def intro!: write_ok_update split: option.splits)

lemma write_ok_AssignToAgent: "rv_cache_up rv \<Longrightarrow> write_ok r (snd (tr_AssignToAgent rv i a r))"
  by (auto simp: tr_AssignToAgent_def Let_def live_def intro!: write_ok_update split: option.splits)

lemma write_ok_UnassignTask: "rv_cache_up rv \<Longrightarrow> write_ok r (snd (tr_UnassignTask rv i r))"
  by (auto simp: tr_UnassignTask_def live_def intro!: write_ok_update split: option.splits)

lemma write_ok_IncrementRetryCount: "rv_cache_up rv \<Longrightarrow> write_ok r (snd (tr_IncrementRetryCount rv i r))"
  by (auto simp: tr_IncrementRetryCount_def Let_def live_def intro!: write_ok_update split: option.splits)

lemma write_ok_LockTask: "rv_cache_up rv \<Longrightarrow> write_ok r (snd (tr_LockTaskForExecution rv i a r))"
  unfolding tr_LockTaskForExecution_def
  by (rule write_ok_transaction) (auto simp: Let_def live_def intro!: write_ok_update split: option.splits)

lemma write_ok_Bulk:
  assumes "rv_cache_up rv"
  shows "write_ok r (snd (tr_BulkUpdateStatus rv us r))"
proof -
  have "write_ok (snd x) (snd (bulk_step rv x u))" for x u
    using assms by (cases x; cases u) (auto simp: bulk_step_def live_def intro!: write_ok_update split: sum.splits option.splits)
  then have "write_ok r (snd (foldl (bulk_step rv) (Inr (), r) us))"
    using write_ok_foldl [where g = snd and step = "bulk_step rv" and x = "(Inr (), r)"] by simp
  then show ?thesis
    unfolding tr_BulkUpdateStatus_def by (intro write_ok_transaction) (simp split: option.splits)
qed

lemma inserted_ID [simp]: "tk_ID (inserted_row rv t) = tk_ID t" "tk_DeletedAt (inserted_row rv t) = tk_DeletedAt (rv_default rv)"
  by (simp_all add: inserted_row_def stored_task_def Let_def)

lemma prepared_old [simp]: "tk_ID t \<noteq> 0 \<Longrightarrow> tk_ID (prepared rv n t) = tk_ID t"
  by (simp add: prepared_def)

lemma rows_of_insert: "rows_of j (r\<lparr>tr_rows := tr_rows r @ [inserted_row rv t]\<rparr>)
   = rows_of j r @ (if j = tk_ID t then [inserted_row rv t] else [])"
  by (simp add: rows_of_def inserted_row_def stored_task_def Let_def)

lemma write_ok_doCreate:
  assumes "rv_cache_up rv" "rows_of (tk_ID (prepared rv 0 t)) r = []"
  shows "write_ok r (snd (snd (doCreate rv k t r)))"
proof -
  let ?t = "prepared rv 0 t" let ?s = "r\<lparr>tr_rows := tr_rows r @ [inserted_row rv ?t]\<rparr>"
  have s: "rows_of j ?s = rows_of j r" if "j \<noteq> tk_ID ?t" for j using that by (simp only: rows_of_insert) simp
  have "length (rows_of (tk_ID ?t) ?s) \<le> max 1 (length (rows_of (tk_ID ?t) r))"
    by (simp only: rows_of_insert assms(2)) simp
  then have "write_ok r (invalidateTaskCache rv ?t ?s)"
    by (intro write_then_forget [OF s _ _ invalidate_rows(4) invalidate_lookup(1) [OF assms(1)]
          invalidate_lookup(2) [OF assms(1)]]) simp_all
  then show ?thesis by (simp add: doCreate_def Let_def split: option.splits)
qed

lemma doCreate_failed: "fst (doCreate rv k t r) \<noteq> None \<Longrightarrow> doCreate rv k t r = (fst (doCreate rv k t r), prepared rv 0 t, r)"
  by (auto simp: doCreate_def Let_def split: option.splits if_splits)

lemma prepared_ID [simp]: "tk_ID (prepared rv 0 (prepared rv 0 t)) = tk_ID (prepared rv 0 t)"
  by (simp add: prepared_def)

lemma write_ok_create_loop:
  assumes "rv_cache_up rv" "rows_of (tk_ID (prepared rv 0 t)) r = []"
  shows "write_ok r (snd (snd (create_loop rv n k err t r)))"
  using assms(2)
proof (induction n arbitrary: k err t)
  case (Suc n)
  obtain e t' r' where d: "doCreate rv k t r = (e, t', r')" by (metis surj_pair)
  have ok: "write_ok r r'" using write_ok_doCreate [OF assms(1) Suc.prems, of k] by (simp add: d)
  show ?case
  proof (cases e)
    case (Some x)
    then have "t' = prepared rv 0 t" "r' = r" using doCreate_failed [of rv k t r] by (auto simp: d)
    with Suc.IH [of "prepared rv 0 t" "Suc k" e] Suc.prems show ?thesis by (simp add: d Some)
  qed (simp add: d ok)
qed simp

lemma write_ok_Create:
  assumes "rv_cache_up rv" "rows_of (tk_ID (prepared rv 0 t)) r = []"
  shows "write_ok r (snd (tr_Create rv t r))"
  unfolding tr_Create_def createWithRetry_def
  by (rule write_ok_breaker) (use write_ok_create_loop [OF assms] in \<open>simp add: split_beta\<close>)

lemma write_ok_Update: "rv_cache_up rv \<Longrightarrow> write_ok r (snd (tr_Update rv t r))"
  unfolding tr_Update_def by (intro write_ok_breaker write_ok_doUpdate)

lemma write_ok_UpdateWithVersion: "rv_cache_up rv \<Longrightarrow> write_ok r (snd (tr_UpdateWithVersion rv t v r))"
  unfolding tr_UpdateWithVersion_def by (intro write_ok_breaker write_ok_doUpdateWithVersion)

lemma write_ok_SoftDelete: "rv_cache_up rv \<Longrightarrow> write_ok r (snd (tr_SoftDelete rv i r))"
  unfolding tr_SoftDelete_def by (intro write_ok_breaker write_ok_doSoftDelete)

section \<open>Reads keep the cache honest\<close>

lemma coherent_set:
  assumes "coherent tt r" "rv_time_text rv = tt" "List.find (live i) (tr_rows r) = Some t"
  shows "coherent tt (CacheSet rv (task_key i) t ttl r)"
  using assms by (auto simp: coherent_def CacheSet_def)

lemma select_found: "select_task rv s m i r = Inr t \<Longrightarrow> List.find (live i) (tr_rows r) = Some t"
  by (auto simp: select_task_def split: option.splits)

lemma coherent_Get:
  assumes "coherent (rv_time_text rv) r"
  shows "coherent (rv_time_text rv) (snd (tr_Get rv i r))"
proof (cases "CacheGet rv (task_key i) r")
  case None
  let ?x = "ExecuteWithCircuitBreaker rv ''task_get'' (\<lambda>r. (doGet rv i r, r)) r"
  obtain cb where r': "snd ?x = r\<lparr>tr_cb := cb\<rparr>"
    using breaker_state [of rv "''task_get''" "\<lambda>r. (doGet rv i r, r)" r] by (auto split: if_splits)
  have "List.find (live i) (tr_rows (snd ?x)) = Some t" if "fst ?x = Inr t" for t
    using breaker_result [OF that] r' by (auto simp: doGet_def dest: select_found)
  with assms None r' show ?thesis
    by (cases ?x; cases "fst ?x") (auto simp: tr_Get_def intro!: coherent_set)
qed (simp add: tr_Get_def assms)

lemma Get_closed:
  assumes "cb_state (tr_cb r) = Closed" "rv_race rv ''task_get'' = ResultFirst" "rv_db rv ''get'' = None"
    and "CacheGet rv (task_key i) r = None"
  shows "tr_Get rv i r = (case List.find (live i) (tr_rows r) of
      None \<Rightarrow> (Inl (WrapError ''circuit breaker execution failed'' TypesErrNotFound),
               r\<lparr>tr_cb := cb_recordFailure (rv_now rv) (tr_cb r)\<rparr>)
    | Some t \<Rightarrow> (Inr t, CacheSet rv (task_key i) t (5 * minute)
               (r\<lparr>tr_cb := cb_recordSuccess (rv_now rv) (tr_cb r)\<rparr>)))"
  using assms by (simp add: tr_Get_def breaker_closed doGet_def select_task_def split: option.split)

lemma Get_rows: "tr_rows (snd (tr_Get rv i r)) = tr_rows r"
proof -
  let ?x = "ExecuteWithCircuitBreaker rv ''task_get'' (\<lambda>r. (doGet rv i r, r)) r"
  obtain cb where "snd ?x = r\<lparr>tr_cb := cb\<rparr>"
    using breaker_state [of rv "''task_get''" "\<lambda>r. (doGet rv i r, r)" r] by (auto split: if_splits)
  then show ?thesis
    by (cases ?x) (auto simp: tr_Get_def CacheSet_def split: option.splits sum.splits)
qed

lemma find_unique:
  assumes "length (rows_of i r) \<le> 1" "t \<in> set (tr_rows r)" "live i t"
  shows "List.find (live i) (tr_rows r) = Some t"
proof -
  have "t \<in> set (rows_of i r)" using assms by (simp add: rows_of_def live_def)
  with assms(1) have "rows_of i r = [t]" by (cases "rows_of i r") auto
  with assms(3) show ?thesis by (simp add: find_live live_def)
qed

lemma coherent_GetBatch:
  assumes "coherent (rv_time_text rv) r"
  shows "coherent (rv_time_text rv) (snd (tr_GetBatch rv ids r))"
proof -
  let ?set = "\<lambda>r t. CacheSet rv (task_key (tk_ID t)) t (5 * minute) r"
  have "coherent (rv_time_text rv) (foldl ?set s ts)"
    if "coherent (rv_time_text rv) s" "\<forall>t\<in>set ts. t \<in> set (tr_rows s) \<and> tk_DeletedAt t = None" for s ts
    using that
  proof (induction ts arbitrary: s)
    case (Cons t ts)
    then have "List.find (live (tk_ID t)) (tr_rows s) = Some t"
      by (intro find_unique) (auto simp: coherent_def live_def)
    then have "coherent (rv_time_text rv) (?set s t)" using coherent_set [OF Cons.prems(1) refl] by blast
    moreover have "tr_rows (?set s t) = tr_rows s" by (simp add: CacheSet_def)
    ultimately show ?case using Cons by simp
  qed simp
  with assms show ?thesis
    by (auto simp: tr_GetBatch_def Let_def doGetBatch_def split: sum.splits option.splits)
qed

lemma write_ok_delete:
  assumes "rv_cache_up rv" "tk_ID t = i"
  shows "write_ok r (invalidateTaskCache rv t (delete_rows i r))"
proof -
  let ?s = "delete_rows i r"
  have s: "rows_of j ?s = (if j = i then [] else rows_of j r)" for j
    by (auto simp: delete_rows_def rows_of_def intro!: filter_cong)
  have c: "tr_cache ?s = tr_cache r" by (simp add: delete_rows_def)
  show ?thesis
    by (rule write_then_forget [where s = ?s and i = i])
      (use assms invalidate_lookup(1) [OF assms(1), of t ?s] invalidate_lookup(2) [OF assms(1), of t ?s]
       in \<open>simp_all add: s c\<close>)
qed

lemma find_live_ID: "List.find (live i) xs = Some t \<Longrightarrow> t \<in> set xs \<and> live i t"
  by (induction xs) (auto split: if_splits)

text \<open>What a read returns is the row, or its copy in the cache.\<close>

lemma Get_returns:
  assumes "coherent (rv_time_text rv) r" "fst (tr_Get rv i r) = Inr t"
  shows "\<exists>row. List.find (live i) (tr_rows r) = Some row \<and> (t = row \<or> t = cached_copy (rv_time_text rv) row)"
proof (cases "CacheGet rv (task_key i) r")
  case None
  with assms(2) have "fst (ExecuteWithCircuitBreaker rv ''task_get'' (\<lambda>r. (doGet rv i r, r)) r) = Inr t"
    by (auto simp: tr_Get_def split: prod.splits sum.splits)
  from breaker_result [OF this] show ?thesis by (auto simp: doGet_def dest: select_found)
next
  case (Some c)
  then obtain e where "fmlookup (tr_cache r) (task_key i) = Some (c, e)"
    by (auto simp: CacheGet_def split: if_splits option.splits)
  moreover have "c = t" using assms(2) Some by (simp add: tr_Get_def)
  ultimately show ?thesis using assms(1) unfolding coherent_def by (metis (no_types, lifting) map_option_eq_Some)
qed

lemma cached_copy_keeps [simp]:
  "tk_ID (cached_copy tt t) = tk_ID t" "tk_Status (cached_copy tt t) = tk_Status t"
  "tk_AssignedTo (cached_copy tt t) = tk_AssignedTo t" "tk_RetryCount (cached_copy tt t) = tk_RetryCount t"
  "tk_MaxRetries (cached_copy tt t) = tk_MaxRetries t" "tk_ParentTaskID (cached_copy tt t) = tk_ParentTaskID t"
  "tk_Version (cached_copy tt t) = tk_Version t" "tk_DeletedAt (cached_copy tt t) = tk_DeletedAt t"
  "tk_TenantID (cached_copy tt t) = tk_TenantID t" "tk_Type (cached_copy tt t) = tk_Type t"
  by (simp_all add: cached_copy_def)

lemma Get_live: "coherent (rv_time_text rv) r \<Longrightarrow> fst (tr_Get rv i r) = Inr t \<Longrightarrow> live i t"
  using Get_returns [of rv r i t] by (auto simp: live_def dest!: find_live_ID)

lemma coherent_Delete:
  assumes "rv_cache_up rv" "coherent (rv_time_text rv) r"
  shows "coherent (rv_time_text rv) (snd (tr_Delete rv i r))"
proof -
  obtain res s where g: "tr_Get rv i r = (res, s)" by (cases "tr_Get rv i r")
  have s: "coherent (rv_time_text rv) s" using coherent_Get [OF assms(2), of i] g by simp
  have "tk_ID t = i" if "res = Inr t" for t
    using Get_live [OF assms(2), of i t] g that by (simp add: live_def)
  note ok = coherent_write [OF s write_ok_transaction] write_ok_delete [OF assms(1) this]
  show ?thesis
    unfolding tr_Delete_def g
    by (cases res) (auto simp: s assms(2) intro!: ok split: option.splits)
qed

lemma coherent_UpdateStatus:
  assumes "rv_cache_up rv" "coherent (rv_time_text rv) r"
    and "metadata = fmempty \<or> rv_db rv ''update_metadata'' = None"
  shows "coherent (rv_time_text rv) (snd (tr_UpdateStatus rv i st metadata r))"
proof -
  obtain res s where g: "tr_Get rv i r = (res, s)" by (cases "tr_Get rv i r")
  have s: "coherent (rv_time_text rv) s" using coherent_Get [OF assms(2), of i] g by simp
  show ?thesis
  proof (cases res)
    case (Inr t)
    then have ID: "tk_ID t = i" using Get_live [OF assms(2), of i t] g by (simp add: live_def)
    let ?u = "update_where (live i) (set_status rv st) s"
    let ?m = "update_where (\<lambda>t. tk_ID t = i) (\<lambda>t. t\<lparr>tk_Result := Some (json_map (rv_time_text rv) metadata)\<rparr>) ?u"
    have u: "write_ok s (invalidateTaskCache rv t ?u)"
      by (rule write_ok_update [OF assms(1)]) (simp_all add: live_def ID)
    have rows: "rows_of j ?m = rows_of j s" if "j \<noteq> i" for j
      using that rows_of_update [of "live i" i "set_status rv st"] rows_of_update [of "\<lambda>t. tk_ID t = i" i]
      by (simp add: live_def)
    have len: "length (rows_of i ?m) \<le> max 1 (length (rows_of i s))"
      using rows_of_update(2) [of "live i" i "set_status rv st" s] rows_of_update(2) [of "\<lambda>t. tk_ID t = i" i _ ?u]
      by (simp add: live_def)
    have m: "write_ok s (invalidateTaskCache rv t ?m)"
      by (rule write_then_forget [OF rows _ len invalidate_rows(4) _ invalidate_lookup(2) [OF assms(1)]])
        (use ID invalidate_lookup(1) [OF assms(1), of t ?m] in simp_all)
    show ?thesis
      unfolding tr_UpdateStatus_def g Inr
      using assms(3) s coherent_write [OF s u] coherent_write [OF s m] by (auto simp: Let_def split: option.splits)
  qed (simp add: tr_UpdateStatus_def g s)
qed

section \<open>Reachable states\<close>

text \<open>
  The operations on the table, by any number of callers one after the other, each in its own
  environment; the cache server answers in all of them.  A new task has an id the table does not
  have (\<open>uuid.New\<close>).
\<close>

inductive repo_step :: "(go_time \<Rightarrow> string) \<Rightarrow> task_repo \<Rightarrow> task_repo \<Rightarrow> bool" for tt where
  create: "rv_cache_up rv \<Longrightarrow> rows_of (tk_ID (prepared rv 0 t)) r = [] \<Longrightarrow> repo_step tt r (snd (tr_Create rv t r))"
| get: "rv_cache_up rv \<Longrightarrow> rv_time_text rv = tt \<Longrightarrow> repo_step tt r (snd (tr_Get rv i r))"
| get_batch: "rv_cache_up rv \<Longrightarrow> rv_time_text rv = tt \<Longrightarrow> repo_step tt r (snd (tr_GetBatch rv ids r))"
| update: "rv_cache_up rv \<Longrightarrow> repo_step tt r (snd (tr_Update rv t r))"
| update_version: "rv_cache_up rv \<Longrightarrow> repo_step tt r (snd (tr_UpdateWithVersion rv t v r))"
| delete: "rv_cache_up rv \<Longrightarrow> rv_time_text rv = tt \<Longrightarrow> repo_step tt r (snd (tr_Delete rv i r))"
| soft_delete: "rv_cache_up rv \<Longrightarrow> repo_step tt r (snd (tr_SoftDelete rv i r))"
| assign: "rv_cache_up rv \<Longrightarrow> repo_step tt r (snd (tr_AssignToAgent rv i a r))"
| unassign: "rv_cache_up rv \<Longrightarrow> repo_step tt r (snd (tr_UnassignTask rv i r))"
| status: "rv_cache_up rv \<Longrightarrow> rv_time_text rv = tt \<Longrightarrow> metadata = fmempty \<or> rv_db rv ''update_metadata'' = None \<Longrightarrow>
    repo_step tt r (snd (tr_UpdateStatus rv i st metadata r))"
| bulk: "rv_cache_up rv \<Longrightarrow> repo_step tt r (snd (tr_BulkUpdateStatus rv us r))"
| retry: "rv_cache_up rv \<Longrightarrow> repo_step tt r (snd (tr_IncrementRetryCount rv i r))"
| lock: "rv_cache_up rv \<Longrightarrow> repo_step tt r (snd (tr_LockTaskForExecution rv i a r))"

lemmas writes = write_ok_Create write_ok_Update write_ok_UpdateWithVersion write_ok_SoftDelete
  write_ok_AssignToAgent write_ok_UnassignTask write_ok_Bulk write_ok_IncrementRetryCount write_ok_LockTask

lemma coherent_step: "repo_step tt r r' \<Longrightarrow> coherent tt r \<Longrightarrow> coherent tt r'"
  by (induction rule: repo_step.induct)
    (auto intro: coherent_write writes coherent_Get coherent_GetBatch coherent_Delete coherent_UpdateStatus)

lemma coherent_reachable: "(repo_step tt)\<^sup>*\<^sup>* r r' \<Longrightarrow> coherent tt r \<Longrightarrow> coherent tt r'"
  by (induction rule: rtranclp_induct) (auto intro: coherent_step)

lemma coherent_new [simp]: "coherent tt (NewTaskRepository now)"
  by (simp add: coherent_def NewTaskRepository_def rows_of_def)

section \<open>Sample tasks\<close>

text \<open>A task and an environment in which nothing fails, for the examples.\<close>

definition sample_task :: "uuid \<Rightarrow> status \<Rightarrow> mtask" where
  "sample_task i st = \<lparr>tk_TenantID = 1, tk_Type = ''build'', tk_Priority = ''high'', tk_Parameters = None,
     tk_TimeoutSeconds = 60, tk_ID = i, tk_Status = st, tk_CreatedBy = ''a'', tk_AssignedTo = None,
     tk_ParentTaskID = None, tk_Title = ''x'', tk_Description = '''', tk_Result = None, tk_Error = '''',
     tk_MaxRetries = 3, tk_RetryCount = 0, tk_CreatedAt = 0, tk_AssignedAt = None, tk_StartedAt = None,
     tk_CompletedAt = None, tk_UpdatedAt = 0, tk_DeletedAt = None, tk_Version = 1\<rparr>"

definition calm :: "go_time \<Rightarrow> repo_env" where
  "calm now = \<lparr>rv_now = now, rv_uuid = (\<lambda>n. 9), rv_db = (\<lambda>s. None), rv_insert = (\<lambda>n. None),
     rv_ctx_done = (\<lambda>n. False), rv_race = (\<lambda>s. ResultFirst), rv_cache_up = True,
     rv_default = sample_task 0 ''pending'', rv_time_text = (\<lambda>x. ''''), rv_locked = (\<lambda>i. False)\<rparr>"

lemma calm_simps [simp]:
  "rv_now (calm now) = now" "rv_uuid (calm now) = (\<lambda>n. 9)" "rv_db (calm now) = (\<lambda>s. None)"
  "rv_insert (calm now) = (\<lambda>n. None)" "rv_ctx_done (calm now) = (\<lambda>n. False)"
  "rv_race (calm now) = (\<lambda>s. ResultFirst)" "rv_cache_up (calm now)" "rv_default (calm now) = sample_task 0 ''pending''"
  "rv_time_text (calm now) = (\<lambda>x. '''')" "rv_locked (calm now) = (\<lambda>i. False)"
  "tk_ID (sample_task i st) = i" "tk_Status (sample_task i st) = st" "tk_DeletedAt (sample_task i st) = None"
  by (simp_all add: calm_def sample_task_def)

lemma new_closed [simp]: "cb_state (tr_cb (NewTaskRepository now)) = Closed"
  by (simp add: NewTaskRepository_def NewCircuitBreaker_def)

lemma new_simps [simp]: "tr_rows (NewTaskRepository now) = []" "tr_cache (NewTaskRepository now) = fmempty"
  by (simp_all add: NewTaskRepository_def)

lemma success_closed [simp]: "cb_state cb = Closed \<Longrightarrow> cb_state (cb_recordSuccess now cb) = Closed"
  by (simp add: cb_recordSuccess_def Let_def)

lemma CacheDelete_empty: "tr_cache r = fmempty \<Longrightarrow> CacheDelete rv key r = r"
  by (cases r) (simp add: CacheDelete_def)

lemma invalidate_empty: "tr_cache r = fmempty \<Longrightarrow> invalidateTaskCache rv t r = r"
proof -
  have "tr_cache s = fmempty \<Longrightarrow> foldl (\<lambda>r key. CacheDelete rv key r) s keys = s" for s keys
    by (induction keys) (simp_all add: CacheDelete_empty)
  then show "tr_cache r = fmempty \<Longrightarrow> invalidateTaskCache rv t r = r"
    unfolding invalidateTaskCache_def Let_def by blast
qed

lemma created_sample:
  "snd (tr_Create (calm now) (sample_task i st) (NewTaskRepository start)) =
    (NewTaskRepository start)\<lparr>tr_rows := [inserted_row (calm now) (prepared (calm now) 0 (sample_task i st))],
       tr_cb := cb_recordSuccess now (tr_cb (NewTaskRepository start))\<rparr>"
  by (simp add: tr_Create_def createWithRetry_def maxRetries_def numeral_3_eq_3 breaker_closed doCreate_def Let_def
      invalidate_empty)

section \<open>Properties\<close>




definition bumped :: "uuid \<Rightarrow> int \<Rightarrow> repo_env \<Rightarrow> mtask \<Rightarrow> mtask \<Rightarrow> mtask" where
  "bumped i v rv t row = (if live i row \<and> tk_Version row = v
     then set_columns (rv_time_text rv) (t\<lparr>tk_Version := v + 1, tk_UpdatedAt := rv_now rv\<rparr>) row else row)"

lemma bumped_version: "\<not> (live i (bumped i v rv t row) \<and> tk_Version (bumped i v rv t row) = v)"
  by (simp add: bumped_def)

lemma doUpdateWithVersion_failed: "isl (fst (doUpdateWithVersion rv t v r)) \<Longrightarrow> snd (doUpdateWithVersion rv t v r) = r"
  by (auto simp: doUpdateWithVersion_def Let_def split: option.splits)

lemma doUpdateWithVersion_done:
  "\<not> isl (fst (doUpdateWithVersion rv t v r)) \<Longrightarrow>
     tr_rows (snd (doUpdateWithVersion rv t v r)) = map (bumped (tk_ID t) v rv t) (tr_rows r)
     \<and> (\<exists>row \<in> set (tr_rows r). live (tk_ID t) row \<and> tk_Version row = v)"
  by (auto simp: doUpdateWithVersion_def Let_def update_where_def affected_def filter_empty_conv bumped_def
      split: option.splits if_splits)

text \<open>C10 \<open>UpdateWithVersion\<close> is an optimistic lock: it succeeds only when the row still has the expected
  version, and a second update that expects the same version then fails, whatever else
  happens to it, and leaves the table as it is.\<close>

theorem UpdateWithVersion_locks:
  assumes "fst (tr_UpdateWithVersion rv t v r) = Inr t'" "tk_ID s = tk_ID t"
  shows "(\<exists>row \<in> set (tr_rows r). live (tk_ID t) row \<and> tk_Version row = v) \<and>
    (let r1 = snd (tr_UpdateWithVersion rv t v r)
     in isl (fst (tr_UpdateWithVersion rv' s v r1)) \<and> tr_rows (snd (tr_UpdateWithVersion rv' s v r1)) = tr_rows r1)"
proof -
  let ?r1 = "snd (tr_UpdateWithVersion rv t v r)"
  note b = breaker_result [OF assms(1) [unfolded tr_UpdateWithVersion_def]]
  obtain cb where r1: "?r1 = (snd (doUpdateWithVersion rv t v r))\<lparr>tr_cb := cb\<rparr>"
    using breaker_state [of rv "''task_update_with_version''" "doUpdateWithVersion rv t v" r] b
    by (auto simp: tr_UpdateWithVersion_def)
  have d: "tr_rows ?r1 = map (bumped (tk_ID t) v rv t) (tr_rows r)"
      "\<exists>row \<in> set (tr_rows r). live (tk_ID t) row \<and> tk_Version row = v"
    using doUpdateWithVersion_done [of rv t v r] b r1 by auto
  then have "\<not> (\<exists>row \<in> set (tr_rows ?r1). live (tk_ID s) row \<and> tk_Version row = v)"
    using bumped_version assms(2) by auto
  then have l: "isl (fst (doUpdateWithVersion rv' s v ?r1))" using doUpdateWithVersion_done by blast
  then have "isl (fst (tr_UpdateWithVersion rv' s v ?r1))"
    using breaker_result [of rv' "''task_update_with_version''" "doUpdateWithVersion rv' s v" ?r1]
    unfolding tr_UpdateWithVersion_def [of rv' s v ?r1] by (metis isl_def sum.exhaust_sel sum.disc(2))
  moreover have "tr_rows (snd (tr_UpdateWithVersion rv' s v ?r1)) = tr_rows ?r1"
    using breaker_state [of rv' "''task_update_with_version''" "doUpdateWithVersion rv' s v" ?r1]
      doUpdateWithVersion_failed [OF l]
    unfolding tr_UpdateWithVersion_def [of rv' s v ?r1] by (auto split: if_splits)
  ultimately show ?thesis using d(2) by (simp only: Let_def)
qed

text \<open>A repository with one task, whose breaker is closed and whose cache is empty.\<close>

definition with_task :: "mtask \<Rightarrow> task_repo" where
  "with_task t = (NewTaskRepository 0)\<lparr>tr_rows := [t]\<rparr>"

lemma with_task_simps [simp]:
  "tr_rows (with_task t) = [t]" "tr_cache (with_task t) = fmempty" "cb_state (tr_cb (with_task t)) = Closed"
  by (simp_all add: with_task_def)

theorem UpdateWithVersion_locks_witness:
  "let t = sample_task 7 ''pending''; r1 = snd (tr_UpdateWithVersion (calm 5) t 1 (with_task t))
   in isl (fst (tr_UpdateWithVersion (calm 6) (t\<lparr>tk_Status := ''assigned''\<rparr>) 1 r1)) \<and>
      tr_rows (snd (tr_UpdateWithVersion (calm 6) (t\<lparr>tk_Status := ''assigned''\<rparr>) 1 r1)) = tr_rows r1"
proof -
  let ?t = "sample_task 7 ''pending''"
  have "fst (tr_UpdateWithVersion (calm 5) ?t 1 (with_task ?t)) = Inr (?t\<lparr>tk_Version := 2, tk_UpdatedAt := 5\<rparr>)"
    by (simp add: tr_UpdateWithVersion_def breaker_closed doUpdateWithVersion_def affected_def live_def Let_def)
      (simp add: sample_task_def)
  from UpdateWithVersion_locks [OF this, of "?t\<lparr>tk_Status := ''assigned''\<rparr>" "calm 6"] show ?thesis
    by (simp add: Let_def)
qed

definition written :: "repo_env \<Rightarrow> mtask \<Rightarrow> mtask \<Rightarrow> mtask" where
  "written rv t row = (if live (tk_ID t) row
     then set_columns (rv_time_text rv) (t\<lparr>tk_Version := tk_Version t + 1, tk_UpdatedAt := rv_now rv\<rparr>) row else row)"

lemma doUpdate_done:
  "\<not> isl (fst (doUpdate rv t r)) \<Longrightarrow> tr_rows (snd (doUpdate rv t r)) = map (written rv t) (tr_rows r)"
  by (auto simp: doUpdate_def Let_def update_where_def written_def split: option.splits)

lemma Update_done:
  assumes "fst (tr_Update rv t r) = Inr t'"
  shows "tr_rows (snd (tr_Update rv t r)) = map (written rv t) (tr_rows r)"
  using breaker_result [OF assms [unfolded tr_Update_def]] doUpdate_done [of rv t r]
    breaker_state [of rv "''task_update''" "doUpdate rv t" r] by (auto simp: tr_Update_def)

lemma Update_closed:
  assumes "cb_state (tr_cb r) = Closed" "rv_race rv ''task_update'' = ResultFirst"
    and "rv_db rv ''prepare_update'' = None" "rv_db rv ''update'' = None" "\<exists>row \<in> set (tr_rows r). live (tk_ID t) row"
  shows "fst (tr_Update rv t r) = Inr (t\<lparr>tk_Version := tk_Version t + 1, tk_UpdatedAt := rv_now rv\<rparr>)
    \<and> cb_state (tr_cb (snd (tr_Update rv t r))) = Closed \<and> tr_rows (snd (tr_Update rv t r)) = map (written rv t) (tr_rows r)"
proof -
  have "affected (live (tk_ID t)) r \<noteq> 0" using assms(5) by (auto simp: affected_def filter_empty_conv)
  then have d: "fst (doUpdate rv t r) = Inr (t\<lparr>tk_Version := tk_Version t + 1, tk_UpdatedAt := rv_now rv\<rparr>)"
    using assms by (simp add: doUpdate_def Let_def)
  then show ?thesis
    using doUpdate_done [of rv t r] assms(1) by (simp add: tr_Update_def breaker_closed [OF assms(1,2)])
qed

lemma written_columns:
  "live (tk_ID t) row \<Longrightarrow> live (tk_ID t) (written rv t row) \<and> tk_Version (written rv t row) = tk_Version t + 1
     \<and> tk_Status (written rv t row) = tk_Status t \<and> tk_AssignedTo (written rv t row) = tk_AssignedTo t"
  by (simp add: written_def set_columns_def stored_task_def Let_def live_def)

text \<open>\<open>Update\<close>, which the service uses for every step of a task's life, does not check the version it
  read: of two updates made from the same version both succeed, the second wipes out the
  status and assignment the first wrote, and the version is only one higher.\<close>

theorem Update_loses_concurrent_change:
  assumes "fst (tr_Update rv t r) = Inr t'" "fst (tr_Update rv' s (snd (tr_Update rv t r))) = Inr s'"
    and "tk_ID s = tk_ID t" "tk_Version s = tk_Version t" "row \<in> set (tr_rows r)" "live (tk_ID t) row"
  shows "\<exists>row' \<in> set (tr_rows (snd (tr_Update rv' s (snd (tr_Update rv t r))))). live (tk_ID t) row'
     \<and> tk_Version row' = tk_Version t + 1 \<and> tk_Status row' = tk_Status s \<and> tk_AssignedTo row' = tk_AssignedTo s"
proof -
  let ?row = "written rv' s (written rv t row)"
  have "?row \<in> set (tr_rows (snd (tr_Update rv' s (snd (tr_Update rv t r)))))"
    using assms(5) by (simp add: Update_done [OF assms(2)] Update_done [OF assms(1)])
  with written_columns [OF assms(6), of rv] written_columns [of s "written rv t row" rv'] assms(3,4)
  show ?thesis by metis
qed

theorem Update_loses_concurrent_change_witness:
  "let t = sample_task 7 ''pending''; a = t\<lparr>tk_Status := ''assigned'', tk_AssignedTo := Some ''x''\<rparr>; c = t\<lparr>tk_Status := ''cancelled''\<rparr>
   in \<exists>row' \<in> set (tr_rows (snd (tr_Update (calm 6) a (snd (tr_Update (calm 5) c (with_task t)))))).
        live 7 row' \<and> tk_Version row' = 2 \<and> tk_Status row' = ''assigned'' \<and> tk_AssignedTo row' = Some ''x''"
proof -
  let ?t = "sample_task 7 ''pending''"
  let ?a = "?t\<lparr>tk_Status := ''assigned'', tk_AssignedTo := Some ''x''\<rparr>" and ?c = "?t\<lparr>tk_Status := ''cancelled''\<rparr>"
  have v: "tk_Version ?t = 1" by (simp add: sample_task_def)
  note 1 = Update_closed [of "with_task ?t" "calm 5" ?c]
  then have rows: "tr_rows (snd (tr_Update (calm 5) ?c (with_task ?t))) = [written (calm 5) ?c ?t]" by (simp add: live_def)
  have "live 7 (written (calm 5) ?c ?t)" using written_columns [of ?c ?t] by (simp add: live_def)
  then have "fst (tr_Update (calm 6) ?a (snd (tr_Update (calm 5) ?c (with_task ?t)))) = Inr (?a\<lparr>tk_Version := 2, tk_UpdatedAt := 6\<rparr>)"
    using Update_closed [of "snd (tr_Update (calm 5) ?c (with_task ?t))" "calm 6" ?a] 1 by (simp add: rows v live_def)
  from Update_loses_concurrent_change [OF _ this, of _ ?t] 1 show ?thesis by (simp add: Let_def live_def v)
qed

lemma create_attempts_pq:
  assumes "rv_db rv ''prepare_create'' = None" "rv_insert rv 0 = Some (PqError code m)"
    and "\<not> network_error (''failed to create task: pq: '' @ m)"
  shows "createWithRetry rv t r = (Some (WrapError ''failed to create task'' (PqError code m)), prepared rv 0 t, r)"
  using assms by (simp add: createWithRetry_def maxRetries_def numeral_3_eq_3 doCreate_def Let_def isRetryableError_def)

text \<open>\<open>createWithRetry\<close> is written to repeat an insert that failed with a transient PostgreSQL error,
  and \<open>isRetryableError\<close> lists the codes; but \<open>doCreate\<close> wraps the error first and the type
  assertion no longer matches, so such an error is returned after the first attempt.\<close>

theorem create_never_retries_pq:
  assumes "code \<in> {''40001'', ''40P01'', ''53000'', ''53200'', ''53300'', ''58000'', ''58030''}"
    and "rv_db rv ''prepare_create'' = None" "rv_insert rv 0 = Some (PqError code m)"
    and "\<not> network_error (''failed to create task: pq: '' @ m)"
  shows "isRetryableError (Some (PqError code m)) \<and>
    createWithRetry rv t r = (Some (WrapError ''failed to create task'' (PqError code m)), prepared rv 0 t, r)"
  using create_attempts_pq [OF assms(2,3,4)] assms(1) by (simp add: isRetryableError_def)

theorem create_never_retries_pq_witness:
  "fst (createWithRetry ((calm 0)\<lparr>rv_insert := (\<lambda>n. if n = 0 then Some (PqError ''40P01'' ''deadlock detected'') else None)\<rparr>)
     (sample_task 7 ''pending'') (NewTaskRepository 0))
   = Some (WrapError ''failed to create task'' (PqError ''40P01'' ''deadlock detected''))"
proof -
  have "\<not> network_error (''failed to create task: pq: '' @ ''deadlock detected'')" by code_simp
  from create_never_retries_pq [OF _ _ _ this, of "''40P01''"
      "(calm 0)\<lparr>rv_insert := (\<lambda>n. if n = 0 then Some (PqError ''40P01'' ''deadlock detected'') else None)\<rparr>"]
  show ?thesis by simp
qed

section \<open>Missing tasks and the breaker\<close>

text \<open>Reads of an id the table does not have, one after the other.\<close>

fun misses :: "repo_env list \<Rightarrow> uuid \<Rightarrow> task_repo \<Rightarrow> task_repo" where
  "misses [] i r = r"
| "misses (rv # rvs) i r = misses rvs i (snd (tr_Get rv i r))"

definition reads_work :: "repo_env \<Rightarrow> bool" where
  "reads_work rv \<longleftrightarrow> rv_race rv ''task_get'' = ResultFirst \<and> rv_db rv ''get'' = None"

lemma miss_Get:
  assumes "reads_work rv" "cb_state (tr_cb r) = Closed" "tr_cache r = fmempty" "List.find (live i) (tr_rows r) = None"
  shows "tr_Get rv i r = (Inl (WrapError ''circuit breaker execution failed'' TypesErrNotFound),
      r\<lparr>tr_cb := cb_recordFailure (rv_now rv) (tr_cb r)\<rparr>)"
  using assms by (simp add: Get_closed reads_work_def CacheGet_def)

lemma recordFailure_counts [simp]:
  "ct_ConsecutiveFailures (cb_counts (cb_recordFailure now cb)) = ct_ConsecutiveFailures (cb_counts cb) + 1"
  "ct_Requests (cb_counts (cb_recordFailure now cb)) = ct_Requests (cb_counts cb) + 1"
  "cb_config (cb_recordFailure now cb) = cb_config cb"
  by (simp_all add: cb_recordFailure_def cb_transitionTo_def ct_RecordFailure_def Let_def split: circuit_state.split)

lemma recordFailure_lastFailure [simp]: "cb_lastFailureTime (cb_recordFailure now cb) = now"
  by (simp add: cb_recordFailure_def cb_transitionTo_def Let_def split: circuit_state.split)

lemma recordFailure_state:
  assumes "cb_state cb = Closed" "ct_Requests (cb_counts cb) + 1 < cc_MinimumRequestCount (cb_config cb)"
  shows "cb_state (cb_recordFailure now cb) =
    (if cc_FailureThreshold (cb_config cb) \<le> ct_ConsecutiveFailures (cb_counts cb) + 1 then Open else Closed)"
  using assms by (simp add: cb_recordFailure_def cb_transitionTo_def ct_RecordFailure_def Let_def)

definition fresh_breaker :: "int \<Rightarrow> circuit_breaker \<Rightarrow> bool" where
  "fresh_breaker n cb \<longleftrightarrow> cb_state cb = Closed \<and> ct_ConsecutiveFailures (cb_counts cb) = n
     \<and> ct_Requests (cb_counts cb) = n \<and> cb_config cb = cb_config (tr_cb (NewTaskRepository 0))"

lemma repo_config [simp]:
  "cc_FailureThreshold (cb_config (tr_cb (NewTaskRepository now))) = 5"
  "cc_MinimumRequestCount (cb_config (tr_cb (NewTaskRepository now))) = 10"
  "cc_ResetTimeout (cb_config (tr_cb (NewTaskRepository now))) = 30 * second"
  by (simp_all add: NewTaskRepository_def NewCircuitBreaker_def cb_defaults_def time_units)

lemma misses_open:
  assumes "\<forall>rv \<in> set rvs. reads_work rv" "fresh_breaker n (tr_cb r)" "rvs \<noteq> []" "int (length rvs) + n = 5"
    and "tr_cache r = fmempty" "List.find (live i) (tr_rows r) = None" "0 \<le> n"
  shows "cb_state (tr_cb (misses rvs i r)) = Open \<and> cb_lastFailureTime (tr_cb (misses rvs i r)) = rv_now (last rvs)
    \<and> cb_config (tr_cb (misses rvs i r)) = cb_config (tr_cb (NewTaskRepository 0))"
  using assms
proof (induction rvs arbitrary: n r)
  case (Cons rv rvs)
  let ?r = "snd (tr_Get rv i r)"
  have f: "cb_state (tr_cb r) = Closed" "ct_ConsecutiveFailures (cb_counts (tr_cb r)) = n"
    "ct_Requests (cb_counts (tr_cb r)) = n" "cb_config (tr_cb r) = cb_config (tr_cb (NewTaskRepository 0))"
    using Cons.prems(2) by (simp_all add: fresh_breaker_def)
  have r': "?r = r\<lparr>tr_cb := cb_recordFailure (rv_now rv) (tr_cb r)\<rparr>"
    using miss_Get [of rv r i] Cons.prems f by simp
  have n: "n \<le> 4" using Cons.prems(3,4) by simp
  have st: "cb_state (cb_recordFailure (rv_now rv) (tr_cb r)) = (if 5 \<le> n + 1 then Open else Closed)"
    using recordFailure_state [of "tr_cb r"] f n by simp
  show ?case
  proof (cases "rvs = []")
    case True
    then show ?thesis using Cons.prems(4) st f(4) by (simp add: r')
  next
    case False
    with Cons.prems(4) have "n + 1 < 5" by (cases rvs) auto
    with st f have "fresh_breaker (n + 1) (tr_cb ?r)" by (simp add: r' fresh_breaker_def)
    with Cons.IH [of "n + 1" ?r] Cons.prems False show ?thesis by (simp add: r')
  qed
qed simp

text \<open>A task that does not exist counts as a failure of the database: after five reads of a missing id
  on a new repository the breaker is open, and for the next thirty seconds every
  task is refused, although no statement has failed.\<close>

theorem missing_tasks_open_breaker:
  assumes "length rvs = 5" "\<forall>rv \<in> set rvs. reads_work rv" "i \<notin> tk_ID ` set rows"
    and "rv_now rv \<le> rv_now (last rvs) + 30 * second"
  shows "fst (tr_Create rv t (misses rvs i ((NewTaskRepository 0)\<lparr>tr_rows := rows\<rparr>)))
    = Inl (BreakerError (Wrap ErrCircuitBreakerOpen ''circuit breaker execution failed''))"
proof -
  let ?r = "misses rvs i ((NewTaskRepository 0)\<lparr>tr_rows := rows\<rparr>)"
  have none: "List.find (live i) rows = None" using assms(3) by (auto simp: find_None_iff live_def)
  have ne: "rvs \<noteq> []" using assms(1) by auto
  have "fresh_breaker 0 (tr_cb (NewTaskRepository 0))"
    by (simp add: fresh_breaker_def) (simp add: NewTaskRepository_def NewCircuitBreaker_def NewCounts_def)
  then have o: "cb_state (tr_cb ?r) = Open" "cb_lastFailureTime (tr_cb ?r) = rv_now (last rvs)"
    "cb_config (tr_cb ?r) = cb_config (tr_cb (NewTaskRepository 0))"
    using misses_open [OF assms(2), of 0 "(NewTaskRepository 0)\<lparr>tr_rows := rows\<rparr>" i] assms(1) none ne by auto
  have "cb_check (rv_now rv) (tr_cb ?r) = Rejected ErrCircuitBreakerOpen"
    using o time_sub_gt [of "30 * second" "rv_now rv" "rv_now (last rvs)"] assms(4) by (simp add: cb_check_def time_units)
  then show ?thesis
    by (simp add: tr_Create_def ExecuteWithCircuitBreaker_def cb_Execute_def cb_canExecute_def Let_def split_beta)
qed

theorem missing_tasks_open_breaker_witness:
  "fst (tr_Create (calm 9) (sample_task 7 ''pending'')
      (misses [calm 0, calm 1, calm 2, calm 3, calm 4] 8 ((NewTaskRepository 0)\<lparr>tr_rows := [sample_task 3 ''pending'']\<rparr>)))
    = Inl (BreakerError (Wrap ErrCircuitBreakerOpen ''circuit breaker execution failed''))"
  using missing_tasks_open_breaker [of "[calm 0, calm 1, calm 2, calm 3, calm 4]" 8 "[sample_task 3 ''pending'']" "calm 9"]
  by (simp add: reads_work_def time_units)

text \<open>\<open>ArchiveTasks\<close> moves finished tasks out of the table but leaves their copies in the cache: an
  archived task that was read before is still returned by \<open>Get\<close> until its entry expires.\<close>

theorem archived_task_still_served:
  assumes "CacheGet rv (task_key i) r = Some t" "\<forall>row \<in> set (tr_rows r). tk_ID row = i \<longrightarrow> archivable before row"
    and "\<forall>s. rv_db rv' s = None"
  shows "let r' = snd (tr_ArchiveTasks rv' before r)
    in fst (tr_Get rv i r') = Inr t \<and> (\<forall>row \<in> set (tr_rows r'). tk_ID row \<noteq> i)"
proof -
  let ?r = "snd (tr_ArchiveTasks rv' before r)"
  have "tr_cache ?r = tr_cache r"
    using assms(3) by (auto simp: tr_ArchiveTasks_def repo_WithTransaction_def Let_def)
  moreover have "tr_rows ?r = filter (\<lambda>t. \<not> archivable before t) (tr_rows r)"
    using assms(3) by (auto simp: tr_ArchiveTasks_def repo_WithTransaction_def Let_def filter_empty_conv)
  ultimately show ?thesis using assms(1,2) by (auto simp: tr_Get_def CacheGet_def Let_def)
qed

theorem archived_task_still_served_witness:
  "let t = (sample_task 7 ''completed'')\<lparr>tk_CompletedAt := Some 1\<rparr>;
       r = (NewTaskRepository 0)\<lparr>tr_rows := [t], tr_cache := fmupd (task_key 7) (t, 100) fmempty\<rparr>
   in fst (tr_Get (calm 50) 7 (snd (tr_ArchiveTasks (calm 40) 10 r))) = Inr t"
  using archived_task_still_served [of "calm 50" 7
      "(NewTaskRepository 0)\<lparr>tr_rows := [(sample_task 7 ''completed'')\<lparr>tk_CompletedAt := Some 1\<rparr>],
         tr_cache := fmupd (task_key 7) ((sample_task 7 ''completed'')\<lparr>tk_CompletedAt := Some 1\<rparr>, 100) fmempty\<rparr>"
      "(sample_task 7 ''completed'')\<lparr>tk_CompletedAt := Some 1\<rparr>" 10 "calm 40"]
  by (simp add: CacheGet_def archivable_def Let_def)

end
