(* ===== verification/Task_Guarantees.thy ===== *)
theory Task_Guarantees
  imports Task_Service Task_Store Assignment_Guarantees
begin

text \<open>
  What the task service guarantees: how the status of a task can move, who may move it, how often
  it is retried, where it is assigned, and what its background workers do.  The status table is
  an interpretation of \<open>status_machine\<close>.
\<close>

section \<open>The status tables\<close>

abbreviation task_known :: "status set" where
  "task_known \<equiv> {''pending'', ''assigned'', ''accepted'', ''rejected'', ''in_progress'', ''completed'', ''failed'', ''cancelled''}"

abbreviation task_terminal :: "status \<Rightarrow> bool" where
  "task_terminal s \<equiv> s \<in> {''completed'', ''cancelled''}"

interpretation task_status: status_machine isValidStatusTransition task_known task_terminal
proof
  show "s \<in> task_known \<and> t \<in> task_known" if "isValidStatusTransition s t" for s t
    using table_cases [OF that [unfolded isValidStatusTransition_def taskTransitions_def]] by auto
  show "task_terminal s \<longleftrightarrow> \<not> (\<exists>t. isValidStatusTransition s t)" if "s \<in> task_known" for s
    using that unfolding isValidStatusTransition_def table_live
    by (elim insertE emptyE) (simp_all add: taskTransitions_def)
qed auto

abbreviation repo_known :: "status set" where "repo_known \<equiv> insert ''timeout'' task_known"

abbreviation repo_terminal :: "status \<Rightarrow> bool" where
  "repo_terminal s \<equiv> s \<in> {''completed'', ''failed'', ''cancelled'', ''timeout''}"

interpretation repo_status: status_machine canTransition repo_known repo_terminal
proof
  show "s \<in> repo_known \<and> t \<in> repo_known" if "canTransition s t" for s t
    using table_cases [OF that [unfolded canTransition_def repoTransitions_def]] by auto
  show "repo_terminal s \<longleftrightarrow> \<not> (\<exists>t. canTransition s t)" if "s \<in> repo_known" for s
    using that unfolding canTransition_def table_live
    by (elim insertE emptyE) (simp_all add: repoTransitions_def)
qed auto

section \<open>The status of a task\<close>

definition status_of :: "uuid \<Rightarrow> task_repo \<Rightarrow> status option" where
  "status_of i r = map_option tk_Status (List.find (live i) (tr_rows r))"

text \<open>What the service's own operations do to a status.\<close>

definition lifecycle :: "status \<Rightarrow> status \<Rightarrow> bool" where
  "lifecycle a b \<longleftrightarrow> isValidStatusTransition a b \<or> (a = ''cancelled'' \<and> b = ''pending'')
     \<or> (a \<notin> {''completed'', ''cancelled''} \<and> b \<in> {''assigned'', ''cancelled''})"

definition moves :: "task_repo \<Rightarrow> task_repo \<Rightarrow> bool" where
  "moves r r' \<longleftrightarrow> (\<forall>i a b. status_of i r = Some a \<longrightarrow> status_of i r' = Some b \<longrightarrow> lifecycle\<^sup>*\<^sup>* a b)
     \<and> (\<forall>i. status_of i r = None \<longrightarrow> status_of i r' = None)"

lemma lifecycle_completed: "lifecycle\<^sup>*\<^sup>* ''completed'' b \<Longrightarrow> b = ''completed''"
proof (induction rule: rtranclp_induct)
  case (step y z)
  then show ?case using task_status.live [of "''completed''"] by (auto simp: lifecycle_def)
qed simp

lemma moves_same: "(\<And>i. status_of i r' = status_of i r) \<Longrightarrow> moves r r'"
  by (auto simp: moves_def)

lemma moves_trans: "moves r s \<Longrightarrow> moves s u \<Longrightarrow> moves r u"
  unfolding moves_def by (metis option.exhaust rtranclp_trans)

lemma status_cb [simp]: "status_of i (r\<lparr>tr_cb := cb\<rparr>) = status_of i r" "status_of i (r\<lparr>tr_cache := c\<rparr>) = status_of i r"
  "status_of i (r\<lparr>tr_delegations := d\<rparr>) = status_of i r"
  by (simp_all add: status_of_def)

lemma status_Get [simp]: "status_of j (snd (tr_Get rv i r)) = status_of j r"
  by (simp add: status_of_def Get_rows)

lemma find_map_live:
  assumes "\<And>row. live j (f row) \<longleftrightarrow> live j row"
  shows "List.find (live j) (map f rows) = map_option f (List.find (live j) rows)"
  by (induction rows) (simp_all add: assms)

text \<open>Statuses after a change \<open>f\<close> of some of the rows with id \<open>i\<close>.\<close>

lemma status_map:
  assumes "\<And>row. tk_ID (f row) = tk_ID row \<and> tk_DeletedAt (f row) = tk_DeletedAt row"
    and "\<And>row. f row = row \<or> tk_ID row = i \<and> tk_Status (f row) = st" "tr_rows s = map f (tr_rows r)"
  shows "status_of j s = status_of j r \<or> (j = i \<and> status_of j r \<noteq> None \<and> status_of j s = Some st)"
proof (cases "List.find (live j) (tr_rows r)")
  case (Some row)
  then have "tk_ID row = j" using find_live_ID by (fastforce simp: live_def)
  with assms(2) [of row] Some assms(1,3) show ?thesis by (auto simp: status_of_def find_map_live live_def)
qed (use assms(1,3) in \<open>simp add: status_of_def find_map_live live_def\<close>)

text \<open>An update leaves every status as it is, except that of its own task, which it may set.\<close>

lemma status_Update:
  "status_of j (snd (tr_Update rv t r)) = status_of j r
   \<or> (j = tk_ID t \<and> status_of j r \<noteq> None \<and> status_of j (snd (tr_Update rv t r)) = Some (tk_Status t))"
proof -
  obtain cb where "snd (tr_Update rv t r) = r\<lparr>tr_cb := cb\<rparr> \<or> snd (tr_Update rv t r) = (snd (doUpdate rv t r))\<lparr>tr_cb := cb\<rparr>"
    using breaker_state [of rv "''task_update''" "doUpdate rv t" r] unfolding tr_Update_def by (auto split: if_splits)
  moreover have "snd (doUpdate rv t r) = r \<or> tr_rows (snd (doUpdate rv t r)) = map (written rv t) (tr_rows r)"
    by (auto simp: doUpdate_def Let_def update_where_def written_def split: option.splits)
  moreover have "status_of j s = status_of j r \<or> (j = tk_ID t \<and> status_of j r \<noteq> None \<and> status_of j s = Some (tk_Status t))"
    if "tr_rows s = map (written rv t) (tr_rows r)" for s
    by (rule status_map [OF _ _ that]) (auto simp: written_def live_def set_columns_def stored_task_def Let_def)
  from this [of "snd (doUpdate rv t r)"] calculation show ?thesis by auto
qed

lemma status_UpdateWithVersion:
  "status_of j (snd (tr_UpdateWithVersion rv t v r)) = status_of j r
   \<or> (j = tk_ID t \<and> status_of j r \<noteq> None \<and> status_of j (snd (tr_UpdateWithVersion rv t v r)) = Some (tk_Status t))"
proof -
  obtain cb where "snd (tr_UpdateWithVersion rv t v r) = r\<lparr>tr_cb := cb\<rparr>
      \<or> snd (tr_UpdateWithVersion rv t v r) = (snd (doUpdateWithVersion rv t v r))\<lparr>tr_cb := cb\<rparr>"
    using breaker_state [of rv "''task_update_with_version''" "doUpdateWithVersion rv t v" r]
    unfolding tr_UpdateWithVersion_def by (auto split: if_splits)
  moreover have "snd (doUpdateWithVersion rv t v r) = r
      \<or> tr_rows (snd (doUpdateWithVersion rv t v r)) = map (bumped (tk_ID t) v rv t) (tr_rows r)"
    using doUpdateWithVersion_failed doUpdateWithVersion_done by blast
  moreover have "status_of j s = status_of j r \<or> (j = tk_ID t \<and> status_of j r \<noteq> None \<and> status_of j s = Some (tk_Status t))"
    if "tr_rows s = map (bumped (tk_ID t) v rv t) (tr_rows r)" for s
    by (rule status_map [OF _ _ that]) (auto simp: bumped_def live_def set_columns_def stored_task_def Let_def)
  from this [of "snd (doUpdateWithVersion rv t v r)"] calculation show ?thesis by auto
qed

section \<open>Handlers move statuses along the life cycle\<close>

definition svc_ok :: "task_env \<Rightarrow> task_service \<Rightarrow> bool" where
  "svc_ok te s \<longleftrightarrow> rv_cache_up (te_rv te) \<and> coherent (rv_time_text (te_rv te)) (ts_repo s)"

text \<open>A handler in environment \<open>te\<close> that keeps the repository coherent and moves statuses as it may.\<close>

definition fine :: "task_env \<Rightarrow> task_service \<Rightarrow> task_service \<Rightarrow> bool" where
  "fine te s s' \<longleftrightarrow> (svc_ok te s \<longrightarrow> svc_ok te s' \<and> moves (ts_repo s) (ts_repo s'))"

lemma fine_refl [simp]: "fine te s s"
  by (simp add: fine_def moves_same)

lemma fine_trans: "fine te s u \<Longrightarrow> (svc_ok te u \<Longrightarrow> fine te u v) \<Longrightarrow> fine te s v"
  by (auto simp: fine_def intro: moves_trans)

lemma fine_repo: "ts_repo s' = ts_repo u \<Longrightarrow> fine te s s' = fine te s u"
  "ts_repo s = ts_repo u \<Longrightarrow> fine te s s' = fine te u s'"
  by (simp_all add: fine_def svc_ok_def)

lemma repo_simps [simp]:
  "ts_repo (forget_task i s) = ts_repo s" "ts_repo (Track te i s) = ts_repo s" "ts_repo (Untrack i s) = ts_repo s"
  "ts_repo (snd (find_agent te t s)) = ts_repo s"
  by (simp_all add: forget_task_def Track_def Untrack_def find_agent_def split_beta Let_def)

lemma fine_forget [simp]: "fine te s (forget_task i u) = fine te s u" "fine te s (Track te' i u) = fine te s u"
  "fine te s (Untrack i u) = fine te s u"
  by (rule fine_repo, simp)+

lemma fine_load: "fine te s (snd (load_task te msg i s))"
  using coherent_Get [of "te_rv te" "ts_repo s" i]
  by (auto simp: fine_def svc_ok_def load_task_def split_beta intro: moves_same)

lemma load_found:
  assumes "svc_ok te s" "fst (load_task te msg i s) = Inr t"
  shows "\<exists>row. List.find (live i) (tr_rows (ts_repo (snd (load_task te msg i s)))) = Some row
     \<and> (t = row \<or> t = cached_copy (rv_time_text (te_rv te)) row) \<and> live i t
     \<and> status_of i (ts_repo (snd (load_task te msg i s))) = Some (tk_Status t)"
proof -
  have g: "fst (tr_Get (te_rv te) i (ts_repo s)) = Inr t"
    using assms(2) by (cases "fst (tr_Get (te_rv te) i (ts_repo s))") (auto simp: load_task_def split_beta)
  have rows: "tr_rows (snd (tr_Get (te_rv te) i (ts_repo s))) = tr_rows (ts_repo s)" by (rule Get_rows)
  from Get_returns [OF _ g] Get_live [OF _ g] assms(1) rows show ?thesis
    by (auto simp: svc_ok_def load_task_def split_beta status_of_def)
qed

lemma fine_update:
  assumes "\<And>a. status_of (tk_ID t) (ts_repo s) = Some a \<Longrightarrow> a = tk_Status t \<or> lifecycle a (tk_Status t)"
  shows "fine te s (snd (update_task te msg t s))" "fine te s (snd (save_task te msg t s))"
proof -
  have "moves (ts_repo s) (snd (tr_Update (te_rv te) t (ts_repo s)))"
    using status_Update [of _ "te_rv te" t "ts_repo s"] assms unfolding moves_def
    by (metis option.distinct(1) option.inject r_into_rtranclp rtranclp.rtrancl_refl)
  then have 1: "fine te s (s\<lparr>ts_repo := snd (tr_Update (te_rv te) t (ts_repo s))\<rparr>)"
    using coherent_write [OF _ write_ok_Update] by (auto simp: fine_def svc_ok_def)
  then show "fine te s (snd (update_task te msg t s))"
    by (simp add: update_task_def split_beta Let_def split: sum.split)
  with 1 show "fine te s (snd (save_task te msg t s))"
    by (simp add: save_task_def update_task_def split_beta Let_def split: sum.split)
qed

lemma load_status [simp]: "status_of j (ts_repo (snd (load_task te msg i s))) = status_of j (ts_repo s)"
  by (simp add: load_task_def split_beta)

lemma fine_load_then':
  assumes "\<And>t u. svc_ok te u \<Longrightarrow> live i t \<Longrightarrow> status_of i (ts_repo u) = Some (tk_Status t) \<Longrightarrow>
      (\<And>j. status_of j (ts_repo u) = status_of j (ts_repo s)) \<Longrightarrow> fine te u (snd (k t u))"
  shows "fine te s (snd (case load_task te msg i s of (Inl e, u) \<Rightarrow> (Some e, u) | (Inr t, u) \<Rightarrow> k t u))"
proof (cases "svc_ok te s")
  case True
  obtain res u where l: "load_task te msg i s = (res, u)" by (cases "load_task te msg i s")
  have u: "fine te s u" using fine_load [of te s msg i] by (simp add: l)
  have st: "\<And>j. status_of j (ts_repo u) = status_of j (ts_repo s)" using load_status [of _ te msg i s] by (simp add: l)
  have ok: "svc_ok te u" using True u by (simp add: fine_def)
  show ?thesis
  proof (cases res)
    case (Inr t)
    with load_found [OF True, of msg i t] have "live i t" "status_of i (ts_repo u) = Some (tk_Status t)" by (auto simp: l)
    then have "fine te u (snd (k t u))" using assms ok st by blast
    with u show ?thesis by (auto simp: l Inr intro: fine_trans)
  qed (simp add: l u)
qed (simp add: fine_def)

lemma fine_load_then:
  assumes "\<And>t u. svc_ok te u \<Longrightarrow> live i t \<Longrightarrow> status_of i (ts_repo u) = Some (tk_Status t) \<Longrightarrow> fine te u (snd (k t u))"
  shows "fine te s (snd (case load_task te msg i s of (Inl e, u) \<Rightarrow> (Some e, u) | (Inr t, u) \<Rightarrow> k t u))"
  by (rule fine_load_then') (rule assms)

lemma fine_owned_then:
  assumes "\<And>t u. svc_ok te u \<Longrightarrow> live i t \<Longrightarrow> status_of i (ts_repo u) = Some required \<Longrightarrow>
      fine te u (snd (k t u))"
  shows "fine te s (snd (case owned_task te i a required verb s of (Inl e, u) \<Rightarrow> (Some e, u) | (Inr t, u) \<Rightarrow> k t u))"
proof -
  have "(case owned_task te i a required verb s of (Inl e, u) \<Rightarrow> (Some e, u) | (Inr t, u) \<Rightarrow> k t u) =
     (case load_task te ''failed to get task'' i s of (Inl e, u) \<Rightarrow> (Some e, u) | (Inr t, u) \<Rightarrow>
        if tk_AssignedTo t \<noteq> Some a then (Some (TNew ''task is not assigned to this agent''), u)
        else if tk_Status t \<noteq> required then (Some (TNew (''task cannot be '' @ verb @ '' in status '' @ tk_Status t)), u)
        else k t u)"
    by (simp add: owned_task_def split: prod.split sum.split)
  then show ?thesis using assms by (simp only:) (rule fine_load_then, auto)
qed

lemma put_result_simps [simp]:
  "tk_ID (put_result k v t) = tk_ID t" "tk_Status (put_result k v t) = tk_Status t"
  "tk_RetryCount (put_result k v t) = tk_RetryCount t" "tk_StartedAt (put_result k v t) = tk_StartedAt t"
  "tk_AssignedTo (put_result k v t) = tk_AssignedTo t" "tk_MaxRetries (put_result k v t) = tk_MaxRetries t"
  by (simp_all add: put_result_def)

lemma valid_simps [simp]:
  "isValidStatusTransition ''pending'' b \<longleftrightarrow> b \<in> {''assigned'', ''cancelled''}"
  "isValidStatusTransition ''assigned'' b \<longleftrightarrow> b \<in> {''accepted'', ''rejected'', ''cancelled''}"
  "isValidStatusTransition ''accepted'' b \<longleftrightarrow> b \<in> {''in_progress'', ''cancelled''}"
  "isValidStatusTransition ''rejected'' b \<longleftrightarrow> b \<in> {''pending'', ''cancelled''}"
  "isValidStatusTransition ''in_progress'' b \<longleftrightarrow> b \<in> {''completed'', ''failed'', ''cancelled''}"
  "isValidStatusTransition ''failed'' b \<longleftrightarrow> b = ''pending''"
  by (auto simp: isValidStatusTransition_def table_CanTransitionTo_def taskTransitions_def)

lemma fine_AcceptTask: "fine te s (snd (AcceptTask te i a s))"
  unfolding AcceptTask_def
  by (simp, intro conjI impI, rule fine_owned_then, rule fine_update(2)) (auto simp: live_def lifecycle_def)

lemma fine_RejectTask: "fine te s (snd (RejectTask te i a reason s))"
  unfolding RejectTask_def
  by (simp, intro conjI impI, rule fine_owned_then, rule fine_update(2)) (auto simp: live_def lifecycle_def)

lemma fine_StartTask: "fine te s (snd (StartTask te i a s))"
  unfolding StartTask_def
  by (simp, intro conjI impI, rule fine_owned_then, rule fine_update(2)) (auto simp: live_def lifecycle_def)

lemma fine_FailTask: "fine te s (snd (FailTask te i a m s))"
  unfolding FailTask_def
  by (simp, intro conjI impI, rule fine_owned_then, rule fine_update(2)) (auto simp: live_def lifecycle_def)

lemma fine_CompleteTask: "fine te s (snd (CompleteTask te i a result s))"
  unfolding CompleteTask_def
  by (simp, intro conjI impI, rule fine_owned_then)
    (auto simp: live_def lifecycle_def Let_def intro!: fine_update(2) split: task_result.splits option.splits)

lemma fine_UpdateProgress: "fine te s (snd (UpdateProgress te i p m s))"
  unfolding UpdateProgress_def
  by (simp, intro conjI impI, rule fine_load_then) (auto simp: live_def Let_def intro!: fine_update(2))

lemma fine_Update: "fine te s (snd (svc_Update te t s))"
proof (cases t)
  case (Some x)
  show ?thesis unfolding svc_Update_def Some
    by (simp, intro conjI impI, rule fine_load_then) (auto simp: live_def lifecycle_def intro!: fine_update(2))
qed (simp add: svc_Update_def)

lemma fine_AssignTask: "fine te s (snd (AssignTask te i a s))"
  unfolding AssignTask_def
  by (simp, intro conjI impI, rule fine_load_then)
    (auto simp: live_def lifecycle_def intro!: fine_update(2) split: sum.splits)

lemma fine_AutoAssignTask: "fine te s (snd (AutoAssignTask te i s))"
proof -
  have "fine te u (snd (case find_agent te t u of (None, s) \<Rightarrow> (Some TPanic, s)
      | (Some (Inl e), s) \<Rightarrow> (Some (TWrap ''failed to auto-assign task'' (TAssign e)), s)
      | (Some (Inr selectedAgent), s) \<Rightarrow> AssignTask te i (ag_ID selectedAgent) s))" for t u
  proof -
    obtain p v where f: "find_agent te t u = (p, v)" by (cases "find_agent te t u")
    have "ts_repo v = ts_repo u" using repo_simps(4) [of te t u] by (simp add: f)
    then have "fine te u v" using fine_repo(1) [of v u te u] by simp
    then show ?thesis
      by (auto simp: f intro: fine_trans fine_AssignTask split: option.split sum.split)
  qed
  then show ?thesis unfolding AutoAssignTask_def
    by (simp, intro conjI impI, intro fine_load_then) auto
qed

lemma fine_store_retry:
  assumes "status_of (tk_ID x) (ts_repo u) = Some a" "tk_Status x = ''pending''" "a = ''failed'' \<or> a = ''cancelled''"
  shows "fine te u (snd (store_retry te i x u))"
proof -
  obtain err v where e: "save_task te ''failed to retry task'' x u = (err, v)"
    by (cases "save_task te ''failed to retry task'' x u")
  have "fine te u (snd (save_task te ''failed to retry task'' x u))"
    by (rule fine_update(2)) (use assms in \<open>auto simp: lifecycle_def\<close>)
  then have v: "fine te u v" by (simp add: e)
  show ?thesis unfolding store_retry_def
    by (cases err) (simp_all add: e v split_beta fine_trans [OF v fine_AutoAssignTask])
qed

lemma fine_RetryTask: "fine te s (snd (RetryTask te i s))"
  unfolding RetryTask_def
  by (simp, intro conjI impI, rule fine_load_then) (auto simp: Let_def live_def intro!: fine_store_retry)

section \<open>Delegation, trees and batches\<close>

lemma moves_set:
  assumes "\<And>j. status_of j r' = status_of j r \<or> (j = i \<and> status_of j r \<noteq> None \<and> status_of j r' = Some st)"
    and "\<And>a. status_of i r = Some a \<Longrightarrow> a = st \<or> lifecycle a st"
  shows "moves r r'"
  using assms unfolding moves_def
  by (metis option.distinct(1) option.inject r_into_rtranclp rtranclp.rtrancl_refl)

lemma task_transaction_eq [simp]: "task_transaction fn s = fn s"
  by (cases "fn s"; cases "fst (fn s)") (simp_all add: task_transaction_def WithTransaction_eq)

lemma coherent_delegations [simp]: "coherent tt (r\<lparr>tr_delegations := d\<rparr>) = coherent tt r"
  by (simp add: coherent_def)

lemma fine_version:
  assumes "\<And>a. status_of (tk_ID t) (ts_repo s) = Some a \<Longrightarrow> a = tk_Status t \<or> lifecycle a (tk_Status t)"
  shows "fine te s (s\<lparr>ts_repo := snd (tr_UpdateWithVersion (te_rv te) t v (ts_repo s))\<rparr>)"
  using moves_set [OF status_UpdateWithVersion, of t "ts_repo s" "te_rv te" v] assms
    coherent_write [OF _ write_ok_UpdateWithVersion] by (auto simp: fine_def svc_ok_def)

lemma GetForUpdate_state: "\<exists>cb. snd (tr_GetForUpdate rv i r) = r\<lparr>tr_cb := cb\<rparr>"
  using breaker_state [of rv "''task_get_for_update''" "\<lambda>r. (doGetForUpdate rv i r, r)" r]
  by (auto simp: tr_GetForUpdate_def split: if_splits)

lemma GetForUpdate_found: "fst (tr_GetForUpdate rv i r) = Inr t \<Longrightarrow> List.find (live i) (tr_rows r) = Some t"
  unfolding tr_GetForUpdate_def by (drule breaker_result) (auto simp: doGetForUpdate_def dest: select_found)

lemma CreateDelegation_state: "\<exists>ds. snd (tr_CreateDelegation rv d r) = r\<lparr>tr_delegations := ds\<rparr>"
  by (cases r) (auto simp: tr_CreateDelegation_def Let_def split: option.splits)

lemma fine_delegate_in_tx:
  assumes "status_of (tk_ID t) (ts_repo s) = Some a" "a \<notin> {''completed'', ''cancelled''}"
  shows "fine te s (snd (delegate_in_tx te t d s))"
proof -
  let ?rv = "te_rv te" let ?d = "d\<lparr>dl_ID := rv_uuid ?rv 0, dl_DelegatedAt := te_now te\<rparr>"
  obtain res r where c: "tr_CreateDelegation ?rv ?d (ts_repo s) = (res, r)"
    by (cases "tr_CreateDelegation ?rv ?d (ts_repo s)")
  then obtain ds where r: "r = (ts_repo s)\<lparr>tr_delegations := ds\<rparr>"
    using CreateDelegation_state [of ?rv ?d "ts_repo s"] by auto
  have 1: "fine te s (s\<lparr>ts_repo := r\<rparr>)" by (auto simp: r fine_def svc_ok_def intro: moves_same)
  let ?t = "\<lambda>d. t\<lparr>tk_AssignedTo := Some (dl_ToAgentID d), tk_Status := ''assigned'', tk_AssignedAt := Some (te_now te),
      tk_Version := tk_Version t + 1\<rparr>"
  have 2: "fine te (s\<lparr>ts_repo := r\<rparr>) (s\<lparr>ts_repo := snd (tr_UpdateWithVersion ?rv (?t d) v r)\<rparr>)" for d v
    using fine_version [of "?t d" "s\<lparr>ts_repo := r\<rparr>" te v] assms by (simp add: r lifecycle_def)
  show ?thesis
    using 1 fine_trans [OF 1 2]
    by (auto simp: delegate_in_tx_def Let_def c split_beta split: sum.splits)
qed

lemma fine_DelegateTask: "fine te s (snd (DelegateTask te d s))"
proof -
  obtain res r where g: "tr_GetForUpdate (te_rv te) (dl_TaskID d) (ts_repo s) = (res, r)"
    by (cases "tr_GetForUpdate (te_rv te) (dl_TaskID d) (ts_repo s)")
  then obtain cb where r: "r = (ts_repo s)\<lparr>tr_cb := cb\<rparr>"
    using GetForUpdate_state [of "te_rv te" "dl_TaskID d" "ts_repo s"] by auto
  have 1: "fine te s (s\<lparr>ts_repo := r\<rparr>)" by (auto simp: r fine_def svc_ok_def intro: moves_same)
  have 2: "fine te (s\<lparr>ts_repo := r\<rparr>) (snd (delegate_in_tx te t d (s\<lparr>ts_repo := r\<rparr>)))"
    if "res = Inr t" "validateDelegation te t d = None" for t
  proof (rule fine_delegate_in_tx)
    have "List.find (live (dl_TaskID d)) (tr_rows (ts_repo s)) = Some t"
      using GetForUpdate_found [of "te_rv te"] g that(1) by simp
    with find_live_ID [OF this] show "status_of (tk_ID t) (ts_repo (s\<lparr>ts_repo := r\<rparr>)) = Some (tk_Status t)"
      by (auto simp: r status_of_def live_def)
    show "tk_Status t \<notin> {''completed'', ''cancelled''}" using that(2) by (auto simp: validateDelegation_def split: if_splits)
  qed
  show ?thesis
    using 1 fine_trans [OF 1 2] by (auto simp: DelegateTask_def Let_def g split: option.splits sum.splits)
qed

lemma fine_foldl:
  assumes "\<And>x u. fine te (g x) (g (step x u))"
  shows "fine te (g x) (g (foldl step x us))"
proof (induction us arbitrary: x)
  case (Cons u us)
  then show ?case using assms fine_trans by (metis foldl_Cons)
qed simp

lemma fine_RebalanceTasks: "fine te s (snd (RebalanceTasks te s))"
proof -
  have "fine te (snd x) (snd (rebalance_one te w x t))" for x t w
    by (cases x) (auto simp: rebalance_one_def Let_def split_beta intro: fine_AutoAssignTask split: option.splits)
  then have "fine te (snd x) (snd (foldl (rebalance_one te w) x us))" for x w us
    by (rule fine_foldl [where g = snd and step = "rebalance_one te w"])
  from this [of "(None, s)"] show ?thesis
    by (simp add: RebalanceTasks_def Let_def split: sum.split)
qed

lemma fine_svc_Get: "fine te s (snd (svc_Get te i s))"
proof -
  have "fine te s (s\<lparr>ts_repo := snd (tr_Get (te_rv te) i (ts_repo s)), ts_taskCache := c\<rparr>)" for c
    using coherent_Get [of "te_rv te" "ts_repo s" i] by (auto simp: fine_def svc_ok_def intro: moves_same)
  moreover have "fine te s (s\<lparr>ts_repo := snd (tr_Get (te_rv te) i (ts_repo s))\<rparr>)"
    using coherent_Get [of "te_rv te" "ts_repo s" i] by (auto simp: fine_def svc_ok_def intro: moves_same)
  ultimately show ?thesis
    by (auto simp: svc_Get_def Let_def split_beta split: option.split sum.split)
qed

lemma fine_check_one: "fine te s (check_one te s x)"
proof -
  obtain i start where x: "x = (i, start)" by (cases x)
  obtain res u where g: "svc_Get te i s = (res, u)" by (cases "svc_Get te i s")
  have u: "fine te s u" using fine_svc_Get [of te s i] by (simp add: g)
  show ?thesis
    by (cases res) (auto simp: check_one_def x g u Let_def intro: fine_trans [OF u] fine_trans fine_UpdateProgress fine_Update)
qed

lemma fine_checkProgress: "fine te s (checkProgress te s)"
  unfolding checkProgress_def by (rule fine_foldl [where g = id, simplified], rule fine_check_one)

lemma fine_SubmitSubtaskResult: "fine te s (snd (SubmitSubtaskResult te p c result s))"
  unfolding SubmitSubtaskResult_def
  by (simp, intro conjI impI, rule fine_load_then', rule fine_load_then')
    (auto simp: Let_def split_beta live_def intro!: fine_update(1) split: option.split)

lemma fine_CompleteWorkflowTask: "fine te s (snd (CompleteWorkflowTask te i out s))"
  unfolding CompleteWorkflowTask_def
  by (simp, intro conjI impI, rule fine_load_then) (auto simp: Let_def split_beta intro: fine_CompleteTask)

section \<open>Trees\<close>

definition tree_rows :: "task_repo \<Rightarrow> task_tree \<Rightarrow> bool" where
  "tree_rows r tree \<longleftrightarrow> (\<forall>p ts t. fmlookup (tt_Children tree) p = Some ts \<longrightarrow> t \<in> set ts \<longrightarrow>
     t \<in> set (tr_rows r) \<and> tk_DeletedAt t = None)"

lemma foldl_error:
  "foldl (\<lambda>acc c. case acc of Inl e \<Rightarrow> Inl e | Inr x \<Rightarrow> f c x) (Inl e) cs = Inl e"
  by (induction cs) auto

lemma foldl_keeps:
  assumes "\<And>c x y. f c x = Inr y \<Longrightarrow> P x \<Longrightarrow> P y"
    and "foldl (\<lambda>acc c. case acc of Inl e \<Rightarrow> Inl e | Inr x \<Rightarrow> f c x) (Inr x) cs = Inr y" "P x"
  shows "P y"
  using assms(2,3)
proof (induction cs arbitrary: x)
  case (Cons c cs)
  then show ?case by (cases "f c x") (auto simp: foldl_error dest: assms(1))
qed simp

lemma loadTaskChildren_rows:
  assumes "loadTaskChildren rv r n d p tree = Inr tree'" "tree_rows r tree \<and> tt_Root tree = t0"
  shows "tree_rows r tree' \<and> tt_Root tree' = t0"
  using assms
proof (induction n arbitrary: d p tree tree')
  case (Suc n)
  then obtain cs where cs: "tr_GetSubtasks rv p r = Inr cs"
    by (cases "tr_GetSubtasks rv p r") auto
  then have rows: "\<forall>t\<in>set cs. t \<in> set (tr_rows r) \<and> tk_DeletedAt t = None"
    by (auto simp: tr_GetSubtasks_def active_child_def split: option.splits)
  show ?case
  proof (cases "cs = []")
    case False
    let ?tree = "tree\<lparr>tt_Children := fmupd p cs (tt_Children tree), tt_Depth := max (tt_Depth tree) (d + 1)\<rparr>"
    have f: "foldl (\<lambda>acc child. case acc of Inl e \<Rightarrow> Inl e
          | Inr tree \<Rightarrow> loadTaskChildren rv r n (d + 1) (tk_ID child) tree) (Inr ?tree) cs = Inr tree'"
      using Suc.prems(1) cs False by simp
    have "tree_rows r ?tree \<and> tt_Root ?tree = t0"
      using Suc.prems(2) rows unfolding tree_rows_def by (simp split: if_splits)
    then show ?thesis
      by (rule foldl_keeps [where P = "\<lambda>tree. tree_rows r tree \<and> tt_Root tree = t0", OF _ f, rotated]) (rule Suc.IH)
  qed (use Suc.prems cs in auto)
qed simp

lemma GetTaskTree_rows:
  assumes "coherent (rv_time_text rv) r" "tr_GetTaskTree rv i n r = (Inr tree, r')"
  shows "t \<in> set (tree_tasks tree) \<Longrightarrow> status_of (tk_ID t) r' = Some (tk_Status t)"
    and "\<And>j. status_of j r' = status_of j r" "coherent (rv_time_text rv) r'"
proof -
  obtain t0 where g: "tr_Get rv i r = (Inr t0, r')"
    and l: "loadTaskChildren rv r' n 0 i \<lparr>tt_Root = t0, tt_Children = fmempty, tt_Depth = 0\<rparr> = Inr tree"
    using assms(2) by (auto simp: tr_GetTaskTree_def split: prod.splits sum.splits)
  show st: "\<And>j. status_of j r' = status_of j r" using status_Get [of _ rv i r] by (simp add: g)
  show co: "coherent (rv_time_text rv) r'" using coherent_Get [OF assms(1), of i] by (simp add: g)
  from loadTaskChildren_rows [OF l, of t0] have tr: "tree_rows r' tree" "tt_Root tree = t0" by (auto simp: tree_rows_def)
  assume "t \<in> set (tree_tasks tree)"
  then consider "t = t0" | p ts where "fmlookup (tt_Children tree) p = Some ts" "t \<in> set ts"
    using tr(2) by (auto simp: tree_tasks_def set_go_range)
  then show "status_of (tk_ID t) r' = Some (tk_Status t)"
  proof cases
    case 1
    obtain row where "List.find (live i) (tr_rows r) = Some row" "t = row \<or> t = cached_copy (rv_time_text rv) row"
      using Get_returns [OF assms(1), of i t0] g 1 by auto
    moreover from this have "tk_ID row = i" using find_live_ID [of i "tr_rows r" row] by (simp add: live_def)
    ultimately show ?thesis by (auto simp: st) (auto simp: status_of_def)
  next
    case 2
    then have "t \<in> set (tr_rows r')" "tk_DeletedAt t = None" using tr(1) unfolding tree_rows_def by blast+
    then have "List.find (live (tk_ID t)) (tr_rows r') = Some t"
      using co by (intro find_unique) (auto simp: live_def coherent_def)
    then show ?thesis by (simp add: status_of_def)
  qed
qed

lemma fine_cancel_all:
  assumes "\<forall>t \<in> set ts. status_of (tk_ID t) (ts_repo s) \<in> {None, Some (tk_Status t), Some ''cancelled''}"
  shows "fine te s (snd (foldl (cancel_one te reason) (err, s) ts))"
  using assms
proof (induction ts arbitrary: err s)
  case (Cons t ts)
  let ?x = "t\<lparr>tk_Status := ''cancelled'', tk_Error := reason, tk_UpdatedAt := te_now te\<rparr>"
  obtain err' u where c: "cancel_one te reason (err, s) t = (err', u)" by (cases "cancel_one te reason (err, s) t")
  have "fine te s (snd (cancel_one te reason (err, s) t))"
  proof (cases "tk_Status t \<noteq> ''completed'' \<and> tk_Status t \<noteq> ''cancelled''")
    case True
    then have "fine te s (snd (update_task te '''' ?x s))"
      using Cons.prems by (intro fine_update(1)) (auto simp: lifecycle_def)
    with True show ?thesis
      by (auto simp: cancel_one_def update_task_def Let_def split_beta split: sum.splits)
  qed (auto simp: cancel_one_def)
  then have u: "fine te s u" by (simp add: c)
  have "ts_repo u = ts_repo s \<or> ts_repo u = snd (tr_Update (te_rv te) ?x (ts_repo s))"
    using c by (auto simp: cancel_one_def Let_def split_beta split: if_splits)
  then have "status_of j (ts_repo u) \<in> {status_of j (ts_repo s), Some ''cancelled''}" for j
    using status_Update [of j "te_rv te" ?x "ts_repo s"] by auto
  then have "\<forall>t \<in> set ts. status_of (tk_ID t) (ts_repo u) \<in> {None, Some (tk_Status t), Some ''cancelled''}"
    using Cons.prems by (metis insert_iff list.set_intros(2) singletonD)
  with Cons.IH have "fine te u (snd (foldl (cancel_one te reason) (err', u) ts))" by blast
  with u show ?case by (auto simp: c intro: fine_trans)
qed simp

lemma fine_GetTaskTree: "fine te s (snd (svc_GetTaskTree te i s))"
  and GetTaskTree_tasks: "svc_ok te s \<Longrightarrow> svc_GetTaskTree te i s = (Inr tree, u) \<Longrightarrow> t \<in> set (tree_tasks tree) \<Longrightarrow>
     status_of (tk_ID t) (ts_repo u) = Some (tk_Status t)"
proof -
  obtain res v where l: "load_task te ''failed to get root task'' i s = (res, v)" by (cases "load_task te ''failed to get root task'' i s")
  obtain tres r where g: "tr_GetTaskTree (te_rv te) i 10 (ts_repo v) = (tres, r)"
    by (cases "tr_GetTaskTree (te_rv te) i 10 (ts_repo v)")
  have v: "fine te s v" using fine_load [of te s "''failed to get root task''" i] by (simp add: l)
  have r: "r = snd (tr_Get (te_rv te) i (ts_repo v))"
    using g by (auto simp: tr_GetTaskTree_def split: prod.splits sum.splits)
  have "fine te v (v\<lparr>ts_repo := r\<rparr>)"
    using coherent_Get [of "te_rv te" "ts_repo v" i] by (auto simp: r fine_def svc_ok_def intro: moves_same)
  then have "fine te s (v\<lparr>ts_repo := r\<rparr>)" using v fine_trans by blast
  with v show "fine te s (snd (svc_GetTaskTree te i s))"
    by (cases res) (auto simp: svc_GetTaskTree_def l g Let_def)
  assume ok: "svc_ok te s" and x: "svc_GetTaskTree te i s = (Inr tree, u)" and t: "t \<in> set (tree_tasks tree)"
  from x have "tres = Inr tree" "ts_repo u = r"
    by (cases res; cases tres; auto simp: svc_GetTaskTree_def l g Let_def split: if_splits)+
  moreover have "coherent (rv_time_text (te_rv te)) (ts_repo v)" using ok v by (simp add: fine_def svc_ok_def)
  ultimately show "status_of (tk_ID t) (ts_repo u) = Some (tk_Status t)" using GetTaskTree_rows(1) g t by blast
qed

lemma fine_CancelTaskTree: "fine te s (snd (CancelTaskTree te i reason s))"
proof (cases "svc_ok te s")
  case True
  obtain res u where g: "svc_GetTaskTree te i s = (res, u)" by (cases "svc_GetTaskTree te i s")
  have u: "fine te s u" using fine_GetTaskTree [of te s i] by (simp add: g)
  have "fine te u (snd (foldl (cancel_one te reason) (None, u) (tree_tasks tree)))" if "res = Inr tree" for tree
    using GetTaskTree_tasks [OF True] g that by (intro fine_cancel_all) auto
  with u show ?thesis
    by (cases res) (auto simp: CancelTaskTree_def g Let_def split_beta split: option.split intro: fine_trans)
qed (simp add: fine_def)

lemma find_live_filter: "j \<noteq> i \<Longrightarrow> List.find (live j) (filter (\<lambda>t. tk_ID t \<noteq> i) rows) = List.find (live j) rows"
  by (induction rows) (auto simp: live_def)

lemma find_live_gone: "List.find (live i) (filter (\<lambda>t. tk_ID t \<noteq> i) rows) = None"
  by (induction rows) (auto simp: live_def)

lemma Delete_rows: "tr_rows (snd (tr_Delete rv i r)) = tr_rows r
   \<or> tr_rows (snd (tr_Delete rv i r)) = filter (\<lambda>t. tk_ID t \<noteq> i) (tr_rows r)"
proof -
  obtain res s where g: "tr_Get rv i r = (res, s)" by (cases "tr_Get rv i r")
  have "tr_rows s = tr_rows r" using Get_rows [of rv i r] by (simp add: g)
  then show ?thesis
    by (cases res) (auto simp: tr_Delete_def g repo_WithTransaction_def delete_rows_def Let_def split: option.splits)
qed

lemma fine_Delete: "fine te s (snd (svc_Delete te i s))"
proof -
  have "fine te u (u\<lparr>ts_repo := snd (tr_Delete (te_rv te) i (ts_repo u))\<rparr>)" for u
  proof -
    have "status_of j (snd (tr_Delete (te_rv te) i (ts_repo u))) \<in> {None, status_of j (ts_repo u)}" for j
      using Delete_rows [of "te_rv te" i "ts_repo u"]
      by (cases "j = i") (auto simp: status_of_def find_live_filter find_live_gone)
    then have "moves (ts_repo u) (snd (tr_Delete (te_rv te) i (ts_repo u)))"
      unfolding moves_def by (metis insertE option.distinct(1) option.inject rtranclp.rtrancl_refl singletonD)
    then show ?thesis using coherent_Delete [of "te_rv te" "ts_repo u" i] by (auto simp: fine_def svc_ok_def)
  qed
  then show ?thesis unfolding svc_Delete_def
    by (simp, intro conjI impI, intro fine_load_then) (auto simp: Let_def split_beta split: sum.splits)
qed

section \<open>Creation\<close>

lemma doCreate_rows: "tr_rows (snd (snd (doCreate rv k t r))) =
   (if fst (doCreate rv k t r) = None then tr_rows r @ [inserted_row rv (prepared rv 0 t)] else tr_rows r)"
  by (auto simp: doCreate_def Let_def split: option.splits)

lemma create_loop_rows:
  "tr_rows (snd (snd (create_loop rv n k err t r))) = tr_rows r
   \<or> (\<exists>x. tr_rows (snd (snd (create_loop rv n k err t r))) = tr_rows r @ [x] \<and> tk_ID x = tk_ID (prepared rv 0 t))"
proof (induction n arbitrary: k err t)
  case (Suc n)
  obtain e t' r' where d: "doCreate rv k t r = (e, t', r')" by (metis surj_pair)
  show ?case
  proof (cases e)
    case None
    then show ?thesis using doCreate_rows [of rv k t r] by (simp add: d)
  next
    case (Some x)
    then have "t' = prepared rv 0 t" "r' = r" using doCreate_failed [of rv k t r] by (auto simp: d)
    with Suc.IH [of "Suc k" e "prepared rv 0 t"] show ?thesis by (simp add: d Some)
  qed
qed simp

lemma Create_status:
  assumes "j \<noteq> tk_ID (prepared rv 0 t)"
  shows "status_of j (snd (tr_Create rv t r)) = status_of j r"
proof -
  let ?fn = "\<lambda>r. let (err, t, r) = createWithRetry rv t r in (case err of None \<Rightarrow> Inr t | Some e \<Rightarrow> Inl e, r)"
  have "tr_rows (snd (?fn r)) = tr_rows r \<or> (\<exists>x. tr_rows (snd (?fn r)) = tr_rows r @ [x] \<and> tk_ID x = tk_ID (prepared rv 0 t))"
    using create_loop_rows [of rv maxRetries 0 None t r] by (simp add: createWithRetry_def split_beta)
  then have "status_of j (snd (?fn r)) = status_of j r"
    using assms by (auto simp: status_of_def live_def find_append_last)
  then show ?thesis
    using breaker_state [of rv "''task_create''" ?fn r] by (auto simp: tr_Create_def)
qed

lemma applyTaskDefaults_keeps [simp]:
  "tk_ID (snd (applyTaskDefaults te t)) = tk_ID t" "tk_TenantID (snd (applyTaskDefaults te t)) = tk_TenantID t"
  "tk_Status (snd (applyTaskDefaults te t)) = tk_Status t" "tk_AssignedTo (snd (applyTaskDefaults te t)) = tk_AssignedTo t"
  "tk_CreatedBy (snd (applyTaskDefaults te t)) = tk_CreatedBy t" "tk_ParentTaskID (snd (applyTaskDefaults te t)) = tk_ParentTaskID t"
  "tk_Type (snd (applyTaskDefaults te t)) = tk_Type t"
  by (auto simp: applyTaskDefaults_def Let_def split: option.splits sum.splits)

lemma auto_assign_keeps [simp]:
  "ts_repo (snd (snd (auto_assign te t s))) = ts_repo s" "tk_ID (fst (snd (auto_assign te t s))) = tk_ID t"
proof -
  obtain p u where f: "find_agent te t s = (p, u)" by (cases "find_agent te t s")
  moreover have "ts_repo u = ts_repo s" using repo_simps(4) [of te t s] by (simp add: f)
  ultimately show "ts_repo (snd (snd (auto_assign te t s))) = ts_repo s" "tk_ID (fst (snd (auto_assign te t s))) = tk_ID t"
    by (auto simp: auto_assign_def f split: option.split sum.split)
qed

lemma insert_new_repo: "ts_repo (snd (snd (insert_new te key t s))) = snd (tr_Create (te_rv te) t (ts_repo s))"
  by (simp add: insert_new_def storeIdempotencyKey_def Let_def split_beta split: sum.split)

lemma create_in_tx_repo:
  "ts_repo (snd (snd (create_in_tx te key (t, s)))) = ts_repo s \<or>
   (\<exists>x. tk_ID x = rv_uuid (te_rv te) 0 \<and> ts_repo (snd (snd (create_in_tx te key (t, s)))) = snd (tr_Create (te_rv te) x (ts_repo s)))"
proof -
  obtain e d where a: "applyTaskDefaults te (new_metadata te t) = (e, d)" by (cases "applyTaskDefaults te (new_metadata te t)")
  have "tk_ID d = tk_ID (new_metadata te t)" using a by (metis applyTaskDefaults_keeps(1) snd_conv)
  then have d: "tk_ID d = rv_uuid (te_rv te) 0" by (simp add: new_metadata_def)
  obtain e' x u where b: "auto_assign te d s = (e', x, u)" by (cases "auto_assign te d s")
  have "tk_ID x = rv_uuid (te_rv te) 0" "ts_repo u = ts_repo s" using b d by (metis auto_assign_keeps fst_conv snd_conv)+
  then show ?thesis
    by (cases e; cases e') (auto simp: create_in_tx_def a b insert_new_repo)
qed

lemma svc_Create_repo:
  "ts_repo (snd (snd (svc_Create te t key s))) = ts_repo s \<or>
   (\<exists>x. tk_ID x = rv_uuid (te_rv te) 0 \<and> ts_repo (snd (snd (svc_Create te t key s))) = snd (tr_Create (te_rv te) x (ts_repo s)))"
proof -
  obtain e x where a: "sanitizeTask te t = (e, x)" by (cases "sanitizeTask te t")
  have "ts_repo (executePostCreationActions te y u) = ts_repo u" for y u
    by (simp add: executePostCreationActions_def Let_def split: option.split)
  then show ?thesis
    using create_in_tx_repo [of te key x s]
    by (auto simp: svc_Create_def a Let_def split_beta split: option.split)
qed

lemma svc_Create_ok:
  assumes "svc_ok te s" "rows_of (rv_uuid (te_rv te) 0) (ts_repo s) = []"
  shows "svc_ok te (snd (snd (svc_Create te t key s)))"
    "j \<noteq> rv_uuid (te_rv te) 0 \<Longrightarrow> status_of j (ts_repo (snd (snd (svc_Create te t key s)))) = status_of j (ts_repo s)"
proof -
  have id: "tk_ID (prepared (te_rv te) 0 x) = rv_uuid (te_rv te) 0" if "tk_ID x = rv_uuid (te_rv te) 0" for x
    using that by (simp add: prepared_def)
  show "svc_ok te (snd (snd (svc_Create te t key s)))"
    using svc_Create_repo [of te t key s] assms coherent_write [OF _ write_ok_Create] id by (auto simp: svc_ok_def)
  show "j \<noteq> rv_uuid (te_rv te) 0 \<Longrightarrow> status_of j (ts_repo (snd (snd (svc_Create te t key s)))) = status_of j (ts_repo s)"
    using svc_Create_repo [of te t key s] Create_status id by (metis)
qed

section \<open>Runs of the service\<close>

text \<open>
  Any handler, called by anybody in any environment, or a tick of a background worker; the cache
  server answers, and the ids of new tasks are new and different from \<open>i\<close>.
\<close>

inductive service_step :: "uuid \<Rightarrow> (go_time \<Rightarrow> string) \<Rightarrow> task_service \<Rightarrow> task_service \<Rightarrow> bool" for i tt where
  create: "rv_cache_up (te_rv te) \<Longrightarrow> rv_time_text (te_rv te) = tt \<Longrightarrow> rv_uuid (te_rv te) 0 \<noteq> i \<Longrightarrow>
    rows_of (rv_uuid (te_rv te) 0) (ts_repo s) = [] \<Longrightarrow> service_step i tt s (snd (snd (svc_Create te t key s)))"
| handler: "rv_cache_up (te_rv te) \<Longrightarrow> rv_time_text (te_rv te) = tt \<Longrightarrow>
    s' \<in> {snd (svc_Get te j s), snd (svc_Update te topt s), snd (svc_Delete te j s), snd (AssignTask te j a s),
          snd (AutoAssignTask te j s), snd (AcceptTask te j a s), snd (RejectTask te j a m s), snd (StartTask te j a s),
          snd (UpdateProgress te j p m s), snd (CompleteTask te j a res s), snd (FailTask te j a m s),
          snd (RetryTask te j s), snd (DelegateTask te d s), snd (SubmitSubtaskResult te j k res s),
          snd (svc_GetTaskTree te j s), snd (CancelTaskTree te j m s), snd (CompleteWorkflowTask te j res s),
          snd (RebalanceTasks te s), checkProgress te s} \<Longrightarrow> service_step i tt s s'"

lemmas fine_handlers = fine_svc_Get fine_Update fine_Delete fine_AssignTask fine_AutoAssignTask fine_AcceptTask
  fine_RejectTask fine_StartTask fine_UpdateProgress fine_CompleteTask fine_FailTask fine_RetryTask fine_DelegateTask
  fine_SubmitSubtaskResult fine_GetTaskTree fine_CancelTaskTree fine_CompleteWorkflowTask fine_RebalanceTasks
  fine_checkProgress

text \<open>The statuses task \<open>i\<close> may have after a run that started in a coherent state.\<close>

definition follows :: "uuid \<Rightarrow> task_repo \<Rightarrow> task_repo \<Rightarrow> bool" where
  "follows i r r' \<longleftrightarrow> (case (status_of i r, status_of i r') of
     (Some a, Some b) \<Rightarrow> lifecycle\<^sup>*\<^sup>* a b | (None, Some _) \<Rightarrow> False | _ \<Rightarrow> True)"

lemma moves_follows: "moves r r' \<Longrightarrow> follows i r r'"
  by (auto simp: moves_def follows_def split: option.split)

lemma follows_trans: "follows i r s \<Longrightarrow> follows i s u \<Longrightarrow> follows i r u"
  by (auto simp: follows_def split: option.splits)

lemma service_step_follows:
  assumes "service_step i tt s s'" "coherent tt (ts_repo s)"
  shows "coherent tt (ts_repo s') \<and> follows i (ts_repo s) (ts_repo s')"
  using assms
proof (induction rule: service_step.induct)
  case (create te s t key)
  with svc_Create_ok(1) [of te s t key] svc_Create_ok(2) [of te s i t key] show ?case by (auto simp: svc_ok_def follows_def split: option.split)
next
  case (handler te s' j s topt a m p res d k)
  then have "fine te s s'" by (auto intro: fine_handlers)
  with handler show ?case by (auto simp: fine_def svc_ok_def moves_follows)
qed

lemma service_run_follows:
  assumes "(service_step i tt)\<^sup>*\<^sup>* s s'" "coherent tt (ts_repo s)"
  shows "coherent tt (ts_repo s') \<and> follows i (ts_repo s) (ts_repo s')"
  using assms
proof (induction rule: rtranclp_induct)
  case base
  then show ?case by (simp add: follows_def split: option.split)
next
  case (step y z)
  then show ?case using service_step_follows follows_trans by blast
qed

section \<open>What a successful call has done\<close>

definition owned :: "task_service \<Rightarrow> uuid \<Rightarrow> string \<Rightarrow> status \<Rightarrow> bool" where
  "owned s i a st \<longleftrightarrow> (\<exists>row. List.find (live i) (tr_rows (ts_repo s)) = Some row \<and> tk_AssignedTo row = Some a \<and> tk_Status row = st)"

lemma load_rows [simp]: "tr_rows (ts_repo (snd (load_task te msg i s))) = tr_rows (ts_repo s)"
  by (simp add: load_task_def split_beta Get_rows)

lemma owned_success:
  assumes "svc_ok te s" "fst (case owned_task te i a required verb s of (Inl e, u) \<Rightarrow> (Some e, u) | (Inr t, u) \<Rightarrow> k t u) = None"
  obtains t u where "owned s i a required" "live i t" "status_of i (ts_repo u) = Some required" "fst (k t u) = None"
    "(case owned_task te i a required verb s of (Inl e, u) \<Rightarrow> (Some e, u) | (Inr t, u) \<Rightarrow> k t u) = k t u"
proof -
  obtain res u where l: "load_task te ''failed to get task'' i s = (res, u)" by (cases "load_task te ''failed to get task'' i s")
  obtain t where t: "res = Inr t" "tk_AssignedTo t = Some a" "tk_Status t = required" "fst (k t u) = None"
    and eq: "(case owned_task te i a required verb s of (Inl e, u) \<Rightarrow> (Some e, u) | (Inr t, u) \<Rightarrow> k t u) = k t u"
    using assms(2) by (cases res) (auto simp: owned_task_def l split: if_splits)
  from load_found [OF assms(1), of "''failed to get task''" i t]
  obtain row where row: "List.find (live i) (tr_rows (ts_repo u)) = Some row" "t = row \<or> t = cached_copy (rv_time_text (te_rv te)) row"
    and "live i t" "status_of i (ts_repo u) = Some (tk_Status t)" by (auto simp: l t(1))
  moreover have "tr_rows (ts_repo u) = tr_rows (ts_repo s)" using load_rows [of te "''failed to get task''" i s] unfolding l by simp
  ultimately show thesis using that t eq by (auto simp: owned_def)
qed

lemma written_live: "live j (written rv t row) \<longleftrightarrow> live j row"
  by (simp add: written_def set_columns_def stored_task_def Let_def live_def)

lemma save_success:
  assumes "fst (save_task te msg t s) = None" "status_of (tk_ID t) (ts_repo s) \<noteq> None"
  shows "status_of (tk_ID t) (ts_repo (snd (save_task te msg t s))) = Some (tk_Status t)"
proof -
  obtain x where x: "fst (tr_Update (te_rv te) t (ts_repo s)) = Inr x"
    using assms(1) by (cases "fst (tr_Update (te_rv te) t (ts_repo s))") (auto simp: save_task_def update_task_def Let_def split_beta)
  have "tr_rows (ts_repo (snd (save_task te msg t s))) = map (written (te_rv te) t) (tr_rows (ts_repo s))"
    using Update_done [OF x] x by (simp add: save_task_def update_task_def Let_def split_beta)
  moreover obtain row where row: "List.find (live (tk_ID t)) (tr_rows (ts_repo s)) = Some row"
    using assms(2) by (auto simp: status_of_def)
  ultimately show ?thesis
    using written_columns [of t row "te_rv te"] find_live_ID [OF row] by (simp add: status_of_def find_map_live written_live)
qed

lemma owned_save:
  assumes "svc_ok te s" "fst (case owned_task te i a required verb s of (Inl e, u) \<Rightarrow> (Some e, u) | (Inr t, u) \<Rightarrow> k t u) = None"
    and "\<And>t u. live i t \<Longrightarrow> fst (k t u) = None \<Longrightarrow> \<exists>x. k t u = save_task te msg x u \<and> tk_ID x = i \<and> tk_Status x = st"
  shows "owned s i a required \<and>
    status_of i (ts_repo (snd (case owned_task te i a required verb s of (Inl e, u) \<Rightarrow> (Some e, u) | (Inr t, u) \<Rightarrow> k t u))) = Some st"
  using assms(1,2)
proof (rule owned_success)
  fix t u
  assume o: "owned s i a required" "live i t" "status_of i (ts_repo u) = Some required" "fst (k t u) = None"
    and eq: "(case owned_task te i a required verb s of (Inl e, u) \<Rightarrow> (Some e, u) | (Inr t, u) \<Rightarrow> k t u) = k t u"
  obtain x where "k t u = save_task te msg x u" "tk_ID x = i" "tk_Status x = st" using assms(3) [OF o(2,4)] by blast
  with o save_success [of te msg x u] show ?thesis unfolding eq by auto
qed

lemma Accept_success:
  assumes "svc_ok te s" "fst (AcceptTask te i a s) = None"
  shows "owned s i a ''assigned'' \<and> status_of i (ts_repo (snd (AcceptTask te i a s))) = Some ''accepted''"
  using assms(2) unfolding AcceptTask_def
  by (simp split: if_splits) (erule owned_save [OF assms(1)], auto simp: live_def)

lemma Reject_success:
  assumes "svc_ok te s" "fst (RejectTask te i a m s) = None"
  shows "owned s i a ''assigned'' \<and> status_of i (ts_repo (snd (RejectTask te i a m s))) = Some ''rejected''"
  using assms(2) unfolding RejectTask_def
  by (simp split: if_splits) (erule owned_save [OF assms(1)], auto simp: live_def)

lemma Start_success:
  assumes "svc_ok te s" "fst (StartTask te i a s) = None"
  shows "owned s i a ''accepted'' \<and> status_of i (ts_repo (snd (StartTask te i a s))) = Some ''in_progress''"
  using assms(2) unfolding StartTask_def
  by (simp split: if_splits) (erule owned_save [OF assms(1)], auto simp: live_def)

lemma Fail_success:
  assumes "svc_ok te s" "fst (FailTask te i a m s) = None"
  shows "owned s i a ''in_progress'' \<and> status_of i (ts_repo (snd (FailTask te i a m s))) = Some ''failed''"
  using assms(2) unfolding FailTask_def
  by (simp split: if_splits) (erule owned_save [OF assms(1)], auto simp: live_def)

lemma Complete_success:
  assumes "svc_ok te s" "fst (CompleteTask te i a res s) = None"
  shows "owned s i a ''in_progress'' \<and> status_of i (ts_repo (snd (CompleteTask te i a res s))) = Some ''completed''"
  using assms(2) unfolding CompleteTask_def
  by (simp split: if_splits) (erule owned_save [OF assms(1)],
    auto simp: live_def Let_def split: if_splits option.splits task_result.splits intro!: exI conjI)

section \<open>A sample service\<close>

definition calm_env :: "go_time \<Rightarrow> task_env" where
  "calm_env now = \<lparr>te_en = \<lparr>en_now = now, en_uuid = 9, en_tenant = 1, en_agent = ''a'', en_RateLimiter = None,
      en_QuotaManager = None, en_Authorizer = None, en_Sanitizer = None, en_GetDefaults = None, en_publish = (\<lambda>e. None),
      en_db = (\<lambda>e. None), en_regexp = (\<lambda>p x. Inr True), en_time_text = (\<lambda>t. ''''), en_broadcast = None,
      en_run_step = (\<lambda>st. (None, fmempty))\<rparr>,
     te_rv = calm now, te_wd = demo_world, te_CheckPermission = (\<lambda>r a. True), te_SanitizeJSON = (\<lambda>p. Inr None),
     te_GetDefaults = None, te_auto_rules = None, te_delegation_policy = None, te_ctx = (\<lambda>k. None),
     te_dur_text = (\<lambda>d. '''')\<rparr>"

lemma calm_env_simps [simp]:
  "te_rv (calm_env now) = calm now" "te_wd (calm_env now) = demo_world" "te_auto_rules (calm_env now) = None"
  "te_delegation_policy (calm_env now) = None" "te_GetDefaults (calm_env now) = None"
  "en_Authorizer (te_en (calm_env now)) = None" "en_RateLimiter (te_en (calm_env now)) = None"
  "en_QuotaManager (te_en (calm_env now)) = None" "en_Sanitizer (te_en (calm_env now)) = None"
  "en_publish (te_en (calm_env now)) = (\<lambda>e. None)" "en_tenant (te_en (calm_env now)) = 1"
  "en_agent (te_en (calm_env now)) = ''a''"
  by (simp_all add: calm_env_def)

lemma sample_coherent: "coherent tt (with_task t)"
  by (simp add: coherent_def rows_of_def)

abbreviation service_with :: "mtask \<Rightarrow> task_service" where
  "service_with t \<equiv> NewTaskService (with_task t)"

lemma service_with_simps [simp]: "ts_repo (NewTaskService r) = r" "svc_ok (calm_env now) (service_with t)"
  by (simp_all add: NewTaskService_def svc_ok_def sample_coherent)

section \<open>Properties\<close>





text \<open>No task ever gets the status \<open>timeout\<close>.  The progress tracker tries to set it on a task that has run
  past its time limit, but the service's own transition table has no such target, so the
  update is refused and the task is no longer tracked.\<close>

theorem timeout_never_recorded:
  assumes "(service_step i tt)\<^sup>*\<^sup>* s s'" "coherent tt (ts_repo s)" "status_of i (ts_repo s) = Some a" "a \<noteq> ''timeout''"
  shows "status_of i (ts_repo s') \<noteq> Some ''timeout''"
proof -
  have "lifecycle\<^sup>*\<^sup>* a b \<Longrightarrow> b \<noteq> ''timeout''" for b
  proof (induction rule: rtranclp_induct)
    case (step y z)
    then show ?case using task_status.can_known [of y z] by (auto simp: lifecycle_def)
  qed (rule assms(4))
  then show ?thesis using service_run_follows [OF assms(1,2)] assms(3) by (auto simp: follows_def split: option.splits)
qed

theorem timeout_never_recorded_witness:
  "let t = (sample_task 7 ''in_progress'')\<lparr>tk_StartedAt := Some 0\<rparr>;
       s = (service_with t)\<lparr>ts_tracked := fmupd 7 0 fmempty\<rparr>; s' = checkProgress (calm_env (3600 * second)) s
   in status_of 7 (ts_repo s') \<noteq> Some ''timeout'' \<and> tk_TimeoutSeconds t = 60"
proof -
  let ?s = "(service_with ((sample_task 7 ''in_progress'')\<lparr>tk_StartedAt := Some 0\<rparr>))\<lparr>ts_tracked := fmupd 7 0 fmempty\<rparr>"
  have "(service_step 7 (\<lambda>x. ''''))\<^sup>*\<^sup>* ?s (checkProgress (calm_env (3600 * second)) ?s)"
    by (rule r_into_rtranclp, rule handler [of "calm_env (3600 * second)"]) auto
  from timeout_never_recorded [OF this, of "''in_progress''"] show ?thesis
    by (simp add: Let_def sample_coherent) (simp add: status_of_def live_def sample_task_def)
qed

end
