(* ===== verification/Redis_Spec.thy ===== *)
theory Redis_Spec
  imports Prelude "HOL-Library.Sublist"
begin

text \<open>
  What the program relies on of a Redis server.  The server and its client library are not part of
  the repository: a server is the record \<open>redis\<close> of the commands the code issues, over a state of
  any type, and \<open>redis_server\<close> states the documented behaviour of these commands in terms of the
  entries the state stands for, each a value with the instant it expires at.

  A command gets the instant at which the server runs it.  A command that reports an error may
  have been carried out or not, since the reply may be what was lost.  The time to live is
  exact for whole milliseconds, and zero means that the key does not expire; of any other time to
  live only that the value is stored is relied on.
\<close>

section \<open>Commands and entries\<close>

record ('v, 's) redis =
  rd_Get :: "go_time \<Rightarrow> string \<Rightarrow> 's \<Rightarrow> string + 'v option"
  rd_SetNX :: "go_time \<Rightarrow> string \<Rightarrow> 'v \<Rightarrow> duration \<Rightarrow> 's \<Rightarrow> (string + bool) \<times> 's"
  rd_Set :: "go_time \<Rightarrow> string \<Rightarrow> 'v \<Rightarrow> duration \<Rightarrow> 's \<Rightarrow> string option \<times> 's"
  rd_Del :: "go_time \<Rightarrow> string \<Rightarrow> 's \<Rightarrow> string option \<times> 's"
  rd_Keys :: "go_time \<Rightarrow> string \<Rightarrow> 's \<Rightarrow> string + string list"

type_synonym 'v entries = "string \<Rightarrow> ('v \<times> go_time option) option"

definition unexpired :: "go_time \<Rightarrow> go_time option \<Rightarrow> bool" where
  "unexpired now dl = (case dl of None \<Rightarrow> True | Some t \<Rightarrow> now < t)"

definition entry :: "go_time \<Rightarrow> 'v entries \<Rightarrow> string \<Rightarrow> ('v \<times> go_time option) option" where
  "entry now m k = (case m k of None \<Rightarrow> None | Some (v, dl) \<Rightarrow> if unexpired now dl then Some (v, dl) else None)"

definition deadline :: "go_time \<Rightarrow> duration \<Rightarrow> go_time option" where
  "deadline now ttl = (if ttl = 0 then None else Some (now + ttl))"

definition whole :: "duration \<Rightarrow> bool" where
  "whole ttl \<longleftrightarrow> 0 \<le> ttl \<and> ttl mod millisecond = 0"

lemma whole_units [simp]: "whole (5 * minute)" "whole (30 * minute)" "0 \<le> n \<Longrightarrow> whole (n * second)" "whole 0"
  by (simp_all add: whole_def time_units)

lemma unexpired_simps [simp]: "unexpired now None" "unexpired now (Some t) \<longleftrightarrow> now < t"
  by (simp_all add: unexpired_def)

lemma entry_Some: "entry now m k = Some (v, dl) \<longleftrightarrow> m k = Some (v, dl) \<and> unexpired now dl"
  by (auto simp: entry_def split: option.splits)

lemma entry_None: "entry now m k = None \<longleftrightarrow> (\<forall>v dl. m k = Some (v, dl) \<longrightarrow> \<not> unexpired now dl)"
  by (auto simp: entry_def split: option.splits)

section \<open>The contract\<close>

locale redis_server =
  fixes rd :: "('v, 's) redis"
    and ent :: "'s \<Rightarrow> 'v entries"
  assumes Get: "rd_Get rd now k s = Inr found \<Longrightarrow> found = map_option fst (entry now (ent s) k)"
    and SetNX_frame: "k' \<noteq> k \<Longrightarrow> ent (snd (rd_SetNX rd now k v ttl s)) k' = ent s k'"
    and SetNX_taken: "entry now (ent s) k \<noteq> None \<Longrightarrow>
      ent (snd (rd_SetNX rd now k v ttl s)) = ent s \<and> fst (rd_SetNX rd now k v ttl s) \<noteq> Inr True"
    and SetNX_free: "entry now (ent s) k = None \<Longrightarrow> whole ttl \<Longrightarrow>
      fst (rd_SetNX rd now k v ttl s) \<noteq> Inr False \<and>
      (if fst (rd_SetNX rd now k v ttl s) = Inr True
       then ent (snd (rd_SetNX rd now k v ttl s)) k = Some (v, deadline now ttl)
       else ent (snd (rd_SetNX rd now k v ttl s)) k \<in> {ent s k, Some (v, deadline now ttl)})"
    and Set_frame: "k' \<noteq> k \<Longrightarrow> ent (snd (rd_Set rd now k v ttl s)) k' = ent s k'"
    and Set_value: "whole ttl \<Longrightarrow>
      (if fst (rd_Set rd now k v ttl s) = None
       then ent (snd (rd_Set rd now k v ttl s)) k = Some (v, deadline now ttl)
       else ent (snd (rd_Set rd now k v ttl s)) k \<in> {ent s k, Some (v, deadline now ttl)})"
    and Set_stores: "ent (snd (rd_Set rd now k v ttl s)) k = ent s k \<and> fst (rd_Set rd now k v ttl s) \<noteq> None
      \<or> (\<exists>dl. ent (snd (rd_Set rd now k v ttl s)) k = Some (v, dl))"
    and Del_frame: "k' \<noteq> k \<Longrightarrow> ent (snd (rd_Del rd now k s)) k' = ent s k'"
    and Del_value: "if fst (rd_Del rd now k s) = None then ent (snd (rd_Del rd now k s)) k = None
       else ent (snd (rd_Del rd now k s)) k \<in> {ent s k, None}"
    and Keys: "rd_Keys rd now p s = Inr ks \<Longrightarrow> set ks = {k. prefix p k \<and> entry now (ent s) k \<noteq> None}"
begin

lemma SetNX_cases:
  assumes "whole ttl"
  shows "ent (snd (rd_SetNX rd now k v ttl s)) k \<in> {ent s k, Some (v, deadline now ttl)}"
  using SetNX_taken [of now s k v ttl] SetNX_free [OF _ assms, of now s k v]
  by (cases "entry now (ent s) k = None") (auto split: if_splits)

lemma Set_cases: "whole ttl \<Longrightarrow> ent (snd (rd_Set rd now k v ttl s)) k \<in> {ent s k, Some (v, deadline now ttl)}"
  using Set_value [of ttl now k v s] by (auto split: if_splits)

lemma Del_cases: "ent (snd (rd_Del rd now k s)) k \<in> {ent s k, None}"
  using Del_value [of now k s] by (auto split: if_splits)

lemma SetNX_success:
  assumes "fst (rd_SetNX rd now k v ttl s) = Inr True" "whole ttl"
  shows "entry now (ent s) k = None \<and> ent (snd (rd_SetNX rd now k v ttl s)) k = Some (v, deadline now ttl)"
  using SetNX_taken [of now s k v ttl] SetNX_free [OF _ assms(2), of now s k v] assms(1)
  by (cases "entry now (ent s) k") auto

end

section \<open>A server\<close>

text \<open>A server whose commands never fail: the entries themselves, with every command carried out.\<close>

definition mem_redis :: "('v, (string, 'v \<times> go_time option) fmap) redis" where
  "mem_redis = \<lparr>
     rd_Get = (\<lambda>now k s. Inr (map_option fst (entry now (fmlookup s) k))),
     rd_SetNX = (\<lambda>now k v ttl s. if entry now (fmlookup s) k = None
        then (Inr True, fmupd k (v, deadline now ttl) s) else (Inr False, s)),
     rd_Set = (\<lambda>now k v ttl s. (None, fmupd k (v, deadline now ttl) s)),
     rd_Del = (\<lambda>now k s. (None, fmdrop k s)),
     rd_Keys = (\<lambda>now p s. Inr (filter (\<lambda>k. prefix p k \<and> entry now (fmlookup s) k \<noteq> None) (map fst (go_range s))))\<rparr>"

lemma mem_redis_simps [simp]:
  "rd_Get mem_redis now k s = Inr (map_option fst (entry now (fmlookup s) k))"
  "rd_SetNX mem_redis now k v ttl s = (if entry now (fmlookup s) k = None
     then (Inr True, fmupd k (v, deadline now ttl) s) else (Inr False, s))"
  "rd_Set mem_redis now k v ttl s = (None, fmupd k (v, deadline now ttl) s)"
  "rd_Del mem_redis now k s = (None, fmdrop k s)"
  "rd_Keys mem_redis now p s = Inr (filter (\<lambda>k. prefix p k \<and> entry now (fmlookup s) k \<noteq> None) (map fst (go_range s)))"
  by (simp_all add: mem_redis_def)

lemma entry_in_range: "entry now (fmlookup s) k \<noteq> None \<Longrightarrow> k \<in> fst ` set (go_range s)"
  by (cases "fmlookup s k") (force simp: entry_def set_go_range [symmetric])+

interpretation mem: redis_server mem_redis fmlookup
  by unfold_locales (auto intro: entry_in_range)

end
