(* ===== verification/Document_Locks.thy ===== *)
theory Document_Locks
  imports Redis_Spec Json_Values Uuid_Text
begin

text \<open>
  The document lock service of \<open>pkg/services/document_lock_service.go\<close>: locks on documents and on
  sections of documents, kept in Redis and refreshed in the background by the instance that took
  them.

  The Redis server is the argument \<open>rd\<close> (\<open>Redis_Spec\<close>).  What is stored under a key is the JSON
  text of a lock: a constructor for the two types that are marshalled, and \<open>as_lock\<close> and \<open>as_section\<close>
  for unmarshalling either of them.  An operation reads the clock once, \<open>le_now\<close>.  The operations that
  read an entry first and write it later are composed of two definitions, so that what other
  clients do in between can be put there.
\<close>

section \<open>Model: data\<close>

record document_lock =
  lk_ID :: string
  lk_DocumentID :: uuid
  lk_AgentID :: string
  lk_Type :: string
  lk_AcquiredAt :: go_time
  lk_ExpiresAt :: go_time
  lk_RefreshCount :: int
  lk_Metadata :: "(string, gval) fmap option"

record section_lock = document_lock +
  sl_SectionID :: string
  sl_StartOffset :: int
  sl_EndOffset :: int

datatype lock_json = LockJson document_lock | SectionJson section_lock

fun as_lock :: "lock_json \<Rightarrow> document_lock" where
  "as_lock (LockJson l) = l"
| "as_lock (SectionJson l) = document_lock.truncate l"

fun as_section :: "lock_json \<Rightarrow> section_lock" where
  "as_section (LockJson l) = document_lock.extend l (section_lock.fields '''' 0 0)"
| "as_section (SectionJson l) = l"

datatype lock_error =
    LockWrap string string
  | LockRedis string
  | LockConflictError uuid string go_time
  | UnauthorizedLockError uuid string string
  | LockNotFoundError uuid
  | LockRefreshLimitError uuid int int
  | SectionLockConflictError uuid string string
  | LockNew string

record lock_env =
  le_now :: go_time
  le_uuid :: uuid
  le_host :: string
  le_pid :: int

record 's lock_service =
  ls_redis :: 's
  ls_active :: "(string, document_lock) fmap"

type_synonym 's locks = "(lock_json, 's) redis"

definition defaultTTL :: duration where "defaultTTL = 5 * minute"
definition maxRefreshCount :: int where "maxRefreshCount = 10"
definition refreshInterval :: duration where "refreshInterval = 30 * second"
definition maxLockDuration :: duration where "maxLockDuration = 30 * minute"

definition lock_key :: "uuid \<Rightarrow> string" where "lock_key d = ''doc:lock:'' @ uuid_String d"
definition section_prefix :: "uuid \<Rightarrow> string" where "section_prefix d = ''doc:section:'' @ uuid_String d @ '':''"
definition section_key :: "uuid \<Rightarrow> string \<Rightarrow> string" where "section_key d sec = section_prefix d @ sec"

section \<open>Model: helpers\<close>

text \<open>\<open>json.Marshal\<close>: the numbers of the metadata are floats when they are read again.\<close>

definition marshal :: "document_lock \<Rightarrow> lock_json" where
  "marshal l = LockJson (l\<lparr>lk_Metadata := map_option (json_map (\<lambda>t. '''')) (lk_Metadata l)\<rparr>)"

definition getLock :: "'s locks \<Rightarrow> go_time \<Rightarrow> string \<Rightarrow> 's \<Rightarrow> string + document_lock option" where
  "getLock rd now key r = map_sum id (map_option as_lock) (rd_Get rd now key r)"

text \<open>
  The Lua script: on an existing entry it compares the current second with
  \<open>tonumber(lock.expires_at)\<close>, which is nil since the field is the text of an instant, and Lua
  does not compare a number with nil.  \<open>SET \<dots> EX\<close> wants a positive number of seconds.
\<close>

definition tryAcquireExpiredLock ::
  "'s locks \<Rightarrow> go_time \<Rightarrow> string \<Rightarrow> document_lock \<Rightarrow> duration \<Rightarrow> 's \<Rightarrow> string option \<times> 's" where
  "tryAcquireExpiredLock rd now key newLock dur r =
     (case rd_Get rd now key r of
        Inl e \<Rightarrow> (Some e, r)
      | Inr None \<Rightarrow>
          (if dur < second then (Some ''ERR invalid expire time in 'set' command'', r)
           else rd_Set rd now key (marshal newLock) ((dur div second) * second) r)
      | Inr (Some current) \<Rightarrow> (Some ''attempt to compare nil with number'', r))"

definition startAutoRefresh :: "document_lock \<Rightarrow> 's lock_service \<Rightarrow> 's lock_service" where
  "startAutoRefresh l s = s\<lparr>ls_active := fmupd (lk_ID l) l (ls_active s)\<rparr>"

definition stopAutoRefresh :: "string \<Rightarrow> 's lock_service \<Rightarrow> 's lock_service" where
  "stopAutoRefresh i s = s\<lparr>ls_active := fmdrop i (ls_active s)\<rparr>"

section \<open>Model: locks on documents\<close>

definition new_lock :: "lock_env \<Rightarrow> uuid \<Rightarrow> string \<Rightarrow> string \<Rightarrow> duration \<Rightarrow> document_lock" where
  "new_lock en d agent ty dur =
     \<lparr>lk_ID = uuid_String (le_uuid en), lk_DocumentID = d, lk_AgentID = agent, lk_Type = ty,
      lk_AcquiredAt = le_now en, lk_ExpiresAt = le_now en + dur, lk_RefreshCount = 0, lk_Metadata = None\<rparr>"

definition host_metadata :: "lock_env \<Rightarrow> (string, gval) fmap" where
  "host_metadata en = fmap_of_list [(''host'', VStr (le_host en)), (''pid'', VInt (le_pid en))]"

definition lock_duration :: "duration \<Rightarrow> duration" where
  "lock_duration dur =
     (let dur = (if maxLockDuration < dur then maxLockDuration else dur)
      in if dur = 0 then defaultTTL else dur)"

definition LockDocument ::
  "'s locks \<Rightarrow> lock_env \<Rightarrow> uuid \<Rightarrow> string \<Rightarrow> duration \<Rightarrow> 's lock_service \<Rightarrow>
     (lock_error + document_lock) \<times> 's lock_service" where
  "LockDocument rd en d agent dur s =
     (let now = le_now en;
          dur = lock_duration dur;
          lock = (new_lock en d agent ''exclusive'' dur)\<lparr>lk_Metadata := Some (host_metadata en)\<rparr>;
          key = lock_key d;
          (res, r) = rd_SetNX rd now key (marshal lock) dur (ls_redis s);
          s = s\<lparr>ls_redis := r\<rparr>
      in case res of
           Inl e \<Rightarrow> (Inl (LockWrap ''failed to acquire lock'' e), s)
         | Inr True \<Rightarrow> (Inr lock, startAutoRefresh lock s)
         | Inr False \<Rightarrow>
             (case getLock rd now key (ls_redis s) of
                Inl e \<Rightarrow> (Inl (LockWrap ''failed to get existing lock'' e), s)
              | Inr None \<Rightarrow> (Inl (LockConflictError d ''unknown'' (now + dur)), s)
              | Inr (Some existing) \<Rightarrow>
                  if lk_ExpiresAt existing < now then
                    (let (err, r) = tryAcquireExpiredLock rd now key lock dur (ls_redis s);
                         s = s\<lparr>ls_redis := r\<rparr>
                     in case err of
                          Some e \<Rightarrow> (Inl (LockRedis e), s)
                        | None \<Rightarrow> (Inr lock, startAutoRefresh lock s))
                  else (Inl (LockConflictError d (lk_AgentID existing) (lk_ExpiresAt existing)), s)))"

text \<open>\<open>UnlockDocument\<close>: the lock is read and its owner compared, and then the key is deleted.\<close>

definition unlock_read ::
  "'s locks \<Rightarrow> lock_env \<Rightarrow> uuid \<Rightarrow> string \<Rightarrow> 's lock_service \<Rightarrow> lock_error option + string" where
  "unlock_read rd en d agent s =
     (case getLock rd (le_now en) (lock_key d) (ls_redis s) of
        Inl e \<Rightarrow> Inl (Some (LockWrap ''failed to get lock'' e))
      | Inr None \<Rightarrow> Inl None
      | Inr (Some cur) \<Rightarrow>
          if lk_AgentID cur \<noteq> agent then Inl (Some (UnauthorizedLockError d agent (lk_AgentID cur)))
          else Inr (lk_ID cur))"

definition unlock_write ::
  "'s locks \<Rightarrow> lock_env \<Rightarrow> uuid \<Rightarrow> string \<Rightarrow> 's lock_service \<Rightarrow> lock_error option \<times> 's lock_service" where
  "unlock_write rd en d lockID s =
     (let s = stopAutoRefresh lockID s; (err, r) = rd_Del rd (le_now en) (lock_key d) (ls_redis s)
      in (map_option (LockWrap ''failed to delete lock'') err, s\<lparr>ls_redis := r\<rparr>))"

definition UnlockDocument ::
  "'s locks \<Rightarrow> lock_env \<Rightarrow> uuid \<Rightarrow> string \<Rightarrow> 's lock_service \<Rightarrow> lock_error option \<times> 's lock_service" where
  "UnlockDocument rd en d agent s =
     (case unlock_read rd en d agent s of Inl e \<Rightarrow> (e, s) | Inr i \<Rightarrow> unlock_write rd en d i s)"

text \<open>\<open>ExtendLock\<close>: the lock is read and checked, and then written back with a new expiry.\<close>

definition extend_read ::
  "'s locks \<Rightarrow> lock_env \<Rightarrow> uuid \<Rightarrow> string \<Rightarrow> 's lock_service \<Rightarrow> lock_error + document_lock" where
  "extend_read rd en d agent s =
     (case getLock rd (le_now en) (lock_key d) (ls_redis s) of
        Inl e \<Rightarrow> Inl (LockWrap ''failed to get lock'' e)
      | Inr None \<Rightarrow> Inl (LockNotFoundError d)
      | Inr (Some cur) \<Rightarrow>
          if lk_AgentID cur \<noteq> agent then Inl (UnauthorizedLockError d agent (lk_AgentID cur))
          else if maxRefreshCount \<le> lk_RefreshCount cur
          then Inl (LockRefreshLimitError d (lk_RefreshCount cur) maxRefreshCount)
          else Inr cur)"

definition extend_write ::
  "'s locks \<Rightarrow> lock_env \<Rightarrow> uuid \<Rightarrow> document_lock \<Rightarrow> duration \<Rightarrow> 's lock_service \<Rightarrow>
     lock_error option \<times> 's lock_service" where
  "extend_write rd en d cur ext s =
     (let cur = cur\<lparr>lk_ExpiresAt := le_now en + ext, lk_RefreshCount := lk_RefreshCount cur + 1\<rparr>;
          (err, r) = rd_Set rd (le_now en) (lock_key d) (marshal cur) ext (ls_redis s)
      in (map_option (LockWrap ''failed to extend lock'') err, s\<lparr>ls_redis := r\<rparr>))"

definition ExtendLock ::
  "'s locks \<Rightarrow> lock_env \<Rightarrow> uuid \<Rightarrow> string \<Rightarrow> duration \<Rightarrow> 's lock_service \<Rightarrow>
     lock_error option \<times> 's lock_service" where
  "ExtendLock rd en d agent ext s =
     (let ext = (if maxLockDuration < ext then maxLockDuration else ext)
      in case extend_read rd en d agent s of
           Inl e \<Rightarrow> (Some e, s)
         | Inr cur \<Rightarrow> extend_write rd en d cur ext s)"

definition IsDocumentLocked ::
  "'s locks \<Rightarrow> lock_env \<Rightarrow> uuid \<Rightarrow> 's lock_service \<Rightarrow> (string + document_lock option) \<times> 's lock_service" where
  "IsDocumentLocked rd en d s =
     (case getLock rd (le_now en) (lock_key d) (ls_redis s) of
        Inl e \<Rightarrow> (Inl e, s)
      | Inr None \<Rightarrow> (Inr None, s)
      | Inr (Some lock) \<Rightarrow>
          if lk_ExpiresAt lock < le_now en
          then (Inr None, s\<lparr>ls_redis := snd (rd_Del rd (le_now en) (lock_key d) (ls_redis s))\<rparr>)
          else (Inr (Some lock), s))"

section \<open>Model: locks on sections\<close>

fun read_sections :: "'s locks \<Rightarrow> go_time \<Rightarrow> 's \<Rightarrow> string list \<Rightarrow> section_lock list" where
  "read_sections rd now r [] = []"
| "read_sections rd now r (key # keys) =
     (case rd_Get rd now key r of
        Inr (Some data) \<Rightarrow>
          (if now < lk_ExpiresAt (as_section data) then as_section data # read_sections rd now r keys
           else read_sections rd now r keys)
      | _ \<Rightarrow> read_sections rd now r keys)"

definition GetSectionLocks :: "'s locks \<Rightarrow> lock_env \<Rightarrow> uuid \<Rightarrow> 's lock_service \<Rightarrow> string + section_lock list" where
  "GetSectionLocks rd en d s =
     map_sum id (read_sections rd (le_now en) (ls_redis s)) (rd_Keys rd (le_now en) (section_prefix d) (ls_redis s))"

definition section_conflict :: "string \<Rightarrow> string \<Rightarrow> section_lock \<Rightarrow> bool" where
  "section_conflict sec agent l \<longleftrightarrow> sl_SectionID l = sec \<and> lk_AgentID l \<noteq> agent"

definition section_read ::
  "'s locks \<Rightarrow> lock_env \<Rightarrow> uuid \<Rightarrow> string \<Rightarrow> string \<Rightarrow> 's lock_service \<Rightarrow> lock_error option \<times> 's lock_service" where
  "section_read rd en d sec agent s =
     (let (res, s) = IsDocumentLocked rd en d s
      in case res of
           Inl e \<Rightarrow> (Some (LockRedis e), s)
         | Inr locked \<Rightarrow>
             (case locked of
                Some l \<Rightarrow>
                  if lk_Type l = ''exclusive'' \<and> lk_AgentID l \<noteq> agent
                  then Some (LockConflictError d (lk_AgentID l) (lk_ExpiresAt l)) else None
              | None \<Rightarrow> None, s))"

definition section_check ::
  "'s locks \<Rightarrow> lock_env \<Rightarrow> uuid \<Rightarrow> string \<Rightarrow> string \<Rightarrow> 's lock_service \<Rightarrow> lock_error option" where
  "section_check rd en d sec agent s =
     (case GetSectionLocks rd en d s of
        Inl e \<Rightarrow> Some (LockRedis e)
      | Inr existing \<Rightarrow>
          (case List.find (section_conflict sec agent) existing of
             Some l \<Rightarrow> Some (SectionLockConflictError d sec (lk_AgentID l))
           | None \<Rightarrow> None))"

definition section_write ::
  "'s locks \<Rightarrow> lock_env \<Rightarrow> uuid \<Rightarrow> string \<Rightarrow> string \<Rightarrow> duration \<Rightarrow> 's lock_service \<Rightarrow>
     (lock_error + section_lock) \<times> 's lock_service" where
  "section_write rd en d sec agent dur s =
     (let lock = new_lock en d agent ''section'' dur;
          sl = document_lock.extend lock (section_lock.fields sec 0 0);
          (err, r) = rd_Set rd (le_now en) (section_key d sec) (SectionJson sl) dur (ls_redis s);
          s = s\<lparr>ls_redis := r\<rparr>
      in case err of
           Some e \<Rightarrow> (Inl (LockWrap ''failed to acquire section lock'' e), s)
         | None \<Rightarrow> (Inr sl, startAutoRefresh lock s))"

definition LockSection ::
  "'s locks \<Rightarrow> lock_env \<Rightarrow> uuid \<Rightarrow> string \<Rightarrow> string \<Rightarrow> duration \<Rightarrow> 's lock_service \<Rightarrow>
     (lock_error + section_lock) \<times> 's lock_service" where
  "LockSection rd en d sec agent dur s =
     (let dur = (if dur = 0 then defaultTTL else dur);
          (err, s) = section_read rd en d sec agent s
      in case err of
           Some e \<Rightarrow> (Inl e, s)
         | None \<Rightarrow>
             (case section_check rd en d sec agent s of
                Some e \<Rightarrow> (Inl e, s)
              | None \<Rightarrow> section_write rd en d sec agent dur s))"

definition UnlockSection ::
  "'s locks \<Rightarrow> lock_env \<Rightarrow> uuid \<Rightarrow> string \<Rightarrow> string \<Rightarrow> 's lock_service \<Rightarrow> lock_error option \<times> 's lock_service" where
  "UnlockSection rd en d sec agent s =
     (case rd_Get rd (le_now en) (section_key d sec) (ls_redis s) of
        Inl e \<Rightarrow> (Some (LockRedis e), s)
      | Inr None \<Rightarrow> (None, s)
      | Inr (Some data) \<Rightarrow>
          if lk_AgentID (as_section data) \<noteq> agent
          then (Some (UnauthorizedLockError d agent (lk_AgentID (as_section data))), s)
          else
            let s = stopAutoRefresh (lk_ID (as_section data)) s;
                (err, r) = rd_Del rd (le_now en) (section_key d sec) (ls_redis s)
            in (map_option LockRedis err, s\<lparr>ls_redis := r\<rparr>))"

section \<open>Model: management of locks\<close>

fun read_locks :: "'s locks \<Rightarrow> go_time \<Rightarrow> 's \<Rightarrow> string list \<Rightarrow> document_lock list" where
  "read_locks rd now r [] = []"
| "read_locks rd now r (key # keys) =
     (case getLock rd now key r of
        Inr (Some l) \<Rightarrow> l # read_locks rd now r keys
      | _ \<Rightarrow> read_locks rd now r keys)"

definition GetActiveLocks :: "'s locks \<Rightarrow> lock_env \<Rightarrow> string \<Rightarrow> 's lock_service \<Rightarrow> string + document_lock list" where
  "GetActiveLocks rd en agent s =
     (let now = le_now en; mine = filter (\<lambda>l. lk_AgentID l = agent \<and> now < lk_ExpiresAt l)
      in case rd_Keys rd now ''doc:lock:'' (ls_redis s) of
           Inl e \<Rightarrow> Inl e
         | Inr docKeys \<Rightarrow>
             (case rd_Keys rd now ''doc:section:'' (ls_redis s) of
                Inl e \<Rightarrow> Inl e
              | Inr sectionKeys \<Rightarrow>
                  Inr (mine (read_locks rd now (ls_redis s) docKeys)
                       @ mine (read_locks rd now (ls_redis s) sectionKeys))))"

definition ReleaseAllLocks ::
  "'s locks \<Rightarrow> lock_env \<Rightarrow> string \<Rightarrow> 's lock_service \<Rightarrow> lock_error option \<times> 's lock_service" where
  "ReleaseAllLocks rd en agent s =
     (case GetActiveLocks rd en agent s of
        Inl e \<Rightarrow> (Some (LockRedis e), s)
      | Inr locks \<Rightarrow>
          (None, foldl (\<lambda>s l. if lk_Type l = ''section'' then s
                              else snd (UnlockDocument rd en (lk_DocumentID l) agent s)) s locks))"

definition refresh_one :: "'s locks \<Rightarrow> lock_env \<Rightarrow> 's lock_service \<Rightarrow> string \<times> document_lock \<Rightarrow> 's lock_service" where
  "refresh_one rd en s = (\<lambda>(i, l).
     if time_sub (lk_ExpiresAt l) (le_now en) < refreshInterval * 2 then
       (case ExtendLock rd en (lk_DocumentID l) (lk_AgentID l) defaultTTL s of
          (None, s) \<Rightarrow> s
        | (Some _, s) \<Rightarrow> s\<lparr>ls_active := fmdrop i (ls_active s)\<rparr>)
     else s)"

definition refreshActiveLocks :: "'s locks \<Rightarrow> lock_env \<Rightarrow> 's lock_service \<Rightarrow> 's lock_service" where
  "refreshActiveLocks rd en s = foldl (refresh_one rd en) s (go_range (ls_active s))"

end
