(* ===== verification/Lock_Guarantees.thy ===== *)
theory Lock_Guarantees
  imports Document_Locks
begin

text \<open>
  What the document lock service guarantees over any Redis server that keeps the contract
  \<open>redis_server\<close>, for any number of service instances: a lock excludes other agents until it
  expires, and no lock lives longer than its refreshes allow.  Both are shown for operations that
  run one after the other; \<open>unlock_race\<close> shows what happens when they interleave.
\<close>

section \<open>Instances of the service\<close>

text \<open>
  The operations as steps of one instance.  The second argument is the agent on whose behalf
  the step is made, and None for the ticker that refreshes locks.
\<close>

inductive lock_op :: "'s locks \<Rightarrow> lock_env \<Rightarrow> string option \<Rightarrow> 's lock_service \<Rightarrow> 's lock_service \<Rightarrow> bool" for rd en where
  lock: "whole dur \<Longrightarrow> lock_op rd en (Some b) s (snd (LockDocument rd en d b dur s))"
| unlock: "lock_op rd en (Some b) s (snd (UnlockDocument rd en d b s))"
| extend: "whole ext \<Longrightarrow> ext \<noteq> 0 \<Longrightarrow> lock_op rd en (Some b) s (snd (ExtendLock rd en d b ext s))"
| is_locked: "lock_op rd en (Some b) s (snd (IsDocumentLocked rd en d s))"
| lock_section: "lock_op rd en (Some b) s (snd (LockSection rd en d sec b dur s))"
| unlock_section: "lock_op rd en (Some b) s (snd (UnlockSection rd en d sec b s))"
| release_all: "lock_op rd en (Some b) s (snd (ReleaseAllLocks rd en b s))"
| refresh: "lock_op rd en None s (refreshActiveLocks rd en s)"

text \<open>Instances share the Redis server; each has its own table of locks to refresh.\<close>

record 's cluster =
  cl_redis :: 's
  cl_active :: "nat \<Rightarrow> (string, document_lock) fmap"

definition inst :: "nat \<Rightarrow> 's cluster \<Rightarrow> 's lock_service" where
  "inst n c = \<lparr>ls_redis = cl_redis c, ls_active = cl_active c n\<rparr>"

definition put :: "nat \<Rightarrow> 's lock_service \<Rightarrow> 's cluster \<Rightarrow> 's cluster" where
  "put n s c = \<lparr>cl_redis = ls_redis s, cl_active = (cl_active c)(n := ls_active s)\<rparr>"

lemma inst_simps [simp]: "ls_redis (inst n c) = cl_redis c" "ls_active (inst n c) = cl_active c n"
  "cl_redis (put n s c) = ls_redis s" "cl_active (put n s c) = (cl_active c)(n := ls_active s)"
  by (simp_all add: inst_def put_def)

inductive lock_step :: "'s locks \<Rightarrow> (lock_env \<Rightarrow> string option \<Rightarrow> bool) \<Rightarrow> 's cluster \<Rightarrow> 's cluster \<Rightarrow> bool" for rd ok where
  step: "lock_op rd en who (inst n c) s \<Longrightarrow> ok en who \<Longrightarrow> lock_step rd ok c (put n s c)"

section \<open>Keys\<close>

lemma lock_key_inj [simp]: "lock_key d = lock_key d' \<longleftrightarrow> d = d'"
  by (simp add: lock_key_def uuid_String_inj)

lemma section_key_not_lock [simp]: "section_key d sec \<noteq> lock_key d'" "lock_key d' \<noteq> section_key d sec"
  by (auto simp: section_key_def section_prefix_def lock_key_def)

lemma as_lock_marshal [simp]:
  "lk_AgentID (as_lock (marshal l)) = lk_AgentID l" "lk_ExpiresAt (as_lock (marshal l)) = lk_ExpiresAt l"
  "lk_RefreshCount (as_lock (marshal l)) = lk_RefreshCount l" "lk_AcquiredAt (as_lock (marshal l)) = lk_AcquiredAt l"
  "lk_ID (as_lock (marshal l)) = lk_ID l"
  by (simp_all add: marshal_def)

lemma new_lock_simps [simp]:
  "lk_AgentID (new_lock en d b ty dur) = b" "lk_ExpiresAt (new_lock en d b ty dur) = le_now en + dur"
  "lk_RefreshCount (new_lock en d b ty dur) = 0" "lk_AcquiredAt (new_lock en d b ty dur) = le_now en"
  "lk_DocumentID (new_lock en d b ty dur) = d"
  by (simp_all add: new_lock_def)

lemma refresh_services [simp]:
  "ls_redis (startAutoRefresh l s) = ls_redis s" "ls_redis (stopAutoRefresh i s) = ls_redis s"
  "ls_active (startAutoRefresh l s) = fmupd (lk_ID l) l (ls_active s)"
  "ls_active (stopAutoRefresh i s) = fmdrop i (ls_active s)"
  by (simp_all add: startAutoRefresh_def stopAutoRefresh_def)

lemma lock_duration_bounds: "whole dur \<Longrightarrow> whole (lock_duration dur) \<and> 0 < lock_duration dur \<and> lock_duration dur \<le> maxLockDuration"
  by (auto simp: lock_duration_def Let_def maxLockDuration_def defaultTTL_def whole_def time_units)

section \<open>Effect of the operations\<close>

text \<open>
  What a step may do to an entry: \<open>touches K\<close> says that only the entries with a key in \<open>K\<close> change,
  and \<open>adds P\<close> that the locks added to the refresh table satisfy \<open>P\<close>.
\<close>

definition touches :: "('s \<Rightarrow> lock_json entries) \<Rightarrow> string set \<Rightarrow> 's lock_service \<Rightarrow> 's lock_service \<Rightarrow> bool" where
  "touches ent K s s' \<longleftrightarrow> (\<forall>k. k \<notin> K \<longrightarrow> ent (ls_redis s') k = ent (ls_redis s) k)"

definition adds :: "(document_lock \<Rightarrow> bool) \<Rightarrow> 's lock_service \<Rightarrow> 's lock_service \<Rightarrow> bool" where
  "adds P s s' \<longleftrightarrow> (\<forall>i l. fmlookup (ls_active s') i = Some l \<longrightarrow> fmlookup (ls_active s) i = Some l \<or> P l)"

lemma touches_refl [simp]: "touches ent K s s" and adds_refl [simp]: "adds P s s"
  by (simp_all add: touches_def adds_def)

lemma adds_simps [simp]:
  "adds P s (s'\<lparr>ls_redis := r\<rparr>) = adds P s s'" "adds P (s\<lparr>ls_redis := r\<rparr>) s' = adds P s s'"
  "adds P s (stopAutoRefresh i s)" "adds P s (s\<lparr>ls_active := fmdrop i (ls_active s)\<rparr>)"
  by (auto simp: adds_def)

lemma adds_start: "P l \<Longrightarrow> adds P s s' \<Longrightarrow> adds P s (startAutoRefresh l s')"
  by (auto simp: adds_def)

lemma adds_trans: "adds P s u \<Longrightarrow> adds P u v \<Longrightarrow> adds P s v"
  by (auto simp: adds_def)

lemma adds_mono: "adds P s s' \<Longrightarrow> (\<And>l. P l \<Longrightarrow> Q l) \<Longrightarrow> adds Q s s'"
  by (auto simp: adds_def)

lemma Lock_adds: "adds (\<lambda>l. lk_AgentID l = b) s (snd (LockDocument rd en d b dur s))"
  by (auto simp: LockDocument_def Let_def split_beta intro!: adds_start split: sum.split option.split bool.split)

lemma Unlock_adds [simp]: "adds P s (snd (UnlockDocument rd en d b s))"
  by (auto simp: UnlockDocument_def unlock_write_def Let_def split_beta split: sum.split)

lemma Extend_adds [simp]: "adds P s (snd (ExtendLock rd en d b ext s))"
  by (auto simp: ExtendLock_def extend_write_def Let_def split_beta split: sum.split)

lemma Is_adds [simp]: "adds P s (snd (IsDocumentLocked rd en d s))"
  by (auto simp: IsDocumentLocked_def split: sum.split option.split)

lemma LockSection_adds: "adds (\<lambda>l. lk_AgentID l = b) s (snd (LockSection rd en d sec b dur s))"
proof -
  have "adds (\<lambda>l. lk_AgentID l = b) s (snd (section_read rd en d sec b s))"
    by (simp add: section_read_def Let_def split_beta split: sum.split)
  then show ?thesis
    by (auto simp: LockSection_def section_write_def Let_def split_beta intro!: adds_start split: option.split)
qed

lemma UnlockSection_adds [simp]: "adds P s (snd (UnlockSection rd en d sec b s))"
  by (auto simp: UnlockSection_def Let_def split_beta split: sum.split option.split)

lemma Release_adds [simp]: "adds P s (snd (ReleaseAllLocks rd en b s))"
proof -
  have "adds P s (foldl (\<lambda>s l. if lk_Type l = ''section'' then s
      else snd (UnlockDocument rd en (lk_DocumentID l) b s)) s ls)" for ls
    by (induction ls arbitrary: s) (auto intro: adds_trans [OF Unlock_adds])
  then show ?thesis by (cases "GetActiveLocks rd en b s") (simp_all only: ReleaseAllLocks_def sum.case snd_conv adds_refl)
qed

section \<open>Exclusion, over any server\<close>

text \<open>A server that keeps the texts of locks.\<close>

locale lock_store = redis_server rd ent for rd :: "'s locks" and ent :: "'s \<Rightarrow> lock_json entries"
begin

lemma getLock_entry: "getLock rd now k r = Inr x \<Longrightarrow> x = map_option (as_lock \<circ> fst) (entry now (ent r) k)"
  using Get [of now k r] by (auto simp: getLock_def option.map_comp map_sum_def split: sum.splits)

lemma Lock_touches: "touches ent {lock_key d} s (snd (LockDocument rd en d b dur s))"
  by (auto simp: touches_def LockDocument_def tryAcquireExpiredLock_def Let_def split_beta SetNX_frame Set_frame
      split: sum.split option.split bool.split)

lemma Unlock_touches: "touches ent {lock_key d} s (snd (UnlockDocument rd en d b s))"
  by (auto simp: touches_def UnlockDocument_def unlock_write_def Let_def split_beta Del_frame split: sum.split)

lemma Extend_touches: "touches ent {lock_key d} s (snd (ExtendLock rd en d b ext s))"
  by (auto simp: touches_def ExtendLock_def extend_write_def Let_def split_beta Set_frame split: sum.split)

lemma Is_touches: "touches ent {lock_key d} s (snd (IsDocumentLocked rd en d s))"
  by (auto simp: touches_def IsDocumentLocked_def Del_frame split: sum.split option.split)

lemma UnlockSection_touches: "touches ent {section_key d sec} s (snd (UnlockSection rd en d sec b s))"
  by (auto simp: touches_def UnlockSection_def Let_def split_beta Del_frame split: sum.split option.split)

text \<open>An attempt to lock a document whose key exists fails, expired or not, and leaves the entry as it is.\<close>

lemma Lock_taken:
  assumes "entry (le_now en) (ent (ls_redis s)) (lock_key d) \<noteq> None"
  shows "isl (fst (LockDocument rd en d b dur s)) \<and>
    ent (ls_redis (snd (LockDocument rd en d b dur s))) = ent (ls_redis s)"
proof -
  let ?l = "(new_lock en d b ''exclusive'' (lock_duration dur))\<lparr>lk_Metadata := Some (host_metadata en)\<rparr>"
  obtain res r where eq: "rd_SetNX rd (le_now en) (lock_key d) (marshal ?l) (lock_duration dur) (ls_redis s) = (res, r)"
    by fastforce
  from SetNX_taken [OF assms, of "marshal ?l" "lock_duration dur"] eq
  have r: "ent r = ent (ls_redis s)" "res \<noteq> Inr True" by auto
  have "tryAcquireExpiredLock rd (le_now en) (lock_key d) ?l (lock_duration dur) r =
      (Some ''attempt to compare nil with number'', r)" if "getLock rd (le_now en) (lock_key d) r = Inr (Some x)" for x
    using that by (auto simp: getLock_def tryAcquireExpiredLock_def map_sum_def split: sum.splits)
  then show ?thesis using r eq
    by (auto simp: LockDocument_def Let_def split: sum.split option.split bool.split)
qed

lemma Lock_success:
  assumes "fst (LockDocument rd en d b dur s) = Inr l" "whole dur"
  shows "l = (new_lock en d b ''exclusive'' (lock_duration dur))\<lparr>lk_Metadata := Some (host_metadata en)\<rparr>"
    and "ent (ls_redis (snd (LockDocument rd en d b dur s))) (lock_key d) =
      Some (marshal l, Some (lk_ExpiresAt l))"
proof -
  let ?l = "(new_lock en d b ''exclusive'' (lock_duration dur))\<lparr>lk_Metadata := Some (host_metadata en)\<rparr>"
  obtain res r where eq: "rd_SetNX rd (le_now en) (lock_key d) (marshal ?l) (lock_duration dur) (ls_redis s) = (res, r)"
    by fastforce
  have free: "entry (le_now en) (ent (ls_redis s)) (lock_key d) = None" 
    using Lock_taken [of en s d b dur] assms(1) by (cases "entry (le_now en) (ent (ls_redis s)) (lock_key d)") auto
  have dur: "whole (lock_duration dur)" "0 < lock_duration dur" using lock_duration_bounds [OF assms(2)] by auto
  have "res = Inr True" using SetNX_free [OF free dur(1), of "marshal ?l"] eq assms(1)
    by (cases res) (auto simp: LockDocument_def Let_def)
  with eq assms(1) SetNX_free [OF free dur(1), of "marshal ?l"] dur(2)
  show "l = ?l" "ent (ls_redis (snd (LockDocument rd en d b dur s))) (lock_key d) = Some (marshal l, Some (lk_ExpiresAt l))"
    by (auto simp: LockDocument_def Let_def deadline_def)
qed

text \<open>Agent \<open>a\<close> holds document \<open>d\<close> at least until \<open>T\<close>.\<close>

definition held :: "uuid \<Rightarrow> string \<Rightarrow> go_time \<Rightarrow> 's \<Rightarrow> bool" where
  "held d a T r \<longleftrightarrow> (\<exists>j dl. ent r (lock_key d) = Some (j, dl) \<and> lk_AgentID (as_lock j) = a
     \<and> T \<le> lk_ExpiresAt (as_lock j) \<and> (\<forall>t. dl = Some t \<longrightarrow> T \<le> t))"

lemma held_entry:
  "held d a T r \<Longrightarrow> now < T \<Longrightarrow> \<exists>j dl. entry now (ent r) (lock_key d) = Some (j, dl) \<and> lk_AgentID (as_lock j) = a
     \<and> T \<le> lk_ExpiresAt (as_lock j)"
  by (force simp: held_def entry_Some unexpired_def split: option.split)

lemma held_getLock:
  assumes "held d a T r" "now < T" "getLock rd now (lock_key d) r = Inr x"
  obtains l where "x = Some l" "lk_AgentID l = a" "T \<le> lk_ExpiresAt l"
  using held_entry [OF assms(1,2)] getLock_entry [OF assms(3)] by auto

lemma held_touches: "touches ent K s s' \<Longrightarrow> lock_key d \<notin> K \<Longrightarrow> held d a T (ls_redis s') = held d a T (ls_redis s)"
  by (simp add: touches_def held_def)

text \<open>Operations on behalf of other agents before \<open>T\<close> leave the holder alone.\<close>

lemma held_Lock: "held d a T (ls_redis s) \<Longrightarrow> le_now en < T \<Longrightarrow> held d a T (ls_redis (snd (LockDocument rd en d' b dur s)))"
proof (cases "d' = d")
  case True
  assume h: "held d a T (ls_redis s)" "le_now en < T"
  from held_entry [OF this] have "entry (le_now en) (ent (ls_redis s)) (lock_key d') \<noteq> None" by (auto simp: True)
  from Lock_taken [OF this] h show ?thesis by (simp add: held_def)
qed (simp add: held_touches [OF Lock_touches])

lemma held_Unlock:
  assumes "held d a T (ls_redis s)" "le_now en < T" "b \<noteq> a"
  shows "held d a T (ls_redis (snd (UnlockDocument rd en d' b s)))"
proof (cases "d' = d")
  case True
  have "isl (unlock_read rd en d b s)"
    using assms(3) by (cases "getLock rd (le_now en) (lock_key d) (ls_redis s)")
      (auto simp: unlock_read_def elim: held_getLock [OF assms(1,2)])
  with assms(1) True show ?thesis by (auto simp: UnlockDocument_def isl_def)
qed (use assms in \<open>simp add: held_touches [OF Unlock_touches]\<close>)

lemma held_Extend_other:
  assumes "held d a T (ls_redis s)" "le_now en < T" "b \<noteq> a"
  shows "held d a T (ls_redis (snd (ExtendLock rd en d' b ext s)))"
proof (cases "d' = d")
  case True
  have "isl (extend_read rd en d b s)"
    using assms(3) by (cases "getLock rd (le_now en) (lock_key d) (ls_redis s)")
      (auto simp: extend_read_def elim: held_getLock [OF assms(1,2)])
  with assms(1) True show ?thesis by (auto simp: ExtendLock_def isl_def)
qed (use assms in \<open>simp add: held_touches [OF Extend_touches]\<close>)

lemma held_Is:
  assumes "held d a T (ls_redis s)" "le_now en < T"
  shows "held d a T (ls_redis (snd (IsDocumentLocked rd en d' s)))"
proof (cases "d' = d")
  case True
  have "snd (IsDocumentLocked rd en d s) = s"
    using assms(2) by (cases "getLock rd (le_now en) (lock_key d) (ls_redis s)")
      (auto simp: IsDocumentLocked_def elim: held_getLock [OF assms])
  with assms(1) True show ?thesis by simp
qed (use assms in \<open>simp add: held_touches [OF Is_touches]\<close>)

lemma held_LockSection:
  assumes "held d a T (ls_redis s)" "le_now en < T"
  shows "held d a T (ls_redis (snd (LockSection rd en d' sec b dur s)))"
proof -
  have "snd (section_read rd en d' sec b s) = snd (IsDocumentLocked rd en d' s)"
    by (simp add: section_read_def Let_def split_beta split: sum.split)
  moreover have "touches ent {section_key d' sec} u (snd (section_write rd en d' sec b x u))" for u x
    by (auto simp: touches_def section_write_def Let_def split_beta Set_frame split: option.split)
  then have "held d a T (ls_redis u) \<Longrightarrow> held d a T (ls_redis (snd (section_write rd en d' sec b x u)))" for u x
    by (subst held_touches) auto
  ultimately show ?thesis using held_Is [OF assms, of d']
    by (simp add: LockSection_def Let_def split_beta split: option.split)
qed

lemma held_Release:
  assumes "held d a T (ls_redis s)" "le_now en < T" "b \<noteq> a"
  shows "held d a T (ls_redis (snd (ReleaseAllLocks rd en b s)))"
proof -
  have "held d a T (ls_redis (foldl (\<lambda>s l. if lk_Type l = ''section'' then s
      else snd (UnlockDocument rd en (lk_DocumentID l) b s)) s ls))" for ls
    using assms(1) by (induction ls arbitrary: s) (simp_all add: held_Unlock [OF _ assms(2,3)])
  then show ?thesis using assms(1)
    by (cases "GetActiveLocks rd en b s") (simp_all only: ReleaseAllLocks_def sum.case snd_conv)
qed

text \<open>
  The ticker: a lock of agent \<open>a\<close> on \<open>d\<close> in the refresh table does not expire before \<open>T\<close>, so
  it is refreshed only when five minutes from now are later than \<open>T\<close>.
\<close>

definition no_stale :: "uuid \<Rightarrow> string \<Rightarrow> go_time \<Rightarrow> (string, document_lock) fmap \<Rightarrow> bool" where
  "no_stale d a T m \<longleftrightarrow> (\<forall>i l. fmlookup m i = Some l \<longrightarrow> lk_DocumentID l = d \<longrightarrow> lk_AgentID l = a \<longrightarrow> T \<le> lk_ExpiresAt l)"

lemma no_stale_adds:
  "adds P s s' \<Longrightarrow> no_stale d a T (ls_active s) \<Longrightarrow> (\<And>l. P l \<Longrightarrow> lk_AgentID l \<noteq> a) \<Longrightarrow> no_stale d a T (ls_active s')"
  unfolding adds_def no_stale_def by blast

lemma held_Extend_own:
  assumes "held d a T (ls_redis s)" "le_now en < T" "T \<le> le_now en + defaultTTL"
  shows "held d a T (ls_redis (snd (ExtendLock rd en d a defaultTTL s)))"
proof (cases "extend_read rd en d a s")
  case (Inr cur)
  then have cur: "lk_AgentID cur = a" by (auto simp: extend_read_def split: sum.splits option.splits if_splits)
  let ?cur = "cur\<lparr>lk_ExpiresAt := le_now en + defaultTTL, lk_RefreshCount := lk_RefreshCount cur + 1\<rparr>"
  have w: "whole defaultTTL" "defaultTTL \<noteq> 0" "\<not> maxLockDuration < defaultTTL"
    by (simp_all add: defaultTTL_def maxLockDuration_def time_units whole_def)
  have "held d a T (snd (rd_Set rd (le_now en) (lock_key d) (marshal ?cur) defaultTTL (ls_redis s)))"
    using Set_cases [OF w(1), of "le_now en" "lock_key d" "marshal ?cur" "ls_redis s"] assms(1,3) cur w(2)
    by (auto simp: held_def deadline_def)
  with Inr w(3) show ?thesis by (simp add: ExtendLock_def extend_write_def Let_def split_beta)
qed (use assms(1) in \<open>simp add: ExtendLock_def Let_def\<close>)

lemma held_refresh_one:
  assumes "held d a T (ls_redis s)" "le_now en < T"
    and "lk_DocumentID l = d \<Longrightarrow> lk_AgentID l = a \<Longrightarrow> T \<le> lk_ExpiresAt l"
  shows "held d a T (ls_redis (refresh_one rd en s (i, l)))"
proof (cases "time_sub (lk_ExpiresAt l) (le_now en) < refreshInterval * 2")
  case True
  have late: "T \<le> le_now en + defaultTTL" if "lk_DocumentID l = d" "lk_AgentID l = a"
    using True assms(3) [OF that] by (auto simp: time_sub_def refreshInterval_def defaultTTL_def time_units)
  have "held d a T (ls_redis (snd (ExtendLock rd en (lk_DocumentID l) (lk_AgentID l) defaultTTL s)))"
  proof (cases "lk_DocumentID l = d \<and> lk_AgentID l = a")
    case True
    then show ?thesis using held_Extend_own [OF assms(1,2) late] by simp
  next
    case False
    then show ?thesis
      using held_Extend_other [OF assms(1,2), of "lk_AgentID l"] assms(1)
        held_touches [OF Extend_touches, of d "lk_DocumentID l"] by (cases "lk_AgentID l = a") auto
  qed
  with True show ?thesis by (auto simp: refresh_one_def split: prod.split option.split)
qed (use assms(1) in \<open>simp add: refresh_one_def\<close>)

lemma held_refresh_fold:
  assumes "held d a T (ls_redis s)" "le_now en < T"
    and "\<forall>x \<in> set xs. lk_DocumentID (snd x) = d \<longrightarrow> lk_AgentID (snd x) = a \<longrightarrow> T \<le> lk_ExpiresAt (snd x)"
  shows "held d a T (ls_redis (foldl (refresh_one rd en) s xs))"
  using assms
proof (induction xs arbitrary: s)
  case (Cons x xs)
  have "held d a T (ls_redis (refresh_one rd en s x))"
    using held_refresh_one [OF Cons.prems(1,2), of "snd x" "fst x"] Cons.prems(3) by simp
  then show ?case using Cons.IH [of "refresh_one rd en s x"] Cons.prems(2,3) by simp
qed simp

lemma held_refresh:
  assumes "held d a T (ls_redis s)" "le_now en < T" "no_stale d a T (ls_active s)"
  shows "held d a T (ls_redis (refreshActiveLocks rd en s))"
  unfolding refreshActiveLocks_def
  by (rule held_refresh_fold [OF assms(1,2)]) (use assms(3) in \<open>auto simp: no_stale_def set_go_range\<close>)

lemma refresh_adds: "adds P s (refreshActiveLocks rd en s)"
proof -
  have "adds P u (refresh_one rd en u x)" for u x
  proof -
    obtain i l where x: "x = (i, l)" by fastforce
    obtain e v where v: "ExtendLock rd en (lk_DocumentID l) (lk_AgentID l) defaultTTL u = (e, v)" by fastforce
    with Extend_adds [of P u rd en "lk_DocumentID l" "lk_AgentID l" defaultTTL] have "adds P u v" by simp
    then show ?thesis by (cases e) (auto simp: refresh_one_def x v adds_def)
  qed
  then have "adds P u (foldl (refresh_one rd en) u xs)" for u xs
    by (induction xs arbitrary: u) (simp, unfold foldl_Cons, blast intro: adds_trans)
  then show ?thesis by (simp add: refreshActiveLocks_def)
qed

lemma held_op:
  assumes "lock_op rd en who s s'" "held d a T (ls_redis s)" "no_stale d a T (ls_active s)" "le_now en < T" "who \<noteq> Some a"
  shows "held d a T (ls_redis s') \<and> no_stale d a T (ls_active s')"
  using assms
proof cases
  case (unlock_section b d' sec)
  then show ?thesis using assms(2,3) held_touches [OF UnlockSection_touches]
    by (auto intro: no_stale_adds [OF UnlockSection_adds [of "\<lambda>_. False"]])
qed (auto intro: held_Lock held_Unlock held_Extend_other held_Is held_LockSection held_Release held_refresh
      no_stale_adds [OF Lock_adds] no_stale_adds [OF LockSection_adds] no_stale_adds [OF Unlock_adds [of "\<lambda>_. False"]]
      no_stale_adds [OF Extend_adds [of "\<lambda>_. False"]] no_stale_adds [OF Is_adds [of "\<lambda>_. False"]]
      no_stale_adds [OF Release_adds [of "\<lambda>_. False"]] no_stale_adds [OF refresh_adds [of "\<lambda>_. False"]])

lemma held_run:
  assumes "(lock_step rd (\<lambda>en who. le_now en < T \<and> who \<noteq> Some a))\<^sup>*\<^sup>* c c'"
    and "held d a T (cl_redis c)" "\<forall>n. no_stale d a T (cl_active c n)"
  shows "held d a T (cl_redis c') \<and> (\<forall>n. no_stale d a T (cl_active c' n))"
  using assms
proof (induction rule: rtranclp_induct)
  case (step y z)
  from step.hyps(2) show ?case
  proof cases
    case (step en who n s)
    with held_op [OF step(2), of d a T] local.step.IH assms(2,3) show ?thesis by auto
  qed
qed simp

lemma excluded:
  assumes "fst (LockDocument rd en d a dur (inst n c)) = Inr l" "whole dur"
    and "\<forall>m i x. fmlookup (cl_active c m) i = Some x \<longrightarrow> lk_DocumentID x = d \<longrightarrow> lk_AgentID x \<noteq> a"
    and "(lock_step rd (\<lambda>en who. le_now en < lk_ExpiresAt l \<and> who \<noteq> Some a))\<^sup>*\<^sup>*
           (put n (snd (LockDocument rd en d a dur (inst n c))) c) c'"
    and "le_now en' < lk_ExpiresAt l"
  shows "isl (fst (LockDocument rd en' d b dur' (inst m c')))"
proof -
  let ?s = "snd (LockDocument rd en d a dur (inst n c))" and ?T = "lk_ExpiresAt l"
  note l = Lock_success [OF assms(1,2)]
  have "lk_AgentID l = a" by (subst l(1)) simp
  then have h: "held d a ?T (cl_redis (put n ?s c))" using l(2) by (simp add: held_def)
  have "adds (\<lambda>x. x = l) (inst n c) ?s"
    using assms(1) by (auto simp: LockDocument_def Let_def split_beta intro!: adds_start split: sum.split option.split bool.split)
  then have "no_stale d a ?T (cl_active (put n ?s c) k)" for k
    using assms(3) by (fastforce simp: no_stale_def adds_def)
  with held_run [OF assms(4) h] have "held d a ?T (cl_redis c')" by blast
  from held_entry [OF this assms(5)] Lock_taken [of en' "inst m c'" d b dur'] show ?thesis by auto
qed

section \<open>How long a lock lives\<close>

definition fresh_lock :: "lock_json \<times> go_time option \<Rightarrow> bool" where
  "fresh_lock = (\<lambda>(j, dl). let l = as_lock j in
     (\<exists>t. dl = Some t \<and> t \<le> lk_ExpiresAt l) \<and> 0 \<le> lk_RefreshCount l \<and> lk_RefreshCount l \<le> maxRefreshCount
     \<and> lk_ExpiresAt l \<le> lk_AcquiredAt l + (lk_RefreshCount l + 1) * maxLockDuration)"

definition locks_ok :: "'s \<Rightarrow> bool" where
  "locks_ok r \<longleftrightarrow> (\<forall>d e. ent r (lock_key d) = Some e \<longrightarrow> fresh_lock e)"

lemma locks_ok_touches:
  assumes "touches ent {lock_key d} s s'" "locks_ok (ls_redis s)"
    and "ent (ls_redis s') (lock_key d) \<in> {ent (ls_redis s) (lock_key d), None} \<or> (\<exists>e. ent (ls_redis s') (lock_key d) = Some e \<and> fresh_lock e)"
  shows "locks_ok (ls_redis s')"
  unfolding locks_ok_def
proof (intro allI impI)
  fix d' e
  assume e: "ent (ls_redis s') (lock_key d') = Some e"
  show "fresh_lock e"
    using assms e by (cases e, cases "d' = d") (auto simp: touches_def locks_ok_def)
qed

lemma fresh_new:
  assumes "whole dur" "t \<le> lock_duration dur"
  shows "fresh_lock (marshal ((new_lock en d b ty (lock_duration dur))\<lparr>lk_Metadata := Some (host_metadata en)\<rparr>), Some (le_now en + t))"
  using lock_duration_bounds [OF assms(1)] assms(2) by (simp add: fresh_lock_def maxRefreshCount_def)

lemma ok_Lock:
  assumes "locks_ok (ls_redis s)" "whole dur"
  shows "locks_ok (ls_redis (snd (LockDocument rd en d b dur s)))"
proof (rule locks_ok_touches [where d = d, OF Lock_touches assms(1)])
  let ?l = "(new_lock en d b ''exclusive'' (lock_duration dur))\<lparr>lk_Metadata := Some (host_metadata en)\<rparr>"
  let ?n = "rd_SetNX rd (le_now en) (lock_key d) (marshal ?l) (lock_duration dur) (ls_redis s)"
  have w: "whole (lock_duration dur)" "lock_duration dur \<noteq> 0" using lock_duration_bounds [OF assms(2)] by auto
  have nx: "ent (snd ?n) (lock_key d) \<in> {ent (ls_redis s) (lock_key d), Some (marshal ?l, Some (le_now en + lock_duration dur))}"
    using SetNX_cases [OF w(1), of "le_now en" "lock_key d" "marshal ?l" "ls_redis s"] w(2) by (simp add: deadline_def)
  have "ent (ls_redis (snd (LockDocument rd en d b dur s))) = ent (snd ?n)"
  proof -
    have "snd (tryAcquireExpiredLock rd (le_now en) (lock_key d) ?l (lock_duration dur) r) = r"
      if "getLock rd (le_now en) (lock_key d) r = Inr (Some x)" for x r
      using that by (auto simp: getLock_def tryAcquireExpiredLock_def map_sum_def split: sum.splits)
    then show ?thesis
      by (auto simp: LockDocument_def Let_def split_beta split: sum.split option.split bool.split)
  qed
  with nx fresh_new [OF assms(2) order_refl, of en d b "''exclusive''"]
  show "ent (ls_redis (snd (LockDocument rd en d b dur s))) (lock_key d) \<in> {ent (ls_redis s) (lock_key d), None} \<or>
      (\<exists>e. ent (ls_redis (snd (LockDocument rd en d b dur s))) (lock_key d) = Some e \<and> fresh_lock e)" by auto
qed

lemma ok_Unlock: "locks_ok (ls_redis s) \<Longrightarrow> locks_ok (ls_redis (snd (UnlockDocument rd en d b s)))"
  by (rule locks_ok_touches [where d = d, OF Unlock_touches])
    (use Del_cases [of "le_now en" "lock_key d" "ls_redis s"] in
      \<open>auto simp: UnlockDocument_def unlock_write_def Let_def split_beta split: sum.split\<close>)

lemma ok_Is: "locks_ok (ls_redis s) \<Longrightarrow> locks_ok (ls_redis (snd (IsDocumentLocked rd en d s)))"
  by (rule locks_ok_touches [where d = d, OF Is_touches])
    (use Del_cases [of "le_now en" "lock_key d" "ls_redis s"] in
      \<open>auto simp: IsDocumentLocked_def split: sum.split option.split\<close>)

lemma extend_read_fresh:
  assumes "extend_read rd en d b s = Inr cur" "locks_ok (ls_redis s)"
  shows "le_now en < lk_ExpiresAt cur" "0 \<le> lk_RefreshCount cur" "lk_RefreshCount cur < maxRefreshCount"
    "lk_ExpiresAt cur \<le> lk_AcquiredAt cur + (lk_RefreshCount cur + 1) * maxLockDuration"
proof -
  from assms(1) have g: "getLock rd (le_now en) (lock_key d) (ls_redis s) = Inr (Some cur)"
    and m: "lk_RefreshCount cur < maxRefreshCount"
    by (auto simp: extend_read_def split: sum.splits option.splits if_splits)
  from getLock_entry [OF g] obtain j dl where "entry (le_now en) (ent (ls_redis s)) (lock_key d) = Some (j, dl)" "cur = as_lock j"
    by (cases "entry (le_now en) (ent (ls_redis s)) (lock_key d)") auto
  with assms(2) have "fresh_lock (j, dl)" "unexpired (le_now en) dl" by (auto simp: entry_Some locks_ok_def)
  with m \<open>cur = as_lock j\<close> show "le_now en < lk_ExpiresAt cur" "0 \<le> lk_RefreshCount cur" "lk_RefreshCount cur < maxRefreshCount"
    "lk_ExpiresAt cur \<le> lk_AcquiredAt cur + (lk_RefreshCount cur + 1) * maxLockDuration"
    by (auto simp: fresh_lock_def Let_def)
qed

lemma ok_Extend:
  assumes "locks_ok (ls_redis s)" "whole ext" "ext \<noteq> 0"
  shows "locks_ok (ls_redis (snd (ExtendLock rd en d b ext s)))"
proof (cases "extend_read rd en d b s")
  case (Inr cur)
  let ?ext = "if maxLockDuration < ext then maxLockDuration else ext"
  let ?cur = "cur\<lparr>lk_ExpiresAt := le_now en + ?ext, lk_RefreshCount := lk_RefreshCount cur + 1\<rparr>"
  have w: "whole ?ext" "?ext \<noteq> 0" "?ext \<le> maxLockDuration"
    using assms(2,3) by (auto simp: maxLockDuration_def whole_def time_units)
  have "fresh_lock (marshal ?cur, Some (le_now en + ?ext))"
    using extend_read_fresh [OF Inr assms(1)] w(3) by (simp add: fresh_lock_def Let_def algebra_simps)
  with Set_cases [OF w(1), of "le_now en" "lock_key d" "marshal ?cur" "ls_redis s"] w(2) Inr
  show ?thesis
    by (intro locks_ok_touches [where d = d, OF Extend_touches assms(1)])
      (auto simp: ExtendLock_def extend_write_def Let_def split_beta deadline_def)
qed (use assms(1) in \<open>simp add: ExtendLock_def Let_def\<close>)

lemma ok_section_key: "touches ent {section_key d sec} s s' \<Longrightarrow> locks_ok (ls_redis s) \<Longrightarrow> locks_ok (ls_redis s')"
  by (simp add: touches_def locks_ok_def)

lemma section_write_touches: "touches ent {section_key d sec} s (snd (section_write rd en d sec b dur s))"
  by (auto simp: touches_def section_write_def Let_def split_beta Set_frame split: option.split)

lemma ok_LockSection: "locks_ok (ls_redis s) \<Longrightarrow> locks_ok (ls_redis (snd (LockSection rd en d sec b dur s)))"
  using ok_Is [of s en d] ok_section_key [OF section_write_touches]
  by (simp add: LockSection_def section_read_def Let_def split_beta split: option.split sum.split)

lemma ok_Release: "locks_ok (ls_redis s) \<Longrightarrow> locks_ok (ls_redis (snd (ReleaseAllLocks rd en b s)))"
proof -
  assume ok: "locks_ok (ls_redis s)"
  have "locks_ok (ls_redis (foldl (\<lambda>s l. if lk_Type l = ''section'' then s
      else snd (UnlockDocument rd en (lk_DocumentID l) b s)) s ls))" for ls
    using ok by (induction ls arbitrary: s) (simp_all add: ok_Unlock)
  then show ?thesis using ok
    by (cases "GetActiveLocks rd en b s") (simp_all only: ReleaseAllLocks_def sum.case snd_conv)
qed

lemma refresh_one_redis:
  "ls_redis (refresh_one rd en s (i, l)) \<in>
     {ls_redis s, ls_redis (snd (ExtendLock rd en (lk_DocumentID l) (lk_AgentID l) defaultTTL s))}"
  by (auto simp: refresh_one_def split: prod.split option.split)

lemma ok_refresh: "locks_ok (ls_redis s) \<Longrightarrow> locks_ok (ls_redis (refreshActiveLocks rd en s))"
proof -
  have "whole defaultTTL" "defaultTTL \<noteq> 0" by (simp_all add: defaultTTL_def time_units whole_def)
  then have "locks_ok (ls_redis u) \<Longrightarrow> locks_ok (ls_redis (refresh_one rd en u x))" for u x
    using refresh_one_redis [of en u "fst x" "snd x"] ok_Extend by auto
  then have "locks_ok (ls_redis u) \<Longrightarrow> locks_ok (ls_redis (foldl (refresh_one rd en) u xs))" for u xs
    by (induction xs arbitrary: u) (simp, unfold foldl_Cons, blast)
  then show "locks_ok (ls_redis s) \<Longrightarrow> ?thesis" by (simp add: refreshActiveLocks_def)
qed

lemma ok_op: "lock_op rd en who s s' \<Longrightarrow> locks_ok (ls_redis s) \<Longrightarrow> locks_ok (ls_redis s')"
  by (induction rule: lock_op.induct)
    (auto intro: ok_Lock ok_Unlock ok_Extend ok_Is ok_LockSection ok_Release ok_refresh
      ok_section_key [OF UnlockSection_touches])

lemma ok_run: "(lock_step rd ok)\<^sup>*\<^sup>* c c' \<Longrightarrow> locks_ok (cl_redis c) \<Longrightarrow> locks_ok (cl_redis c')"
proof (induction rule: rtranclp_induct)
  case (step y z)
  from step.hyps(2) step.IH [OF step.prems] show ?case by cases (auto dest: ok_op)
qed

lemma lifetime:
  assumes "(lock_step rd ok)\<^sup>*\<^sup>* c c'" "\<forall>k. ent (cl_redis c) k = None"
    and "getLock rd now (lock_key d) (cl_redis c') = Inr (Some l)"
  shows "lk_RefreshCount l \<in> {0..10} \<and> now < lk_ExpiresAt l \<and>
    lk_ExpiresAt l \<le> lk_AcquiredAt l + (lk_RefreshCount l + 1) * (30 * minute)"
proof -
  have "locks_ok (cl_redis c')" using ok_run [OF assms(1)] assms(2) by (simp add: locks_ok_def)
  moreover from getLock_entry [OF assms(3)] obtain j dl where
    "entry now (ent (cl_redis c')) (lock_key d) = Some (j, dl)" "l = as_lock j"
    by (cases "entry now (ent (cl_redis c')) (lock_key d)") auto
  ultimately have "fresh_lock (j, dl)" "unexpired now dl" "l = as_lock j" by (auto simp: entry_Some locks_ok_def)
  then show ?thesis by (auto simp: fresh_lock_def Let_def maxRefreshCount_def maxLockDuration_def)
qed

section \<open>Sections\<close>

text \<open>The ticker extends the lock on the document, also for a section: the entries of sections stay as they are.\<close>

lemma refresh_sections: "ent (ls_redis (refreshActiveLocks rd en s)) (section_key d sec) = ent (ls_redis s) (section_key d sec)"
proof -
  have "ent (ls_redis (refresh_one rd en u x)) (section_key d sec) = ent (ls_redis u) (section_key d sec)" for u x
    using refresh_one_redis [of en u "fst x" "snd x"] Extend_touches [of "lk_DocumentID (snd x)" u en "lk_AgentID (snd x)" defaultTTL]
    by (auto simp: touches_def)
  then have "ent (ls_redis (foldl (refresh_one rd en) u xs)) (section_key d sec) = ent (ls_redis u) (section_key d sec)" for u xs
    by (induction xs arbitrary: u) simp_all
  then show ?thesis by (simp add: refreshActiveLocks_def)
qed

end

interpretation mem_locks: lock_store mem_redis fmlookup
  by unfold_locales

section \<open>Examples\<close>

definition sample_env :: "go_time \<Rightarrow> uuid \<Rightarrow> lock_env" where
  "sample_env now u = \<lparr>le_now = now, le_uuid = u, le_host = ''h'', le_pid = 1\<rparr>"

definition no_locks :: "(string, lock_json \<times> go_time option) fmap cluster" where
  "no_locks = \<lparr>cl_redis = fmempty, cl_active = (\<lambda>n. fmempty)\<rparr>"

lemma sample_env_simps [simp]: "le_now (sample_env now u) = now" "le_uuid (sample_env now u) = u"
  by (simp_all add: sample_env_def)

lemma no_locks_simps [simp]: "cl_redis no_locks = fmempty" "cl_active no_locks n = fmempty"
  by (simp_all add: no_locks_def)

lemma entry_fmupd [simp]:
  "entry now (fmlookup (fmupd k e m)) k' = (if k' = k then (if unexpired now (snd e) then Some e else None)
     else entry now (fmlookup m) k')"
  "entry now (fmlookup fmempty) k = None"
  by (auto simp: entry_def split: prod.split)

lemma mem_Lock_free:
  assumes "entry (le_now en) (fmlookup (ls_redis s)) (lock_key d) = None"
  shows "LockDocument mem_redis en d b dur s =
    (let l = (new_lock en d b ''exclusive'' (lock_duration dur))\<lparr>lk_Metadata := Some (host_metadata en)\<rparr>
     in (Inr l, startAutoRefresh l (s\<lparr>ls_redis := fmupd (lock_key d)
           (marshal l, deadline (le_now en) (lock_duration dur)) (ls_redis s)\<rparr>)))"
  using assms by (simp add: LockDocument_def Let_def)

section \<open>Properties\<close>

text \<open>C11 A lock excludes: once \<open>LockDocument\<close> has returned a lock to an agent, and as long as its time has
  not run out, every attempt to lock the document fails, on every instance and for every agent,
  whatever operations other agents make in between and however often the tickers run.  No
  instance must still be refreshing an earlier lock of the same agent on the document.\<close>

theorem lock_excludes:
  assumes "lock_store rd ent" "fst (LockDocument rd en d a dur (inst n c)) = Inr l" "whole dur"
    and "\<forall>m i x. fmlookup (cl_active c m) i = Some x \<longrightarrow> lk_DocumentID x = d \<longrightarrow> lk_AgentID x \<noteq> a"
    and "(lock_step rd (\<lambda>en who. le_now en < lk_ExpiresAt l \<and> who \<noteq> Some a))\<^sup>*\<^sup>*
           (put n (snd (LockDocument rd en d a dur (inst n c))) c) c'"
    and "le_now en' < lk_ExpiresAt l"
  shows "isl (fst (LockDocument rd en' d b dur' (inst m c')))"
  by (rule lock_store.excluded [OF assms])

theorem lock_excludes_witness:
  "let a = LockDocument mem_redis (sample_env 0 1) 7 ''x'' minute (inst 0 no_locks);
       c = put 0 (snd a) no_locks;
       c' = put 1 (snd (UnlockDocument mem_redis (sample_env second 2) 7 ''y'' (inst 1 c))) c
   in \<not> isl (fst a) \<and> isl (fst (LockDocument mem_redis (sample_env (2 * second) 3) 7 ''y'' minute (inst 1 c')))"
proof -
  let ?a = "LockDocument mem_redis (sample_env 0 1) 7 ''x'' minute (inst 0 no_locks)"
  let ?c = "put 0 (snd ?a) no_locks"
  let ?s = "snd (UnlockDocument mem_redis (sample_env second 2) 7 ''y'' (inst 1 ?c))"
  have free: "entry (le_now (sample_env 0 1)) (fmlookup (ls_redis (inst 0 no_locks))) (lock_key 7) = None" by simp
  define l where "l = (new_lock (sample_env 0 1) 7 ''x'' ''exclusive'' minute)\<lparr>lk_Metadata := Some (host_metadata (sample_env 0 1))\<rparr>"
  have a: "fst ?a = Inr l"
    by (simp add: mem_Lock_free [OF free] l_def Let_def lock_duration_def maxLockDuration_def time_units)
  have T: "lk_ExpiresAt l = minute" by (simp add: l_def)
  have "(lock_step mem_redis (\<lambda>en who. le_now en < lk_ExpiresAt l \<and> who \<noteq> Some ''x''))\<^sup>*\<^sup>* ?c (put 1 ?s ?c)"
    by (rule r_into_rtranclp, rule lock_step.step [where who = "Some ''y''"], rule unlock) (simp add: T time_units)
  from lock_excludes [OF mem_locks.lock_store_axioms a _ _ this, of "sample_env (2 * second) 3" "''y''" minute 1]
  show ?thesis using a by (simp add: Let_def T) (simp add: whole_def time_units)
qed



text \<open>\<open>UnlockDocument\<close> reads the lock and deletes the key in two commands.  When the lock expires and
  another agent takes the document in between, the deletion removes the other agent's lock, and
  a third agent can lock the document too.\<close>

theorem unlock_race:
  assumes "lock_store rd ent" "unlock_read rd en d a s = Inr i"
    and "fst (LockDocument rd en1 d b dur s1) = Inr l"
    and "fst (unlock_write rd en2 d i (snd (LockDocument rd en1 d b dur s1))) = None"
    and "whole dur'"
  shows "\<exists>l'. fst (LockDocument rd en3 d b' dur' (snd (unlock_write rd en2 d i (snd (LockDocument rd en1 d b dur s1)))))
      \<in> {Inr l'} \<union> range (Inl \<circ> LockWrap ''failed to acquire lock'')"
proof -
  let ?s = "snd (unlock_write rd en2 d i (snd (LockDocument rd en1 d b dur s1)))"
  have "entry (le_now en3) (ent (ls_redis ?s)) (lock_key d) = None"
    using redis_server.Del_value [OF lock_store.axioms [OF assms(1)], of "le_now en2" "lock_key d"
        "ls_redis (snd (LockDocument rd en1 d b dur s1))"] assms(4)
    by (simp add: entry_def unlock_write_def Let_def split_beta split: if_splits)
  from redis_server.SetNX_free [OF lock_store.axioms [OF assms(1)] this] lock_duration_bounds [OF assms(5)]
  have "fst (rd_SetNX rd (le_now en3) (lock_key d) v (lock_duration dur') (ls_redis ?s)) \<noteq> Inr False" for v by blast
  then show ?thesis
    by (auto simp: LockDocument_def Let_def split_beta split: sum.split bool.split)
qed

theorem unlock_race_witness:
  "let s = snd (LockDocument mem_redis (sample_env 0 1) 7 ''x'' minute (inst 0 no_locks));
       i = uuid_String 1;
       t = LockDocument mem_redis (sample_env (61 * second) 2) 7 ''y'' minute s;
       u = unlock_write mem_redis (sample_env (62 * second) 3) 7 i (snd t)
   in unlock_read mem_redis (sample_env (59 * second) 3) 7 ''x'' s = Inr i \<and>
      (\<exists>l. fst t = Inr l \<and> 63 * second < lk_ExpiresAt l) \<and>
      (\<exists>l. fst (LockDocument mem_redis (sample_env (63 * second) 4) 7 ''z'' minute (snd u)) = Inr l)"
proof -
  let ?s = "snd (LockDocument mem_redis (sample_env 0 1) 7 ''x'' minute (inst 0 no_locks))"
  let ?t = "LockDocument mem_redis (sample_env (61 * second) 2) 7 ''y'' minute ?s"
  let ?u = "unlock_write mem_redis (sample_env (62 * second) 3) 7 (uuid_String 1) (snd ?t)"
  have free: "entry (le_now (sample_env 0 1)) (fmlookup (ls_redis (inst 0 no_locks))) (lock_key 7) = None" by simp
  have dur: "lock_duration minute = minute" by (simp add: lock_duration_def maxLockDuration_def time_units)
  have s: "entry now (fmlookup (ls_redis ?s)) (lock_key 7) = (if now < minute then Some (marshal
      ((new_lock (sample_env 0 1) 7 ''x'' ''exclusive'' minute)\<lparr>lk_Metadata := Some (host_metadata (sample_env 0 1))\<rparr>),
      Some minute) else None)" for now
    by (simp add: mem_Lock_free [OF free] Let_def dur deadline_def) (simp add: time_units)
  have read: "unlock_read mem_redis (sample_env (59 * second) 3) 7 ''x'' ?s = Inr (uuid_String 1)"
    by (simp add: unlock_read_def getLock_def s) (simp add: time_units new_lock_def)
  have free2: "entry (le_now (sample_env (61 * second) 2)) (fmlookup (ls_redis ?s)) (lock_key 7) = None"
    by (simp add: s) (simp add: time_units)
  have t: "\<exists>l. fst ?t = Inr l \<and> 63 * second < lk_ExpiresAt l"
    by (simp add: mem_Lock_free [OF free2] Let_def dur) (simp add: time_units)
  then obtain l where l: "fst ?t = Inr l" by blast
  have u: "fst ?u = None" by (simp add: unlock_write_def Let_def split_beta)
  have z: "entry (le_now (sample_env (63 * second) 4)) (fmlookup (ls_redis (snd ?u))) (lock_key 7) = None"
    by (simp add: unlock_write_def Let_def split_beta entry_def)
  have "isl (fst (LockDocument mem_redis (sample_env (63 * second) 4) 7 ''z'' minute (snd ?u))) = False"
    by (simp add: mem_Lock_free [OF z] Let_def)
  with unlock_race [OF mem_locks.lock_store_axioms read l u, of minute "sample_env (63 * second) 4" "''z''"] read t
  show ?thesis unfolding Let_def by (fastforce simp: whole_def minute_def second_def millisecond_def)
qed

text \<open>The ticker never prolongs the lock on a section: for a section it extends the lock on the whole
  document, and the section's own entry stays as it is until it expires.\<close>

theorem section_never_refreshed:
  assumes "lock_store rd ent"
  shows "ent (ls_redis (refreshActiveLocks rd en s)) (section_key d sec) = ent (ls_redis s) (section_key d sec)"
  by (rule lock_store.refresh_sections [OF assms])

theorem section_never_refreshed_witness:
  "fmlookup (ls_redis (refreshActiveLocks mem_redis (sample_env 0 1) \<lparr>ls_redis = fmempty, ls_active = fmempty\<rparr>)) (section_key 7 ''s'') = None"
  using section_never_refreshed [OF mem_locks.lock_store_axioms, of "sample_env 0 1" "\<lparr>ls_redis = fmempty, ls_active = fmempty\<rparr>" 7 "''s''"]
  by simp

text \<open>\<open>LockSection\<close> respects the locks on documents, but \<open>LockDocument\<close> does not look at sections: it gives
  one agent the whole document while another one holds a section of it.\<close>

theorem document_lock_ignores_sections:
  "let a = LockSection mem_redis (sample_env 0 1) 7 ''intro'' ''x'' minute (inst 0 no_locks);
       b = LockDocument mem_redis (sample_env second 2) 7 ''y'' minute (snd a)
   in \<not> isl (fst a) \<and> \<not> isl (fst b)"
proof -
  let ?a = "LockSection mem_redis (sample_env 0 1) 7 ''intro'' ''x'' minute (inst 0 no_locks)"
  have a: "?a = section_write mem_redis (sample_env 0 1) 7 ''intro'' ''x'' minute (inst 0 no_locks)"
    by (simp add: LockSection_def section_read_def section_check_def IsDocumentLocked_def getLock_def GetSectionLocks_def
        Let_def minute_def second_def)
  have free: "entry (le_now (sample_env second 2)) (fmlookup (ls_redis (snd ?a))) (lock_key 7) = None"
    by (simp add: a section_write_def Let_def)
  show ?thesis unfolding Let_def mem_Lock_free [OF free] by (simp add: a section_write_def Let_def)
qed

text \<open>The ticker goes by the expiry the lock had when it was acquired, and sets it to five minutes from
  now: a lock that its agent has extended for half an hour is cut to five minutes.\<close>

theorem refresh_shortens_extension:
  "let s = snd (LockDocument mem_redis (sample_env 0 1) 7 ''x'' minute (inst 0 no_locks));
       e = ExtendLock mem_redis (sample_env 0 2) 7 ''x'' (30 * minute) s;
       r = refreshActiveLocks mem_redis (sample_env (10 * second) 3) (snd e)
   in fst e = None \<and>
      (\<exists>l. getLock mem_redis (10 * second) (lock_key 7) (ls_redis (snd e)) = Inr (Some l) \<and> lk_ExpiresAt l = 30 * minute) \<and>
      (\<exists>l. getLock mem_redis (10 * second) (lock_key 7) (ls_redis r) = Inr (Some l) \<and> lk_ExpiresAt l = 5 * minute + 10 * second)"
proof -
  let ?l = "(new_lock (sample_env 0 1) 7 ''x'' ''exclusive'' minute)\<lparr>lk_Metadata := Some (host_metadata (sample_env 0 1))\<rparr>"
  let ?s = "\<lparr>ls_redis = fmupd (lock_key 7) (marshal ?l, Some minute) fmempty, ls_active = fmupd (uuid_String 1) ?l fmempty\<rparr>"
  have free: "entry (le_now (sample_env 0 1)) (fmlookup (ls_redis (inst 0 no_locks))) (lock_key 7) = None" by simp
  have s: "snd (LockDocument mem_redis (sample_env 0 1) 7 ''x'' minute (inst 0 no_locks)) = ?s"
    by (simp add: mem_Lock_free [OF free] Let_def lock_duration_def maxLockDuration_def deadline_def)
      (simp add: time_units inst_def startAutoRefresh_def new_lock_def)
  have ext: "ExtendLock mem_redis en 7 ''x'' x \<lparr>ls_redis = fmupd (lock_key 7) (j, Some dl) fmempty, ls_active = A\<rparr> =
      (None, \<lparr>ls_redis = fmupd (lock_key 7) (marshal ((as_lock j)\<lparr>lk_ExpiresAt := le_now en + x,
        lk_RefreshCount := lk_RefreshCount (as_lock j) + 1\<rparr>), Some (le_now en + x)) fmempty, ls_active = A\<rparr>)"
    if "le_now en < dl" "0 < x" "x \<le> 30 * minute" "lk_AgentID (as_lock j) = ''x''" "lk_RefreshCount (as_lock j) < 10" for en x j dl A
    using that by (simp add: ExtendLock_def extend_read_def extend_write_def getLock_def Let_def deadline_def
        maxLockDuration_def maxRefreshCount_def)
  have e: "ExtendLock mem_redis (sample_env 0 2) 7 ''x'' (30 * minute) ?s =
      (None, ?s\<lparr>ls_redis := fmupd (lock_key 7) (marshal ((as_lock (marshal ?l))\<lparr>lk_ExpiresAt := 30 * minute,
        lk_RefreshCount := 1\<rparr>), Some (30 * minute)) fmempty\<rparr>)"
    by (subst ext) (simp_all add: time_units)
  show ?thesis unfolding Let_def s e
    by (simp add: refreshActiveLocks_def refresh_one_def refreshInterval_def defaultTTL_def time_sub_def getLock_def)
      (simp add: time_units ext)
qed

end
