(* ===== verification/Retry_Policy.thy ===== *)
theory Retry_Policy
  imports Prelude Float64
begin

text \<open>
  The retry policies of \<open>pkg/retry/retry.go\<close> and the error classes of
  \<open>pkg/errors/classified_errors.go\<close>, which decide whether and after which delay an operation is tried
  again.

  A policy's loop is a partial function with the value None when it never returns.  What the loop
  sees of the outside are functions of the number of calls made: \<open>fn\<close> the error of a call,
  \<open>elapsed\<close> the time since the start, \<open>cerr\<close> the context's error when it is asked, \<open>wait\<close> the
  context's error when it ends the wait, \<open>rnd\<close> the random number of the jitter.  The result is
  the error, the number of calls and the delays.  A value of \<open>*ClassifiedError\<close> is a record;
  an error that wraps another one shares its metadata map with it in the code and has a copy here.
\<close>

section \<open>Model: policies\<close>

record retry_policy_config =
  rp_InitialInterval :: duration
  rp_MaxInterval :: duration
  rp_MaxElapsedTime :: duration
  rp_Multiplier :: rat
  rp_MaxRetries :: int

definition NewExponentialBackoff :: "retry_policy_config \<Rightarrow> retry_policy_config" where
  "NewExponentialBackoff c =
     (let c = (if rp_InitialInterval c \<le> 0 then c\<lparr>rp_InitialInterval := 100 * millisecond\<rparr> else c);
          c = (if rp_MaxInterval c \<le> 0 then c\<lparr>rp_MaxInterval := 30 * second\<rparr> else c);
          c = (if rp_MaxElapsedTime c \<le> 0 then c\<lparr>rp_MaxElapsedTime := 5 * minute\<rparr> else c);
          c = (if rp_Multiplier c \<le> 1 then c\<lparr>rp_Multiplier := 2\<rparr> else c)
      in if rp_MaxRetries c \<le> 0 then c\<lparr>rp_MaxRetries := 10\<rparr> else c)"

text \<open>
  \<open>NextDelay\<close>.  The power is an argument: \<open>math.Pow\<close> promises no exact result.  A product that
  overflows to infinity is capped like any other that exceeds the largest interval.
\<close>

definition backoff :: "(rat \<Rightarrow> rat \<Rightarrow> rat) \<Rightarrow> retry_policy_config \<Rightarrow> int \<Rightarrow> rat" where
  "backoff pow c attempt =
     (let delay = f64_mul (f64_of_int (rp_InitialInterval c)) (pow (rp_Multiplier c) (f64_of_int (attempt - 1)))
      in if f64_of_int (rp_MaxInterval c) < delay then f64_of_int (rp_MaxInterval c) else delay)"

definition NextDelay :: "int \<Rightarrow> (rat \<Rightarrow> rat \<Rightarrow> rat) \<Rightarrow> retry_policy_config \<Rightarrow> rat \<Rightarrow> int \<Rightarrow> duration" where
  "NextDelay ovf pow c u attempt =
     (let delay = backoff pow c attempt;
          jitter = f64_mul (f64_mul delay (f64_round (1 / 5))) (f64_sub (f64_mul u 2) 1)
      in f64_to_int64 ovf (f64_add delay jitter))"

partial_function (option) backoff_loop ::
  "(nat \<Rightarrow> duration) \<Rightarrow> retry_policy_config \<Rightarrow> (nat \<Rightarrow> string option) \<Rightarrow> (nat \<Rightarrow> duration) \<Rightarrow>
     (nat \<Rightarrow> string option) \<Rightarrow> (nat \<Rightarrow> string option) \<Rightarrow> nat \<Rightarrow> (string option \<times> nat \<times> duration list) option" where
  "backoff_loop delay c fn elapsed cerr wait attempt =
     (case fn attempt of
        None \<Rightarrow> Some (None, Suc attempt, [])
      | Some err \<Rightarrow>
          (if 0 < rp_MaxRetries c \<and> rp_MaxRetries c \<le> int (Suc attempt) then Some (Some err, Suc attempt, [])
           else if rp_MaxElapsedTime c \<le> elapsed (Suc attempt) then Some (Some err, Suc attempt, [])
           else case cerr (Suc attempt) of
             Some e \<Rightarrow> Some (Some e, Suc attempt, [])
           | None \<Rightarrow>
               (case wait (Suc attempt) of
                  Some e \<Rightarrow> Some (Some e, Suc attempt, [])
                | None \<Rightarrow> Option.bind (backoff_loop delay c fn elapsed cerr wait (Suc attempt))
                    (\<lambda>(e, n, ds). Some (e, n, delay (Suc attempt) # ds)))))"

definition eb_Execute ::
  "int \<Rightarrow> (rat \<Rightarrow> rat \<Rightarrow> rat) \<Rightarrow> retry_policy_config \<Rightarrow> (nat \<Rightarrow> rat) \<Rightarrow> (nat \<Rightarrow> string option) \<Rightarrow> (nat \<Rightarrow> duration) \<Rightarrow>
     (nat \<Rightarrow> string option) \<Rightarrow> (nat \<Rightarrow> string option) \<Rightarrow> (string option \<times> nat \<times> duration list) option" where
  "eb_Execute ovf pow c rnd fn elapsed cerr wait =
     backoff_loop (\<lambda>n. NextDelay ovf pow c (rnd n) (int n)) c fn elapsed cerr wait 0"

partial_function (option) fixed_loop ::
  "duration \<Rightarrow> int \<Rightarrow> (nat \<Rightarrow> string option) \<Rightarrow> (nat \<Rightarrow> string option) \<Rightarrow> (nat \<Rightarrow> string option) \<Rightarrow> nat \<Rightarrow>
     (string option \<times> nat \<times> duration list) option" where
  "fixed_loop delay maxRetries fn cerr wait attempt =
     (case fn attempt of
        None \<Rightarrow> Some (None, Suc attempt, [])
      | Some err \<Rightarrow>
          (if 0 < maxRetries \<and> maxRetries \<le> int (Suc attempt) then Some (Some err, Suc attempt, [])
           else case cerr (Suc attempt) of
             Some e \<Rightarrow> Some (Some e, Suc attempt, [])
           | None \<Rightarrow>
               (case wait (Suc attempt) of
                  Some e \<Rightarrow> Some (Some e, Suc attempt, [])
                | None \<Rightarrow> Option.bind (fixed_loop delay maxRetries fn cerr wait (Suc attempt))
                    (\<lambda>(e, n, ds). Some (e, n, delay # ds)))))"

definition fd_Execute ::
  "duration \<Rightarrow> int \<Rightarrow> (nat \<Rightarrow> string option) \<Rightarrow> (nat \<Rightarrow> string option) \<Rightarrow> (nat \<Rightarrow> string option) \<Rightarrow>
     (string option \<times> nat \<times> duration list) option" where
  "fd_Execute delay maxRetries fn cerr wait = fixed_loop delay maxRetries fn cerr wait 0"

section \<open>Model: classified errors\<close>

datatype error_class = ClassUnknown | ClassTransient | ClassPermanent | ClassRateLimited | ClassTimeout
  | ClassCircuitBreaker | ClassValidation | ClassAuthentication | ClassNotFound | ClassConflict

record retry_strategy =
  rs_ShouldRetry :: bool
  rs_MaxAttempts :: int
  rs_BaseDelay :: duration
  rs_MaxDelay :: duration
  rs_BackoffMultiplier :: rat
  rs_RetryAfter :: "go_time option"

definition no_retry :: retry_strategy where
  "no_retry = \<lparr>rs_ShouldRetry = False, rs_MaxAttempts = 0, rs_BaseDelay = 0, rs_MaxDelay = 0,
     rs_BackoffMultiplier = 0, rs_RetryAfter = None\<rparr>"

fun getDefaultRetryStrategy :: "error_class \<Rightarrow> retry_strategy" where
  "getDefaultRetryStrategy ClassTransient = \<lparr>rs_ShouldRetry = True, rs_MaxAttempts = 3, rs_BaseDelay = 1 * second,
     rs_MaxDelay = 30 * second, rs_BackoffMultiplier = 2, rs_RetryAfter = None\<rparr>"
| "getDefaultRetryStrategy ClassTimeout = \<lparr>rs_ShouldRetry = True, rs_MaxAttempts = 2, rs_BaseDelay = 2 * second,
     rs_MaxDelay = 10 * second, rs_BackoffMultiplier = 3 / 2, rs_RetryAfter = None\<rparr>"
| "getDefaultRetryStrategy ClassRateLimited = \<lparr>rs_ShouldRetry = True, rs_MaxAttempts = 5, rs_BaseDelay = 5 * second,
     rs_MaxDelay = 60 * second, rs_BackoffMultiplier = 1, rs_RetryAfter = None\<rparr>"
| "getDefaultRetryStrategy ClassCircuitBreaker = \<lparr>rs_ShouldRetry = True, rs_MaxAttempts = 1, rs_BaseDelay = 30 * second,
     rs_MaxDelay = 30 * second, rs_BackoffMultiplier = 1, rs_RetryAfter = None\<rparr>"
| "getDefaultRetryStrategy _ = no_retry"

record classified_error =
  ce_Code :: string
  ce_Message :: string
  ce_Class :: error_class
  ce_Details :: "gval option"
  ce_Service :: string
  ce_Operation :: string
  ce_CorrelationID :: string
  ce_Timestamp :: go_time
  ce_Metadata :: "(string, string) fmap option"
  ce_Retry :: "retry_strategy option"

datatype go_error = Plain string | Classified classified_error "go_error option"

definition ce_New :: "go_time \<Rightarrow> string \<Rightarrow> string \<Rightarrow> error_class \<Rightarrow> classified_error" where
  "ce_New now code message cls =
     \<lparr>ce_Code = code, ce_Message = message, ce_Class = cls, ce_Details = None, ce_Service = '''', ce_Operation = '''',
      ce_CorrelationID = '''', ce_Timestamp = now, ce_Metadata = None, ce_Retry = Some (getDefaultRetryStrategy cls)\<rparr>"

definition ce_Wrap :: "go_time \<Rightarrow> go_error option \<Rightarrow> string \<Rightarrow> error_class \<Rightarrow> go_error option" where
  "ce_Wrap now err code cls =
     (case err of
        None \<Rightarrow> None
      | Some (Classified ce cause) \<Rightarrow>
          Some (Classified ((ce_New now code (ce_Message ce) cls)\<lparr>ce_Details := ce_Details ce, ce_Service := ce_Service ce,
            ce_Operation := ce_Operation ce, ce_Metadata := ce_Metadata ce\<rparr>) err)
      | Some (Plain m) \<Rightarrow> Some (Classified (ce_New now code m cls) err))"

fun ce_Unwrap :: "go_error \<Rightarrow> go_error option" where
  "ce_Unwrap (Classified ce cause) = cause"
| "ce_Unwrap (Plain m) = None"

definition ce_Error :: "classified_error \<Rightarrow> string" where
  "ce_Error e = ''['' @ ce_Code e @ ''] '' @ ce_Operation e @ '': '' @ ce_Message e
     @ (if ce_CorrelationID e \<noteq> '''' then '' (correlation_id: '' @ ce_CorrelationID e @ '')'' else '''')"

definition ce_WithContext :: "string option \<Rightarrow> string \<Rightarrow> string \<Rightarrow> classified_error \<Rightarrow> classified_error" where
  "ce_WithContext correlation service operation e =
     (let e = e\<lparr>ce_Service := service, ce_Operation := operation\<rparr>
      in case correlation of Some i \<Rightarrow> e\<lparr>ce_CorrelationID := i\<rparr> | None \<Rightarrow> e)"

definition ce_WithMetadata :: "string \<Rightarrow> string \<Rightarrow> classified_error \<Rightarrow> classified_error" where
  "ce_WithMetadata k v e = e\<lparr>ce_Metadata := Some (fmupd k v (case ce_Metadata e of None \<Rightarrow> fmempty | Some m \<Rightarrow> m))\<rparr>"

definition ce_IsRetryable :: "classified_error \<Rightarrow> bool" where
  "ce_IsRetryable e = (case ce_Retry e of None \<Rightarrow> False | Some r \<Rightarrow> rs_ShouldRetry r)"

fun delay_loop :: "int \<Rightarrow> retry_strategy \<Rightarrow> nat \<Rightarrow> duration \<Rightarrow> duration" where
  "delay_loop ovf r 0 delay = delay"
| "delay_loop ovf r (Suc n) delay =
     (let delay = f64_to_int64 ovf (f64_mul (f64_of_int delay) (rs_BackoffMultiplier r))
      in if rs_MaxDelay r < delay then rs_MaxDelay r else delay_loop ovf r n delay)"

definition GetRetryDelay :: "int \<Rightarrow> go_time \<Rightarrow> classified_error \<Rightarrow> int \<Rightarrow> duration" where
  "GetRetryDelay ovf now e attempt =
     (case ce_Retry e of
        None \<Rightarrow> 0
      | Some r \<Rightarrow>
          if \<not> rs_ShouldRetry r then 0
          else case rs_RetryAfter r of
            Some t \<Rightarrow> time_sub t now
          | None \<Rightarrow> delay_loop ovf r (nat attempt) (rs_BaseDelay r))"

definition ClassifyHTTPError :: "int \<Rightarrow> error_class" where
  "ClassifyHTTPError statusCode =
     (if 400 \<le> statusCode \<and> statusCode < 404 then ClassValidation
      else if statusCode = 401 then ClassAuthentication
      else if statusCode = 403 then ClassAuthentication
      else if statusCode = 404 then ClassNotFound
      else if statusCode = 409 then ClassConflict
      else if statusCode = 429 then ClassRateLimited
      else if 500 \<le> statusCode \<and> statusCode < 600 then ClassTransient
      else if statusCode = 503 then ClassCircuitBreaker
      else if statusCode = 504 then ClassTimeout
      else ClassUnknown)"

definition has_class :: "error_class set \<Rightarrow> go_error \<Rightarrow> bool" where
  "has_class K err = (case err of Classified ce _ \<Rightarrow> ce_Class ce \<in> K | Plain _ \<Rightarrow> False)"

definition IsTransient :: "go_error \<Rightarrow> bool" where "IsTransient = has_class {ClassTransient, ClassTimeout}"
definition IsRateLimited :: "go_error \<Rightarrow> bool" where "IsRateLimited = has_class {ClassRateLimited}"
definition IsCircuitBreakerOpen :: "go_error \<Rightarrow> bool" where "IsCircuitBreakerOpen = has_class {ClassCircuitBreaker}"
definition IsValidationError :: "go_error \<Rightarrow> bool" where "IsValidationError = has_class {ClassValidation}"
definition IsAuthenticationError :: "go_error \<Rightarrow> bool" where "IsAuthenticationError = has_class {ClassAuthentication}"

section \<open>Lemmas on policies\<close>

lemma NewExponentialBackoff_ok [simp]:
  "0 < rp_MaxRetries (NewExponentialBackoff c)" "0 < rp_InitialInterval (NewExponentialBackoff c)"
  "0 < rp_MaxInterval (NewExponentialBackoff c)" "1 < rp_Multiplier (NewExponentialBackoff c)"
  by (simp_all add: NewExponentialBackoff_def Let_def time_units)

lemma loop_bounded:
  assumes "0 < rp_MaxRetries c" "int attempt < rp_MaxRetries c"
  shows "\<exists>e n ds. backoff_loop delay c fn elapsed cerr wait attempt = Some (e, n, ds) \<and> attempt < n
     \<and> int n \<le> rp_MaxRetries c \<and> ds = map delay [Suc attempt..<n]
     \<and> (\<forall>i. attempt \<le> i \<longrightarrow> Suc i < n \<longrightarrow> fn i \<noteq> None) \<and> (e = None \<longleftrightarrow> fn (n - 1) = None)"
  using assms(2)
proof (induction "nat (rp_MaxRetries c) - attempt" arbitrary: attempt)
  case (Suc k)
  show ?case
  proof (cases "fn attempt \<noteq> None \<and> \<not> rp_MaxRetries c \<le> int (Suc attempt) \<and> \<not> rp_MaxElapsedTime c \<le> elapsed (Suc attempt)
      \<and> cerr (Suc attempt) = None \<and> wait (Suc attempt) = None")
    case True
    then have "k = nat (rp_MaxRetries c) - Suc attempt" "int (Suc attempt) < rp_MaxRetries c" using Suc.hyps(2) by auto
    from Suc.hyps(1) [OF this] obtain e n ds where
      r: "backoff_loop delay c fn elapsed cerr wait (Suc attempt) = Some (e, n, ds)" "Suc attempt < n" "int n \<le> rp_MaxRetries c"
        "ds = map delay [Suc (Suc attempt)..<n]" "\<forall>i. Suc attempt \<le> i \<longrightarrow> Suc i < n \<longrightarrow> fn i \<noteq> None" "e = None \<longleftrightarrow> fn (n - 1) = None"
      by (elim exE conjE) (rule that)
    from r(5) True have "\<forall>i. attempt \<le> i \<longrightarrow> Suc i < n \<longrightarrow> fn i \<noteq> None"
      using le_neq_implies_less by (metis Suc_leI)
    moreover have "backoff_loop delay c fn elapsed cerr wait attempt = Some (e, n, delay (Suc attempt) # ds)"
      by (subst backoff_loop.simps) (use r(1) True in auto)
    moreover have "delay (Suc attempt) # ds = map delay [Suc attempt..<n]" using r(2,4) by (simp add: upt_conv_Cons)
    ultimately show ?thesis using r(2,3,6) by (metis Suc_lessD)
  next
    case False
    then show ?thesis
      by (subst backoff_loop.simps) (use Suc.prems assms(1) in \<open>auto split: option.splits\<close>)
  qed
qed simp

lemma fixed_long:
  assumes "maxRetries \<le> 0" "\<And>i. fn i \<noteq> None \<and> cerr i = None \<and> wait i = None"
  shows "fixed_loop delay maxRetries fn cerr wait a = Some (e, n, ds) \<Longrightarrow> k \<le> length ds"
proof (induction k arbitrary: a ds)
  case (Suc k)
  obtain err where err: "fn a = Some err" using assms(2) by blast
  have "fixed_loop delay maxRetries fn cerr wait a =
      Option.bind (fixed_loop delay maxRetries fn cerr wait (Suc a)) (\<lambda>(e, n, ds). Some (e, n, delay # ds))"
    by (subst fixed_loop.simps) (use assms err in simp)
  with Suc.prems obtain ds' where "fixed_loop delay maxRetries fn cerr wait (Suc a) = Some (e, n, ds')" "ds = delay # ds'"
    by (auto simp: bind_eq_Some_conv)
  with Suc.IH show ?case by simp
qed simp

lemma fixed_diverges:
  assumes "maxRetries \<le> 0" "\<And>i. fn i \<noteq> None \<and> cerr i = None \<and> wait i = None"
  shows "fixed_loop delay maxRetries fn cerr wait a = None"
proof (rule ccontr)
  assume "\<not> ?thesis"
  then obtain e n ds where "fixed_loop delay maxRetries fn cerr wait a = Some (e, n, ds)" by (metis not_None_eq prod_cases3)
  from fixed_long [OF assms this, of "Suc (length ds)"] show False by simp
qed

section \<open>Lemmas on delays\<close>

lemma to_int64_ge: "0 \<le> d \<Longrightarrow> of_int d \<le> x \<Longrightarrow> x \<le> 2 ^ 52 \<Longrightarrow> d \<le> f64_to_int64 ovf x"
proof -
  assume "0 \<le> d" "of_int d \<le> x" "x \<le> 2 ^ 52"
  then have "\<lfloor>x\<rfloor> \<le> 2 ^ 52" "0 \<le> x" "d \<le> \<lfloor>x\<rfloor>" by (simp_all add: floor_le_iff le_floor_iff)
  then show ?thesis using \<open>0 \<le> d\<close> by (simp add: f64_to_int64_def Let_def)
qed

lemma to_int64_le: "0 \<le> x \<Longrightarrow> x \<le> of_int d \<Longrightarrow> d \<le> 2 ^ 52 \<Longrightarrow> 0 \<le> f64_to_int64 ovf x \<and> f64_to_int64 ovf x \<le> d"
proof -
  assume "0 \<le> x" "x \<le> of_int d" "d \<le> 2 ^ 52"
  then have "0 \<le> \<lfloor>x\<rfloor>" "\<lfloor>x\<rfloor> \<le> d" by (simp_all add: floor_le_iff)
  moreover have "- (2 ^ 63) \<le> (0::int)" "d < 2 ^ 63" using \<open>d \<le> 2 ^ 52\<close> by simp_all
  ultimately have "- (2 ^ 63) \<le> \<lfloor>x\<rfloor> \<and> \<lfloor>x\<rfloor> < 2 ^ 63" "0 \<le> \<lfloor>x\<rfloor>" "\<lfloor>x\<rfloor> \<le> d" by linarith+
  then show ?thesis using \<open>0 \<le> x\<close> by (simp only: f64_to_int64_def Let_def if_True simp_thms)
qed

lemma delay_step:
  assumes "0 \<le> d" "1 \<le> q" "of_int d * q \<le> 2 ^ 52"
  shows "d \<le> f64_to_int64 ovf (f64_mul (f64_of_int d) q)"
proof -
  have dq: "of_int d \<le> of_int d * q" using assms(1,2) by (simp add: mult_le_cancel_left1)
  then have "(of_int d :: rat) \<le> of_int (2 ^ 52)" using assms(3) by simp
  then have d: "\<bar>d\<bar> < 2 ^ 53" using assms(1) by (simp only: of_int_le_iff) simp
  have ge: "of_int d \<le> f64_mul (f64_of_int d) q"
    unfolding f64_mul_def using d dq by (intro f64_round_ge_int) simp_all
  have "f64_mul (f64_of_int d) q \<le> of_int (2 ^ 52)"
    unfolding f64_mul_def using assms(3) d by (intro f64_round_le_int) simp_all
  with ge assms(1) show ?thesis by (intro to_int64_ge) (simp_all only: of_int_power of_int_numeral)
qed

lemma delay_loop_bounds:
  assumes "0 \<le> d" "d \<le> rs_MaxDelay r" "1 \<le> rs_BackoffMultiplier r" "of_int (rs_MaxDelay r) * rs_BackoffMultiplier r \<le> 2 ^ 52"
  shows "d \<le> delay_loop ovf r n d \<and> delay_loop ovf r n d \<le> rs_MaxDelay r
    \<and> delay_loop ovf r n d \<le> delay_loop ovf r (Suc n) d"
  using assms(1,2)
proof (induction n arbitrary: d)
  have step: "e \<le> f64_to_int64 ovf (f64_mul (f64_of_int e) (rs_BackoffMultiplier r))" if "0 \<le> e" "e \<le> rs_MaxDelay r" for e
  proof (rule delay_step [OF that(1) assms(3)])
    have "(of_int e :: rat) * rs_BackoffMultiplier r \<le> of_int (rs_MaxDelay r) * rs_BackoffMultiplier r"
      using that(2) assms(3) by (intro mult_right_mono) auto
    with assms(4) show "of_int e * rs_BackoffMultiplier r \<le> 2 ^ 52" by simp
  qed
  {
    case 0
    with step [of d] show ?case by (simp add: Let_def)
  next
    case (Suc n)
    let ?e = "f64_to_int64 ovf (f64_mul (f64_of_int d) (rs_BackoffMultiplier r))"
    show ?case
    proof (cases "rs_MaxDelay r < ?e")
      case True
      with Suc.prems show ?thesis by (simp add: Let_def)
    next
      case False
      have e: "delay_loop ovf r (Suc m) d = delay_loop ovf r m ?e" for m using False by (simp add: Let_def)
      from Suc.IH [of ?e] step [OF Suc.prems] Suc.prems False show ?thesis unfolding e by linarith
    qed
  }
qed

lemma delay_loop_mono:
  assumes "0 \<le> d" "d \<le> rs_MaxDelay r" "1 \<le> rs_BackoffMultiplier r" "of_int (rs_MaxDelay r) * rs_BackoffMultiplier r \<le> 2 ^ 52"
    and "m \<le> n"
  shows "delay_loop ovf r m d \<le> delay_loop ovf r n d"
  using lift_Suc_mono_le [of "\<lambda>n. delay_loop ovf r n d" m n] delay_loop_bounds [OF assms(1-4)] assms(5) by blast

section \<open>Lemmas on the jitter\<close>

lemma jitter_bounds:
  assumes "0 \<le> d" "d \<le> of_int m" "m \<le> 2 ^ 50" "f64_round d = d" "\<bar>w\<bar> \<le> 1"
  shows "0 \<le> f64_add d (f64_mul (f64_mul d (f64_round (1 / 5))) w) \<and>
    f64_add d (f64_mul (f64_mul d (f64_round (1 / 5))) w) \<le> of_int (m + m div 5 + 1)"
proof -
  let ?q = "f64_mul d (f64_round (1 / 5))"
  have fifth: "0 \<le> f64_round (1 / 5)" "f64_round (1 / 5) \<le> 1 / 5 + 1 / 2 ^ 55" by code_simp+
  have m: "0 \<le> m" using assms(1,2) by (metis of_int_0_le_iff order_trans)
  have "d * f64_round (1 / 5) \<le> of_int m * (1 / 5 + 1 / 2 ^ 55)"
    using assms(1,2) fifth by (intro mult_mono) auto
  also have "\<dots> \<le> of_int (m div 5 + 1)"
  proof -
    have "(of_int m :: rat) \<le> 5 * of_int (m div 5) + 4"
      using of_int_le_iff [of m "5 * (m div 5) + 4", where 'a = rat] by simp
    moreover have "(of_int m :: rat) \<le> of_int (2 ^ 50)" using assms(3) by (simp only: of_int_le_iff)
    ultimately show ?thesis by (simp add: field_simps)
  qed
  finally have q: "?q \<le> of_int (m div 5 + 1)" unfolding f64_mul_def
    using m assms(3) by (intro f64_round_le_int) auto
  have "d * f64_round (1 / 5) \<le> d * 1" using fifth assms(1) by (intro mult_left_mono) auto
  then have qd: "?q \<le> d" using f64_round_mono [of "d * f64_round (1 / 5)" d] assms(4) by (simp add: f64_mul_def)
  have q0: "0 \<le> ?q" using assms(1) fifth by (simp add: f64_mul_def f64_round_nonneg)
  have qq: "f64_round ?q = ?q" by (simp add: f64_mul_def)
  have "?q * w \<le> ?q" "- ?q \<le> ?q * w" 
    using mult_left_mono [of w 1 ?q] mult_left_mono [of "- 1" w ?q] assms(5) q0 by (auto simp: abs_le_iff)
  then have j: "f64_mul ?q w \<le> ?q" "- ?q \<le> f64_mul ?q w"
    using f64_round_mono [of "?q * w" ?q] f64_round_mono [of "- ?q" "?q * w"] qq by (simp_all add: f64_mul_def f64_round_minus)
  have "0 \<le> d + f64_mul ?q w" using j qd by linarith
  moreover have "d + f64_mul ?q w \<le> of_int (m + m div 5 + 1)" using j q assms(2) by simp
  ultimately show ?thesis unfolding f64_add_def using m assms(3)
    by (intro conjI f64_round_nonneg f64_round_le_int) auto
qed

section \<open>Properties\<close>

text \<open>C39 Exponential backoff always returns: with a policy from \<open>NewExponentialBackoff\<close>, whatever the function,
  the clock and the context do, \<open>Execute\<close> makes at least one call and at most \<open>MaxRetries\<close>, waits
  once between two calls, calls again only after a failure, and reports success exactly when its last call succeeded.\<close>

theorem eb_Execute_returns:
  "let c = NewExponentialBackoff config
   in \<exists>e n ds. eb_Execute ovf pow c rnd fn elapsed cerr wait = Some (e, n, ds) \<and> 0 < n \<and> int n \<le> rp_MaxRetries c
     \<and> ds = map (\<lambda>i. NextDelay ovf pow c (rnd i) (int i)) [1..<n]
     \<and> (\<forall>i. Suc i < n \<longrightarrow> fn i \<noteq> None) \<and> (e = None \<longleftrightarrow> fn (n - 1) = None)"
proof -
  let ?c = "NewExponentialBackoff config"
  from loop_bounded [of ?c 0 "\<lambda>i. NextDelay ovf pow ?c (rnd i) (int i)" fn elapsed cerr wait]
  show ?thesis unfolding Let_def eb_Execute_def by simp
qed

theorem eb_Execute_returns_witness:
  "\<exists>e n ds. eb_Execute 0 (\<lambda>x y. 1) (NewExponentialBackoff \<lparr>rp_InitialInterval = 0, rp_MaxInterval = 0, rp_MaxElapsedTime = 0,
     rp_Multiplier = 0, rp_MaxRetries = 3\<rparr>) (\<lambda>n. 0) (\<lambda>n. if n < 2 then Some ''down'' else None) (\<lambda>n. 0) (\<lambda>n. None) (\<lambda>n. None)
     = Some (e, n, ds) \<and> int n \<le> 3"
  using eb_Execute_returns [of "\<lparr>rp_InitialInterval = 0, rp_MaxInterval = 0, rp_MaxElapsedTime = 0,
     rp_Multiplier = 0, rp_MaxRetries = 3\<rparr>" 0 "\<lambda>x y. 1" "\<lambda>n. 0" "\<lambda>n. if n < 2 then Some ''down'' else None" "\<lambda>n. 0" "\<lambda>n. None" "\<lambda>n. None"]
  by (auto simp: NewExponentialBackoff_def Let_def)

text \<open>The delay with its jitter is never negative and exceeds the largest interval by at most a fifth.\<close>

theorem NextDelay_bounds:
  assumes "0 \<le> rp_InitialInterval c" "0 \<le> rp_MaxInterval c" "rp_MaxInterval c \<le> 2 ^ 50"
    and "\<And>x y. 0 < x \<Longrightarrow> 0 \<le> pow x y" "0 < rp_Multiplier c" "0 \<le> u" "u < 1"
  shows "0 \<le> NextDelay ovf pow c u attempt \<and>
    NextDelay ovf pow c u attempt \<le> rp_MaxInterval c + rp_MaxInterval c div 5 + 1"
proof -
  let ?d = "backoff pow c attempt" and ?w = "f64_sub (f64_mul u 2) 1"
  have M: "f64_of_int (rp_MaxInterval c) = of_int (rp_MaxInterval c)" using assms(2,3) by simp
  have "0 \<le> f64_of_int (rp_InitialInterval c)" using assms(1) by (simp add: f64_of_int_def f64_round_nonneg)
  then have d: "0 \<le> ?d" "?d \<le> of_int (rp_MaxInterval c)" "f64_round ?d = ?d"
    using assms(2,4,5) M by (auto simp: backoff_def Let_def f64_mul_def f64_of_int_def intro!: f64_round_nonneg mult_nonneg_nonneg)
  have "0 \<le> f64_mul u 2" "f64_mul u 2 \<le> of_int 2"
    unfolding f64_mul_def using assms(6,7) by (auto intro!: f64_round_nonneg intro: f64_round_le_int [of 2, simplified])
  then have w: "\<bar>?w\<bar> \<le> 1"
    using f64_round_le_int [of 1 "f64_mul u 2 - 1"] f64_round_ge_int [of "- 1" "f64_mul u 2 - 1"] by (auto simp: f64_sub_def abs_le_iff)
  from jitter_bounds [OF d(1,2) assms(3) d(3) w] show ?thesis
    unfolding NextDelay_def Let_def using assms(2,3) by (intro to_int64_le) auto
qed

text \<open>The fixed policy has no such bound: with no limit of retries, a function that always fails and a
  context that never ends, \<open>Execute\<close> does not return.\<close>

theorem fd_Execute_diverges:
  assumes "maxRetries \<le> 0" "\<forall>i. fn i \<noteq> None \<and> cerr i = None \<and> wait i = None"
  shows "fd_Execute delay maxRetries fn cerr wait = None"
  unfolding fd_Execute_def using assms by (intro fixed_diverges) auto

text \<open>The delay of a classified error lies between its base delay and its largest delay and does not shrink
  from one attempt to the next, for every strategy whose multiplier is at least one.\<close>

theorem GetRetryDelay_bounds:
  assumes "ce_Retry e = Some r" "rs_ShouldRetry r" "rs_RetryAfter r = None" "0 \<le> rs_BaseDelay r" "rs_BaseDelay r \<le> rs_MaxDelay r"
    and "1 \<le> rs_BackoffMultiplier r" "of_int (rs_MaxDelay r) * rs_BackoffMultiplier r \<le> 2 ^ 52" "m \<le> n"
  shows "rs_BaseDelay r \<le> GetRetryDelay ovf now e m \<and> GetRetryDelay ovf now e m \<le> GetRetryDelay ovf now e n
    \<and> GetRetryDelay ovf now e n \<le> rs_MaxDelay r"
  using delay_loop_bounds [OF assms(4-7), of ovf] delay_loop_mono [OF assms(4-7), of "nat m" "nat n" ovf] assms(1-3,8)
  by (simp add: GetRetryDelay_def)

theorem GetRetryDelay_bounds_witness:
  "let e = ce_New 0 ''E'' ''m'' ClassTransient
   in second \<le> GetRetryDelay 0 0 e 2 \<and> GetRetryDelay 0 0 e 2 \<le> GetRetryDelay 0 0 e 7 \<and> GetRetryDelay 0 0 e 7 \<le> 30 * second"
  using GetRetryDelay_bounds [of "ce_New 0 ''E'' ''m'' ClassTransient" "getDefaultRetryStrategy ClassTransient" 2 7 0 0]
  by (simp add: ce_New_def Let_def) (simp add: time_units)

text \<open>\<open>ClassifyHTTPError\<close> never answers authentication, timeout or circuit breaker: the ranges tested before
  them include the codes 401, 403, 503 and 504.  A rejected login counts as invalid input.\<close>

theorem ClassifyHTTPError_classes:
  "ClassifyHTTPError code =
     (if code \<in> {400..403} then ClassValidation else if code = 404 then ClassNotFound else if code = 409 then ClassConflict
      else if code = 429 then ClassRateLimited else if code \<in> {500..599} then ClassTransient else ClassUnknown)"
  by (auto simp: ClassifyHTTPError_def)

text \<open>\<open>Wrap\<close> keeps what a classified error says about its place, but not its correlation id.\<close>

theorem Wrap_loses_correlation:
  "ce_Wrap now (Some (Classified ce cause)) code cls = Some (Classified ce' c') \<Longrightarrow>
     ce_Unwrap (Classified ce' c') = Some (Classified ce cause) \<and> ce_Message ce' = ce_Message ce \<and> ce_Service ce' = ce_Service ce
     \<and> ce_Operation ce' = ce_Operation ce \<and> ce_Metadata ce' = ce_Metadata ce \<and> ce_Class ce' = cls \<and> ce_CorrelationID ce' = ''''"
  by (auto simp: ce_Wrap_def ce_New_def)

end
