(* ===== verification/Result_Aggregator.thy ===== *)
theory Result_Aggregator
  imports Uuid_Text
begin

text \<open>
  The aggregation of the results of subtasks (\<open>ResultAggregator\<close> of \<open>pkg/services/task_helpers.go\<close>).
  The orders in which the code ranges over its maps are arguments: \<open>xs\<close> enumerates the results,
  \<open>vs\<close> the votes.  How \<open>fmt\<close> prints a value with the verb v, and its JSON text when it has one,
  are the arguments \<open>fmt_v\<close> and \<open>js\<close>.
\<close>

section \<open>Model\<close>

type_synonym task_results = "(uuid, gval) fmap"
type_synonym aggregator = "(uuid, task_results) fmap"

definition NewResultAggregator :: aggregator where "NewResultAggregator = fmempty"

definition AddResult :: "uuid \<Rightarrow> uuid \<Rightarrow> gval \<Rightarrow> aggregator \<Rightarrow> aggregator" where
  "AddResult parent sub result a =
     (let a = (if fmlookup a parent = None then fmupd parent fmempty a else a)
      in fmupd parent (fmupd sub result (fmget fmempty a parent)) a)"

definition GetResults :: "uuid \<Rightarrow> aggregator \<Rightarrow> task_results option" where
  "GetResults parent a = map_option (\<lambda>m. foldl (\<lambda>c (k, v). fmupd k v c) fmempty (go_range m)) (fmlookup a parent)"

definition ClearResults :: "uuid \<Rightarrow> aggregator \<Rightarrow> aggregator" where
  "ClearResults parent a = fmdrop parent a"

fun join :: "string list \<Rightarrow> string" where
  "join [] = ''''"
| "join [s] = s"
| "join (s # ss) = s @ '','' @ join ss"

fun hashResult :: "(gval \<Rightarrow> string) \<Rightarrow> (gval \<Rightarrow> string option) \<Rightarrow> gval \<Rightarrow> string" where
  "hashResult fmt_v js (VStr s) = ''string:'' @ s"
| "hashResult fmt_v js (VInt n) = ''number:'' @ fmt_v (VInt n)"
| "hashResult fmt_v js (VFloat x) = ''number:'' @ fmt_v (VFloat x)"
| "hashResult fmt_v js (VBool b) = ''bool:'' @ fmt_v (VBool b)"
| "hashResult fmt_v js (VMap kvs) = ''map:'' @ join (map (\<lambda>(k, v). k @ '':'' @ fmt_v v) (sort_key fst kvs))"
| "hashResult fmt_v js (VList vs) = ''array:'' @ join (map fmt_v vs)"
| "hashResult fmt_v js v = (case js v of Some t \<Rightarrow> ''json:'' @ t | None \<Rightarrow> ''unknown:'' @ fmt_v v)"

definition count_votes :: "(gval \<Rightarrow> string) \<Rightarrow> (uuid \<times> gval) list \<Rightarrow> (string, nat) fmap" where
  "count_votes hash xs = foldl (\<lambda>m (k, r). fmodify 0 (hash r) Suc m) fmempty xs"

definition results_by_hash :: "(gval \<Rightarrow> string) \<Rightarrow> (uuid \<times> gval) list \<Rightarrow> (string, gval) fmap" where
  "results_by_hash hash xs = foldl (\<lambda>m (k, r). fmupd (hash r) r m) fmempty xs"

definition most_votes :: "(string \<times> nat) list \<Rightarrow> string \<times> nat" where
  "most_votes vs = foldl (\<lambda>(winningHash, maxVotes) (hash, voteCount).
     if maxVotes < voteCount then (hash, voteCount) else (winningHash, maxVotes)) ('''', 0) vs"

definition no_consensus :: "(string, nat) fmap \<Rightarrow> (uuid \<times> gval) list \<Rightarrow> gval" where
  "no_consensus votes xs = VMap
     [(''consensus'', VBool False), (''reason'', VStr ''no majority agreement''),
      (''votes'', VMap (map (\<lambda>(h, n). (h, VInt (int n))) (go_range votes))),
      (''total'', VInt (int (length xs))), (''required'', VInt (int (length xs) div 2 + 1)),
      (''results'', VMap (map (\<lambda>(k, r). (uuid_String k, r)) (sort_key fst xs)))]"

definition majorityVote :: "(gval \<Rightarrow> string) \<Rightarrow> (uuid \<times> gval) list \<Rightarrow> (string \<times> nat) list \<Rightarrow> gval" where
  "majorityVote hash xs vs =
     (if length xs = 0 then VNil
      else if length xs = 1 then snd (hd xs)
      else
        let byHash = results_by_hash hash xs; (winningHash, maxVotes) = most_votes vs
        in if length xs div 2 < maxVotes then fmget VNil byHash winningHash
           else if 1 < maxVotes
           then fmget VNil byHash (hd (sort (map fst (filter (\<lambda>(h, n). n = maxVotes) vs))))
           else no_consensus (count_votes hash xs) xs)"

definition combineResults :: "(uuid \<times> gval) list \<Rightarrow> gval" where
  "combineResults xs = VList (map snd xs)"

definition firstComplete :: "(uuid \<times> gval) list \<Rightarrow> gval" where
  "firstComplete xs = (case xs of [] \<Rightarrow> VNil | (k, r) # _ \<Rightarrow> r)"

datatype aggregated = AggValue gval | AggResults "task_results option"

definition AggregateResults ::
  "(gval \<Rightarrow> string) \<Rightarrow> ((uuid, gval) fmap \<Rightarrow> (uuid \<times> gval) list) \<Rightarrow> ((string, nat) fmap \<Rightarrow> (string \<times> nat) list) \<Rightarrow>
     string \<Rightarrow> uuid \<Rightarrow> aggregator \<Rightarrow> aggregated" where
  "AggregateResults hash range_r range_v meth parent a =
     (let results = GetResults parent a;
          xs = range_r (case results of None \<Rightarrow> fmempty | Some m \<Rightarrow> m)
      in if meth = ''combine_results'' then AggValue (combineResults xs)
         else if meth = ''first_complete'' then AggValue (firstComplete xs)
         else if meth = ''majority_vote'' then AggValue (majorityVote hash xs (range_v (count_votes hash xs)))
         else AggResults results)"

section \<open>Lemmas\<close>

definition votes_for :: "(gval \<Rightarrow> string) \<Rightarrow> (uuid \<times> gval) list \<Rightarrow> string \<Rightarrow> nat" where
  "votes_for hash xs h = length (filter (\<lambda>x. hash (snd x) = h) xs)"

lemma count_votes_snoc: "count_votes hash (xs @ [(k, r)]) = fmodify 0 (hash r) Suc (count_votes hash xs)"
  by (simp add: count_votes_def)

lemma votes_count: "fmget 0 (count_votes hash xs) h = votes_for hash xs h \<and>
    (fmlookup (count_votes hash xs) h = None \<longleftrightarrow> votes_for hash xs h = 0)"
proof (induction xs rule: rev_induct)
  case (snoc x xs)
  obtain k r where "x = (k, r)" by fastforce
  with snoc show ?case by (auto simp: count_votes_snoc fmodify_def votes_for_def)
qed (simp add: count_votes_def votes_for_def)

lemma count_votes_lookup:
  "fmlookup (count_votes hash xs) h = (if votes_for hash xs h = 0 then None else Some (votes_for hash xs h))"
  using votes_count [of hash xs h] by (cases "fmlookup (count_votes hash xs) h") (auto simp: fmget_def)

lemma results_by_hash_snoc: "results_by_hash hash (xs @ [(k, r)]) = fmupd (hash r) r (results_by_hash hash xs)"
  by (simp add: results_by_hash_def)

lemma results_by_hash_some:
  "0 < votes_for hash xs h \<Longrightarrow> \<exists>x \<in> set xs. hash (snd x) = h \<and> fmlookup (results_by_hash hash xs) h = Some (snd x)"
proof (induction xs rule: rev_induct)
  case (snoc x xs)
  obtain k r where "x = (k, r)" by fastforce
  with snoc show ?case by (cases "hash r = h") (auto simp: results_by_hash_snoc votes_for_def)
qed (simp add: votes_for_def)

lemma most_votes_max:
  "(\<forall>x \<in> set vs. snd x \<le> snd (most_votes vs)) \<and> (most_votes vs \<in> set vs \<or> most_votes vs = ('''', 0))"
proof (induction vs rule: rev_induct)
  case (snoc v vs)
  have "most_votes (vs @ [v]) = (if snd (most_votes vs) < snd v then v else most_votes vs)"
    by (simp add: most_votes_def split_beta)
  with snoc show ?case by (force split: if_splits)
qed (simp add: most_votes_def)

lemma votes_perm: "mset xs = mset ys \<Longrightarrow> votes_for hash xs h = votes_for hash ys h"
  unfolding votes_for_def by (metis mset_filter size_mset)

lemma enumerates_same_set: "enumerates xs m \<Longrightarrow> enumerates ys m \<Longrightarrow> set xs = set ys"
  by (auto simp: enumerates_set)

lemma enumerates_mset: "enumerates xs m \<Longrightarrow> enumerates ys m \<Longrightarrow> mset xs = mset ys"
  using enumerates_same_set enumerates_distinct set_eq_iff_mset_eq_distinct by metis

lemma sort_fst_unique:
  assumes "set xs = set ys" "distinct (map fst xs)" "distinct (map fst ys)"
  shows "sort_key fst xs = sort_key fst (ys :: ('a::linorder \<times> 'b) list)"
proof (rule map_sorted_distinct_set_unique [of fst])
  show "inj_on fst (set (sort_key fst xs) \<union> set (sort_key fst ys))" using assms(1,2) by (simp add: distinct_map)
  show "distinct (map fst (sort_key fst xs))" "distinct (map fst (sort_key fst ys))"
    using assms by (auto simp: distinct_map)
qed (use assms(1) in auto)

text \<open>The votes a loop sees, whatever its order.\<close>

lemma votes_range:
  assumes "enumerates vs (count_votes hash xs)"
  shows "(h, n) \<in> set vs \<longleftrightarrow> n = votes_for hash xs h \<and> 0 < n"
  by (auto simp: enumerates_set [OF assms] count_votes_lookup split: if_splits)

lemma winner:
  assumes "enumerates vs (count_votes hash xs)" "xs \<noteq> []" "most_votes vs = (w, n)"
  shows "n = votes_for hash xs w" "0 < n" "votes_for hash xs h \<le> n"
proof -
  obtain k r where x: "(k, r) \<in> set xs" using assms(2) by (cases xs) auto
  then have r: "0 < votes_for hash xs (hash r)" by (force simp: votes_for_def filter_empty_conv)
  with votes_range [OF assms(1)] have "(hash r, votes_for hash xs (hash r)) \<in> set vs" by simp
  with most_votes_max [of vs] assms(3) r have "(w, n) \<in> set vs" by fastforce
  then show w: "n = votes_for hash xs w" "0 < n" using votes_range [OF assms(1)] by auto
  show "votes_for hash xs h \<le> n"
    using most_votes_max [of vs] assms(3) votes_range [OF assms(1), of h "votes_for hash xs h"]
    by (cases "votes_for hash xs h = 0") fastforce+
qed

lemma winner_same_count:
  assumes "enumerates vs (count_votes hash xs)" "enumerates us (count_votes hash ys)" "mset xs = mset ys" "xs \<noteq> []"
    and "most_votes vs = (w, n)" "most_votes us = (u, m)"
  shows "m = n"
proof -
  have "ys \<noteq> []" using assms(3,4) by auto
  from winner [OF assms(2) this assms(6)] winner [OF assms(1,4,5)] show ?thesis
    by (metis assms(3) le_antisym votes_perm)
qed

lemma majority_unique:
  assumes "length xs div 2 < votes_for hash xs h" "length xs div 2 < votes_for hash xs h'"
  shows "h = h'"
proof (rule ccontr)
  assume "h \<noteq> h'"
  then have "votes_for hash xs h + votes_for hash xs h' \<le> length xs"
  proof (induction xs)
    case (Cons x xs)
    then show ?case by (auto simp: votes_for_def)
  qed (simp add: votes_for_def)
  with assms show False by linarith
qed

lemma by_hash_same:
  assumes "inj_on hash (snd ` set xs)" "mset xs = mset ys" "0 < votes_for hash xs h"
  shows "fmget VNil (results_by_hash hash ys) h = fmget VNil (results_by_hash hash xs) h"
proof -
  have s: "set ys = set xs" using assms(2) by (metis mset_eq_setD)
  from results_by_hash_some [OF assms(3)] obtain x where x: "x \<in> set xs" "hash (snd x) = h"
    "fmlookup (results_by_hash hash xs) h = Some (snd x)" by blast
  from results_by_hash_some [of hash ys h] assms(2,3) obtain y where y: "y \<in> set ys" "hash (snd y) = h"
    "fmlookup (results_by_hash hash ys) h = Some (snd y)" by (auto simp: votes_perm [OF assms(2)])
  from x y s have "snd y = snd x" by (intro inj_onD [OF assms(1)]) auto
  with x y show ?thesis by (simp add: fmget_def)
qed

section \<open>Properties\<close>

text \<open>C40 The vote does not depend on the order in which Go ranges over its maps: for results with different
  hashes whenever they differ, any two runs of \<open>majorityVote\<close> on the same results return the same value,
  with a majority, with a plurality or a tie, and without consensus.\<close>

theorem majorityVote_deterministic:
  assumes "enumerates xs m" "enumerates ys m" "inj_on hash (fmran' m)"
    and "enumerates vs (count_votes hash xs)" "enumerates us (count_votes hash ys)"
  shows "majorityVote hash xs vs = majorityVote hash ys us"
proof -
  note perm = enumerates_mset [OF assms(1,2)]
  have len: "length ys = length xs" using perm by (metis size_mset)
  have s: "set ys = set xs" using perm by (metis mset_eq_setD)
  have inj: "inj_on hash (snd ` set xs)"
    by (rule inj_on_subset [OF assms(3)]) (auto simp: enumerates_set [OF assms(1)] intro: fmran'I)
  have votes: "votes_for hash ys h = votes_for hash xs h" for h using votes_perm [OF perm] by simp
  have cv: "count_votes hash ys = count_votes hash xs"
    by (rule fmap_ext) (simp add: count_votes_lookup votes)
  consider "xs = []" | x where "xs = [x]" | "2 \<le> length xs"
    by (cases xs rule: remdups_adj.cases) auto
  then show ?thesis
  proof cases
    case 1
    then show ?thesis using len by (simp add: majorityVote_def)
  next
    case 2
    then have "ys = [x]" using perm by simp
    with 2 show ?thesis by (simp add: majorityVote_def)
  next
    case 3
    then have ne: "xs \<noteq> []" "ys \<noteq> []" using len by auto
    obtain w n where w: "most_votes vs = (w, n)" by fastforce
    obtain u k where u': "most_votes us = (u, k)" by fastforce
    with winner_same_count [OF assms(4,5) perm ne(1) w] have u: "most_votes us = (u, n)" by simp
    note W = winner [OF assms(4) ne(1) w] and U = winner [OF assms(5) ne(2) u]
    let ?t = "\<lambda>vs. sort (map fst (filter (\<lambda>(h, c). c = n) vs))"
    have d: "distinct (map fst (filter (\<lambda>(h, c). c = n) zs))" if "enumerates zs z" for zs and z :: "(string, nat) fmap"
      using that unfolding enumerates_def by (simp add: distinct_map_filter)
    have "set (?t vs) = set (?t us)" using enumerates_same_set [OF assms(4) assms(5) [unfolded cv]] by simp
    then have t: "?t vs = ?t us" using d [OF assms(4)] d [OF assms(5)] by (intro sorted_distinct_set_unique) auto
    have "(w, n) \<in> set vs" unfolding votes_range [OF assms(4)] using W(1,2) by blast
    then have "filter (\<lambda>(h, c). c = n) vs \<noteq> []" by (auto simp: filter_empty_conv)
    then have "?t vs \<noteq> []" by (metis length_0_conv length_map length_sort)
    from hd_in_set [OF this] have "(hd (?t vs), n) \<in> set vs" unfolding set_sort by auto
    then have th: "0 < votes_for hash xs (hd (?t vs))" unfolding votes_range [OF assms(4)] by metis
    have maj: "u = w" if "length xs div 2 < n" using majority_unique [of xs hash u w] that W(1) U(1) votes by metis
    have srt: "sort_key fst ys = sort_key fst xs"
      using assms(1,2) s by (intro sort_fst_unique) (auto simp: enumerates_def)
    have lens: "length xs \<noteq> 0" "length xs \<noteq> 1" using 3 by auto
    have "0 < votes_for hash xs w" using W(1,2) by simp
    then have win: "fmget VNil (results_by_hash hash ys) w = fmget VNil (results_by_hash hash xs) w"
      by (rule by_hash_same [OF inj perm])
    note tie = by_hash_same [OF inj perm th]
    show ?thesis
      unfolding majorityVote_def w u Let_def prod.case len if_not_P [OF lens(1)] if_not_P [OF lens(2)] t [symmetric] tie
        no_consensus_def cv srt
      using maj win by (cases "length xs div 2 < n") simp_all
  qed
qed

theorem majorityVote_deterministic_witness:
  "let xs = [(1, VStr ''a''), (2, VStr ''b''), (3, VStr ''a'')]; ys = [(3, VStr ''a''), (2, VStr ''b''), (1, VStr ''a'')];
       hash = hashResult (\<lambda>v. '''') (\<lambda>v. None)
   in majorityVote hash xs [(''string:b'', 1), (''string:a'', 2)] = majorityVote hash ys [(''string:a'', 2), (''string:b'', 1)]"
proof -
  let ?hash = "hashResult (\<lambda>v. '''') (\<lambda>v. None)"
  let ?m = "fmap_of_list [(1 :: uuid, VStr ''a''), (2, VStr ''b''), (3, VStr ''a'')]"
  have e: "enumerates [(1, VStr ''a''), (2, VStr ''b''), (3, VStr ''a'')] ?m" "enumerates [(3, VStr ''a''), (2, VStr ''b''), (1, VStr ''a'')] ?m"
    by (auto simp: enumerates_def fmap_of_list.rep_eq)
  have i: "inj_on ?hash (fmran' ?m)" by (auto simp: inj_on_def fmran'_def fmlookup_of_list split: if_splits)
  have v: "enumerates [(''string:b'', 1), (''string:a'', 2)] (count_votes ?hash [(1, VStr ''a''), (2, VStr ''b''), (3, VStr ''a'')])"
    "enumerates [(''string:a'', 2), (''string:b'', 1)] (count_votes ?hash [(3, VStr ''a''), (2, VStr ''b''), (1, VStr ''a'')])"
    by (auto simp: enumerates_def count_votes_def fmodify_def)
  from majorityVote_deterministic [OF e i v] show ?thesis by (simp add: Let_def)
qed

text \<open>A result that more than half of the subtasks agree on wins the vote.\<close>

theorem majority_wins:
  assumes "enumerates xs m" "enumerates vs (count_votes hash xs)" "inj_on hash (fmran' m)"
    and "length xs < 2 * length (filter (\<lambda>x. snd x = v) xs)"
  shows "majorityVote hash xs vs = v"
proof -
  have inj: "inj_on hash (snd ` set xs)"
    by (rule inj_on_subset [OF assms(3)]) (auto simp: enumerates_set [OF assms(1)] intro: fmran'I)
  obtain x where x: "x \<in> set xs" "snd x = v"
    using assms(4) by (cases "filter (\<lambda>x. snd x = v) xs = []") (auto simp: filter_empty_conv)
  then have ne: "xs \<noteq> []" by auto
  have "filter (\<lambda>y. hash (snd y) = hash v) xs = filter (\<lambda>y. snd y = v) xs"
    by (rule filter_cong) (use x inj in \<open>auto dest: inj_onD\<close>)
  then have v: "length xs div 2 < votes_for hash xs (hash v)" using assms(4) by (simp add: votes_for_def)
  obtain w n where w: "most_votes vs = (w, n)" by fastforce
  note W = winner [OF assms(2) ne w]
  have "w = hash v" using majority_unique [OF v, of w] v W(3) [of "hash v"] unfolding W(1) by (metis less_le_trans)
  moreover obtain y where "y \<in> set xs" "hash (snd y) = hash v" "fmlookup (results_by_hash hash xs) (hash v) = Some (snd y)"
    using results_by_hash_some [of hash xs "hash v"] v by auto
  moreover from this have "snd y = v" using x inj by (auto dest: inj_onD)
  moreover have "length xs = 1 \<Longrightarrow> snd (hd xs) = v" using x by (cases xs) auto
  ultimately show ?thesis using ne w W v by (auto simp: majorityVote_def Let_def fmget_def)
qed

theorem majority_wins_witness:
  "majorityVote (hashResult (\<lambda>v. '''') (\<lambda>v. None)) [(1, VStr ''a''), (2, VStr ''b''), (3, VStr ''a'')]
     [(''string:b'', 1), (''string:a'', 2)] = VStr ''a''"
proof (rule majority_wins [of _ "fmap_of_list [(1 :: uuid, VStr ''a''), (2, VStr ''b''), (3, VStr ''a'')]"])
  show "inj_on (hashResult (\<lambda>v. '''') (\<lambda>v. None)) (fmran' (fmap_of_list [(1 :: uuid, VStr ''a''), (2, VStr ''b''), (3, VStr ''a'')]))"
    by (auto simp: inj_on_def fmran'_def fmlookup_of_list split: if_splits)
qed (auto simp: enumerates_def fmap_of_list.rep_eq count_votes_def fmodify_def)

text \<open>\<open>hashResult\<close> joins the printed elements of a list with commas: different lists get the same hash, and
  their votes are added up.\<close>

theorem hashResult_collision:
  assumes "\<And>s. fmt_v (VStr s) = s"
  shows "hashResult fmt_v js (VList [VStr ''a'', VStr ''b'']) = hashResult fmt_v js (VList [VStr ''a,b''])"
  by (simp add: assms)

end
