(* ===== verification/Edge_Cache.thy ===== *)
theory Edge_Cache
  imports Redis_Spec
begin

text \<open>
  The caches of the edge server (\<open>apps/edge-mcp/internal/cache\<close>): the in-memory cache of
  \<open>memory_cache.go\<close> and the two tiers of \<open>tiered_cache.go\<close>, with Redis as the second one
  (\<open>Redis_Spec\<close>).

  What is cached has a Go type that \<open>Get\<close> compares with the type of its target, so values and
  targets are datatypes with a constructor per type the code mentions; a target filled from Redis
  is a pointer, and that pointer is what the code puts into the first tier (\<open>CPtr\<close>).  The order
  in which the map of the in-memory cache is visited is the argument \<open>rng\<close>.  Goroutines that an
  operation starts are jobs, carried out later in any order by \<open>run_job\<close>.  JSON and gzip are the
  functions of the record \<open>codec\<close>.
\<close>

section \<open>Model: the in-memory cache\<close>

datatype cval =
    CMapAny "(string, gval) fmap"
  | CMapStr "(string, string) fmap"
  | CMapInt "(string, int) fmap"
  | CString string
  | CBytes "u8 list"
  | CPtr cval
  | COther gval

datatype target = TMapAny | TMapStr | TMapInt | TString | TBytes | TInterface | TOther

record edge_item =
  ei_value :: cval
  ei_expiration :: go_time

record edge_cache =
  ec_items :: "(string, edge_item) fmap"
  ec_maxItems :: int
  ec_defaultTTL :: duration

type_synonym range_order = "nat \<Rightarrow> (string, edge_item) fmap \<Rightarrow> (string \<times> edge_item) list"

definition NewEdgeCache :: "int \<Rightarrow> duration \<Rightarrow> edge_cache" where
  "NewEdgeCache maxItems ttl = \<lparr>ec_items = fmempty, ec_maxItems = maxItems, ec_defaultTTL = ttl\<rparr>"

fun assign :: "target \<Rightarrow> cval \<Rightarrow> cval option" where
  "assign TMapAny (CMapAny m) = Some (CMapAny m)"
| "assign TMapStr (CMapStr m) = Some (CMapStr m)"
| "assign TMapInt (CMapInt m) = Some (CMapInt m)"
| "assign TString (CString s) = Some (CString s)"
| "assign TBytes (CBytes b) = Some (CBytes b)"
| "assign TInterface v = Some v"
| "assign TMapAny (CMapStr m) = Some (CMapAny (fmmap VStr m))"
| "assign TMapAny (CMapInt m) = Some (CMapAny (fmmap VInt m))"
| "assign _ _ = None"

definition ec_Get :: "go_time \<Rightarrow> string \<Rightarrow> target \<Rightarrow> edge_cache \<Rightarrow> string + cval" where
  "ec_Get now key ty c =
     (case fmlookup (ec_items c) key of
        None \<Rightarrow> Inl (''key not found: '' @ key)
      | Some item \<Rightarrow>
          if ei_expiration item < now then Inl (''key expired: '' @ key)
          else case assign ty (ei_value item) of
            Some v \<Rightarrow> Inr v
          | None \<Rightarrow> Inl (''type mismatch for key: '' @ key))"

definition drop_expired :: "go_time \<Rightarrow> (string \<times> edge_item) list \<Rightarrow> (string, edge_item) fmap \<Rightarrow> (string, edge_item) fmap" where
  "drop_expired now xs m =
     (case List.find (\<lambda>(k, item). ei_expiration item < now) xs of Some (k, _) \<Rightarrow> fmdrop k m | None \<Rightarrow> m)"

definition drop_first :: "(string \<times> edge_item) list \<Rightarrow> (string, edge_item) fmap \<Rightarrow> (string, edge_item) fmap" where
  "drop_first xs m = (case xs of (k, _) # _ \<Rightarrow> fmdrop k m | [] \<Rightarrow> m)"

definition fm_size :: "('k, 'v) fmap \<Rightarrow> int" where
  "fm_size m = int (fcard (fmdom m))"

definition ec_Set :: "range_order \<Rightarrow> go_time \<Rightarrow> string \<Rightarrow> cval \<Rightarrow> duration \<Rightarrow> edge_cache \<Rightarrow> edge_cache" where
  "ec_Set rng now key v ttl c =
     (let ttl = (if ttl = 0 then ec_defaultTTL c else ttl);
          items = ec_items c;
          items = (if ec_maxItems c \<le> fm_size items \<and> fmlookup items key = None then
                     let items = drop_expired now (rng 0 items) items
                     in if ec_maxItems c \<le> fm_size items then drop_first (rng 1 items) items else items
                   else items)
      in c\<lparr>ec_items := fmupd key \<lparr>ei_value = v, ei_expiration = now + ttl\<rparr> items\<rparr>)"

definition ec_Delete :: "string \<Rightarrow> edge_cache \<Rightarrow> edge_cache" where
  "ec_Delete key c = c\<lparr>ec_items := fmdrop key (ec_items c)\<rparr>"

definition ec_Size :: "edge_cache \<Rightarrow> int" where
  "ec_Size c = fm_size (ec_items c)"

definition cleanupExpired :: "go_time \<Rightarrow> edge_cache \<Rightarrow> edge_cache" where
  "cleanupExpired now c = c\<lparr>ec_items := fmfilter (\<lambda>k. \<not> ei_expiration (the (fmlookup (ec_items c) k)) < now) (ec_items c)\<rparr>"

section \<open>Model: the two tiers\<close>

record codec =
  cd_Marshal :: "cval \<Rightarrow> u8 list option"
  cd_Unmarshal :: "target \<Rightarrow> u8 list \<Rightarrow> cval option"
  cd_gzip :: "u8 list \<Rightarrow> u8 list option"
  cd_gunzip :: "u8 list \<Rightarrow> u8 list option"

record tiered_config =
  tg_L1MaxItems :: int
  tg_L1TTL :: duration
  tg_RedisEnabled :: bool
  tg_RedisAddr :: string
  tg_RedisFallbackMode :: bool
  tg_L2TTL :: duration
  tg_EnableCompression :: bool
  tg_CompressionThreshold :: int

record cache_stats =
  cs_l1Hits :: int
  cs_l1Misses :: int
  cs_l2Hits :: int
  cs_l2Misses :: int
  cs_totalRequests :: int
  cs_totalErrors :: int
  cs_compressionSaved :: int
  cs_compressionCount :: int

datatype tc_job = SetRedis string cval duration | Promote string cval | HealthCheck

record 's tiered_cache =
  tc_l1 :: edge_cache
  tc_redis :: 's
  tc_redisEnabled :: bool
  tc_config :: tiered_config
  tc_stats :: cache_stats
  tc_redisHealthy :: bool
  tc_lastHealthCheck :: go_time
  tc_jobs :: "tc_job list"

definition DefaultTieredCacheConfig :: tiered_config where
  "DefaultTieredCacheConfig = \<lparr>tg_L1MaxItems = 10000, tg_L1TTL = 5 * minute, tg_RedisEnabled = False, tg_RedisAddr = '''',
     tg_RedisFallbackMode = True, tg_L2TTL = 60 * minute, tg_EnableCompression = True, tg_CompressionThreshold = 1024\<rparr>"

definition tiered_defaults :: "tiered_config \<Rightarrow> tiered_config" where
  "tiered_defaults g =
     (let g = (if tg_L1MaxItems g = 0 then g\<lparr>tg_L1MaxItems := 10000\<rparr> else g);
          g = (if tg_L1TTL g = 0 then g\<lparr>tg_L1TTL := 5 * minute\<rparr> else g);
          g = (if tg_L2TTL g = 0 then g\<lparr>tg_L2TTL := 60 * minute\<rparr> else g)
      in if tg_CompressionThreshold g = 0 then g\<lparr>tg_CompressionThreshold := 1024\<rparr> else g)"

definition no_stats :: cache_stats where
  "no_stats = \<lparr>cs_l1Hits = 0, cs_l1Misses = 0, cs_l2Hits = 0, cs_l2Misses = 0, cs_totalRequests = 0, cs_totalErrors = 0,
     cs_compressionSaved = 0, cs_compressionCount = 0\<rparr>"

text \<open>\<open>ping\<close> is the error of the first connection to the server, in the state \<open>r\<close>.\<close>

definition NewTieredCache :: "go_time \<Rightarrow> string option \<Rightarrow> 's \<Rightarrow> tiered_config option \<Rightarrow> string + 's tiered_cache" where
  "NewTieredCache now ping r config =
     (let g = tiered_defaults (case config of None \<Rightarrow> DefaultTieredCacheConfig | Some g \<Rightarrow> g);
          tc = \<lparr>tc_l1 = NewEdgeCache (tg_L1MaxItems g) (tg_L1TTL g), tc_redis = r, tc_redisEnabled = False, tc_config = g,
                tc_stats = no_stats, tc_redisHealthy = False, tc_lastHealthCheck = 0, tc_jobs = []\<rparr>
      in if tg_RedisEnabled g \<and> tg_RedisAddr g \<noteq> '''' then
           (case ping of
              None \<Rightarrow> Inr (tc\<lparr>tc_redisEnabled := True, tc_redisHealthy := True, tc_lastHealthCheck := now\<rparr>)
            | Some e \<Rightarrow>
                if tg_RedisFallbackMode g then Inr tc
                else Inl (''redis initialization failed: redis ping failed: '' @ e))
         else Inr tc)"

definition makeRedisKey :: "string \<Rightarrow> string" where "makeRedisKey key = ''edge_mcp:cache:'' @ key"

definition isCompressed :: "u8 list \<Rightarrow> bool" where
  "isCompressed data \<longleftrightarrow> 2 \<le> length data \<and> data ! 0 = 0x1f \<and> data ! 1 = 0x8b"

definition start_job :: "tc_job \<Rightarrow> 's tiered_cache \<Rightarrow> 's tiered_cache" where
  "start_job j s = s\<lparr>tc_jobs := tc_jobs s @ [j]\<rparr>"

definition isRedisAvailable :: "go_time \<Rightarrow> 's tiered_cache \<Rightarrow> bool \<times> 's tiered_cache" where
  "isRedisAvailable now s =
     (if \<not> tc_redisEnabled s then (False, s)
      else (tc_redisHealthy s,
            if 30 * second < time_sub now (tc_lastHealthCheck s) then start_job HealthCheck s else s))"

definition handleRedisError :: "'s tiered_cache \<Rightarrow> 's tiered_cache" where
  "handleRedisError s = start_job HealthCheck (s\<lparr>tc_redisHealthy := False\<rparr>)"

definition checkRedisHealth :: "go_time \<Rightarrow> bool \<Rightarrow> 's tiered_cache \<Rightarrow> 's tiered_cache" where
  "checkRedisHealth now pong s = s\<lparr>tc_redisHealthy := pong, tc_lastHealthCheck := now\<rparr>"

definition stat :: "(cache_stats \<Rightarrow> cache_stats) \<Rightarrow> 's tiered_cache \<Rightarrow> 's tiered_cache" where
  "stat f s = s\<lparr>tc_stats := f (tc_stats s)\<rparr>"

abbreviation l1Hit :: "cache_stats \<Rightarrow> cache_stats" where "l1Hit c \<equiv> c\<lparr>cs_l1Hits := cs_l1Hits c + 1\<rparr>"
abbreviation l1Miss :: "cache_stats \<Rightarrow> cache_stats" where "l1Miss c \<equiv> c\<lparr>cs_l1Misses := cs_l1Misses c + 1\<rparr>"
abbreviation l2Hit :: "cache_stats \<Rightarrow> cache_stats" where "l2Hit c \<equiv> c\<lparr>cs_l2Hits := cs_l2Hits c + 1\<rparr>"
abbreviation l2Miss :: "cache_stats \<Rightarrow> cache_stats" where "l2Miss c \<equiv> c\<lparr>cs_l2Misses := cs_l2Misses c + 1\<rparr>"
abbreviation oneRequest :: "cache_stats \<Rightarrow> cache_stats" where "oneRequest c \<equiv> c\<lparr>cs_totalRequests := cs_totalRequests c + 1\<rparr>"
abbreviation oneError :: "cache_stats \<Rightarrow> cache_stats" where "oneError c \<equiv> c\<lparr>cs_totalErrors := cs_totalErrors c + 1\<rparr>"

text \<open>What \<open>Get\<close> does with the bytes it has read from Redis.\<close>

definition read_data :: "codec \<Rightarrow> string \<Rightarrow> target \<Rightarrow> u8 list \<Rightarrow> 's tiered_cache \<Rightarrow> (string + cval) \<times> 's tiered_cache" where
  "read_data cd key ty data s =
     (case (if tg_EnableCompression (tc_config s) \<and> isCompressed data then cd_gunzip cd data else Some data) of
        None \<Rightarrow> (Inl ''failed to decompress value'', stat oneError s)
      | Some data \<Rightarrow>
          (case cd_Unmarshal cd ty data of
             None \<Rightarrow> (Inl ''failed to unmarshal value'', stat oneError s)
           | Some v \<Rightarrow> (Inr v, start_job (Promote key (CPtr v)) s)))"

definition tc_Get :: "(u8 list, 's) redis \<Rightarrow> codec \<Rightarrow> go_time \<Rightarrow> string \<Rightarrow> target \<Rightarrow> 's tiered_cache \<Rightarrow> (string + cval) \<times> 's tiered_cache" where
  "tc_Get rd cd now key ty s =
     (let s = stat oneRequest s
      in case ec_Get now key ty (tc_l1 s) of
           Inr v \<Rightarrow> (Inr v, stat l1Hit s)
         | Inl _ \<Rightarrow>
             (let (up, s) = isRedisAvailable now (stat l1Miss s)
              in if \<not> up then (Inl (''key not found: '' @ key), s)
                 else case rd_Get rd now (makeRedisKey key) (tc_redis s) of
                   Inr None \<Rightarrow> (Inl (''key not found: '' @ key), stat l2Miss s)
                 | Inl e \<Rightarrow> (Inl (''key not found: '' @ key), stat oneError (handleRedisError s))
                 | Inr (Some data) \<Rightarrow> read_data cd key ty data (stat l2Hit s)))"

definition tc_Set :: "range_order \<Rightarrow> go_time \<Rightarrow> string \<Rightarrow> cval \<Rightarrow> duration \<Rightarrow> 's tiered_cache \<Rightarrow> 's tiered_cache" where
  "tc_Set rng now key v ttl s =
     (let s = s\<lparr>tc_l1 := ec_Set rng now key v ttl (tc_l1 s)\<rparr>; (up, s) = isRedisAvailable now s
      in if up then start_job (SetRedis key v ttl) s else s)"

definition setRedisAsync :: "(u8 list, 's) redis \<Rightarrow> codec \<Rightarrow> go_time \<Rightarrow> string \<Rightarrow> cval \<Rightarrow> duration \<Rightarrow> 's tiered_cache \<Rightarrow> 's tiered_cache" where
  "setRedisAsync rd cd now key v ttl s =
     (case cd_Marshal cd v of
        None \<Rightarrow> stat oneError s
      | Some data \<Rightarrow>
          (let big = (tg_EnableCompression (tc_config s) \<and> tg_CompressionThreshold (tc_config s) \<le> int (length data));
               packed = (if big then cd_gzip cd data else None);
               s = (case packed of
                      None \<Rightarrow> s
                    | Some z \<Rightarrow> stat (\<lambda>c. c\<lparr>cs_compressionSaved := cs_compressionSaved c + (int (length data) - int (length z)),
                                  cs_compressionCount := cs_compressionCount c + 1\<rparr>) s);
               data = (case packed of None \<Rightarrow> data | Some z \<Rightarrow> z);
               ttl = (if ttl = 0 then tg_L2TTL (tc_config s) else ttl);
               (err, r) = rd_Set rd now (makeRedisKey key) data ttl (tc_redis s);
               s = s\<lparr>tc_redis := r\<rparr>
           in if err = None then s else stat oneError (handleRedisError s)))"

definition tc_Delete :: "(u8 list, 's) redis \<Rightarrow> go_time \<Rightarrow> string \<Rightarrow> 's tiered_cache \<Rightarrow> 's tiered_cache" where
  "tc_Delete rd now key s =
     (let s = s\<lparr>tc_l1 := ec_Delete key (tc_l1 s)\<rparr>; (up, s) = isRedisAvailable now s
      in if up then
           let (err, r) = rd_Del rd now (makeRedisKey key) (tc_redis s); s = s\<lparr>tc_redis := r\<rparr>
           in if err = None then s else handleRedisError s
         else s)"

text \<open>\<open>InvalidatePattern\<close> with a pattern that has no special characters.\<close>

definition InvalidatePattern :: "(u8 list, 's) redis \<Rightarrow> go_time \<Rightarrow> string \<Rightarrow> 's tiered_cache \<Rightarrow> string option \<times> 's tiered_cache" where
  "InvalidatePattern rd now pattern s =
     (let (up, s) = isRedisAvailable now s
      in if \<not> up then (None, s)
         else case rd_Keys rd now (makeRedisKey pattern) (tc_redis s) of
           Inl e \<Rightarrow> (Some (''redis scan failed: '' @ e), s)
         | Inr keys \<Rightarrow> (None, s\<lparr>tc_redis := foldl (\<lambda>r k. snd (rd_Del rd now k r)) (tc_redis s) keys\<rparr>))"

definition WarmCache :: "(u8 list, 's) redis \<Rightarrow> codec \<Rightarrow> go_time \<Rightarrow> string list \<Rightarrow> 's tiered_cache \<Rightarrow> 's tiered_cache" where
  "WarmCache rd cd now keys s =
     (let (up, s) = isRedisAvailable now s
      in if up then foldl (\<lambda>s key. snd (tc_Get rd cd now key TInterface s)) s keys else s)"

text \<open>A goroutine runs: the one at position \<open>i\<close> of those that are waiting.\<close>

definition run_job ::
  "(u8 list, 's) redis \<Rightarrow> codec \<Rightarrow> range_order \<Rightarrow> bool \<Rightarrow> go_time \<Rightarrow> nat \<Rightarrow> 's tiered_cache \<Rightarrow> 's tiered_cache" where
  "run_job rd cd rng pong now i s =
     (if i < length (tc_jobs s) then
        let j = tc_jobs s ! i; s = s\<lparr>tc_jobs := take i (tc_jobs s) @ drop (Suc i) (tc_jobs s)\<rparr>
        in case j of
             SetRedis key v ttl \<Rightarrow> setRedisAsync rd cd now key v ttl s
           | Promote key v \<Rightarrow> s\<lparr>tc_l1 := ec_Set rng now key v (tg_L1TTL (tc_config s)) (tc_l1 s)\<rparr>
           | HealthCheck \<Rightarrow> checkRedisHealth now pong s
      else s)"

section \<open>Size of the in-memory cache\<close>

lemma in_dom: "k \<in> fset (fmdom m) \<longleftrightarrow> fmlookup m k \<noteq> None"
  by (metis fmdom_notI fmlookup_dom_iff not_None_eq)

lemma fm_size_simps [simp]:
  "0 \<le> fm_size m" "fm_size fmempty = 0"
  "fm_size (fmupd k v m) = (if fmlookup m k = None then fm_size m + 1 else fm_size m)"
  by (simp_all add: fm_size_def fcard.rep_eq card_insert_if in_dom)

lemma fm_size_drop [simp]: "fm_size (fmdrop k m) = (if fmlookup m k = None then fm_size m else fm_size m - 1)"
proof -
  have "0 < card (fset (fmdom m))" if "fmlookup m k \<noteq> None"
    using that in_dom [of k m] by (metis card_gt_0_iff empty_iff finite_fset)
  then show ?thesis by (auto simp: fm_size_def fcard.rep_eq card_Diff_singleton_if in_dom)
qed

lemma fm_size_zero: "fm_size m = 0 \<longleftrightarrow> m = fmempty"
proof
  assume "fm_size m = 0"
  then have "fset (fmdom m) = {}" by (simp add: fm_size_def fcard.rep_eq)
  then show "m = fmempty" by (intro fmap_ext) (metis empty_iff fmempty_lookup in_dom)
qed simp

definition orders :: "range_order \<Rightarrow> bool" where
  "orders rng \<longleftrightarrow> (\<forall>n m. enumerates (rng n m) m)"

lemma drop_expired_size: "enumerates xs m \<Longrightarrow> fm_size (drop_expired now xs m) \<in> {fm_size m, fm_size m - 1}"
  by (auto simp: drop_expired_def split: option.split)

lemma drop_first_size: "enumerates xs m \<Longrightarrow> m \<noteq> fmempty \<Longrightarrow> fm_size (drop_first xs m) = fm_size m - 1"
proof (cases xs)
  case Nil
  moreover assume "enumerates xs m" "m \<noteq> fmempty"
  ultimately show ?thesis by (metis enumerates_def fmap_ext fmempty_lookup map_of.simps(1))
next
  case (Cons x ys)
  moreover assume "enumerates xs m"
  ultimately have "fmlookup m (fst x) \<noteq> None" using enumerates_set [of xs m "fst x" "snd x"] by simp
  with Cons show ?thesis by (cases x) (simp add: drop_first_def)
qed

lemma drop_lookup: "fmlookup m k = None \<Longrightarrow> fmlookup (drop_expired now xs m) k = None \<and> fmlookup (drop_first ys m) k = None"
  by (auto simp: drop_expired_def drop_first_def split: option.split list.split)

lemma ec_Set_size:
  assumes "orders rng" "ec_Size c \<le> max 1 (ec_maxItems c)"
  shows "ec_Size (ec_Set rng now key v ttl c) \<le> max 1 (ec_maxItems c)"
proof (cases "ec_maxItems c \<le> fm_size (ec_items c) \<and> fmlookup (ec_items c) key = None")
  case True
  let ?m = "drop_expired now (rng 0 (ec_items c)) (ec_items c)"
  let ?n = "drop_first (rng 1 ?m) ?m"
  have k: "fmlookup ?m key = None" "fmlookup ?n key = None" using True drop_lookup by metis+
  have s: "fm_size ?m \<in> {fm_size (ec_items c), fm_size (ec_items c) - 1}"
    using assms(1) by (intro drop_expired_size) (simp add: orders_def)
  have n: "?m \<noteq> fmempty \<Longrightarrow> fm_size ?n = fm_size ?m - 1"
    using assms(1) by (intro drop_first_size) (simp_all add: orders_def)
  have e: "?m = fmempty \<Longrightarrow> fm_size ?n = 0" using assms(1) by (auto simp: drop_first_def split: list.split)
  show ?thesis using True k s n e assms(2) fm_size_zero [of ?m]
    by (auto simp: ec_Set_def ec_Size_def Let_def)
next
  case False
  then show ?thesis using assms(2) by (auto simp: ec_Set_def ec_Size_def Let_def)
qed

lemma cleanup_size: "ec_Size (cleanupExpired now c) \<le> ec_Size c"
  by (auto simp: ec_Size_def cleanupExpired_def fm_size_def fcard.rep_eq intro!: card_mono)

lemma ec_Set_maxItems [simp]: "ec_maxItems (ec_Set rng now key v ttl c) = ec_maxItems c" "ec_maxItems (ec_Delete key c) = ec_maxItems c"
  by (simp_all add: ec_Set_def ec_Delete_def Let_def)

lemma ec_Delete_size: "ec_Size (ec_Delete key c) \<le> ec_Size c"
  by (simp add: ec_Size_def ec_Delete_def)

lemma ec_Get_Set:
  "ec_Get now' key ty (ec_Set rng now key v ttl c) =
     (let ttl = (if ttl = 0 then ec_defaultTTL c else ttl)
      in if now + ttl < now' then Inl (''key expired: '' @ key)
         else case assign ty v of Some w \<Rightarrow> Inr w | None \<Rightarrow> Inl (''type mismatch for key: '' @ key))"
  by (simp add: ec_Get_def ec_Set_def Let_def)

lemma ec_Get_Delete [simp]: "ec_Get now key ty (ec_Delete key c) = Inl (''key not found: '' @ key)"
  by (simp add: ec_Get_def ec_Delete_def)

lemma assign_pointer: "assign ty (CPtr v) = (if ty = TInterface then Some (CPtr v) else None)"
  by (cases ty) auto

section \<open>States of the tiered cache\<close>

lemma tier_simps [simp]:
  "tc_l1 (stat f s) = tc_l1 s" "tc_redis (stat f s) = tc_redis s" "tc_config (stat f s) = tc_config s"
  "tc_jobs (stat f s) = tc_jobs s" "tc_stats (stat f s) = f (tc_stats s)" "tc_redisEnabled (stat f s) = tc_redisEnabled s"
  "tc_redisHealthy (stat f s) = tc_redisHealthy s"
  "tc_l1 (start_job j s) = tc_l1 s" "tc_redis (start_job j s) = tc_redis s" "tc_config (start_job j s) = tc_config s"
  "tc_jobs (start_job j s) = tc_jobs s @ [j]" "tc_stats (start_job j s) = tc_stats s"
  "tc_redisEnabled (start_job j s) = tc_redisEnabled s" "tc_redisHealthy (start_job j s) = tc_redisHealthy s"
  by (simp_all add: stat_def start_job_def)

lemma available_simps [simp]:
  "tc_l1 (snd (isRedisAvailable now s)) = tc_l1 s" "tc_redis (snd (isRedisAvailable now s)) = tc_redis s"
  "tc_config (snd (isRedisAvailable now s)) = tc_config s" "tc_stats (snd (isRedisAvailable now s)) = tc_stats s"
  "tc_redisEnabled (snd (isRedisAvailable now s)) = tc_redisEnabled s" "tc_redisHealthy (snd (isRedisAvailable now s)) = tc_redisHealthy s"
  "fst (isRedisAvailable now s) \<longleftrightarrow> tc_redisEnabled s \<and> tc_redisHealthy s"
  by (simp_all add: isRedisAvailable_def)

lemma error_simps [simp]:
  "tc_l1 (handleRedisError s) = tc_l1 s" "tc_config (handleRedisError s) = tc_config s" "tc_stats (handleRedisError s) = tc_stats s"
  "tc_l1 (checkRedisHealth now p s) = tc_l1 s" "tc_config (checkRedisHealth now p s) = tc_config s"
  "tc_stats (checkRedisHealth now p s) = tc_stats s"
  by (simp_all add: handleRedisError_def checkRedisHealth_def)

text \<open>Any operation, by any caller, or a waiting goroutine that runs.\<close>

inductive tc_step :: "(u8 list, 's) redis \<Rightarrow> codec \<Rightarrow> 's tiered_cache \<Rightarrow> 's tiered_cache \<Rightarrow> bool" for rd cd where
  get: "tc_step rd cd s (snd (tc_Get rd cd now key ty s))"
| set: "orders rng \<Longrightarrow> tc_step rd cd s (tc_Set rng now key v ttl s)"
| delete: "tc_step rd cd s (tc_Delete rd now key s)"
| invalidate: "tc_step rd cd s (snd (InvalidatePattern rd now pattern s))"
| warm: "tc_step rd cd s (WarmCache rd cd now keys s)"
| cleanup: "tc_step rd cd s (s\<lparr>tc_l1 := cleanupExpired now (tc_l1 s)\<rparr>)"
| job: "orders rng \<Longrightarrow> tc_step rd cd s (run_job rd cd rng pong now i s)"

definition counted :: "cache_stats \<Rightarrow> bool" where
  "counted c \<longleftrightarrow> cs_l1Hits c + cs_l1Misses c = cs_totalRequests c \<and> cs_l2Hits c + cs_l2Misses c \<le> cs_l1Misses c
     \<and> 0 \<le> cs_l1Hits c \<and> 0 \<le> cs_l2Hits c \<and> 0 \<le> cs_l2Misses c"

definition tc_ok :: "'s tiered_cache \<Rightarrow> bool" where
  "tc_ok s \<longleftrightarrow> counted (tc_stats s) \<and> ec_Size (tc_l1 s) \<le> max 1 (ec_maxItems (tc_l1 s))
     \<and> ec_maxItems (tc_l1 s) = tg_L1MaxItems (tc_config s)"

lemma counted_simps [simp]:
  "counted (oneError c) = counted c" "counted (c\<lparr>cs_compressionSaved := x, cs_compressionCount := y\<rparr>) = counted c"
  by (simp_all add: counted_def)

lemma tc_ok_simps [simp]:
  "tc_ok (stat oneError s) = tc_ok s" "tc_ok (start_job j s) = tc_ok s" "tc_ok (handleRedisError s) = tc_ok s"
  "tc_ok (checkRedisHealth now p s) = tc_ok s" "tc_ok (snd (isRedisAvailable now s)) = tc_ok s"
  "tc_ok (s\<lparr>tc_redis := r\<rparr>) = tc_ok s" "tc_ok (s\<lparr>tc_jobs := js\<rparr>) = tc_ok s"
  by (simp_all add: tc_ok_def)

lemma ok_read_data [simp]: "tc_ok (snd (read_data cd key ty data s)) = tc_ok s"
  by (auto simp: read_data_def split: option.split)

lemma ok_counts: "tc_ok s \<Longrightarrow> tc_ok (stat l1Hit (stat oneRequest s))" "tc_ok s \<Longrightarrow> tc_ok (stat l1Miss (stat oneRequest s))"
  by (auto simp: tc_ok_def counted_def)

lemma ok_second:
  assumes "tc_ok s" "tc_stats u = l1Miss (oneRequest (tc_stats s))" "tc_l1 u = tc_l1 s" "tc_config u = tc_config s"
  shows "tc_ok u" "tc_ok (stat l2Hit u)" "tc_ok (stat l2Miss u)"
  using assms by (auto simp: tc_ok_def counted_def)

lemma ok_Get: "tc_ok s \<Longrightarrow> tc_ok (snd (tc_Get rd cd now key ty s))"
proof -
  assume ok: "tc_ok s"
  let ?u = "snd (isRedisAvailable now (stat l1Miss (stat oneRequest s)))"
  have u: "tc_ok ?u" "tc_ok (stat l2Hit ?u)" "tc_ok (stat l2Miss ?u)" by (rule ok_second [OF ok]; simp)+
  show ?thesis
    using ok_counts(1) [OF ok] u
    by (simp add: tc_Get_def Let_def split_beta del: available_simps(7) split: sum.split option.split)
qed

lemma ok_l1:
  "tc_ok s \<Longrightarrow> ec_Size c \<le> max 1 (ec_maxItems (tc_l1 s)) \<Longrightarrow> ec_maxItems c = ec_maxItems (tc_l1 s) \<Longrightarrow> tc_ok (s\<lparr>tc_l1 := c\<rparr>)"
  by (auto simp: tc_ok_def)

lemma ok_l1_Set: "orders rng \<Longrightarrow> tc_ok s \<Longrightarrow> tc_ok (s\<lparr>tc_l1 := ec_Set rng now key v ttl (tc_l1 s)\<rparr>)"
  by (rule ok_l1, assumption, rule ec_Set_size) (auto simp: tc_ok_def)

lemma ok_l1_less: "tc_ok s \<Longrightarrow> ec_Size c \<le> ec_Size (tc_l1 s) \<Longrightarrow> ec_maxItems c = ec_maxItems (tc_l1 s) \<Longrightarrow> tc_ok (s\<lparr>tc_l1 := c\<rparr>)"
  by (rule ok_l1) (auto simp: tc_ok_def)

lemma ok_Set: "orders rng \<Longrightarrow> tc_ok s \<Longrightarrow> tc_ok (tc_Set rng now key v ttl s)"
  by (simp add: tc_Set_def Let_def split_beta ok_l1_Set del: available_simps(7))

lemma ok_Delete: "tc_ok s \<Longrightarrow> tc_ok (tc_Delete rd now key s)"
  using ok_l1_less [of s "ec_Delete key (tc_l1 s)"] ec_Delete_size [of key "tc_l1 s"]
  by (simp add: tc_Delete_def Let_def split_beta del: available_simps(7))

lemma ok_compression [simp]:
  "tc_ok (stat (\<lambda>c. c\<lparr>cs_compressionSaved := cs_compressionSaved c + a, cs_compressionCount := cs_compressionCount c + b\<rparr>) s) = tc_ok s"
  by (simp add: tc_ok_def)

lemma ok_setRedis: "tc_ok s \<Longrightarrow> tc_ok (setRedisAsync rd cd now key v ttl s)"
  by (simp add: setRedisAsync_def Let_def split_beta split: option.split)

lemma ok_job: "orders rng \<Longrightarrow> tc_ok s \<Longrightarrow> tc_ok (run_job rd cd rng pong now i s)"
proof (cases "i < length (tc_jobs s)")
  case True
  let ?s = "s\<lparr>tc_jobs := take i (tc_jobs s) @ drop (Suc i) (tc_jobs s)\<rparr>"
  assume "orders rng" "tc_ok s"
  with ok_l1_Set [of rng ?s] True show ?thesis by (cases "tc_jobs s ! i") (simp_all add: run_job_def Let_def ok_setRedis)
qed (simp add: run_job_def)

lemma ok_Warm: "tc_ok s \<Longrightarrow> tc_ok (WarmCache rd cd now keys s)"
proof -
  have "tc_ok s \<Longrightarrow> tc_ok (foldl (\<lambda>s key. snd (tc_Get rd cd now key TInterface s)) s keys)" for s :: "'a tiered_cache"
    by (induction keys arbitrary: s) (auto intro: ok_Get)
  then show "tc_ok s \<Longrightarrow> ?thesis" by (simp add: WarmCache_def Let_def split_beta)
qed

lemma ok_step: "tc_step rd cd s s' \<Longrightarrow> tc_ok s \<Longrightarrow> tc_ok s'"
proof (induction rule: tc_step.induct)
  case (invalidate s now pattern)
  then show ?case by (simp add: InvalidatePattern_def Let_def split_beta split: sum.split)
next
  case (cleanup s now)
  then show ?case using cleanup_size [of now "tc_l1 s"] by (auto intro!: ok_l1_less simp: cleanupExpired_def)
qed (auto intro: ok_Get ok_Set ok_Delete ok_Warm ok_job)

lemma tc_ok_run: "(tc_step rd cd)\<^sup>*\<^sup>* s s' \<Longrightarrow> tc_ok s \<Longrightarrow> tc_ok s'"
  by (induction rule: rtranclp_induct) (auto intro: ok_step)

lemma ok_New: "NewTieredCache now ping r config = Inr s \<Longrightarrow> tc_ok s"
  by (auto simp: NewTieredCache_def Let_def tc_ok_def NewEdgeCache_def ec_Size_def no_stats_def counted_def
      split: if_splits option.splits)

section \<open>Properties\<close>

text \<open>C38 Whatever operations callers make on a tiered cache and in whatever order its goroutines run, the first
  tier never holds more than its limit, every request is counted as a hit or a miss of the first tier, and
  the second tier is asked at most once for each miss.\<close>

theorem tiered_cache_invariant:
  assumes "NewTieredCache now ping r config = Inr s" "(tc_step rd cd)\<^sup>*\<^sup>* s s'"
  shows "ec_Size (tc_l1 s') \<le> max 1 (tg_L1MaxItems (tc_config s')) \<and>
    cs_l1Hits (tc_stats s') + cs_l1Misses (tc_stats s') = cs_totalRequests (tc_stats s') \<and>
    cs_l2Hits (tc_stats s') + cs_l2Misses (tc_stats s') \<le> cs_l1Misses (tc_stats s')"
  using tc_ok_run [OF assms(2) ok_New [OF assms(1)]] by (auto simp: tc_ok_def counted_def)

theorem tiered_cache_invariant_witness:
  "let s = projr (NewTieredCache 0 None fmempty None);
       s' = snd (tc_Get mem_redis \<lparr>cd_Marshal = \<lambda>v. None, cd_Unmarshal = \<lambda>t b. None, cd_gzip = \<lambda>b. None, cd_gunzip = \<lambda>b. None\<rparr> 0 ''k'' TString s)
   in ec_Size (tc_l1 s') \<le> max 1 (tg_L1MaxItems (tc_config s')) \<and>
      cs_l1Hits (tc_stats s') + cs_l1Misses (tc_stats s') = cs_totalRequests (tc_stats s')"
proof -
  let ?cd = "\<lparr>cd_Marshal = \<lambda>v. None, cd_Unmarshal = \<lambda>t b. None, cd_gzip = \<lambda>b. None, cd_gunzip = \<lambda>b. None\<rparr>"
  obtain s where s: "NewTieredCache 0 None (fmempty :: (string, u8 list \<times> go_time option) fmap) None = Inr s"
    by (simp add: NewTieredCache_def Let_def tiered_defaults_def DefaultTieredCacheConfig_def)
  have "(tc_step mem_redis ?cd)\<^sup>*\<^sup>* s (snd (tc_Get mem_redis ?cd 0 ''k'' TString s))" by (rule r_into_rtranclp, rule get)
  from tiered_cache_invariant [OF s this] show ?thesis by (simp add: s Let_def)
qed

text \<open>What \<open>Set\<close> has stored \<open>Get\<close> returns, until its time to live has passed: from the first tier right away,
  whatever the state of Redis, converted to the type of the target.\<close>

theorem tiered_read_your_write:
  assumes "assign ty v = Some w" "0 < ttl" "now' \<le> now + ttl"
  shows "fst (tc_Get rd cd now' key ty (tc_Set rng now key v ttl s)) = Inr w"
  using assms by (simp add: tc_Get_def tc_Set_def Let_def split_beta ec_Get_Set)

theorem tiered_read_your_write_witness:
  "fst (tc_Get mem_redis \<lparr>cd_Marshal = \<lambda>v. None, cd_Unmarshal = \<lambda>t b. None, cd_gzip = \<lambda>b. None, cd_gunzip = \<lambda>b. None\<rparr> 5 ''k'' TMapAny
     (tc_Set (\<lambda>n. go_range) 0 ''k'' (CMapInt (fmupd ''a'' 1 fmempty)) second
       (projr (NewTieredCache 0 None fmempty None)))) = Inr (CMapAny (fmmap VInt (fmupd ''a'' 1 fmempty)))"
  by (rule tiered_read_your_write) (simp_all add: time_units)

text \<open>C31 The second tier gives back what was written to it, compressed or not: once the goroutine of \<open>Set\<close> has
  stored a value in Redis, a \<open>Get\<close> that finds nothing in the first tier returns the value as JSON carries it.
  Compression must be lossless and marked by its two magic bytes, which no JSON text starts with.\<close>

theorem tiered_redis_round_trip:
  assumes "redis_server rd ent" "cd_Marshal cd v = Some data" "cd_Unmarshal cd ty data = Some w"
    and "\<And>d z. cd_gzip cd d = Some z \<Longrightarrow> isCompressed z \<and> cd_gunzip cd z = Some d" "\<not> isCompressed data"
    and "let n = (if ttl = 0 then tg_L2TTL (tc_config s) else ttl) in whole n \<and> (n = 0 \<or> now' < now + n)"
    and "tc_redisEnabled s" "tc_redisHealthy s"
    and "s' = setRedisAsync rd cd now key v ttl s" "tc_redisHealthy s'" "\<forall>e. rd_Get rd now' (makeRedisKey key) (tc_redis s') \<noteq> Inl e"
    and "isl (ec_Get now' key ty (tc_l1 s'))"
  shows "fst (tc_Get rd cd now' key ty s') = Inr w"
proof -
  let ?z = "if tg_EnableCompression (tc_config s) \<and> tg_CompressionThreshold (tc_config s) \<le> int (length data)
    then cd_gzip cd data else None"
  let ?d = "case ?z of None \<Rightarrow> data | Some z \<Rightarrow> z" and ?n = "if ttl = 0 then tg_L2TTL (tc_config s) else ttl"
  let ?set = "rd_Set rd now (makeRedisKey key) ?d ?n (tc_redis s)"
  have n: "whole ?n" "?n = 0 \<or> now' < now + ?n" using assms(6) by (auto simp: Let_def)
  have s': "fst ?set = None" "tc_redis s' = snd ?set" "tc_config s' = tc_config s" "tc_redisEnabled s'"
    using assms(2,7,8,10) unfolding assms(9)
    by (auto simp: setRedisAsync_def Let_def split_beta handleRedisError_def split: option.splits if_splits)
  have "ent (tc_redis s') (makeRedisKey key) = Some (?d, deadline now ?n)"
    using redis_server.Set_value [OF assms(1) n(1), of now "makeRedisKey key" ?d "tc_redis s"] s'(1,2) by simp
  then have "entry now' (ent (tc_redis s')) (makeRedisKey key) = Some (?d, deadline now ?n)"
    using n(2) by (auto simp: entry_Some deadline_def)
  then have g: "rd_Get rd now' (makeRedisKey key) (tc_redis s') = Inr (Some ?d)"
    using redis_server.Get [OF assms(1), of now' "makeRedisKey key" "tc_redis s'"] assms(11)
    by (cases "rd_Get rd now' (makeRedisKey key) (tc_redis s')") auto
  have "(if tg_EnableCompression (tc_config s) \<and> isCompressed ?d then cd_gunzip cd ?d else Some ?d) = Some data"
    using assms(4) [of data] assms(5) by (auto split: option.split)
  then have "fst (read_data cd key ty ?d (stat l2Hit (snd (isRedisAvailable now' (stat l1Miss (stat oneRequest s')))))) = Inr w"
    using s'(3) assms(3) by (simp add: read_data_def)
  then show ?thesis using assms(10,12) s'(4) g by (auto simp: tc_Get_def Let_def split_beta isl_def)
qed

theorem tiered_redis_round_trip_witness:
  "let cd = \<lparr>cd_Marshal = \<lambda>v. Some [34, 97, 34], cd_Unmarshal = \<lambda>t b. Some (CString ''a''),
              cd_gzip = \<lambda>b. Some (0x1f # 0x8b # b), cd_gunzip = \<lambda>b. Some (drop 2 b)\<rparr>;
       s = projr (NewTieredCache 0 None fmempty (Some (DefaultTieredCacheConfig\<lparr>tg_RedisEnabled := True, tg_RedisAddr := ''r'',
             tg_CompressionThreshold := 1\<rparr>)));
       s' = setRedisAsync mem_redis cd 0 ''k'' (CString ''a'') second s
   in fst (tc_Get mem_redis cd 5 ''k'' TString s') = Inr (CString ''a'')"
proof -
  let ?cd = "\<lparr>cd_Marshal = \<lambda>v. Some [34, 97, 34], cd_Unmarshal = \<lambda>t b. Some (CString ''a''),
     cd_gzip = \<lambda>b. Some (0x1f # 0x8b # b), cd_gunzip = \<lambda>b. Some (drop 2 b)\<rparr>"
  let ?s = "projr (NewTieredCache 0 None (fmempty :: (string, u8 list \<times> go_time option) fmap)
     (Some (DefaultTieredCacheConfig\<lparr>tg_RedisEnabled := True, tg_RedisAddr := ''r'', tg_CompressionThreshold := 1\<rparr>)))"
  have s: "tc_redisEnabled ?s" "tc_redisHealthy ?s" "tc_l1 ?s = NewEdgeCache 10000 (5 * minute)"
    by (simp_all add: NewTieredCache_def Let_def tiered_defaults_def DefaultTieredCacheConfig_def minute_def second_def)
  have h: "tc_redisHealthy (setRedisAsync mem_redis ?cd 0 ''k'' (CString ''a'') second ?s)"
    "tc_l1 (setRedisAsync mem_redis ?cd 0 ''k'' (CString ''a'') second ?s) = tc_l1 ?s"
    using s by (simp_all add: setRedisAsync_def Let_def)
  have "isl (ec_Get 5 ''k'' TString (tc_l1 (setRedisAsync mem_redis ?cd 0 ''k'' (CString ''a'') second ?s)))"
    unfolding h(2) s(3) by (simp add: ec_Get_def NewEdgeCache_def)
  from tiered_redis_round_trip [OF mem.redis_server_axioms _ _ _ _ _ s(1,2) refl h(1) _ this]
  show ?thesis unfolding Let_def by (simp add: isCompressed_def whole_def time_units)
qed

text \<open>The first tier is filled with the pointer that \<open>Get\<close> was given, not with the value it points to: after a hit
  in Redis the entry does not match the type of any later request, which goes to Redis again, and a request for
  an \<open>interface{}\<close> gets the pointer.\<close>

theorem promotion_useless:
  assumes "rd_Get rd now (makeRedisKey key) (tc_redis s) = Inr (Some data)" "isl (ec_Get now key ty (tc_l1 s))"
    and "tc_redisEnabled s" "tc_redisHealthy s" "time_sub now (tc_lastHealthCheck s) \<le> 30 * second" "tc_jobs s = []"
    and "fst (tc_Get rd cd now key ty s) = Inr v"
  shows "\<exists>job. tc_jobs (snd (tc_Get rd cd now key ty s)) = [job] \<and>
    isl (ec_Get now' key ty' (tc_l1 (run_job rd cd rng pong now 0 (snd (tc_Get rd cd now key ty s)))))
      = (ty' \<noteq> TInterface \<or> now + (if tg_L1TTL (tc_config s) = 0 then ec_defaultTTL (tc_l1 s) else tg_L1TTL (tc_config s)) < now')"
proof -
  define u where "u = stat l2Hit (stat l1Miss (stat oneRequest s))"
  have "tc_Get rd cd now key ty s = read_data cd key ty data u"
    using assms(1-5) unfolding u_def
    by (auto simp: tc_Get_def Let_def split_beta isl_def) (simp_all add: isRedisAvailable_def stat_def)
  with assms(7) have eq: "snd (tc_Get rd cd now key ty s) = start_job (Promote key (CPtr v)) u"
    by (auto simp: read_data_def split: option.splits)
  have u: "tc_jobs u = []" "tc_l1 u = tc_l1 s" "tc_config u = tc_config s" by (simp_all add: u_def assms(6))
  show ?thesis unfolding eq by (simp add: run_job_def Let_def u ec_Get_Set assign_pointer)
qed

text \<open>\<open>Delete\<close> does not wait for the goroutine of an earlier \<open>Set\<close>: when it runs afterwards, the deleted value is
  back in Redis.\<close>

theorem deleted_value_returns:
  assumes "redis_server rd ent" "cd_Marshal cd v = Some data" "tg_EnableCompression (tc_config s) = False"
    and "whole ttl" "0 < ttl" "tc_redisHealthy (setRedisAsync rd cd now key v ttl (tc_Delete rd now key s))"
    and "tc_redisHealthy (tc_Delete rd now key s)"
  shows "entry now (ent (tc_redis (setRedisAsync rd cd now key v ttl (tc_Delete rd now key s)))) (makeRedisKey key)
    = Some (data, Some (now + ttl))"
proof -
  let ?s = "tc_Delete rd now key s"
  let ?set = "rd_Set rd now (makeRedisKey key) data ttl (tc_redis ?s)"
  have "tc_config ?s = tc_config s" by (simp add: tc_Delete_def Let_def split_beta)
  then have "fst ?set = None" "tc_redis (setRedisAsync rd cd now key v ttl ?s) = snd ?set"
    using assms(2,3,5,6,7) by (auto simp: setRedisAsync_def Let_def split_beta handleRedisError_def split: if_splits)
  with redis_server.Set_value [OF assms(1,4), of now "makeRedisKey key" data "tc_redis ?s"] assms(5)
  show ?thesis by (simp add: entry_Some deadline_def)
qed

end
