(* ===== verification/Session_Store.thy ===== *)
theory Session_Store
  imports Redis_Spec Uuid_Text
begin

text \<open>
  Sessions of edge clients: the data of \<open>pkg/models/session.go\<close> and \<open>passthrough_auth.go\<close>, and the
  repository \<open>pkg/repository/session_repository.go\<close> over the tables of migration 24.

  A table is the list of its rows.  The errors the driver reports for a statement are the function
  \<open>sv_db\<close>, the order of the rows of a query that sorts by a column named in a filter is \<open>sv_order\<close>, and
  \<open>CURRENT_TIMESTAMP\<close> is the clock of the service, \<open>sv_now\<close>.  Instants are whole microseconds, so that
  columns and JSON texts keep them.
\<close>

section \<open>Model: data\<close>

datatype session_status = SessionStatusActive | SessionStatusIdle | SessionStatusExpired | SessionStatusTerminated

primrec status_text :: "session_status \<Rightarrow> string" where
  "status_text SessionStatusActive = ''active''"
| "status_text SessionStatusIdle = ''idle''"
| "status_text SessionStatusExpired = ''expired''"
| "status_text SessionStatusTerminated = ''terminated''"

definition client_types :: "string list" where
  "client_types = [''claude-code'', ''ide'', ''agent'', ''cli'']"

record passthrough_credential =
  pc_Type :: string
  pc_Token :: string
  pc_Username :: string
  pc_Password :: string
  pc_KeyName :: string
  pc_KeyValue :: string
  pc_Properties :: "(string, string) fmap"

record oauth_token =
  ot_AccessToken :: string
  ot_RefreshToken :: string
  ot_TokenType :: string
  ot_ExpiresAt :: go_time
  ot_Scope :: string

record agent_context =
  ac_AgentType :: string
  ac_AgentID :: string
  ac_UserID :: string
  ac_SessionID :: string
  ac_Environment :: string

record auth_bundle =
  pa_Credentials :: "(string, passthrough_credential) fmap"
  pa_SessionTokens :: "(string, string) fmap"
  pa_OAuthTokens :: "(string, oauth_token) fmap"
  pa_CustomHeaders :: "(string, string) fmap"
  pa_AgentContext :: "agent_context option"

record edge_session =
  se_ID :: uuid
  se_SessionID :: string
  se_TenantID :: uuid
  se_UserID :: "uuid option"
  se_EdgeMCPID :: string
  se_ClientName :: "string option"
  se_ClientType :: "string option"
  se_ClientVersion :: "string option"
  se_Status :: session_status
  se_Initialized :: bool
  se_CoreSessionID :: "string option"
  se_PassthroughAuth :: "auth_bundle option"
  se_PassthroughAuthEncrypted :: "string option"
  se_ConnectionMetadata :: "string option"
  se_ContextID :: "uuid option"
  se_LastActivityAt :: go_time
  se_ToolExecutionCount :: int
  se_TotalTokensUsed :: int
  se_CreatedAt :: go_time
  se_ExpiresAt :: "go_time option"
  se_TerminatedAt :: "go_time option"
  se_TerminationReason :: "string option"

record tool_execution =
  te_ID :: uuid
  te_SessionID :: uuid
  te_ToolName :: string
  te_ToolID :: "uuid option"
  te_Arguments :: string
  te_Result :: string
  te_Error :: "string option"
  te_DurationMs :: "int option"
  te_TokensUsed :: "int option"
  te_ExecutedAt :: go_time

record session_filter =
  sf_TenantID :: "uuid option"
  sf_UserID :: "uuid option"
  sf_EdgeMCPID :: "string option"
  sf_Status :: "session_status option"
  sf_ClientType :: "string option"
  sf_ActiveOnly :: bool
  sf_Since :: "go_time option"
  sf_Until :: "go_time option"
  sf_Limit :: int
  sf_Offset :: int
  sf_OrderBy :: string
  sf_OrderDesc :: bool

datatype session_error =
    ErrSessionNotFound
  | ErrSessionExpired
  | SDriver string
  | SNew string
  | SLimit int int
  | SValidation string string
  | SWrap string session_error

record session_env =
  sv_now :: go_time
  sv_db :: "string \<Rightarrow> string option"
  sv_order :: "string \<Rightarrow> bool \<Rightarrow> edge_session list \<Rightarrow> edge_session list"
  sv_uuid :: "nat \<Rightarrow> uuid"
  sv_random :: "string option"

record session_db =
  sd_sessions :: "edge_session list"
  sd_executions :: "tool_execution list"

definition zero_session :: edge_session where
  "zero_session =
     \<lparr>se_ID = 0, se_SessionID = '''', se_TenantID = 0, se_UserID = None, se_EdgeMCPID = '''', se_ClientName = None,
      se_ClientType = None, se_ClientVersion = None, se_Status = SessionStatusActive, se_Initialized = False,
      se_CoreSessionID = None, se_PassthroughAuth = None, se_PassthroughAuthEncrypted = None,
      se_ConnectionMetadata = None, se_ContextID = None, se_LastActivityAt = 0, se_ToolExecutionCount = 0,
      se_TotalTokensUsed = 0, se_CreatedAt = 0, se_ExpiresAt = None, se_TerminatedAt = None, se_TerminationReason = None\<rparr>"

section \<open>Model: methods of the data\<close>

definition se_IsActive :: "edge_session \<Rightarrow> bool" where
  "se_IsActive s = (se_Status s = SessionStatusActive)"

definition se_IsExpired :: "go_time \<Rightarrow> edge_session \<Rightarrow> bool" where
  "se_IsExpired now s =
     (if se_Status s = SessionStatusExpired then True
      else case se_ExpiresAt s of Some e \<Rightarrow> e < now | None \<Rightarrow> False)"

text \<open>\<open>totalLifetime * 80 / 100\<close> on \<open>Duration\<close>: the product wraps, the division truncates.\<close>

definition ShouldRefresh :: "go_time \<Rightarrow> edge_session \<Rightarrow> bool" where
  "ShouldRefresh now s =
     (case se_ExpiresAt s of
        None \<Rightarrow> False
      | Some e \<Rightarrow> se_IsActive s \<and>
          (let share = signed_take_bit 63 (time_sub e (se_CreatedAt s) * 80)
           in sgn share * (\<bar>share\<bar> div 100) < time_sub now (se_CreatedAt s)))"

definition ct_Validate :: "string \<Rightarrow> session_error option" where
  "ct_Validate c = (if c \<in> set client_types then None else Some (SNew (''invalid client type: '' @ c)))"

text \<open>The loop stops at the first token without text; which one is found depends on the order of the map.\<close>

definition pa_Validate :: "auth_bundle \<Rightarrow> session_error option" where
  "pa_Validate p =
     (case List.find (\<lambda>(name, token). ot_AccessToken token = '''') (go_range (pa_OAuthTokens p)) of
        Some (name, _) \<Rightarrow> Some (SValidation (''oauth_tokens.'' @ name @ ''.access_token'') ''access token cannot be empty'')
      | None \<Rightarrow> None)"

definition te_Validate :: "tool_execution \<Rightarrow> session_error option" where
  "te_Validate e =
     (if te_SessionID e = 0 then Some (SNew ''session_id is required'')
      else if te_ToolName e = '''' then Some (SNew ''tool_name is required'') else None)"

definition sf_SetDefaults :: "session_filter \<Rightarrow> session_filter" where
  "sf_SetDefaults f =
     (let f = (if sf_Limit f = 0 then f\<lparr>sf_Limit := 100\<rparr> else f)
      in if sf_OrderBy f = '''' then f\<lparr>sf_OrderBy := ''created_at'', sf_OrderDesc := True\<rparr> else f)"

section \<open>Model: the repository\<close>

definition driver :: "session_env \<Rightarrow> string \<Rightarrow> string \<Rightarrow> session_error option" where
  "driver ev stmt msg = map_option (\<lambda>e. SWrap msg (SDriver e)) (sv_db ev stmt)"

text \<open>The columns of a row: the decrypted credentials are not one of them.\<close>

definition session_row :: "edge_session \<Rightarrow> edge_session" where
  "session_row s = s\<lparr>se_PassthroughAuth := None\<rparr>"

text \<open>The table has unique ids and session ids, and allows the known client types only.\<close>

definition insert_violation :: "edge_session \<Rightarrow> session_db \<Rightarrow> string option" where
  "insert_violation s d =
     (if \<exists>r \<in> set (sd_sessions d). se_ID r = se_ID s \<or> se_SessionID r = se_SessionID s
      then Some ''duplicate key value violates unique constraint''
      else case se_ClientType s of
        Some c \<Rightarrow> if c \<in> set client_types then None else Some ''new row violates check constraint''
      | None \<Rightarrow> None)"

definition sr_CreateSession :: "session_env \<Rightarrow> edge_session \<Rightarrow> session_db \<Rightarrow> session_error option \<times> session_db" where
  "sr_CreateSession ev s d =
     (case driver ev ''insert_session'' ''failed to create session'' of
        Some e \<Rightarrow> (Some e, d)
      | None \<Rightarrow>
          (case insert_violation s d of
             Some e \<Rightarrow> (Some (SWrap ''failed to create session'' (SDriver e)), d)
           | None \<Rightarrow> (None, d\<lparr>sd_sessions := sd_sessions d @
               [(session_row s)\<lparr>se_TerminatedAt := None, se_TerminationReason := None\<rparr>]\<rparr>)))"

definition find_session :: "string \<Rightarrow> session_db \<Rightarrow> edge_session option" where
  "find_session sid d = List.find (\<lambda>r. se_SessionID r = sid) (sd_sessions d)"

definition update_sessions :: "(edge_session \<Rightarrow> bool) \<Rightarrow> (edge_session \<Rightarrow> edge_session) \<Rightarrow> session_db \<Rightarrow> session_db" where
  "update_sessions P f d = d\<lparr>sd_sessions := map (\<lambda>r. if P r then f r else r) (sd_sessions d)\<rparr>"

definition rows_where :: "(edge_session \<Rightarrow> bool) \<Rightarrow> session_db \<Rightarrow> int" where
  "rows_where P d = int (length (filter P (sd_sessions d)))"

definition sr_GetSession :: "session_env \<Rightarrow> string \<Rightarrow> session_db \<Rightarrow> (session_error + edge_session) \<times> session_db" where
  "sr_GetSession ev sid d =
     (case driver ev ''get_session'' ''failed to get session'' of
        Some e \<Rightarrow> (Inl e, d)
      | None \<Rightarrow>
          (case find_session sid d of
             None \<Rightarrow> (Inl ErrSessionNotFound, d)
           | Some s \<Rightarrow>
               if se_IsExpired (sv_now ev) s \<and> se_Status s \<noteq> SessionStatusExpired
               then (Inr (s\<lparr>se_Status := SessionStatusExpired\<rparr>),
                     if sv_db ev ''expire_session'' = None
                     then update_sessions (\<lambda>r. se_SessionID r = sid) (\<lambda>r. r\<lparr>se_Status := SessionStatusExpired\<rparr>) d
                     else d)
               else (Inr s, d)))"

definition sr_GetSessionByID :: "session_env \<Rightarrow> uuid \<Rightarrow> session_db \<Rightarrow> session_error + edge_session" where
  "sr_GetSessionByID ev i d =
     (case driver ev ''get_session_by_id'' ''failed to get session by ID'' of
        Some e \<Rightarrow> Inl e
      | None \<Rightarrow> (case List.find (\<lambda>r. se_ID r = i) (sd_sessions d) of None \<Rightarrow> Inl ErrSessionNotFound | Some s \<Rightarrow> Inr s))"

definition update_columns :: "edge_session \<Rightarrow> edge_session \<Rightarrow> edge_session" where
  "update_columns s r = r\<lparr>se_Status := se_Status s, se_Initialized := se_Initialized s, se_CoreSessionID := se_CoreSessionID s,
     se_PassthroughAuthEncrypted := se_PassthroughAuthEncrypted s, se_ConnectionMetadata := se_ConnectionMetadata s,
     se_ContextID := se_ContextID s, se_LastActivityAt := se_LastActivityAt s,
     se_ToolExecutionCount := se_ToolExecutionCount s, se_TotalTokensUsed := se_TotalTokensUsed s,
     se_ExpiresAt := se_ExpiresAt s, se_TerminatedAt := se_TerminatedAt s, se_TerminationReason := se_TerminationReason s\<rparr>"

text \<open>An \<open>UPDATE\<close> that must touch a row.\<close>

definition sr_UpdateSession :: "session_env \<Rightarrow> edge_session \<Rightarrow> session_db \<Rightarrow> session_error option \<times> session_db" where
  "sr_UpdateSession ev s d =
     (case driver ev ''update_session'' ''failed to update session'' of
        Some e \<Rightarrow> (Some e, d)
      | None \<Rightarrow>
          let P = (\<lambda>r. se_SessionID r = se_SessionID s); d' = update_sessions P (update_columns s) d
          in if sv_db ev ''rows_affected'' \<noteq> None then (driver ev ''rows_affected'' ''failed to get rows affected'', d')
             else if rows_where P d = 0 then (Some ErrSessionNotFound, d') else (None, d'))"

definition sr_UpdateSessionActivity :: "session_env \<Rightarrow> string \<Rightarrow> session_db \<Rightarrow> session_error option \<times> session_db" where
  "sr_UpdateSessionActivity ev sid d =
     (case driver ev ''update_activity'' ''failed to update session activity'' of
        Some e \<Rightarrow> (Some e, d)
      | None \<Rightarrow>
          let P = (\<lambda>r. se_SessionID r = sid \<and> se_Status r = SessionStatusActive);
              d' = update_sessions P (\<lambda>r. r\<lparr>se_LastActivityAt := sv_now ev\<rparr>) d
          in if sv_db ev ''rows_affected'' \<noteq> None then (driver ev ''rows_affected'' ''failed to get rows affected'', d')
             else if rows_where P d \<noteq> 0 then (None, d')
             else if sv_db ev ''session_exists'' \<noteq> None
             then (driver ev ''session_exists'' ''failed to check session existence'', d')
             else if find_session sid d' = None then (Some ErrSessionNotFound, d') else (Some ErrSessionExpired, d'))"

definition sr_TerminateSession :: "session_env \<Rightarrow> string \<Rightarrow> string \<Rightarrow> session_db \<Rightarrow> session_error option \<times> session_db" where
  "sr_TerminateSession ev sid reason d =
     (case driver ev ''terminate_session'' ''failed to terminate session'' of
        Some e \<Rightarrow> (Some e, d)
      | None \<Rightarrow>
          let P = (\<lambda>r. se_SessionID r = sid \<and> se_Status r \<in> {SessionStatusActive, SessionStatusIdle});
              d' = update_sessions P (\<lambda>r. r\<lparr>se_Status := SessionStatusTerminated, se_TerminatedAt := Some (sv_now ev),
                     se_TerminationReason := Some reason\<rparr>) d
          in if sv_db ev ''rows_affected'' \<noteq> None then (driver ev ''rows_affected'' ''failed to get rows affected'', d')
             else if rows_where P d = 0 then (Some ErrSessionNotFound, d') else (None, d'))"

definition sr_ListActiveSessions :: "session_env \<Rightarrow> uuid \<Rightarrow> session_db \<Rightarrow> session_error + edge_session list" where
  "sr_ListActiveSessions ev tenant d =
     (case driver ev ''list_active'' ''failed to list active sessions'' of
        Some e \<Rightarrow> Inl e
      | None \<Rightarrow> Inr (sv_order ev ''created_at'' True
          (filter (\<lambda>r. se_TenantID r = tenant \<and> se_Status r = SessionStatusActive) (sd_sessions d))))"

definition opt_matches :: "'a option \<Rightarrow> ('a \<Rightarrow> bool) \<Rightarrow> bool" where
  "opt_matches x P = (case x of None \<Rightarrow> True | Some a \<Rightarrow> P a)"

definition session_matches :: "session_filter \<Rightarrow> edge_session \<Rightarrow> bool" where
  "session_matches f r \<longleftrightarrow>
     opt_matches (sf_TenantID f) (\<lambda>x. se_TenantID r = x) \<and> opt_matches (sf_UserID f) (\<lambda>x. se_UserID r = Some x) \<and>
     opt_matches (sf_EdgeMCPID f) (\<lambda>x. se_EdgeMCPID r = x) \<and> opt_matches (sf_Status f) (\<lambda>x. se_Status r = x) \<and>
     opt_matches (sf_ClientType f) (\<lambda>x. se_ClientType r = Some x) \<and> (sf_ActiveOnly f \<longrightarrow> se_Status r = SessionStatusActive) \<and>
     opt_matches (sf_Since f) (\<lambda>x. x \<le> se_CreatedAt r) \<and> opt_matches (sf_Until f) (\<lambda>x. se_CreatedAt r \<le> x)"

definition sr_ListSessions :: "session_env \<Rightarrow> session_filter \<Rightarrow> session_db \<Rightarrow> session_error + edge_session list" where
  "sr_ListSessions ev f d =
     (case driver ev ''list_sessions'' ''failed to list sessions'' of
        Some e \<Rightarrow> Inl e
      | None \<Rightarrow>
          let rows = filter (session_matches f) (sd_sessions d);
              rows = (if sf_OrderBy f \<noteq> '''' then sv_order ev (sf_OrderBy f) (sf_OrderDesc f) rows
                      else sv_order ev ''created_at'' True rows);
              rows = (if 0 < sf_Offset f then drop (nat (sf_Offset f)) rows else rows)
          in Inr (if 0 < sf_Limit f then take (nat (sf_Limit f)) rows else rows))"

text \<open>The stored function \<open>cleanup_expired_sessions\<close> of the migration.\<close>

definition sr_CleanupExpiredSessions :: "session_env \<Rightarrow> session_db \<Rightarrow> (session_error + int) \<times> session_db" where
  "sr_CleanupExpiredSessions ev d =
     (case driver ev ''cleanup'' ''failed to cleanup expired sessions'' of
        Some e \<Rightarrow> (Inl e, d)
      | None \<Rightarrow>
          let P = (\<lambda>r. se_Status r = SessionStatusActive \<and> (case se_ExpiresAt r of Some e \<Rightarrow> e < sv_now ev | None \<Rightarrow> False))
          in (Inr (rows_where P d),
              update_sessions P (\<lambda>r. r\<lparr>se_Status := SessionStatusExpired, se_TerminatedAt := Some (sv_now ev),
                se_TerminationReason := Some ''Session expired''\<rparr>) d))"

text \<open>One transaction: the row of the execution, which refers to an existing session, and the counters.\<close>

definition sr_RecordToolExecution :: "session_env \<Rightarrow> tool_execution \<Rightarrow> session_db \<Rightarrow> session_error option \<times> session_db" where
  "sr_RecordToolExecution ev e d =
     (if sv_db ev ''begin'' \<noteq> None then (driver ev ''begin'' ''failed to begin transaction'', d)
      else if sv_db ev ''insert_execution'' \<noteq> None
      then (driver ev ''insert_execution'' ''failed to record tool execution'', d)
      else if \<not> (\<exists>r \<in> set (sd_sessions d). se_ID r = te_SessionID e)
      then (Some (SWrap ''failed to record tool execution'' (SDriver ''violates foreign key constraint'')), d)
      else if sv_db ev ''update_metrics'' \<noteq> None
      then (driver ev ''update_metrics'' ''failed to update session metrics'', d)
      else if sv_db ev ''commit'' \<noteq> None then (driver ev ''commit'' ''failed to commit transaction'', d)
      else (None, update_sessions (\<lambda>r. se_ID r = te_SessionID e)
             (\<lambda>r. r\<lparr>se_ToolExecutionCount := se_ToolExecutionCount r + 1,
                se_TotalTokensUsed := se_TotalTokensUsed r + (case te_TokensUsed e of Some n \<Rightarrow> n | None \<Rightarrow> 0),
                se_LastActivityAt := sv_now ev\<rparr>)
             (d\<lparr>sd_executions := sd_executions d @ [e]\<rparr>)))"

definition sr_GetSessionToolExecutions :: "session_env \<Rightarrow> uuid \<Rightarrow> int \<Rightarrow> session_db \<Rightarrow> session_error + tool_execution list" where
  "sr_GetSessionToolExecutions ev i limit d =
     (case driver ev ''get_executions'' ''failed to get session tool executions'' of
        Some e \<Rightarrow> Inl e
      | None \<Rightarrow>
          let rows = sort_key (\<lambda>e. - te_ExecutedAt e) (filter (\<lambda>e. te_SessionID e = i) (sd_executions d))
          in Inr (if 0 < limit then take (nat limit) rows else rows))"

section \<open>Rows and updates\<close>

definition has_session :: "string \<Rightarrow> session_db \<Rightarrow> bool" where
  "has_session sid d \<longleftrightarrow> (\<exists>r \<in> set (sd_sessions d). se_SessionID r = sid)"

lemma find_session_Some: "find_session sid d = Some s \<Longrightarrow> s \<in> set (sd_sessions d) \<and> se_SessionID s = sid"
  unfolding find_session_def by (metis (mono_tags, lifting) find_Some_iff nth_mem)

lemma find_session_None: "find_session sid d = None \<longleftrightarrow> \<not> has_session sid d"
  by (auto simp: find_session_def has_session_def find_None_iff)

lemma set_update_sessions: "set (sd_sessions (update_sessions P f d)) = (\<lambda>r. if P r then f r else r) ` set (sd_sessions d)"
  by (simp add: update_sessions_def)

lemma has_session_update: "(\<And>r. se_SessionID (f r) = se_SessionID r) \<Longrightarrow> has_session sid (update_sessions P f d) = has_session sid d"
proof -
  assume f: "\<And>r. se_SessionID (f r) = se_SessionID r"
  have "has_session sid d \<longleftrightarrow> sid \<in> se_SessionID ` set (sd_sessions d)" for d by (auto simp: has_session_def)
  moreover have "se_SessionID ` set (sd_sessions (update_sessions P f d)) = se_SessionID ` set (sd_sessions d)"
    unfolding set_update_sessions image_image by (rule image_cong [OF refl]) (simp add: f)
  ultimately show ?thesis by metis
qed

lemma rows_where_zero: "rows_where P d = 0 \<longleftrightarrow> (\<forall>r \<in> set (sd_sessions d). \<not> P r)"
  by (auto simp: rows_where_def filter_empty_conv)

end
