(* ===== verification/Session_Service.thy ===== *)
theory Session_Service
  imports Session_Store
begin

text \<open>
  The session service of \<open>pkg/services/session_service.go\<close>: sessions in the database, with a cache in
  Redis (\<open>Redis_Spec\<close>) that a deployment may leave out.

  A cached session is the JSON text of the struct, in which the encrypted credentials do not occur and
  the decrypted ones do.  Encryption of credentials, with JSON and base64 around it, is the record
  \<open>cipher\<close>.  An operation that reads and writes later is also given by its parts (\<open>load_session\<close>,
  \<open>cacheSession\<close>), so that what others do in between can be put there.
\<close>

section \<open>Model: state\<close>

record cipher =
  ci_Encrypt :: "auth_bundle \<Rightarrow> uuid \<Rightarrow> string + string"
  ci_Decrypt :: "string \<Rightarrow> uuid \<Rightarrow> string + auth_bundle"

record session_config =
  sc_DefaultTTL :: duration
  sc_MaxSessions :: int
  sc_IdleTimeout :: duration

record 's session_service =
  ss_db :: session_db
  ss_cache :: "'s option"
  ss_defaultTTL :: duration
  ss_maxSessionsPerTenant :: int
  ss_idleTimeout :: duration

record create_request =
  cq_SessionID :: string
  cq_EdgeMCPID :: string
  cq_TenantID :: uuid
  cq_UserID :: "uuid option"
  cq_ClientName :: string
  cq_ClientType :: string
  cq_ClientVersion :: string
  cq_PassthroughAuth :: "auth_bundle option"
  cq_Metadata :: "(string + string) option"
  cq_TTL :: int

record execution_request =
  xq_ToolName :: string
  xq_ToolID :: "uuid option"
  xq_Arguments :: string
  xq_Result :: string
  xq_Error :: "string option"
  xq_DurationMs :: int
  xq_TokensUsed :: int

text \<open>The metadata of a request is what \<open>json.Marshal\<close> makes of it: an error or the text.\<close>

type_synonym 's session_cache = "(edge_session, 's) redis"

definition NewSessionService :: "session_db \<Rightarrow> 's option \<Rightarrow> session_config \<Rightarrow> 's session_service" where
  "NewSessionService d r c =
     \<lparr>ss_db = d, ss_cache = r,
      ss_defaultTTL = (if sc_DefaultTTL c = 0 then 24 * 60 * minute else sc_DefaultTTL c),
      ss_maxSessionsPerTenant = (if sc_MaxSessions c = 0 then 100 else sc_MaxSessions c),
      ss_idleTimeout = (if sc_IdleTimeout c = 0 then 30 * minute else sc_IdleTimeout c)\<rparr>"

section \<open>Model: helpers\<close>

definition session_key :: "string \<Rightarrow> string" where "session_key sid = ''session:'' @ sid"

text \<open>The field of the encrypted credentials is tagged \<open>json:"-"\<close>.\<close>

definition json_session :: "edge_session \<Rightarrow> edge_session" where
  "json_session s = s\<lparr>se_PassthroughAuthEncrypted := None\<rparr>"

definition cache_ttl :: "go_time \<Rightarrow> edge_session \<Rightarrow> duration" where
  "cache_ttl now s =
     (case se_ExpiresAt s of
        None \<Rightarrow> 5 * minute
      | Some e \<Rightarrow> let remaining = time_sub e now in if remaining < 5 * minute then remaining else 5 * minute)"

definition cacheSession :: "'s session_cache \<Rightarrow> session_env \<Rightarrow> edge_session \<Rightarrow> 's session_service \<Rightarrow> 's session_service" where
  "cacheSession rd ev s svc =
     (case ss_cache svc of
        None \<Rightarrow> svc
      | Some r \<Rightarrow> svc\<lparr>ss_cache := Some (snd (rd_Set rd (sv_now ev) (session_key (se_SessionID s)) (json_session s)
                          (cache_ttl (sv_now ev) s) r))\<rparr>)"

definition getCachedSession :: "'s session_cache \<Rightarrow> session_env \<Rightarrow> string \<Rightarrow> 's session_service \<Rightarrow> edge_session option" where
  "getCachedSession rd ev sid svc =
     (case ss_cache svc of
        None \<Rightarrow> None
      | Some r \<Rightarrow> (case rd_Get rd (sv_now ev) (session_key sid) r of Inr found \<Rightarrow> found | Inl _ \<Rightarrow> None))"

definition invalidateCache :: "'s session_cache \<Rightarrow> session_env \<Rightarrow> string \<Rightarrow> 's session_service \<Rightarrow> 's session_service" where
  "invalidateCache rd ev sid svc =
     (case ss_cache svc of
        None \<Rightarrow> svc
      | Some r \<Rightarrow> svc\<lparr>ss_cache := Some (snd (rd_Del rd (sv_now ev) (session_key sid) r))\<rparr>)"

text \<open>An error is only logged, and the session is left as it is.\<close>

definition decryptPassthroughAuth :: "cipher \<Rightarrow> edge_session \<Rightarrow> edge_session" where
  "decryptPassthroughAuth ci s =
     (case se_PassthroughAuthEncrypted s of
        None \<Rightarrow> s
      | Some enc \<Rightarrow>
          if enc = '''' then s
          else case ci_Decrypt ci enc (se_TenantID s) of
                 Inr auth \<Rightarrow> s\<lparr>se_PassthroughAuth := Some auth\<rparr>
               | Inl _ \<Rightarrow> s)"

definition generateSessionID :: "session_env \<Rightarrow> string" where
  "generateSessionID ev =
     (case sv_random ev of
        None \<Rightarrow> ''ses_'' @ uuid_String (sv_uuid ev 1)
      | Some text \<Rightarrow> ''ses_'' @ take 43 text)"

definition validateCreateRequest :: "create_request \<Rightarrow> session_error option" where
  "validateCreateRequest q =
     (if cq_EdgeMCPID q = '''' then Some (SNew ''edge_mcp_id is required'')
      else if cq_TenantID q = 0 then Some (SNew ''tenant_id is required'')
      else if cq_ClientType q \<noteq> '''' \<and> ct_Validate (cq_ClientType q) \<noteq> None
      then map_option (SWrap ''invalid client_type'') (ct_Validate (cq_ClientType q))
      else case cq_PassthroughAuth q of
        None \<Rightarrow> None
      | Some p \<Rightarrow> map_option (SWrap ''invalid passthrough_auth'') (pa_Validate p))"

section \<open>Model: operations\<close>

definition encrypt_auth :: "cipher \<Rightarrow> create_request \<Rightarrow> session_error + string option" where
  "encrypt_auth ci q =
     (case cq_PassthroughAuth q of
        None \<Rightarrow> Inr None
      | Some auth \<Rightarrow>
          (case ci_Encrypt ci auth (cq_TenantID q) of
             Inl e \<Rightarrow> Inl (SWrap ''failed to encrypt passthrough auth'' (SNew e))
           | Inr text \<Rightarrow> Inr (Some text)))"

definition marshal_metadata :: "create_request \<Rightarrow> session_error + string option" where
  "marshal_metadata q =
     (case cq_Metadata q of
        None \<Rightarrow> Inr None
      | Some (Inl e) \<Rightarrow> Inl (SWrap ''failed to marshal metadata'' (SNew e))
      | Some (Inr text) \<Rightarrow> Inr (Some text))"

definition new_session :: "session_env \<Rightarrow> create_request \<Rightarrow> string option \<Rightarrow> string option \<Rightarrow> duration \<Rightarrow> edge_session" where
  "new_session ev q enc metadata defaultTTL =
     zero_session\<lparr>se_ID := sv_uuid ev 0,
       se_SessionID := (if cq_SessionID q = '''' then generateSessionID ev else cq_SessionID q),
       se_TenantID := cq_TenantID q, se_UserID := cq_UserID q, se_EdgeMCPID := cq_EdgeMCPID q,
       se_ClientName := Some (cq_ClientName q), se_ClientType := Some (cq_ClientType q),
       se_ClientVersion := Some (cq_ClientVersion q), se_Status := SessionStatusActive,
       se_PassthroughAuthEncrypted := enc, se_ConnectionMetadata := metadata,
       se_LastActivityAt := sv_now ev, se_CreatedAt := sv_now ev,
       se_ExpiresAt := Some (sv_now ev + (if 0 < cq_TTL q then cq_TTL q * second else defaultTTL))\<rparr>"

definition ss_CreateSession ::
  "'s session_cache \<Rightarrow> cipher \<Rightarrow> session_env \<Rightarrow> create_request \<Rightarrow> 's session_service \<Rightarrow> (session_error + edge_session) \<times> 's session_service" where
  "ss_CreateSession rd ci ev q svc =
     (case validateCreateRequest q of
        Some e \<Rightarrow> (Inl (SWrap ''invalid session request'' e), svc)
      | None \<Rightarrow>
     (case sr_ListActiveSessions ev (cq_TenantID q) (ss_db svc) of
        Inl e \<Rightarrow> (Inl (SWrap ''failed to check active sessions'' e), svc)
      | Inr active \<Rightarrow>
          if ss_maxSessionsPerTenant svc \<le> int (length active)
          then (Inl (SLimit (int (length active)) (ss_maxSessionsPerTenant svc)), svc) else
     (case encrypt_auth ci q of
        Inl e \<Rightarrow> (Inl e, svc)
      | Inr enc \<Rightarrow>
     (case marshal_metadata q of
        Inl e \<Rightarrow> (Inl e, svc)
      | Inr metadata \<Rightarrow>
          let s = new_session ev q enc metadata (ss_defaultTTL svc);
              (err, d) = sr_CreateSession ev s (ss_db svc);
              svc = svc\<lparr>ss_db := d\<rparr>
          in case err of
               Some e \<Rightarrow> (Inl (SWrap ''failed to create session'' e), svc)
             | None \<Rightarrow> (Inr (s\<lparr>se_PassthroughAuth := cq_PassthroughAuth q\<rparr>), cacheSession rd ev s svc)))))"

text \<open>What \<open>GetSession\<close> does after a miss in the cache, up to storing the session there.\<close>

definition load_session :: "cipher \<Rightarrow> session_env \<Rightarrow> string \<Rightarrow> 's session_service \<Rightarrow> (session_error + edge_session) \<times> 's session_service" where
  "load_session ci ev sid svc =
     (let (res, d) = sr_GetSession ev sid (ss_db svc); svc = svc\<lparr>ss_db := d\<rparr>
      in case res of
           Inl e \<Rightarrow> (Inl (if e = ErrSessionNotFound then e else SWrap ''failed to get session'' e), svc)
         | Inr s \<Rightarrow>
             if se_IsExpired (sv_now ev) s then (Inl ErrSessionExpired, svc)
             else (Inr (decryptPassthroughAuth ci s), svc))"

definition ss_GetSession :: "'s session_cache \<Rightarrow> cipher \<Rightarrow> session_env \<Rightarrow> string \<Rightarrow> 's session_service \<Rightarrow>
    (session_error + edge_session) \<times> 's session_service" where
  "ss_GetSession rd ci ev sid svc =
     (case getCachedSession rd ev sid svc of
        Some s \<Rightarrow> (Inr s, svc)
      | None \<Rightarrow>
          let (res, svc) = load_session ci ev sid svc
          in case res of Inl e \<Rightarrow> (Inl e, svc) | Inr s \<Rightarrow> (Inr s, cacheSession rd ev s svc))"

definition ss_RefreshSession :: "'s session_cache \<Rightarrow> cipher \<Rightarrow> session_env \<Rightarrow> string \<Rightarrow> 's session_service \<Rightarrow>
    (session_error + edge_session) \<times> 's session_service" where
  "ss_RefreshSession rd ci ev sid svc =
     (let (res, svc) = ss_GetSession rd ci ev sid svc
      in case res of
           Inl e \<Rightarrow> (Inl e, svc)
         | Inr s \<Rightarrow>
             if se_Status s \<noteq> SessionStatusActive then (Inl (SNew ''cannot refresh non-active session''), svc)
             else let s = s\<lparr>se_ExpiresAt := Some (sv_now ev + ss_defaultTTL svc), se_LastActivityAt := sv_now ev\<rparr>;
                      (err, d) = sr_UpdateSession ev s (ss_db svc);
                      svc = svc\<lparr>ss_db := d\<rparr>
                  in case err of
                       Some e \<Rightarrow> (Inl (SWrap ''failed to refresh session'' e), svc)
                     | None \<Rightarrow> (Inr s, cacheSession rd ev s svc))"

definition ss_TerminateSession :: "'s session_cache \<Rightarrow> session_env \<Rightarrow> string \<Rightarrow> string \<Rightarrow> 's session_service \<Rightarrow>
    session_error option \<times> 's session_service" where
  "ss_TerminateSession rd ev sid reason svc =
     (let (err, d) = sr_TerminateSession ev sid reason (ss_db svc); svc = svc\<lparr>ss_db := d\<rparr>
      in case err of
           Some e \<Rightarrow> (Some (if e = ErrSessionNotFound then e else SWrap ''failed to terminate session'' e), svc)
         | None \<Rightarrow> (None, invalidateCache rd ev sid svc))"

definition ss_ValidateSession :: "'s session_cache \<Rightarrow> cipher \<Rightarrow> session_env \<Rightarrow> string \<Rightarrow> 's session_service \<Rightarrow>
    (session_error + edge_session) \<times> 's session_service" where
  "ss_ValidateSession rd ci ev sid svc =
     (let (res, svc) = ss_GetSession rd ci ev sid svc
      in case res of
           Inl e \<Rightarrow> (Inl e, svc)
         | Inr s \<Rightarrow>
             if se_Status s \<noteq> SessionStatusActive
             then (Inl (SNew (''session is not active: '' @ status_text (se_Status s))), svc)
             else if se_IsExpired (sv_now ev) s
             then (Inl ErrSessionExpired, svc\<lparr>ss_db := snd (sr_UpdateSession ev
                     (zero_session\<lparr>se_SessionID := sid, se_Status := SessionStatusExpired\<rparr>) (ss_db svc))\<rparr>)
             else if ss_idleTimeout svc < time_sub (sv_now ev) (se_LastActivityAt s)
             then let s = s\<lparr>se_Status := SessionStatusIdle\<rparr>
                  in (Inr s, svc\<lparr>ss_db := snd (sr_UpdateSession ev s (ss_db svc))\<rparr>)
             else (Inr s, svc))"

definition ss_ListActiveSessions :: "cipher \<Rightarrow> session_env \<Rightarrow> uuid \<Rightarrow> 's session_service \<Rightarrow> session_error + edge_session list" where
  "ss_ListActiveSessions ci ev tenant svc =
     map_sum (SWrap ''failed to list active sessions'') (map (decryptPassthroughAuth ci)) (sr_ListActiveSessions ev tenant (ss_db svc))"

definition ss_ListSessions :: "cipher \<Rightarrow> session_env \<Rightarrow> session_filter \<Rightarrow> 's session_service \<Rightarrow> session_error + edge_session list" where
  "ss_ListSessions ci ev f svc =
     map_sum (SWrap ''failed to list sessions'') (map (decryptPassthroughAuth ci)) (sr_ListSessions ev (sf_SetDefaults f) (ss_db svc))"

definition ss_UpdateSessionActivity :: "'s session_cache \<Rightarrow> session_env \<Rightarrow> string \<Rightarrow> 's session_service \<Rightarrow>
    session_error option \<times> 's session_service" where
  "ss_UpdateSessionActivity rd ev sid svc =
     (let (err, d) = sr_UpdateSessionActivity ev sid (ss_db svc); svc = svc\<lparr>ss_db := d\<rparr>
      in case err of
           Some e \<Rightarrow> (Some (if e = ErrSessionNotFound \<or> e = ErrSessionExpired then e
                             else SWrap ''failed to update session activity'' e), svc)
         | None \<Rightarrow>
             (None, case getCachedSession rd ev sid svc of
                      None \<Rightarrow> svc
                    | Some s \<Rightarrow> cacheSession rd ev (s\<lparr>se_LastActivityAt := sv_now ev\<rparr>) svc))"

definition session_execution :: "session_env \<Rightarrow> uuid \<Rightarrow> execution_request \<Rightarrow> tool_execution" where
  "session_execution ev i x =
     \<lparr>te_ID = sv_uuid ev 0, te_SessionID = i, te_ToolName = xq_ToolName x, te_ToolID = xq_ToolID x,
      te_Arguments = xq_Arguments x, te_Result = xq_Result x, te_Error = xq_Error x,
      te_DurationMs = Some (xq_DurationMs x), te_TokensUsed = Some (xq_TokensUsed x), te_ExecutedAt = sv_now ev\<rparr>"

definition ss_RecordToolExecution :: "'s session_cache \<Rightarrow> cipher \<Rightarrow> session_env \<Rightarrow> string \<Rightarrow> execution_request \<Rightarrow> 's session_service \<Rightarrow>
    session_error option \<times> 's session_service" where
  "ss_RecordToolExecution rd ci ev sid x svc =
     (let (res, svc) = ss_ValidateSession rd ci ev sid svc
      in case res of
           Inl e \<Rightarrow> (Some (SWrap ''invalid session'' e), svc)
         | Inr s \<Rightarrow>
             let e = session_execution ev (se_ID s) x
             in case te_Validate e of
                  Some err \<Rightarrow> (Some (SWrap ''invalid tool execution'' err), svc)
                | None \<Rightarrow>
                    let (err, d) = sr_RecordToolExecution ev e (ss_db svc); svc = svc\<lparr>ss_db := d\<rparr>
                    in case err of
                         Some err \<Rightarrow> (Some (SWrap ''failed to record tool execution'' err), svc)
                       | None \<Rightarrow> (None, snd (ss_UpdateSessionActivity rd ev sid svc)))"

definition ss_GetSessionToolExecutions :: "'s session_cache \<Rightarrow> cipher \<Rightarrow> session_env \<Rightarrow> string \<Rightarrow> int \<Rightarrow> 's session_service \<Rightarrow>
    (session_error + tool_execution list) \<times> 's session_service" where
  "ss_GetSessionToolExecutions rd ci ev sid limit svc =
     (let (res, svc) = ss_GetSession rd ci ev sid svc
      in case res of
           Inl e \<Rightarrow> (Inl e, svc)
         | Inr s \<Rightarrow> (map_sum (SWrap ''failed to get tool executions'') id (sr_GetSessionToolExecutions ev (se_ID s) limit (ss_db svc)), svc))"

definition ss_CleanupExpiredSessions :: "session_env \<Rightarrow> 's session_service \<Rightarrow> (session_error + int) \<times> 's session_service" where
  "ss_CleanupExpiredSessions ev svc =
     (let (res, d) = sr_CleanupExpiredSessions ev (ss_db svc)
      in (map_sum (SWrap ''failed to cleanup expired sessions'') id res, svc\<lparr>ss_db := d\<rparr>))"

end
