(* ===== verification/Session_Guarantees.thy ===== *)
theory Session_Guarantees
  imports Session_Service
begin

text \<open>
  What the session service guarantees over any Redis server that keeps the contract \<open>redis_server\<close>: a
  session that has been terminated is not accepted again, the limit of sessions per tenant holds when a
  session is created, and what happens to credentials between database and cache.
\<close>

section \<open>Runs\<close>

text \<open>Any operation, by any caller, at any time, whatever the driver reports.\<close>

inductive session_step :: "'s session_cache \<Rightarrow> cipher \<Rightarrow> 's session_service \<Rightarrow> 's session_service \<Rightarrow> bool" for rd ci where
  create: "session_step rd ci s (snd (ss_CreateSession rd ci ev q s))"
| get: "session_step rd ci s (snd (ss_GetSession rd ci ev sid s))"
| refresh: "session_step rd ci s (snd (ss_RefreshSession rd ci ev sid s))"
| terminate: "session_step rd ci s (snd (ss_TerminateSession rd ev sid reason s))"
| validate: "session_step rd ci s (snd (ss_ValidateSession rd ci ev sid s))"
| activity: "session_step rd ci s (snd (ss_UpdateSessionActivity rd ev sid s))"
| record_execution: "session_step rd ci s (snd (ss_RecordToolExecution rd ci ev sid x s))"
| executions: "session_step rd ci s (snd (ss_GetSessionToolExecutions rd ci ev sid limit s))"
| cleanup: "session_step rd ci s (snd (ss_CleanupExpiredSessions ev s))"

section \<open>Closed sessions in the database\<close>

definition is_closed :: "session_status \<Rightarrow> bool" where
  "is_closed st \<longleftrightarrow> st = SessionStatusExpired \<or> st = SessionStatusTerminated"

lemma closed_simps [simp]:
  "is_closed SessionStatusExpired" "is_closed SessionStatusTerminated" "\<not> is_closed SessionStatusActive" "\<not> is_closed SessionStatusIdle"
  by (simp_all add: is_closed_def)

definition gone :: "string \<Rightarrow> session_db \<Rightarrow> bool" where
  "gone sid d \<longleftrightarrow> has_session sid d \<and> (\<forall>r \<in> set (sd_sessions d). se_SessionID r = sid \<longrightarrow> is_closed (se_Status r))"

lemma gone_update:
  assumes "gone sid d" "\<And>r. se_SessionID (f r) = se_SessionID r"
    and "\<And>r. P r \<Longrightarrow> se_SessionID r = sid \<Longrightarrow> is_closed (se_Status r) \<Longrightarrow> is_closed (se_Status (f r))"
  shows "gone sid (update_sessions P f d)"
  using assms has_session_update [of f sid P d] by (auto simp: gone_def set_update_sessions)

lemma gone_executions [simp]: "gone sid (d\<lparr>sd_executions := xs\<rparr>) = gone sid d"
  by (simp add: gone_def has_session_def)

lemma gone_Create: "gone sid d \<Longrightarrow> gone sid (snd (sr_CreateSession ev s d))"
  by (auto simp: sr_CreateSession_def gone_def has_session_def insert_violation_def session_row_def
      split: option.splits if_splits)

lemma gone_Get: "gone sid d \<Longrightarrow> gone sid (snd (sr_GetSession ev sid' d))"
  by (auto simp: sr_GetSession_def split: option.split intro: gone_update)

lemma gone_Update:
  "gone sid d \<Longrightarrow> se_SessionID s = sid \<Longrightarrow> is_closed (se_Status s) \<Longrightarrow> gone sid (snd (sr_UpdateSession ev s d))"
  "gone sid d \<Longrightarrow> se_SessionID s \<noteq> sid \<Longrightarrow> gone sid (snd (sr_UpdateSession ev s d))"
  by (auto simp: sr_UpdateSession_def Let_def update_columns_def split: option.split intro: gone_update)

lemma gone_others:
  "gone sid d \<Longrightarrow> gone sid (snd (sr_UpdateSessionActivity ev sid' d))"
  "gone sid d \<Longrightarrow> gone sid (snd (sr_TerminateSession ev sid' reason d))"
  "gone sid d \<Longrightarrow> gone sid (snd (sr_CleanupExpiredSessions ev d))"
  "gone sid d \<Longrightarrow> gone sid (snd (sr_RecordToolExecution ev e d))"
  by (auto simp: sr_UpdateSessionActivity_def sr_TerminateSession_def sr_CleanupExpiredSessions_def
      sr_RecordToolExecution_def Let_def split: option.split intro!: gone_update)

lemma Get_row: "fst (sr_GetSession ev sid d) = Inr s \<Longrightarrow> se_SessionID s = sid \<and> (gone sid d \<longrightarrow> is_closed (se_Status s))"
  using find_session_Some [of sid d]
  by (auto simp: sr_GetSession_def gone_def split: option.splits if_splits)

lemma Terminate_gone:
  assumes "fst (sr_TerminateSession ev sid reason d) = None"
  shows "gone sid (snd (sr_TerminateSession ev sid reason d))"
proof -
  let ?P = "\<lambda>r. se_SessionID r = sid \<and> se_Status r \<in> {SessionStatusActive, SessionStatusIdle}"
  let ?f = "\<lambda>r. r\<lparr>se_Status := SessionStatusTerminated, se_TerminatedAt := Some (sv_now ev), se_TerminationReason := Some reason\<rparr>"
  have d: "snd (sr_TerminateSession ev sid reason d) = update_sessions ?P ?f d" and "\<not> rows_where ?P d = 0"
    using assms by (simp_all add: sr_TerminateSession_def Let_def driver_def split: option.splits if_splits)
  then obtain r where r: "r \<in> set (sd_sessions d)" "?P r" unfolding rows_where_zero by blast
  then have "has_session sid (update_sessions ?P ?f d)" by (subst has_session_update) (auto simp: has_session_def)
  moreover have "is_closed (se_Status r)" if m: "r \<in> set (sd_sessions (update_sessions ?P ?f d))" "se_SessionID r = sid" for r
  proof -
    obtain q where q: "r = (if ?P q then ?f q else q)" using m(1) unfolding set_update_sessions by (rule imageE)
    then show ?thesis using m(2) by (cases "se_SessionID q = sid"; cases "se_Status q") simp_all
  qed
  ultimately show ?thesis unfolding d gone_def by blast
qed

section \<open>Cached sessions\<close>

definition in_cache :: "('s \<Rightarrow> edge_session entries) \<Rightarrow> 's session_service \<Rightarrow> string \<Rightarrow> edge_session \<Rightarrow> bool" where
  "in_cache ent svc sid v \<longleftrightarrow> (\<exists>r dl. ss_cache svc = Some r \<and> ent r (session_key sid) = Some (v, dl))"

definition keyed :: "('s \<Rightarrow> edge_session entries) \<Rightarrow> 's session_service \<Rightarrow> bool" where
  "keyed ent svc \<longleftrightarrow> (\<forall>sid v. in_cache ent svc sid v \<longrightarrow> se_SessionID v = sid)"

definition dead :: "('s \<Rightarrow> edge_session entries) \<Rightarrow> string \<Rightarrow> 's session_service \<Rightarrow> bool" where
  "dead ent sid svc \<longleftrightarrow> gone sid (ss_db svc) \<and> (\<forall>v. in_cache ent svc sid v \<longrightarrow> is_closed (se_Status v))"

lemma session_key_inj [simp]: "session_key a = session_key b \<longleftrightarrow> a = b"
  by (simp add: session_key_def)

lemma json_session_simps [simp]: "se_SessionID (json_session s) = se_SessionID s" "se_Status (json_session s) = se_Status s"
  by (simp_all add: json_session_def)

lemma decrypt_simps [simp]:
  "se_SessionID (decryptPassthroughAuth ci s) = se_SessionID s" "se_Status (decryptPassthroughAuth ci s) = se_Status s"
  by (auto simp: decryptPassthroughAuth_def split: option.split sum.split)

lemma cached_db [simp]: "in_cache ent (svc\<lparr>ss_db := d\<rparr>) = in_cache ent svc"
  by (simp add: in_cache_def fun_eq_iff)

lemma keyed_db [simp]: "keyed ent (svc\<lparr>ss_db := d\<rparr>) = keyed ent svc"
  by (simp add: keyed_def)

lemma cache_ops_db [simp]: "ss_db (cacheSession rd ev s svc) = ss_db svc" "ss_db (invalidateCache rd ev sid svc) = ss_db svc"
  by (simp_all add: cacheSession_def invalidateCache_def split: option.split)

lemma load_cached [simp]: "in_cache ent (snd (load_session ci ev sid svc)) = in_cache ent svc"
  by (simp add: load_session_def split_beta Let_def split: sum.split)

lemma load_row:
  "fst (load_session ci ev sid svc) = Inr s \<Longrightarrow> se_SessionID s = sid \<and> (gone sid (ss_db svc) \<longrightarrow> is_closed (se_Status s))"
  using Get_row [of ev sid "ss_db svc"]
  by (auto simp: load_session_def split_beta Let_def split: sum.splits if_splits)

lemma load_gone: "gone sid (ss_db svc) \<Longrightarrow> gone sid (ss_db (snd (load_session ci ev sid' svc)))"
  using gone_Get [of sid "ss_db svc" ev sid'] by (simp add: load_session_def split_beta Let_def split: sum.split)

text \<open>The contract of the service's cache: a Redis server whose entries are sessions.\<close>

locale session_store = redis_server rd ent for rd :: "(edge_session, 's) redis" and ent
begin

lemma getCached: "getCachedSession rd ev sid svc = Some v \<Longrightarrow> in_cache ent svc sid v"
  by (auto simp: getCachedSession_def in_cache_def entry_Some dest!: Get sym [of "Some _"] split: option.splits sum.splits)

lemma cached_cacheSession:
  "in_cache ent (cacheSession rd ev s svc) sid v \<Longrightarrow> in_cache ent svc sid v \<or> sid = se_SessionID s \<and> v = json_session s"
proof (cases "sid = se_SessionID s")
  case False
  then show "in_cache ent (cacheSession rd ev s svc) sid v \<Longrightarrow> ?thesis"
    by (auto simp: cacheSession_def in_cache_def Set_frame split: option.splits)
next
  case True
  then show "in_cache ent (cacheSession rd ev s svc) sid v \<Longrightarrow> ?thesis"
    using Set_stores [of "sv_now ev" "session_key (se_SessionID s)" "json_session s" "cache_ttl (sv_now ev) s"]
    by (auto simp: cacheSession_def in_cache_def split: option.splits)
       (metis option.inject prod.inject)
qed

lemma cached_invalidate: "in_cache ent (invalidateCache rd ev sid' svc) sid v \<Longrightarrow> in_cache ent svc sid v"
proof (cases "ss_cache svc")
  case (Some r)
  then show "in_cache ent (invalidateCache rd ev sid' svc) sid v \<Longrightarrow> ?thesis"
    using Del_cases [of "sv_now ev" "session_key sid'" r] Del_frame [of "session_key sid" "session_key sid'" "sv_now ev" r]
    by (cases "sid = sid'") (auto simp: invalidateCache_def in_cache_def)
qed (simp add: invalidateCache_def)

lemma keyed_cache: "keyed ent svc \<Longrightarrow> keyed ent (cacheSession rd ev s svc)"
  by (auto simp: keyed_def dest: cached_cacheSession)

lemma keyed_invalidate: "keyed ent svc \<Longrightarrow> keyed ent (invalidateCache rd ev sid svc)"
  by (auto simp: keyed_def dest: cached_invalidate)

lemma dead_cache:
  "dead ent sid svc \<Longrightarrow> se_SessionID s = sid \<longrightarrow> is_closed (se_Status s) \<Longrightarrow> dead ent sid (cacheSession rd ev s svc)"
  by (auto simp: dead_def dest: cached_cacheSession)

lemma dead_db: "dead ent sid svc \<Longrightarrow> gone sid d \<Longrightarrow> dead ent sid (svc\<lparr>ss_db := d\<rparr>)"
  by (simp add: dead_def)

text \<open>What \<open>GetSession\<close> hands out, and the state it leaves.\<close>

lemma Get_result:
  assumes "keyed ent svc" "fst (ss_GetSession rd ci ev sid svc) = Inr s"
  shows "se_SessionID s = sid \<and> (dead ent sid svc \<longrightarrow> is_closed (se_Status s))"
proof (cases "getCachedSession rd ev sid svc")
  case None
  with assms(2) have "fst (load_session ci ev sid svc) = Inr s"
    by (auto simp: ss_GetSession_def split_beta split: sum.splits)
  from load_row [OF this] show ?thesis by (simp add: dead_def)
next
  case (Some v)
  with assms getCached [OF Some] show ?thesis by (auto simp: ss_GetSession_def keyed_def dead_def)
qed

lemma Get_keyed: "keyed ent svc \<Longrightarrow> keyed ent (snd (ss_GetSession rd ci ev sid svc))"
  by (auto simp: ss_GetSession_def split_beta keyed_def dest: cached_cacheSession split: option.splits sum.splits)

lemma Get_dead:
  assumes "keyed ent svc" "dead ent sid svc"
  shows "dead ent sid (snd (ss_GetSession rd ci ev sid' svc))"
proof (cases "getCachedSession rd ev sid' svc")
  case None
  have "dead ent sid (snd (load_session ci ev sid' svc))"
    using assms(2) load_gone [of sid svc ci ev sid'] by (simp add: dead_def)
  moreover have "se_SessionID s = sid \<longrightarrow> is_closed (se_Status s)" if "fst (load_session ci ev sid' svc) = Inr s" for s
    using load_row [OF that] assms(2) by (auto simp: dead_def)
  ultimately show ?thesis using None by (auto simp: ss_GetSession_def split_beta intro: dead_cache split: sum.split)
qed (simp add: ss_GetSession_def assms)

lemma Refresh_keyed: "keyed ent svc \<Longrightarrow> keyed ent (snd (ss_RefreshSession rd ci ev sid svc))"
  using Get_keyed [of svc ci ev sid]
  by (auto simp: ss_RefreshSession_def Let_def split_beta intro: keyed_cache split: sum.split option.split)

lemma Validate_keyed: "keyed ent svc \<Longrightarrow> keyed ent (snd (ss_ValidateSession rd ci ev sid svc))"
  using Get_keyed [of svc ci ev sid] by (auto simp: ss_ValidateSession_def Let_def split_beta split: sum.split)

lemma Activity_keyed: "keyed ent svc \<Longrightarrow> keyed ent (snd (ss_UpdateSessionActivity rd ev sid svc))"
  by (auto simp: ss_UpdateSessionActivity_def Let_def split_beta intro: keyed_cache split: option.split)

lemma Record_keyed: "keyed ent svc \<Longrightarrow> keyed ent (snd (ss_RecordToolExecution rd ci ev sid x svc))"
  using Validate_keyed [of svc ci ev sid]
  by (auto simp: ss_RecordToolExecution_def Let_def split_beta intro: Activity_keyed split: sum.split option.split)

lemma step_keyed: "session_step rd ci s s' \<Longrightarrow> keyed ent s \<Longrightarrow> keyed ent s'"
proof (induction rule: session_step.induct)
  case (create s ev q)
  then show ?case by (auto simp: ss_CreateSession_def Let_def split_beta intro: keyed_cache split: option.split sum.split)
next
  case (terminate s ev sid reason)
  then show ?case by (auto simp: ss_TerminateSession_def Let_def split_beta intro: keyed_invalidate split: option.split)
next
  case (executions s ev sid limit)
  then show ?case using Get_keyed by (auto simp: ss_GetSessionToolExecutions_def Let_def split_beta split: sum.split)
next
  case (cleanup s ev)
  then show ?case by (simp add: ss_CleanupExpiredSessions_def split_beta)
qed (auto intro: Get_keyed Refresh_keyed Validate_keyed Activity_keyed Record_keyed)

lemma Refresh_dead:
  assumes "keyed ent svc" "dead ent sid svc"
  shows "dead ent sid (snd (ss_RefreshSession rd ci ev sid' svc))"
proof (cases "\<exists>s. fst (ss_GetSession rd ci ev sid' svc) = Inr s \<and> se_Status s = SessionStatusActive")
  case False
  then show ?thesis using Get_dead [OF assms, of ci ev sid']
    by (auto simp: ss_RefreshSession_def Let_def split_beta split: sum.splits)
next
  case True
  then obtain s where s: "fst (ss_GetSession rd ci ev sid' svc) = Inr s" "se_Status s = SessionStatusActive" by blast
  let ?t = "s\<lparr>se_ExpiresAt := Some (sv_now ev + ss_defaultTTL (snd (ss_GetSession rd ci ev sid' svc))), se_LastActivityAt := sv_now ev\<rparr>"
  let ?g = "snd (ss_GetSession rd ci ev sid' svc)"
  have n: "se_SessionID ?t \<noteq> sid" using Get_result [OF assms(1) s(1)] s(2) assms(2) by auto
  have g: "dead ent sid ?g" by (rule Get_dead [OF assms])
  then have "gone sid (snd (sr_UpdateSession ev ?t (ss_db ?g)))" using gone_Update(2) n by (simp add: dead_def)
  with g have "dead ent sid (?g\<lparr>ss_db := snd (sr_UpdateSession ev ?t (ss_db ?g))\<rparr>)" by (rule dead_db)
  with n dead_cache [OF this, of ?t ev] s show ?thesis
    by (auto simp: ss_RefreshSession_def Let_def split_beta split: option.split)
qed

lemma Validate_dead:
  assumes "keyed ent svc" "dead ent sid svc"
  shows "dead ent sid (snd (ss_ValidateSession rd ci ev sid' svc))"
proof -
  let ?g = "snd (ss_GetSession rd ci ev sid' svc)"
  have g: "dead ent sid ?g" by (rule Get_dead [OF assms])
  have u: "dead ent sid (?g\<lparr>ss_db := snd (sr_UpdateSession ev t (ss_db ?g))\<rparr>)" if "se_SessionID t \<noteq> sid \<or> is_closed (se_Status t)" for t
    using g that gone_Update [of sid "ss_db ?g" t ev] by (intro dead_db) (auto simp: dead_def)
  have r: "se_SessionID s \<noteq> sid" if "fst (ss_GetSession rd ci ev sid' svc) = Inr s" "se_Status s = SessionStatusActive" for s
    using Get_result [OF assms(1) that(1)] that(2) assms(2) by auto
  show ?thesis using g
    by (auto simp: ss_ValidateSession_def Let_def split_beta split: sum.split intro!: u dest: r)
qed

lemma Activity_dead:
  assumes "keyed ent svc" "dead ent sid svc"
  shows "dead ent sid (snd (ss_UpdateSessionActivity rd ev sid' svc))"
proof -
  let ?s = "svc\<lparr>ss_db := snd (sr_UpdateSessionActivity ev sid' (ss_db svc))\<rparr>"
  have d: "dead ent sid ?s" using assms(2) gone_others(1) [of sid "ss_db svc" ev sid'] by (auto simp: dead_def)
  moreover have "dead ent sid (cacheSession rd ev (v\<lparr>se_LastActivityAt := sv_now ev\<rparr>) ?s)"
    if "getCachedSession rd ev sid' ?s = Some v" for v
    using getCached [OF that] assms by (intro dead_cache [OF d]) (auto simp: keyed_def dead_def)
  ultimately show ?thesis by (auto simp: ss_UpdateSessionActivity_def Let_def split_beta split: option.split)
qed

lemma Record_dead:
  assumes "keyed ent svc" "dead ent sid svc"
  shows "dead ent sid (snd (ss_RecordToolExecution rd ci ev sid' x svc))"
proof -
  let ?v = "snd (ss_ValidateSession rd ci ev sid' svc)"
  have v: "dead ent sid ?v" "keyed ent ?v" by (rule Validate_dead [OF assms], rule Validate_keyed [OF assms(1)])
  have "dead ent sid (?v\<lparr>ss_db := snd (sr_RecordToolExecution ev e (ss_db ?v))\<rparr>)" for e
    using v(1) gone_others(4) [of sid "ss_db ?v" ev e] by (auto simp: dead_def)
  with v show ?thesis
    by (auto simp: ss_RecordToolExecution_def Let_def split_beta intro: Activity_dead split: sum.split option.split)
qed

lemma step_dead: "session_step rd ci s s' \<Longrightarrow> keyed ent s \<Longrightarrow> dead ent sid s \<Longrightarrow> dead ent sid s'"
proof (induction rule: session_step.induct)
  case (create s ev q)
  let ?n = "\<lambda>enc md. new_session ev q enc md (ss_defaultTTL s)"
  have "dead ent sid (s\<lparr>ss_db := snd (sr_CreateSession ev t (ss_db s))\<rparr>)" for t
    using create(2) gone_Create [of sid "ss_db s" ev t] by (auto simp: dead_def)
  moreover have "se_SessionID t \<noteq> sid" if "fst (sr_CreateSession ev t (ss_db s)) = None" for t
    using that create(2)
    by (auto simp: sr_CreateSession_def insert_violation_def dead_def gone_def has_session_def split: option.splits if_splits)
  ultimately show ?case using create(2)
    by (auto simp: ss_CreateSession_def Let_def split_beta intro!: dead_cache split: option.split sum.split)
next
  case (terminate s ev sid' reason)
  then have "dead ent sid (s\<lparr>ss_db := snd (sr_TerminateSession ev sid' reason (ss_db s))\<rparr>)"
    using gone_others(2) [of sid "ss_db s" ev sid' reason] by (auto simp: dead_def)
  then show ?case
    by (auto simp: ss_TerminateSession_def Let_def split_beta dead_def dest: cached_invalidate split: option.split)
next
  case (executions s ev sid' limit)
  then show ?case using Get_dead by (auto simp: ss_GetSessionToolExecutions_def Let_def split_beta split: sum.split)
next
  case (cleanup s ev)
  then show ?case using gone_others(3) [of sid "ss_db s" ev] by (auto simp: ss_CleanupExpiredSessions_def split_beta dead_def)
qed (auto intro: Get_dead Refresh_dead Validate_dead Activity_dead Record_dead)

lemma run_keyed: "(session_step rd ci)\<^sup>*\<^sup>* s s' \<Longrightarrow> keyed ent s \<Longrightarrow> keyed ent s'"
  by (induction rule: rtranclp_induct) (auto intro: step_keyed)

lemma run_dead: "(session_step rd ci)\<^sup>*\<^sup>* s s' \<Longrightarrow> keyed ent s \<Longrightarrow> dead ent sid s \<Longrightarrow> keyed ent s' \<and> dead ent sid s'"
  by (induction rule: rtranclp_induct) (auto intro: step_keyed step_dead)

lemma dead_refused:
  assumes "keyed ent svc" "dead ent sid svc"
  shows "isl (fst (ss_ValidateSession rd ci ev sid svc))" "isl (fst (ss_RefreshSession rd ci ev sid svc))"
    "fst (ss_RecordToolExecution rd ci ev sid x svc) \<noteq> None" "fst (ss_UpdateSessionActivity rd ev sid svc) \<noteq> None"
proof -
  have a: "se_Status s \<noteq> SessionStatusActive" if "fst (ss_GetSession rd ci ev sid svc) = Inr s" for s
    using Get_result [OF assms(1) that] assms(2) by auto
  then show v: "isl (fst (ss_ValidateSession rd ci ev sid svc))" and "isl (fst (ss_RefreshSession rd ci ev sid svc))"
    by (auto simp: ss_ValidateSession_def ss_RefreshSession_def Let_def split_beta split: sum.split)
  from v show "fst (ss_RecordToolExecution rd ci ev sid x svc) \<noteq> None"
    by (auto simp: ss_RecordToolExecution_def Let_def split_beta isl_def)
  show "fst (ss_UpdateSessionActivity rd ev sid svc) \<noteq> None" using assms(2)
    by (auto simp: ss_UpdateSessionActivity_def sr_UpdateSessionActivity_def Let_def split_beta rows_where_zero dead_def gone_def
        driver_def split: option.splits if_splits)
qed

end

interpretation mem_sessions: session_store mem_redis fmlookup
  by unfold_locales

section \<open>Properties\<close>

lemma Create_success:
  assumes "fst (ss_CreateSession rd ci ev q s) = Inr n"
  obtains active enc md where "sr_ListActiveSessions ev (cq_TenantID q) (ss_db s) = Inr active"
    "\<not> ss_maxSessionsPerTenant s \<le> int (length active)"
    "fst (sr_CreateSession ev (new_session ev q enc md (ss_defaultTTL s)) (ss_db s)) = None"
    "n = (new_session ev q enc md (ss_defaultTTL s))\<lparr>se_PassthroughAuth := cq_PassthroughAuth q\<rparr>"
    "snd (ss_CreateSession rd ci ev q s) = cacheSession rd ev (new_session ev q enc md (ss_defaultTTL s))
       (s\<lparr>ss_db := snd (sr_CreateSession ev (new_session ev q enc md (ss_defaultTTL s)) (ss_db s))\<rparr>)"
  using assms by (auto simp: ss_CreateSession_def Let_def split_beta split: option.splits sum.splits if_splits)

lemma new_session_simps [simp]:
  "se_PassthroughAuth (new_session ev q enc md ttl) = None" "se_Status (new_session ev q enc md ttl) = SessionStatusActive"
  "se_TenantID (new_session ev q enc md ttl) = cq_TenantID q"
  "se_TerminatedAt (new_session ev q enc md ttl) = None" "se_TerminationReason (new_session ev q enc md ttl) = None"
  by (simp_all add: new_session_def zero_session_def)

text \<open>C12 A terminated session is never accepted again: once \<open>TerminateSession\<close> has succeeded and Redis has carried out
  its delete command, \<open>ValidateSession\<close>, \<open>RefreshSession\<close>, \<open>UpdateSessionActivity\<close> and \<open>RecordToolExecution\<close> refuse the
  session after any further run of operations, whatever the database driver and Redis report meanwhile and however
  the clock runs.  The operations are atomic here; \<open>terminate_race\<close> shows that they have to be.\<close>

theorem terminated_session_refused:
  assumes "redis_server rd ent" "(session_step rd ci)\<^sup>*\<^sup>* (NewSessionService d r config) s" "\<And>x. r = Some x \<Longrightarrow> ent x = Map.empty"
    and "fst (ss_TerminateSession rd ev sid reason s) = None"
    and "\<And>x. ss_cache s = Some x \<Longrightarrow> fst (rd_Del rd (sv_now ev) (session_key sid) x) = None"
    and "(session_step rd ci)\<^sup>*\<^sup>* (snd (ss_TerminateSession rd ev sid reason s)) s'"
  shows "isl (fst (ss_ValidateSession rd ci ev' sid s')) \<and> isl (fst (ss_RefreshSession rd ci ev' sid s')) \<and>
    fst (ss_UpdateSessionActivity rd ev' sid s') \<noteq> None \<and> fst (ss_RecordToolExecution rd ci ev' sid x s') \<noteq> None"
proof -
  have st: "session_store rd ent" using assms(1) by (simp add: session_store_def)
  have "keyed ent (NewSessionService d r config)" using assms(3) by (auto simp: keyed_def in_cache_def NewSessionService_def)
  then have "keyed ent s" by (rule session_store.run_keyed [OF st assms(2)])
  then have k: "keyed ent (snd (ss_TerminateSession rd ev sid reason s))"
    by (rule session_store.step_keyed [OF st session_step.terminate])
  have t: "fst (sr_TerminateSession ev sid reason (ss_db s)) = None"
    and eq: "snd (ss_TerminateSession rd ev sid reason s)
      = invalidateCache rd ev sid (s\<lparr>ss_db := snd (sr_TerminateSession ev sid reason (ss_db s))\<rparr>)"
    using assms(4) by (auto simp: ss_TerminateSession_def Let_def split_beta split: option.splits)
  have "\<not> in_cache ent (snd (ss_TerminateSession rd ev sid reason s)) sid v" for v
    using redis_server.Del_value [OF assms(1), of "sv_now ev" "session_key sid"] assms(5)
    by (cases "ss_cache s") (auto simp: eq invalidateCache_def in_cache_def)
  then have "dead ent sid (snd (ss_TerminateSession rd ev sid reason s))"
    using Terminate_gone [OF t] by (simp add: dead_def eq)
  with session_store.run_dead [OF st assms(6) k] have "keyed ent s'" "dead ent sid s'" by blast+
  then show ?thesis using session_store.dead_refused [OF st] by blast
qed

text \<open>A successful \<open>CreateSession\<close> found room for the tenant, so that the tenant has at most its limit of active sessions
  afterwards, and adds exactly one row, with a session id that was free.\<close>

theorem CreateSession_limit:
  assumes "fst (ss_CreateSession rd ci ev q s) = Inr n" "\<And>col desc rows. length (sv_order ev col desc rows) = length rows"
  shows "let active = (\<lambda>d. rows_where (\<lambda>r. se_TenantID r = cq_TenantID q \<and> se_Status r = SessionStatusActive) d);
             s' = snd (ss_CreateSession rd ci ev q s)
         in active (ss_db s') = active (ss_db s) + 1 \<and> active (ss_db s') \<le> ss_maxSessionsPerTenant s
          \<and> sd_sessions (ss_db s') = sd_sessions (ss_db s) @ [session_row n] \<and> \<not> has_session (se_SessionID n) (ss_db s)"
proof -
  obtain active enc md where a: "sr_ListActiveSessions ev (cq_TenantID q) (ss_db s) = Inr active"
      "\<not> ss_maxSessionsPerTenant s \<le> int (length active)"
    and c: "fst (sr_CreateSession ev (new_session ev q enc md (ss_defaultTTL s)) (ss_db s)) = None"
      "n = (new_session ev q enc md (ss_defaultTTL s))\<lparr>se_PassthroughAuth := cq_PassthroughAuth q\<rparr>"
      "snd (ss_CreateSession rd ci ev q s) = cacheSession rd ev (new_session ev q enc md (ss_defaultTTL s))
         (s\<lparr>ss_db := snd (sr_CreateSession ev (new_session ev q enc md (ss_defaultTTL s)) (ss_db s))\<rparr>)"
    using assms(1) by (rule Create_success)
  have l: "int (length active) = rows_where (\<lambda>r. se_TenantID r = cq_TenantID q \<and> se_Status r = SessionStatusActive) (ss_db s)"
    using a(1) assms(2) by (auto simp: sr_ListActiveSessions_def rows_where_def split: option.splits)
  have rows: "sd_sessions (ss_db (snd (ss_CreateSession rd ci ev q s))) = sd_sessions (ss_db s) @ [session_row n]"
    "\<not> has_session (se_SessionID n) (ss_db s)"
    using c by (auto simp: sr_CreateSession_def session_row_def insert_violation_def has_session_def split: option.splits if_splits)
  have n: "se_TenantID (session_row n) = cq_TenantID q" "se_Status (session_row n) = SessionStatusActive"
    by (simp_all add: c(2) session_row_def)
  show ?thesis unfolding Let_def rows_where_def rows(1) using rows(2) n a(2) l by (simp add: rows_where_def)
qed

text \<open>A service and a request to try the properties on: no cache at first, and a driver that reports no errors.\<close>

definition calm_session_env :: "go_time \<Rightarrow> session_env" where
  "calm_session_env now = \<lparr>sv_now = now, sv_db = (\<lambda>_. None), sv_order = (\<lambda>_ _ rows. rows), sv_uuid = (\<lambda>n. word_of_nat (n + 1)), sv_random = Some ''x''\<rparr>"

definition plain_cipher :: cipher where
  "plain_cipher = \<lparr>ci_Encrypt = (\<lambda>a t. Inr ''c''), ci_Decrypt = (\<lambda>c t. Inl ''no key'')\<rparr>"

definition ide_request :: create_request where
  "ide_request = \<lparr>cq_SessionID = ''s1'', cq_EdgeMCPID = ''edge'', cq_TenantID = 7, cq_UserID = None, cq_ClientName = '''',
     cq_ClientType = ''ide'', cq_ClientVersion = '''', cq_PassthroughAuth = None, cq_Metadata = None, cq_TTL = 0\<rparr>"

definition no_sessions :: "'s option \<Rightarrow> 's session_service" where
  "no_sessions r = NewSessionService \<lparr>sd_sessions = [], sd_executions = []\<rparr> r
     \<lparr>sc_DefaultTTL = 0, sc_MaxSessions = 0, sc_IdleTimeout = 0\<rparr>"

lemmas session_examples = calm_session_env_def plain_cipher_def ide_request_def no_sessions_def NewSessionService_def zero_session_def
  ss_CreateSession_def validateCreateRequest_def sr_ListActiveSessions_def driver_def encrypt_auth_def marshal_metadata_def
  sr_CreateSession_def insert_violation_def cacheSession_def new_session_def ct_Validate_def client_types_def session_row_def

theorem CreateSession_limit_witness:
  "let s = no_sessions None;
       s' = snd (ss_CreateSession mem_redis plain_cipher (calm_session_env 5) ide_request s)
   in rows_where (\<lambda>r. se_TenantID r = 7 \<and> se_Status r = SessionStatusActive) (ss_db s') = 1"
proof -
  let ?s = "no_sessions None"
  obtain n where "fst (ss_CreateSession mem_redis plain_cipher (calm_session_env 5) ide_request ?s) = Inr n"
    by (simp add: session_examples Let_def)
  moreover have "length (sv_order (calm_session_env 5) col desc rows) = length rows" for col desc rows by (simp add: calm_session_env_def)
  moreover have "rows_where P (ss_db ?s) = 0" for P by (simp add: rows_where_def no_sessions_def NewSessionService_def)
  moreover have "cq_TenantID ide_request = 7" by (simp add: ide_request_def)
  ultimately show ?thesis using CreateSession_limit [of mem_redis plain_cipher "calm_session_env 5" ide_request ?s n] by (simp add: Let_def)
qed

theorem terminated_session_refused_witness:
  "let s = snd (ss_CreateSession mem_redis plain_cipher (calm_session_env 5) ide_request (no_sessions (Some fmempty)));
       s' = snd (ss_TerminateSession mem_redis (calm_session_env 6) ''s1'' ''logout'' s)
   in fst (ss_TerminateSession mem_redis (calm_session_env 6) ''s1'' ''logout'' s) = None \<and>
      isl (fst (ss_ValidateSession mem_redis plain_cipher (calm_session_env 7) ''s1'' s'))"
proof -
  let ?s = "snd (ss_CreateSession mem_redis plain_cipher (calm_session_env 5) ide_request (no_sessions (Some fmempty)))"
  have t: "fst (ss_TerminateSession mem_redis (calm_session_env 6) ''s1'' ''logout'' ?s) = None"
    by (simp add: session_examples ss_TerminateSession_def sr_TerminateSession_def rows_where_def Let_def)
  have "(session_step mem_redis plain_cipher)\<^sup>*\<^sup>* (no_sessions (Some fmempty)) ?s"
    by (rule r_into_rtranclp, rule create)
  then have r: "(session_step mem_redis plain_cipher)\<^sup>*\<^sup>* (NewSessionService \<lparr>sd_sessions = [], sd_executions = []\<rparr> (Some fmempty)
     \<lparr>sc_DefaultTTL = 0, sc_MaxSessions = 0, sc_IdleTimeout = 0\<rparr>) ?s"
    by (simp add: no_sessions_def)
  have "fmlookup fmempty = Map.empty" by (simp add: fun_eq_iff)
  with terminated_session_refused [OF mem.redis_server_axioms r _ t _ rtranclp.rtrancl_refl] t
  show ?thesis by (auto simp: Let_def)
qed

section \<open>Credentials, races and refusals\<close>

lemma mem_cached:
  assumes "ss_cache svc = Some r" "now \<le> sv_now ev'" "sv_now ev' < now + 5 * minute" "sv_now ev = now"
    and "\<And>e. se_ExpiresAt s = Some e \<Longrightarrow> sv_now ev' < e"
  shows "getCachedSession mem_redis ev' (se_SessionID s) (cacheSession mem_redis ev s svc) = Some (json_session s)"
proof -
  have "unexpired (sv_now ev') (deadline now (cache_ttl now s))"
    using assms(2,3,5) by (cases "se_ExpiresAt s") (auto simp: cache_ttl_def deadline_def Let_def time_sub_def time_units)
  then show ?thesis using assms(1,4) by (auto simp: getCachedSession_def cacheSession_def entry_def)
qed

lemma Update_erases:
  "sv_db ev = (\<lambda>_. None) \<Longrightarrow> se_PassthroughAuthEncrypted s = None \<Longrightarrow> r \<in> set (sd_sessions (snd (sr_UpdateSession ev s d))) \<Longrightarrow>
     se_SessionID r = se_SessionID s \<Longrightarrow> se_PassthroughAuthEncrypted r = None"
  by (auto simp: sr_UpdateSession_def driver_def Let_def set_update_sessions update_columns_def split: if_splits)

text \<open>A session created with credentials is cached without them: \<open>GetSession\<close> returns it without, and \<open>RefreshSession\<close>
  writes what it got from the cache back, which removes the encrypted credentials from the database.\<close>

theorem fresh_session_loses_credentials:
  assumes "fst (ss_CreateSession mem_redis ci ev q s) = Inr n" "ss_cache s = Some r"
    and "sv_now ev \<le> sv_now ev'" "sv_now ev' < sv_now ev + 5 * minute" "\<And>e. se_ExpiresAt n = Some e \<Longrightarrow> sv_now ev' < e"
    and "sv_db ev' = (\<lambda>_. None)"
  shows "let s' = snd (ss_CreateSession mem_redis ci ev q s); sid = se_SessionID n
    in fst (ss_GetSession mem_redis ci ev' sid s') = Inr (n\<lparr>se_PassthroughAuth := None, se_PassthroughAuthEncrypted := None\<rparr>)
     \<and> (\<forall>row \<in> set (sd_sessions (ss_db (snd (ss_RefreshSession mem_redis ci ev' sid s')))).
          se_SessionID row = sid \<longrightarrow> se_PassthroughAuthEncrypted row = None)"
proof -
  define s' where "s' = snd (ss_CreateSession mem_redis ci ev q s)"
  obtain m d where m: "n = m\<lparr>se_PassthroughAuth := cq_PassthroughAuth q\<rparr>" "se_PassthroughAuth m = None"
      "se_Status m = SessionStatusActive"
    and s': "s' = cacheSession mem_redis ev m (s\<lparr>ss_db := d\<rparr>)"
    unfolding s'_def using Create_success [OF assms(1)] new_session_simps by metis
  have "getCachedSession mem_redis ev' (se_SessionID m) s' = Some (json_session m)"
    unfolding s' using assms(2-5) m(1) by (intro mem_cached [where r = r]) auto
  then have g: "ss_GetSession mem_redis ci ev' (se_SessionID n) s' = (Inr (json_session m), s')"
    by (simp add: ss_GetSession_def m(1))
  let ?t = "(json_session m)\<lparr>se_ExpiresAt := Some (sv_now ev' + ss_defaultTTL s'), se_LastActivityAt := sv_now ev'\<rparr>"
  have "ss_db (snd (ss_RefreshSession mem_redis ci ev' (se_SessionID n) s')) = snd (sr_UpdateSession ev' ?t (ss_db s'))"
    by (simp add: ss_RefreshSession_def Let_def split_beta g m(3) split: option.split)
  then have "\<forall>row \<in> set (sd_sessions (ss_db (snd (ss_RefreshSession mem_redis ci ev' (se_SessionID n) s')))).
      se_SessionID row = se_SessionID n \<longrightarrow> se_PassthroughAuthEncrypted row = None"
    using Update_erases [OF assms(6), of ?t] by (auto simp: json_session_def m(1))
  moreover have "json_session m = n\<lparr>se_PassthroughAuth := None, se_PassthroughAuthEncrypted := None\<rparr>"
    using m(1,2) by (cases m) (simp add: json_session_def)
  ultimately show ?thesis using g by (simp add: s'_def Let_def)
qed

text \<open>After a miss \<open>GetSession\<close> stores the credentials it has decrypted in Redis in the clear.\<close>

theorem credentials_cached_in_clear:
  assumes "getCachedSession mem_redis ev sid s = None" "find_session sid (ss_db s) = Some row" "sv_db ev = (\<lambda>_. None)"
    and "\<not> se_IsExpired (sv_now ev) row" "ss_cache s = Some r"
    and "se_PassthroughAuthEncrypted row = Some text" "text \<noteq> ''''" "ci_Decrypt ci text (se_TenantID row) = Inr auth"
  shows "\<exists>v. in_cache fmlookup (snd (ss_GetSession mem_redis ci ev sid s)) sid v \<and> se_PassthroughAuth v = Some auth"
proof -
  have "load_session ci ev sid s = (Inr (row\<lparr>se_PassthroughAuth := Some auth\<rparr>), s)"
    using assms by (simp add: load_session_def sr_GetSession_def driver_def decryptPassthroughAuth_def)
  then have "snd (ss_GetSession mem_redis ci ev sid s) = cacheSession mem_redis ev (row\<lparr>se_PassthroughAuth := Some auth\<rparr>) s"
    by (simp add: ss_GetSession_def assms(1))
  then show ?thesis using find_session_Some [OF assms(2)] assms(5) by (simp add: cacheSession_def in_cache_def json_session_def)
qed

text \<open>When \<open>TerminateSession\<close> runs between the two halves of a concurrent \<open>GetSession\<close>, the terminated session is put back
  into the cache, and \<open>ValidateSession\<close> accepts it.\<close>

theorem terminate_race:
  assumes "fst (load_session ci ev sid s) = Inr v" "se_Status v = SessionStatusActive" "ss_cache s = Some r"
    and "fst (ss_TerminateSession mem_redis ev sid reason (snd (load_session ci ev sid s))) = None"
    and "time_sub (sv_now ev) (se_LastActivityAt v) \<le> ss_idleTimeout s" "\<And>e. se_ExpiresAt v = Some e \<Longrightarrow> sv_now ev < e"
  shows "fst (ss_ValidateSession mem_redis ci ev sid (cacheSession mem_redis ev v
    (snd (ss_TerminateSession mem_redis ev sid reason (snd (load_session ci ev sid s)))))) = Inr (json_session v)"
proof -
  define t where "t = snd (ss_TerminateSession mem_redis ev sid reason (snd (load_session ci ev sid s)))"
  have "ss_cache (snd (load_session ci ev sid s)) = Some r" "ss_idleTimeout (snd (load_session ci ev sid s)) = ss_idleTimeout s"
    using assms(3) by (auto simp: load_session_def Let_def split_beta split: sum.split)
  then obtain r' where t: "ss_cache t = Some r'" "ss_idleTimeout t = ss_idleTimeout s"
    by (cases "fst (sr_TerminateSession ev sid reason (ss_db (snd (load_session ci ev sid s))))")
       (simp_all add: t_def ss_TerminateSession_def Let_def split_beta invalidateCache_def)
  have sid: "se_SessionID v = sid" using load_row [OF assms(1)] by simp
  have "getCachedSession mem_redis ev sid (cacheSession mem_redis ev v t) = Some (json_session v)"
    using mem_cached [OF t(1), of "sv_now ev" ev ev v] assms(6) sid by (simp add: time_units)
  moreover have "ss_idleTimeout (cacheSession mem_redis ev v t) = ss_idleTimeout s"
    using t by (simp add: cacheSession_def)
  moreover have "\<not> se_IsExpired (sv_now ev) (json_session v)"
    using assms(2) assms(6) [of "the (se_ExpiresAt v)"] by (cases "se_ExpiresAt v") (auto simp: se_IsExpired_def json_session_def)
  ultimately show ?thesis using assms(2,5) unfolding t_def [symmetric]
    by (simp add: ss_ValidateSession_def ss_GetSession_def json_session_def)
qed

text \<open>A request need not name a client type, but a session without one violates the check constraint of the table.\<close>

theorem untyped_client_rejected:
  "cq_ClientType q = '''' \<Longrightarrow> isl (fst (ss_CreateSession rd ci ev q s))"
  by (auto simp: ss_CreateSession_def Let_def split_beta sr_CreateSession_def insert_violation_def new_session_def client_types_def
      split: option.split sum.split)

end
