(* ===== verification/Embedding_Router.thy ===== *)
theory Embedding_Router
  imports Breaker_Spec Go_Float
begin

text \<open>
  The routing of embedding requests (\<open>pkg/embedding/router.go\<close>): for the models an agent's
  configuration prefers (\<open>pkg/agents/config.go\<close>), the providers that offer them are scored, sorted, and
  filtered by their circuit breakers (\<open>pkg/embedding/circuit_breaker.go\<close>), the fourth breaker of the
  program.

  Scores are floats (\<open>Go_Float\<close>), since a health score divides by a configured number.  A provider is
  the list of models it supports.  The order in which the map of providers is visited and
  \<open>sort.Slice\<close> are the arguments \<open>rng\<close> and \<open>srt\<close>.  A call on a breaker that does not exist panics: the
  result None.  The texts that explain a score are left out.
\<close>

section \<open>Model: the breaker\<close>

record vendor_config =
  vc_FailureThreshold :: int
  vc_SuccessThreshold :: int
  vc_Timeout :: duration
  vc_HalfOpenMaxRequests :: int

record vendor_breaker =
  vb_config :: vendor_config
  vb_state :: circuit_state
  vb_failureCount :: int
  vb_successCount :: int
  vb_lastFailureTime :: go_time
  vb_lastStateChangeTime :: go_time
  vb_halfOpenRequests :: int

definition vb_New :: "go_time \<Rightarrow> vendor_config \<Rightarrow> vendor_breaker" where
  "vb_New now c = \<lparr>vb_config = c, vb_state = Closed, vb_failureCount = 0, vb_successCount = 0, vb_lastFailureTime = 0,
     vb_lastStateChangeTime = now, vb_halfOpenRequests = 0\<rparr>"

definition transitionToOpen :: "go_time \<Rightarrow> vendor_breaker \<Rightarrow> vendor_breaker" where
  "transitionToOpen now cb = cb\<lparr>vb_state := Open, vb_lastStateChangeTime := now, vb_successCount := 0, vb_halfOpenRequests := 0\<rparr>"

definition transitionToHalfOpen :: "go_time \<Rightarrow> vendor_breaker \<Rightarrow> vendor_breaker" where
  "transitionToHalfOpen now cb =
     cb\<lparr>vb_state := HalfOpen, vb_lastStateChangeTime := now, vb_successCount := 0, vb_halfOpenRequests := 0\<rparr>"

definition transitionToClosed :: "go_time \<Rightarrow> vendor_breaker \<Rightarrow> vendor_breaker" where
  "transitionToClosed now cb = cb\<lparr>vb_state := Closed, vb_lastStateChangeTime := now, vb_failureCount := 0, vb_halfOpenRequests := 0\<rparr>"

definition CanRequest :: "go_time \<Rightarrow> vendor_breaker \<Rightarrow> bool \<times> vendor_breaker" where
  "CanRequest now cb =
     (case vb_state cb of
        Closed \<Rightarrow> (True, cb)
      | Open \<Rightarrow>
          if vc_Timeout (vb_config cb) \<le> time_sub now (vb_lastStateChangeTime cb)
          then (True, transitionToHalfOpen now cb) else (False, cb)
      | HalfOpen \<Rightarrow>
          if vb_halfOpenRequests cb < vc_HalfOpenMaxRequests (vb_config cb)
          then (True, cb\<lparr>vb_halfOpenRequests := vb_halfOpenRequests cb + 1\<rparr>) else (False, cb))"

definition vb_RecordSuccess :: "go_time \<Rightarrow> vendor_breaker \<Rightarrow> vendor_breaker" where
  "vb_RecordSuccess now cb =
     (case vb_state cb of
        Closed \<Rightarrow> cb\<lparr>vb_failureCount := 0\<rparr>
      | HalfOpen \<Rightarrow>
          let cb = cb\<lparr>vb_successCount := vb_successCount cb + 1\<rparr>
          in if vc_SuccessThreshold (vb_config cb) \<le> vb_successCount cb then transitionToClosed now cb else cb
      | Open \<Rightarrow> cb)"

definition vb_RecordFailure :: "go_time \<Rightarrow> vendor_breaker \<Rightarrow> vendor_breaker" where
  "vb_RecordFailure now cb =
     (let cb = cb\<lparr>vb_lastFailureTime := now\<rparr>
      in case vb_state cb of
           Closed \<Rightarrow>
             let cb = cb\<lparr>vb_failureCount := vb_failureCount cb + 1\<rparr>
             in if vc_FailureThreshold (vb_config cb) \<le> vb_failureCount cb then transitionToOpen now cb else cb
         | HalfOpen \<Rightarrow> transitionToOpen now cb
         | Open \<Rightarrow> cb)"

definition HealthScore :: "vendor_breaker \<Rightarrow> gofloat" where
  "HealthScore cb =
     (case vb_state cb of
        Closed \<Rightarrow> fl_add (Fin 1) (fl_neg (fl_div (Fin (f64_of_int (vb_failureCount cb)))
                     (Fin (f64_of_int (vc_FailureThreshold (vb_config cb))))))
      | HalfOpen \<Rightarrow> Fin (1 / 2)
      | Open \<Rightarrow> Fin 0)"

section \<open>Model: what an agent asks for\<close>

record model_preference =
  mp_TaskType :: string
  mp_PrimaryModels :: "string list"
  mp_FallbackModels :: "string list"
  mp_Weight :: rat

record agent_constraints =
  ak_MaxCostPerMonthUSD :: rat
  ak_MinAvailabilitySLA :: rat
  ak_TokensPerHour :: int

record agent_config =
  af_AgentID :: string
  af_EmbeddingStrategy :: string
  af_ModelPreferences :: "model_preference list"
  af_Constraints :: agent_constraints

fun check_preferences :: "string list \<Rightarrow> model_preference list \<Rightarrow> string option" where
  "check_preferences seen [] = None"
| "check_preferences seen (p # ps) =
     (if mp_TaskType p \<in> set seen then Some (''duplicate task type: '' @ mp_TaskType p)
      else if mp_PrimaryModels p = [] then Some (''at least one primary model is required for task type: '' @ mp_TaskType p)
      else check_preferences (mp_TaskType p # seen) ps)"

definition af_Validate :: "agent_config \<Rightarrow> string option" where
  "af_Validate c =
     (if af_AgentID c = '''' then Some ''agent_id is required''
      else if af_ModelPreferences c = [] then Some ''at least one model preference is required''
      else case check_preferences [] (af_ModelPreferences c) of
        Some e \<Rightarrow> Some e
      | None \<Rightarrow>
          if ak_MaxCostPerMonthUSD (af_Constraints c) < 0 then Some ''max_cost_per_month_usd must be non-negative''
          else if ak_MinAvailabilitySLA (af_Constraints c) < 0 \<or> 1 < ak_MinAvailabilitySLA (af_Constraints c)
          then Some ''min_availability_sla must be between 0 and 1'' else None)"

definition GetModelsForTask :: "string \<Rightarrow> agent_config \<Rightarrow> string list \<times> string list" where
  "GetModelsForTask ty c =
     (case List.find (\<lambda>p. mp_TaskType p = ty) (af_ModelPreferences c) of
        Some p \<Rightarrow> (mp_PrimaryModels p, mp_FallbackModels p)
      | None \<Rightarrow>
          (case List.find (\<lambda>p. mp_TaskType p = ''general_qa'') (af_ModelPreferences c) of
             Some p \<Rightarrow> (mp_PrimaryModels p, mp_FallbackModels p)
           | None \<Rightarrow> ([], [])))"

section \<open>Model: load and quality\<close>

record provider_load =
  pl_CurrentRequests :: int
  pl_AvgLatency :: duration
  pl_LastUpdated :: go_time

record quality_score =
  qs_SuccessCount :: int
  qs_FailureCount :: int
  qs_LastUpdated :: go_time

text \<open>Go's integer division rounds towards zero.\<close>

definition trunc_div :: "int \<Rightarrow> int \<Rightarrow> int" where
  "trunc_div a b = sgn a * sgn b * (\<bar>a\<bar> div \<bar>b\<bar>)"

definition GetLoad :: "string \<Rightarrow> (string, provider_load) fmap \<Rightarrow> rat" where
  "GetLoad p loads =
     (case fmlookup loads p of
        Some l \<Rightarrow> f64_div (f64_mul (f64_of_int (pl_CurrentRequests l)) (f64_of_int (trunc_div (pl_AvgLatency l) millisecond))) 1000
      | None \<Rightarrow> 0)"

definition RecordLatency :: "go_time \<Rightarrow> string \<Rightarrow> duration \<Rightarrow> (string, provider_load) fmap \<Rightarrow> (string, provider_load) fmap" where
  "RecordLatency now p latency loads =
     (case fmlookup loads p of
        Some l \<Rightarrow> fmupd p (l\<lparr>pl_AvgLatency := trunc_div (signed_take_bit 63 (pl_AvgLatency l + latency)) 2, pl_LastUpdated := now\<rparr>) loads
      | None \<Rightarrow> fmupd p \<lparr>pl_CurrentRequests = 0, pl_AvgLatency = latency, pl_LastUpdated = now\<rparr> loads)"

definition GetScore :: "string \<Rightarrow> string \<Rightarrow> (string, quality_score) fmap \<Rightarrow> rat" where
  "GetScore p model scores =
     (case fmlookup scores (p @ '':'' @ model) of
        Some s \<Rightarrow>
          let total = qs_SuccessCount s + qs_FailureCount s
          in if total = 0 then 1 else f64_div (f64_of_int (qs_SuccessCount s)) (f64_of_int total)
      | None \<Rightarrow> 1)"

definition qt_RecordSuccess :: "go_time \<Rightarrow> string \<Rightarrow> (string, quality_score) fmap \<Rightarrow> (string, quality_score) fmap" where
  "qt_RecordSuccess now p scores =
     (case fmlookup scores p of
        Some s \<Rightarrow> fmupd p (s\<lparr>qs_SuccessCount := qs_SuccessCount s + 1, qs_LastUpdated := now\<rparr>) scores
      | None \<Rightarrow> fmupd p \<lparr>qs_SuccessCount = 1, qs_FailureCount = 0, qs_LastUpdated = now\<rparr> scores)"

definition qt_RecordFailure :: "go_time \<Rightarrow> string \<Rightarrow> (string, quality_score) fmap \<Rightarrow> (string, quality_score) fmap" where
  "qt_RecordFailure now p scores =
     (case fmlookup scores p of
        Some s \<Rightarrow> fmupd p (s\<lparr>qs_FailureCount := qs_FailureCount s + 1, qs_LastUpdated := now\<rparr>) scores
      | None \<Rightarrow> fmupd p \<lparr>qs_SuccessCount = 0, qs_FailureCount = 1, qs_LastUpdated = now\<rparr> scores)"

section \<open>Model: the router\<close>

record model_info =
  mi_Name :: string
  mi_DisplayName :: string
  mi_Dimensions :: int
  mi_MaxTokens :: int
  mi_CostPer1MTokens :: rat
  mi_SupportedTaskTypes :: "string list"
  mi_SupportsDimensionReduction :: bool
  mi_MinDimensions :: int
  mi_IsActive :: bool
  mi_DeprecatedAt :: "go_time option"

record smart_router =
  ro_providers :: "(string, model_info list) fmap"
  ro_circuitBreakers :: "(string, vendor_breaker) fmap"
  ro_loads :: "(string, provider_load) fmap"
  ro_scores :: "(string, quality_score) fmap"

record routing_request =
  rq_AgentConfig :: agent_config
  rq_TaskType :: string
  rq_RequestID :: string

record candidate =
  ca_Provider :: string
  ca_Model :: string
  ca_Score :: gofloat

record routing_decision =
  rn_Candidates :: "candidate list"
  rn_Strategy :: string

definition default_vendor_config :: vendor_config where
  "default_vendor_config = \<lparr>vc_FailureThreshold = 5, vc_SuccessThreshold = 2, vc_Timeout = 30 * second, vc_HalfOpenMaxRequests = 3\<rparr>"

definition NewSmartRouter :: "go_time \<Rightarrow> vendor_config \<Rightarrow> (string, model_info list) fmap \<Rightarrow> smart_router" where
  "NewSmartRouter now c ps = \<lparr>ro_providers = ps, ro_circuitBreakers = fmmap (\<lambda>_. vb_New now c) ps, ro_loads = fmempty, ro_scores = fmempty\<rparr>"

text \<open>A decimal literal is the nearest double.\<close>

definition lit :: "rat \<Rightarrow> gofloat" where "lit q = Fin (f64_round q)"

definition math_Max :: "gofloat \<Rightarrow> gofloat \<Rightarrow> gofloat" where
  "math_Max x y = (if x = PInf \<or> y = PInf then PInf else if x = NaN \<or> y = NaN then NaN else if fl_less y x then x else y)"

definition math_Min :: "gofloat \<Rightarrow> gofloat \<Rightarrow> gofloat" where
  "math_Min x y = (if x = NInf \<or> y = NInf then NInf else if x = NaN \<or> y = NaN then NaN else if fl_less x y then x else y)"

definition cost_score :: "model_info \<Rightarrow> gofloat" where
  "cost_score m = math_Max (Fin 0) (fl_add (Fin 1) (fl_neg (fl_div (Fin (mi_CostPer1MTokens m)) (lit (20 / 100)))))"

definition latency_score :: "smart_router \<Rightarrow> string \<Rightarrow> gofloat" where
  "latency_score r p = math_Max (Fin 0) (fl_add (Fin 1) (fl_neg (fl_div (Fin (GetLoad p (ro_loads r))) (Fin 100))))"

definition strategy_score :: "smart_router \<Rightarrow> string \<Rightarrow> string \<Rightarrow> model_info \<Rightarrow> gofloat" where
  "strategy_score r strategy p m =
     (let quality = Fin (GetScore p (mi_Name m) (ro_scores r))
      in if strategy = ''quality'' then
           let bonus = (if 3072 \<le> mi_Dimensions m then lit (3 / 10) else if 1536 \<le> mi_Dimensions m then lit (2 / 10) else Fin 0)
           in fl_add (fl_add (lit (5 / 10)) (fl_mul bonus (lit (3 / 10)))) (fl_mul quality (lit (2 / 10)))
         else if strategy = ''cost'' then fl_add (lit (5 / 10)) (fl_mul (cost_score m) (lit (4 / 10)))
         else if strategy = ''speed'' then
           let score = fl_add (lit (5 / 10)) (fl_mul (latency_score r p) (lit (3 / 10)))
           in if mi_Dimensions m \<le> 1024 then fl_add score (lit (1 / 10)) else score
         else if strategy = ''balanced'' then
           fl_add (lit (5 / 10))
             (fl_mul (fl_add (fl_add (fl_mul quality (lit (3 / 10))) (fl_mul (cost_score m) (lit (3 / 10))))
                (fl_mul (latency_score r p) (lit (4 / 10)))) (lit (3 / 10)))
         else lit (5 / 10))"

definition monthly_cost :: "agent_constraints \<Rightarrow> model_info \<Rightarrow> rat" where
  "monthly_cost k m =
     f64_div (f64_mul (f64_mul (f64_mul (mi_CostPer1MTokens m) (f64_of_int (ak_TokensPerHour k))) 24) 30) 1000000"

definition scoreProviderModel :: "go_time \<Rightarrow> smart_router \<Rightarrow> vendor_breaker \<Rightarrow> routing_request \<Rightarrow> string \<Rightarrow> model_info \<Rightarrow> gofloat" where
  "scoreProviderModel now r cb q p m =
     (if (case mi_DeprecatedAt m of Some t \<Rightarrow> t < now | None \<Rightarrow> False) then Fin 0
      else if \<not> mi_IsActive m then Fin 0
      else
        let score = strategy_score r (af_EmbeddingStrategy (rq_AgentConfig q)) p m;
            score = fl_add score (fl_mul (HealthScore cb) (lit (1 / 10)));
            score = (if rq_TaskType q \<in> set (mi_SupportedTaskTypes m) then fl_add score (lit (15 / 100)) else score);
            k = af_Constraints (rq_AgentConfig q);
            score = (if 0 < ak_MaxCostPerMonthUSD k \<and> ak_MaxCostPerMonthUSD k < monthly_cost k m
                     then fl_mul score (lit (1 / 10)) else score)
        in math_Max (Fin 0) (math_Min (Fin 1) score))"

text \<open>For every model, the providers that support it, with the first entry that has its name.\<close>

definition supporters :: "(string \<times> model_info list) list \<Rightarrow> string list \<Rightarrow> (string \<times> model_info) list" where
  "supporters ps models =
     concat (map (\<lambda>model. concat (map (\<lambda>(p, infos).
       case List.find (\<lambda>i. mi_Name i = model) infos of Some i \<Rightarrow> [(p, i)] | None \<Rightarrow> []) ps)) models)"

definition scoreCandidates ::
  "((string, model_info list) fmap \<Rightarrow> (string \<times> model_info list) list) \<Rightarrow> go_time \<Rightarrow> smart_router \<Rightarrow> routing_request \<Rightarrow> string list \<Rightarrow> candidate list option" where
  "scoreCandidates rng now r q models =
     (let found = supporters (rng (ro_providers r)) models
      in if \<exists>(p, i) \<in> set found. fmlookup (ro_circuitBreakers r) p = None then None
         else Some (map (\<lambda>(p, i). \<lparr>ca_Provider = p, ca_Model = mi_Name i,
                ca_Score = scoreProviderModel now r (the (fmlookup (ro_circuitBreakers r) p)) q p i\<rparr>) found))"

fun admit :: "go_time \<Rightarrow> candidate list \<Rightarrow> (string, vendor_breaker) fmap \<Rightarrow> candidate list \<times> (string, vendor_breaker) fmap" where
  "admit now [] bs = ([], bs)"
| "admit now (c # cs) bs =
     (let (ok, cb) = CanRequest now (the (fmlookup bs (ca_Provider c)));
          (rest, bs') = admit now cs (fmupd (ca_Provider c) cb bs)
      in (if ok then c # rest else rest, bs'))"

definition allModels :: "routing_request \<Rightarrow> string list" where
  "allModels q = (let (primary, fallback) = GetModelsForTask (rq_TaskType q) (rq_AgentConfig q) in primary @ fallback)"

definition SelectProvider ::
  "((string, model_info list) fmap \<Rightarrow> (string \<times> model_info list) list) \<Rightarrow> ((candidate \<Rightarrow> candidate \<Rightarrow> bool) \<Rightarrow> candidate list \<Rightarrow> candidate list) \<Rightarrow>
     go_time \<Rightarrow> routing_request \<Rightarrow> smart_router \<Rightarrow> ((string + routing_decision) \<times> smart_router) option" where
  "SelectProvider rng srt now q r =
     (let (primary, fallback) = GetModelsForTask (rq_TaskType q) (rq_AgentConfig q)
      in if primary = [] \<and> fallback = [] then Some (Inl (''no models configured for task type: '' @ rq_TaskType q), r)
         else case scoreCandidates rng now r q (primary @ fallback) of
           None \<Rightarrow> None
         | Some cands \<Rightarrow>
             let (available, bs) = admit now (srt (\<lambda>a b. fl_less (ca_Score b) (ca_Score a)) cands) (ro_circuitBreakers r);
                 r = r\<lparr>ro_circuitBreakers := bs\<rparr>
             in if available = [] then Some (Inl ''no available providers (all circuit breakers open)'', r)
                else Some (Inr \<lparr>rn_Candidates = available, rn_Strategy = af_EmbeddingStrategy (rq_AgentConfig q)\<rparr>, r))"

definition RecordResult :: "go_time \<Rightarrow> string \<Rightarrow> bool \<Rightarrow> duration \<Rightarrow> smart_router \<Rightarrow> smart_router option" where
  "RecordResult now p success latency r =
     (case fmlookup (ro_circuitBreakers r) p of
        None \<Rightarrow> None
      | Some cb \<Rightarrow>
          Some (if success
                then r\<lparr>ro_circuitBreakers := fmupd p (vb_RecordSuccess now cb) (ro_circuitBreakers r),
                       ro_loads := RecordLatency now p latency (ro_loads r), ro_scores := qt_RecordSuccess now p (ro_scores r)\<rparr>
                else r\<lparr>ro_circuitBreakers := fmupd p (vb_RecordFailure now cb) (ro_circuitBreakers r),
                       ro_scores := qt_RecordFailure now p (ro_scores r)\<rparr>))"

section \<open>The breaker keeps the contract\<close>

inductive vb_step :: "go_time \<Rightarrow> vendor_breaker \<Rightarrow> vendor_breaker \<Rightarrow> bool" for now where
  can_request: "vb_step now cb (snd (CanRequest now cb))"
| success: "vb_step now cb (vb_RecordSuccess now cb)"
| failure: "vb_step now cb (vb_RecordFailure now cb)"

definition vc_ok :: "vendor_config \<Rightarrow> bool" where
  "vc_ok c \<longleftrightarrow> 0 < vc_FailureThreshold c \<and> vc_FailureThreshold c < 2 ^ 53 \<and> 0 < vc_SuccessThreshold c
     \<and> 0 \<le> vc_Timeout c \<and> vc_Timeout c < 2 ^ 63 \<and> 0 \<le> vc_HalfOpenMaxRequests c"

definition vb_ok :: "vendor_breaker \<Rightarrow> bool" where
  "vb_ok cb \<longleftrightarrow> vc_ok (vb_config cb) \<and> 0 \<le> vb_failureCount cb
     \<and> (vb_state cb = Closed \<longrightarrow> vb_failureCount cb < vc_FailureThreshold (vb_config cb))
     \<and> (vb_state cb = HalfOpen \<longrightarrow> 0 \<le> vb_successCount cb \<and> vb_successCount cb < vc_SuccessThreshold (vb_config cb)
          \<and> 0 \<le> vb_halfOpenRequests cb \<and> vb_halfOpenRequests cb \<le> vc_HalfOpenMaxRequests (vb_config cb))"

lemmas vb_operations = CanRequest_def vb_RecordSuccess_def vb_RecordFailure_def transitionToOpen_def transitionToHalfOpen_def
  transitionToClosed_def Let_def

lemma vb_ok_New: "vc_ok c \<Longrightarrow> vb_ok (vb_New now c)"
  by (auto simp: vb_ok_def vb_New_def vc_ok_def)

lemma vb_step_ok: "vb_step now s t \<Longrightarrow> vb_ok s \<Longrightarrow> vb_ok t \<and> vb_config t = vb_config s"
  by (induction rule: vb_step.induct; cases "vb_state s") (auto simp: vb_operations vb_ok_def vc_ok_def split: circuit_state.splits)

definition vb_deadline :: "vendor_breaker \<Rightarrow> go_time" where
  "vb_deadline cb = vb_lastStateChangeTime cb + vc_Timeout (vb_config cb) - 1"

lemma CanRequest_ok: "vb_ok cb \<Longrightarrow> vb_ok (snd (CanRequest now cb)) \<and> vb_config (snd (CanRequest now cb)) = vb_config cb"
  using vb_step_ok [OF can_request] .

lemma since_timeout: "0 \<le> d \<Longrightarrow> d < 2 ^ 63 \<Longrightarrow> d \<le> time_sub now t \<longleftrightarrow> t + d \<le> now"
  by (auto simp: time_sub_def)

interpretation vendor: locked_breaker vb_step vb_state vb_ok vb_deadline vb_lastStateChangeTime
proof
  fix now s t
  assume step: "vb_step now s t"
  show "vb_ok s \<Longrightarrow> vb_ok t" using vb_step_ok [OF step] by blast
  show "vb_ok s \<Longrightarrow> legal_move (vb_state s) (vb_state t)"
    using step by (cases rule: vb_step.cases; cases "vb_state s") (auto simp: vb_operations)
  show "vb_ok s \<Longrightarrow> vb_state s = Open \<Longrightarrow> vb_state t \<noteq> Open \<Longrightarrow> vb_deadline s < now"
    using step by (cases rule: vb_step.cases) (auto simp: vb_operations vb_ok_def vc_ok_def since_timeout vb_deadline_def split: if_splits)
  show "vb_lastStateChangeTime s \<le> now \<Longrightarrow> vb_lastStateChangeTime t \<le> now"
    using step by (cases rule: vb_step.cases; cases "vb_state s") (auto simp: vb_operations)
  show "vb_ok s \<Longrightarrow> vb_state s = Open \<Longrightarrow> vb_state t = Open \<Longrightarrow> vb_lastStateChangeTime s \<le> now \<Longrightarrow> vb_deadline s \<le> vb_deadline t"
    using step by (cases rule: vb_step.cases) (auto simp: vb_operations vb_deadline_def split: if_splits)
qed

section \<open>Scores\<close>

lemma fl_fin [simp]:
  "fl_add (Fin a) (Fin b) = Fin (f64_add a b)" "fl_mul (Fin a) (Fin b) = Fin (f64_mul a b)" "fl_neg (Fin a) = Fin (- a)"
  "b \<noteq> 0 \<Longrightarrow> fl_div (Fin a) (Fin b) = Fin (f64_div a b)" "fl_less (Fin a) (Fin b) \<longleftrightarrow> a < b"
  by (simp_all add: fl_add_def fl_mul_def fl_neg_def fl_div_def fl_less_def)

lemma math_fin [simp]: "math_Max (Fin a) (Fin b) = Fin (max a b)" "math_Min (Fin a) (Fin b) = Fin (min a b)"
  by (auto simp: math_Max_def math_Min_def)

definition fin :: "gofloat \<Rightarrow> bool" where "fin x \<longleftrightarrow> (\<exists>a. x = Fin a)"

lemma fin_simps [simp]: "fin (Fin a)" "fin (lit q)" "fin x \<Longrightarrow> fin y \<Longrightarrow> fin (fl_add x y)" "fin x \<Longrightarrow> fin y \<Longrightarrow> fin (fl_mul x y)"
  "fin x \<Longrightarrow> fin (fl_neg x)" "fin x \<Longrightarrow> fin y \<Longrightarrow> fin (math_Max x y)" "fin x \<Longrightarrow> fin y \<Longrightarrow> fin (math_Min x y)"
  by (auto simp: fin_def lit_def)

lemma fifth_nonzero: "f64_round (20 / 100) \<noteq> 0"
  by code_simp

lemma fin_cost [simp]: "fin (cost_score m)"
  using fifth_nonzero by (simp add: cost_score_def lit_def)

lemma fin_latency [simp]: "fin (latency_score r p)"
  by (simp add: latency_score_def)

lemma fin_strategy [simp]: "fin (strategy_score r st p m)"
  by (simp add: strategy_score_def Let_def)

lemma fin_health: "vb_ok cb \<Longrightarrow> fin (HealthScore cb)"
  by (auto simp: HealthScore_def vb_ok_def vc_ok_def split: circuit_state.split)

lemma score_range:
  assumes "vb_ok cb"
  shows "\<exists>x. scoreProviderModel now r cb q p m = Fin x \<and> 0 \<le> x \<and> x \<le> 1"
proof -
  have "\<exists>x. math_Max (Fin 0) (math_Min (Fin 1) y) = Fin x \<and> 0 \<le> x \<and> x \<le> 1" if "fin y" for y
    using that by (auto simp: fin_def)
  moreover have "fin (HealthScore cb)" by (rule fin_health [OF assms])
  ultimately show ?thesis by (simp add: scoreProviderModel_def Let_def)
qed

section \<open>Admission\<close>

abbreviation breaker_of :: "(string, vendor_breaker) fmap \<Rightarrow> candidate \<Rightarrow> vendor_breaker" where
  "breaker_of bs c \<equiv> the (fmlookup bs (ca_Provider c))"

lemma refused_same: "\<not> fst (CanRequest now cb) \<Longrightarrow> snd (CanRequest now cb) = cb"
  by (auto simp: CanRequest_def split: circuit_state.splits if_splits)

lemma admit_sorted: "sorted_wrt P cs \<Longrightarrow> sorted_wrt P (fst (admit now cs bs)) \<and> set (fst (admit now cs bs)) \<subseteq> set cs"
proof (induction cs arbitrary: bs)
  case (Cons c cs)
  from Cons.IH [of "fmupd (ca_Provider c) (snd (CanRequest now (breaker_of bs c))) bs"] Cons.prems
  show ?case by (auto simp: split_beta Let_def)
qed simp

lemma admit_admitted: "c \<in> set (fst (admit now cs bs)) \<Longrightarrow> fst (CanRequest now (breaker_of bs c))"
proof (induction cs arbitrary: bs)
  case (Cons d cs)
  let ?bs = "fmupd (ca_Provider d) (snd (CanRequest now (breaker_of bs d))) bs"
  show ?case
  proof (cases "c \<in> set (fst (admit now cs ?bs))")
    case True
    then have "fst (CanRequest now (breaker_of ?bs c))" by (rule Cons.IH)
    then show ?thesis using refused_same [of now "breaker_of bs d"]
      by (cases "ca_Provider d = ca_Provider c"; cases "fst (CanRequest now (breaker_of bs c))") simp_all
  next
    case False
    then show ?thesis using Cons.prems by (auto simp: split_beta Let_def split: if_splits)
  qed
qed simp

lemma admit_closed: "c \<in> set cs \<Longrightarrow> vb_state (breaker_of bs c) = Closed \<Longrightarrow> c \<in> set (fst (admit now cs bs))"
proof (induction cs arbitrary: bs)
  case (Cons d cs)
  let ?bs = "fmupd (ca_Provider d) (snd (CanRequest now (breaker_of bs d))) bs"
  have same: "CanRequest now (breaker_of bs c) = (True, breaker_of bs c)" using Cons.prems(2) by (simp add: CanRequest_def)
  then have "vb_state (breaker_of ?bs c) = Closed" using Cons.prems(2) by simp
  with Cons.IH [of ?bs] Cons.prems(1) same show ?case by (auto simp: split_beta Let_def)
qed simp

definition breakers_ok :: "(string, vendor_breaker) fmap \<Rightarrow> bool" where
  "breakers_ok bs \<longleftrightarrow> (\<forall>p cb. fmlookup bs p = Some cb \<longrightarrow> vb_ok cb)"

lemma breakers_ok_upd: "breakers_ok bs \<Longrightarrow> vb_ok cb \<Longrightarrow> breakers_ok (fmupd p cb bs)"
  by (simp add: breakers_ok_def)

lemma admit_ok:
  "breakers_ok bs \<Longrightarrow> ca_Provider ` set cs \<subseteq> fmdom' bs \<Longrightarrow>
     breakers_ok (snd (admit now cs bs)) \<and> fmdom' (snd (admit now cs bs)) = fmdom' bs"
proof (induction cs arbitrary: bs)
  case (Cons d cs)
  let ?bs = "fmupd (ca_Provider d) (snd (CanRequest now (breaker_of bs d))) bs"
  have d: "ca_Provider d \<in> fmdom' bs" using Cons.prems(2) by simp
  then have "vb_ok (breaker_of bs d)" using Cons.prems(1) by (auto simp: breakers_ok_def fmlookup_dom'_iff)
  then have "breakers_ok ?bs" using Cons.prems(1) CanRequest_ok by (simp add: breakers_ok_upd)
  moreover have "fmdom' ?bs = fmdom' bs" using d by auto
  ultimately show ?case using Cons.IH [of ?bs] Cons.prems(2) by (simp add: split_beta Let_def)
qed simp

section \<open>Routers\<close>

definition router_ok :: "smart_router \<Rightarrow> bool" where
  "router_ok r \<longleftrightarrow> breakers_ok (ro_circuitBreakers r) \<and> fmdom' (ro_circuitBreakers r) = fmdom' (ro_providers r)
     \<and> (\<forall>p l. fmlookup (ro_loads r) p = Some l \<longrightarrow> pl_CurrentRequests l = 0) \<and> fmdom' (ro_scores r) \<subseteq> fmdom' (ro_providers r)"

text \<open>A range loop visits every entry once.\<close>

definition visits :: "(('k, 'v) fmap \<Rightarrow> ('k \<times> 'v) list) \<Rightarrow> bool" where
  "visits rng \<longleftrightarrow> (\<forall>m. enumerates (rng m) m)"

lemma visitsD: "visits rng \<Longrightarrow> enumerates (rng m) m"
  by (simp add: visits_def)

lemma supporters_set:
  "(p, i) \<in> set (supporters ps models) \<Longrightarrow> mi_Name i \<in> set models \<and> (\<exists>infos. (p, infos) \<in> set ps \<and> i \<in> set infos)"
  by (auto simp: supporters_def dest!: sym [of "Some _"] simp: find_Some_iff intro!: exI nth_mem split: option.splits)

lemma supporters_complete:
  assumes "(p, infos) \<in> set ps" "j \<in> set infos" "mi_Name j \<in> set models"
  shows "\<exists>i. (p, i) \<in> set (supporters ps models) \<and> mi_Name i = mi_Name j"
proof -
  obtain i where i: "List.find (\<lambda>i. mi_Name i = mi_Name j) infos = Some i"
    using assms(2) by (cases "List.find (\<lambda>i. mi_Name i = mi_Name j) infos") (auto simp: find_None_iff)
  then have "mi_Name i = mi_Name j" by (auto simp: find_Some_iff)
  moreover have "(p, i) \<in> set (supporters ps models)"
    unfolding supporters_def set_concat set_map
    by (rule UnionI, rule imageI, rule imageI [OF assms(3)]) (use i assms(1) in force)
  ultimately show ?thesis by blast
qed

lemma score_candidates:
  assumes "router_ok r" "visits rng"
  obtains cands where "scoreCandidates rng now r q models = Some cands"
    "\<And>c. c \<in> set cands \<Longrightarrow> ca_Model c \<in> set models \<and> (\<exists>infos i. fmlookup (ro_providers r) (ca_Provider c) = Some infos
       \<and> i \<in> set infos \<and> mi_Name i = ca_Model c) \<and> (\<exists>x. ca_Score c = Fin x \<and> 0 \<le> x \<and> x \<le> 1)"
    "\<And>p infos j. fmlookup (ro_providers r) p = Some infos \<Longrightarrow> j \<in> set infos \<Longrightarrow> mi_Name j \<in> set models \<Longrightarrow>
       \<exists>c \<in> set cands. ca_Provider c = p \<and> ca_Model c = mi_Name j"
proof -
  let ?found = "supporters (rng (ro_providers r)) models"
  let ?c = "\<lambda>(p, i). \<lparr>ca_Provider = p, ca_Model = mi_Name i,
    ca_Score = scoreProviderModel now r (the (fmlookup (ro_circuitBreakers r) p)) q p i\<rparr>"
  have f: "\<exists>infos cb. fmlookup (ro_providers r) p = Some infos \<and> i \<in> set infos \<and> mi_Name i \<in> set models
      \<and> fmlookup (ro_circuitBreakers r) p = Some cb \<and> vb_ok cb" if m: "(p, i) \<in> set ?found" for p i
  proof -
    obtain infos where i: "fmlookup (ro_providers r) p = Some infos" "i \<in> set infos" "mi_Name i \<in> set models"
      using supporters_set [OF m] enumerates_set [OF visitsD [OF assms(2)]] by auto
    then have "p \<in> fmdom' (ro_circuitBreakers r)" using assms(1) by (simp add: router_ok_def fmdom'I)
    then show ?thesis using i assms(1) by (auto simp: router_ok_def breakers_ok_def fmlookup_dom'_iff)
  qed
  show ?thesis
  proof
    show "scoreCandidates rng now r q models = Some (map ?c ?found)"
      using f by (fastforce simp: scoreCandidates_def Let_def)
    show "ca_Model c \<in> set models \<and> (\<exists>infos i. fmlookup (ro_providers r) (ca_Provider c) = Some infos
       \<and> i \<in> set infos \<and> mi_Name i = ca_Model c) \<and> (\<exists>x. ca_Score c = Fin x \<and> 0 \<le> x \<and> x \<le> 1)" if c: "c \<in> set (map ?c ?found)" for c
    proof -
      obtain p i where "(p, i) \<in> set ?found" "c = ?c (p, i)" using c by auto
      then show ?thesis using f [of p i] score_range [of "the (fmlookup (ro_circuitBreakers r) p)" now r q p i] by auto
    qed
    show "\<exists>c \<in> set (map ?c ?found). ca_Provider c = p \<and> ca_Model c = mi_Name j"
      if "fmlookup (ro_providers r) p = Some infos" "j \<in> set infos" "mi_Name j \<in> set models" for p infos j
      using supporters_complete [of p infos "rng (ro_providers r)" j models] that enumerates_set [OF visitsD [OF assms(2)]] by force
  qed
qed

lemma select_cases:
  assumes "router_ok r" "visits rng" "slice_sort srt"
  obtains "allModels q = []" "SelectProvider rng srt now q r = Some (Inl (''no models configured for task type: '' @ rq_TaskType q), r)"
  | cands available bs where "scoreCandidates rng now r q (allModels q) = Some cands"
      "admit now (srt (\<lambda>a b. fl_less (ca_Score b) (ca_Score a)) cands) (ro_circuitBreakers r) = (available, bs)"
      "SelectProvider rng srt now q r = Some (if available = [] then Inl ''no available providers (all circuit breakers open)''
         else Inr \<lparr>rn_Candidates = available, rn_Strategy = af_EmbeddingStrategy (rq_AgentConfig q)\<rparr>, r\<lparr>ro_circuitBreakers := bs\<rparr>)"
proof -
  obtain cands where c: "scoreCandidates rng now r q (allModels q) = Some cands" 
    by (rule score_candidates [OF assms(1,2), where now = now and q = q and models = "allModels q"], rule that)
  obtain available bs where a: "admit now (srt (\<lambda>a b. fl_less (ca_Score b) (ca_Score a)) cands) (ro_circuitBreakers r) = (available, bs)"
    by (rule prod.exhaust)
  obtain pr fb where g: "GetModelsForTask (rq_TaskType q) (rq_AgentConfig q) = (pr, fb)" by (rule prod.exhaust)
  have m: "allModels q = pr @ fb" by (simp add: allModels_def g)
  show thesis
  proof (cases "pr @ fb = []")
    case True
    then show thesis by (intro that(1)) (simp_all add: m SelectProvider_def g)
  next
    case False
    then show thesis by (intro that(2) [OF c a]) (use c a m in \<open>simp add: SelectProvider_def g\<close>)
  qed
qed

lemma router_ok_select:
  assumes "router_ok r" "visits rng" "slice_sort srt" "SelectProvider rng srt now q r = Some (res, r')"
  shows "router_ok r'"
proof (rule select_cases [OF assms(1-3), of q now])
  fix cands available bs
  assume c: "scoreCandidates rng now r q (allModels q) = Some cands"
    and a: "admit now (srt (\<lambda>a b. fl_less (ca_Score b) (ca_Score a)) cands) (ro_circuitBreakers r) = (available, bs)"
    and s: "SelectProvider rng srt now q r = Some (if available = [] then Inl ''no available providers (all circuit breakers open)''
         else Inr \<lparr>rn_Candidates = available, rn_Strategy = af_EmbeddingStrategy (rq_AgentConfig q)\<rparr>, r\<lparr>ro_circuitBreakers := bs\<rparr>)"
  have "ca_Provider ` set cands \<subseteq> fmdom' (ro_circuitBreakers r)"
    using c by (force simp: scoreCandidates_def Let_def fmlookup_dom'_iff split: if_splits)
  then have "breakers_ok bs \<and> fmdom' bs = fmdom' (ro_circuitBreakers r)"
    using admit_ok [of "ro_circuitBreakers r" "srt (\<lambda>a b. fl_less (ca_Score b) (ca_Score a)) cands" now] assms(1) a
    by (simp add: router_ok_def slice_sort_set [OF assms(3)])
  then show "router_ok r'" using s assms(1,4) by (auto simp: router_ok_def)
qed (use assms in auto)

lemma router_ok_record:
  assumes "router_ok r" "RecordResult now p ok latency r = Some r'"
  shows "router_ok r'"
proof -
  obtain cb where cb: "fmlookup (ro_circuitBreakers r) p = Some cb" using assms(2) by (auto simp: RecordResult_def split: option.splits)
  then have "vb_ok (vb_RecordSuccess now cb)" "vb_ok (vb_RecordFailure now cb)" "p \<in> fmdom' (ro_providers r)"
    using assms(1) vb_step_ok [OF success, of cb now] vb_step_ok [OF failure, of cb now] fmdom'I [OF cb] by (auto simp: router_ok_def breakers_ok_def)
  then show ?thesis using assms cb
    by (auto simp: RecordResult_def router_ok_def breakers_ok_def RecordLatency_def qt_RecordSuccess_def qt_RecordFailure_def
        split: if_splits option.splits)
qed

text \<open>The routers a configuration gives: any requests and results, in any order and at any time.\<close>

inductive router_reachable :: "vendor_config \<Rightarrow> (string, model_info list) fmap \<Rightarrow> smart_router \<Rightarrow> bool" for c ps where
  init: "router_reachable c ps (NewSmartRouter now c ps)"
| select: "router_reachable c ps r \<Longrightarrow> visits rng \<Longrightarrow> slice_sort srt \<Longrightarrow>
    SelectProvider rng srt now q r = Some (res, r') \<Longrightarrow> router_reachable c ps r'"
| record_result: "router_reachable c ps r \<Longrightarrow> RecordResult now p ok latency r = Some r' \<Longrightarrow> router_reachable c ps r'"

lemma reachable_ok: "router_reachable c ps r \<Longrightarrow> vc_ok c \<Longrightarrow> router_ok r"
proof (induction rule: router_reachable.induct)
  case (init now)
  then show ?case
    by (auto simp: router_ok_def NewSmartRouter_def breakers_ok_def vb_ok_New fmlookup_dom'_iff)
qed (auto intro: router_ok_select router_ok_record)

section \<open>Properties\<close>

text \<open>C15 The router never panics on its own breakers, and a decision is sound and complete: its candidates are sorted by score,
  highest first, all scores lie between 0 and 1, each candidate is a model the agent asked for at a provider that supports
  it and whose breaker is not open or has been open for its timeout, and every supported model of a provider with a closed
  breaker is among them.\<close>

theorem SelectProvider_sound:
  assumes "router_reachable config ps r" "vc_ok config" "visits rng" "slice_sort srt"
  shows "\<exists>res r'. SelectProvider rng srt now q r = Some (res, r') \<and> (\<forall>d. res = Inr d \<longrightarrow>
    rn_Candidates d \<noteq> [] \<and> sorted_wrt (\<lambda>a b. \<not> fl_less (ca_Score a) (ca_Score b)) (rn_Candidates d) \<and>
    (\<forall>c \<in> set (rn_Candidates d). ca_Model c \<in> set (allModels q) \<and> (\<exists>x. ca_Score c = Fin x \<and> 0 \<le> x \<and> x \<le> 1) \<and>
       (\<exists>infos i. fmlookup (ro_providers r) (ca_Provider c) = Some infos \<and> i \<in> set infos \<and> mi_Name i = ca_Model c) \<and>
       (vb_state (breaker_of (ro_circuitBreakers r) c) = Open \<longrightarrow>
          vb_lastStateChangeTime (breaker_of (ro_circuitBreakers r) c) + vc_Timeout (vb_config (breaker_of (ro_circuitBreakers r) c)) \<le> now)) \<and>
    (\<forall>p infos i cb. fmlookup (ro_providers r) p = Some infos \<longrightarrow> i \<in> set infos \<longrightarrow> mi_Name i \<in> set (allModels q) \<longrightarrow>
       fmlookup (ro_circuitBreakers r) p = Some cb \<longrightarrow> vb_state cb = Closed \<longrightarrow>
       (\<exists>c \<in> set (rn_Candidates d). ca_Provider c = p \<and> ca_Model c = mi_Name i)))"
proof -
  have ok: "router_ok r" by (rule reachable_ok [OF assms(1,2)])
  show ?thesis
  proof (rule select_cases [OF ok assms(3,4), of q now])
    fix cands available bs
    assume c: "scoreCandidates rng now r q (allModels q) = Some cands"
      and a: "admit now (srt (\<lambda>a b. fl_less (ca_Score b) (ca_Score a)) cands) (ro_circuitBreakers r) = (available, bs)"
      and s: "SelectProvider rng srt now q r = Some (if available = [] then Inl ''no available providers (all circuit breakers open)''
         else Inr \<lparr>rn_Candidates = available, rn_Strategy = af_EmbeddingStrategy (rq_AgentConfig q)\<rparr>, r\<lparr>ro_circuitBreakers := bs\<rparr>)"
    note sc = score_candidates [OF ok assms(3), of now q "allModels q" thesis for thesis, simplified c option.inject]
    let ?lt = "\<lambda>a b. fl_less (ca_Score b) (ca_Score a)"
    have f: "ca_Model c \<in> set (allModels q) \<and> (\<exists>infos i. fmlookup (ro_providers r) (ca_Provider c) = Some infos
       \<and> i \<in> set infos \<and> mi_Name i = ca_Model c) \<and> (\<exists>x. ca_Score c = Fin x \<and> 0 \<le> x \<and> x \<le> 1)" if "c \<in> set cands" for c
      using sc that by metis
    have w: "weak_order ?lt (set cands)"
      by (rule weak_order_fin(2) [where f = "\<lambda>x. case ca_Score x of Fin a \<Rightarrow> a"]) (use f in force)
    then have "sorted_wrt (\<lambda>a b. \<not> ?lt b a) (srt ?lt cands)" using assms(4) by (simp add: slice_sort_def)
    with a have so: "sorted_wrt (\<lambda>a b. \<not> ?lt b a) available" "set available \<subseteq> set cands"
      using admit_sorted [of "\<lambda>a b. \<not> ?lt b a" "srt ?lt cands" now "ro_circuitBreakers r"] slice_sort_set [OF assms(4)] by auto
    have adm: "fst (CanRequest now (breaker_of (ro_circuitBreakers r) x))" if "x \<in> set available" for x
      using admit_admitted [of x now "srt ?lt cands" "ro_circuitBreakers r"] a that by simp
    have timeout: "vb_lastStateChangeTime cb + vc_Timeout (vb_config cb) \<le> now"
      if "vb_ok cb" "fst (CanRequest now cb)" "vb_state cb = Open" for cb
      using that by (auto simp: CanRequest_def vb_ok_def vc_ok_def since_timeout split: if_splits)
    have bok: "vb_ok (breaker_of (ro_circuitBreakers r) x)" if x: "x \<in> set cands" for x
    proof -
      obtain infos where "fmlookup (ro_providers r) (ca_Provider x) = Some infos" using f [OF x] by blast
      then have "ca_Provider x \<in> fmdom' (ro_circuitBreakers r)" using ok fmdom'I by (simp add: router_ok_def)
      then show ?thesis using ok by (auto simp: router_ok_def breakers_ok_def fmlookup_dom'_iff)
    qed
    have complete: "\<exists>x \<in> set available. ca_Provider x = p \<and> ca_Model x = mi_Name i"
      if m: "fmlookup (ro_providers r) p = Some infos" "i \<in> set infos" "mi_Name i \<in> set (allModels q)"
        "fmlookup (ro_circuitBreakers r) p = Some cb" "vb_state cb = Closed" for p infos i cb
    proof -
      obtain x where x: "x \<in> set cands" "ca_Provider x = p" "ca_Model x = mi_Name i" using sc m(1-3) by metis
      then have "x \<in> set available" using admit_closed [of x "srt ?lt cands" "ro_circuitBreakers r" now] a m(4,5)
          slice_sort_set [OF assms(4)] by simp
      with x show ?thesis by blast
    qed
    show ?thesis unfolding s using so f adm timeout bok complete by (auto 0 4)
  qed auto
qed

lemma default_vendor_ok: "vc_ok default_vendor_config"
  by (simp add: vc_ok_def default_vendor_config_def time_units)

definition demo_models :: "(string, model_info list) fmap" where
  "demo_models = fmap_of_list [(''openai'', [\<lparr>mi_Name = ''m'', mi_DisplayName = '''', mi_Dimensions = 8, mi_MaxTokens = 0,
     mi_CostPer1MTokens = 0, mi_SupportedTaskTypes = [], mi_SupportsDimensionReduction = False, mi_MinDimensions = 0,
     mi_IsActive = True, mi_DeprecatedAt = None\<rparr>])]"

definition demo_routing :: routing_request where
  "demo_routing = \<lparr>rq_AgentConfig = \<lparr>af_AgentID = ''a'', af_EmbeddingStrategy = ''cost'', af_ModelPreferences =
       [\<lparr>mp_TaskType = ''research'', mp_PrimaryModels = [''m''], mp_FallbackModels = [], mp_Weight = 1\<rparr>],
       af_Constraints = \<lparr>ak_MaxCostPerMonthUSD = 0, ak_MinAvailabilitySLA = 0, ak_TokensPerHour = 0\<rparr>\<rparr>,
     rq_TaskType = ''research'', rq_RequestID = ''''\<rparr>"

theorem SelectProvider_sound_witness:
  "\<exists>d r'. SelectProvider go_range insertion_sort 5 demo_routing (NewSmartRouter 0 default_vendor_config demo_models) = Some (Inr d, r')
     \<and> (\<exists>c \<in> set (rn_Candidates d). ca_Provider c = ''openai'' \<and> ca_Model c = ''m'' \<and> (\<exists>x. ca_Score c = Fin x \<and> 0 \<le> x \<and> x \<le> 1))"
proof -
  let ?r = "NewSmartRouter 0 default_vendor_config demo_models"
  have m: "allModels demo_routing = [''m'']" by (simp add: allModels_def GetModelsForTask_def demo_routing_def)
  have "\<exists>d r'. SelectProvider go_range insertion_sort 5 demo_routing ?r = Some (Inr d, r')"
    by (simp add: SelectProvider_def GetModelsForTask_def demo_routing_def scoreCandidates_def supporters_def NewSmartRouter_def
        demo_models_def CanRequest_def vb_New_def insertion_sort_def Let_def)
  then obtain d r' where s: "SelectProvider go_range insertion_sort 5 demo_routing ?r = Some (Inr d, r')" by blast
  have reach: "router_reachable default_vendor_config demo_models ?r" by (rule router_reachable.init)
  have v: "visits go_range" by (simp add: visits_def)
  have "rn_Candidates d \<noteq> [] \<and> (\<forall>c \<in> set (rn_Candidates d). ca_Model c \<in> set (allModels demo_routing)
      \<and> (\<exists>x. ca_Score c = Fin x \<and> 0 \<le> x \<and> x \<le> 1) \<and> (\<exists>infos. fmlookup (ro_providers ?r) (ca_Provider c) = Some infos))"
    using SelectProvider_sound [OF reach default_vendor_ok v slice_sort_insertion, where q = demo_routing and now = 5]
    unfolding s by blast
  moreover have "p = ''openai''" if "fmlookup (ro_providers ?r) p = Some infos" for p infos
    using that by (simp add: demo_models_def NewSmartRouter_def split: if_splits)
  ultimately have "\<exists>c \<in> set (rn_Candidates d). ca_Provider c = ''openai'' \<and> ca_Model c = ''m'' \<and> (\<exists>x. ca_Score c = Fin x \<and> 0 \<le> x \<and> x \<le> 1)"
    unfolding m by (metis empty_iff insert_iff last_in_set list.set(1) list.set(2))
  then show ?thesis using s by blast
qed


text \<open>The breaker of a provider stays open until its timeout has passed since it opened, whatever is recorded meanwhile.\<close>

theorem vb_open_window:
  assumes "timed_run vb_step t0 s tr" "vb_ok s" "vb_state s = Open" "vb_lastStateChangeTime s \<le> t0" "(now, u) \<in> set tr"
    and "\<And>m v. (m, v) \<in> set tr \<Longrightarrow> m < vb_lastStateChangeTime s + vc_Timeout (vb_config s)"
  shows "vb_state u = Open"
  using vendor.contract.open_window [OF assms(1-3) TrueI assms(4) _ assms(5)] assms(6) by (force simp: vb_deadline_def)

text \<open>The probes of a half-open breaker are handed out when a provider is listed as a candidate, whether or not it is then
  used.  Once all have been handed out and no result is recorded, the breaker refuses every request for ever: only the open
  state has a timeout.\<close>

theorem half_open_exhausted:
  assumes "vb_state cb = Open" "0 \<le> vc_HalfOpenMaxRequests (vb_config cb)" "vc_Timeout (vb_config cb) \<le> time_sub now (vb_lastStateChangeTime cb)"
  defines "n \<equiv> nat (vc_HalfOpenMaxRequests (vb_config cb))"
  shows "\<forall>later. CanRequest later (((\<lambda>cb. snd (CanRequest now cb)) ^^ Suc n) cb) = (False, ((\<lambda>cb. snd (CanRequest now cb)) ^^ Suc n) cb)"
proof -
  let ?f = "\<lambda>cb. snd (CanRequest now cb)"
  define h where "h = transitionToHalfOpen now cb"
  have "(?f ^^ k) h = h\<lparr>vb_halfOpenRequests := int k\<rparr>" if "k \<le> n" for k
    using that
  proof (induction k)
    case (Suc k)
    then show ?case using assms(2) by (simp add: h_def transitionToHalfOpen_def CanRequest_def n_def)
  qed (simp add: h_def transitionToHalfOpen_def)
  moreover have "?f cb = h" using assms(1,3) by (simp add: CanRequest_def h_def)
  ultimately have "(?f ^^ Suc n) cb = h\<lparr>vb_halfOpenRequests := int n\<rparr>" unfolding funpow_Suc_right comp_def by simp
  then show ?thesis using assms(2) by (simp add: CanRequest_def h_def transitionToHalfOpen_def n_def)
qed

text \<open>The quality of a provider is recorded under its name and looked up under its name and the model: every provider has
  a perfect score for ever, unless one is named like the model of another.  And nothing ever counts the current requests of a
  provider, so that its load is always zero, whatever latencies are recorded.\<close>

theorem measurements_ignored:
  assumes "router_reachable config ps r" "vc_ok config" "p @ '':'' @ model \<notin> fmdom' (ro_providers r)"
  shows "GetScore p model (ro_scores r) = 1 \<and> GetLoad p (ro_loads r) = 0"
proof -
  have ok: "router_ok r" by (rule reachable_ok [OF assms(1,2)])
  then have "fmlookup (ro_scores r) (p @ '':'' @ model) = None" using assms(3) by (auto simp: router_ok_def fmlookup_dom'_iff)
  moreover have "pl_CurrentRequests l = 0" if "fmlookup (ro_loads r) p = Some l" for l using ok that by (simp add: router_ok_def)
  ultimately show ?thesis by (auto simp: GetScore_def GetLoad_def f64_mul_def f64_div_def split: option.split)
qed

end
