(* ===== verification/Conflict_Service.thy ===== *)
theory Conflict_Service
  imports State_Crdt Document_Crdt Task_Repository
begin

text \<open>
  The conflict resolution service of \<open>pkg/services/conflict_resolution_service.go\<close>: it keeps the
  replicated documents and workspace states (\<open>Document_Crdt\<close>, \<open>State_Crdt\<close>) of its node in memory, applies
  and merges operations, writes the results to the repositories, and settles conflicts between versions of
  a task (\<open>Task_Repository\<close>).

  The repositories of documents and workspaces are the arguments \<open>docs\<close> and \<open>spaces\<close>, over a state of
  any type; a \<open>Get\<close> without an error returns an entity.  The records of both have the fields the service
  reads, writes or returns, and \<open>ResolveDocumentConflict\<close> returns the document it has written, of which the code
  makes a copy of type \<open>Document\<close>.  Calls of one instance follow one another, and a replica to synchronise with is
  another object than the local one, except where \<open>same\<close> says so.  \<open>errors.Wrap\<close> puts a message in front.  A call that panics or waits for ever has the
  \<open>outcome\<close> of the document operation it made.  What one operation draws (clock, identifiers, sorting, the
  text of a value) is the record \<open>conflict_env\<close>.
\<close>

section \<open>Model: data\<close>

record ('v, 's) entity_repo =
  en_Get :: "uuid \<Rightarrow> 's \<Rightarrow> (string + 'v) \<times> 's"
  en_Update :: "'v \<Rightarrow> 's \<Rightarrow> string option \<times> 's"

record shared_document =
  sh_ID :: uuid
  sh_WorkspaceID :: uuid
  sh_TenantID :: uuid
  sh_Type :: string
  sh_Title :: string
  sh_Content :: "rune list"
  sh_ContentType :: string
  sh_Version :: int
  sh_CreatedBy :: string
  sh_Metadata :: "(string, gval) fmap option"
  sh_CreatedAt :: go_time
  sh_UpdatedAt :: go_time
  sh_DeletedAt :: "go_time option"

record workspace =
  wk_ID :: uuid
  wk_TenantID :: uuid
  wk_Name :: string
  wk_State :: "(string, gval) fmap option"
  wk_StateVersion :: int
  wk_UpdatedAt :: go_time

record document_operation =
  dn_ID :: uuid
  dn_Type :: string
  dn_Path :: string
  dn_Value :: gval
  dn_AgentID :: string
  dn_VectorClock :: "(string, int) fmap"
  dn_AppliedAt :: go_time

record model_state_op =
  ms_Type :: string
  ms_Path :: string
  ms_Value :: gval
  ms_Delta :: int

text \<open>The dynamic types that \<open>ResolveTaskConflict\<close> asks for.\<close>

datatype conflict_value = CvStatus status | CvPriority string | CvString string | CvOther gval

record task_conflict =
  tf_Type :: string
  tf_Values :: "conflict_value list"

record conflict_env =
  ce_now :: go_time
  ce_uuid :: "nat \<Rightarrow> uuid"
  ce_op_ids :: "nat \<Rightarrow> uuid"
  ce_char_ids :: "nat \<Rightarrow> nat \<Rightarrow> uuid"
  ce_sort :: char_sort
  ce_tag :: "nat \<Rightarrow> uuid"
  ce_text :: "gval \<Rightarrow> rune list"
  ce_repo :: repo_env

record 's conflict_service =
  cr_documentCRDTs :: "(uuid, document) fmap"
  cr_stateCRDTs :: "(uuid, state_crdt) fmap"
  cr_vectorClocks :: "(string, vector_clock) fmap"
  cr_nodeID :: node_id
  cr_store :: 's
  cr_tasks :: task_repo

type_synonym ('a, 's) reply = "(unit, (string + 'a) \<times> 's conflict_service) outcome"

definition NewConflictResolutionService :: "'s \<Rightarrow> task_repo \<Rightarrow> node_id \<Rightarrow> 's conflict_service" where
  "NewConflictResolutionService st tasks node =
     \<lparr>cr_documentCRDTs = fmempty, cr_stateCRDTs = fmempty, cr_vectorClocks = fmempty, cr_nodeID = node, cr_store = st, cr_tasks = tasks\<rparr>"

definition err_Wrap :: "string \<Rightarrow> string \<Rightarrow> string" where "err_Wrap e m = m @ '': '' @ e"

section \<open>Model: documents\<close>

text \<open>The value of a clock entry is converted to \<open>uint64\<close>.\<close>

definition convertVectorClock :: "(string, int) fmap \<Rightarrow> vector_clock" where
  "convertVectorClock m = fmmap word_of_int m"

definition convertToCRDTOperation :: "conflict_env \<Rightarrow> document_operation \<Rightarrow> crdt_op" where
  "convertToCRDTOperation ev op =
     \<lparr>op_ID = dn_ID op, op_Type = dn_Type op, op_Position = 0, op_Content = ce_text ev (dn_Value op), op_Length = 0,
      op_NodeID = dn_AgentID op, op_Clock = convertVectorClock (dn_VectorClock op), op_Timestamp = dn_AppliedAt op\<rparr>"

definition GetDocumentCRDT :: "(shared_document, 's) entity_repo \<Rightarrow> conflict_env \<Rightarrow> uuid \<Rightarrow> 's conflict_service \<Rightarrow> document \<times> 's conflict_service" where
  "GetDocumentCRDT docs ev i s =
     (case fmlookup (cr_documentCRDTs s) i of
        Some d \<Rightarrow> (d, s)
      | None \<Rightarrow>
          let d = NewDocumentCRDT i (cr_nodeID s);
              (res, st) = en_Get docs i (cr_store s);
              d = (case res of
                     Inr doc \<Rightarrow> if sh_Content doc \<noteq> []
                       then snd (doc_Insert (ce_sort ev) (ce_char_ids ev 0) (ce_uuid ev 0) (ce_now ev) 0 (sh_Content doc) d) else d
                   | Inl _ \<Rightarrow> d)
          in (d, s\<lparr>cr_store := st, cr_documentCRDTs := fmupd i d (cr_documentCRDTs s)\<rparr>))"

text \<open>A failed operation is logged and skipped; the clock it has advanced stays.\<close>

fun apply_document_ops :: "conflict_env \<Rightarrow> nat \<Rightarrow> document_operation list \<Rightarrow> document \<Rightarrow> (unit, document) outcome" where
  "apply_document_ops ev n [] d = Returned d"
| "apply_document_ops ev n (op # ops) d =
     (case doc_ApplyOperation False (ce_sort ev) (ce_char_ids ev n) (convertToCRDTOperation ev op) d of
        Returned d \<Rightarrow> apply_document_ops ev (Suc n) ops d
      | Failed _ d \<Rightarrow> apply_document_ops ev (Suc n) ops d
      | Panicked \<Rightarrow> Panicked
      | Blocked \<Rightarrow> Blocked)"

definition put_document :: "uuid \<Rightarrow> document \<Rightarrow> 's conflict_service \<Rightarrow> 's conflict_service" where
  "put_document i d s = s\<lparr>cr_documentCRDTs := fmupd i d (cr_documentCRDTs s)\<rparr>"

text \<open>The content of the replica is written to the stored document.\<close>

definition save_document ::
  "(shared_document, 's) entity_repo \<Rightarrow> conflict_env \<Rightarrow> bool \<Rightarrow> uuid \<Rightarrow> document \<Rightarrow> 's conflict_service \<Rightarrow> (string + shared_document) \<times> 's conflict_service" where
  "save_document docs ev bump i d s =
     (let (res, st) = en_Get docs i (cr_store s); s = s\<lparr>cr_store := st\<rparr>
      in case res of
           Inl e \<Rightarrow> (Inl (err_Wrap e ''failed to get document''), s)
         | Inr doc \<Rightarrow>
             let doc = doc\<lparr>sh_Content := doc_GetContent (ce_sort ev) d, sh_UpdatedAt := ce_now ev,
                          sh_Version := (if bump then sh_Version doc + 1 else sh_Version doc)\<rparr>;
                 (err, st) = en_Update docs doc (cr_store s);
                 s = s\<lparr>cr_store := st\<rparr>
             in case err of
                  Some e \<Rightarrow> (Inl (if bump then err_Wrap e ''failed to update document'' else e), s)
                | None \<Rightarrow> (Inr doc, s))"

definition ResolveDocumentConflict ::
  "(shared_document, 's) entity_repo \<Rightarrow> conflict_env \<Rightarrow> uuid \<Rightarrow> document_operation list \<Rightarrow> 's conflict_service \<Rightarrow> (shared_document, 's) reply" where
  "ResolveDocumentConflict docs ev i ops s =
     (let (d, s) = GetDocumentCRDT docs ev i s
      in case apply_document_ops ev 1 ops d of
           Returned d \<Rightarrow> Returned (save_document docs ev True i d (put_document i d s))
         | Failed _ d \<Rightarrow> Returned (save_document docs ev True i d (put_document i d s))
         | Panicked \<Rightarrow> Panicked
         | Blocked \<Rightarrow> Blocked)"

definition ApplyDocumentOperation ::
  "(shared_document, 's) entity_repo \<Rightarrow> conflict_env \<Rightarrow> uuid \<Rightarrow> crdt_op \<Rightarrow> 's conflict_service \<Rightarrow> (shared_document, 's) reply" where
  "ApplyDocumentOperation docs ev i op s =
     (let (d, s) = GetDocumentCRDT docs ev i s
      in case doc_ApplyOperation False (ce_sort ev) (ce_char_ids ev 1) op d of
           Returned d \<Rightarrow> Returned (save_document docs ev False i d (put_document i d s))
         | Failed e d \<Rightarrow> Returned (Inl (err_Wrap e ''failed to apply operation''), put_document i d s)
         | Panicked \<Rightarrow> Panicked
         | Blocked \<Rightarrow> Blocked)"

definition SyncDocument ::
  "(shared_document, 's) entity_repo \<Rightarrow> conflict_env \<Rightarrow> bool \<Rightarrow> uuid \<Rightarrow> document \<Rightarrow> 's conflict_service \<Rightarrow> (shared_document, 's) reply" where
  "SyncDocument docs ev same i remote s =
     (let (d, s) = GetDocumentCRDT docs ev i s
      in case doc_Merge same (ce_sort ev) (ce_char_ids ev 1) remote d of
           Returned d \<Rightarrow> Returned (save_document docs ev False i d (put_document i d s))
         | Failed e d \<Rightarrow> Returned (Inl (err_Wrap e ''failed to merge CRDTs''), put_document i d s)
         | Panicked \<Rightarrow> Panicked
         | Blocked \<Rightarrow> Blocked)"

section \<open>Model: workspace states\<close>

text \<open>The delta of an operation on the model is not carried over.\<close>

definition convertToStateOperation :: "conflict_env \<Rightarrow> nat \<Rightarrow> node_id \<Rightarrow> model_state_op \<Rightarrow> state_op" where
  "convertToStateOperation ev n node op =
     \<lparr>so_ID = ce_op_ids ev n, so_Type = ms_Type op, so_Path = ms_Path op, so_Value = ms_Value op, so_Delta = 0,
      so_NodeID = node, so_Clock = NewVectorClock, so_Timestamp = ce_now ev\<rparr>"

fun set_all :: "conflict_env \<Rightarrow> nat \<Rightarrow> (string \<times> gval) list \<Rightarrow> state_crdt \<Rightarrow> state_crdt" where
  "set_all ev n [] c = c"
| "set_all ev n ((k, v) # kvs) c = set_all ev (Suc n) kvs (snd (st_Set (ce_uuid ev n) (ce_now ev) k v c))"

definition GetWorkspaceStateCRDT :: "(workspace, 's) entity_repo \<Rightarrow> conflict_env \<Rightarrow> uuid \<Rightarrow> 's conflict_service \<Rightarrow> state_crdt \<times> 's conflict_service" where
  "GetWorkspaceStateCRDT spaces ev i s =
     (case fmlookup (cr_stateCRDTs s) i of
        Some c \<Rightarrow> (c, s)
      | None \<Rightarrow>
          let (res, st) = en_Get spaces i (cr_store s);
              c = NewStateCRDT i (cr_nodeID s);
              c = (case res of
                     Inr w \<Rightarrow> (case wk_State w of Some m \<Rightarrow> set_all ev 0 (go_range m) c | None \<Rightarrow> c)
                   | Inl _ \<Rightarrow> c)
          in (c, s\<lparr>cr_store := st, cr_stateCRDTs := fmupd i c (cr_stateCRDTs s)\<rparr>))"

definition put_state :: "uuid \<Rightarrow> state_crdt \<Rightarrow> 's conflict_service \<Rightarrow> 's conflict_service" where
  "put_state i c s = s\<lparr>cr_stateCRDTs := fmupd i c (cr_stateCRDTs s)\<rparr>"

definition save_state ::
  "(workspace, 's) entity_repo \<Rightarrow> conflict_env \<Rightarrow> bool \<Rightarrow> uuid \<Rightarrow> state_crdt \<Rightarrow> 's conflict_service \<Rightarrow> string option \<times> 's conflict_service" where
  "save_state spaces ev wrapped i c s =
     (let (res, st) = en_Get spaces i (cr_store s); s = s\<lparr>cr_store := st\<rparr>
      in case res of
           Inl e \<Rightarrow> (Some (err_Wrap e ''failed to get workspace''), s)
         | Inr w \<Rightarrow>
             let (err, st) = en_Update spaces (w\<lparr>wk_State := Some (st_GetState c), wk_UpdatedAt := ce_now ev\<rparr>) (cr_store s)
             in (if wrapped then map_option (\<lambda>e. err_Wrap e ''failed to update workspace'') err else err, s\<lparr>cr_store := st\<rparr>))"

fun apply_state_ops :: "conflict_env \<Rightarrow> nat \<Rightarrow> node_id \<Rightarrow> model_state_op list \<Rightarrow> state_crdt \<Rightarrow> state_crdt" where
  "apply_state_ops ev n node [] c = c"
| "apply_state_ops ev n node (op # ops) c =
     apply_state_ops ev (Suc n) node ops (snd (st_ApplyOperation (ce_tag ev n) (convertToStateOperation ev n node op) c))"

definition ResolveWorkspaceStateConflict ::
  "(workspace, 's) entity_repo \<Rightarrow> conflict_env \<Rightarrow> uuid \<Rightarrow> model_state_op list \<Rightarrow> 's conflict_service \<Rightarrow>
     (string + (string, gval) fmap) \<times> 's conflict_service" where
  "ResolveWorkspaceStateConflict spaces ev i ops s =
     (let (c, s) = GetWorkspaceStateCRDT spaces ev i s;
          c = apply_state_ops ev 0 (cr_nodeID s) ops c;
          (err, s) = save_state spaces ev True i c (put_state i c s)
      in (case err of Some e \<Rightarrow> Inl e | None \<Rightarrow> Inr (st_GetState c), s))"

definition ApplyStateOperation ::
  "(workspace, 's) entity_repo \<Rightarrow> conflict_env \<Rightarrow> uuid \<Rightarrow> state_op \<Rightarrow> 's conflict_service \<Rightarrow> string option \<times> 's conflict_service" where
  "ApplyStateOperation spaces ev i op s =
     (let (c, s) = GetWorkspaceStateCRDT spaces ev i s;
          (err, c) = st_ApplyOperation (ce_tag ev 0) op c;
          s = put_state i c s
      in case err of Some e \<Rightarrow> (Some (err_Wrap e ''failed to apply operation''), s) | None \<Rightarrow> save_state spaces ev False i c s)"

definition SyncWorkspaceState ::
  "(workspace, 's) entity_repo \<Rightarrow> conflict_env \<Rightarrow> uuid \<Rightarrow> state_crdt \<Rightarrow> 's conflict_service \<Rightarrow> string option \<times> 's conflict_service" where
  "SyncWorkspaceState spaces ev i remote s =
     (let (c, s) = GetWorkspaceStateCRDT spaces ev i s; c = st_merge c remote
      in save_state spaces ev False i c (put_state i c s))"

section \<open>Model: tasks and clocks\<close>

definition statusPriority :: "status \<Rightarrow> int option" where
  "statusPriority st = map_of [(''completed'', 5), (''failed'', 4), (''in_progress'', 3), (''assigned'', 2), (''pending'', 1)] st"

definition priorityOrder :: "string \<Rightarrow> int option" where
  "priorityOrder p = map_of [(''critical'', 4), (''high'', 3), (''normal'', 2), (''low'', 1)] p"

text \<open>The loop of both: a value with a known rank replaces a result of lower rank.\<close>

fun highest :: "('k \<Rightarrow> int option) \<Rightarrow> int \<Rightarrow> 'k \<Rightarrow> 'k list \<Rightarrow> 'k" where
  "highest rank best result [] = result"
| "highest rank best result (v # vs) =
     (case rank v of
        Some n \<Rightarrow> if best < n then highest rank n v vs else highest rank best result vs
      | None \<Rightarrow> highest rank best result vs)"

definition rank_of :: "('k \<Rightarrow> int option) \<Rightarrow> 'k \<Rightarrow> int" where
  "rank_of rank k = (case rank k of Some n \<Rightarrow> n | None \<Rightarrow> 0)"

definition resolveTaskStatus :: "status \<Rightarrow> conflict_value list \<Rightarrow> status" where
  "resolveTaskStatus current vs =
     highest statusPriority (rank_of statusPriority current) current
       (List.map_filter (\<lambda>v. case v of CvStatus st \<Rightarrow> Some st | _ \<Rightarrow> None) vs)"

definition resolveTaskPriority :: "string \<Rightarrow> conflict_value list \<Rightarrow> string" where
  "resolveTaskPriority current vs =
     highest priorityOrder (rank_of priorityOrder current) current
       (List.map_filter (\<lambda>v. case v of CvPriority p \<Rightarrow> Some p | _ \<Rightarrow> None) vs)"

definition settle :: "task_conflict \<Rightarrow> mtask \<Rightarrow> mtask" where
  "settle f t =
     (if tf_Type f = ''status'' then t\<lparr>tk_Status := resolveTaskStatus (tk_Status t) (tf_Values f)\<rparr>
      else if tf_Type f = ''assignment'' then
        (if tf_Values f = [] then t
         else case last (tf_Values f) of CvString a \<Rightarrow> t\<lparr>tk_AssignedTo := Some a\<rparr> | _ \<Rightarrow> t)
      else if tf_Type f = ''priority'' then t\<lparr>tk_Priority := resolveTaskPriority (tk_Priority t) (tf_Values f)\<rparr>
      else t)"

definition ResolveTaskConflict :: "conflict_env \<Rightarrow> uuid \<Rightarrow> task_conflict list \<Rightarrow> 's conflict_service \<Rightarrow> (task_error + mtask) \<times> 's conflict_service" where
  "ResolveTaskConflict ev i fs s =
     (let (res, tasks) = tr_Get (ce_repo ev) i (cr_tasks s); s = s\<lparr>cr_tasks := tasks\<rparr>
      in case res of
           Inl e \<Rightarrow> (Inl (WrapError ''failed to get task'' e), s)
         | Inr t \<Rightarrow>
             let t = fold settle fs t;
                 t = t\<lparr>tk_UpdatedAt := ce_now ev, tk_Version := tk_Version t + 1\<rparr>;
                 (res, tasks) = tr_Update (ce_repo ev) t (cr_tasks s);
                 s = s\<lparr>cr_tasks := tasks\<rparr>
             in case res of
                  Inl e \<Rightarrow> (Inl (WrapError ''failed to update task'' e), s)
                | Inr t \<Rightarrow> (Inr t, s))"

definition GetVectorClock :: "string \<Rightarrow> 's conflict_service \<Rightarrow> vector_clock \<times> 's conflict_service" where
  "GetVectorClock node s =
     (case fmlookup (cr_vectorClocks s) node of
        Some c \<Rightarrow> (c, s)
      | None \<Rightarrow> (NewVectorClock, s\<lparr>cr_vectorClocks := fmupd node NewVectorClock (cr_vectorClocks s)\<rparr>))"

definition UpdateVectorClock :: "string \<Rightarrow> vector_clock \<Rightarrow> 's conflict_service \<Rightarrow> 's conflict_service" where
  "UpdateVectorClock node c s = s\<lparr>cr_vectorClocks := fmupd node c (cr_vectorClocks s)\<rparr>"

section \<open>States\<close>

lemma GetState_view:
  assumes "st_ok w s" "st_ok w t" "st_view s = st_view t"
  shows "st_GetState s = st_GetState t"
proof (rule fmap_ext)
  fix p
  have "lww_map.queries (st_registers s) = lww_map.queries (st_registers t)"
    using assms by (intro lww_map.keyed.query_view [of w]) (simp_all add: st_ok_regs st_view_def)
  moreover have "pncounter_map.queries (st_counters s) = pncounter_map.queries (st_counters t)"
    using assms by (intro pncounter_map.keyed.query_view) (simp_all add: st_view_def pncounter_map.invars_def fmpred_iff)
  moreover have "orset_map.queries (st_sets s) = orset_map.queries (st_sets t)"
    using assms by (intro orset_map.keyed.query_view) (simp_all add: st_view_def orset_map.invars_def fmpred_iff)
  moreover have "fmlookup (st_GetState u) p = (case orset_map.queries (st_sets u) p of Some es \<Rightarrow> Some (VList (map VStr es))
      | None \<Rightarrow> (case pncounter_map.queries (st_counters u) p of Some n \<Rightarrow> Some (VInt n)
      | None \<Rightarrow> (case lww_map.queries (st_registers u) p of Some v \<Rightarrow> if v \<noteq> VNil then Some v else None | None \<Rightarrow> None)))" for u
    by (simp add: st_GetState_lookup lww_map.queries_def pncounter_map.queries_def orset_map.queries_def split: option.split)
  ultimately show "fmlookup (st_GetState s) p = fmlookup (st_GetState t) p" by (simp split: option.split)
qed

lemma save_state_crdts [simp]: "cr_stateCRDTs (snd (save_state spaces ev wr i c s)) = cr_stateCRDTs s"
  by (simp add: save_state_def Let_def split_beta split: sum.split)

lemma put_state_simps [simp]: "cr_stateCRDTs (put_state i c s) = fmupd i c (cr_stateCRDTs s)" "cr_store (put_state i c s) = cr_store s"
  by (simp_all add: put_state_def)

lemma set_all_data [simp]: "st_counters (set_all ev n kvs c) = st_counters c" "st_sets (set_all ev n kvs c) = st_sets c"
  by (induction ev n kvs c rule: set_all.induct) (simp_all add: st_Set_def Let_def)

lemma st_Set_data [simp]:
  "st_nodeID (snd (st_Set u now k v c)) = st_nodeID c"
  "st_registers (snd (st_Set u now k v c)) = fmupd k (lww_Set v now (st_nodeID c) (fmget NewLWWRegister (st_registers c) k)) (st_registers c)"
  by (simp_all add: st_Set_def Let_def)

section \<open>Ranks\<close>

lemma highest_max:
  assumes "\<And>k n. rank k = Some n \<Longrightarrow> 0 < n" "best = rank_of rank result"
  shows "highest rank best result vs \<in> insert result (set vs) \<and> best \<le> rank_of rank (highest rank best result vs)
    \<and> (\<forall>v \<in> set vs. rank_of rank v \<le> rank_of rank (highest rank best result vs))"
  using assms(2)
proof (induction vs arbitrary: best result)
  case (Cons v vs)
  show ?case
  proof (cases "best < rank_of rank v")
    case True
    with Cons.prems assms(1) [of result] obtain n where n: "rank v = Some n" "best < n"
      by (auto simp: rank_of_def split: option.splits)
    then show ?thesis using Cons.IH [of n v] Cons.prems by (auto simp: rank_of_def)
  next
    case False
    then have "highest rank best result (v # vs) = highest rank best result vs"
      by (auto simp: rank_of_def split: option.split)
    then show ?thesis using Cons.IH [of best result] Cons.prems False by auto
  qed
qed simp

lemma ranks_positive: "statusPriority st = Some n \<Longrightarrow> 0 < n" "priorityOrder p = Some n \<Longrightarrow> 0 < n"
  by (auto simp: statusPriority_def priorityOrder_def split: if_splits)

section \<open>Properties\<close>


text \<open>A store of workspaces, to try the properties on.\<close>

definition mem_spaces :: "(workspace, (uuid, workspace) fmap) entity_repo" where
  "mem_spaces = \<lparr>en_Get = (\<lambda>i st. (case fmlookup st i of Some w \<Rightarrow> Inr w | None \<Rightarrow> Inl ''not found'', st)),
     en_Update = (\<lambda>w st. (None, fmupd (wk_ID w) w st))\<rparr>"


text \<open>A conflict about the status of a task ends with one of the statuses in question, and none of them has a higher rank: completed
  before failed, in progress, assigned and pending.\<close>

theorem resolveTaskStatus_highest:
  "let st = resolveTaskStatus current vs
   in (st = current \<or> CvStatus st \<in> set vs) \<and> rank_of statusPriority current \<le> rank_of statusPriority st
    \<and> (\<forall>v. CvStatus v \<in> set vs \<longrightarrow> rank_of statusPriority v \<le> rank_of statusPriority st)"
proof -
  have m: "st \<in> set (List.map_filter (\<lambda>v. case v of CvStatus st \<Rightarrow> Some st | _ \<Rightarrow> None) vs) \<longleftrightarrow> CvStatus st \<in> set vs" for st
    by (induction vs) (auto simp: List.map_filter_simps split: conflict_value.split)
  show ?thesis
    using highest_max [of statusPriority "rank_of statusPriority current" current
        "List.map_filter (\<lambda>v. case v of CvStatus st \<Rightarrow> Some st | _ \<Rightarrow> None) vs", OF ranks_positive(1)]
    by (auto simp: resolveTaskStatus_def Let_def m)
qed

theorem resolveTaskStatus_highest_witness:
  "resolveTaskStatus ''assigned'' [CvStatus ''failed'', CvStatus ''completed'', CvStatus ''pending''] = ''completed''"
proof -
  let ?vs = "[CvStatus ''failed'', CvStatus ''completed'', CvStatus ''pending'']"
  have "rank_of statusPriority (resolveTaskStatus ''assigned'' ?vs) \<ge> 5"
    using resolveTaskStatus_highest [of "''assigned''" ?vs] by (auto simp: Let_def rank_of_def statusPriority_def)
  then show ?thesis by (auto simp: rank_of_def statusPriority_def split: if_splits option.splits)
qed

section \<open>Divergences\<close>

text \<open>A task that has been cancelled, rejected or has run out of time has no rank: any conflict with a pending version reopens it.
  Values that come from JSON are strings, not statuses, and are ignored.\<close>

theorem cancelled_task_reopened: "resolveTaskStatus ''cancelled'' [CvStatus ''pending''] = ''pending''"
  by (simp add: resolveTaskStatus_def List.map_filter_simps statusPriority_def rank_of_def)

theorem json_statuses_ignored: "(\<And>v. v \<in> set vs \<Longrightarrow> \<exists>x. v = CvString x) \<Longrightarrow> resolveTaskStatus current vs = current"
proof -
  assume s: "\<And>v. v \<in> set vs \<Longrightarrow> \<exists>x. v = CvString x"
  have "List.map_filter (\<lambda>v. case v of CvStatus st \<Rightarrow> Some st | _ \<Rightarrow> None) vs = []" using s
    by (induction vs) (auto simp: List.map_filter_simps split: conflict_value.splits)
  then show ?thesis by (simp add: resolveTaskStatus_def)
qed

text \<open>A service that has just started reads the stored state into registers.  The next increment of a counter starts from zero, and the
  counter hides the register: the stored count is lost.\<close>

theorem restart_resets_counter:
  assumes "fmlookup (cr_stateCRDTs s) i = None" "en_Get spaces i (cr_store s) = (Inr x, st)" "wk_State x = Some m"
    and "so_Type op = ''increment''"
  shows "\<exists>c. fmlookup (cr_stateCRDTs (snd (ApplyStateOperation spaces ev i op s))) i = Some c
    \<and> fmlookup (st_GetState c) (so_Path op) = Some (VInt (sint (word_of_int (so_Delta op) :: u64)))"
proof -
  let ?c = "set_all ev 0 (go_range m) (NewStateCRDT i (cr_nodeID s))"
  let ?n = "pn_Increment (so_NodeID op) (word_of_int (so_Delta op)) NewPNCounter"
  have "pn_Value ?n = sint (word_of_int (so_Delta op) :: u64)"
    by (simp add: pn_Value_def pn_Increment_def gc_Value_Increment NewPNCounter_def gc_Value_def [of NewGCounter] NewGCounter_def)
  moreover have e: "fst (st_ApplyOperation (ce_tag ev 0) op ?c) = None"
    and "fmlookup (st_counters (snd (st_ApplyOperation (ce_tag ev 0) op ?c))) (so_Path op) = Some ?n"
    and "fmlookup (st_sets (snd (st_ApplyOperation (ce_tag ev 0) op ?c))) (so_Path op) = None"
    using assms(4) by (simp_all add: st_ApplyOperation_def Let_def NewStateCRDT_def fmget_def)
  moreover have "cr_stateCRDTs (snd (ApplyStateOperation spaces ev i op s))
      = fmupd i (snd (st_ApplyOperation (ce_tag ev 0) op ?c)) (fmupd i ?c (cr_stateCRDTs s))"
    using assms(1-3) e by (simp add: ApplyStateOperation_def GetWorkspaceStateCRDT_def Let_def split_beta)
  ultimately show ?thesis by (simp add: st_GetState_lookup)
qed

text \<open>\<open>ResolveWorkspaceStateConflict\<close> does not carry the delta of an operation over: increments and decrements change no counter.\<close>

theorem resolved_increment_ignored:
  assumes "\<And>op. op \<in> set ops \<Longrightarrow> ms_Type op \<in> {''increment'', ''decrement''}" "fmlookup (st_counters c) p = Some k"
  shows "fmlookup (st_GetState (apply_state_ops ev n node ops c)) p = fmlookup (st_GetState c) p"
proof -
  have "\<exists>k'. fmlookup (st_counters (apply_state_ops ev n node ops c)) p = Some k' \<and> pn_Value k' = pn_Value k
      \<and> st_sets (apply_state_ops ev n node ops c) = st_sets c"
    using assms
  proof (induction ops arbitrary: n c k)
    case (Cons op ops)
    let ?c = "snd (st_ApplyOperation (ce_tag ev n) (convertToStateOperation ev n node op) c)"
    have "\<exists>k'. fmlookup (st_counters ?c) p = Some k' \<and> pn_Value k' = pn_Value k \<and> st_sets ?c = st_sets c"
      using Cons.prems(1) [of op] Cons.prems(2)
      by (auto simp: st_ApplyOperation_def convertToStateOperation_def Let_def pn_Value_def pn_Increment_def pn_Decrement_def
          gc_Value_Increment fmget_def)
    with Cons.IH [of ?c _ "Suc n"] Cons.prems(1) show ?case by auto
  qed simp
  then show ?thesis using assms(2) by (auto simp: st_GetState_lookup split: option.split)
qed

text \<open>\<open>ResolveDocumentConflict\<close> carries neither position nor length over: a deletion deletes nothing.\<close>

theorem resolved_delete_ignored:
  "(\<And>op. op \<in> set ops \<Longrightarrow> dn_Type op = ''delete'') \<Longrightarrow>
     \<exists>d'. apply_document_ops ev n ops d = Returned d' \<and> doc_characters d' = doc_characters d"
proof (induction ops arbitrary: n d)
  case (Cons op ops)
  let ?r = "doc_ApplyOperation False (ce_sort ev) (ce_char_ids ev n) (convertToCRDTOperation ev op) d"
  have "(\<exists>e d'. (?r = Returned d' \<or> ?r = Failed e d') \<and> doc_characters d' = doc_characters d)"
    using Cons.prems [of op]
    by (auto simp: doc_ApplyOperation_def convertToCRDTOperation_def doc_applyDelete_def Let_def)
  then obtain d' where "apply_document_ops ev n (op # ops) d = apply_document_ops ev (Suc n) ops d'"
    "doc_characters d' = doc_characters d" by fastforce
  with Cons.IH [of "Suc n" d'] Cons.prems show ?case by simp
qed simp

text \<open>\<open>SyncDocument\<close> with a replica that has an operation the local one has not seen waits for ever.\<close>

theorem sync_document_blocks:
  assumes "fmlookup (cr_documentCRDTs s) i = Some d" "fmlookup (doc_operations remote) u = Some op" "fmlookup (doc_operations d) u = None"
  shows "SyncDocument docs ev same i remote s = Blocked"
proof -
  have "(u, op) \<in> set (go_range (doc_operations remote))" using assms(2) by (simp add: set_go_range)
  then have "doc_merge_loop (ce_sort ev) (ce_char_ids ev 1) (go_range (doc_operations remote)) d = Blocked"
    using assms(3) by (force simp: doc_merge_loop_eq)
  then show ?thesis using assms(1) by (simp add: SyncDocument_def GetDocumentCRDT_def doc_Merge_def)
qed

end
