(* ===== verification/Spec2Isabelle.thy ===== *)
theory Spec2Isabelle
  imports Crdt_Interface Circuit_Breaker Redis_Breaker Rag_Breaker Bulkhead Binary_Protocol
    Status_Machines Auth_Limiter Semantic_Version Batch_Executor Workflow_Steps Assignment_Guarantees
    Context_Compaction Context_Packer Task_Guarantees
    Lock_Guarantees Retry_Policy Result_Aggregator Edge_Cache Session_Guarantees Embedding_Router
    Conflict_Service
begin

text \<open>
  A verification of the core of DeveloperMesh, a Go platform that connects AI agents with
  development tools: an edge server that executes tools (\<open>apps/edge-mcp\<close>), an API server
  (\<open>apps/rest-api\<close>), a worker and a document loader (\<open>apps/worker\<close>, \<open>apps/rag-loader\<close>), and the
  packages they share (\<open>pkg\<close>).  Agents edit shared state through replicated data types, calls of
  outside services go through circuit breakers, rate limiters and bulkheads, agents and workflows
  move through status machines, messages travel in a binary frame, and tools are found, related
  and executed in batches by the edge server's registry.  Workflows are validated, stored, executed
  step by step and approved by the workflow service, over in-memory caches, a Postgres repository
  and distributed transactions; tasks are assigned to agents by the assignment engine, and created,
  carried out, delegated and retried by the task service, over a Postgres repository with a cache and
  a circuit breaker.  The conversation of an agent is kept as items of a context, which is compacted
  and packed into a window of tokens.  Agents that edit a document lock it, or a section of it, through a
  lock service over Redis, and edge clients have sessions in a database with a cache in front.  These parts carry the program's own logic and are modelled
  here; transport and vendor clients are not, and of the storage only what these services rely on.

  \<^bold>\<open>Reading the model.\<close>  Structs are records, enumerations are datatypes, methods that change
  their receiver are functions that return it updated, with the receiver as the last argument and
  the source's method name behind a prefix for its type (\<open>st_Set\<close> for \<open>StateCRDT.Set\<close>).  Maps are
  finite maps; \<open>uint64\<close> counters are 64-bit words that wrap; \<open>time.Time\<close> is the number of
  nanoseconds on a clock, where 0 is the zero time, and \<open>Duration\<close> an integer.  \<open>Sub\<close> of two times
  saturates at the bounds of \<open>Duration\<close> as Go's does (\<open>time_sub\<close>).  \<open>float64\<close> arithmetic on finite
  values is exact arithmetic followed by rounding to 53 bits, half to even (\<open>Float64\<close>);
  overflow to infinity by rounding does not occur in the code modelled, division by zero does, and
  \<open>Go_Float\<close> adds the infinities and NaN for it; the conversion of a float outside the range of \<open>int64\<close>, which Go leaves to the
  implementation, is a parameter \<open>ovf\<close>.  A loop over a map visits its keys in order in the model;
  \<open>enumerates\<close> states what any order of visits has in common, and the results that depend on the
  order are stated as sets or multisets.  The clock readings, random identifiers, the order in
  which goroutines finish and the functions a caller passes in are arguments of the definitions.
  The sorting function \<open>sort.Slice\<close> is an argument too, with the law \<open>sorts_by\<close> or \<open>slice_sort\<close>, since it
  is not stable and promises an order only for a comparison that is one.  A mutex makes the method that holds it atomic; where a method calls another one that
  takes the mutex again, the result type \<open>outcome\<close> has the value \<open>Blocked\<close>, and \<open>Panicked\<close> stands
  for a panic.  Logging, metrics and tracing calls do not change the state and are left out.

  \<^bold>\<open>The theories.\<close>
  \<^item> \<open>Prelude\<close>: names for the machine types, values of \<open>interface{}\<close>, outcomes, finite maps with
    Go's default for a missing key (\<open>fmget\<close>) and range loops over them, time.  \<open>Float64\<close>: rounding
    and its bounds.
  \<^item> \<open>Crdt_Spec\<close>: the locale \<open>mergeable\<close>, the contract of a replicated type: an abstract value with
    a join, which merging computes and queries depend on; convergence under any order and
    repetition of merges is proved in it once.  \<open>mergeable_keyed\<close> lifts a contract to maps of
    replicas, by a \<open>sublocale\<close>.
  \<^item> \<open>Vector_Clock\<close>, \<open>Counters\<close>, \<open>Lww_Register\<close>, \<open>Or_Set\<close>: \<open>pkg/collaboration/crdt\<close> (\<open>types.go\<close>,
    \<open>gcounter.go\<close>, \<open>pncounter.go\<close>, \<open>lwwregister.go\<close>, \<open>orset.go\<close>), each with the interpretation of
    the contract.  They show the order \<open>HappensBefore\<close> decides, the exactness of counters below
    the wrap-around, that the greatest stamp wins, and set semantics.
  \<^item> \<open>State_Crdt\<close>: \<open>pkg/collaboration/state_crdt.go\<close>, the workspace state made of them: convergence
    by merging, by delivering operations, and the effect of a shipped operation.
    \<open>Document_Crdt\<close>: \<open>document_crdt.go\<close>, collaborative text.  \<open>Crdt_Interface\<close>: the dynamic
    dispatch of the interface \<open>CRDT\<close> with its type errors.
  \<^item> \<open>Breaker_Spec\<close>: locales over a timed step relation: \<open>breaker_phases\<close>, that an open breaker closes
    only by way of the half-open phase, \<open>breaker_contract\<close>, that it stays open until its deadline,
    and \<open>locked_breaker\<close>, a breaker whose admission check is atomic, as a \<open>sublocale\<close> of it.  \<open>Circuit_Breaker\<close>
    (\<open>pkg/resilience/circuit_breaker.go\<close>, \<open>counts.go\<close>, \<open>circuit_breaker_config.go\<close>), \<open>Redis_Breaker\<close>
    (\<open>pkg/redis/circuit_breaker.go\<close>) and \<open>Rag_Breaker\<close>
    (\<open>apps/rag-loader/internal/resilience/circuit_breaker.go\<close>, with \<open>RetryWithBackoff\<close>) model the
    three breakers of service calls, interleave their atomic parts (\<open>cb_step\<close>, \<open>rb_step\<close>, \<open>rag_step\<close>)
    and interpret the contract; they show the invariants of the reachable states, recovery, and
    the bounds of the back-off.
  \<^item> \<open>Rate_Limiter\<close> (\<open>pkg/resilience/rate_limiter.go\<close>, \<open>rate_limiter_methods.go\<close>): the token bucket in
    floating point and the range of its tokens.  \<open>Bulkhead\<close> (\<open>bulkhead.go\<close>): semaphore, queue and
    processor as a step relation \<open>bh_step\<close>; isolation in every reachable state.
  \<^item> \<open>Memory_Cache\<close>: \<open>pkg/common/cache/memory.go\<close>, its capacity and eviction.  \<open>Auth_Limiter\<close>:
    \<open>pkg/auth/rate_limiter.go\<close> over it: lockout, and what the cache does to it.
  \<^item> \<open>Binary_Protocol\<close>: \<open>pkg/models/websocket/binary.go\<close>: the 24-byte header and its round trip.
  \<^item> \<open>Status_Spec\<close>, \<open>Status_Machines\<close>: the locale \<open>status_machine\<close> and its three interpretations on
    the tables of \<open>pkg/models/agent_status.go\<close> and \<open>workflow_status_complete.go\<close>; completion of
    distributed tasks (\<open>distributed_task_complete.go\<close>).
  \<^item> \<open>Semantic_Version\<close>: \<open>pkg/updater/version.go\<close>: parsing, printing and comparing versions.
  \<^item> \<open>Tool_Relationships\<close>, \<open>Tool_Registry\<close>, \<open>Batch_Executor\<close>: the registry of the edge server with the
    default tables of \<open>relationships.go\<close>, and \<open>apps/edge-mcp/internal/mcp/batch.go\<close>; the executor
    relies on the registry through the locale \<open>tool_source\<close>.
  \<^item> \<open>Workflow_Validation\<close>: the workflow model of \<open>pkg/models\<close> and \<open>validateWorkflow\<close> with its
    depth-first search (\<open>pkg/services/workflow_service_impl.go\<close>); it accepts exactly the workflows
    without a cycle whose dependencies point backwards.  \<open>Workflow_Input\<close>: the validation of
    inputs against a schema and of template parameters.
  \<^item> \<open>Distributed_Tx\<close>: two-phase commit, compensation and \<open>WithTransaction\<close>
    (\<open>pkg/services/base_service.go\<close>), as a step relation \<open>tx_step\<close>; atomicity of the reachable states.
  \<^item> \<open>Workflow_Repository\<close>: the tables behind \<open>pkg/repository/postgres/workflow_repository.go\<close>, with what
    JSON columns do to the values stored in them, and the optimistic lock.
  \<^item> \<open>Workflow_Service\<close>, \<open>Workflow_Guarantees\<close>, \<open>Workflow_Steps\<close>: the service over these: definitions,
    executions, pause, resume, cancel, retry, the step interface and approvals; what reads return
    after writes, which status changes each operation makes, and which of them cannot succeed.
    The state of a service (\<open>wf_service\<close>) is its database, its caches and its set of active
    executions; the clock, fresh identifiers and the answers of the rate limiter, the authoriser
    and the event publisher are the record \<open>env\<close>.  A goroutine that a method starts is a function
    of its own, applied to the state it finds.
  \<^item> \<open>Assignment_Engine\<close>, \<open>Assignment_Guarantees\<close>: \<open>pkg/services/assignment_engine.go\<close>: eligibility,
    the choice of a strategy and the five strategies, which interpret the locale
    \<open>assignment_strategy\<close>; soundness of every assignment, exactness of the filter, and what each
    strategy optimises.
  \<^item> \<open>Uuid_Text\<close>: the text of an identifier, which cache keys are made of, and that it is injective.
    \<open>Task_Repository\<close>: \<open>pkg/repository/postgres/task_repository.go\<close> and \<open>task_repository_methods.go\<close>
    over \<open>base_repository.go\<close>: the table of tasks with its cache and breaker; the errors of the
    driver, the event the breaker sees first and whether the cache server answers are the record
    \<open>repo_env\<close>, and the read replica is in step with the primary.  \<open>Task_Store\<close>: the cache agrees
    with the table in every reachable state (\<open>coherent\<close>), the optimistic lock, and what is lost
    without it.
  \<^item> \<open>Task_Service\<close>, \<open>Task_Guarantees\<close>: \<open>pkg/services/task_service_impl.go\<close> and the background workers of
    \<open>task_helpers.go\<close>: every handler over the repository, the engine and the caches, as a function
    of the record \<open>task_service\<close>; the two status tables interpret \<open>status_machine\<close>, and
    runs of the service (\<open>service_step\<close>) follow the life of a task.
  \<^item> \<open>Json_Values\<close>: what a value becomes in a JSON column.  \<open>Context_Store\<close>:
    \<open>pkg/repository/context_repository_postgres.go\<close>, the tables of contexts, items and embedding links.
    \<open>Context_Compaction\<close>: \<open>pkg/core/compaction_strategies.go\<close>, what each strategy removes and keeps.
    \<open>Context_Packer\<close>: \<open>pkg/tokenizer\<close>, token counts over UTF-8 text, splitting, and the budget of a
    packed window.
  \<^item> \<open>Redis_Spec\<close>: the locale \<open>redis_server\<close>, the documented behaviour of the Redis commands the program
    uses, and a server that has it.  \<open>Document_Locks\<close>, \<open>Lock_Guarantees\<close>:
    \<open>pkg/services/document_lock_service.go\<close> over any such server: the operations of one instance
    (\<open>lock_op\<close>), a cluster of instances (\<open>lock_step\<close>), exclusion and the lifetime of locks, proved in the
    locale \<open>lock_store\<close>, and the races between commands.
  \<^item> \<open>Retry_Policy\<close>: \<open>pkg/retry/retry.go\<close> and \<open>pkg/errors/classified_errors.go\<close>: which errors are tried again,
    after which delay and how often.  \<open>Result_Aggregator\<close>: the aggregation of subtask results in
    \<open>task_helpers.go\<close>, with the vote for the majority under any order of the maps.
  \<^item> \<open>Edge_Cache\<close>: \<open>apps/edge-mcp/internal/cache\<close>, the in-memory cache of the edge server and the cache of
    two tiers over Redis; its goroutines are jobs that run in any order (\<open>tc_step\<close>).
  \<^item> \<open>Session_Store\<close>, \<open>Session_Service\<close>, \<open>Session_Guarantees\<close>: sessions of edge clients, the tables behind
    \<open>pkg/repository/session_repository.go\<close> and the service \<open>pkg/services/session_service.go\<close> with its cache
    in Redis: termination is final in every run (\<open>session_step\<close>, proved in the locale \<open>session_store\<close>), the
    limit per tenant, and what becomes of credentials.
  \<^item> \<open>Embedding_Router\<close>: \<open>pkg/embedding/router.go\<close> with its breaker \<open>circuit_breaker.go\<close>, which interprets
    \<open>locked_breaker\<close> too, and the preferences of \<open>pkg/agents/config.go\<close>: which providers a request is routed
    to, in every reachable router.
  \<^item> \<open>Conflict_Service\<close>: \<open>pkg/services/conflict_resolution_service.go\<close>, which keeps the replicas of \<open>State_Crdt\<close> and
    \<open>Document_Crdt\<close>, writes them to the repositories, and settles conflicts about tasks: synchronised
    instances store the same state.

  \<^bold>\<open>Loops and fuel.\<close>  Every function of the model is total: range loops are folds, and the
  loops that are not structural have a measure: the attempts left of \<open>RetryWithBackoff\<close>, for the
  depth-first search \<open>dfs_loop\<close> the steps not yet visited, for \<open>batch_loop\<close> of the task repository
  the tasks not yet inserted, and for the decoding of UTF-8 the bytes left.  The loops of the retry policies
  have no bound of their own and are partial functions, whose value None means that they do not
  return; \<open>eb_Execute_returns\<close> and \<open>fd_Execute_diverges\<close> say when they do.  No fuel is used; the
  depth limit of \<open>loadTaskChildren\<close> is the code's own parameter.  Integers that count requests are unbounded where the code's 64-bit counter
  cannot wrap in any feasible run; the widths of the counters of replicas, clocks, generations and
  header fields are kept.

  \<^bold>\<open>What the code does that one would not expect.\<close>  Some theorems state behaviour that its comments
  contradict: merging a document waits for itself (\<open>doc_Merge_blocks\<close>), a removed set element comes
  back (\<open>os_Remove_undone_by_merge\<close>), resynchronisation counts twice (\<open>st_resync_double_counts\<close>),
  refused calls keep a breaker open (\<open>cb_refused_calls_keep_open\<close>), the half-open phase is not
  protected (\<open>cb_half_open_unprotected\<close>), the loader's breaker can lock itself out
  (\<open>rag_locked_out\<close>), the in-memory cache disables the login limiter
  (\<open>al_memory_cache_never_limits\<close>), a cancelled batch is still executed
  (\<open>batch_cancelled_still_executed\<close>), closing a bulkhead races with its callers
  (\<open>bh_send_after_close\<close>), the workflow service cannot update a workflow
  (\<open>UpdateWorkflow_never_succeeds\<close>) nor run a step of a stored execution
  (\<open>ExecuteWorkflowStep_never_runs\<close>), executes a workflow once per ten minutes
  (\<open>ExecuteWorkflow_then_not_active\<close>), has no limit of retries (\<open>RetryExecution_unlimited\<close>) and rolls
  nothing back (\<open>WithTransaction_keeps_effects\<close>), and the assignment engine panics on agents without
  metadata (\<open>FindBestAgent_nil_metadata\<close>) and forgets a limit for cached workloads
  (\<open>isAgentOverloaded_forgets\<close>).  The task repository never retries a transient database error
  (\<open>create_never_retries_pq\<close>), takes missing tasks for failures of the database
  (\<open>missing_tasks_open_breaker\<close>), serves archived tasks (\<open>archived_task_still_served\<close>) and overwrites
  concurrent changes (\<open>Update_loses_concurrent_change\<close>); a task that has run out of time is never
  marked so (\<open>timeout_never_recorded\<close>); and pruning a context removes nothing
  (\<open>compactPrune_removes_nothing\<close>).  Releasing a document can remove somebody else's lock (\<open>unlock_race\<close>),
  a document is locked while others hold sections of it (\<open>document_lock_ignores_sections\<close>), whose own
  locks are never refreshed (\<open>section_never_refreshed\<close>), and the refresh can cut an extension short
  (\<open>refresh_shortens_extension\<close>).  A refused login is classified as invalid input
  (\<open>ClassifyHTTPError_classes\<close>), and different lists can share their votes (\<open>hashResult_collision\<close>).
  A hit in the second tier of the edge cache never serves a later request from the first (\<open>promotion_useless\<close>),
  and a deleted entry can come back (\<open>deleted_value_returns\<close>).  A session loses its credentials when it is
  refreshed soon after its creation (\<open>fresh_session_loses_credentials\<close>), and otherwise they are cached in the
  clear (\<open>credentials_cached_in_clear\<close>); termination races with readers (\<open>terminate_race\<close>), and a client
  without a type gets no session (\<open>untyped_client_rejected\<close>).  The router of embedding requests uses up the
  probes of a provider without calling it and then excludes it for ever (\<open>half_open_exhausted\<close>), and never reads
  the quality and load it records (\<open>measurements_ignored\<close>).  The conflict service forgets counters when it is
  restarted (\<open>restart_resets_counter\<close>), ignores increments and deletions in conflicts
  (\<open>resolved_increment_ignored\<close>, \<open>resolved_delete_ignored\<close>), waits for ever when it synchronises a document
  (\<open>sync_document_blocks\<close>), reopens cancelled tasks (\<open>cancelled_task_reopened\<close>) and ignores statuses that come
  from JSON (\<open>json_statuses_ignored\<close>).

  \<^bold>\<open>Not modelled, and next.\<close>  HTTP and WebSocket handlers, most SQL repositories, Redis streams, vendor
  adapters, embedding providers and observability are I/O around the parts above.  Of the workflow
  service, the executors of single steps (scripts, webhooks, approvals with notifications,
  branches), templates and reports are not modelled: \<open>run_step\<close> takes their results as an argument.
  Of the task service, distributed tasks, statistics, search and reports are left, of its repository the
  listing with cursors, streams and statistics.  Of the program's own logic, the next to model are the
  tool categories of the edge server (\<open>apps/edge-mcp/internal\<close>), the eviction
  of the embedding cache (\<open>pkg/embedding/cache\<close>), \<open>pkg/agents\<close>, and the loader's rate limiter.
\<close>

end
